(* ===== verification/Prelude.thy ===== *)
theory Prelude
  imports Main "HOL-Library.AList"
begin

text \<open>
  Shared vocabulary of the development: the lemma collections the component
  theories extend, fallible results, JavaScript's insertion-ordered sets and maps
  (\<open>Set\<close> and \<open>Map\<close>) as lists and association lists, and the list facts that
  several components use.
\<close>

named_theorems js_simps \<open>evaluation of JavaScript values and strings\<close>
named_theorems issue_simps \<open>when a validator function reports no issue\<close>
named_theorems store_simps \<open>effect of the durable store's operations\<close>

section \<open>Fallible results\<close>

text \<open>
  A function of the source that throws (or returns an \<open>ok: false\<close> variant) is a
  function into a sum, the error on the left. \<open>and_then\<close> sequences two of them the
  way statements follow each other under exceptions.
\<close>

definition and_then :: "'e + 'a \<Rightarrow> ('a \<Rightarrow> 'e + 'b) \<Rightarrow> 'e + 'b" where
  "and_then r f = (case r of Inl e \<Rightarrow> Inl e | Inr x \<Rightarrow> f x)"

lemma and_then_simps [simp]:
  "and_then (Inl e) f = Inl e"
  "and_then (Inr x) f = f x"
  by (simp_all add: and_then_def)

lemma and_then_InrE [elim!]:
  assumes "and_then r f = Inr y"
  obtains x where "r = Inr x" and "f x = Inr y"
  using assms by (cases r) auto

lemma and_then_eq_Inr_iff: "and_then r f = Inr y \<longleftrightarrow> (\<exists>x. r = Inr x \<and> f x = Inr y)"
  by (cases r) auto

text \<open>The guard \<open>if (bad) throw e\<close>.\<close>

definition reject_if :: "bool \<Rightarrow> 'e \<Rightarrow> 'e + unit" where
  "reject_if bad e = (if bad then Inl e else Inr ())"

lemma reject_if_simps [simp]:
  "reject_if False e = Inr ()"
  "reject_if True e = Inl e"
  "(reject_if bad e = Inr u) = (\<not> bad)"
  by (simp_all add: reject_if_def)

section \<open>Insertion-ordered sets and maps\<close>

text \<open>\<open>s.add(x)\<close>: a JavaScript \<open>Set\<close> enumerates its members in insertion order.\<close>

definition set_add :: "'a \<Rightarrow> 'a list \<Rightarrow> 'a list" where
  "set_add x xs = (if x \<in> set xs then xs else xs @ [x])"

lemma set_set_add [simp]: "set (set_add x xs) = insert x (set xs)"
  by (auto simp: set_add_def)

lemma distinct_set_add [simp]: "distinct (set_add x xs) = distinct xs"
  by (auto simp: set_add_def)

text \<open>\<open>[...new Set(xs)]\<close>: the first occurrence of every member.\<close>

definition set_of_list :: "'a list \<Rightarrow> 'a list" where
  "set_of_list xs = foldl (\<lambda>s x. set_add x s) [] xs"

lemma foldl_set_add:
  "set (foldl (\<lambda>s x. set_add x s) s xs) = set s \<union> set xs"
  "distinct (foldl (\<lambda>s x. set_add x s) s xs) = distinct s"
  by (induction xs arbitrary: s) auto

lemma set_set_of_list [simp]: "set (set_of_list xs) = set xs"
  by (simp add: set_of_list_def foldl_set_add)

lemma distinct_set_of_list [simp]: "distinct (set_of_list xs)"
  by (simp add: set_of_list_def foldl_set_add)

lemma set_of_list_Nil_iff [simp]: "set_of_list xs = [] \<longleftrightarrow> xs = []"
  by (metis set_empty set_set_of_list)

text \<open>
  \<open>m.set(k, v)\<close> keeps the position of an existing key, which is what
  \<open>AList.update\<close> does. \<open>map_push\<close> is the idiom
  \<open>m.set(k, [...(m.get(k) ?? []), v])\<close>, and \<open>map_list\<close> the read \<open>m.get(k) ?? []\<close>.
\<close>

definition map_list :: "('k \<times> 'v list) list \<Rightarrow> 'k \<Rightarrow> 'v list" where
  "map_list m k = (case map_of m k of None \<Rightarrow> [] | Some vs \<Rightarrow> vs)"

definition map_push :: "'k \<Rightarrow> 'v \<Rightarrow> ('k \<times> 'v list) list \<Rightarrow> ('k \<times> 'v list) list" where
  "map_push k v m = AList.update k (map_list m k @ [v]) m"

lemma map_list_Nil [simp]: "map_list [] k = []"
  by (simp add: map_list_def)

lemma map_list_push [simp]:
  "map_list (map_push k v m) k' = (if k' = k then map_list m k @ [v] else map_list m k')"
  by (simp add: map_list_def map_push_def update_conv')

lemma keys_map_push [simp]: "fst ` set (map_push k v m) = insert k (fst ` set m)"
  by (simp add: map_push_def dom_update)

lemma distinct_map_push [simp]:
  "distinct (map fst m) \<Longrightarrow> distinct (map fst (map_push k v m))"
  by (simp add: map_push_def distinct_update)

lemma map_list_mem:
  assumes "distinct (map fst m)" and "(k, vs) \<in> set m"
  shows "map_list m k = vs"
  using assms by (simp add: map_list_def)

section \<open>Lists\<close>

lemma concat_map_eq_Nil_iff [simp]:
  "concat (map f xs) = [] \<longleftrightarrow> (\<forall>x\<in>set xs. f x = [])"
  by auto

lemma filter_two:
  assumes "1 < length (filter P xs)"
  obtains as x bs y cs where "xs = as @ x # bs @ y # cs" and "P x" and "P y"
proof -
  obtain x r where f: "filter P xs = x # r" and r: "r \<noteq> []"
    using assms by (cases "filter P xs") auto
  then obtain as tl where x: "xs = as @ x # tl" "P x" "r = filter P tl"
    by (auto simp: filter_eq_Cons_iff)
  then obtain y r' where "filter P tl = y # r'" using r by (cases "filter P tl") auto
  then obtain bs cs where "tl = bs @ y # cs" "P y" by (auto simp: filter_eq_Cons_iff)
  with x that show thesis by blast
qed

lemma ball_enumerate: "(\<forall>x\<in>set (enumerate n xs). P (snd x)) \<longleftrightarrow> (\<forall>v\<in>set xs. P v)"
proof -
  have "set xs = snd ` set (enumerate n xs)" by (metis map_snd_enumerate set_map)
  then show ?thesis by auto
qed

text \<open>A loop that returns at its first failing element.\<close>

fun first_some :: "('a \<Rightarrow> 'e option) \<Rightarrow> 'a list \<Rightarrow> 'e option" where
  "first_some f [] = None"
| "first_some f (x # xs) = (case f x of None \<Rightarrow> first_some f xs | Some e \<Rightarrow> Some e)"

lemma first_some_None_iff [simp]: "first_some f xs = None \<longleftrightarrow> (\<forall>x\<in>set xs. f x = None)"
  by (induction xs) (auto split: option.splits)

lemma first_some_SomeD: "first_some f xs = Some e \<Longrightarrow> \<exists>x\<in>set xs. f x = Some e"
  by (induction xs) (auto split: option.splits)

text \<open>\<open>orElse\<close>: the statements after a guard that may return.\<close>

definition or_else :: "'e option \<Rightarrow> 'e + 'a \<Rightarrow> 'e + 'a" where
  "or_else r k = (case r of Some e \<Rightarrow> Inl e | None \<Rightarrow> k)"

lemma or_else_simps [simp]:
  "or_else None k = k" "or_else (Some e) k = Inl e"
  "or_else r k = Inr y \<longleftrightarrow> r = None \<and> k = Inr y"
  by (auto simp: or_else_def split: option.splits)

end
