(* ===== verification/JsValue.thy ===== *)
theory JsValue
  imports Prelude "HOL-Library.Char_ord" "HOL-Library.List_Lexorder"
begin

text \<open>
  The JavaScript the sources are written in: values, the equality tests, property
  reads, the string functions and the regular expressions the code uses, and
  \<open>JSON.stringify\<close>.

  A string is the list of its code units. The model covers strings whose code units
  are below 256 (Latin-1), one \<open>char\<close> each: \<open>length\<close> is JavaScript's \<open>length\<close> and
  \<open>byteLen\<close> its UTF-8 length. A number is an integer, a finite number that is not an
  integer (given by its canonical decimal text, so equal numbers have equal texts),
  an infinity or NaN; \<open>0\<close> and \<open>-0\<close>, which \<open>===\<close> identifies, are one value.
  The decimal text of an integer is exact below \<open>10 ^ 21\<close>.
\<close>

section \<open>Values\<close>

datatype jsnum = NInt int | NFrac string | NPosInf | NNegInf | NNaN

datatype jsval =
    JUndef
  | JNull
  | JBool bool
  | JNum jsnum
  | JStr string
  | JArr "jsval list"
  | JObj "(string \<times> jsval) list"
  | JFun

text \<open>
  The pairs of a \<open>JObj\<close> are its own enumerable properties in the order
  \<open>Object.entries\<close> gives them.
\<close>

fun entries :: "jsval \<Rightarrow> (string \<times> jsval) list" where
  "entries (JObj kvs) = kvs"
| "entries _ = []"

definition obj_keys :: "jsval \<Rightarrow> string list" where
  "obj_keys v = map fst (entries v)"

text \<open>\<open>v.k\<close> for a name \<open>k\<close> the source spells out (none is a member of \<open>Object.prototype\<close>).\<close>

definition fld :: "jsval \<Rightarrow> string \<Rightarrow> jsval" where
  "fld v k = (case map_of (entries v) k of None \<Rightarrow> JUndef | Some x \<Rightarrow> x)"

definition has_own :: "jsval \<Rightarrow> string \<Rightarrow> bool" where
  "has_own v k = (map_of (entries v) k \<noteq> None)"

text \<open>\<open>v[k]\<close> for a computed name: a name that is not an own property is looked up on
  \<open>Object.prototype\<close>.\<close>

definition object_prototype_methods :: "string list" where
  "object_prototype_methods =
    [''constructor'', ''__defineGetter__'', ''__defineSetter__'', ''hasOwnProperty'',
     ''__lookupGetter__'', ''__lookupSetter__'', ''isPrototypeOf'', ''propertyIsEnumerable'',
     ''toString'', ''valueOf'', ''toLocaleString'']"

definition get_prop :: "jsval \<Rightarrow> string \<Rightarrow> jsval" where
  "get_prop v k = (case map_of (entries v) k of
       Some x \<Rightarrow> x
     | None \<Rightarrow> if k = ''__proto__'' then JObj []
               else if k \<in> set object_prototype_methods then JFun
               else JUndef)"

fun isObj :: "jsval \<Rightarrow> bool" where
  "isObj (JObj _) = True"
| "isObj _ = False"

fun isStr :: "jsval \<Rightarrow> bool" where
  "isStr (JStr _) = True"
| "isStr _ = False"

fun isNum :: "jsval \<Rightarrow> bool" where
  "isNum (JNum _) = True"
| "isNum _ = False"

fun isBool :: "jsval \<Rightarrow> bool" where
  "isBool (JBool _) = True"
| "isBool _ = False"

fun isArr :: "jsval \<Rightarrow> bool" where
  "isArr (JArr _) = True"
| "isArr _ = False"

fun str_of :: "jsval \<Rightarrow> string" where
  "str_of (JStr s) = s"
| "str_of _ = []"

fun arr_of :: "jsval \<Rightarrow> jsval list" where
  "arr_of (JArr xs) = xs"
| "arr_of _ = []"

text \<open>\<open>typeof v === 'string' || 'number' || 'boolean'\<close>\<close>

definition isScalar :: "jsval \<Rightarrow> bool" where
  "isScalar v = (isStr v \<or> isNum v \<or> isBool v)"

text \<open>\<open>typeof v === 'number' && Number.isFinite(v)\<close>\<close>

fun isFiniteNum :: "jsval \<Rightarrow> bool" where
  "isFiniteNum (JNum (NInt _)) = True"
| "isFiniteNum (JNum (NFrac _)) = True"
| "isFiniteNum _ = False"

text \<open>\<open>typeof x === 'number' && Number.isInteger(x) && x > 0\<close>\<close>

fun isPosInt :: "jsval \<Rightarrow> bool" where
  "isPosInt (JNum (NInt n)) = (0 < n)"
| "isPosInt _ = False"

fun int_of :: "jsval \<Rightarrow> int" where
  "int_of (JNum (NInt n)) = n"
| "int_of _ = 0"

text \<open>A value in a condition position.\<close>

fun truthy :: "jsval \<Rightarrow> bool" where
  "truthy JUndef = False"
| "truthy JNull = False"
| "truthy (JBool b) = b"
| "truthy (JNum n) = (n \<noteq> NInt 0 \<and> n \<noteq> NNaN)"
| "truthy (JStr s) = (s \<noteq> [])"
| "truthy _ = True"

text \<open>
  \<open>===\<close> between a value read from one document and a value read from another: arrays
  and objects are compared by identity, and two documents share none.
  \<open>same_value_zero\<close> is the comparison of \<open>includes\<close> and of \<open>Set\<close>, where NaN equals
  itself.
\<close>

definition identity_typed :: "jsval \<Rightarrow> bool" where
  "identity_typed v = (case v of JArr _ \<Rightarrow> True | JObj _ \<Rightarrow> True | JFun \<Rightarrow> True | _ \<Rightarrow> False)"

definition same_value_zero :: "jsval \<Rightarrow> jsval \<Rightarrow> bool" where
  "same_value_zero a b = (a = b \<and> \<not> identity_typed a)"

definition strict_eq :: "jsval \<Rightarrow> jsval \<Rightarrow> bool" where
  "strict_eq a b = (same_value_zero a b \<and> a \<noteq> JNum NNaN)"

definition js_includes :: "jsval list \<Rightarrow> jsval \<Rightarrow> bool" where
  "js_includes xs v = list_ex (\<lambda>x. same_value_zero x v) xs"

section \<open>Strings\<close>

definition cunit :: "char \<Rightarrow> int" where
  "cunit c = of_char c"

definition is_lower :: "char \<Rightarrow> bool" where
  "is_lower c = (CHR ''a'' \<le> c \<and> c \<le> CHR ''z'')"

definition is_upper :: "char \<Rightarrow> bool" where
  "is_upper c = (CHR ''A'' \<le> c \<and> c \<le> CHR ''Z'')"

definition is_digit :: "char \<Rightarrow> bool" where
  "is_digit c = (CHR ''0'' \<le> c \<and> c \<le> CHR ''9'')"

definition is_alnum :: "char \<Rightarrow> bool" where
  "is_alnum c = (is_lower c \<or> is_upper c \<or> is_digit c)"

definition is_hex :: "char \<Rightarrow> bool" where
  "is_hex c = (is_digit c \<or> (CHR ''a'' \<le> c \<and> c \<le> CHR ''f''))"

text \<open>White space and line terminators below 256.\<close>

definition is_space :: "char \<Rightarrow> bool" where
  "is_space c = ((CHR 0x09 \<le> c \<and> c \<le> CHR 0x0D) \<or> c = CHR '' '' \<or> c = CHR 0xA0)"

definition trim :: "string \<Rightarrow> string" where
  "trim s = rev (dropWhile is_space (rev (dropWhile is_space s)))"

definition to_lower :: "string \<Rightarrow> string" where
  "to_lower s = map (\<lambda>c. if is_upper c \<or> (CHR 0xC0 \<le> c \<and> c \<le> CHR 0xDE \<and> c \<noteq> CHR 0xD7)
                          then char_of (cunit c + 32) else c) s"

definition starts_with :: "string \<Rightarrow> string \<Rightarrow> bool" where
  "starts_with s p = (take (length p) s = p)"

fun str_includes :: "string \<Rightarrow> string \<Rightarrow> bool" where
  "str_includes [] t = (t = [])"
| "str_includes (c # s) t = (starts_with (c # s) t \<or> str_includes s t)"

text \<open>\<open>Buffer.byteLength(s, 'utf8')\<close>\<close>

definition byteLen :: "string \<Rightarrow> nat" where
  "byteLen s = sum_list (map (\<lambda>c. if c < CHR 0x80 then 1 else 2) s)"

fun nat_digits :: "nat \<Rightarrow> string" where
  "nat_digits n = (if n < 10 then [char_of (48 + n)] else nat_digits (n div 10) @ [char_of (48 + n mod 10)])"

declare nat_digits.simps [simp del]

definition int_text :: "int \<Rightarrow> string" where
  "int_text n = (if n < 0 then CHR ''-'' # nat_digits (nat (- n)) else nat_digits (nat n))"

fun num_text :: "jsnum \<Rightarrow> string" where
  "num_text (NInt n) = int_text n"
| "num_text (NFrac s) = s"
| "num_text NPosInf = ''Infinity''"
| "num_text NNegInf = ''-Infinity''"
| "num_text NNaN = ''NaN''"

fun join_with :: "string \<Rightarrow> string list \<Rightarrow> string" where
  "join_with sep [] = []"
| "join_with sep [x] = x"
| "join_with sep (x # y # xs) = x @ sep @ join_with sep (y # xs)"

text \<open>\<open>String(v)\<close>\<close>

fun to_text :: "jsval \<Rightarrow> string" where
  "to_text JUndef = ''undefined''"
| "to_text JNull = ''null''"
| "to_text (JBool b) = (if b then ''true'' else ''false'')"
| "to_text (JNum n) = num_text n"
| "to_text (JStr s) = s"
| "to_text (JArr xs) = join_with '','' (map (\<lambda>x. if x = JUndef \<or> x = JNull then [] else to_text x) xs)"
| "to_text (JObj _) = ''[object Object]''"
| "to_text JFun = ''function Object() { [native code] }''"

section \<open>Regular expressions\<close>

text \<open>\<open>/^[first][rest]{0,n}$/\<close>, the shape of the identifier patterns.\<close>

fun id_like :: "(char \<Rightarrow> bool) \<Rightarrow> (char \<Rightarrow> bool) \<Rightarrow> nat \<Rightarrow> string \<Rightarrow> bool" where
  "id_like first rest n [] = False"
| "id_like first rest n (c # cs) = (first c \<and> list_all rest cs \<and> length cs \<le> n)"

text \<open>\<open>/^[A-Za-z_][A-Za-z0-9_]*$/\<close>\<close>

definition ident_start :: "char \<Rightarrow> bool" where
  "ident_start c = (is_lower c \<or> is_upper c \<or> c = CHR ''_'')"

definition ident_rest :: "char \<Rightarrow> bool" where
  "ident_rest c = (is_alnum c \<or> c = CHR ''_'')"

definition is_ident :: "string \<Rightarrow> bool" where
  "is_ident s = (case s of [] \<Rightarrow> False | c # cs \<Rightarrow> ident_start c \<and> list_all ident_rest cs)"

text \<open>\<open>/^\d{4}-\d{2}-\d{2}T\d{2}:\d{2}:\d{2}(?:\.\d{1,3})?Z$/\<close>\<close>

fun match_classes :: "(char \<Rightarrow> bool) list \<Rightarrow> string \<Rightarrow> string option" where
  "match_classes [] s = Some s"
| "match_classes (p # ps) [] = None"
| "match_classes (p # ps) (c # s) = (if p c then match_classes ps s else None)"

definition iso_prefix :: "(char \<Rightarrow> bool) list" where
  "iso_prefix = (let d = is_digit; ch = (\<lambda>x y. y = x) in
     [d, d, d, d, ch CHR ''-'', d, d, ch CHR ''-'', d, d, ch CHR ''T'',
      d, d, ch CHR '':'', d, d, ch CHR '':'', d, d])"

definition iso_utc :: "string \<Rightarrow> bool" where
  "iso_utc s = (case match_classes iso_prefix s of
       None \<Rightarrow> False
     | Some r \<Rightarrow> r = ''Z'' \<or>
         (starts_with r ''.'' \<and> r \<noteq> [] \<and> last r = CHR ''Z'' \<and>
          (let ds = butlast (tl r) in list_all is_digit ds \<and> 1 \<le> length ds \<and> length ds \<le> 3)))"

text \<open>\<open>/^[0-9a-f]{64}$/\<close>\<close>

definition hex64 :: "string \<Rightarrow> bool" where
  "hex64 s = (length s = 64 \<and> list_all is_hex s)"

section \<open>\<open>JSON.stringify\<close>\<close>

definition hex_digit :: "int \<Rightarrow> char" where
  "hex_digit n = (if n < 10 then char_of (48 + n) else char_of (87 + n))"

definition escape_char :: "char \<Rightarrow> string" where
  "escape_char c =
    (if c = CHR 0x22 then [CHR 0x5C, CHR 0x22]
     else if c = CHR 0x5C then [CHR 0x5C, CHR 0x5C]
     else if c = CHR 0x08 then [CHR 0x5C, CHR ''b'']
     else if c = CHR 0x09 then [CHR 0x5C, CHR ''t'']
     else if c = CHR 0x0A then [CHR 0x5C, CHR ''n'']
     else if c = CHR 0x0C then [CHR 0x5C, CHR ''f'']
     else if c = CHR 0x0D then [CHR 0x5C, CHR ''r'']
     else if c < CHR 0x20 then
       [CHR 0x5C, CHR ''u'', CHR ''0'', CHR ''0'', hex_digit (cunit c div 16), hex_digit (cunit c mod 16)]
     else [c])"

definition quote_string :: "string \<Rightarrow> string" where
  "quote_string s = [CHR 0x22] @ concat (map escape_char s) @ [CHR 0x22]"

text \<open>\<open>None\<close> is the result \<open>undefined\<close>: an array shows it as \<open>null\<close>, an object leaves the
  property out.\<close>

fun stringify :: "jsval \<Rightarrow> string option" where
  "stringify JUndef = None"
| "stringify JFun = None"
| "stringify JNull = Some ''null''"
| "stringify (JBool b) = Some (if b then ''true'' else ''false'')"
| "stringify (JNum n) = Some (case n of NInt _ \<Rightarrow> num_text n | NFrac _ \<Rightarrow> num_text n | _ \<Rightarrow> ''null'')"
| "stringify (JStr s) = Some (quote_string s)"
| "stringify (JArr xs) = Some (''['' @ join_with '',''
     (map (\<lambda>x. case stringify x of None \<Rightarrow> ''null'' | Some t \<Rightarrow> t) xs) @ '']'')"
| "stringify (JObj kvs) = Some (''{'' @ join_with '',''
     (concat (map (\<lambda>kv. case stringify (snd kv) of None \<Rightarrow> [] | Some t \<Rightarrow> [quote_string (fst kv) @ '':'' @ t]) kvs))
     @ ''}'')"

section \<open>Facts\<close>

lemma fld_simps [simp]:
  "fld (JObj []) k = JUndef"
  "fld (JObj ((k', v) # kvs)) k = (if k = k' then v else fld (JObj kvs) k)"
  "\<not> isObj v \<Longrightarrow> fld v k = JUndef"
  by (auto simp: fld_def) (cases v; simp)

lemma has_own_simps [simp]:
  "has_own (JObj []) k = False"
  "has_own (JObj ((k', v) # kvs)) k = (k = k' \<or> has_own (JObj kvs) k)"
  by (auto simp: has_own_def)

lemma has_own_iff: "has_own v k \<longleftrightarrow> k \<in> set (obj_keys v)"
  by (simp add: has_own_def obj_keys_def map_of_eq_None_iff)

lemma fld_in_entries: "fld v k \<noteq> JUndef \<Longrightarrow> (k, fld v k) \<in> set (entries v)"
  by (auto simp: fld_def split: option.splits dest: map_of_SomeD)

lemma obj_keys_simps [simp]:
  "obj_keys (JObj kvs) = map fst kvs"
  by (simp add: obj_keys_def)

lemma isStr_iff: "isStr v \<longleftrightarrow> (\<exists>s. v = JStr s)"
  by (cases v) auto

lemma isObj_iff: "isObj v \<longleftrightarrow> (\<exists>kvs. v = JObj kvs)"
  by (cases v) auto

lemma isArr_iff: "isArr v \<longleftrightarrow> (\<exists>xs. v = JArr xs)"
  by (cases v) auto

lemma isPosInt_iff: "isPosInt v \<longleftrightarrow> (\<exists>n. v = JNum (NInt n) \<and> 0 < n)"
  by (cases v rule: isPosInt.cases) auto

lemma isScalar_not_identity: "isScalar v \<Longrightarrow> \<not> identity_typed v"
  by (cases v) (auto simp: isScalar_def identity_typed_def)

lemma same_value_zero_sym: "same_value_zero a b \<Longrightarrow> same_value_zero b a"
  by (auto simp: same_value_zero_def)

lemma same_value_zero_trans: "same_value_zero a b \<Longrightarrow> same_value_zero b c \<Longrightarrow> same_value_zero a c"
  by (auto simp: same_value_zero_def)

lemma same_value_zero_JStr [simp]:
  "same_value_zero (JStr s) v \<longleftrightarrow> v = JStr s"
  "same_value_zero v (JStr s) \<longleftrightarrow> v = JStr s"
  by (auto simp: same_value_zero_def identity_typed_def)

lemma strict_eq_JStr [simp]:
  "strict_eq (JStr s) v \<longleftrightarrow> v = JStr s"
  "strict_eq v (JStr s) \<longleftrightarrow> v = JStr s"
  by (auto simp: strict_eq_def)

lemma js_includes_iff: "js_includes xs v \<longleftrightarrow> (\<exists>x\<in>set xs. same_value_zero x v)"
  by (simp add: js_includes_def list_ex_iff)

lemma strict_eq_imp_same: "strict_eq a b \<Longrightarrow> same_value_zero a b"
  by (simp add: strict_eq_def)

lemma starts_with_iff: "starts_with s p \<longleftrightarrow> (\<exists>r. s = p @ r)"
  by (auto simp: starts_with_def) (metis append_take_drop_id)

lemma str_includes_iff: "str_includes s t \<longleftrightarrow> (\<exists>a b. s = a @ t @ b)"
proof (induction s)
  case Nil
  then show ?case by auto
next
  case (Cons c s)
  show ?case
  proof
    assume "str_includes (c # s) t"
    then consider (here) r where "c # s = t @ r" | (later) a b where "s = a @ t @ b"
      using Cons.IH by (auto simp: starts_with_iff)
    then show "\<exists>a b. c # s = a @ t @ b"
    proof cases
      case here
      then have "c # s = [] @ t @ r" by simp
      then show ?thesis by blast
    next
      case later
      then have "c # s = (c # a) @ t @ b" by simp
      then show ?thesis by blast
    qed
  next
    assume "\<exists>a b. c # s = a @ t @ b"
    then obtain a b where ab: "c # s = a @ t @ b" by blast
    show "str_includes (c # s) t"
    proof (cases a)
      case Nil
      with ab have "starts_with (c # s) t" unfolding starts_with_iff by auto
      then show ?thesis by simp
    next
      case (Cons a' as)
      with ab Cons.IH show ?thesis by auto
    qed
  qed
qed

lemma byteLen_append [simp]: "byteLen (s @ t) = byteLen s + byteLen t"
  by (simp add: byteLen_def)

lemma length_le_byteLen: "length s \<le> byteLen s"
  by (induction s) (auto simp: byteLen_def)

section \<open>Evaluation\<close>

text \<open>Equations that decide on the first differing character.\<close>

lemma starts_with_code [code]:
  "starts_with s [] = True"
  "starts_with [] (p # ps) = False"
  "starts_with (c # s) (p # ps) = (if c = p then starts_with s ps else False)"
  by (simp_all add: starts_with_def)

lemma str_includes_code [code]:
  "str_includes [] t = (t = [])"
  "str_includes (c # s) t = (if starts_with (c # s) t then True else str_includes s t)"
  by auto

lemma escape_char_code [code]:
  "escape_char c =
    (if CHR 0x23 \<le> c then (if c = CHR 0x5C then [CHR 0x5C, CHR 0x5C] else [c])
     else if c = CHR 0x22 then [CHR 0x5C, CHR 0x22]
     else if c = CHR 0x08 then [CHR 0x5C, CHR ''b'']
     else if c = CHR 0x09 then [CHR 0x5C, CHR ''t'']
     else if c = CHR 0x0A then [CHR 0x5C, CHR ''n'']
     else if c = CHR 0x0C then [CHR 0x5C, CHR ''f'']
     else if c = CHR 0x0D then [CHR 0x5C, CHR ''r'']
     else if c < CHR 0x20 then
       [CHR 0x5C, CHR ''u'', CHR ''0'', CHR ''0'', hex_digit (cunit c div 16), hex_digit (cunit c mod 16)]
     else [c])"
  by (auto simp: escape_char_def less_eq_char_def less_char_def)

end
