(* ===== verification/TaskVerification.thy ===== *)
theory TaskVerification
  imports JsValue
begin

text \<open>
  The trusted task-verification contract (\<open>src/lib/task-verification.ts\<close> and the profile
  registry \<open>src/runtime/verifier-profiles.ts\<close>): the check of a step's \<open>verify\<close>
  configuration, the durable verification record, its construction from an exit code and
  its re-validation. SHA-256 (Node's \<open>crypto\<close>) is a parameter \<open>sha\<close> from text to hex text.
\<close>

section \<open>Verifier profiles\<close>

record verifier_profile =
  profile_id :: string
  profile_argv :: "string list"

definition PROFILES :: "(string \<times> verifier_profile) list" where
  "PROFILES = [(''node-test'', \<lparr>profile_id = ''node-test'', profile_argv = [''node'', ''--test'']\<rparr>)]"

definition VERIFIER_PROFILE_IDS :: "string list" where
  "VERIFIER_PROFILE_IDS = map fst PROFILES"

definition isKnownVerifierProfile :: "string \<Rightarrow> bool" where
  "isKnownVerifierProfile pid = (map_of PROFILES pid \<noteq> None)"

section \<open>Configuration\<close>

definition MAX_VERIFY_ARGV_ITEMS :: nat where "MAX_VERIFY_ARGV_ITEMS = 32"
definition MAX_VERIFY_ARGV_ITEM_LEN :: nat where "MAX_VERIFY_ARGV_ITEM_LEN = 4 * 1024"
definition MAX_VERIFY_PROFILE_LEN :: nat where "MAX_VERIFY_PROFILE_LEN = 128"

definition PROFILE_ID :: "string \<Rightarrow> bool" where
  "PROFILE_ID = id_like (\<lambda>c. is_lower c \<or> is_digit c) (\<lambda>c. is_lower c \<or> is_digit c \<or> c = CHR ''-'') 127"

datatype verify_config_error =
  VcNotObject | VcMissingProfile | VcBadProfile | VcUnknownProfile | VcUnknownField

definition validateTaskVerifyConfig :: "jsval \<Rightarrow> verify_config_error + string" where
  "validateTaskVerifyConfig input =
    (if \<not> isObj input then Inl VcNotObject
     else if list_ex (\<lambda>k. k \<noteq> ''profile'') (obj_keys input) then Inl VcUnknownField
     else if fld input ''profile'' = JUndef then Inl VcMissingProfile
     else if \<not> isStr (fld input ''profile'')
          \<or> length (str_of (fld input ''profile'')) > MAX_VERIFY_PROFILE_LEN
          \<or> \<not> PROFILE_ID (str_of (fld input ''profile'')) then Inl VcBadProfile
     else if \<not> isKnownVerifierProfile (str_of (fld input ''profile'')) then Inl VcUnknownProfile
     else Inr (str_of (fld input ''profile'')))"

section \<open>Records\<close>

datatype verification_kind = TestsPassed | TestsFailed

record task_verification =
  tv_kind :: verification_kind
  tv_profile :: string
  tv_argv :: "string list"
  tv_resolved_command_hash :: string
  tv_exit_code :: int
  tv_started_at :: string
  tv_finished_at :: string
  tv_content_hash :: string

definition computeVerificationContentHash :: "(string \<Rightarrow> string) \<Rightarrow> string \<Rightarrow> string" where
  "computeVerificationContentHash sha out = sha out"

definition computeResolvedCommandHash :: "(string \<Rightarrow> string) \<Rightarrow> string list \<Rightarrow> string" where
  "computeResolvedCommandHash sha argv =
    sha (case stringify (JArr (map JStr argv)) of None \<Rightarrow> [] | Some t \<Rightarrow> t)"

definition buildTaskVerification ::
  "(string \<Rightarrow> string) \<Rightarrow> string \<Rightarrow> string list \<Rightarrow> int \<Rightarrow> string \<Rightarrow> string \<Rightarrow> string \<Rightarrow> task_verification" where
  "buildTaskVerification sha profile argv exitCode startedAt finishedAt out =
    \<lparr>tv_kind = (if exitCode = 0 then TestsPassed else TestsFailed),
     tv_profile = profile, tv_argv = argv,
     tv_resolved_command_hash = computeResolvedCommandHash sha argv,
     tv_exit_code = exitCode, tv_started_at = startedAt, tv_finished_at = finishedAt,
     tv_content_hash = computeVerificationContentHash sha out\<rparr>"

text \<open>A record as the JSON object that is stored and parsed again.\<close>

definition kind_text :: "verification_kind \<Rightarrow> string" where
  "kind_text k = (case k of TestsPassed \<Rightarrow> ''tests_passed'' | TestsFailed \<Rightarrow> ''tests_failed'')"

definition verification_json :: "task_verification \<Rightarrow> jsval" where
  "verification_json v = JObj
    [(''schema_version'', JStr ''1''), (''kind'', JStr (kind_text (tv_kind v))),
     (''profile'', JStr (tv_profile v)), (''argv'', JArr (map JStr (tv_argv v))),
     (''resolved_command_hash'', JStr (tv_resolved_command_hash v)),
     (''exit_code'', JNum (NInt (tv_exit_code v))),
     (''started_at'', JStr (tv_started_at v)), (''finished_at'', JStr (tv_finished_at v)),
     (''content_hash'', JStr (tv_content_hash v))]"

datatype verification_error = InvalidVerification | UnsupportedVerificationVersion

fun is_int_num :: "jsval \<Rightarrow> bool" where
  "is_int_num (JNum (NInt _)) = True"
| "is_int_num _ = False"

definition validateTaskVerification :: "(string \<Rightarrow> string) \<Rightarrow> jsval \<Rightarrow> verification_error + task_verification" where
  "validateTaskVerification sha v =
    (let argv = arr_of (fld v ''argv'');
         profile = fld v ''profile'';
         hash = fld v ''resolved_command_hash''
     in if \<not> isObj v then Inl InvalidVerification
        else if fld v ''schema_version'' \<noteq> JStr ''1'' then
          (if isStr (fld v ''schema_version'') \<and> str_of (fld v ''schema_version'') > ''1''
           then Inl UnsupportedVerificationVersion else Inl InvalidVerification)
        else if fld v ''kind'' \<noteq> JStr ''tests_passed'' \<and> fld v ''kind'' \<noteq> JStr ''tests_failed''
        then Inl InvalidVerification
        else if \<not> is_int_num (fld v ''exit_code'') then Inl InvalidVerification
        else if (int_of (fld v ''exit_code'') = 0) \<noteq> (fld v ''kind'' = JStr ''tests_passed'')
        then Inl InvalidVerification
        else if \<not> isStr profile \<or> \<not> PROFILE_ID (str_of profile) \<or> \<not> isKnownVerifierProfile (str_of profile)
        then Inl InvalidVerification
        else if \<not> isArr (fld v ''argv'') \<or> argv = [] \<or> length argv > MAX_VERIFY_ARGV_ITEMS
          \<or> \<not> list_all (\<lambda>a. isStr a \<and> byteLen (str_of a) \<le> MAX_VERIFY_ARGV_ITEM_LEN) argv
        then Inl InvalidVerification
        else if \<not> isStr hash \<or> \<not> hex64 (str_of hash)
          \<or> str_of hash \<noteq> computeResolvedCommandHash sha (map str_of argv)
        then Inl InvalidVerification
        else if \<not> isStr (fld v ''started_at'') \<or> \<not> iso_utc (str_of (fld v ''started_at''))
        then Inl InvalidVerification
        else if \<not> isStr (fld v ''finished_at'') \<or> \<not> iso_utc (str_of (fld v ''finished_at''))
        then Inl InvalidVerification
        else if \<not> isStr (fld v ''content_hash'') \<or> \<not> hex64 (str_of (fld v ''content_hash''))
        then Inl InvalidVerification
        else Inr \<lparr>tv_kind = (if fld v ''kind'' = JStr ''tests_passed'' then TestsPassed else TestsFailed),
                  tv_profile = str_of profile, tv_argv = map str_of argv,
                  tv_resolved_command_hash = str_of hash,
                  tv_exit_code = int_of (fld v ''exit_code''),
                  tv_started_at = str_of (fld v ''started_at''),
                  tv_finished_at = str_of (fld v ''finished_at''),
                  tv_content_hash = str_of (fld v ''content_hash'')\<rparr>)"

definition verificationTestsResult :: "task_verification option \<Rightarrow> bool option" where
  "verificationTestsResult v = map_option (\<lambda>r. tv_kind r = TestsPassed) v"

definition verificationsEquivalent :: "task_verification option \<Rightarrow> task_verification option \<Rightarrow> bool" where
  "verificationsEquivalent a b = (case (a, b) of
      (None, None) \<Rightarrow> True
    | (Some x, Some y) \<Rightarrow>
        tv_kind x = tv_kind y \<and> tv_profile x = tv_profile y \<and> tv_exit_code x = tv_exit_code y \<and>
        tv_content_hash x = tv_content_hash y \<and>
        tv_resolved_command_hash x = tv_resolved_command_hash y \<and>
        tv_started_at x = tv_started_at y \<and> tv_finished_at x = tv_finished_at y \<and>
        length (tv_argv x) = length (tv_argv y) \<and> list_all2 (=) (tv_argv x) (tv_argv y)
    | _ \<Rightarrow> False)"

section \<open>Facts\<close>

lemma validateTaskVerifyConfig_Inr:
  "validateTaskVerifyConfig input = Inr p \<Longrightarrow>
    fld input ''profile'' = JStr p \<and> p \<in> set VERIFIER_PROFILE_IDS \<and> set (obj_keys input) \<subseteq> {''profile''}"
  by (auto simp: validateTaskVerifyConfig_def list_ex_iff isStr_iff isKnownVerifierProfile_def
      VERIFIER_PROFILE_IDS_def PROFILES_def split: if_splits)

text \<open>Whatever record validation accepts, its verdict is the exit code's and its command is the
  one whose hash it carries.\<close>

lemma validateTaskVerification_sound:
  assumes "validateTaskVerification sha v = Inr r"
  shows "(tv_kind r = TestsPassed \<longleftrightarrow> tv_exit_code r = 0) \<and>
    tv_profile r \<in> set VERIFIER_PROFILE_IDS \<and>
    tv_resolved_command_hash r = computeResolvedCommandHash sha (tv_argv r) \<and>
    tv_argv r \<noteq> [] \<and> length (tv_argv r) \<le> MAX_VERIFY_ARGV_ITEMS"
  using assms
  by (auto simp: validateTaskVerification_def Let_def isKnownVerifierProfile_def
      VERIFIER_PROFILE_IDS_def PROFILES_def split: if_splits)

lemma verificationsEquivalent_iff: "verificationsEquivalent a b \<longleftrightarrow> a = b"
  by (cases a; cases b) (auto simp: verificationsEquivalent_def list.rel_eq)

text \<open>A record built for an advertised profile validates to itself.\<close>

lemma validate_build:
  assumes "isKnownVerifierProfile profile"
    and "argv \<noteq> []" and "length argv \<le> MAX_VERIFY_ARGV_ITEMS"
    and "\<forall>a\<in>set argv. byteLen a \<le> MAX_VERIFY_ARGV_ITEM_LEN"
    and "iso_utc startedAt" and "iso_utc finishedAt" and "\<forall>s. hex64 (sha s)"
  shows "validateTaskVerification sha
      (verification_json (buildTaskVerification sha profile argv code startedAt finishedAt out)) =
    Inr (buildTaskVerification sha profile argv code startedAt finishedAt out)"
proof -
  have p: "profile = ''node-test''"
    using assms(1) by (auto simp: isKnownVerifierProfile_def PROFILES_def split: if_splits)
  have id_ok: "PROFILE_ID ''node-test''"
    by code_simp
  have strs: "map (str_of \<circ> JStr) argv = argv" by (simp add: map_idI)
  have all: "list_all (\<lambda>a. isStr a \<and> byteLen (str_of a) \<le> MAX_VERIFY_ARGV_ITEM_LEN) (map JStr argv)"
    using assms(4) by (auto simp: list_all_iff)
  show ?thesis
    unfolding p validateTaskVerification_def verification_json_def
    using assms id_ok all unfolding p
    by (simp add: Let_def kind_text_def buildTaskVerification_def computeVerificationContentHash_def
        computeResolvedCommandHash_def strs)
qed

end
