(* ===== verification/TaskResult.thy ===== *)
theory TaskResult
  imports TaskVerification
begin

text \<open>
  The durable result of an agent task (\<open>src/lib/agent-task-result.ts\<close>) and the workspace
  lease and revision contracts (\<open>src/lib/workspace-lease.ts\<close>): construction, validation of
  untrusted records and the idempotency equality. SHA-256 is the parameter \<open>sha\<close>; the
  Git observer of the lease contract is not modelled.
\<close>

section \<open>Task results\<close>

datatype task_result_status = RsPending | RsAvailable | RsMissing | RsInvalid

text \<open>References keep the JSON objects they are. \<open>process_exit_code\<close> is \<open>None\<close> for \<open>null\<close>.\<close>

record task_result =
  tr_text :: string
  tr_exit_code :: "int option"
  tr_finalized_at :: string
  tr_content_hash :: string
  tr_evidence_refs :: "jsval list"
  tr_artifact_refs :: "jsval list"
  tr_verification :: "task_verification option"

definition MAX_FINAL_OUTPUT_BYTES :: nat where "MAX_FINAL_OUTPUT_BYTES = 256 * 1024"
definition MAX_REFS :: nat where "MAX_REFS = 64"
definition MAX_REF_STR :: nat where "MAX_REF_STR = 4 * 1024"

definition computeResultContentHash :: "(string \<Rightarrow> string) \<Rightarrow> string \<Rightarrow> string" where
  "computeResultContentHash sha body = sha body"

definition buildTaskResult ::
  "(string \<Rightarrow> string) \<Rightarrow> string \<Rightarrow> int option \<Rightarrow> string \<Rightarrow> jsval list \<Rightarrow> jsval list \<Rightarrow>
   task_verification option \<Rightarrow> task_result" where
  "buildTaskResult sha body code finalizedAt evidence artifacts verification =
    \<lparr>tr_text = body, tr_exit_code = code, tr_finalized_at = finalizedAt,
     tr_content_hash = computeResultContentHash sha body, tr_evidence_refs = evidence,
     tr_artifact_refs = artifacts, tr_verification = verification\<rparr>"

datatype result_error = UnsupportedResultVersion | InvalidResult | ResultTooLarge | ContentHashMismatch

definition boundedRef :: "jsval \<Rightarrow> bool" where
  "boundedRef r = (isObj r \<and>
     list_all (\<lambda>kv. snd kv = JUndef \<or> (isStr (snd kv) \<and> byteLen (str_of (snd kv)) \<le> MAX_REF_STR)) (entries r) \<and>
     isStr (fld r ''kind''))"

definition boundedRefs :: "jsval \<Rightarrow> bool" where
  "boundedRefs v = (isArr v \<and> length (arr_of v) \<le> MAX_REFS \<and> list_all boundedRef (arr_of v))"

definition validateTaskResult :: "(string \<Rightarrow> string) \<Rightarrow> jsval \<Rightarrow> result_error + task_result" where
  "validateTaskResult sha v =
    (let fo = fld v ''final_output''; body = str_of (fld fo ''text''); ec = fld v ''process_exit_code'';
         result = (\<lambda>verification. \<lparr>tr_text = body,
           tr_exit_code = (if ec = JUndef \<or> ec = JNull then None else Some (int_of ec)),
           tr_finalized_at = str_of (fld v ''finalized_at''), tr_content_hash = str_of (fld v ''content_hash''),
           tr_evidence_refs = arr_of (fld v ''evidence_refs''), tr_artifact_refs = arr_of (fld v ''artifact_refs''),
           tr_verification = verification\<rparr>)
     in if \<not> isObj v then Inl InvalidResult
        else if fld v ''schema_version'' \<noteq> JStr ''1'' then
          (if isStr (fld v ''schema_version'') \<and> str_of (fld v ''schema_version'') > ''1''
           then Inl UnsupportedResultVersion else Inl InvalidResult)
        else if \<not> isObj fo \<or> fld fo ''kind'' \<noteq> JStr ''text'' \<or> \<not> isStr (fld fo ''text'') then Inl InvalidResult
        else if byteLen body > MAX_FINAL_OUTPUT_BYTES then Inl ResultTooLarge
        else if ec \<noteq> JUndef \<and> ec \<noteq> JNull \<and> \<not> is_int_num ec then Inl InvalidResult
        else if \<not> isStr (fld v ''finalized_at'') \<or> \<not> iso_utc (str_of (fld v ''finalized_at'')) then Inl InvalidResult
        else if \<not> isStr (fld v ''content_hash'') \<or> \<not> hex64 (str_of (fld v ''content_hash'')) then Inl InvalidResult
        else if str_of (fld v ''content_hash'') \<noteq> computeResultContentHash sha body then Inl ContentHashMismatch
        else if \<not> boundedRefs (fld v ''evidence_refs'') then Inl InvalidResult
        else if \<not> boundedRefs (fld v ''artifact_refs'') then Inl InvalidResult
        else if fld v ''verification'' \<noteq> JUndef \<and> fld v ''verification'' \<noteq> JNull then
          (case validateTaskVerification sha (fld v ''verification'') of
             Inl _ \<Rightarrow> Inl InvalidResult
           | Inr tv \<Rightarrow> Inr (result (Some tv)))
        else Inr (result None))"

definition resultsEquivalent :: "task_result \<Rightarrow> task_result \<Rightarrow> bool" where
  "resultsEquivalent a b \<longleftrightarrow> tr_content_hash a = tr_content_hash b \<and> tr_text a = tr_text b \<and>
    tr_exit_code a = tr_exit_code b \<and> verificationsEquivalent (tr_verification a) (tr_verification b)"

text \<open>The stored JSON form of a result.\<close>

definition result_json :: "task_result \<Rightarrow> jsval" where
  "result_json r = JObj (
    [(''schema_version'', JStr ''1''),
     (''final_output'', JObj [(''kind'', JStr ''text''), (''text'', JStr (tr_text r))]),
     (''process_exit_code'', case tr_exit_code r of None \<Rightarrow> JNull | Some n \<Rightarrow> JNum (NInt n)),
     (''finalized_at'', JStr (tr_finalized_at r)), (''content_hash'', JStr (tr_content_hash r)),
     (''evidence_refs'', JArr (tr_evidence_refs r)), (''artifact_refs'', JArr (tr_artifact_refs r))] @
    (case tr_verification r of None \<Rightarrow> [] | Some tv \<Rightarrow> [(''verification'', verification_json tv)]))"

lemma resultsEquivalent_refl [simp]: "resultsEquivalent r r"
  by (simp add: resultsEquivalent_def verificationsEquivalent_iff)

lemma resultsEquivalent_sym: "resultsEquivalent a b \<Longrightarrow> resultsEquivalent b a"
  by (auto simp: resultsEquivalent_def verificationsEquivalent_iff)

lemma resultsEquivalent_trans: "resultsEquivalent a b \<Longrightarrow> resultsEquivalent b c \<Longrightarrow> resultsEquivalent a c"
  by (auto simp: resultsEquivalent_def verificationsEquivalent_iff)

text \<open>An accepted record carries the hash of its own text, and a verdict only from a
  verification record whose exit code gives it.\<close>

lemma validateTaskResult_sound:
  assumes "validateTaskResult sha v = Inr r"
  shows "tr_content_hash r = sha (tr_text r) \<and> byteLen (tr_text r) \<le> MAX_FINAL_OUTPUT_BYTES \<and>
    (\<forall>tv. tr_verification r = Some tv \<longrightarrow> (tv_kind tv = TestsPassed \<longleftrightarrow> tv_exit_code tv = 0))"
  using assms validateTaskVerification_sound
  by (auto simp: validateTaskResult_def Let_def computeResultContentHash_def split: if_splits sum.splits)

lemma validate_build_result:
  assumes "byteLen body \<le> MAX_FINAL_OUTPUT_BYTES" and "iso_utc finalizedAt" and "\<forall>s. hex64 (sha s)"
    and "boundedRefs (JArr evidence)" and "boundedRefs (JArr artifacts)"
    and "\<forall>tv. verification = Some tv \<longrightarrow> validateTaskVerification sha (verification_json tv) = Inr tv"
  shows "validateTaskResult sha (result_json (buildTaskResult sha body code finalizedAt evidence artifacts verification)) =
    Inr (buildTaskResult sha body code finalizedAt evidence artifacts verification)"
proof (cases verification)
  case None
  with assms show ?thesis
    by (cases code)
      (simp_all add: validateTaskResult_def result_json_def buildTaskResult_def computeResultContentHash_def Let_def)
next
  case (Some tv)
  moreover have "verification_json tv \<noteq> JUndef" "verification_json tv \<noteq> JNull"
    by (simp_all add: verification_json_def)
  ultimately show ?thesis using assms
    by (cases code)
      (simp_all add: validateTaskResult_def result_json_def buildTaskResult_def computeResultContentHash_def Let_def)
qed

section \<open>Workspace leases and revisions\<close>

datatype lease_status = LAcquiring | LActive | LReleaseRequested | LReleased | LConflict

datatype workspace_revision =
    GitRevision "string option" bool string "string list" string
  | UnavailableRevision string string

fun state_hash :: "workspace_revision \<Rightarrow> string" where
  "state_hash (GitRevision head dirty h files at) = h"
| "state_hash (UnavailableRevision h at) = h"

record workspace_lease =
  wl_id :: string
  wl_workflow_id :: string
  wl_node_id :: string
  wl_workspace_key :: string
  wl_status :: lease_status
  wl_acquired_at :: "string option"
  wl_release_requested_at :: "string option"
  wl_released_at :: "string option"
  wl_base_revision :: "workspace_revision option"
  wl_current_revision :: "workspace_revision option"

text \<open>The hashed key separates its parts with NUL characters.\<close>

definition workspaceLeaseId :: "(string \<Rightarrow> string) \<Rightarrow> string \<Rightarrow> string \<Rightarrow> string \<Rightarrow> string" where
  "workspaceLeaseId sha workflowId nodeId workspaceKey =
    ''wl_'' @ take 32 (sha (workflowId @ [CHR 0x00] @ nodeId @ [CHR 0x00] @ workspaceKey))"

definition revisionsMatch :: "workspace_revision option \<Rightarrow> workspace_revision option \<Rightarrow> bool" where
  "revisionsMatch a b = (case (a, b) of (Some x, Some y) \<Rightarrow> state_hash x = state_hash y | _ \<Rightarrow> False)"

definition MAX_CHANGED_FILES :: nat where "MAX_CHANGED_FILES = 200"
definition MAX_PATH_LEN :: nat where "MAX_PATH_LEN = 1024"

text \<open>\<open>/^[0-9a-f]{7,40}$/\<close>\<close>

definition HEX40 :: "string \<Rightarrow> bool" where
  "HEX40 s = (7 \<le> length s \<and> length s \<le> 40 \<and> list_all is_hex s)"

definition isValidRevision :: "jsval \<Rightarrow> bool" where
  "isValidRevision v =
    ((isObj v \<or> isArr v) \<and>
     isStr (fld v ''state_hash'') \<and> hex64 (str_of (fld v ''state_hash'')) \<and>
     isStr (fld v ''observed_at'') \<and> iso_utc (str_of (fld v ''observed_at'')) \<and>
     (fld v ''revision_kind'' = JStr ''unavailable'' \<or>
      fld v ''revision_kind'' = JStr ''git'' \<and>
      (fld v ''head_commit'' = JNull \<or> isStr (fld v ''head_commit'') \<and> HEX40 (str_of (fld v ''head_commit''))) \<and>
      isBool (fld v ''dirty'') \<and>
      isArr (fld v ''changed_files'') \<and> length (arr_of (fld v ''changed_files'')) \<le> MAX_CHANGED_FILES \<and>
      list_all (\<lambda>x. isStr x \<and> length (str_of x) \<le> MAX_PATH_LEN) (arr_of (fld v ''changed_files''))))"

text \<open>Two workflows never share a lease id, provided the truncated hash separates their keys:
  the key itself is injective in its parts when the first two have no NUL.\<close>

lemma lease_key_injective:
  assumes "CHR 0x00 \<notin> set a" "CHR 0x00 \<notin> set b" "CHR 0x00 \<notin> set a'" "CHR 0x00 \<notin> set b'"
    and "a @ [CHR 0x00] @ b @ [CHR 0x00] @ c = a' @ [CHR 0x00] @ b' @ [CHR 0x00] @ c'"
  shows "a = a' \<and> b = b' \<and> c = c'"
proof -
  have stop: "takeWhile (\<lambda>c. c \<noteq> z) (x @ [z] @ y) = x" if "z \<notin> set x" for x y and z :: char
    using that by (induction x) auto
  have split: "x = x' \<and> y = y'" if "x @ [z] @ y = x' @ [z] @ y'" "z \<notin> set x" "z \<notin> set x'" for x x' y y' and z :: char
    using that stop [of z x y] stop [of z x' y'] by simp
  from split [OF assms(5) assms(1,3)] have "a = a'" "b @ [CHR 0x00] @ c = b' @ [CHR 0x00] @ c'" by simp_all
  with split [OF this(2) assms(2,4)] show ?thesis by simp
qed

end
