(* ===== verification/Contract.thy ===== *)
theory Contract
  imports JsValue
begin

text \<open>
  The declarative workflow contract (\<open>src/workflow/contract.ts\<close>): identifier
  patterns, enumerations, limits, round accounting, terminal targets and the event
  vocabulary. A \<open>WorkflowSpec\<close> is plain JSON and stays a \<^typ>\<open>jsval\<close>; its optional
  fields are read with \<^const>\<open>fld\<close>, absent fields being \<^const>\<open>JUndef\<close>.
\<close>

section \<open>Identifiers\<close>

definition SAFE_ID :: "string \<Rightarrow> bool" where
  "SAFE_ID = id_like (\<lambda>c. is_lower c \<or> is_digit c)
     (\<lambda>c. is_lower c \<or> is_digit c \<or> c = CHR ''_'' \<or> c = CHR ''-'') 63"

definition NODE_ID :: "string \<Rightarrow> bool" where
  "NODE_ID = id_like is_alnum
     (\<lambda>c. is_alnum c \<or> c = CHR ''.'' \<or> c = CHR ''_'' \<or> c = CHR ''-'') 127"

section \<open>Bounds and closed vocabularies\<close>

definition input_types :: "string list" where
  "input_types = [''string'', ''number'', ''boolean'', ''string[]'']"

definition schema_field_types :: "string list" where
  "schema_field_types = [''string'', ''number'', ''boolean'', ''string[]'', ''enum'']"

definition MAX_ENUM_VALUES :: nat where
  "MAX_ENUM_VALUES = 64"

definition MAX_ENUM_VALUE_LENGTH :: nat where
  "MAX_ENUM_VALUE_LENGTH = 128"

definition CONDITION_OPS :: "string list" where
  "CONDITION_OPS = [''eq'', ''neq'', ''exists'', ''in'']"

definition TERMINAL_TARGETS :: "string list" where
  "TERMINAL_TARGETS = [''$complete'', ''$failed'', ''$blocked'']"

definition isTerminalTarget :: "string \<Rightarrow> bool" where
  "isTerminalTarget t = (t \<in> set TERMINAL_TARGETS)"

definition LIMIT_MAXIMA :: "(string \<times> int) list" where
  "LIMIT_MAXIMA = [(''max_rounds'', 100), (''max_tasks'', 1000), (''max_runtime_seconds'', 86400),
     (''max_step_attempts'', 20), (''max_failures'', 100)]"

definition limit_maximum :: "string \<Rightarrow> int" where
  "limit_maximum k = (case map_of LIMIT_MAXIMA k of None \<Rightarrow> 0 | Some n \<Rightarrow> n)"

definition EVIDENCE_TYPES :: "string list" where
  "EVIDENCE_TYPES = [''task_status'', ''exit_code'', ''content_hash'', ''workspace_revision'',
     ''changed_files'', ''tests_passed'']"

definition STALL_SIGNALS :: "string list" where
  "STALL_SIGNALS = [''planner_next_step'', ''remaining_work'', ''workspace_revision'', ''verified_evidence'']"

definition KNOWN_SPEC_FIELDS :: "string list" where
  "KNOWN_SPEC_FIELDS = [''version'', ''name'', ''description'', ''entry_step'', ''inputs'', ''agents'',
     ''output_schemas'', ''limits'', ''steps'', ''edges'', ''completion_policy'', ''stall_policy'']"

definition CONTEXT_GROUPS :: "string list" where
  "CONTEXT_GROUPS = [''latest_planner_decision'', ''latest_executor_handoff'']"

definition CONTEXT_FIELDS :: "string \<Rightarrow> string list" where
  "CONTEXT_FIELDS g =
    (if g = ''latest_planner_decision''
     then [''status'', ''summary'', ''next_step'', ''acceptance_criteria'', ''open_questions'']
     else if g = ''latest_executor_handoff''
     then [''status'', ''summary'', ''changed_files'', ''tests_run'', ''remaining_work'', ''risks'']
     else [])"

section \<open>Workflow and step status\<close>

datatype workflow_status =
    WDraft | WReady | WRunning | WBlocked | WWaitingInput | WWaitingApproval
  | WCompleted | WFailed | WCancelled

datatype step_status =
    SPending | SRunning | SCompleted | SFailed | SSkipped | SCancelled

fun isTerminalWorkflowStatus :: "workflow_status \<Rightarrow> bool" where
  "isTerminalWorkflowStatus WCompleted = True"
| "isTerminalWorkflowStatus WFailed = True"
| "isTerminalWorkflowStatus WCancelled = True"
| "isTerminalWorkflowStatus _ = False"

fun isTerminalStepStatus :: "step_status \<Rightarrow> bool" where
  "isTerminalStepStatus SCompleted = True"
| "isTerminalStepStatus SFailed = True"
| "isTerminalStepStatus SSkipped = True"
| "isTerminalStepStatus SCancelled = True"
| "isTerminalStepStatus _ = False"

text \<open>The status a reserved edge target produces; other strings are not targets.\<close>

definition terminalTargetToStatus :: "string \<Rightarrow> workflow_status option" where
  "terminalTargetToStatus t =
    (if t = ''$complete'' then Some WCompleted
     else if t = ''$failed'' then Some WFailed
     else if t = ''$blocked'' then Some WBlocked
     else None)"

lemma terminalTargetToStatus_defined:
  "isTerminalTarget t \<longleftrightarrow> terminalTargetToStatus t \<noteq> None"
  by (auto simp: isTerminalTarget_def TERMINAL_TARGETS_def terminalTargetToStatus_def)

section \<open>Rounds\<close>

definition WORKFLOW_ROUND_START :: int where
  "WORKFLOW_ROUND_START = 1"

text \<open>Round numbers are integers in the model, so the \<open>Number.isInteger\<close> tests hold; a
  missing \<open>max_rounds\<close> is read as 0 by the caller.\<close>

definition canTakeLoopEdge :: "int \<Rightarrow> int \<Rightarrow> bool" where
  "canTakeLoopEdge currentRound maxRounds = (currentRound < maxRounds)"

section \<open>Workflow events\<close>

datatype workflow_event_type =
    EvCreated | EvValidated | EvStarted | EvStepStarted | EvStepTaskCreated | EvStepCompleted
  | EvStepFailed | EvEdgeSelected | EvRoundAdvanced | EvBlocked | EvPaused | EvResumed
  | EvCompleted | EvFailed | EvCancelled

definition STEP_SCOPED_EVENT_TYPES :: "workflow_event_type list" where
  "STEP_SCOPED_EVENT_TYPES = [EvStepStarted, EvStepTaskCreated, EvStepCompleted, EvStepFailed]"

definition isStepScopedEvent :: "workflow_event_type \<Rightarrow> bool" where
  "isStepScopedEvent t = (t \<in> set STEP_SCOPED_EVENT_TYPES)"

text \<open>\<open>/^[A-Za-z0-9][A-Za-z0-9._-]{0,127}$/\<close>, shared by the validator, the renderer and the
  lease records.\<close>

definition WORKSPACE_KEY :: "string \<Rightarrow> bool" where
  "WORKSPACE_KEY = id_like is_alnum
     (\<lambda>c. is_alnum c \<or> c = CHR ''.'' \<or> c = CHR ''_'' \<or> c = CHR ''-'') 127"

section \<open>Reading a spec\<close>

definition spec_edges :: "jsval \<Rightarrow> jsval list" where
  "spec_edges spec = arr_of (fld spec ''edges'')"

definition spec_steps :: "jsval \<Rightarrow> jsval list" where
  "spec_steps spec = arr_of (fld spec ''steps'')"

text \<open>\<open>spec.steps.find((s) => s.id === id)\<close>\<close>

definition find_step :: "jsval \<Rightarrow> string \<Rightarrow> jsval option" where
  "find_step spec sid = find (\<lambda>s. fld s ''id'' = JStr sid) (spec_steps spec)"

lemma find_step_Some:
  "find_step spec sid = Some s \<Longrightarrow> s \<in> set (spec_steps spec) \<and> fld s ''id'' = JStr sid"
  by (auto simp: find_step_def find_Some_iff)

end
