(* ===== verification/Policies.thy ===== *)
theory Policies
  imports Contract TaskResult
begin

text \<open>
  The two policies a workflow can declare: verified completion
  (\<open>src/workflow/completion-policy.ts\<close>) and no-progress detection
  (\<open>src/workflow/stall-policy.ts\<close>).
\<close>

section \<open>Completion policy\<close>

definition isCompletableSpec :: "jsval \<Rightarrow> bool" where
  "isCompletableSpec spec = (isArr (fld spec ''edges'') \<and>
     list_ex (\<lambda>e. truthy e \<and> fld e ''to'' = JStr ''$complete'') (arr_of (fld spec ''edges'')))"

record verified_evidence =
  ve_task_status :: "string option"
  ve_exit_code :: "int option"
  ve_content_hash :: "string option"
  ve_revision_before :: "string option"
  ve_revision_after :: "string option"
  ve_repository_changed :: "bool option"
  ve_changed_files :: "string list option"
  ve_changed_files_hash :: "string option"
  ve_tests_passed :: "bool option"

definition testsEvidenceFromRefs :: "jsval list option \<Rightarrow> bool option" where
  "testsEvidenceFromRefs refs = (case refs of None \<Rightarrow> None
    | Some rs \<Rightarrow>
        if list_ex (\<lambda>r. truthy r \<and> fld r ''kind'' = JStr ''tests_passed'') rs then Some True
        else if list_ex (\<lambda>r. truthy r \<and> fld r ''kind'' = JStr ''tests_failed'') rs then Some False
        else None)"

definition observed_changed_files :: "workspace_revision option \<Rightarrow> string list option" where
  "observed_changed_files r = (case r of Some (GitRevision _ _ _ files _) \<Rightarrow> Some files | _ \<Rightarrow> None)"

definition assembleEvidence ::
  "(string \<Rightarrow> string) \<Rightarrow> string option \<Rightarrow> task_result option \<Rightarrow> workspace_revision option \<Rightarrow>
   workspace_revision option \<Rightarrow> verified_evidence" where
  "assembleEvidence sha taskStatus result before after =
    (let b = map_option state_hash before; a = map_option state_hash after; files = observed_changed_files after
     in \<lparr>ve_task_status = taskStatus,
         ve_exit_code = (case result of None \<Rightarrow> None | Some r \<Rightarrow> tr_exit_code r),
         ve_content_hash = map_option tr_content_hash result,
         ve_revision_before = b, ve_revision_after = a,
         ve_repository_changed = (case (b, a) of (Some x, Some y) \<Rightarrow> Some (x \<noteq> y) | _ \<Rightarrow> None),
         ve_changed_files = files,
         ve_changed_files_hash = map_option (\<lambda>fs. sha (case stringify (JArr (map JStr (sort fs))) of
            None \<Rightarrow> [] | Some t \<Rightarrow> t)) files,
         ve_tests_passed = (case result of None \<Rightarrow> None | Some r \<Rightarrow> verificationTestsResult (tr_verification r))\<rparr>)"

datatype evidence_type =
  EvTaskStatus | EvExitCode | EvContentHash | EvWorkspaceRevision | EvChangedFiles | EvTestsPassed

definition evidence_name :: "evidence_type \<Rightarrow> string" where
  "evidence_name t = (case t of EvTaskStatus \<Rightarrow> ''task_status'' | EvExitCode \<Rightarrow> ''exit_code''
     | EvContentHash \<Rightarrow> ''content_hash'' | EvWorkspaceRevision \<Rightarrow> ''workspace_revision''
     | EvChangedFiles \<Rightarrow> ''changed_files'' | EvTestsPassed \<Rightarrow> ''tests_passed'')"

fun evidence_present :: "evidence_type \<Rightarrow> verified_evidence \<Rightarrow> bool" where
  "evidence_present EvTaskStatus e = (ve_task_status e = Some ''completed'')"
| "evidence_present EvExitCode e = (ve_exit_code e \<noteq> None)"
| "evidence_present EvContentHash e = (ve_content_hash e \<noteq> None \<and> ve_content_hash e \<noteq> Some [])"
| "evidence_present EvWorkspaceRevision e = (ve_revision_before e \<noteq> None \<and> ve_revision_after e \<noteq> None)"
| "evidence_present EvChangedFiles e = (ve_changed_files e \<noteq> None)"
| "evidence_present EvTestsPassed e = (ve_tests_passed e \<noteq> None)"

record completion_policy =
  required_evidence :: "evidence_type list"
  require_repository_change :: bool
  require_no_remaining_work :: bool
  require_tests_passed :: bool

datatype completion_decision =
    Complete
  | BlockedVerification "string list"
  | FailedEvidence string

text \<open>\<open>remainingWork\<close> is \<open>None\<close> for a value that is not an array.\<close>

definition missing_evidence :: "completion_policy \<Rightarrow> verified_evidence \<Rightarrow> jsval list option \<Rightarrow> string list" where
  "missing_evidence policy e remainingWork =
    concat (map (\<lambda>t. if evidence_present t e then [] else [evidence_name t]) (required_evidence policy)) @
    (if require_repository_change policy \<and> ve_repository_changed e \<noteq> Some True then [''repository_change''] else []) @
    (if require_tests_passed policy \<and> ve_tests_passed e \<noteq> Some True then [''tests_passed''] else []) @
    (if require_no_remaining_work policy \<and> remainingWork \<noteq> None \<and> remainingWork \<noteq> Some []
     then [''no_remaining_work''] else [])"

definition evaluateCompletion :: "completion_policy \<Rightarrow> verified_evidence \<Rightarrow> jsval list option \<Rightarrow> completion_decision" where
  "evaluateCompletion policy e remainingWork =
    (let missing = missing_evidence policy e remainingWork
     in if ve_task_status e = Some ''failed'' \<or> ve_task_status e = Some ''cancelled''
        then FailedEvidence ''evidence_conflict_task_status''
        else if ve_exit_code e \<noteq> None \<and> ve_exit_code e \<noteq> Some 0
        then FailedEvidence ''evidence_conflict_nonzero_exit''
        else if require_tests_passed policy \<and> ve_tests_passed e = Some False
        then FailedEvidence ''evidence_conflict_tests_failed''
        else if missing \<noteq> [] then BlockedVerification (set_of_list missing)
        else Complete)"

text \<open>Completion is decided exactly when every demand of the policy is met by observed
  evidence and nothing contradicts it.\<close>

lemma evaluateCompletion_Complete_iff:
  "evaluateCompletion policy e remainingWork = Complete \<longleftrightarrow>
    ve_task_status e \<notin> {Some ''failed'', Some ''cancelled''} \<and> ve_exit_code e \<in> {None, Some 0} \<and>
    (\<forall>t\<in>set (required_evidence policy). evidence_present t e) \<and>
    (require_repository_change policy \<longrightarrow> ve_repository_changed e = Some True) \<and>
    (require_tests_passed policy \<longrightarrow> ve_tests_passed e = Some True) \<and>
    (require_no_remaining_work policy \<longrightarrow> remainingWork \<in> {None, Some []})"
  by (auto simp: evaluateCompletion_def missing_evidence_def Let_def split: if_splits)

lemma evaluateCompletion_blocked:
  assumes "evaluateCompletion policy e remainingWork = BlockedVerification missing"
  shows "missing \<noteq> [] \<and> distinct missing"
  using assms by (auto simp: evaluateCompletion_def Let_def split: if_splits)

text \<open>The tests flag of assembled evidence is the verdict of the verification record, and that
  record's verdict is its exit code.\<close>

lemma assembleEvidence_tests:
  "ve_tests_passed (assembleEvidence sha st result before after) = Some True \<longleftrightarrow>
    (\<exists>r tv. result = Some r \<and> tr_verification r = Some tv \<and> tv_kind tv = TestsPassed)"
  by (auto simp: assembleEvidence_def Let_def verificationTestsResult_def split: option.splits)

lemma assembleEvidence_change:
  "ve_repository_changed (assembleEvidence sha st result before after) = Some True \<longleftrightarrow>
    (\<exists>b a. before = Some b \<and> after = Some a \<and> state_hash b \<noteq> state_hash a)"
  by (auto simp: assembleEvidence_def Let_def split: option.splits)

section \<open>Stall policy\<close>

datatype stall_signal = SigPlannerNextStep | SigRemainingWork | SigWorkspaceRevision | SigVerifiedEvidence

definition signal_name :: "stall_signal \<Rightarrow> string" where
  "signal_name s = (case s of SigPlannerNextStep \<Rightarrow> ''planner_next_step'' | SigRemainingWork \<Rightarrow> ''remaining_work''
     | SigWorkspaceRevision \<Rightarrow> ''workspace_revision'' | SigVerifiedEvidence \<Rightarrow> ''verified_evidence'')"

record stall_values =
  sv_planner_next_step :: string
  sv_remaining_work :: string
  sv_workspace_revision :: string
  sv_verified_evidence :: string

definition signal_value :: "stall_values \<Rightarrow> stall_signal \<Rightarrow> string" where
  "signal_value v s = (case s of SigPlannerNextStep \<Rightarrow> sv_planner_next_step v | SigRemainingWork \<Rightarrow> sv_remaining_work v
     | SigWorkspaceRevision \<Rightarrow> sv_workspace_revision v | SigVerifiedEvidence \<Rightarrow> sv_verified_evidence v)"

text \<open>The hashed text: the distinct signals sorted by name, one \<open>name=value\<close> part each, joined
  by NUL characters.\<close>

definition stall_text :: "stall_signal list \<Rightarrow> stall_values \<Rightarrow> string" where
  "stall_text signals v = join_with [CHR 0x00]
     (map (\<lambda>s. signal_name s @ ''='' @ signal_value v s) (sort_key signal_name (set_of_list signals)))"

definition computeStallFingerprint :: "(string \<Rightarrow> string) \<Rightarrow> stall_signal list \<Rightarrow> stall_values \<Rightarrow> string" where
  "computeStallFingerprint sha signals v = take 32 (sha (stall_text signals v))"

definition consecutiveUnchanged :: "string list \<Rightarrow> nat" where
  "consecutiveUnchanged fps = (if fps = [] then 0 else length (takeWhile (\<lambda>f. f = last fps) (rev fps)))"

definition isStalled :: "string list \<Rightarrow> int \<Rightarrow> bool" where
  "isStalled fps maxStalledRounds = (int (consecutiveUnchanged fps) \<ge> maxStalledRounds)"

lemma signal_name_inj: "signal_name s = signal_name t \<Longrightarrow> s = t"
  by (cases s; cases t) (simp_all add: signal_name_def)

lemma sort_key_unique:
  assumes "inj f" and "set xs = set ys" and "distinct xs" and "distinct ys"
  shows "sort_key (f :: 'a \<Rightarrow> 'b::linorder) xs = sort_key f ys"
proof -
  have "map f (sort_key f xs) = map f (sort_key f ys)"
    using assms by (intro sorted_distinct_set_unique) (auto simp: distinct_map inj_on_def inj_def)
  then show ?thesis using assms(1) by (simp add: inj_map_eq_map)
qed

text \<open>The fingerprint looks at the set of configured signals and at nothing else: neither
  their order nor repetition matters, nor a signal that is not configured.\<close>

lemma computeStallFingerprint_cong:
  assumes "set signals = set signals'" and "\<forall>s\<in>set signals. signal_value v s = signal_value v' s"
  shows "computeStallFingerprint sha signals v = computeStallFingerprint sha signals' v'"
proof -
  have same: "sort_key signal_name (set_of_list signals) = sort_key signal_name (set_of_list signals')"
    using assms(1) by (intro sort_key_unique) (auto simp: inj_def signal_name_inj)
  moreover have "map (\<lambda>s. signal_name s @ ''='' @ signal_value v s) (sort_key signal_name (set_of_list signals')) =
      map (\<lambda>s. signal_name s @ ''='' @ signal_value v' s) (sort_key signal_name (set_of_list signals'))"
    using assms by simp
  ultimately show ?thesis unfolding computeStallFingerprint_def stall_text_def by (simp only:)
qed

lemma consecutiveUnchanged_snoc:
  "consecutiveUnchanged (fps @ [f]) = (if fps \<noteq> [] \<and> last fps = f then Suc (consecutiveUnchanged fps) else 1)"
proof (cases fps rule: rev_cases)
  case Nil
  then show ?thesis by (simp add: consecutiveUnchanged_def)
next
  case (snoc ys y)
  then show ?thesis by (auto simp: consecutiveUnchanged_def)
qed

lemma takeWhile_ge_iff: "n \<le> length (takeWhile P xs) \<longleftrightarrow> n \<le> length xs \<and> list_all P (take n xs)"
proof (induction xs arbitrary: n)
  case (Cons x xs)
  then show ?case by (cases n) auto
qed auto

text \<open>A stall is exactly a run of \<open>k\<close> equal fingerprints at the end of the history.\<close>

lemma isStalled_iff:
  assumes "0 < k"
  shows "isStalled fps (int k) \<longleftrightarrow> k \<le> length fps \<and> (\<forall>f\<in>set (drop (length fps - k) fps). f = last fps)"
proof (cases "fps = []")
  case True
  then show ?thesis using assms by (simp add: isStalled_def consecutiveUnchanged_def)
next
  case False
  then have "isStalled fps (int k) \<longleftrightarrow> k \<le> length (takeWhile (\<lambda>f. f = last fps) (rev fps))"
    by (simp add: isStalled_def consecutiveUnchanged_def)
  also have "\<dots> \<longleftrightarrow> k \<le> length fps \<and> list_all (\<lambda>f. f = last fps) (take k (rev fps))"
    by (simp add: takeWhile_ge_iff)
  also have "\<dots> \<longleftrightarrow> k \<le> length fps \<and> (\<forall>f\<in>set (drop (length fps - k) fps). f = last fps)"
    by (auto simp: take_rev list_all_iff)
  finally show ?thesis .
qed

end
