(* ===== verification/Records.thy ===== *)
theory Records
  imports TaskResult Contract Policies
begin

text \<open>
  The record contracts of the durable control store (\<open>src/control/records.ts\<close>), the bounded
  serialisation helpers (\<open>src/control/serialization.ts\<close>) and the keyed tables the store is
  made of. A column that holds JSON text is the value that text stands for; the size bound
  applies to its JSON text. Statuses of workflows and steps and the workflow event types
  are the contract's closed vocabularies.
\<close>

section \<open>Errors\<close>

text \<open>\<open>ConstraintViolation\<close> is the driver's own error for a broken foreign key or uniqueness
  constraint.\<close>

datatype store_error =
    NotFound | RevisionConflict | Duplicate | EventConflict | EventGap | InvalidRecord | Corruption
  | InvalidTransition | TooLarge | ForbiddenField | IdempotencyConflict | ResultConflict | Closed
  | ConstraintViolation

section \<open>Identifiers\<close>

definition isSafeId :: "string \<Rightarrow> bool" where
  "isSafeId = id_like is_alnum
     (\<lambda>c. is_alnum c \<or> c = CHR ''.'' \<or> c = CHR ''_'' \<or> c = CHR '':'' \<or> c = CHR ''-'') 127"

definition isTaskEventType :: "string \<Rightarrow> bool" where
  "isTaskEventType = id_like is_lower (\<lambda>c. is_lower c \<or> is_digit c \<or> c = CHR ''_'' \<or> c = CHR ''.'') 63"

definition TASK_TERMINAL_STATUSES :: "string list" where
  "TASK_TERMINAL_STATUSES = [''completed'', ''failed'', ''cancelled'']"

section \<open>Serialisation\<close>

definition limit_metadata_json :: nat where "limit_metadata_json = 16 * 1024"
definition limit_task_event_payload :: nat where "limit_task_event_payload = 64 * 1024"
definition limit_spec_json :: nat where "limit_spec_json = 256 * 1024"
definition limit_context_json :: nat where "limit_context_json = 128 * 1024"
definition limit_step_output_json :: nat where "limit_step_output_json = 64 * 1024"
definition limit_step_error_json :: nat where "limit_step_error_json = 16 * 1024"
definition limit_workflow_event_payload :: nat where "limit_workflow_event_payload = 64 * 1024"
definition limit_input_text :: nat where "limit_input_text = 64 * 1024"
definition limit_error_message :: nat where "limit_error_message = 4 * 1024"

definition encodeJson :: "jsval \<Rightarrow> nat \<Rightarrow> store_error + string" where
  "encodeJson v maxBytes = (case stringify v of
      None \<Rightarrow> Inl InvalidRecord
    | Some t \<Rightarrow> if byteLen t > maxBytes then Inl TooLarge else Inr t)"

definition boundString :: "string \<Rightarrow> nat \<Rightarrow> store_error + string" where
  "boundString s maxBytes = (if byteLen s > maxBytes then Inl TooLarge else Inr s)"

text \<open>An optional JSON column: \<open>v != null ? encodeJson(v) : null\<close>, keeping the value.\<close>

definition encodeOpt :: "jsval \<Rightarrow> nat \<Rightarrow> store_error + jsval option" where
  "encodeOpt v maxBytes = (if v = JUndef \<or> v = JNull then Inr None
     else and_then (encodeJson v maxBytes) (\<lambda>_. Inr (Some v)))"

definition CONTEXT_ALLOWED_KEYS :: "string list" where
  "CONTEXT_ALLOWED_KEYS = [''objective'', ''current_round'', ''latest_planner_decision'', ''latest_executor_handoff'',
     ''decisions'', ''open_questions'', ''verified_evidence'', ''prior_task_ids'', ''history_summaries'']"

definition STORE_SECRET_TOKENS :: "string list" where
  "STORE_SECRET_TOKENS = [''token'', ''secret'', ''password'', ''passwd'', ''apikey'', ''bearer'', ''credential'',
     ''privatekey'', ''encryptionkey'', ''accesskey'', ''sessionhistory'', ''processid'']"

definition isForbiddenKey :: "string \<Rightarrow> bool" where
  "isForbiddenKey key = (let norm = filter (\<lambda>c. is_lower c \<or> is_digit c) (to_lower key)
     in norm = ''pid'' \<or> list_ex (\<lambda>t. str_includes norm t) STORE_SECRET_TOKENS)"

fun has_forbidden_field :: "jsval \<Rightarrow> bool" where
  "has_forbidden_field (JArr xs) = list_ex has_forbidden_field xs"
| "has_forbidden_field (JObj kvs) = list_ex (\<lambda>kv. isForbiddenKey (fst kv) \<or> has_forbidden_field (snd kv)) kvs"
| "has_forbidden_field _ = False"

definition assertNoForbiddenFields :: "jsval \<Rightarrow> store_error + unit" where
  "assertNoForbiddenFields v = reject_if (has_forbidden_field v) ForbiddenField"

definition assertValidContext :: "jsval \<Rightarrow> store_error + unit" where
  "assertValidContext ctx =
    (if \<not> isObj ctx then Inl InvalidRecord
     else if list_ex (\<lambda>k. k \<notin> set CONTEXT_ALLOWED_KEYS) (obj_keys ctx) then Inl ForbiddenField
     else assertNoForbiddenFields ctx)"

section \<open>Keyed tables\<close>

text \<open>A table is the list of its rows in insertion order; \<open>key\<close> is its primary key.\<close>

definition sel :: "('r \<Rightarrow> 'k) \<Rightarrow> 'k \<Rightarrow> 'r list \<Rightarrow> 'r option" where
  "sel key k rows = find (\<lambda>r. key r = k) rows"

definition upd :: "('r \<Rightarrow> 'k) \<Rightarrow> 'k \<Rightarrow> ('r \<Rightarrow> 'r) \<Rightarrow> 'r list \<Rightarrow> 'r list" where
  "upd key k f rows = map (\<lambda>r. if key r = k then f r else r) rows"

lemma sel_Nil [simp]: "sel key k [] = None"
  by (simp add: sel_def)

lemma sel_append [simp]:
  "sel key k (rows @ [r]) = (case sel key k rows of Some x \<Rightarrow> Some x | None \<Rightarrow> if key r = k then Some r else None)"
  by (induction rows) (auto simp: sel_def)

lemma sel_key: "sel key k rows = Some r \<Longrightarrow> key r = k \<and> r \<in> set rows"
  by (auto simp: sel_def find_Some_iff)

lemma sel_None_iff: "sel key k rows = None \<longleftrightarrow> k \<notin> key ` set rows"
  by (auto simp: sel_def find_None_iff)

lemma sel_upd:
  assumes "\<And>r. key (f r) = key r"
  shows "sel key k (upd key k' f rows) = (if k = k' then map_option f (sel key k rows) else sel key k rows)"
  using assms by (induction rows) (auto simp: sel_def upd_def)

lemma map_key_upd: "(\<And>r. key (f r) = key r) \<Longrightarrow> map key (upd key k f rows) = map key rows"
  by (auto simp: upd_def)

lemma key_image_upd: "(\<And>r. key (f r) = key r) \<Longrightarrow> key ` set (upd key k f rows) = key ` set rows"
  using map_key_upd [of key f k rows] by (metis list.set_map)

lemma in_set_upd: "r \<in> set (upd key k f rows) \<longleftrightarrow> (\<exists>x\<in>set rows. r = (if key x = k then f x else x))"
  unfolding upd_def set_map by blast

lemma sel_mem:
  assumes "distinct (map key rows)" and "r \<in> set rows"
  shows "sel key (key r) rows = Some r"
  using assms by (induction rows) (auto simp: sel_def)

end
