(* ===== verification/StoreTables.thy ===== *)
theory StoreTables
  imports Records
begin

text \<open>
  The tables of the durable control store (\<open>src/control/sqlite-store.ts\<close>, schema in
  \<open>src/control/migrations.ts\<close>): one record per row shape, the store as the record of its tables,
  and the row lookups. Statuses and event types are the contract's closed vocabularies
  where the store checks them and strings where it does not.
\<close>

section \<open>Rows\<close>

record workflow_row =
  wf_id :: string
  wf_revision :: int
  wf_spec_version :: string
  wf_name :: string
  wf_spec :: jsval
  wf_status :: workflow_status
  wf_current_step_id :: "string option"
  wf_current_round :: int
  wf_total_tasks :: int
  wf_total_failures :: int
  wf_started_at :: "string option"
  wf_created_at :: string
  wf_updated_at :: string
  wf_terminal_at :: "string option"
  wf_last_event_sequence :: int
  wf_context_revision :: int
  wf_context :: "jsval option"
  wf_earliest_retained_sequence :: int
  wf_input_values :: "jsval option"
  wf_cancel_requested :: bool

record step_row =
  se_id :: string
  se_workflow_id :: string
  se_step_id :: string
  se_round :: int
  se_attempt :: int
  se_task_id :: "string option"
  se_revision :: int
  se_status :: step_status
  se_output :: "jsval option"
  se_error :: "jsval option"
  se_created_at :: string
  se_started_at :: "string option"
  se_updated_at :: string
  se_terminal_at :: "string option"
  se_revision_before :: "workspace_revision option"
  se_revision_after :: "workspace_revision option"
  se_result_awaited_since :: "string option"

record workflow_event_row =
  we_workflow_id :: string
  we_sequence :: int
  we_type :: workflow_event_type
  we_ts :: string
  we_step_execution_id :: "string option"
  we_payload_json :: string
  we_created_at :: string

datatype human_kind = InputRequest | ApprovalRequest
datatype human_status = HPending | HAnswered | HApproved | HRejected

record human_request_row =
  hr_id :: string
  hr_workflow_id :: string
  hr_step_execution_id :: string
  hr_kind :: human_kind
  hr_prompt :: string
  hr_choices :: "string list option"
  hr_status :: human_status
  hr_response_value :: "string option"
  hr_created_at :: string
  hr_responded_at :: "string option"
  hr_updated_at :: string
  hr_revision :: int

record lease_row =
  lr_id :: string
  lr_workflow_id :: string
  lr_node_id :: string
  lr_workspace_key :: string
  lr_status :: lease_status
  lr_revision :: int
  lr_base_revision :: "workspace_revision option"
  lr_current_revision :: "workspace_revision option"
  lr_acquired_at :: "string option"
  lr_release_requested_at :: "string option"
  lr_released_at :: "string option"
  lr_acquire_reason :: "string option"
  lr_created_at :: string
  lr_updated_at :: string

record stall_row =
  sr_workflow_id :: string
  sr_round :: int
  sr_fingerprint :: string
  sr_signals :: "jsval option"
  sr_created_at :: string

record evidence_row =
  er_step_execution_id :: string
  er_workflow_id :: string
  er_evidence :: jsval
  er_decision :: string
  er_created_at :: string

record task_row =
  tk_id :: string
  tk_revision :: int
  tk_node_id :: "string option"
  tk_agent :: string
  tk_workspace_key :: "string option"
  tk_permission_mode :: "string option"
  tk_status :: string
  tk_remote_run_id :: "string option"
  tk_input_text :: "string option"
  tk_metadata :: "jsval option"
  tk_created_at :: string
  tk_updated_at :: string
  tk_terminal_at :: "string option"
  tk_last_event_sequence :: int
  tk_earliest_retained_sequence :: int
  tk_terminal_event_recorded :: bool
  tk_error_code :: "string option"
  tk_error_message :: "string option"
  tk_history_incomplete :: bool
  tk_history_reason :: "string option"
  tk_history_boundary_sequence :: "int option"
  tk_last_remote_event_sequence :: "int option"
  tk_idempotency_key :: "string option"
  tk_request_fingerprint :: "string option"
  tk_result_status :: "string option"

record task_event_row =
  te_task_id :: string
  te_sequence :: int
  te_type :: string
  te_ts :: string
  te_payload_json :: string
  te_created_at :: string
  te_source_sequence :: "int option"

text \<open>The envelope columns are all NULL exactly when there is no envelope.\<close>

record task_result_row =
  rr_task_id :: string
  rr_status :: string
  rr_result :: "task_result option"
  rr_created_at :: string

record wstore =
  ws_closed :: bool
  ws_workflows :: "workflow_row list"
  ws_steps :: "step_row list"
  ws_events :: "workflow_event_row list"
  ws_human :: "human_request_row list"
  ws_leases :: "lease_row list"
  ws_stall :: "stall_row list"
  ws_evidence :: "evidence_row list"
  ws_tasks :: "task_row list"
  ws_task_events :: "task_event_row list"
  ws_results :: "task_result_row list"

definition empty_store :: wstore where
  "empty_store = \<lparr>ws_closed = False, ws_workflows = [], ws_steps = [], ws_events = [], ws_human = [],
     ws_leases = [], ws_stall = [], ws_evidence = [], ws_tasks = [], ws_task_events = [], ws_results = []\<rparr>"

abbreviation workflowRow :: "wstore \<Rightarrow> string \<Rightarrow> workflow_row option" where
  "workflowRow s i \<equiv> sel wf_id i (ws_workflows s)"

abbreviation stepRow :: "wstore \<Rightarrow> string \<Rightarrow> step_row option" where
  "stepRow s i \<equiv> sel se_id i (ws_steps s)"

abbreviation humanRow :: "wstore \<Rightarrow> string \<Rightarrow> human_request_row option" where
  "humanRow s i \<equiv> sel hr_id i (ws_human s)"

abbreviation leaseRow :: "wstore \<Rightarrow> string \<Rightarrow> lease_row option" where
  "leaseRow s i \<equiv> sel lr_id i (ws_leases s)"

abbreviation taskRow :: "wstore \<Rightarrow> string \<Rightarrow> task_row option" where
  "taskRow s i \<equiv> sel tk_id i (ws_tasks s)"

abbreviation taskResultRow :: "wstore \<Rightarrow> string \<Rightarrow> task_result_row option" where
  "taskResultRow s i \<equiv> sel rr_task_id i (ws_results s)"

text \<open>\<open>const r = this.row(id); if (!r) throw not_found\<close>\<close>

definition need :: "'r option \<Rightarrow> ('r \<Rightarrow> store_error + 'a) \<Rightarrow> store_error + 'a" where
  "need r k = (case r of None \<Rightarrow> Inl NotFound | Some x \<Rightarrow> k x)"

text \<open>\<open>this.open()\<close>\<close>

definition opened :: "wstore \<Rightarrow> store_error + 'a \<Rightarrow> store_error + 'a" where
  "opened s k = (if ws_closed s then Inl Closed else k)"

text \<open>A patch field is \<open>None\<close> when it is absent; a nullable column's field is then \<open>Some\<close> of the
  new value.\<close>

definition patched :: "'a option \<Rightarrow> 'a \<Rightarrow> 'a" where
  "patched p cur = (case p of None \<Rightarrow> cur | Some x \<Rightarrow> x)"

definition null_if_undef :: "jsval \<Rightarrow> jsval" where
  "null_if_undef v = (if v = JUndef then JNull else v)"

text \<open>The cutoff is the largest sequence but \<open>keepLast\<close>, when there are that many; every event up
  to it goes (\<open>pruneEventsSync\<close>).\<close>

definition cutoff :: "nat \<Rightarrow> int list \<Rightarrow> int option" where
  "cutoff keepLast seqs = (if keepLast < length seqs then Some (rev (sort seqs) ! keepLast) else None)"

definition min_seq :: "int list \<Rightarrow> int option" where
  "min_seq seqs = (if seqs = [] then None else Some (Min (set seqs)))"

lemma need_simps [simp]:
  "need None k = Inl NotFound"
  "need (Some x) k = k x"
  by (simp_all add: need_def)

lemma need_InrE [elim!]:
  assumes "need r k = Inr y"
  obtains x where "r = Some x" and "k x = Inr y"
  using assms by (cases r) auto

lemma opened_InrE [elim!]:
  assumes "opened s k = Inr y"
  obtains "\<not> ws_closed s" and "k = Inr y"
  using assms by (auto simp: opened_def split: if_splits)

lemma patched_simps [simp]: "patched None x = x" "patched (Some y) x = y"
  by (simp_all add: patched_def)

end
