(* ===== verification/WorkflowStore.thy ===== *)
theory WorkflowStore
  imports StoreTables
begin

text \<open>
  The workflow half of the durable store (\<open>src/control/sqlite-store.ts\<close>): the
  synchronous internals and the atomic composites the workflow runtime uses. A
  transaction is a function from the store to an error (the transaction is rolled back,
  the store unchanged) or the new store; \<open>now\<close> is the clock reading of the transaction. The
  records a method returns are read back from the new store and are not part of the
  result. A row the code dereferences without a check (\<open>workflowRow(id)!\<close>) is \<open>NotFound\<close> when it is
  missing.
\<close>

section \<open>Internals\<close>

record create_workflow_input =
  cw_id :: string
  cw_spec_version :: string
  cw_name :: string
  cw_spec :: jsval
  cw_status :: "workflow_status option"
  cw_current_step_id :: "string option"
  cw_current_round :: "int option"
  cw_input_values :: jsval

definition validateCreateWorkflow :: "create_workflow_input \<Rightarrow> bool" where
  "validateCreateWorkflow i = (isSafeId (cw_id i) \<and> cw_name i \<noteq> [] \<and> cw_spec_version i \<noteq> [])"

definition encode_inputs :: "jsval \<Rightarrow> store_error + jsval option" where
  "encode_inputs v = (if v = JUndef \<or> v = JNull then Inr None
     else and_then (assertNoForbiddenFields v) (\<lambda>_. encodeOpt v limit_metadata_json))"

definition createWorkflowSync :: "string \<Rightarrow> create_workflow_input \<Rightarrow> wstore \<Rightarrow> store_error + wstore" where
  "createWorkflowSync now i s =
    (if \<not> validateCreateWorkflow i then Inl InvalidRecord
     else if workflowRow s (cw_id i) \<noteq> None then Inl Duplicate
     else and_then (encodeJson (cw_spec i) limit_spec_json) (\<lambda>_.
       and_then (encode_inputs (cw_input_values i)) (\<lambda>inputs.
         Inr (s\<lparr>ws_workflows := ws_workflows s @
           [\<lparr>wf_id = cw_id i, wf_revision = 1, wf_spec_version = cw_spec_version i, wf_name = cw_name i,
             wf_spec = cw_spec i, wf_status = (case cw_status i of None \<Rightarrow> WDraft | Some st \<Rightarrow> st),
             wf_current_step_id = cw_current_step_id i,
             wf_current_round = (case cw_current_round i of None \<Rightarrow> 1 | Some r \<Rightarrow> r),
             wf_total_tasks = 0, wf_total_failures = 0, wf_started_at = None, wf_created_at = now,
             wf_updated_at = now, wf_terminal_at = None, wf_last_event_sequence = -1, wf_context_revision = 0,
             wf_context = None, wf_earliest_retained_sequence = 0, wf_input_values = inputs,
             wf_cancel_requested = False\<rparr>]\<rparr>))))"

record workflow_patch =
  wp_status :: "workflow_status option"
  wp_current_step_id :: "string option option"
  wp_current_round :: "int option"
  wp_total_tasks :: "int option"
  wp_total_failures :: "int option"
  wp_started_at :: "string option option"
  wp_terminal_at :: "string option option"
  wp_cancel_requested :: "bool option"

definition no_wpatch :: workflow_patch where
  "no_wpatch = \<lparr>wp_status = None, wp_current_step_id = None, wp_current_round = None, wp_total_tasks = None,
     wp_total_failures = None, wp_started_at = None, wp_terminal_at = None, wp_cancel_requested = None\<rparr>"

definition workflow_patch_error :: "workflow_row \<Rightarrow> int \<Rightarrow> workflow_patch \<Rightarrow> store_error option" where
  "workflow_patch_error cur rv p =
    (if wf_revision cur \<noteq> rv then Some RevisionConflict
     else if wp_status p \<noteq> None \<and> isTerminalWorkflowStatus (wf_status cur) \<and> wp_status p \<noteq> Some (wf_status cur)
     then Some InvalidTransition
     else if patched (wp_current_round p) (wf_current_round cur) < wf_current_round cur then Some InvalidTransition
     else if patched (wp_total_tasks p) (wf_total_tasks cur) < wf_total_tasks cur then Some InvalidTransition
     else if patched (wp_total_failures p) (wf_total_failures cur) < wf_total_failures cur then Some InvalidTransition
     else if wp_terminal_at p = Some None \<and> wf_terminal_at cur \<noteq> None then Some InvalidTransition
     else None)"

definition apply_workflow_patch :: "string \<Rightarrow> workflow_patch \<Rightarrow> workflow_row \<Rightarrow> workflow_row" where
  "apply_workflow_patch now p cur = cur\<lparr>
     wf_status := patched (wp_status p) (wf_status cur),
     wf_current_step_id := patched (wp_current_step_id p) (wf_current_step_id cur),
     wf_current_round := patched (wp_current_round p) (wf_current_round cur),
     wf_total_tasks := patched (wp_total_tasks p) (wf_total_tasks cur),
     wf_total_failures := patched (wp_total_failures p) (wf_total_failures cur),
     wf_started_at := patched (wp_started_at p) (wf_started_at cur),
     wf_terminal_at := patched (wp_terminal_at p) (wf_terminal_at cur),
     wf_cancel_requested := (wp_cancel_requested p = Some True \<or> wf_cancel_requested cur),
     wf_updated_at := now, wf_revision := wf_revision cur + 1\<rparr>"

definition updateWorkflowSync :: "string \<Rightarrow> string \<Rightarrow> int \<Rightarrow> workflow_patch \<Rightarrow> wstore \<Rightarrow> store_error + wstore" where
  "updateWorkflowSync now i rv p s = need (workflowRow s i) (\<lambda>cur.
     or_else (workflow_patch_error cur rv p)
       (Inr (s\<lparr>ws_workflows := upd wf_id i (apply_workflow_patch now p) (ws_workflows s)\<rparr>)))"

record create_step_input =
  cs_id :: string
  cs_workflow_id :: string
  cs_step_id :: string
  cs_round :: int
  cs_attempt :: int
  cs_task_id :: "string option"
  cs_status :: "step_status option"

definition validateCreateStepExecution :: "create_step_input \<Rightarrow> bool" where
  "validateCreateStepExecution i = (isSafeId (cs_id i) \<and> isSafeId (cs_workflow_id i) \<and> isSafeId (cs_step_id i) \<and>
     1 \<le> cs_round i \<and> 1 \<le> cs_attempt i)"

definition step_key :: "step_row \<Rightarrow> string \<times> string \<times> int \<times> int" where
  "step_key r = (se_workflow_id r, se_step_id r, se_round r, se_attempt r)"

definition input_key :: "create_step_input \<Rightarrow> string \<times> string \<times> int \<times> int" where
  "input_key i = (cs_workflow_id i, cs_step_id i, cs_round i, cs_attempt i)"

abbreviation stepExecByKey :: "wstore \<Rightarrow> string \<times> string \<times> int \<times> int \<Rightarrow> step_row option" where
  "stepExecByKey s k \<equiv> sel step_key k (ws_steps s)"

definition new_step :: "string \<Rightarrow> create_step_input \<Rightarrow> step_row" where
  "new_step now i = \<lparr>se_id = cs_id i, se_workflow_id = cs_workflow_id i, se_step_id = cs_step_id i,
     se_round = cs_round i, se_attempt = cs_attempt i, se_task_id = cs_task_id i, se_revision = 1,
     se_status = (case cs_status i of None \<Rightarrow> SPending | Some st \<Rightarrow> st), se_output = None, se_error = None,
     se_created_at = now, se_started_at = None, se_updated_at = now, se_terminal_at = None,
     se_revision_before = None, se_revision_after = None, se_result_awaited_since = None\<rparr>"

text \<open>A task id that is not in \<open>tasks\<close> breaks the foreign key.\<close>

definition task_known :: "wstore \<Rightarrow> string option \<Rightarrow> bool" where
  "task_known s t = (case t of None \<Rightarrow> True | Some x \<Rightarrow> taskRow s x \<noteq> None)"

definition createStepSync :: "string \<Rightarrow> create_step_input \<Rightarrow> wstore \<Rightarrow> store_error + wstore" where
  "createStepSync now i s =
    (if \<not> validateCreateStepExecution i then Inl InvalidRecord
     else if workflowRow s (cs_workflow_id i) = None then Inl NotFound
     else if stepRow s (cs_id i) \<noteq> None then Inl Duplicate
     else if stepExecByKey s (input_key i) \<noteq> None then Inl Duplicate
     else if \<not> task_known s (cs_task_id i) then Inl ConstraintViolation
     else Inr (s\<lparr>ws_steps := ws_steps s @ [new_step now i]\<rparr>))"

record step_patch =
  sp_status :: "step_status option"
  sp_task_id :: "string option option"
  sp_output :: jsval
  sp_error :: jsval
  sp_started_at :: "string option option"
  sp_terminal_at :: "string option option"

definition no_spatch :: step_patch where
  "no_spatch = \<lparr>sp_status = None, sp_task_id = None, sp_output = JUndef, sp_error = JUndef,
     sp_started_at = None, sp_terminal_at = None\<rparr>"

definition step_patch_error :: "step_row \<Rightarrow> int \<Rightarrow> step_patch \<Rightarrow> store_error option" where
  "step_patch_error cur rv p =
    (if se_revision cur \<noteq> rv then Some RevisionConflict
     else if sp_status p \<noteq> None \<and> isTerminalStepStatus (se_status cur) \<and> sp_status p \<noteq> Some (se_status cur)
     then Some InvalidTransition
     else if sp_output p \<noteq> JUndef \<and> isTerminalStepStatus (se_status cur) then Some InvalidTransition
     else (case (sp_task_id p, se_task_id cur) of
         (Some (Some t), Some t') \<Rightarrow> if t' \<noteq> t then Some InvalidTransition else None
       | _ \<Rightarrow> None))"

definition apply_step_patch :: "string \<Rightarrow> step_patch \<Rightarrow> jsval option \<Rightarrow> jsval option \<Rightarrow> step_row \<Rightarrow> step_row" where
  "apply_step_patch now p out err_v cur = cur\<lparr>
     se_status := patched (sp_status p) (se_status cur),
     se_task_id := patched (sp_task_id p) (se_task_id cur),
     se_started_at := patched (sp_started_at p) (se_started_at cur),
     se_terminal_at := patched (sp_terminal_at p) (se_terminal_at cur),
     se_output := (if sp_output p = JUndef then se_output cur else out),
     se_error := (if sp_error p = JUndef then se_error cur else err_v),
     se_updated_at := now, se_revision := se_revision cur + 1\<rparr>"

definition updateStepSync :: "string \<Rightarrow> string \<Rightarrow> int \<Rightarrow> step_patch \<Rightarrow> wstore \<Rightarrow> store_error + wstore" where
  "updateStepSync now i rv p s = need (stepRow s i) (\<lambda>cur.
     or_else (step_patch_error cur rv p)
       (and_then (encodeOpt (sp_output p) limit_step_output_json) (\<lambda>out.
        and_then (encodeOpt (sp_error p) limit_step_error_json) (\<lambda>er.
          if \<not> task_known s (patched (sp_task_id p) (se_task_id cur)) then Inl ConstraintViolation
          else Inr (s\<lparr>ws_steps := upd se_id i (apply_step_patch now p out er) (ws_steps s)\<rparr>)))))"

section \<open>Events\<close>

record event_draft =
  ed_type :: workflow_event_type
  ed_ts :: string
  ed_step_execution_id :: "string option"
  ed_payload :: jsval

text \<open>The empty string passes the scope checks of a workflow-scoped event and then breaks the
  foreign key.\<close>

definition event_scope_error :: "wstore \<Rightarrow> string \<Rightarrow> event_draft \<Rightarrow> store_error option" where
  "event_scope_error s i d =
    (case ed_step_execution_id d of
       None \<Rightarrow> if isStepScopedEvent (ed_type d) then Some InvalidRecord else None
     | Some ref \<Rightarrow>
         if ref = [] then (if isStepScopedEvent (ed_type d) then Some InvalidRecord else None)
         else if \<not> isStepScopedEvent (ed_type d) then Some InvalidRecord
         else (case stepRow s ref of
             None \<Rightarrow> Some InvalidRecord
           | Some st \<Rightarrow> if se_workflow_id st \<noteq> i then Some InvalidRecord else None))"

definition events_of :: "wstore \<Rightarrow> string \<Rightarrow> workflow_event_row list" where
  "events_of s i = filter (\<lambda>e. we_workflow_id e = i) (ws_events s)"

definition event_row :: "string \<Rightarrow> string \<Rightarrow> int \<Rightarrow> event_draft \<Rightarrow> string \<Rightarrow> workflow_event_row" where
  "event_row now i q d payload = \<lparr>we_workflow_id = i, we_sequence = q, we_type = ed_type d, we_ts = ed_ts d,
     we_step_execution_id = ed_step_execution_id d, we_payload_json = payload, we_created_at = now\<rparr>"

definition same_event :: "workflow_event_row \<Rightarrow> event_draft \<Rightarrow> string \<Rightarrow> bool" where
  "same_event e d payload = (we_type e = ed_type d \<and> we_ts e = ed_ts d \<and> we_payload_json e = payload \<and>
     we_step_execution_id e = ed_step_execution_id d)"

definition appendWorkflowEventSync :: "string \<Rightarrow> string \<Rightarrow> int \<Rightarrow> event_draft \<Rightarrow> wstore \<Rightarrow> store_error + wstore" where
  "appendWorkflowEventSync now i q d s =
    (if q < 0 then Inl InvalidRecord
     else if \<not> iso_utc (ed_ts d) then Inl InvalidRecord
     else need (workflowRow s i) (\<lambda>cur.
       or_else (event_scope_error s i d)
         (and_then (encodeJson (null_if_undef (ed_payload d)) limit_workflow_event_payload) (\<lambda>payload.
           if q \<le> wf_last_event_sequence cur then
             (case sel we_sequence q (events_of s i) of
                None \<Rightarrow> Inl EventGap
              | Some e \<Rightarrow> if same_event e d payload then Inr s else Inl EventConflict)
           else if q \<noteq> wf_last_event_sequence cur + 1 then Inl EventGap
           else if ed_step_execution_id d = Some [] then Inl ConstraintViolation
           else Inr (s\<lparr>ws_events := ws_events s @ [event_row now i q d payload],
                       ws_workflows := upd wf_id i (\<lambda>w. w\<lparr>wf_last_event_sequence := q, wf_updated_at := now\<rparr>)
                         (ws_workflows s)\<rparr>)))))"

definition appendWorkflowEventAuto :: "string \<Rightarrow> string \<Rightarrow> event_draft \<Rightarrow> wstore \<Rightarrow> store_error + wstore" where
  "appendWorkflowEventAuto now i d s = need (workflowRow s i) (\<lambda>cur.
     appendWorkflowEventSync now i (wf_last_event_sequence cur + 1) d s)"

definition saveContextSync :: "string \<Rightarrow> string \<Rightarrow> int \<Rightarrow> jsval \<Rightarrow> wstore \<Rightarrow> store_error + wstore" where
  "saveContextSync now i rv ctx s = need (workflowRow s i) (\<lambda>cur.
     if wf_context_revision cur \<noteq> rv then Inl RevisionConflict
     else and_then (assertValidContext ctx) (\<lambda>_.
       and_then (encodeJson ctx limit_context_json) (\<lambda>_.
         Inr (s\<lparr>ws_workflows := upd wf_id i
           (\<lambda>w. w\<lparr>wf_context := Some ctx, wf_context_revision := rv + 1, wf_updated_at := now\<rparr>) (ws_workflows s)\<rparr>))))"

section \<open>Composites of the runtime\<close>

text \<open>\<open>if (x) append(x)\<close>\<close>

definition append_opt :: "string \<Rightarrow> string \<Rightarrow> event_draft option \<Rightarrow> wstore \<Rightarrow> store_error + wstore" where
  "append_opt now i d s = (case d of None \<Rightarrow> Inr s | Some e \<Rightarrow> appendWorkflowEventAuto now i e s)"

text \<open>\<open>if (revision !== null && context !== undefined) saveContext\<close>\<close>

definition save_context_opt :: "string \<Rightarrow> string \<Rightarrow> int option \<Rightarrow> jsval \<Rightarrow> wstore \<Rightarrow> store_error + wstore" where
  "save_context_opt now i ctxRev ctx s = (case ctxRev of None \<Rightarrow> Inr s
     | Some r \<Rightarrow> if ctx \<noteq> JUndef then saveContextSync now i r ctx s else Inr s)"

text \<open>\<open>const wf = this.workflowRow(id)!\<close> followed by an update at that revision.\<close>

definition update_current :: "string \<Rightarrow> string \<Rightarrow> (workflow_row \<Rightarrow> workflow_patch) \<Rightarrow> wstore \<Rightarrow> store_error + wstore" where
  "update_current now i f s = need (workflowRow s i) (\<lambda>w. updateWorkflowSync now i (wf_revision w) (f w) s)"

definition createWorkflowWithLifecycleEvents ::
  "string \<Rightarrow> create_workflow_input \<Rightarrow> jsval \<Rightarrow> event_draft \<Rightarrow> event_draft \<Rightarrow> wstore \<Rightarrow> store_error + wstore" where
  "createWorkflowWithLifecycleEvents now i ctx created validated s = opened s
    (and_then (createWorkflowSync now (i\<lparr>cw_status := Some WReady,
        cw_current_round := Some (case cw_current_round i of None \<Rightarrow> 1 | Some r \<Rightarrow> r)\<rparr>) s) (\<lambda>s1.
     and_then (if ctx \<noteq> JUndef then saveContextSync now (cw_id i) 0 ctx s1 else Inr s1) (\<lambda>s2.
     and_then (appendWorkflowEventAuto now (cw_id i) created s2) (\<lambda>s3.
       appendWorkflowEventAuto now (cw_id i) validated s3))))"

definition startWorkflowDurably :: "string \<Rightarrow> string \<Rightarrow> event_draft \<Rightarrow> wstore \<Rightarrow> store_error + (wstore \<times> bool)" where
  "startWorkflowDurably now i started s = opened s (need (workflowRow s i) (\<lambda>cur.
     if wf_status cur = WRunning then Inr (s, False)
     else if wf_status cur \<noteq> WReady then Inl InvalidTransition
     else and_then (updateWorkflowSync now i (wf_revision cur)
         (no_wpatch\<lparr>wp_status := Some WRunning,
            wp_started_at := Some (Some (case wf_started_at cur of None \<Rightarrow> now | Some t \<Rightarrow> t))\<rparr>) s) (\<lambda>s1.
       and_then (appendWorkflowEventAuto now i started s1) (\<lambda>s2. Inr (s2, True)))))"

definition set_current_step :: "string \<Rightarrow> string \<Rightarrow> string \<Rightarrow> wstore \<Rightarrow> store_error + wstore" where
  "set_current_step now i stepId s = need (workflowRow s i) (\<lambda>w.
     if wf_current_step_id w \<noteq> Some stepId
     then updateWorkflowSync now i (wf_revision w) (no_wpatch\<lparr>wp_current_step_id := Some (Some stepId)\<rparr>) s
     else Inr s)"

definition ensureStepStarted ::
  "string \<Rightarrow> create_step_input \<Rightarrow> string \<Rightarrow> event_draft \<Rightarrow> wstore \<Rightarrow> store_error + (wstore \<times> bool)" where
  "ensureStepStarted now st currentStepId started s = opened s (need (workflowRow s (cs_workflow_id st)) (\<lambda>wf0.
     if stepExecByKey s (input_key st) \<noteq> None then Inr (s, False)
     else and_then (createStepSync now st s) (\<lambda>s1.
       and_then (set_current_step now (cs_workflow_id st) currentStepId s1) (\<lambda>s2.
       and_then (appendWorkflowEventAuto now (cs_workflow_id st) started s2) (\<lambda>s3. Inr (s3, True))))))"

definition bindStepTaskOnce ::
  "string \<Rightarrow> string \<Rightarrow> string \<Rightarrow> string \<Rightarrow> event_draft \<Rightarrow> wstore \<Rightarrow> store_error + (wstore \<times> bool)" where
  "bindStepTaskOnce now stepId taskId i ev s = opened s (need (stepRow s stepId) (\<lambda>st.
     if se_task_id st = Some taskId then Inr (s, False)
     else if se_task_id st \<noteq> None then Inl InvalidTransition
     else and_then (updateStepSync now stepId (se_revision st) (no_spatch\<lparr>sp_task_id := Some (Some taskId)\<rparr>) s) (\<lambda>s1.
       and_then (update_current now i (\<lambda>w. no_wpatch\<lparr>wp_total_tasks := Some (wf_total_tasks w + 1)\<rparr>) s1) (\<lambda>s2.
       and_then (appendWorkflowEventAuto now i ev s2) (\<lambda>s3. Inr (s3, True))))))"

definition completeStepAndCheckpoint ::
  "string \<Rightarrow> string \<Rightarrow> jsval \<Rightarrow> string \<Rightarrow> int option \<Rightarrow> jsval \<Rightarrow> event_draft \<Rightarrow> wstore \<Rightarrow> store_error + (wstore \<times> bool)" where
  "completeStepAndCheckpoint now stepId out i ctxRev ctx ev s = opened s (need (stepRow s stepId) (\<lambda>st.
     if se_status st = SCompleted then Inr (s, False)
     else and_then (updateStepSync now stepId (se_revision st)
         (no_spatch\<lparr>sp_status := Some SCompleted, sp_output := out, sp_terminal_at := Some (Some now)\<rparr>) s) (\<lambda>s1.
       and_then (save_context_opt now i ctxRev ctx s1) (\<lambda>s2.
       and_then (appendWorkflowEventAuto now i ev s2) (\<lambda>s3. Inr (s3, True))))))"

definition advance_round :: "string \<Rightarrow> string \<Rightarrow> int \<Rightarrow> event_draft option \<Rightarrow> wstore \<Rightarrow> store_error + wstore" where
  "advance_round now i r roundAdvanced s = (case roundAdvanced of None \<Rightarrow> Inr s
     | Some ev \<Rightarrow> and_then (update_current now i (\<lambda>w. no_wpatch\<lparr>wp_current_round := Some r\<rparr>) s)
         (appendWorkflowEventAuto now i ev))"

definition advanceWorkflow ::
  "string \<Rightarrow> string \<Rightarrow> event_draft \<Rightarrow> event_draft option \<Rightarrow> create_step_input \<Rightarrow> string \<Rightarrow> event_draft \<Rightarrow> wstore \<Rightarrow>
   store_error + (wstore \<times> bool)" where
  "advanceWorkflow now i edgeSelected roundAdvanced nextStep currentStepId stepStarted s = opened s
    (if stepExecByKey s (input_key nextStep) \<noteq> None then Inr (s, False)
     else and_then (appendWorkflowEventAuto now i edgeSelected s) (\<lambda>s1.
       and_then (advance_round now i (cs_round nextStep) roundAdvanced s1) (\<lambda>s2.
       and_then (createStepSync now nextStep s2) (\<lambda>s3.
       and_then (set_current_step now i currentStepId s3) (\<lambda>s4.
       and_then (appendWorkflowEventAuto now i stepStarted s4) (\<lambda>s5. Inr (s5, True)))))))"

definition terminalizeWorkflow ::
  "string \<Rightarrow> string \<Rightarrow> workflow_status \<Rightarrow> event_draft option \<Rightarrow> event_draft \<Rightarrow> wstore \<Rightarrow> store_error + (wstore \<times> bool)" where
  "terminalizeWorkflow now i status edgeSelected terminalEvent s = opened s (need (workflowRow s i) (\<lambda>cur.
     if wf_status cur = status \<or> isTerminalWorkflowStatus (wf_status cur) then Inr (s, False)
     else and_then (append_opt now i edgeSelected s) (\<lambda>s1.
       and_then (updateWorkflowSync now i (wf_revision cur)
         (no_wpatch\<lparr>wp_status := Some status,
            wp_terminal_at := (if isTerminalWorkflowStatus status then Some (Some now) else None)\<rparr>) s1) (\<lambda>s2.
       and_then (appendWorkflowEventAuto now i terminalEvent s2) (\<lambda>s3. Inr (s3, True))))))"

definition fail_workflow :: "string \<Rightarrow> string \<Rightarrow> event_draft \<Rightarrow> wstore \<Rightarrow> store_error + wstore" where
  "fail_workflow now i terminalEvent s = need (workflowRow s i) (\<lambda>w.
     if isTerminalWorkflowStatus (wf_status w) then Inr s
     else and_then (updateWorkflowSync now i (wf_revision w)
         (no_wpatch\<lparr>wp_status := Some WFailed, wp_terminal_at := Some (Some now)\<rparr>) s)
       (appendWorkflowEventAuto now i terminalEvent))"

definition fail_step :: "string \<Rightarrow> step_row \<Rightarrow> string \<Rightarrow> event_draft \<Rightarrow> jsval \<Rightarrow> wstore \<Rightarrow> store_error + wstore" where
  "fail_step now st i stepFailed stepError s =
    (if isTerminalStepStatus (se_status st) then Inr s
     else and_then (updateStepSync now (se_id st) (se_revision st)
         (no_spatch\<lparr>sp_status := Some SFailed, sp_error := stepError, sp_terminal_at := Some (Some now)\<rparr>) s) (\<lambda>s1.
       and_then (update_current now i (\<lambda>w. no_wpatch\<lparr>wp_total_failures := Some (wf_total_failures w + 1)\<rparr>) s1)
         (appendWorkflowEventAuto now i stepFailed)))"

definition failStepAndWorkflow ::
  "string \<Rightarrow> string \<Rightarrow> string \<Rightarrow> event_draft \<Rightarrow> event_draft \<Rightarrow> jsval \<Rightarrow> wstore \<Rightarrow> store_error + wstore" where
  "failStepAndWorkflow now stepId i stepFailed terminalEvent stepError s = opened s (need (stepRow s stepId) (\<lambda>st.
     and_then (fail_step now st i stepFailed stepError s) (fail_workflow now i terminalEvent)))"

definition recordCancellationIntent :: "string \<Rightarrow> string \<Rightarrow> wstore \<Rightarrow> store_error + wstore" where
  "recordCancellationIntent now i s = opened s (need (workflowRow s i) (\<lambda>cur.
     if wf_cancel_requested cur \<or> isTerminalWorkflowStatus (wf_status cur) then Inr s
     else updateWorkflowSync now i (wf_revision cur) (no_wpatch\<lparr>wp_cancel_requested := Some True\<rparr>) s))"

definition cancel_step :: "string \<Rightarrow> string option \<Rightarrow> wstore \<Rightarrow> store_error + wstore" where
  "cancel_step now stepId s =
    (case (case stepId of None \<Rightarrow> None | Some x \<Rightarrow> if x = [] then None else stepRow s x) of
       None \<Rightarrow> Inr s
     | Some st \<Rightarrow>
         if isTerminalStepStatus (se_status st) then Inr s
         else updateStepSync now (se_id st) (se_revision st)
           (no_spatch\<lparr>sp_status := Some SCancelled, sp_terminal_at := Some (Some now)\<rparr>) s)"

definition cancelStepAndWorkflow ::
  "string \<Rightarrow> string option \<Rightarrow> string \<Rightarrow> event_draft \<Rightarrow> wstore \<Rightarrow> store_error + (wstore \<times> bool)" where
  "cancelStepAndWorkflow now stepId i terminalEvent s = opened s (need (workflowRow s i) (\<lambda>cur.
     if isTerminalWorkflowStatus (wf_status cur) then Inr (s, False)
     else and_then (cancel_step now stepId s) (\<lambda>s1.
       and_then (updateWorkflowSync now i (wf_revision cur)
         (no_wpatch\<lparr>wp_status := Some WCancelled, wp_terminal_at := Some (Some now)\<rparr>) s1) (\<lambda>s2.
       and_then (appendWorkflowEventAuto now i terminalEvent s2) (\<lambda>s3. Inr (s3, True))))))"

section \<open>Composites at a caller's revision\<close>

definition startWorkflowStep ::
  "string \<Rightarrow> create_step_input \<Rightarrow> int \<Rightarrow> workflow_patch \<Rightarrow> int \<Rightarrow> event_draft \<Rightarrow> wstore \<Rightarrow> store_error + wstore" where
  "startWorkflowStep now st rv p q ev s = opened s
    (and_then (createStepSync now st s) (\<lambda>s1.
     and_then (updateWorkflowSync now (cs_workflow_id st) rv p s1) (\<lambda>s2.
       appendWorkflowEventSync now (cs_workflow_id st) q ev s2)))"

definition bindStepTask ::
  "string \<Rightarrow> string \<Rightarrow> int \<Rightarrow> string \<Rightarrow> string \<Rightarrow> int \<Rightarrow> int \<Rightarrow> event_draft \<Rightarrow> wstore \<Rightarrow> store_error + wstore" where
  "bindStepTask now stepId stepRev taskId i rv q ev s = opened s
    (and_then (updateStepSync now stepId stepRev (no_spatch\<lparr>sp_task_id := Some (Some taskId)\<rparr>) s) (\<lambda>s1.
     need (workflowRow s1 i) (\<lambda>wf.
     and_then (updateWorkflowSync now i rv (no_wpatch\<lparr>wp_total_tasks := Some (wf_total_tasks wf + 1)\<rparr>) s1) (\<lambda>s2.
       appendWorkflowEventSync now i q ev s2))))"

definition checkpointWorkflow ::
  "string \<Rightarrow> string \<Rightarrow> int \<Rightarrow> workflow_patch \<Rightarrow> int option \<Rightarrow> jsval \<Rightarrow> int \<Rightarrow> event_draft \<Rightarrow> wstore \<Rightarrow>
   store_error + wstore" where
  "checkpointWorkflow now i rv p ctxRev ctx q ev s = opened s
    (and_then (updateWorkflowSync now i rv p s) (\<lambda>s1.
     and_then (save_context_opt now i ctxRev ctx s1) (\<lambda>s2.
       appendWorkflowEventSync now i q ev s2)))"

end
