(* ===== verification/WorkflowGates.thy ===== *)
theory WorkflowGates
  imports WorkflowStore
begin

text \<open>
  The rest of the workflow store (\<open>src/control/sqlite-store.ts\<close>): the projection of workspace
  leases, the per-step revision evidence, human requests, completion evidence, stall rounds
  and the retention of workflows and their events.
\<close>

section \<open>Workspace-lease projection\<close>

text \<open>A revision column holds a valid revision or NULL; a value that is not a valid revision
  cannot be stored.\<close>

definition revision_json :: "workspace_revision \<Rightarrow> jsval" where
  "revision_json r = (case r of
      GitRevision head dirty h files at \<Rightarrow> JObj [(''revision_kind'', JStr ''git''),
        (''head_commit'', case head of None \<Rightarrow> JNull | Some c \<Rightarrow> JStr c), (''dirty'', JBool dirty),
        (''state_hash'', JStr h), (''changed_files'', JArr (map JStr files)), (''observed_at'', JStr at)]
    | UnavailableRevision h at \<Rightarrow> JObj [(''revision_kind'', JStr ''unavailable''), (''state_hash'', JStr h),
        (''observed_at'', JStr at)])"

definition encodeRevision :: "workspace_revision option \<Rightarrow> store_error + workspace_revision option" where
  "encodeRevision r = (case r of None \<Rightarrow> Inr None
     | Some x \<Rightarrow> if \<not> isValidRevision (revision_json x) then Inl InvalidRecord
         else and_then (encodeJson (revision_json x) limit_metadata_json) (\<lambda>_. Inr (Some x)))"

definition iso_or :: "string \<Rightarrow> string \<Rightarrow> string" where
  "iso_or ts now = (if iso_utc ts then ts else now)"

definition coalesce :: "'a option \<Rightarrow> 'a \<Rightarrow> 'a option" where
  "coalesce x y = (case x of None \<Rightarrow> Some y | Some z \<Rightarrow> Some z)"

definition lease_live :: "lease_status \<Rightarrow> bool" where
  "lease_live st = (st = LAcquiring \<or> st = LActive \<or> st = LReleaseRequested)"

definition lease_slot :: "lease_row \<Rightarrow> string \<times> string \<times> string" where
  "lease_slot r = (lr_workflow_id r, lr_node_id r, lr_workspace_key r)"

text \<open>The partial unique index: one live lease per workflow, node and workspace.\<close>

definition slot_taken :: "wstore \<Rightarrow> string \<Rightarrow> string \<times> string \<times> string \<Rightarrow> bool" where
  "slot_taken s i slot = list_ex (\<lambda>r. lr_id r \<noteq> i \<and> lease_live (lr_status r) \<and> lease_slot r = slot) (ws_leases s)"

definition recordWorkspaceLeaseIntent ::
  "string \<Rightarrow> string \<Rightarrow> string \<Rightarrow> string \<Rightarrow> string \<Rightarrow> wstore \<Rightarrow> store_error + wstore" where
  "recordWorkspaceLeaseIntent now i wid node key s = opened s
    (if \<not> isSafeId i then Inl InvalidRecord
     else if leaseRow s i \<noteq> None then Inr s
     else if workflowRow s wid = None then Inl NotFound
     else and_then (boundString node 256) (\<lambda>node'. and_then (boundString key 256) (\<lambda>key'.
       if slot_taken s i (wid, node', key') then Inl ConstraintViolation
       else Inr (s\<lparr>ws_leases := ws_leases s @ [\<lparr>lr_id = i, lr_workflow_id = wid, lr_node_id = node',
         lr_workspace_key = key', lr_status = LAcquiring, lr_revision = 1, lr_base_revision = None,
         lr_current_revision = None, lr_acquired_at = None, lr_release_requested_at = None,
         lr_released_at = None, lr_acquire_reason = None, lr_created_at = now, lr_updated_at = now\<rparr>]\<rparr>))))"

definition update_lease :: "string \<Rightarrow> (lease_row \<Rightarrow> lease_row) \<Rightarrow> wstore \<Rightarrow> wstore" where
  "update_lease i f s = s\<lparr>ws_leases := upd lr_id i f (ws_leases s)\<rparr>"

definition reactivating :: "lease_row \<Rightarrow> bool" where
  "reactivating r = (lr_status r = LReleased \<or> lr_status r = LReleaseRequested)"

definition activate_lease ::
  "string \<Rightarrow> string \<Rightarrow> workspace_revision option \<Rightarrow> workspace_revision option \<Rightarrow> lease_row \<Rightarrow> lease_row" where
  "activate_lease now acq base cur r = r\<lparr>lr_status := LActive, lr_base_revision := base,
     lr_current_revision := cur,
     lr_acquired_at := (if reactivating r then Some acq else coalesce (lr_acquired_at r) acq),
     lr_release_requested_at := None, lr_released_at := None, lr_acquire_reason := None,
     lr_revision := lr_revision r + 1, lr_updated_at := now\<rparr>"

definition markWorkspaceLeaseActive ::
  "string \<Rightarrow> string \<Rightarrow> workspace_revision option \<Rightarrow> workspace_revision option \<Rightarrow> string \<Rightarrow> wstore \<Rightarrow> store_error + wstore" where
  "markWorkspaceLeaseActive now i base cur acquiredAt s = opened s (need (leaseRow s i) (\<lambda>r.
     and_then (if reactivating r \<or> lr_base_revision r = None then encodeRevision base else Inr (lr_base_revision r)) (\<lambda>base'.
     and_then (encodeRevision (case cur of None \<Rightarrow> base | Some c \<Rightarrow> Some c)) (\<lambda>cur'.
       if slot_taken s i (lease_slot r) then Inl ConstraintViolation
       else Inr (update_lease i (activate_lease now (iso_or acquiredAt now) base' cur') s)))))"

definition setWorkspaceLeaseAcquireReason :: "string \<Rightarrow> string \<Rightarrow> string option \<Rightarrow> wstore \<Rightarrow> store_error + wstore" where
  "setWorkspaceLeaseAcquireReason now i reason s = opened s (need (leaseRow s i) (\<lambda>r.
     and_then (case reason of None \<Rightarrow> Inr None | Some x \<Rightarrow> and_then (boundString x 256) (\<lambda>y. Inr (Some y))) (\<lambda>reason'.
       Inr (update_lease i (\<lambda>r. r\<lparr>lr_acquire_reason := reason', lr_revision := lr_revision r + 1, lr_updated_at := now\<rparr>) s))))"

definition setWorkspaceLeaseRevision :: "string \<Rightarrow> string \<Rightarrow> workspace_revision option \<Rightarrow> wstore \<Rightarrow> store_error + wstore" where
  "setWorkspaceLeaseRevision now i cur s = opened s (need (leaseRow s i) (\<lambda>r.
     and_then (encodeRevision cur) (\<lambda>cur'.
       Inr (update_lease i (\<lambda>r. r\<lparr>lr_current_revision := cur', lr_revision := lr_revision r + 1, lr_updated_at := now\<rparr>) s))))"

definition requestWorkspaceLeaseRelease :: "string \<Rightarrow> string \<Rightarrow> string \<Rightarrow> wstore \<Rightarrow> store_error + wstore" where
  "requestWorkspaceLeaseRelease now i ts s = opened s (need (leaseRow s i) (\<lambda>r.
     if lr_status r = LReleased then Inr s
     else if slot_taken s i (lease_slot r) then Inl ConstraintViolation
     else Inr (update_lease i (\<lambda>r. r\<lparr>lr_status := LReleaseRequested,
       lr_release_requested_at := coalesce (lr_release_requested_at r) (iso_or ts now),
       lr_revision := lr_revision r + 1, lr_updated_at := now\<rparr>) s)))"

definition markWorkspaceLeaseReleased :: "string \<Rightarrow> string \<Rightarrow> string \<Rightarrow> wstore \<Rightarrow> store_error + wstore" where
  "markWorkspaceLeaseReleased now i ts s = opened s (need (leaseRow s i) (\<lambda>r.
     if lr_status r = LReleased then Inr s
     else Inr (update_lease i (\<lambda>r. r\<lparr>lr_status := LReleased,
       lr_released_at := coalesce (lr_released_at r) (iso_or ts now),
       lr_revision := lr_revision r + 1, lr_updated_at := now\<rparr>) s)))"

definition listReleasableWorkspaceLeases :: "wstore \<Rightarrow> lease_row list" where
  "listReleasableWorkspaceLeases s = filter (\<lambda>l. lease_live (lr_status l) \<and>
     (case workflowRow s (lr_workflow_id l) of None \<Rightarrow> False | Some w \<Rightarrow> isTerminalWorkflowStatus (wf_status w)))
     (sort_key lr_node_id (sort_key lr_workspace_key (ws_leases s)))"

section \<open>Step evidence\<close>

definition update_step_aux :: "string \<Rightarrow> (step_row \<Rightarrow> step_row) \<Rightarrow> wstore \<Rightarrow> wstore" where
  "update_step_aux i f s = s\<lparr>ws_steps := upd se_id i f (ws_steps s)\<rparr>"

definition markStepAwaitingResult :: "string \<Rightarrow> string \<Rightarrow> string \<Rightarrow> wstore \<Rightarrow> store_error + wstore" where
  "markStepAwaitingResult now i ts s = opened s (need (stepRow s i) (\<lambda>r.
     Inr (update_step_aux i (\<lambda>r. r\<lparr>se_result_awaited_since := coalesce (se_result_awaited_since r) (iso_or ts now),
       se_updated_at := now\<rparr>) s)))"

definition setStepRevisionBefore :: "string \<Rightarrow> string \<Rightarrow> workspace_revision option \<Rightarrow> wstore \<Rightarrow> store_error + wstore" where
  "setStepRevisionBefore now i rv s = opened s (need (stepRow s i) (\<lambda>r. and_then (encodeRevision rv) (\<lambda>rv'.
     Inr (update_step_aux i (\<lambda>r. r\<lparr>se_revision_before := rv', se_updated_at := now\<rparr>) s))))"

definition setStepRevisionAfter :: "string \<Rightarrow> string \<Rightarrow> workspace_revision option \<Rightarrow> wstore \<Rightarrow> store_error + wstore" where
  "setStepRevisionAfter now i rv s = opened s (need (stepRow s i) (\<lambda>r. and_then (encodeRevision rv) (\<lambda>rv'.
     Inr (update_step_aux i (\<lambda>r. r\<lparr>se_revision_after := rv', se_updated_at := now\<rparr>) s))))"

section \<open>Human requests\<close>

record human_input =
  hi_request_id :: string
  hi_workflow_id :: string
  hi_step_execution_id :: string
  hi_kind :: human_kind
  hi_prompt :: string
  hi_choices :: "string list option"

definition encode_choices :: "string list option \<Rightarrow> store_error + string list option" where
  "encode_choices c = (case c of None \<Rightarrow> Inr None
     | Some xs \<Rightarrow> and_then (encodeJson (JArr (map JStr (take 200 xs))) limit_metadata_json) (\<lambda>_. Inr (Some (take 200 xs))))"

definition new_human_request :: "string \<Rightarrow> human_input \<Rightarrow> string list option \<Rightarrow> human_request_row" where
  "new_human_request now i choices = \<lparr>hr_id = hi_request_id i, hr_workflow_id = hi_workflow_id i,
     hr_step_execution_id = hi_step_execution_id i, hr_kind = hi_kind i, hr_prompt = hi_prompt i,
     hr_choices = choices, hr_status = HPending, hr_response_value = None, hr_created_at = now,
     hr_responded_at = None, hr_updated_at = now, hr_revision = 1\<rparr>"

text \<open>The insert: one request per step execution (a uniqueness constraint).\<close>

definition insert_human_request :: "string \<Rightarrow> human_input \<Rightarrow> wstore \<Rightarrow> store_error + wstore" where
  "insert_human_request now i s =
    (if humanRow s (hi_request_id i) \<noteq> None then Inr s
     else if stepRow s (hi_step_execution_id i) = None then Inl NotFound
     else and_then (boundString (hi_prompt i) 8192) (\<lambda>_. and_then (encode_choices (hi_choices i)) (\<lambda>choices.
       if sel hr_step_execution_id (hi_step_execution_id i) (ws_human s) \<noteq> None then Inl ConstraintViolation
       else Inr (s\<lparr>ws_human := ws_human s @ [new_human_request now i choices]\<rparr>))))"

definition createHumanRequestAndPause ::
  "string \<Rightarrow> human_input \<Rightarrow> workflow_status \<Rightarrow> event_draft \<Rightarrow> wstore \<Rightarrow> store_error + wstore" where
  "createHumanRequestAndPause now i waitingStatus paused s = opened s
    (if \<not> isSafeId (hi_request_id i) then Inl InvalidRecord
     else if waitingStatus \<noteq> WWaitingInput \<and> waitingStatus \<noteq> WWaitingApproval then Inl InvalidRecord
     else need (workflowRow s (hi_workflow_id i)) (\<lambda>w.
       and_then (insert_human_request now i s) (\<lambda>s1.
         if wf_status w = WRunning then
           and_then (updateWorkflowSync now (hi_workflow_id i) (wf_revision w) (no_wpatch\<lparr>wp_status := Some waitingStatus\<rparr>) s1)
             (appendWorkflowEventAuto now (hi_workflow_id i) paused)
         else Inr s1)))"

definition update_human :: "string \<Rightarrow> (human_request_row \<Rightarrow> human_request_row) \<Rightarrow> wstore \<Rightarrow> wstore" where
  "update_human i f s = s\<lparr>ws_human := upd hr_id i f (ws_human s)\<rparr>"

definition respond :: "string \<Rightarrow> human_status \<Rightarrow> string option \<Rightarrow> human_request_row \<Rightarrow> human_request_row" where
  "respond now st v r = r\<lparr>hr_status := st, hr_response_value := v, hr_responded_at := Some now,
     hr_revision := hr_revision r + 1, hr_updated_at := now\<rparr>"

definition answerHumanRequestInput :: "string \<Rightarrow> string \<Rightarrow> string \<Rightarrow> wstore \<Rightarrow> store_error + wstore" where
  "answerHumanRequestInput now i v s = opened s (need (humanRow s i) (\<lambda>r.
     if hr_kind r \<noteq> InputRequest then Inl InvalidTransition
     else and_then (boundString v 8192) (\<lambda>v.
       if hr_status r = HAnswered then (if hr_response_value r \<noteq> Some v then Inl InvalidTransition else Inr s)
       else if hr_status r \<noteq> HPending then Inl InvalidTransition
       else Inr (update_human i (respond now HAnswered (Some v)) s))))"

definition approveHumanRequest :: "string \<Rightarrow> string \<Rightarrow> wstore \<Rightarrow> store_error + wstore" where
  "approveHumanRequest now i s = opened s (need (humanRow s i) (\<lambda>r.
     if hr_kind r \<noteq> ApprovalRequest then Inl InvalidTransition
     else if hr_status r = HApproved then Inr s
     else if hr_status r \<noteq> HPending then Inl InvalidTransition
     else Inr (update_human i (respond now HApproved (hr_response_value r)) s)))"

definition reject_request :: "string \<Rightarrow> human_request_row \<Rightarrow> wstore \<Rightarrow> store_error + wstore" where
  "reject_request now r s =
    (if hr_status r = HRejected then Inr s
     else if hr_status r \<noteq> HPending then Inl InvalidTransition
     else Inr (update_human (hr_id r) (respond now HRejected (hr_response_value r)) s))"

definition rejectHumanRequestAndFailWorkflow :: "string \<Rightarrow> string \<Rightarrow> event_draft \<Rightarrow> wstore \<Rightarrow> store_error + wstore" where
  "rejectHumanRequestAndFailWorkflow now i failed s = opened s (need (humanRow s i) (\<lambda>r.
     if hr_kind r \<noteq> ApprovalRequest then Inl InvalidTransition
     else if hr_status r = HApproved then Inl InvalidTransition
     else and_then (reject_request now r s) (fail_workflow now (hr_workflow_id r) failed)))"

definition resumeWorkflowRunning :: "string \<Rightarrow> string \<Rightarrow> event_draft \<Rightarrow> wstore \<Rightarrow> store_error + (wstore \<times> bool)" where
  "resumeWorkflowRunning now i resumed s = opened s (need (workflowRow s i) (\<lambda>cur.
     if wf_status cur = WRunning then Inr (s, False)
     else if wf_status cur \<noteq> WWaitingInput \<and> wf_status cur \<noteq> WWaitingApproval then Inl InvalidTransition
     else and_then (updateWorkflowSync now i (wf_revision cur) (no_wpatch\<lparr>wp_status := Some WRunning\<rparr>) s) (\<lambda>s1.
       and_then (appendWorkflowEventAuto now i resumed s1) (\<lambda>s2. Inr (s2, True)))))"

section \<open>Completion evidence and stall rounds\<close>

definition recordCompletionEvidence ::
  "string \<Rightarrow> string \<Rightarrow> string \<Rightarrow> jsval \<Rightarrow> string \<Rightarrow> wstore \<Rightarrow> store_error + wstore" where
  "recordCompletionEvidence now i wid ev decision s = opened s
    (if sel er_step_execution_id i (ws_evidence s) \<noteq> None then Inr s
     else if stepRow s i = None then Inl NotFound
     else and_then (encodeJson ev limit_metadata_json) (\<lambda>_. and_then (boundString decision 64) (\<lambda>_.
       if workflowRow s wid = None then Inl ConstraintViolation
       else Inr (s\<lparr>ws_evidence := ws_evidence s @ [\<lparr>er_step_execution_id = i, er_workflow_id = wid,
         er_evidence = ev, er_decision = decision, er_created_at = now\<rparr>]\<rparr>))))"

definition stall_key :: "stall_row \<Rightarrow> string \<times> int" where
  "stall_key r = (sr_workflow_id r, sr_round r)"

definition recordStallRound ::
  "string \<Rightarrow> string \<Rightarrow> int \<Rightarrow> string \<Rightarrow> jsval \<Rightarrow> wstore \<Rightarrow> store_error + wstore" where
  "recordStallRound now wid round fp signals s = opened s
    (if sel stall_key (wid, round) (ws_stall s) \<noteq> None then Inr s
     else if workflowRow s wid = None then Inl NotFound
     else and_then (boundString fp 128) (\<lambda>_. and_then (encodeOpt signals limit_metadata_json) (\<lambda>sig.
       Inr (s\<lparr>ws_stall := ws_stall s @ [\<lparr>sr_workflow_id = wid, sr_round = round, sr_fingerprint = fp,
         sr_signals = sig, sr_created_at = now\<rparr>]\<rparr>))))"

definition listStallRounds :: "string \<Rightarrow> wstore \<Rightarrow> stall_row list" where
  "listStallRounds wid s = sort_key sr_round (filter (\<lambda>r. sr_workflow_id r = wid) (ws_stall s))"

section \<open>Retention\<close>

text \<open>Deleting a workflow cascades to every table that references it.\<close>

definition expired_workflow :: "string \<Rightarrow> workflow_row \<Rightarrow> bool" where
  "expired_workflow olderThan w = (isTerminalWorkflowStatus (wf_status w) \<and>
     (case wf_terminal_at w of None \<Rightarrow> False | Some t \<Rightarrow> t < olderThan))"

definition delete_workflows :: "(string \<Rightarrow> bool) \<Rightarrow> wstore \<Rightarrow> wstore" where
  "delete_workflows gone s =
    (let gone_step = (\<lambda>i. list_ex (\<lambda>r. se_id r = i \<and> gone (se_workflow_id r)) (ws_steps s))
     in s\<lparr>ws_workflows := filter (\<lambda>w. \<not> gone (wf_id w)) (ws_workflows s),
       ws_steps := filter (\<lambda>r. \<not> gone (se_workflow_id r)) (ws_steps s),
       ws_events := filter (\<lambda>e. \<not> gone (we_workflow_id e)) (ws_events s),
       ws_human := filter (\<lambda>h. \<not> gone (hr_workflow_id h) \<and> \<not> gone_step (hr_step_execution_id h)) (ws_human s),
       ws_leases := filter (\<lambda>l. \<not> gone (lr_workflow_id l)) (ws_leases s),
       ws_stall := filter (\<lambda>r. \<not> gone (sr_workflow_id r)) (ws_stall s),
       ws_evidence := filter (\<lambda>e. \<not> gone (er_workflow_id e) \<and> \<not> gone_step (er_step_execution_id e)) (ws_evidence s)\<rparr>)"

definition pruneTerminalWorkflows :: "string \<Rightarrow> wstore \<Rightarrow> store_error + (wstore \<times> nat)" where
  "pruneTerminalWorkflows olderThan s = opened s
    (let old = filter (expired_workflow olderThan) (ws_workflows s)
     in Inr (delete_workflows (\<lambda>i. i \<in> wf_id ` set old) s, length old))"

definition pruneWorkflowEvents :: "string \<Rightarrow> int \<Rightarrow> wstore \<Rightarrow> store_error + (wstore \<times> nat)" where
  "pruneWorkflowEvents i keepLast s = opened s
    (if keepLast < 0 then Inl InvalidRecord
     else (case cutoff (nat keepLast) (map we_sequence (events_of s i)) of
        None \<Rightarrow> Inr (s, 0)
      | Some c \<Rightarrow>
         (let dropped = (\<lambda>e. we_workflow_id e = i \<and> we_sequence e \<le> c);
              kept = filter (\<lambda>e. \<not> dropped e) (ws_events s);
              earliest = min_seq (map we_sequence (filter (\<lambda>e. we_workflow_id e = i) kept))
          in Inr (s\<lparr>ws_events := kept,
                ws_workflows := (case earliest of None \<Rightarrow> ws_workflows s
                  | Some m \<Rightarrow> upd wf_id i (\<lambda>w. w\<lparr>wf_earliest_retained_sequence := m\<rparr>) (ws_workflows s))\<rparr>,
              length (filter dropped (ws_events s))))))"

end
