(* ===== verification/WorkflowLaws.thy ===== *)
theory WorkflowLaws
  imports WorkflowGates
begin

text \<open>
  What every transaction of the workflow store keeps. The locale \<open>store_relation\<close> is the
  contract between the synchronous internals and the composites built from them: a
  reflexive and transitive relation between stores that every internal respects is
  respected by every composite. \<open>call_relation\<close> adds that the relation ignores the task
  tables, and \<open>workflow_relation\<close> is the special case of a relation that only looks at
  workflows, steps and their events. The evolution order \<open>evolves\<close> (nothing durable is
  lost or goes backwards) is its first interpretation.
\<close>

section \<open>Composites respect what the internals respect\<close>

definition same_workflow_tables :: "wstore \<Rightarrow> wstore \<Rightarrow> bool" where
  "same_workflow_tables s s' \<longleftrightarrow> ws_workflows s' = ws_workflows s \<and> ws_steps s' = ws_steps s \<and> ws_events s' = ws_events s"

definition tasks_only :: "wstore \<Rightarrow> wstore \<Rightarrow> bool" where
  "tasks_only s s' \<longleftrightarrow> same_workflow_tables s s' \<and> ws_human s' = ws_human s \<and> ws_leases s' = ws_leases s \<and>
    ws_stall s' = ws_stall s \<and> ws_evidence s' = ws_evidence s \<and> ws_closed s' = ws_closed s"

text \<open>The columns of a step that the evidence updates leave alone.\<close>

definition step_core :: "step_row \<Rightarrow> (string \<times> (string \<times> string \<times> int \<times> int) \<times> string option \<times> int) \<times>
    step_status \<times> jsval option \<times> jsval option \<times> string \<times> string option \<times> string option" where
  "step_core r = ((se_id r, step_key r, se_task_id r, se_revision r), se_status r, se_output r, se_error r,
     se_created_at r, se_started_at r, se_terminal_at r)"

text \<open>The operations on the lease projection.\<close>

inductive lease_step :: "wstore \<Rightarrow> wstore \<Rightarrow> bool" where
  intent: "recordWorkspaceLeaseIntent now i wid n k s = Inr s' \<Longrightarrow> lease_step s s'"
| active: "markWorkspaceLeaseActive now i b c a s = Inr s' \<Longrightarrow> lease_step s s'"
| reason: "setWorkspaceLeaseAcquireReason now i r s = Inr s' \<Longrightarrow> lease_step s s'"
| rev: "setWorkspaceLeaseRevision now i c s = Inr s' \<Longrightarrow> lease_step s s'"
| request: "requestWorkspaceLeaseRelease now i ts s = Inr s' \<Longrightarrow> lease_step s s'"
| release: "markWorkspaceLeaseReleased now i ts s = Inr s' \<Longrightarrow> lease_step s s'"

lemma lease_step_frame: "lease_step s s' \<Longrightarrow> s' = s\<lparr>ws_leases := ws_leases s'\<rparr>"
  by (induction rule: lease_step.induct)
    (auto simp: recordWorkspaceLeaseIntent_def markWorkspaceLeaseActive_def setWorkspaceLeaseAcquireReason_def
      setWorkspaceLeaseRevision_def requestWorkspaceLeaseRelease_def markWorkspaceLeaseReleased_def update_lease_def
      split: if_splits)

locale store_relation =
  fixes R :: "wstore \<Rightarrow> wstore \<Rightarrow> bool"
  assumes R_refl: "R s s"
    and R_trans: "R s t \<Longrightarrow> R t u \<Longrightarrow> R s u"
    and R_createWorkflow: "createWorkflowSync now i s = Inr s' \<Longrightarrow> R s s'"
    and R_updateWorkflow: "updateWorkflowSync now w rv p s = Inr s' \<Longrightarrow> R s s'"
    and R_createStep: "createStepSync now c s = Inr s' \<Longrightarrow> R s s'"
    and R_updateStep: "updateStepSync now x rv sp s = Inr s' \<Longrightarrow> R s s'"
    and R_append: "appendWorkflowEventSync now w q d s = Inr s' \<Longrightarrow> R s s'"
    and R_saveContext: "saveContextSync now w rv ctx s = Inr s' \<Longrightarrow> R s s'"
    and R_stepAux: "(\<And>r. step_core (f r) = step_core r) \<Longrightarrow> R s (update_step_aux x f s)"
    and R_lease: "lease_step s s' \<Longrightarrow> R s s'"
    and R_insert_human: "insert_human_request now h s = Inr s' \<Longrightarrow> R s s'"
    and R_respond: "humanRow s x = Some hr \<Longrightarrow> hr_status hr = HPending \<Longrightarrow> st \<noteq> HPending \<Longrightarrow>
      R s (update_human x (respond now st v) s)"
    and R_evidence: "R s (s\<lparr>ws_evidence := ws_evidence s @ [er]\<rparr>)"
    and R_stall: "R s (s\<lparr>ws_stall := ws_stall s @ [sr]\<rparr>)"
begin

lemma R_auto: "appendWorkflowEventAuto now w d s = Inr s' \<Longrightarrow> R s s'"
  by (auto simp: appendWorkflowEventAuto_def elim: R_append)

lemma R_append_opt: "append_opt now w d s = Inr s' \<Longrightarrow> R s s'"
  by (auto simp: append_opt_def R_refl R_auto split: option.splits)

lemma R_update_current: "update_current now w g s = Inr s' \<Longrightarrow> R s s'"
  by (auto simp: update_current_def elim: R_updateWorkflow)

lemma R_set_current_step: "set_current_step now w x s = Inr s' \<Longrightarrow> R s s'"
  by (auto simp: set_current_step_def R_refl elim: R_updateWorkflow split: if_splits)

lemmas R_internals = R_createWorkflow R_updateWorkflow R_createStep R_updateStep R_append R_saveContext
  R_auto R_append_opt R_update_current R_set_current_step

lemma R_save_context_opt: "save_context_opt now w r ctx s = Inr s' \<Longrightarrow> R s s'"
  by (auto simp: save_context_opt_def R_refl elim: R_saveContext split: option.splits if_splits)

lemma R_advance_round: "advance_round now w r ev s = Inr s' \<Longrightarrow> R s s'"
  by (auto simp: advance_round_def R_refl dest!: R_internals elim: R_trans split: option.splits)

lemma R_fail_workflow: "fail_workflow now w ev s = Inr s' \<Longrightarrow> R s s'"
  by (auto simp: fail_workflow_def R_refl dest!: R_internals elim: R_trans split: if_splits)

lemma R_fail_step: "fail_step now st w ev e s = Inr s' \<Longrightarrow> R s s'"
  by (auto simp: fail_step_def R_refl dest!: R_internals elim: R_trans split: if_splits)

lemma R_cancel_step: "cancel_step now x s = Inr s' \<Longrightarrow> R s s'"
  by (auto simp: cancel_step_def R_refl elim: R_updateStep split: option.splits if_splits)

lemmas R_parts = R_internals R_save_context_opt R_advance_round R_fail_workflow R_fail_step R_cancel_step

lemma R_lifecycle: "createWorkflowWithLifecycleEvents now i ctx e1 e2 s = Inr s' \<Longrightarrow> R s s'"
  unfolding createWorkflowWithLifecycleEvents_def
  by (elim opened_InrE and_then_InrE) (auto split: if_splits dest!: R_parts; meson R_trans)

lemma R_start: "startWorkflowDurably now w ev s = Inr (s', b) \<Longrightarrow> R s s'"
  by (auto simp: startWorkflowDurably_def R_refl split: if_splits dest!: R_parts; meson R_trans)

lemma R_ensure: "ensureStepStarted now st c ev s = Inr (s', b) \<Longrightarrow> R s s'"
  by (auto simp: ensureStepStarted_def R_refl split: if_splits dest!: R_parts; meson R_trans)

lemma R_bind: "bindStepTaskOnce now x t w ev s = Inr (s', b) \<Longrightarrow> R s s'"
  by (auto simp: bindStepTaskOnce_def R_refl split: if_splits dest!: R_parts; meson R_trans)

lemma R_complete: "completeStepAndCheckpoint now x out w r ctx ev s = Inr (s', b) \<Longrightarrow> R s s'"
  by (auto simp: completeStepAndCheckpoint_def R_refl split: if_splits dest!: R_parts; meson R_trans)

lemma R_advance: "advanceWorkflow now w e1 e2 st c e3 s = Inr (s', b) \<Longrightarrow> R s s'"
  by (auto simp: advanceWorkflow_def R_refl split: if_splits dest!: R_parts; meson R_trans)

lemma R_terminalize: "terminalizeWorkflow now w st e1 e2 s = Inr (s', b) \<Longrightarrow> R s s'"
  by (auto simp: terminalizeWorkflow_def R_refl split: if_splits dest!: R_parts; meson R_trans)

lemma R_fail: "failStepAndWorkflow now x w e1 e2 err s = Inr s' \<Longrightarrow> R s s'"
  by (auto simp: failStepAndWorkflow_def R_refl dest!: R_parts; meson R_trans)

lemma R_cancel_intent: "recordCancellationIntent now w s = Inr s' \<Longrightarrow> R s s'"
  by (auto simp: recordCancellationIntent_def split: if_splits dest!: R_parts intro: R_refl)

lemma R_cancel: "cancelStepAndWorkflow now x w ev s = Inr (s', b) \<Longrightarrow> R s s'"
  by (auto simp: cancelStepAndWorkflow_def R_refl split: if_splits dest!: R_parts; meson R_trans)

lemma R_startStep: "startWorkflowStep now st rv p q ev s = Inr s' \<Longrightarrow> R s s'"
  by (auto simp: startWorkflowStep_def R_refl dest!: R_parts; meson R_trans)

lemma R_bindStep: "bindStepTask now x r t w rv q ev s = Inr s' \<Longrightarrow> R s s'"
  by (auto simp: bindStepTask_def R_refl dest!: R_parts; meson R_trans)

lemma R_checkpoint: "checkpointWorkflow now w rv p r ctx q ev s = Inr s' \<Longrightarrow> R s s'"
  by (auto simp: checkpointWorkflow_def R_refl dest!: R_parts; meson R_trans)

lemma R_pause: "createHumanRequestAndPause now i st ev s = Inr s' \<Longrightarrow> R s s'"
  by (auto simp: createHumanRequestAndPause_def R_refl split: if_splits dest!: R_parts R_insert_human; meson R_trans)

lemma R_reject_request: "reject_request now r s = Inr s' \<Longrightarrow> humanRow s (hr_id r) = Some r \<Longrightarrow> R s s'"
  by (auto simp: reject_request_def R_refl split: if_splits intro!: R_respond)

lemma R_reject: "rejectHumanRequestAndFailWorkflow now i ev s = Inr s' \<Longrightarrow> R s s'"
  unfolding rejectHumanRequestAndFailWorkflow_def
  by (elim opened_InrE need_InrE) (auto split: if_splits dest: sel_key dest!: R_fail_workflow R_reject_request; metis R_trans sel_key)

lemma R_resume: "resumeWorkflowRunning now w ev s = Inr (s', b) \<Longrightarrow> R s s'"
  by (auto simp: resumeWorkflowRunning_def R_refl split: if_splits dest!: R_parts; meson R_trans)

lemma R_step_evidence:
  "markStepAwaitingResult now x ts s = Inr s' \<Longrightarrow> R s s'"
  "setStepRevisionBefore now x r s = Inr s' \<Longrightarrow> R s s'"
  "setStepRevisionAfter now x r s = Inr s' \<Longrightarrow> R s s'"
  by (auto simp: markStepAwaitingResult_def setStepRevisionBefore_def setStepRevisionAfter_def step_core_def step_key_def
      intro!: R_stepAux)

lemmas R_lease_ops = lease_step.intros [THEN R_lease]

lemma R_answerHumanRequestInput: "answerHumanRequestInput now i v s = Inr s' \<Longrightarrow> R s s'"
  by (auto simp: answerHumanRequestInput_def R_refl split: if_splits intro!: R_respond)

lemma R_approveHumanRequest: "approveHumanRequest now i s = Inr s' \<Longrightarrow> R s s'"
  by (auto simp: approveHumanRequest_def R_refl split: if_splits intro!: R_respond)

lemma R_recordCompletionEvidence: "recordCompletionEvidence now x wid e d s = Inr s' \<Longrightarrow> R s s'"
  by (auto simp: recordCompletionEvidence_def R_refl split: if_splits intro!: R_evidence)

lemma R_recordStallRound: "recordStallRound now wid n fp sg s = Inr s' \<Longrightarrow> R s s'"
  by (auto simp: recordStallRound_def R_refl split: if_splits intro!: R_stall)

lemmas R_side_tables = R_lease_ops R_answerHumanRequestInput R_approveHumanRequest R_recordCompletionEvidence R_recordStallRound

end

locale call_relation = store_relation +
  assumes R_tasks: "tasks_only s s' \<Longrightarrow> R s s'"

locale workflow_relation =
  fixes R :: "wstore \<Rightarrow> wstore \<Rightarrow> bool"
  assumes W_frame: "same_workflow_tables s s' \<Longrightarrow> R s s'"
    and W_trans: "R s t \<Longrightarrow> R t u \<Longrightarrow> R s u"
    and W_createWorkflow: "createWorkflowSync now i s = Inr s' \<Longrightarrow> R s s'"
    and W_updateWorkflow: "updateWorkflowSync now w rv p s = Inr s' \<Longrightarrow> R s s'"
    and W_createStep: "createStepSync now c s = Inr s' \<Longrightarrow> R s s'"
    and W_updateStep: "updateStepSync now x rv sp s = Inr s' \<Longrightarrow> R s s'"
    and W_append: "appendWorkflowEventSync now w q d s = Inr s' \<Longrightarrow> R s s'"
    and W_saveContext: "saveContextSync now w rv ctx s = Inr s' \<Longrightarrow> R s s'"
    and W_stepAux: "(\<And>r. step_core (f r) = step_core r) \<Longrightarrow> R s (update_step_aux x f s)"

lemma insert_human_frame: "insert_human_request now h s = Inr s' \<Longrightarrow> same_workflow_tables s s'"
  by (auto simp: insert_human_request_def same_workflow_tables_def split: if_splits)

lemma lease_step_workflow_frame: "lease_step s s' \<Longrightarrow> same_workflow_tables s s'"
  by (drule lease_step_frame, erule ssubst) (simp add: same_workflow_tables_def)

sublocale workflow_relation \<subseteq> calls: call_relation R
proof
  show "R s s" for s by (rule W_frame) (simp add: same_workflow_tables_def)
  show "R s (update_human x (respond now st v) s)" for s x now st v
    by (rule W_frame) (simp add: same_workflow_tables_def update_human_def)
  show "R s (s\<lparr>ws_evidence := ws_evidence s @ [er]\<rparr>)" for s er
    by (rule W_frame) (simp add: same_workflow_tables_def)
  show "R s (s\<lparr>ws_stall := ws_stall s @ [sr]\<rparr>)" for s sr
    by (rule W_frame) (simp add: same_workflow_tables_def)
  show "tasks_only s s' \<Longrightarrow> R s s'" for s s'
    by (rule W_frame) (simp add: tasks_only_def)
qed (fact W_trans W_createWorkflow W_updateWorkflow W_createStep W_updateStep W_append W_saveContext W_stepAux
    | rule W_frame, erule lease_step_workflow_frame insert_human_frame)+

section \<open>Evolution\<close>

text \<open>What may happen to a workflow row: its identity, spec and inputs are fixed, a terminal status
  is final, counters only grow, the cancellation intent and the terminal timestamp stay.\<close>

definition workflow_evolves :: "workflow_row \<Rightarrow> workflow_row \<Rightarrow> bool" where
  "workflow_evolves w w' \<longleftrightarrow>
    wf_id w' = wf_id w \<and> wf_spec w' = wf_spec w \<and> wf_spec_version w' = wf_spec_version w \<and> wf_name w' = wf_name w \<and>
    wf_input_values w' = wf_input_values w \<and> wf_created_at w' = wf_created_at w \<and>
    (isTerminalWorkflowStatus (wf_status w) \<longrightarrow> wf_status w' = wf_status w) \<and>
    wf_current_round w \<le> wf_current_round w' \<and> wf_total_tasks w \<le> wf_total_tasks w' \<and>
    wf_total_failures w \<le> wf_total_failures w' \<and> wf_last_event_sequence w \<le> wf_last_event_sequence w' \<and>
    wf_context_revision w \<le> wf_context_revision w' \<and> wf_revision w \<le> wf_revision w' \<and>
    (wf_cancel_requested w \<longrightarrow> wf_cancel_requested w') \<and> (wf_terminal_at w \<noteq> None \<longrightarrow> wf_terminal_at w' \<noteq> None)"

text \<open>What may happen to a step row: its key is fixed and a terminal status and output are
  final.\<close>

definition step_evolves :: "step_row \<Rightarrow> step_row \<Rightarrow> bool" where
  "step_evolves r r' \<longleftrightarrow>
    se_id r' = se_id r \<and> step_key r' = step_key r \<and> se_created_at r' = se_created_at r \<and>
    (isTerminalStepStatus (se_status r) \<longrightarrow> se_status r' = se_status r \<and> se_output r' = se_output r) \<and>
    se_revision r \<le> se_revision r'"

definition evolves :: "wstore \<Rightarrow> wstore \<Rightarrow> bool" where
  "evolves s s' \<longleftrightarrow>
    (\<forall>i w. workflowRow s i = Some w \<longrightarrow> (\<exists>w'. workflowRow s' i = Some w' \<and> workflow_evolves w w')) \<and>
    (\<forall>i r. stepRow s i = Some r \<longrightarrow> (\<exists>r'. stepRow s' i = Some r' \<and> step_evolves r r')) \<and>
    (\<exists>es. ws_events s' = ws_events s @ es)"

lemma workflow_evolves_refl [simp]: "workflow_evolves w w"
  by (simp add: workflow_evolves_def)

lemma step_evolves_refl [simp]: "step_evolves r r"
  by (simp add: step_evolves_def)

lemma workflow_evolves_trans: "workflow_evolves a b \<Longrightarrow> workflow_evolves b c \<Longrightarrow> workflow_evolves a c"
  by (auto simp: workflow_evolves_def)

lemma step_evolves_trans: "step_evolves a b \<Longrightarrow> step_evolves b c \<Longrightarrow> step_evolves a c"
  by (auto simp: step_evolves_def)

lemma evolves_trans: "evolves s t \<Longrightarrow> evolves t u \<Longrightarrow> evolves s u"
  unfolding evolves_def by (elim conjE exE) (intro conjI; (meson step_evolves_trans workflow_evolves_trans | simp))

text \<open>Three shapes of change: rows appended, one workflow row rewritten, one step row rewritten.\<close>

lemma evolves_append:
  "evolves s (s\<lparr>ws_workflows := ws_workflows s @ [w]\<rparr>)"
  "evolves s (s\<lparr>ws_steps := ws_steps s @ [r]\<rparr>)"
  by (auto simp: evolves_def)

lemma evolves_workflow:
  assumes "\<And>w. wf_id (f w) = wf_id w" and "\<And>w. workflowRow s i = Some w \<Longrightarrow> workflow_evolves w (f w)"
  shows "evolves s (s\<lparr>ws_events := ws_events s @ es, ws_workflows := upd wf_id i f (ws_workflows s)\<rparr>)"
  using assms by (auto simp: evolves_def sel_upd)

lemma evolves_workflow_only:
  assumes "\<And>w. wf_id (f w) = wf_id w" and "\<And>w. workflowRow s i = Some w \<Longrightarrow> workflow_evolves w (f w)"
  shows "evolves s (s\<lparr>ws_workflows := upd wf_id i f (ws_workflows s)\<rparr>)"
  using assms by (auto simp: evolves_def sel_upd)

lemma evolves_step:
  assumes "\<And>r. se_id (f r) = se_id r" and "\<And>r. stepRow s i = Some r \<Longrightarrow> step_evolves r (f r)"
  shows "evolves s (s\<lparr>ws_steps := upd se_id i f (ws_steps s)\<rparr>)"
  using assms by (auto simp: evolves_def sel_upd)

lemma apply_workflow_patch_id [simp]: "wf_id (apply_workflow_patch now p w) = wf_id w"
  by (simp add: apply_workflow_patch_def)

lemma apply_step_patch_key [simp]:
  "se_id (apply_step_patch now p out e r) = se_id r"
  "se_workflow_id (apply_step_patch now p out e r) = se_workflow_id r"
  "step_key (apply_step_patch now p out e r) = step_key r"
  by (simp_all add: apply_step_patch_def step_key_def)

lemma workflow_patch_evolves:
  assumes "workflow_patch_error w rv p = None"
  shows "workflow_evolves w (apply_workflow_patch now p w)"
  using assms
  by (auto simp: workflow_patch_error_def workflow_evolves_def apply_workflow_patch_def patched_def
      split: if_splits option.splits)

lemma step_patch_evolves:
  assumes "step_patch_error r rv p = None"
  shows "step_evolves r (apply_step_patch now p out e r)"
  using assms
  by (auto simp: step_patch_error_def step_evolves_def step_key_def apply_step_patch_def patched_def
      split: if_splits option.splits)

lemma step_core_evolves: "step_core r' = step_core r \<Longrightarrow> step_evolves r r'"
  by (auto simp: step_core_def step_evolves_def step_key_def)


interpretation ev: workflow_relation evolves
proof
  show "same_workflow_tables s s' \<Longrightarrow> evolves s s'" for s s'
    by (auto simp: same_workflow_tables_def evolves_def)
  show "createWorkflowSync now i s = Inr s' \<Longrightarrow> evolves s s'" for now i s s'
    by (auto simp: createWorkflowSync_def evolves_append split: if_splits)
  show "updateWorkflowSync now w rv p s = Inr s' \<Longrightarrow> evolves s s'" for now w rv p s s'
    by (auto simp: updateWorkflowSync_def intro!: evolves_workflow_only workflow_patch_evolves)
  show "createStepSync now c s = Inr s' \<Longrightarrow> evolves s s'" for now c s s'
    by (auto simp: createStepSync_def evolves_append split: if_splits)
  show "updateStepSync now x rv sp s = Inr s' \<Longrightarrow> evolves s s'" for now x rv sp s s'
    by (auto simp: updateStepSync_def split: if_splits intro!: evolves_step step_patch_evolves)
  show "appendWorkflowEventSync now w q d s = Inr s' \<Longrightarrow> evolves s s'" for now w q d s s'
  proof -
    have "evolves s s" by (simp add: evolves_def)
    then show "appendWorkflowEventSync now w q d s = Inr s' \<Longrightarrow> evolves s s'"
      by (auto simp: appendWorkflowEventSync_def workflow_evolves_def split: if_splits option.splits
          intro!: evolves_workflow)
  qed
  show "saveContextSync now w rv ctx s = Inr s' \<Longrightarrow> evolves s s'" for now w rv ctx s s'
    by (auto simp: saveContextSync_def workflow_evolves_def split: if_splits intro!: evolves_workflow_only)
  show "(\<And>r. step_core (f r) = step_core r) \<Longrightarrow> evolves s (update_step_aux x f s)" for f s x
    unfolding update_step_aux_def by (intro evolves_step step_core_evolves) (auto simp: step_core_def)
qed (rule evolves_trans)

end
