(* ===== verification/WorkflowInvariant.thy ===== *)
theory WorkflowInvariant
  imports WorkflowLaws
begin

text \<open>
  The invariant of the workflow tables: primary keys and step keys are unique, steps and
  events belong to existing workflows, a step-scoped event names a step of its own workflow,
  and each workflow's retained events are numbered contiguously up to the workflow's
  high-water mark. Every internal keeps it, so every transaction does, retention included.
\<close>

definition event_ok :: "step_row list \<Rightarrow> workflow_event_row \<Rightarrow> bool" where
  "event_ok steps e = (case we_step_execution_id e of
      None \<Rightarrow> \<not> isStepScopedEvent (we_type e)
    | Some i \<Rightarrow> isStepScopedEvent (we_type e) \<and> (\<exists>r\<in>set steps. se_id r = i \<and> se_workflow_id r = we_workflow_id e))"

definition contiguous :: "int \<Rightarrow> int list \<Rightarrow> bool" where
  "contiguous hi qs \<longleftrightarrow> qs = [hi - int (length qs) + 1..hi] \<and> int (length qs) \<le> hi + 1"

definition wf_inv :: "wstore \<Rightarrow> bool" where
  "wf_inv s \<longleftrightarrow>
    distinct (map wf_id (ws_workflows s)) \<and> distinct (map se_id (ws_steps s)) \<and> distinct (map step_key (ws_steps s)) \<and>
    (\<forall>r\<in>set (ws_steps s). se_workflow_id r \<in> wf_id ` set (ws_workflows s)) \<and>
    (\<forall>e\<in>set (ws_events s). we_workflow_id e \<in> wf_id ` set (ws_workflows s) \<and> event_ok (ws_steps s) e) \<and>
    (\<forall>w\<in>set (ws_workflows s). contiguous (wf_last_event_sequence w) (map we_sequence (events_of s (wf_id w))))"

lemma contiguous_iff: "contiguous hi qs \<longleftrightarrow> (\<exists>lo. 0 \<le> lo \<and> lo \<le> hi + 1 \<and> qs = [lo..hi])"
  by (auto simp: contiguous_def intro!: exI [of _ "hi - int (length qs) + 1"])

lemma contiguous_Nil [simp]: "contiguous (- 1) []"
  by (simp add: contiguous_def)

lemma contiguous_snoc: "contiguous hi qs \<Longrightarrow> contiguous (hi + 1) (qs @ [hi + 1])"
  unfolding contiguous_iff by (auto simp: upto_rec2 [of _ "hi + 1"])

lemma wf_inv_empty: "wf_inv empty_store"
  by (simp add: wf_inv_def empty_store_def)

lemma event_ok_mono:
  assumes "event_ok steps e" and "\<And>r. r \<in> set steps \<Longrightarrow> \<exists>r'\<in>set steps'. se_id r' = se_id r \<and> se_workflow_id r' = se_workflow_id r"
  shows "event_ok steps' e"
  using assms by (fastforce simp: event_ok_def split: option.splits)


text \<open>The shapes of change the internals make.\<close>

lemma wf_inv_workflow_row:
  assumes "wf_inv s" and "\<And>w. wf_id (f w) = wf_id w"
    and "\<And>w. wf_last_event_sequence (f w) = wf_last_event_sequence w"
  shows "wf_inv (s\<lparr>ws_workflows := upd wf_id i f (ws_workflows s)\<rparr>)"
proof -
  have "wf_id ` set (upd wf_id i f (ws_workflows s)) = wf_id ` set (ws_workflows s)"
    using assms(2) by (rule key_image_upd)
  then show ?thesis
    using assms unfolding wf_inv_def by (auto simp: map_key_upd in_set_upd events_of_def)
qed

lemma wf_inv_step_row:
  assumes "wf_inv s" and "\<And>r. se_id (f r) = se_id r" and "\<And>r. step_key (f r) = step_key r"
  shows "wf_inv (s\<lparr>ws_steps := upd se_id i f (ws_steps s)\<rparr>)"
proof -
  have wid: "se_workflow_id (f r) = se_workflow_id r" for r using assms(3) [of r] by (simp add: step_key_def)
  have keys: "map step_key (upd se_id i f (ws_steps s)) = map step_key (ws_steps s)"
    using assms(3) by (simp add: upd_def)
  have "event_ok (upd se_id i f (ws_steps s)) e" if "event_ok (ws_steps s) e" for e
    using that
  proof (rule event_ok_mono)
    show "\<exists>r'\<in>set (upd se_id i f (ws_steps s)). se_id r' = se_id r \<and> se_workflow_id r' = se_workflow_id r"
      if "r \<in> set (ws_steps s)" for r
      using that assms(2) wid by (intro bexI [of _ "if se_id r = i then f r else r"]) (auto simp: in_set_upd)
  qed
  then show ?thesis
    using assms wid unfolding wf_inv_def by (auto simp: keys map_key_upd in_set_upd events_of_def)
qed

lemma wf_inv_new_workflow:
  assumes "wf_inv s" and "workflowRow s (wf_id w) = None" and "wf_last_event_sequence w = -1"
  shows "wf_inv (s\<lparr>ws_workflows := ws_workflows s @ [w]\<rparr>)"
proof -
  have "events_of s (wf_id w) = []"
    using assms(1,2) unfolding wf_inv_def events_of_def filter_empty_conv sel_None_iff by metis
  then show ?thesis using assms unfolding wf_inv_def by (auto simp: sel_None_iff events_of_def)
qed

lemma wf_inv_new_step:
  assumes "wf_inv s" and "stepRow s (se_id r) = None" and "stepExecByKey s (step_key r) = None"
    and "workflowRow s (se_workflow_id r) \<noteq> None"
  shows "wf_inv (s\<lparr>ws_steps := ws_steps s @ [r]\<rparr>)"
proof -
  have "event_ok (ws_steps s @ [r]) e" if "event_ok (ws_steps s) e" for e
    using that by (rule event_ok_mono) auto
  then show ?thesis using assms unfolding wf_inv_def by (auto simp: sel_None_iff events_of_def)
qed

lemma wf_inv_new_event:
  assumes "wf_inv s" and "workflowRow s i = Some cur" and "we_workflow_id e = i"
    and "we_sequence e = wf_last_event_sequence cur + 1" and "event_ok (ws_steps s) e"
    and "\<And>w. wf_id (f w) = wf_id w" and "\<And>w. wf_last_event_sequence (f w) = we_sequence e"
  shows "wf_inv (s\<lparr>ws_events := ws_events s @ [e], ws_workflows := upd wf_id i f (ws_workflows s)\<rparr>)"
proof -
  have cur: "cur \<in> set (ws_workflows s)" "wf_id cur = i" using sel_key [OF assms(2)] by auto
  have mem: "i \<in> wf_id ` set (ws_workflows s)" using cur by blast
  have ids: "wf_id ` set (upd wf_id i f (ws_workflows s)) = wf_id ` set (ws_workflows s)"
    using assms(6) by (rule key_image_upd)
  have "contiguous (wf_last_event_sequence cur + 1) (map we_sequence (events_of s i) @ [wf_last_event_sequence cur + 1])"
    using assms(1) cur by (auto simp: wf_inv_def intro: contiguous_snoc)
  then have "contiguous (wf_last_event_sequence w) (map we_sequence (filter (\<lambda>x. we_workflow_id x = wf_id w) (ws_events s @ [e])))"
    if "w \<in> set (upd wf_id i f (ws_workflows s))" for w
    using that assms(1,3,4,6,7) by (auto simp: in_set_upd wf_inv_def events_of_def)
  then show ?thesis
    using assms(1,3,5,6) mem unfolding wf_inv_def by (auto simp: ids map_key_upd events_of_def)
qed

lemma event_ok_of_scope:
  assumes "event_scope_error s i d = None" and "ed_step_execution_id d \<noteq> Some []"
  shows "event_ok (ws_steps s) (event_row now i q d payload)"
  using assms
  by (auto simp: event_scope_error_def event_ok_def event_row_def split: option.splits if_splits dest!: sel_key)

interpretation inv: workflow_relation "\<lambda>s s'. wf_inv s \<longrightarrow> wf_inv s'"
proof
  show "wf_inv s \<longrightarrow> wf_inv s'" if "same_workflow_tables s s'" for s s'
    using that by (simp add: same_workflow_tables_def wf_inv_def events_of_def)
  show "wf_inv s \<longrightarrow> wf_inv s'" if "createWorkflowSync now i s = Inr s'" for now i s s'
    using that by (auto simp: createWorkflowSync_def split: if_splits intro!: wf_inv_new_workflow)
  show "wf_inv s \<longrightarrow> wf_inv s'" if "updateWorkflowSync now w rv p s = Inr s'" for now w rv p s s'
    using that by (auto simp: updateWorkflowSync_def apply_workflow_patch_def intro!: wf_inv_workflow_row)
  show "wf_inv s \<longrightarrow> wf_inv s'" if "createStepSync now c s = Inr s'" for now c s s'
    using that by (auto simp: createStepSync_def new_step_def input_key_def step_key_def split: if_splits
        intro!: wf_inv_new_step)
  show "wf_inv s \<longrightarrow> wf_inv s'" if "updateStepSync now x rv sp s = Inr s'" for now x rv sp s s'
    using that by (auto simp: updateStepSync_def split: if_splits intro!: wf_inv_step_row)
  show "wf_inv s \<longrightarrow> wf_inv s'" if "appendWorkflowEventSync now w q d s = Inr s'" for now w q d s s'
    using that by (auto simp: appendWorkflowEventSync_def event_row_def [symmetric] split: if_splits option.splits
        intro!: wf_inv_new_event event_ok_of_scope) (auto simp: event_row_def)
  show "wf_inv s \<longrightarrow> wf_inv s'" if "saveContextSync now w rv ctx s = Inr s'" for now w rv ctx s s'
    using that by (auto simp: saveContextSync_def split: if_splits intro!: wf_inv_workflow_row)
  show "wf_inv s \<longrightarrow> wf_inv (update_step_aux x f s)" if "\<And>r. step_core (f r) = step_core r" for f s x
    unfolding update_step_aux_def using that by (auto simp: step_core_def intro!: wf_inv_step_row)
qed blast

section \<open>Without retention every log starts at 0\<close>

definition log_full :: "wstore \<Rightarrow> bool" where
  "log_full s \<longleftrightarrow> wf_inv s \<and>
    (\<forall>w\<in>set (ws_workflows s). int (length (events_of s (wf_id w))) = wf_last_event_sequence w + 1)"

lemma log_full_empty: "log_full empty_store"
  by (simp add: log_full_def wf_inv_empty) (simp add: empty_store_def)

lemma log_full_workflow_row:
  assumes "log_full s" and "\<And>w. wf_id (f w) = wf_id w"
    and "\<And>w. wf_last_event_sequence (f w) = wf_last_event_sequence w"
  shows "log_full (s\<lparr>ws_workflows := upd wf_id i f (ws_workflows s)\<rparr>)"
  using assms wf_inv_workflow_row [of s f i] by (auto simp: log_full_def in_set_upd events_of_def)

lemma log_full_new_workflow:
  assumes "log_full s" and "workflowRow s (wf_id w) = None" and "wf_last_event_sequence w = -1"
  shows "log_full (s\<lparr>ws_workflows := ws_workflows s @ [w]\<rparr>)"
proof -
  have "events_of s (wf_id w) = []"
    using assms(1,2) unfolding log_full_def wf_inv_def events_of_def filter_empty_conv sel_None_iff by metis
  then show ?thesis
    using assms wf_inv_new_workflow [of s w] by (auto simp: log_full_def events_of_def)
qed

lemma log_full_sequences:
  assumes "log_full s" and "workflowRow s i = Some w"
  shows "map we_sequence (events_of s i) = [0..wf_last_event_sequence w]"
proof -
  have w: "w \<in> set (ws_workflows s)" "wf_id w = i" using sel_key [OF assms(2)] by auto
  then have "contiguous (wf_last_event_sequence w) (map we_sequence (events_of s i))"
    and n: "int (length (events_of s i)) = wf_last_event_sequence w + 1"
    using assms(1) by (auto simp: log_full_def wf_inv_def)
  then have "map we_sequence (events_of s i) = [wf_last_event_sequence w - int (length (events_of s i)) + 1..wf_last_event_sequence w]"
    by (simp add: contiguous_def)
  then show ?thesis unfolding n by simp
qed

lemma log_full_append:
  assumes "log_full s" and "appendWorkflowEventSync now i q d s = Inr s'"
  shows "log_full s'"
proof (cases "s' = s")
  case False
  then obtain cur payload where s': "workflowRow s i = Some cur" "q = wf_last_event_sequence cur + 1"
    "s' = s\<lparr>ws_events := ws_events s @ [event_row now i q d payload],
       ws_workflows := upd wf_id i (\<lambda>w. w\<lparr>wf_last_event_sequence := q, wf_updated_at := now\<rparr>) (ws_workflows s)\<rparr>"
    using assms(2) by (auto simp: appendWorkflowEventSync_def split: if_splits option.splits)
  have cur: "cur \<in> set (ws_workflows s)" "wf_id cur = i" using sel_key [OF s'(1)] by auto
  have "int (length (filter (\<lambda>e. we_workflow_id e = wf_id v) (ws_events s @ [event_row now i q d payload]))) = wf_last_event_sequence v + 1"
    if "v \<in> set (upd wf_id i (\<lambda>w. w\<lparr>wf_last_event_sequence := q, wf_updated_at := now\<rparr>) (ws_workflows s))" for v
    using that assms(1) cur s'(2) by (auto simp: in_set_upd log_full_def events_of_def event_row_def)
  moreover have "wf_inv s'" using inv.W_append [OF assms(2)] assms(1) by (simp add: log_full_def)
  ultimately show ?thesis unfolding log_full_def s'(3) by (simp add: events_of_def)
qed (simp add: assms(1))

interpretation full: workflow_relation "\<lambda>s s'. log_full s \<longrightarrow> log_full s'"
proof
  fix now i w rv p c x sp ctx s s' f
  show "log_full s \<longrightarrow> log_full s'" if "same_workflow_tables s s'"
    using that inv.W_frame [OF that] by (auto simp: log_full_def same_workflow_tables_def events_of_def)
  show "log_full s \<longrightarrow> log_full s'" if "updateWorkflowSync now w rv p s = Inr s'"
    using that by (auto simp: updateWorkflowSync_def apply_workflow_patch_def intro!: log_full_workflow_row)
  show "log_full s \<longrightarrow> log_full s'" if "saveContextSync now w rv ctx s = Inr s'"
    using that by (auto simp: saveContextSync_def split: if_splits intro!: log_full_workflow_row)
  show "log_full s \<longrightarrow> log_full s'" if "createStepSync now c s = Inr s'"
    using inv.W_createStep [OF that] that
    by (auto simp: log_full_def createStepSync_def events_of_def split: if_splits)
  show "log_full s \<longrightarrow> log_full s'" if "updateStepSync now x rv sp s = Inr s'"
    using inv.W_updateStep [OF that] that
    by (auto simp: log_full_def updateStepSync_def events_of_def split: if_splits)
  show "log_full s \<longrightarrow> log_full (update_step_aux x f s)" if "\<And>r. step_core (f r) = step_core r"
    using inv.W_stepAux [OF that, of s x] by (auto simp: log_full_def update_step_aux_def events_of_def)
  show "log_full s \<longrightarrow> log_full s'" if "createWorkflowSync now i s = Inr s'" for i
    using that by (auto simp: createWorkflowSync_def split: if_splits intro!: log_full_new_workflow)
qed (blast intro: log_full_append)+

end
