(* ===== verification/GateLaws.thy ===== *)
theory GateLaws
  imports WorkflowLaws
begin

text \<open>
  What every transaction keeps of the gates: a human request is answered once and for all,
  completion evidence and stall rounds are written once, and at most one live lease exists
  per workflow, node and workspace. Two more interpretations of \<open>call_relation\<close>.
\<close>

section \<open>Final answers\<close>

definition human_evolves :: "human_request_row \<Rightarrow> human_request_row \<Rightarrow> bool" where
  "human_evolves h h' \<longleftrightarrow>
    hr_id h' = hr_id h \<and> hr_workflow_id h' = hr_workflow_id h \<and> hr_step_execution_id h' = hr_step_execution_id h \<and>
    hr_kind h' = hr_kind h \<and> hr_prompt h' = hr_prompt h \<and> hr_choices h' = hr_choices h \<and>
    (hr_status h \<noteq> HPending \<longrightarrow> h' = h)"

definition gates_evolve :: "wstore \<Rightarrow> wstore \<Rightarrow> bool" where
  "gates_evolve s s' \<longleftrightarrow>
    (\<forall>i h. humanRow s i = Some h \<longrightarrow> (\<exists>h'. humanRow s' i = Some h' \<and> human_evolves h h')) \<and>
    (\<exists>es. ws_evidence s' = ws_evidence s @ es) \<and> (\<exists>rs. ws_stall s' = ws_stall s @ rs)"

lemma human_evolves_refl [simp]: "human_evolves h h"
  by (simp add: human_evolves_def)

lemma human_evolves_trans: "human_evolves a b \<Longrightarrow> human_evolves b c \<Longrightarrow> human_evolves a c"
  by (auto simp: human_evolves_def)

lemma gates_evolve_same:
  "ws_human s' = ws_human s \<Longrightarrow> ws_evidence s' = ws_evidence s \<Longrightarrow> ws_stall s' = ws_stall s \<Longrightarrow> gates_evolve s s'"
  by (simp add: gates_evolve_def)

lemma gates_evolve_trans:
  assumes "gates_evolve s t" and "gates_evolve t u"
  shows "gates_evolve s u"
  using assms unfolding gates_evolve_def by (auto dest: human_evolves_trans; meson human_evolves_trans)

lemma gates_evolve_respond:
  assumes "humanRow s x = Some hr" and "hr_status hr = HPending"
  shows "gates_evolve s (update_human x (respond now st v) s)"
  using assms by (auto simp: gates_evolve_def update_human_def sel_upd respond_def human_evolves_def)

interpretation gates: call_relation gates_evolve
proof
  show "gates_evolve s s" for s by (simp add: gates_evolve_same)
  show "gates_evolve s s'" if "lease_step s s'" for s s'
    by (subst lease_step_frame [OF that]) (simp add: gates_evolve_same)
  show "gates_evolve s s'" if "insert_human_request now h s = Inr s'" for now h s s'
    using that by (auto simp: insert_human_request_def gates_evolve_def split: if_splits)
  show "gates_evolve s s'" if "appendWorkflowEventSync now w q d s = Inr s'" for now w q d s s'
    using that by (auto simp: appendWorkflowEventSync_def gates_evolve_same split: if_splits option.splits)
  show "gates_evolve s (s\<lparr>ws_evidence := ws_evidence s @ [er]\<rparr>)" "gates_evolve s (s\<lparr>ws_stall := ws_stall s @ [sr]\<rparr>)" for s er sr
    by (simp_all add: gates_evolve_def)
qed (auto simp: createWorkflowSync_def updateWorkflowSync_def createStepSync_def updateStepSync_def saveContextSync_def
    update_step_aux_def tasks_only_def gates_evolve_respond gates_evolve_same split: if_splits intro: gates_evolve_trans)

section \<open>Exclusive leases\<close>

definition exclusive :: "lease_row list \<Rightarrow> bool" where
  "exclusive ls \<longleftrightarrow> (\<forall>a\<in>set ls. \<forall>b\<in>set ls. lease_live (lr_status a) \<and> lease_live (lr_status b) \<and>
    lease_slot a = lease_slot b \<longrightarrow> lr_id a = lr_id b)"

definition lease_inv :: "wstore \<Rightarrow> bool" where
  "lease_inv s \<longleftrightarrow> distinct (map lr_id (ws_leases s)) \<and> exclusive (ws_leases s)"

lemma exclusiveD:
  "exclusive ls \<Longrightarrow> a \<in> set ls \<Longrightarrow> b \<in> set ls \<Longrightarrow> lease_live (lr_status a) \<Longrightarrow> lease_live (lr_status b) \<Longrightarrow>
    lease_slot a = lease_slot b \<Longrightarrow> lr_id a = lr_id b"
  unfolding exclusive_def by blast

text \<open>A row may change when it keeps its id and slot and does not become live while the slot is
  taken by another.\<close>

lemma exclusive_upd:
  assumes "exclusive ls" and "distinct (map lr_id ls)" and "\<And>r. lr_id (f r) = lr_id r"
    and "\<And>r. lease_slot (f r) = lease_slot r" and "sel lr_id i ls = Some r"
    and "lease_live (lr_status (f r)) \<Longrightarrow> lease_live (lr_status r) \<or>
      (\<forall>b\<in>set ls. lease_live (lr_status b) \<and> lease_slot b = lease_slot r \<longrightarrow> lr_id b = i)"
  shows "exclusive (upd lr_id i f ls)"
proof -
  have r: "r \<in> set ls" "lr_id r = i" using sel_key [OF assms(5)] by auto
  have only: "x = r" if "x \<in> set ls" "lr_id x = i" for x
    using that sel_mem [OF assms(2), of x] assms(5) by simp
  have excl: "lr_id b = i" if "b \<in> set ls" "lease_live (lr_status (f r))" "lease_live (lr_status b)"
    "lease_slot b = lease_slot r" for b
    using that assms(6) exclusiveD [OF assms(1) that(1) r(1)] r(2) by auto
  show ?thesis
    unfolding exclusive_def
  proof (intro ballI impI, elim conjE)
    fix a b
    assume "a \<in> set (upd lr_id i f ls)" and "b \<in> set (upd lr_id i f ls)"
      and "lease_live (lr_status a)" and "lease_live (lr_status b)" and "lease_slot a = lease_slot b"
    then obtain x y where "x \<in> set ls" and "y \<in> set ls" and a: "a = (if lr_id x = i then f x else x)"
      and b: "b = (if lr_id y = i then f y else y)" unfolding in_set_upd by blast
    have "lr_id x = lr_id y"
    proof (cases "lr_id x = i"; cases "lr_id y = i")
      assume "lr_id x = i" and "lr_id y \<noteq> i"
      with \<open>x \<in> set ls\<close> only have "x = r" by blast
      with excl [of y] show ?thesis using \<open>y \<in> set ls\<close> \<open>lease_live (lr_status a)\<close> \<open>lease_live (lr_status b)\<close>
        \<open>lease_slot a = lease_slot b\<close> \<open>lr_id y \<noteq> i\<close> a b assms(4) r(2) by simp
    next
      assume "lr_id x \<noteq> i" and "lr_id y = i"
      with \<open>y \<in> set ls\<close> only have "y = r" by blast
      with excl [of x] show ?thesis using \<open>x \<in> set ls\<close> \<open>lease_live (lr_status a)\<close> \<open>lease_live (lr_status b)\<close>
        \<open>lease_slot a = lease_slot b\<close> \<open>lr_id x \<noteq> i\<close> a b assms(4) r(2) by simp
    next
      assume "lr_id x \<noteq> i" and "lr_id y \<noteq> i"
      then show ?thesis using exclusiveD [OF assms(1) \<open>x \<in> set ls\<close> \<open>y \<in> set ls\<close>] \<open>lease_live (lr_status a)\<close>
        \<open>lease_live (lr_status b)\<close> \<open>lease_slot a = lease_slot b\<close> a b by simp
    qed simp
    then show "lr_id a = lr_id b" using a b assms(3) by (cases "lr_id x = i") simp_all
  qed
qed

lemma lease_inv_update:
  assumes "lease_inv s" and "\<And>r. lr_id (f r) = lr_id r" and "\<And>r. lease_slot (f r) = lease_slot r"
    and "leaseRow s i = Some r"
    and "lease_live (lr_status (f r)) \<Longrightarrow> lease_live (lr_status r) \<or> \<not> slot_taken s i (lease_slot r)"
  shows "lease_inv (update_lease i f s)"
  using assms exclusive_upd [of "ws_leases s" f i r]
  by (auto simp: lease_inv_def update_lease_def map_key_upd slot_taken_def list_ex_iff)

lemma exclusive_snoc:
  assumes "exclusive ls" and "\<And>b. b \<in> set ls \<Longrightarrow> lease_live (lr_status b) \<Longrightarrow> lease_slot b \<noteq> lease_slot a"
  shows "exclusive (ls @ [a])"
  using assms unfolding exclusive_def by (metis UnE empty_iff insert_iff list.set set_append)

lemma lease_step_inv: "lease_step s s' \<Longrightarrow> lease_inv s \<Longrightarrow> lease_inv s'"
proof (induction rule: lease_step.induct)
  case (intent now i wid n k s s')
  then show ?case
    by (auto simp: recordWorkspaceLeaseIntent_def lease_inv_def sel_None_iff slot_taken_def list_ex_iff lease_slot_def
        split: if_splits intro!: exclusive_snoc) force
next
  case (active now i b c a s s')
  then obtain r base cur where "leaseRow s i = Some r" "\<not> slot_taken s i (lease_slot r)"
    "s' = update_lease i (activate_lease now (iso_or a now) base cur) s"
    by (auto simp: markWorkspaceLeaseActive_def split: if_splits)
  then show ?case using active by (auto simp: activate_lease_def lease_slot_def intro!: lease_inv_update)
qed (auto simp: setWorkspaceLeaseAcquireReason_def setWorkspaceLeaseRevision_def requestWorkspaceLeaseRelease_def
    markWorkspaceLeaseReleased_def lease_slot_def lease_live_def split: if_splits intro!: lease_inv_update)

interpretation leases: call_relation "\<lambda>s s'. lease_inv s \<longrightarrow> lease_inv s'"
proof
  show "lease_inv s \<longrightarrow> lease_inv s'" if "appendWorkflowEventSync now w q d s = Inr s'" for now w q d s s'
    using that by (auto simp: appendWorkflowEventSync_def lease_inv_def split: if_splits option.splits)
  show "lease_inv s \<longrightarrow> lease_inv s'" if "insert_human_request now h s = Inr s'" for now h s s'
    using that by (auto simp: insert_human_request_def lease_inv_def split: if_splits)
qed (auto simp: createWorkflowSync_def updateWorkflowSync_def createStepSync_def updateStepSync_def saveContextSync_def
    update_step_aux_def update_human_def tasks_only_def lease_inv_def split: if_splits dest: lease_step_inv)

lemma lease_inv_empty: "lease_inv empty_store"
  by (simp add: lease_inv_def exclusive_def empty_store_def)

end
