(* ===== verification/TaskStore.thy ===== *)
theory TaskStore
  imports StoreTables
begin

text \<open>
  The task half of the durable store (\<open>src/control/sqlite-store.ts\<close>): creation, guarded
  updates, the event log, durable results, the ingestion of a Node's source events and
  retention. Two processes that race for one idempotency key are two transactions one
  after the other: the loser finds the key or has its insert refused by the unique index
  and reads the winner's row.
\<close>

section \<open>Creation and update\<close>

record create_task_input =
  ct_id :: string
  ct_node_id :: "string option"
  ct_agent :: string
  ct_workspace_key :: "string option"
  ct_permission_mode :: "string option"
  ct_status :: string
  ct_remote_run_id :: "string option"
  ct_input_text :: "string option"
  ct_metadata :: jsval
  ct_idempotency_key :: "string option"
  ct_request_fingerprint :: "string option"

definition validateCreateTask :: "create_task_input \<Rightarrow> bool" where
  "validateCreateTask i = (isSafeId (ct_id i) \<and> trim (ct_agent i) \<noteq> [] \<and> ct_status i \<noteq> [])"

definition bound_opt :: "string option \<Rightarrow> nat \<Rightarrow> store_error + string option" where
  "bound_opt v maxBytes = (case v of None \<Rightarrow> Inr None
     | Some x \<Rightarrow> and_then (boundString x maxBytes) (\<lambda>y. Inr (Some y)))"

definition key_taken :: "wstore \<Rightarrow> string option \<Rightarrow> bool" where
  "key_taken s k = (k \<noteq> None \<and> list_ex (\<lambda>t. tk_idempotency_key t = k) (ws_tasks s))"

definition new_task :: "string \<Rightarrow> create_task_input \<Rightarrow> jsval option \<Rightarrow> task_row" where
  "new_task now i metadata = \<lparr>tk_id = ct_id i, tk_revision = 1, tk_node_id = ct_node_id i, tk_agent = ct_agent i,
     tk_workspace_key = ct_workspace_key i, tk_permission_mode = ct_permission_mode i, tk_status = ct_status i,
     tk_remote_run_id = ct_remote_run_id i, tk_input_text = ct_input_text i, tk_metadata = metadata,
     tk_created_at = now, tk_updated_at = now, tk_terminal_at = None, tk_last_event_sequence = -1,
     tk_earliest_retained_sequence = 0, tk_terminal_event_recorded = False, tk_error_code = None,
     tk_error_message = None, tk_history_incomplete = False, tk_history_reason = None,
     tk_history_boundary_sequence = None, tk_last_remote_event_sequence = None,
     tk_idempotency_key = ct_idempotency_key i, tk_request_fingerprint = ct_request_fingerprint i,
     tk_result_status = None\<rparr>"

definition createTaskSync :: "string \<Rightarrow> create_task_input \<Rightarrow> wstore \<Rightarrow> store_error + wstore" where
  "createTaskSync now i s =
    (if \<not> validateCreateTask i then Inl InvalidRecord
     else if taskRow s (ct_id i) \<noteq> None then Inl Duplicate
     else and_then (encodeOpt (ct_metadata i) limit_metadata_json) (\<lambda>metadata.
       and_then (bound_opt (ct_input_text i) limit_input_text) (\<lambda>_.
         if \<not> (case ct_idempotency_key i of None \<Rightarrow> True | Some k \<Rightarrow> isSafeId k) then Inl InvalidRecord
         else and_then (bound_opt (ct_request_fingerprint i) 256) (\<lambda>_.
           if key_taken s (ct_idempotency_key i) then Inl ConstraintViolation
           else Inr (s\<lparr>ws_tasks := ws_tasks s @ [new_task now i metadata]\<rparr>)))))"

record task_patch =
  tp_status :: "string option"
  tp_remote_run_id :: "string option option"
  tp_workspace_key :: "string option option"
  tp_permission_mode :: "string option option"
  tp_metadata :: jsval
  tp_terminal_at :: "string option option"
  tp_error_code :: "string option option"
  tp_error_message :: "string option option"

definition isTerminalTaskStatus :: "string \<Rightarrow> bool" where
  "isTerminalTaskStatus st = (st \<in> set TASK_TERMINAL_STATUSES)"

definition task_patch_error :: "task_row \<Rightarrow> int \<Rightarrow> task_patch \<Rightarrow> store_error option" where
  "task_patch_error cur rv p =
    (if tk_revision cur \<noteq> rv then Some RevisionConflict
     else if tp_status p \<noteq> None \<and> isTerminalTaskStatus (tk_status cur) \<and> tp_status p \<noteq> Some (tk_status cur)
     then Some InvalidTransition
     else if tp_terminal_at p = Some None \<and> tk_terminal_at cur \<noteq> None then Some InvalidTransition
     else None)"

definition apply_task_patch :: "string \<Rightarrow> task_patch \<Rightarrow> jsval option \<Rightarrow> task_row \<Rightarrow> task_row" where
  "apply_task_patch now p metadata cur = cur\<lparr>
     tk_status := patched (tp_status p) (tk_status cur),
     tk_remote_run_id := patched (tp_remote_run_id p) (tk_remote_run_id cur),
     tk_workspace_key := patched (tp_workspace_key p) (tk_workspace_key cur),
     tk_permission_mode := patched (tp_permission_mode p) (tk_permission_mode cur),
     tk_terminal_at := patched (tp_terminal_at p) (tk_terminal_at cur),
     tk_error_code := patched (tp_error_code p) (tk_error_code cur),
     tk_metadata := (if tp_metadata p = JUndef then tk_metadata cur else metadata),
     tk_error_message := patched (tp_error_message p) (tk_error_message cur),
     tk_updated_at := now, tk_revision := tk_revision cur + 1\<rparr>"

definition update_task :: "string \<Rightarrow> (task_row \<Rightarrow> task_row) \<Rightarrow> wstore \<Rightarrow> wstore" where
  "update_task i f s = s\<lparr>ws_tasks := upd tk_id i f (ws_tasks s)\<rparr>"

definition updateTaskSync :: "string \<Rightarrow> string \<Rightarrow> int \<Rightarrow> task_patch \<Rightarrow> wstore \<Rightarrow> store_error + wstore" where
  "updateTaskSync now i rv p s = need (taskRow s i) (\<lambda>cur.
     or_else (task_patch_error cur rv p)
       (and_then (encodeOpt (tp_metadata p) limit_metadata_json) (\<lambda>metadata.
        and_then (case tp_error_message p of None \<Rightarrow> Inr None | Some m \<Rightarrow> bound_opt m limit_error_message) (\<lambda>_.
          Inr (update_task i (apply_task_patch now p metadata) s)))))"

section \<open>The event log\<close>

record task_event_input =
  ti_sequence :: int
  ti_type :: string
  ti_ts :: string
  ti_payload :: jsval
  ti_source_sequence :: "int option"

definition task_events_of :: "wstore \<Rightarrow> string \<Rightarrow> task_event_row list" where
  "task_events_of s i = filter (\<lambda>e. te_task_id e = i) (ws_task_events s)"

definition source_taken :: "wstore \<Rightarrow> string \<Rightarrow> int option \<Rightarrow> bool" where
  "source_taken s i q = (q \<noteq> None \<and> list_ex (\<lambda>e. te_source_sequence e = q) (task_events_of s i))"

definition task_event_row_of :: "string \<Rightarrow> string \<Rightarrow> task_event_input \<Rightarrow> string \<Rightarrow> task_event_row" where
  "task_event_row_of now i ev payload = \<lparr>te_task_id = i, te_sequence = ti_sequence ev, te_type = ti_type ev,
     te_ts = ti_ts ev, te_payload_json = payload, te_created_at = now, te_source_sequence = ti_source_sequence ev\<rparr>"

definition same_task_event :: "task_event_row \<Rightarrow> string \<Rightarrow> string \<Rightarrow> string \<Rightarrow> bool" where
  "same_task_event e ty ts payload = (te_type e = ty \<and> te_ts e = ts \<and> te_payload_json e = payload)"

definition appendTaskEventSync :: "string \<Rightarrow> string \<Rightarrow> task_event_input \<Rightarrow> wstore \<Rightarrow> store_error + wstore" where
  "appendTaskEventSync now i ev s =
    (if ti_sequence ev < 0 then Inl InvalidRecord
     else if \<not> isTaskEventType (ti_type ev) then Inl InvalidRecord
     else if \<not> iso_utc (ti_ts ev) then Inl InvalidRecord
     else need (taskRow s i) (\<lambda>cur.
       and_then (encodeJson (null_if_undef (ti_payload ev)) limit_task_event_payload) (\<lambda>payload.
         if ti_sequence ev \<le> tk_last_event_sequence cur then
           (case sel te_sequence (ti_sequence ev) (task_events_of s i) of
              None \<Rightarrow> Inl EventGap
            | Some e \<Rightarrow> if same_task_event e (ti_type ev) (ti_ts ev) payload then Inr s else Inl EventConflict)
         else if ti_sequence ev \<noteq> tk_last_event_sequence cur + 1 then Inl EventGap
         else if source_taken s i (ti_source_sequence ev) then Inl ConstraintViolation
         else Inr (s\<lparr>ws_task_events := ws_task_events s @ [task_event_row_of now i ev payload],
                     ws_tasks := upd tk_id i (\<lambda>t. t\<lparr>tk_last_event_sequence := ti_sequence ev, tk_updated_at := now\<rparr>)
                       (ws_tasks s)\<rparr>))))"

definition createTaskDurable ::
  "string \<Rightarrow> create_task_input \<Rightarrow> task_event_input \<Rightarrow> wstore \<Rightarrow> store_error + wstore" where
  "createTaskDurable now i created s = opened s
    (and_then (createTaskSync now i s) (appendTaskEventSync now (ct_id i) created))"

definition task_by_key :: "wstore \<Rightarrow> string \<Rightarrow> task_row option" where
  "task_by_key s k = find (\<lambda>t. tk_idempotency_key t = Some k) (ws_tasks s)"

definition resolve_existing :: "wstore \<Rightarrow> string \<Rightarrow> task_row \<Rightarrow> store_error + (wstore \<times> string \<times> bool)" where
  "resolve_existing s fp row = (if tk_request_fingerprint row \<noteq> Some fp then Inl IdempotencyConflict
     else Inr (s, tk_id row, False))"

text \<open>The result also names the task the caller is given and whether it was created.\<close>

definition createTaskIdempotently ::
  "string \<Rightarrow> create_task_input \<Rightarrow> task_event_input \<Rightarrow> wstore \<Rightarrow> store_error + (wstore \<times> string \<times> bool)" where
  "createTaskIdempotently now i created s = opened s
    (case (ct_idempotency_key i, ct_request_fingerprint i) of
       (Some k, Some fp) \<Rightarrow>
         if \<not> isSafeId k \<or> fp = [] then Inl InvalidRecord
         else (case task_by_key s k of
             Some row \<Rightarrow> resolve_existing s fp row
           | None \<Rightarrow> and_then (createTaskSync now i s) (\<lambda>s1.
               and_then (appendTaskEventSync now (ct_id i) created s1) (\<lambda>s2. Inr (s2, ct_id i, True))))
     | _ \<Rightarrow> Inl InvalidRecord)"

definition record_terminal :: "string \<Rightarrow> wstore \<Rightarrow> wstore" where
  "record_terminal i s = update_task i (\<lambda>t. t\<lparr>tk_terminal_event_recorded := True\<rparr>) s"

definition terminal_patch :: "string \<Rightarrow> task_patch \<Rightarrow> task_patch" where
  "terminal_patch now p = p\<lparr>tp_terminal_at := Some (Some (case tp_terminal_at p of Some (Some t) \<Rightarrow> t | _ \<Rightarrow> now))\<rparr>"

definition finish_task ::
  "string \<Rightarrow> string \<Rightarrow> int \<Rightarrow> task_patch \<Rightarrow> task_event_input \<Rightarrow> wstore \<Rightarrow> store_error + wstore" where
  "finish_task now i rv p ev s =
    (if \<not> (case tp_status p of None \<Rightarrow> False | Some st \<Rightarrow> isTerminalTaskStatus st) then Inl InvalidTransition
     else and_then (updateTaskSync now i rv (terminal_patch now p) s) (\<lambda>s1.
       and_then (appendTaskEventSync now i ev s1) (\<lambda>s2. Inr (record_terminal i s2))))"

definition terminalizeTaskDurable ::
  "string \<Rightarrow> string \<Rightarrow> int \<Rightarrow> task_patch \<Rightarrow> task_event_input \<Rightarrow> wstore \<Rightarrow> store_error + wstore" where
  "terminalizeTaskDurable now i rv p ev s = opened s (need (taskRow s i) (\<lambda>cur.
     if tk_terminal_event_recorded cur then Inl InvalidTransition else finish_task now i rv p ev s))"

section \<open>Durable results\<close>

definition limit_result_json :: nat where "limit_result_json = 256 * 1024"

definition verification_text :: "task_verification option \<Rightarrow> store_error + string option" where
  "verification_text v = (case v of None \<Rightarrow> Inr None
     | Some tv \<Rightarrow> and_then (encodeJson (verification_json tv) limit_result_json) (\<lambda>t. Inr (Some t)))"

text \<open>Both envelopes' JSON columns are compared as text; \<open>finalized_at\<close> is not compared. The code
  encodes only as far as the preceding comparisons agree.\<close>

definition envelope_matches :: "task_result \<Rightarrow> task_result \<Rightarrow> store_error + bool" where
  "envelope_matches row r =
    (if tr_content_hash row \<noteq> tr_content_hash r \<or> tr_text row \<noteq> tr_text r \<or> tr_exit_code row \<noteq> tr_exit_code r
     then Inr False
     else and_then (encodeJson (JArr (tr_evidence_refs r)) limit_result_json) (\<lambda>e.
       if encodeJson (JArr (tr_evidence_refs row)) limit_result_json \<noteq> Inr e then Inr False
       else and_then (encodeJson (JArr (tr_artifact_refs r)) limit_result_json) (\<lambda>a.
         if encodeJson (JArr (tr_artifact_refs row)) limit_result_json \<noteq> Inr a then Inr False
         else and_then (verification_text (tr_verification r)) (\<lambda>v.
           Inr (verification_text (tr_verification row) = Inr v)))))"

definition resultRowMatches :: "task_result_row \<Rightarrow> string \<Rightarrow> task_result option \<Rightarrow> store_error + bool" where
  "resultRowMatches row st r =
    (if rr_status row \<noteq> st then Inr False
     else (case (rr_result row, r) of
        (None, None) \<Rightarrow> Inr True
      | (Some x, Some y) \<Rightarrow> envelope_matches x y
      | _ \<Rightarrow> Inr False))"

definition writable_result :: "task_result option \<Rightarrow> store_error + unit" where
  "writable_result r = (case r of None \<Rightarrow> Inr ()
     | Some x \<Rightarrow> and_then (boundString (tr_text x) MAX_FINAL_OUTPUT_BYTES) (\<lambda>_.
         and_then (encodeJson (JArr (tr_evidence_refs x)) limit_result_json) (\<lambda>_.
         and_then (encodeJson (JArr (tr_artifact_refs x)) limit_result_json) (\<lambda>_.
         and_then (verification_text (tr_verification x)) (\<lambda>_. Inr ())))))"

definition writeResultRow :: "string \<Rightarrow> string \<Rightarrow> string \<Rightarrow> task_result option \<Rightarrow> wstore \<Rightarrow> store_error + wstore" where
  "writeResultRow now i st r s = and_then (writable_result r) (\<lambda>_.
     Inr (update_task i (\<lambda>t. t\<lparr>tk_result_status := Some st\<rparr>)
       (s\<lparr>ws_results := ws_results s @ [\<lparr>rr_task_id = i, rr_status = st, rr_result = r, rr_created_at = now\<rparr>]\<rparr>)))"

definition ensure_result ::
  "string \<Rightarrow> string \<Rightarrow> string \<Rightarrow> task_result option \<Rightarrow> wstore \<Rightarrow> store_error + (wstore \<times> bool)" where
  "ensure_result now i st r s = (case taskResultRow s i of
      Some row \<Rightarrow> and_then (resultRowMatches row st r) (\<lambda>same. if same then Inr (s, False) else Inl ResultConflict)
    | None \<Rightarrow> and_then (writeResultRow now i st r s) (\<lambda>s1. Inr (s1, True)))"

definition persistTaskResultDurable ::
  "string \<Rightarrow> string \<Rightarrow> string \<Rightarrow> task_result option \<Rightarrow> wstore \<Rightarrow> store_error + (wstore \<times> bool)" where
  "persistTaskResultDurable now i st r s = opened s (need (taskRow s i) (\<lambda>_. ensure_result now i st r s))"

text \<open>The read revalidates the stored envelope.\<close>

definition getTaskResultDurable ::
  "(string \<Rightarrow> string) \<Rightarrow> string \<Rightarrow> wstore \<Rightarrow> store_error + (string \<times> task_result option) option" where
  "getTaskResultDurable sha i s = opened s (case taskResultRow s i of
      None \<Rightarrow> Inr None
    | Some row \<Rightarrow>
        if rr_status row \<noteq> ''available'' then Inr (Some (rr_status row, None))
        else (case rr_result row of
            None \<Rightarrow> Inl Corruption
          | Some r \<Rightarrow> (case validateTaskResult sha (result_json r) of
                Inl _ \<Rightarrow> Inl Corruption
              | Inr v \<Rightarrow> Inr (Some (''available'', Some v)))))"

definition terminalizeTaskWithResultDurable ::
  "string \<Rightarrow> string \<Rightarrow> int \<Rightarrow> task_patch \<Rightarrow> task_event_input \<Rightarrow> string \<Rightarrow> task_result option \<Rightarrow> wstore \<Rightarrow>
   store_error + wstore" where
  "terminalizeTaskWithResultDurable now i rv p ev st r s = opened s (need (taskRow s i) (\<lambda>cur.
     and_then (ensure_result now i st r s) (\<lambda>sb.
       if tk_terminal_event_recorded cur then Inr (fst sb) else finish_task now i rv p ev (fst sb))))"

section \<open>Source events\<close>

definition markTaskHistoryIncomplete :: "string \<Rightarrow> string \<Rightarrow> int \<Rightarrow> wstore \<Rightarrow> store_error + wstore" where
  "markTaskHistoryIncomplete i reason boundary s = opened s (need (taskRow s i) (\<lambda>r.
     if tk_history_incomplete r then Inr s
     else Inr (update_task i (\<lambda>t. t\<lparr>tk_history_incomplete := True, tk_history_reason := Some reason,
       tk_history_boundary_sequence := Some boundary\<rparr>) s)))"

definition clearTaskHistoryIncomplete :: "string \<Rightarrow> wstore \<Rightarrow> store_error + wstore" where
  "clearTaskHistoryIncomplete i s = opened s (Inr (update_task i (\<lambda>t. t\<lparr>tk_history_incomplete := False,
     tk_history_reason := None, tk_history_boundary_sequence := None\<rparr>) s))"

definition initReplayCursor :: "string \<Rightarrow> wstore \<Rightarrow> store_error + wstore" where
  "initReplayCursor i s = opened s (Inr (update_task i
     (\<lambda>t. if tk_last_remote_event_sequence t = None then t\<lparr>tk_last_remote_event_sequence := Some (-1)\<rparr> else t) s))"

record source_event =
  sv_type :: string
  sv_ts :: string
  sv_payload :: jsval
  sv_terminal :: bool
  sv_status :: "string option"
  sv_error_code :: "string option"
  sv_error_message :: "string option"

definition next_source :: "task_row \<Rightarrow> int" where
  "next_source t = (case tk_last_remote_event_sequence t of None \<Rightarrow> 0 | Some q \<Rightarrow> q + 1)"

definition move_cursor :: "string \<Rightarrow> string \<Rightarrow> int \<Rightarrow> wstore \<Rightarrow> wstore" where
  "move_cursor now i q s = update_task i (\<lambda>t. t\<lparr>tk_last_remote_event_sequence := Some q, tk_updated_at := now\<rparr>) s"

text \<open>The status change of an applied source event; \<open>COALESCE\<close> keeps the current value for NULL.\<close>

definition source_effect :: "string \<Rightarrow> source_event \<Rightarrow> task_row \<Rightarrow> task_row" where
  "source_effect now ev t =
    (if sv_terminal ev \<and> \<not> tk_terminal_event_recorded t then
       t\<lparr>tk_status := patched (sv_status ev) (tk_status t), tk_terminal_at := Some now,
         tk_terminal_event_recorded := True,
         tk_error_code := (case sv_error_code ev of None \<Rightarrow> tk_error_code t | Some x \<Rightarrow> Some x),
         tk_error_message := (case sv_error_message ev of None \<Rightarrow> tk_error_message t | Some x \<Rightarrow> Some x)\<rparr>
     else (case sv_status ev of None \<Rightarrow> t | Some st \<Rightarrow> if st = [] then t else t\<lparr>tk_status := st\<rparr>))"

text \<open>The result: the store, whether the event was applied, and the canonical sequence it has.\<close>

definition ingestSourceEventDurable ::
  "string \<Rightarrow> string \<Rightarrow> int \<Rightarrow> source_event \<Rightarrow> wstore \<Rightarrow> store_error + (wstore \<times> bool \<times> int)" where
  "ingestSourceEventDurable now i q ev s = opened s
    (if q < 0 then Inl InvalidRecord
     else if \<not> isTaskEventType (sv_type ev) then Inl InvalidRecord
     else if \<not> iso_utc (sv_ts ev) then Inl InvalidRecord
     else need (taskRow s i) (\<lambda>cur.
       and_then (encodeJson (null_if_undef (sv_payload ev)) limit_task_event_payload) (\<lambda>payload.
         if q < next_source cur then
           (case sel te_source_sequence (Some q) (task_events_of s i) of
              None \<Rightarrow> Inl EventConflict
            | Some e \<Rightarrow> if same_task_event e (sv_type ev) (sv_ts ev) payload
                then Inr (s, False, te_sequence e) else Inl EventConflict)
         else if q > next_source cur then Inl EventGap
         else (let g = tk_last_event_sequence cur + 1
           in and_then (appendTaskEventSync now i \<lparr>ti_sequence = g, ti_type = sv_type ev, ti_ts = sv_ts ev,
                  ti_payload = sv_payload ev, ti_source_sequence = Some q\<rparr> s) (\<lambda>s1.
             Inr (update_task i (source_effect now ev) (move_cursor now i q s1), True, g))))))"

definition advanceSourceCursor :: "string \<Rightarrow> string \<Rightarrow> int \<Rightarrow> wstore \<Rightarrow> store_error + (wstore \<times> bool)" where
  "advanceSourceCursor now i q s = opened s
    (if q < 0 then Inl InvalidRecord
     else need (taskRow s i) (\<lambda>cur.
       if q < next_source cur then Inr (s, False)
       else if q > next_source cur then Inl EventGap
       else Inr (move_cursor now i q s, False)))"

section \<open>Retention\<close>

text \<open>Deleting a task cascades to its events and results and clears the step bindings to it.\<close>

definition delete_tasks :: "(string \<Rightarrow> bool) \<Rightarrow> wstore \<Rightarrow> wstore" where
  "delete_tasks gone s = s\<lparr>ws_tasks := filter (\<lambda>t. \<not> gone (tk_id t)) (ws_tasks s),
     ws_task_events := filter (\<lambda>e. \<not> gone (te_task_id e)) (ws_task_events s),
     ws_results := filter (\<lambda>r. \<not> gone (rr_task_id r)) (ws_results s),
     ws_steps := map (\<lambda>st. case se_task_id st of None \<Rightarrow> st
       | Some t \<Rightarrow> if gone t then st\<lparr>se_task_id := None\<rparr> else st) (ws_steps s)\<rparr>"

definition deleteTask :: "string \<Rightarrow> wstore \<Rightarrow> store_error + wstore" where
  "deleteTask i s = opened s (Inr (delete_tasks (\<lambda>t. t = i) s))"

definition expired_task :: "string \<Rightarrow> task_row \<Rightarrow> bool" where
  "expired_task olderThan t = (isTerminalTaskStatus (tk_status t) \<and>
     (case tk_terminal_at t of None \<Rightarrow> False | Some x \<Rightarrow> x < olderThan))"

definition pruneTerminalTasks :: "string \<Rightarrow> wstore \<Rightarrow> store_error + (wstore \<times> nat)" where
  "pruneTerminalTasks olderThan s = opened s
    (let old = filter (expired_task olderThan) (ws_tasks s)
     in Inr (delete_tasks (\<lambda>i. i \<in> tk_id ` set old) s, length old))"

definition pruneTaskEvents :: "string \<Rightarrow> int \<Rightarrow> wstore \<Rightarrow> store_error + (wstore \<times> nat)" where
  "pruneTaskEvents i keepLast s = opened s
    (if keepLast < 0 then Inl InvalidRecord
     else (case cutoff (nat keepLast) (map te_sequence (task_events_of s i)) of
        None \<Rightarrow> Inr (s, 0)
      | Some c \<Rightarrow>
         (let dropped = (\<lambda>e. te_task_id e = i \<and> te_sequence e \<le> c);
              kept = filter (\<lambda>e. \<not> dropped e) (ws_task_events s);
              earliest = min_seq (map te_sequence (filter (\<lambda>e. te_task_id e = i) kept))
          in Inr (s\<lparr>ws_task_events := kept,
                ws_tasks := (case earliest of None \<Rightarrow> ws_tasks s
                  | Some m \<Rightarrow> upd tk_id i (\<lambda>t. t\<lparr>tk_earliest_retained_sequence := m\<rparr>) (ws_tasks s))\<rparr>,
              length (filter dropped (ws_task_events s))))))"

end
