(* ===== verification/StoreCalls.thy ===== *)
theory StoreCalls
  imports WorkflowInvariant GateLaws TaskStore
begin

text \<open>
  The interface \<open>ControlStore\<close> (\<open>src/control/store.ts\<close>) as data: one constructor per method
  that writes, \<open>perform\<close> as its dispatch, and \<open>run_calls\<close> for a sequence of transactions, where a
  transaction that throws is rolled back. The invariant and the evolution order of the
  workflow tables are proved for every sequence of calls, as is the
  finality of human answers, of completion evidence and of stall rounds.
\<close>

datatype task_call =
    CreateTaskDurable create_task_input task_event_input
  | CreateTaskIdempotently create_task_input task_event_input
  | UpdateTask string int task_patch
  | AppendTaskEvent string task_event_input
  | TerminalizeTask string int task_patch task_event_input
  | TerminalizeTaskWithResult string int task_patch task_event_input string "task_result option"
  | PersistTaskResult string string "task_result option"
  | MarkHistoryIncomplete string string int
  | ClearHistoryIncomplete string
  | InitReplayCursor string
  | IngestSourceEvent string int source_event
  | AdvanceSourceCursor string int

datatype workflow_call =
    CreateWorkflow create_workflow_input
  | UpdateWorkflow string int workflow_patch
  | CreateStepExecution create_step_input
  | UpdateStepExecution string int step_patch
  | AppendWorkflowEvent string int event_draft
  | SaveWorkflowContext string int jsval
  | CreateWorkflowWithLifecycle create_workflow_input jsval event_draft event_draft
  | StartWorkflow string event_draft
  | EnsureStepStarted create_step_input string event_draft
  | BindStepTaskOnce string string string event_draft
  | CompleteStep string jsval string "int option" jsval event_draft
  | AdvanceWorkflow string event_draft "event_draft option" create_step_input string event_draft
  | TerminalizeWorkflow string workflow_status "event_draft option" event_draft
  | FailStepAndWorkflow string string event_draft event_draft jsval
  | RecordCancellationIntent string
  | CancelStepAndWorkflow "string option" string event_draft
  | StartWorkflowStep create_step_input int workflow_patch int event_draft
  | BindStepTask string int string string int int event_draft
  | CheckpointWorkflow string int workflow_patch "int option" jsval int event_draft

datatype gate_call =
    RecordLeaseIntent string string string string
  | MarkLeaseActive string "workspace_revision option" "workspace_revision option" string
  | SetLeaseAcquireReason string "string option"
  | SetLeaseRevision string "workspace_revision option"
  | RequestLeaseRelease string string
  | MarkLeaseReleased string string
  | MarkStepAwaitingResult string string
  | SetStepRevisionBefore string "workspace_revision option"
  | SetStepRevisionAfter string "workspace_revision option"
  | CreateHumanRequestAndPause human_input workflow_status event_draft
  | AnswerHumanRequest string string
  | ApproveHumanRequest string
  | RejectHumanRequest string event_draft
  | ResumeWorkflow string event_draft
  | RecordCompletionEvidence string string jsval string
  | RecordStallRound string int string jsval

datatype store_call = TaskCall task_call | WorkflowCall workflow_call | GateCall gate_call

text \<open>The store part of a method's result.\<close>

definition store_of :: "'e + (wstore \<times> 'a) \<Rightarrow> 'e + wstore" where
  "store_of r = and_then r (\<lambda>x. Inr (fst x))"

fun perform_task :: "string \<Rightarrow> task_call \<Rightarrow> wstore \<Rightarrow> store_error + wstore" where
  "perform_task now (CreateTaskDurable i e) s = createTaskDurable now i e s"
| "perform_task now (CreateTaskIdempotently i e) s = store_of (createTaskIdempotently now i e s)"
| "perform_task now (UpdateTask i rv p) s = opened s (updateTaskSync now i rv p s)"
| "perform_task now (AppendTaskEvent i e) s = opened s (appendTaskEventSync now i e s)"
| "perform_task now (TerminalizeTask i rv p e) s = terminalizeTaskDurable now i rv p e s"
| "perform_task now (TerminalizeTaskWithResult i rv p e st r) s = terminalizeTaskWithResultDurable now i rv p e st r s"
| "perform_task now (PersistTaskResult i st r) s = store_of (persistTaskResultDurable now i st r s)"
| "perform_task now (MarkHistoryIncomplete i reason b) s = markTaskHistoryIncomplete i reason b s"
| "perform_task now (ClearHistoryIncomplete i) s = clearTaskHistoryIncomplete i s"
| "perform_task now (InitReplayCursor i) s = initReplayCursor i s"
| "perform_task now (IngestSourceEvent i q e) s = store_of (ingestSourceEventDurable now i q e s)"
| "perform_task now (AdvanceSourceCursor i q) s = store_of (advanceSourceCursor now i q s)"

fun perform_workflow :: "string \<Rightarrow> workflow_call \<Rightarrow> wstore \<Rightarrow> store_error + wstore" where
  "perform_workflow now (CreateWorkflow i) s = opened s (createWorkflowSync now i s)"
| "perform_workflow now (UpdateWorkflow i rv p) s = opened s (updateWorkflowSync now i rv p s)"
| "perform_workflow now (CreateStepExecution i) s = opened s (createStepSync now i s)"
| "perform_workflow now (UpdateStepExecution i rv p) s = opened s (updateStepSync now i rv p s)"
| "perform_workflow now (AppendWorkflowEvent i q e) s = opened s (appendWorkflowEventSync now i q e s)"
| "perform_workflow now (SaveWorkflowContext i rv ctx) s = opened s (saveContextSync now i rv ctx s)"
| "perform_workflow now (CreateWorkflowWithLifecycle i ctx e1 e2) s = createWorkflowWithLifecycleEvents now i ctx e1 e2 s"
| "perform_workflow now (StartWorkflow i e) s = store_of (startWorkflowDurably now i e s)"
| "perform_workflow now (EnsureStepStarted st c e) s = store_of (ensureStepStarted now st c e s)"
| "perform_workflow now (BindStepTaskOnce x t i e) s = store_of (bindStepTaskOnce now x t i e s)"
| "perform_workflow now (CompleteStep x out i r ctx e) s = store_of (completeStepAndCheckpoint now x out i r ctx e s)"
| "perform_workflow now (AdvanceWorkflow i e1 e2 st c e3) s = store_of (advanceWorkflow now i e1 e2 st c e3 s)"
| "perform_workflow now (TerminalizeWorkflow i st e1 e2) s = store_of (terminalizeWorkflow now i st e1 e2 s)"
| "perform_workflow now (FailStepAndWorkflow x i e1 e2 er) s = failStepAndWorkflow now x i e1 e2 er s"
| "perform_workflow now (RecordCancellationIntent i) s = recordCancellationIntent now i s"
| "perform_workflow now (CancelStepAndWorkflow x i e) s = store_of (cancelStepAndWorkflow now x i e s)"
| "perform_workflow now (StartWorkflowStep st rv p q e) s = startWorkflowStep now st rv p q e s"
| "perform_workflow now (BindStepTask x r t i rv q e) s = bindStepTask now x r t i rv q e s"
| "perform_workflow now (CheckpointWorkflow i rv p r ctx q e) s = checkpointWorkflow now i rv p r ctx q e s"

fun perform_gate :: "string \<Rightarrow> gate_call \<Rightarrow> wstore \<Rightarrow> store_error + wstore" where
  "perform_gate now (RecordLeaseIntent i wid n k) s = recordWorkspaceLeaseIntent now i wid n k s"
| "perform_gate now (MarkLeaseActive i b c a) s = markWorkspaceLeaseActive now i b c a s"
| "perform_gate now (SetLeaseAcquireReason i r) s = setWorkspaceLeaseAcquireReason now i r s"
| "perform_gate now (SetLeaseRevision i c) s = setWorkspaceLeaseRevision now i c s"
| "perform_gate now (RequestLeaseRelease i ts) s = requestWorkspaceLeaseRelease now i ts s"
| "perform_gate now (MarkLeaseReleased i ts) s = markWorkspaceLeaseReleased now i ts s"
| "perform_gate now (MarkStepAwaitingResult x ts) s = markStepAwaitingResult now x ts s"
| "perform_gate now (SetStepRevisionBefore x r) s = setStepRevisionBefore now x r s"
| "perform_gate now (SetStepRevisionAfter x r) s = setStepRevisionAfter now x r s"
| "perform_gate now (CreateHumanRequestAndPause i st e) s = createHumanRequestAndPause now i st e s"
| "perform_gate now (AnswerHumanRequest i v) s = answerHumanRequestInput now i v s"
| "perform_gate now (ApproveHumanRequest i) s = approveHumanRequest now i s"
| "perform_gate now (RejectHumanRequest i e) s = rejectHumanRequestAndFailWorkflow now i e s"
| "perform_gate now (ResumeWorkflow i e) s = store_of (resumeWorkflowRunning now i e s)"
| "perform_gate now (RecordCompletionEvidence x wid ev d) s = recordCompletionEvidence now x wid ev d s"
| "perform_gate now (RecordStallRound wid n fp sg) s = recordStallRound now wid n fp sg s"

fun perform :: "string \<Rightarrow> store_call \<Rightarrow> wstore \<Rightarrow> store_error + wstore" where
  "perform now (TaskCall c) s = perform_task now c s"
| "perform now (WorkflowCall c) s = perform_workflow now c s"
| "perform now (GateCall c) s = perform_gate now c s"

definition transact :: "wstore \<Rightarrow> string \<times> store_call \<Rightarrow> wstore" where
  "transact s c = (case perform (fst c) (snd c) s of Inl _ \<Rightarrow> s | Inr s' \<Rightarrow> s')"

definition run_calls :: "(string \<times> store_call) list \<Rightarrow> wstore \<Rightarrow> wstore" where
  "run_calls cs s = foldl transact s cs"

lemma store_of_InrE:
  assumes "store_of r = Inr s"
  obtains b where "r = Inr (s, b)"
  using assms by (auto simp: store_of_def)

section \<open>Task transactions leave the other tables alone\<close>

lemma createTaskSync_frame: "createTaskSync now i s = Inr s' \<Longrightarrow> tasks_only s s'"
  by (auto simp: createTaskSync_def tasks_only_def same_workflow_tables_def split: if_splits)

lemma updateTaskSync_frame: "updateTaskSync now i rv p s = Inr s' \<Longrightarrow> tasks_only s s'"
  by (auto simp: updateTaskSync_def update_task_def tasks_only_def same_workflow_tables_def)

lemma appendTaskEventSync_frame: "appendTaskEventSync now i e s = Inr s' \<Longrightarrow> tasks_only s s'"
  by (auto simp: appendTaskEventSync_def tasks_only_def same_workflow_tables_def split: if_splits option.splits)

lemma finish_task_frame: "finish_task now i rv p e s = Inr s' \<Longrightarrow> tasks_only s s'"
  by (auto simp: finish_task_def record_terminal_def update_task_def tasks_only_def same_workflow_tables_def split: if_splits
      dest!: updateTaskSync_frame appendTaskEventSync_frame)

lemma ensure_result_frame: "ensure_result now i st r s = Inr (s', b) \<Longrightarrow> tasks_only s s'"
  by (auto simp: ensure_result_def writeResultRow_def update_task_def tasks_only_def same_workflow_tables_def
      split: option.splits if_splits)

lemma tasks_only_trans: "tasks_only s t \<Longrightarrow> tasks_only t u \<Longrightarrow> tasks_only s u"
  by (simp add: tasks_only_def same_workflow_tables_def)

lemma tasks_only_update_task [simp]: "tasks_only s (update_task i f t) \<longleftrightarrow> tasks_only s t"
  by (simp add: tasks_only_def same_workflow_tables_def update_task_def)

lemma tasks_only_refl [simp]: "tasks_only s s"
  by (simp add: tasks_only_def same_workflow_tables_def)

lemmas task_frames = createTaskSync_frame updateTaskSync_frame appendTaskEventSync_frame finish_task_frame
  ensure_result_frame

lemma createTaskDurable_frame: "createTaskDurable now i e s = Inr s' \<Longrightarrow> tasks_only s s'"
  by (auto simp: createTaskDurable_def dest!: task_frames; meson tasks_only_trans)

lemma createTaskIdempotently_frame: "createTaskIdempotently now i e s = Inr (s', b) \<Longrightarrow> tasks_only s s'"
  by (auto simp: createTaskIdempotently_def resolve_existing_def split: option.splits if_splits dest!: task_frames; meson tasks_only_trans)

lemma terminalizeTask_frame: "terminalizeTaskDurable now i rv p e s = Inr s' \<Longrightarrow> tasks_only s s'"
  by (auto simp: terminalizeTaskDurable_def split: if_splits intro: task_frames)

lemma terminalizeTaskWithResult_frame:
  "terminalizeTaskWithResultDurable now i rv p e st r s = Inr s' \<Longrightarrow> tasks_only s s'"
  by (auto simp: terminalizeTaskWithResultDurable_def split: if_splits dest!: task_frames; meson tasks_only_trans)

lemma persistTaskResult_frame: "persistTaskResultDurable now i st r s = Inr (s', b) \<Longrightarrow> tasks_only s s'"
  by (auto simp: persistTaskResultDurable_def intro: task_frames)

lemma ingest_frame: "ingestSourceEventDurable now i q e s = Inr (s', b) \<Longrightarrow> tasks_only s s'"
  by (auto simp: ingestSourceEventDurable_def move_cursor_def Let_def split: option.splits if_splits dest!: appendTaskEventSync_frame)

lemma cursor_frames:
  "advanceSourceCursor now i q s = Inr (s', b) \<Longrightarrow> tasks_only s s'"
  "markTaskHistoryIncomplete i reason bd s = Inr s' \<Longrightarrow> tasks_only s s'"
  "clearTaskHistoryIncomplete i s = Inr s' \<Longrightarrow> tasks_only s s'"
  "initReplayCursor i s = Inr s' \<Longrightarrow> tasks_only s s'"
  by (auto simp: advanceSourceCursor_def markTaskHistoryIncomplete_def clearTaskHistoryIncomplete_def
      initReplayCursor_def move_cursor_def split: if_splits)

lemmas task_call_frames = createTaskDurable_frame createTaskIdempotently_frame terminalizeTask_frame
  terminalizeTaskWithResult_frame persistTaskResult_frame ingest_frame cursor_frames
  updateTaskSync_frame appendTaskEventSync_frame

section \<open>Every call\<close>

context store_relation
begin

lemmas R_calls = R_createWorkflow R_updateWorkflow R_createStep R_updateStep R_append R_saveContext
  R_lifecycle R_start R_ensure R_bind R_complete R_advance R_terminalize R_fail R_cancel_intent R_cancel
  R_startStep R_bindStep R_checkpoint R_pause R_reject R_resume R_step_evidence R_side_tables
lemma R_perform_workflow: "perform_workflow now c s = Inr s' \<Longrightarrow> R s s'"
  by (cases c) (auto elim!: store_of_InrE dest!: R_calls)

lemma R_perform_gate: "perform_gate now c s = Inr s' \<Longrightarrow> R s s'"
  by (cases c) (auto elim!: store_of_InrE dest!: R_calls)

end

context call_relation
begin

lemma R_perform_task: "perform_task now c s = Inr s' \<Longrightarrow> R s s'"
  by (cases c) (auto elim!: store_of_InrE dest: task_call_frames [THEN R_tasks])

lemma R_perform: "perform now c s = Inr s' \<Longrightarrow> R s s'"
  by (cases c) (auto elim: R_perform_task R_perform_workflow R_perform_gate)

lemma R_run: "R s (run_calls cs s)"
proof (induction cs arbitrary: s)
  case Nil
  then show ?case by (simp add: run_calls_def R_refl)
next
  case (Cons c cs)
  have "R s (transact s c)" by (auto simp: transact_def R_refl R_perform split: sum.splits)
  from R_trans [OF this Cons] show ?case by (simp add: run_calls_def)
qed

end

lemma run_calls_evolves: "evolves s (run_calls cs s)"
  by (rule ev.calls.R_run)

lemma run_calls_inv: "wf_inv s \<Longrightarrow> wf_inv (run_calls cs s)"
  using inv.calls.R_run by blast

lemma run_calls_gates: "gates_evolve s (run_calls cs s)"
  by (rule gates.R_run)

lemma run_calls_leases: "lease_inv s \<Longrightarrow> lease_inv (run_calls cs s)"
  using leases.R_run by blast

end
