(* ===== verification/StoreReads.thy ===== *)
theory StoreReads
  imports StoreCalls
begin

text \<open>
  The reads of the durable store (\<open>src/control/sqlite-store.ts\<close>): the query of a method as a
  function of the tables. A closed store refuses every read; that check is made by the
  callers of these functions. Where SQL leaves the order of equal keys open, rows come in
  insertion order.
\<close>

definition clampLimit :: "int option \<Rightarrow> int" where
  "clampLimit n = (case n of Some k \<Rightarrow> if 0 < k then min k 10000 else 1000 | None \<Rightarrow> 1000)"

definition clampOffset :: "int option \<Rightarrow> int" where
  "clampOffset n = (case n of Some k \<Rightarrow> if 0 \<le> k then k else 0 | None \<Rightarrow> 0)"

definition page :: "int option \<Rightarrow> int option \<Rightarrow> 'r list \<Rightarrow> 'r list" where
  "page limit offset rows = take (nat (clampLimit limit)) (drop (nat (clampOffset offset)) rows)"

section \<open>Tasks\<close>

text \<open>An absent filter and an empty string both select every row.\<close>

definition selects :: "string option \<Rightarrow> string option \<Rightarrow> bool" where
  "selects wanted v = (case wanted of None \<Rightarrow> True | Some x \<Rightarrow> x = [] \<or> v = Some x)"

definition listTasks :: "string option \<Rightarrow> string option \<Rightarrow> int option \<Rightarrow> int option \<Rightarrow> wstore \<Rightarrow> task_row list" where
  "listTasks status node limit offset s = page limit offset (sort_key tk_created_at (sort_key tk_id
     (filter (\<lambda>t. selects status (Some (tk_status t)) \<and> selects node (tk_node_id t)) (ws_tasks s))))"

definition listTaskEvents :: "string \<Rightarrow> int \<Rightarrow> int option \<Rightarrow> wstore \<Rightarrow> task_event_row list" where
  "listTaskEvents i afterSequence limit s = page limit None (sort_key te_sequence
     (filter (\<lambda>e. afterSequence < te_sequence e) (task_events_of s i)))"

definition getLatestTaskEventSequence :: "string \<Rightarrow> wstore \<Rightarrow> store_error + int" where
  "getLatestTaskEventSequence i s = opened s (need (taskRow s i) (\<lambda>t. Inr (tk_last_event_sequence t)))"

section \<open>Workflows\<close>

definition listWorkflows :: "workflow_status option \<Rightarrow> int option \<Rightarrow> int option \<Rightarrow> wstore \<Rightarrow> workflow_row list" where
  "listWorkflows status limit offset s = page limit offset (sort_key wf_created_at (sort_key wf_id
     (filter (\<lambda>w. status = None \<or> status = Some (wf_status w)) (ws_workflows s))))"

definition listStepExecutions :: "string \<Rightarrow> wstore \<Rightarrow> step_row list" where
  "listStepExecutions wid s = sort_key se_round (sort_key se_created_at
     (filter (\<lambda>r. se_workflow_id r = wid) (ws_steps s)))"

definition listWorkflowEvents :: "string \<Rightarrow> int \<Rightarrow> int option \<Rightarrow> wstore \<Rightarrow> workflow_event_row list" where
  "listWorkflowEvents wid afterSequence limit s = page limit None (sort_key we_sequence
     (filter (\<lambda>e. afterSequence < we_sequence e) (events_of s wid)))"

definition getStepExecutionByKey :: "string \<Rightarrow> string \<Rightarrow> int \<Rightarrow> int \<Rightarrow> wstore \<Rightarrow> step_row option" where
  "getStepExecutionByKey wid stepId round attempt s = stepExecByKey s (wid, stepId, round, attempt)"

definition listWorkspaceLeaseProjections :: "string \<Rightarrow> wstore \<Rightarrow> lease_row list" where
  "listWorkspaceLeaseProjections wid s = sort_key lr_node_id (sort_key lr_workspace_key
     (filter (\<lambda>l. lr_workflow_id l = wid) (ws_leases s)))"

text \<open>\<open>ORDER BY created_at DESC LIMIT 1\<close>\<close>

definition newest_request :: "human_request_row list \<Rightarrow> human_request_row option" where
  "newest_request rows = (case rows of [] \<Rightarrow> None
     | r # rs \<Rightarrow> Some (foldl (\<lambda>m x. if hr_created_at m < hr_created_at x then x else m) r rs))"

definition getPendingHumanRequest :: "string \<Rightarrow> wstore \<Rightarrow> human_request_row option" where
  "getPendingHumanRequest wid s = newest_request
     (filter (\<lambda>h. hr_workflow_id h = wid \<and> hr_status h = HPending) (ws_human s))"

definition getActiveHumanRequest :: "string \<Rightarrow> wstore \<Rightarrow> human_request_row option" where
  "getActiveHumanRequest wid s = newest_request
     (filter (\<lambda>h. hr_workflow_id h = wid \<and> hr_status h \<noteq> HRejected) (ws_human s))"

definition getCompletionEvidence :: "string \<Rightarrow> wstore \<Rightarrow> evidence_row option" where
  "getCompletionEvidence x s = sel er_step_execution_id x (ws_evidence s)"

section \<open>Facts\<close>

lemma clampLimit_bounds: "1 \<le> clampLimit n \<and> clampLimit n \<le> 10000"
  by (auto simp: clampLimit_def split: option.splits)

lemma page_length: "length (page limit offset rows) \<le> 10000"
  using clampLimit_bounds [of limit] by (auto simp: page_def min_def)

lemma newest_requestD: "newest_request rows = Some h \<Longrightarrow> h \<in> set rows"
proof -
  have "foldl (\<lambda>m x. if hr_created_at m < hr_created_at x then x else m) r rs \<in> insert r (set rs)" for r rs
  proof (induction rs arbitrary: r)
    case (Cons x rs)
    show ?case using Cons [of x] Cons [of r] by auto
  qed simp
  then show "newest_request rows = Some h \<Longrightarrow> h \<in> set rows"
    by (auto simp: newest_request_def split: list.splits)
qed

end
