(* ===== verification/JsonParse.thy ===== *)
theory JsonParse
  imports JsValue
begin

text \<open>
  \<open>JSON.parse\<close>, which the runtime applies to the output of an agent. The text is the
  model's Latin-1 string, so a \<open>\u\<close> escape above 255 is not covered (it parses to
  nothing here). A number literal is read as the exact decimal it spells: that is the
  double JavaScript reads, up to 15 significant digits and between \<open>1e-6\<close> and \<open>1e21\<close>.
  The fuel bounds the nesting of calls; \<open>json_parse\<close> gives more than the length of the
  text can use up.
\<close>

section \<open>Tokens\<close>

definition json_space :: "char \<Rightarrow> bool" where
  "json_space c = (c = CHR '' '' \<or> c = CHR 0x09 \<or> c = CHR 0x0A \<or> c = CHR 0x0D)"

definition skip_ws :: "string \<Rightarrow> string" where
  "skip_ws s = dropWhile json_space s"

definition hex_value :: "char \<Rightarrow> int option" where
  "hex_value c =
    (if is_digit c then Some (cunit c - 48)
     else if CHR ''a'' \<le> c \<and> c \<le> CHR ''f'' then Some (cunit c - 87)
     else if CHR ''A'' \<le> c \<and> c \<le> CHR ''F'' then Some (cunit c - 55)
     else None)"

definition simple_escape :: "char \<Rightarrow> char option" where
  "simple_escape c =
    (if c = CHR 0x22 \<or> c = CHR 0x5C \<or> c = CHR ''/'' then Some c
     else if c = CHR ''b'' then Some (CHR 0x08)
     else if c = CHR ''f'' then Some (CHR 0x0C)
     else if c = CHR ''n'' then Some (CHR 0x0A)
     else if c = CHR ''r'' then Some (CHR 0x0D)
     else if c = CHR ''t'' then Some (CHR 0x09)
     else None)"

definition latin_escape :: "char \<Rightarrow> char \<Rightarrow> char \<Rightarrow> char \<Rightarrow> char option" where
  "latin_escape a b c d = (case (hex_value a, hex_value b, hex_value c, hex_value d) of
      (Some w, Some x, Some y, Some z) \<Rightarrow> if w = 0 \<and> x = 0 then Some (char_of (16 * y + z)) else None
    | _ \<Rightarrow> None)"

definition put :: "char option \<Rightarrow> (string \<times> string) option \<Rightarrow> (string \<times> string) option" where
  "put c rest = (case (c, rest) of (Some x, Some (t, r)) \<Rightarrow> Some (x # t, r) | _ \<Rightarrow> None)"

text \<open>The characters of a string literal after its opening quote, and what follows the closing one.\<close>

fun json_chars :: "string \<Rightarrow> (string \<times> string) option" where
  "json_chars [] = None"
| "json_chars (c # s) =
    (if c = CHR 0x22 then Some ([], s)
     else if c = CHR 0x5C then
       (case s of
          [] \<Rightarrow> None
        | e # r \<Rightarrow>
            if e = CHR ''u'' then
              (case r of x # y # z # w # t \<Rightarrow> put (latin_escape x y z w) (json_chars t) | _ \<Rightarrow> None)
            else put (simple_escape e) (json_chars r))
     else if c < CHR 0x20 then None
     else put (Some c) (json_chars s))"

section \<open>Numbers\<close>

definition digits_value :: "string \<Rightarrow> int" where
  "digits_value ds = foldl (\<lambda>n c. 10 * n + (cunit c - 48)) 0 ds"

text \<open>\<open>m \<times> 10 ^ - k\<close> as a JavaScript number.\<close>

function decimal :: "bool \<Rightarrow> int \<Rightarrow> nat \<Rightarrow> jsnum" where
  "decimal neg m 0 = NInt (if neg then - m else m)"
| "decimal neg m (Suc k) =
    (if m mod 10 = 0 then decimal neg (m div 10) k
     else (let ds = nat_digits (nat m);
               padded = replicate (Suc (Suc k) - length ds) (CHR ''0'') @ ds;
               n = length padded - Suc k
           in NFrac ((if neg then ''-'' else []) @ take n padded @ ''.'' @ drop n padded)))"
  by pat_completeness auto
termination
  by (relation "measure (\<lambda>(_, _, k). k)") auto

definition json_exponent :: "string \<Rightarrow> (int \<times> string) option" where
  "json_exponent s = (case s of
      c # r \<Rightarrow>
        if c = CHR ''e'' \<or> c = CHR ''E'' then
          (let sign = (case r of d # _ \<Rightarrow> d = CHR ''-'' | [] \<Rightarrow> False);
               r' = (case r of d # t \<Rightarrow> if d = CHR ''-'' \<or> d = CHR ''+'' then t else r | [] \<Rightarrow> r);
               ds = takeWhile is_digit r'
           in if ds = [] then None
              else Some (if sign then - digits_value ds else digits_value ds, dropWhile is_digit r'))
        else Some (0, s)
    | [] \<Rightarrow> Some (0, s))"

definition json_fraction :: "string \<Rightarrow> (string \<times> string) option" where
  "json_fraction s = (case s of
      c # r \<Rightarrow> if c = CHR ''.'' then
          (let ds = takeWhile is_digit r in if ds = [] then None else Some (ds, dropWhile is_digit r))
        else Some ([], s)
    | [] \<Rightarrow> Some ([], s))"

definition json_integer :: "string \<Rightarrow> (string \<times> string) option" where
  "json_integer s = (let ds = takeWhile is_digit s
     in if ds = [] then None
        else if hd ds = CHR ''0'' then Some (''0'', tl s)
        else Some (ds, dropWhile is_digit s))"

definition json_number :: "string \<Rightarrow> (jsval \<times> string) option" where
  "json_number s =
    (let neg = (case s of c # _ \<Rightarrow> c = CHR ''-'' | [] \<Rightarrow> False)
     in Option.bind (json_integer (if neg then tl s else s)) (\<lambda>(whole, r1).
        Option.bind (json_fraction r1) (\<lambda>(frac, r2).
        Option.bind (json_exponent r2) (\<lambda>(e, r3).
          Some (JNum (decimal neg (digits_value (whole @ frac) * 10 ^ nat e)
                        (length frac + nat (- e))), r3)))))"

section \<open>Values\<close>

text \<open>An own property keeps the place of its first occurrence and the value of its last; names that
  are array indices come first, in numeric order.\<close>

definition array_index :: "string \<Rightarrow> bool" where
  "array_index k = (k \<noteq> [] \<and> list_all is_digit k \<and> (hd k = CHR ''0'' \<longrightarrow> k = ''0'') \<and> digits_value k < 2 ^ 32 - 1)"

definition own_properties :: "(string \<times> jsval) list \<Rightarrow> (string \<times> jsval) list" where
  "own_properties kvs =
    (let kvs' = foldl (\<lambda>acc kv. AList.update (fst kv) (snd kv) acc) [] kvs
     in sort_key (\<lambda>kv. digits_value (fst kv)) (filter (\<lambda>kv. array_index (fst kv)) kvs') @
        filter (\<lambda>kv. \<not> array_index (fst kv)) kvs')"

fun json_value :: "nat \<Rightarrow> string \<Rightarrow> (jsval \<times> string) option"
and json_elements :: "nat \<Rightarrow> string \<Rightarrow> (jsval list \<times> string) option"
and json_members :: "nat \<Rightarrow> string \<Rightarrow> ((string \<times> jsval) list \<times> string) option" where
  "json_value 0 s = None"
| "json_value (Suc n) s = (case s of
      [] \<Rightarrow> None
    | c # r \<Rightarrow>
        if c = CHR 0x22 then Option.bind (json_chars r) (\<lambda>(t, r1). Some (JStr t, r1))
        else if c = CHR ''['' then
          (if starts_with (skip_ws r) '']'' then Some (JArr [], tl (skip_ws r))
           else Option.bind (json_elements n (skip_ws r)) (\<lambda>(xs, r1). Some (JArr xs, r1)))
        else if c = CHR ''{'' then
          (if starts_with (skip_ws r) ''}'' then Some (JObj [], tl (skip_ws r))
           else Option.bind (json_members n (skip_ws r)) (\<lambda>(kvs, r1). Some (JObj (own_properties kvs), r1)))
        else if starts_with s ''null'' then Some (JNull, drop 4 s)
        else if starts_with s ''true'' then Some (JBool True, drop 4 s)
        else if starts_with s ''false'' then Some (JBool False, drop 5 s)
        else json_number s)"
| "json_elements 0 s = None"
| "json_elements (Suc n) s = Option.bind (json_value n s) (\<lambda>(v, r).
     case skip_ws r of
       [] \<Rightarrow> None
     | c # r1 \<Rightarrow>
         if c = CHR '','' then Option.bind (json_elements n (skip_ws r1)) (\<lambda>(vs, r2). Some (v # vs, r2))
         else if c = CHR '']'' then Some ([v], r1) else None)"
| "json_members 0 s = None"
| "json_members (Suc n) s = (case s of
      [] \<Rightarrow> None
    | q # r \<Rightarrow>
        if q \<noteq> CHR 0x22 then None
        else Option.bind (json_chars r) (\<lambda>(k, r1).
          case skip_ws r1 of
            [] \<Rightarrow> None
          | c # r2 \<Rightarrow>
              if c \<noteq> CHR '':'' then None
              else Option.bind (json_value n (skip_ws r2)) (\<lambda>(v, r3).
                case skip_ws r3 of
                  [] \<Rightarrow> None
                | d # r4 \<Rightarrow>
                    if d = CHR '','' then Option.bind (json_members n (skip_ws r4)) (\<lambda>(kvs, r5). Some ((k, v) # kvs, r5))
                    else if d = CHR ''}'' then Some ([(k, v)], r4) else None)))"

definition json_parse :: "string \<Rightarrow> jsval option" where
  "json_parse s = (case json_value (2 * length s + 2) (skip_ws s) of
      Some (v, r) \<Rightarrow> if skip_ws r = [] then Some v else None
    | None \<Rightarrow> None)"

section \<open>Reading back what \<open>JSON.stringify\<close> writes\<close>

subsection \<open>Strings\<close>

lemma hex_value_digit: "0 \<le> x \<Longrightarrow> x < 16 \<Longrightarrow> hex_value (hex_digit x) = Some x"
proof -
  have "\<forall>x\<in>set [0..15]. hex_value (hex_digit x) = Some x" by code_simp
  then show "0 \<le> x \<Longrightarrow> x < 16 \<Longrightarrow> hex_value (hex_digit x) = Some x" by auto
qed

lemma latin_escape_control:
  "latin_escape (CHR ''0'') (CHR ''0'') (hex_digit (cunit c div 16)) (hex_digit (cunit c mod 16)) = Some c"
proof -
  have "cunit c = int (of_char c :: nat)" by (simp only: cunit_def of_nat_of_char)
  then have k: "0 \<le> cunit c" "cunit c < 256" using nat_of_char_less_256 [of c] by auto
  have "hex_value (CHR ''0'') = Some 0" by (simp add: hex_value_def is_digit_def cunit_def)
  moreover have "16 * (cunit c div 16) + cunit c mod 16 = cunit c" by simp
  moreover have "char_of (cunit c) = c" by (simp add: cunit_def)
  ultimately show ?thesis using k by (simp add: latin_escape_def hex_value_digit)
qed

lemma json_chars_escape: "json_chars (escape_char c @ s) = put (Some c) (json_chars s)"
proof (cases "c < CHR 0x20")
  case True
  then show ?thesis
    by (auto simp: escape_char_def latin_escape_control simple_escape_def less_char_def)
next
  case False
  then show ?thesis by (auto simp: escape_char_def simple_escape_def less_char_def)
qed

lemma json_chars_quoted: "json_chars (concat (map escape_char s) @ CHR 0x22 # r) = Some (s, r)"
  by (induction s) (simp_all add: json_chars_escape put_def)

subsection \<open>Numbers\<close>

definition ends_token :: "string \<Rightarrow> bool" where
  "ends_token r = (case r of [] \<Rightarrow> True | c # _ \<Rightarrow> \<not> is_digit c \<and> c \<noteq> CHR ''.'' \<and> c \<noteq> CHR ''e'' \<and> c \<noteq> CHR ''E'')"

lemma is_digit_char_of: "n < 10 \<Longrightarrow> is_digit (char_of (48 + n :: nat))"
  by (simp add: is_digit_def less_eq_char_def of_char_of)

lemma cunit_char_of: "n < 10 \<Longrightarrow> cunit (char_of (48 + n :: nat)) = 48 + int n"
proof -
  assume "n < 10"
  then have "(of_char (char_of (48 + n)) :: nat) = 48 + n" by (simp add: of_char_of)
  then show ?thesis unfolding cunit_def by (metis of_nat_add of_nat_numeral of_nat_of_char)
qed

lemma nat_digits_digits: "list_all is_digit (nat_digits n)"
proof (induction n rule: nat_digits.induct)
  case (1 n)
  then show ?case by (subst nat_digits.simps) (auto simp: is_digit_char_of)
qed

lemma nat_digits_value: "digits_value (nat_digits n) = int n"
proof (induction n rule: nat_digits.induct)
  case (1 n)
  show ?case
  proof (cases "n < 10")
    case True
    then show ?thesis by (subst nat_digits.simps) (simp add: digits_value_def cunit_char_of)
  next
    case False
    then have "digits_value (nat_digits n) = 10 * int (n div 10) + int (n mod 10)"
      using 1 by (subst nat_digits.simps) (simp add: digits_value_def cunit_char_of)
    also have "\<dots> = int n" by (metis mult_div_mod_eq of_nat_add of_nat_mult of_nat_numeral)
    finally show ?thesis .
  qed
qed

lemma nat_digits_nonempty: "nat_digits n \<noteq> []"
  by (subst nat_digits.simps) simp

lemma char_of_zero: "n < 10 \<Longrightarrow> char_of (48 + n :: nat) = CHR ''0'' \<longleftrightarrow> n = 0"
proof -
  assume "n < 10"
  moreover have "char_of (48 :: nat) = CHR ''0''" "cunit (CHR ''0'') = 48" by code_simp+
  ultimately show ?thesis using cunit_char_of [of n] by auto
qed

lemma nat_digits_leading: "hd (nat_digits n) = CHR ''0'' \<longleftrightarrow> n = 0"
proof (induction n rule: nat_digits.induct)
  case (1 n)
  show ?case
  proof (cases "n < 10")
    case True
    then show ?thesis by (subst nat_digits.simps) (simp add: char_of_zero)
  next
    case False
    then show ?thesis using 1 nat_digits_nonempty [of "n div 10"] by (subst nat_digits.simps) simp
  qed
qed

lemma takeWhile_digits:
  assumes "list_all is_digit ds" and "ends_token r"
  shows "takeWhile is_digit (ds @ r) = ds" and "dropWhile is_digit (ds @ r) = r"
  using assms by (induction ds) (auto simp: ends_token_def split: list.splits)

lemma json_integer_digits:
  assumes "ends_token r"
  shows "json_integer (nat_digits n @ r) = Some (nat_digits n, r)"
proof (cases "n = 0")
  case True
  have "nat_digits 0 = ''0''" by (subst nat_digits.simps) code_simp
  then show ?thesis using True assms takeWhile_digits [OF nat_digits_digits, of r 0] by (simp add: json_integer_def)
next
  case False
  then show ?thesis
    using takeWhile_digits [OF nat_digits_digits assms, of n] nat_digits_nonempty [of n] nat_digits_leading [of n]
    by (simp add: json_integer_def)
qed

lemma json_number_int_text:
  assumes "ends_token r"
  shows "json_number (int_text n @ r) = Some (JNum (NInt n), r)"
proof -
  have tail: "json_fraction r = Some ([], r)" "json_exponent r = Some (0, r)"
    using assms by (auto simp: json_fraction_def json_exponent_def ends_token_def split: list.splits)
  have pos: "\<not> (case nat_digits m @ r of [] \<Rightarrow> False | c # x \<Rightarrow> c = CHR ''-'')" for m
    using nat_digits_digits [of m] nat_digits_nonempty [of m] by (cases "nat_digits m") (auto simp: is_digit_def)
  show ?thesis
  proof (cases "n < 0")
    case True
    then show ?thesis
      using json_integer_digits [OF assms, of "nat (- n)"] tail
      by (simp add: int_text_def json_number_def nat_digits_value)
  next
    case False
    then show ?thesis
      using json_integer_digits [OF assms, of "nat n"] tail pos [of "nat n"]
      by (simp add: int_text_def json_number_def nat_digits_value)
  qed
qed

subsection \<open>Values\<close>

text \<open>Values that survive: numbers are integers, and an object lists its own properties in the
  order in which a fresh object would.\<close>

fun json_ok :: "jsval \<Rightarrow> bool" where
  "json_ok JUndef = False"
| "json_ok JFun = False"
| "json_ok JNull = True"
| "json_ok (JBool b) = True"
| "json_ok (JNum n) = (case n of NInt _ \<Rightarrow> True | _ \<Rightarrow> False)"
| "json_ok (JStr s) = True"
| "json_ok (JArr xs) = list_all json_ok xs"
| "json_ok (JObj kvs) = (own_properties kvs = kvs \<and> list_all (\<lambda>kv. json_ok (snd kv)) kvs)"

abbreviation json_text :: "jsval \<Rightarrow> string" where
  "json_text v \<equiv> the (stringify v)"

lemma json_ok_stringify: "json_ok v \<Longrightarrow> \<exists>t. stringify v = Some t"
  by (cases v) auto

definition member_text :: "string \<times> jsval \<Rightarrow> string" where
  "member_text kv = quote_string (fst kv) @ '':'' @ json_text (snd kv)"

lemma member_text_pair: "member_text (k, v) = CHR 0x22 # concat (map escape_char k) @ CHR 0x22 # CHR '':'' # json_text v"
  by (simp add: member_text_def quote_string_def)

lemma json_text_JArr:
  assumes "list_all json_ok xs"
  shows "json_text (JArr xs) = ''['' @ join_with '','' (map json_text xs) @ '']''"
proof -
  have "map (\<lambda>x. case stringify x of None \<Rightarrow> ''null'' | Some t \<Rightarrow> t) xs = map json_text xs"
    using assms json_ok_stringify by (fastforce simp: list_all_iff)
  then show ?thesis by (simp only: stringify.simps option.sel)
qed

lemma concat_singletons: "(\<And>x. x \<in> set xs \<Longrightarrow> f x = [g x]) \<Longrightarrow> concat (map f xs) = map g xs"
  by (induction xs) auto

lemma json_text_JObj:
  assumes "list_all (\<lambda>kv. json_ok (snd kv)) kvs"
  shows "json_text (JObj kvs) = ''{'' @ join_with '','' (map member_text kvs) @ ''}''"
proof -
  have "concat (map (\<lambda>kv. case stringify (snd kv) of None \<Rightarrow> [] | Some t \<Rightarrow> [quote_string (fst kv) @ '':'' @ t]) kvs) = map member_text kvs"
    using assms json_ok_stringify by (intro concat_singletons) (fastforce simp: list_all_iff member_text_def)
  then show ?thesis by simp
qed

text \<open>The first character of a text decides its branch, and is not white space.\<close>

lemma json_text_first:
  assumes "json_ok v"
  shows "\<exists>c t. json_text v = c # t \<and> \<not> json_space c \<and> c \<noteq> CHR '']'' \<and> c \<noteq> CHR ''}''"
proof (cases v)
  case (JNum n)
  then obtain m where "n = NInt m" using assms by (cases n) auto
  then show ?thesis
    using JNum nat_digits_digits [of "nat m"] nat_digits_digits [of "nat (- m)"] nat_digits_nonempty [of "nat m"]
    by (cases "nat_digits (nat m)") (auto simp: int_text_def json_space_def is_digit_def)
qed (use assms in \<open>auto simp: quote_string_def json_space_def\<close>)

lemma skip_ws_text: "json_ok v \<Longrightarrow> skip_ws (json_text v @ r) = json_text v @ r"
  using json_text_first [of v] by (auto simp: skip_ws_def)

lemma skip_ws_char: "\<not> json_space c \<Longrightarrow> skip_ws (c # r) = c # r"
  by (simp add: skip_ws_def)

lemma not_space: "\<not> json_space (CHR '','')" "\<not> json_space (CHR '']'')" "\<not> json_space (CHR ''}'')" "\<not> json_space (CHR '':'')"
    "\<not> json_space (CHR 0x22)"
  by (simp_all add: json_space_def)

lemma ends_token_char: "ends_token (CHR '','' # r)" "ends_token (CHR '']'' # r)" "ends_token (CHR ''}'' # r)"
  by (simp_all add: ends_token_def is_digit_def)

definition reads :: "jsval \<Rightarrow> bool" where
  "reads v = (\<forall>n r. 2 * length (json_text v) \<le> n \<longrightarrow> ends_token r \<longrightarrow> json_value n (json_text v @ r) = Some (v, r))"

lemma readsD: "reads v \<Longrightarrow> 2 * length (json_text v) \<le> n \<Longrightarrow> ends_token r \<Longrightarrow> json_value n (json_text v @ r) = Some (v, r)"
  by (simp add: reads_def)

lemma readsI:
  assumes "\<And>n r. ends_token r \<Longrightarrow> json_value (Suc n) (json_text v @ r) = Some (v, r)" and "json_text v \<noteq> []"
  shows "reads v"
  unfolding reads_def
proof (intro allI impI)
  fix n r
  assume "2 * length (json_text v) \<le> n" and "ends_token r"
  then show "json_value n (json_text v @ r) = Some (v, r)" using assms by (cases n) simp_all
qed

lemma join_with_Cons: "xs \<noteq> [] \<Longrightarrow> join_with sep (x # xs) = x @ sep @ join_with sep xs"
  by (cases xs) auto

lemma json_elements_text:
  assumes "list_all (\<lambda>v. json_ok v \<and> reads v) vs" and "vs \<noteq> []"
    and "2 * length (join_with '','' (map json_text vs)) + 1 \<le> n"
  shows "json_elements n (join_with '','' (map json_text vs) @ '']'' @ r) = Some (vs, r)"
  using assms
proof (induction vs arbitrary: n)
  case (Cons v vs)
  then obtain m where n: "n = Suc m" by (cases n) auto
  show ?case
  proof (cases "vs = []")
    case True
    then show ?thesis using Cons.prems n by (simp add: readsD ends_token_char skip_ws_char not_space)
  next
    case False
    then have j: "join_with '','' (map json_text (v # vs)) = json_text v @ '','' @ join_with '','' (map json_text vs)"
      by (simp add: join_with_Cons)
    have v: "json_value m (json_text v @ '','' @ join_with '','' (map json_text vs) @ '']'' @ r) =
        Some (v, '','' @ join_with '','' (map json_text vs) @ '']'' @ r)"
      using Cons.prems n unfolding j by (intro readsD) (auto simp: ends_token_char)
    have rest: "json_elements m (join_with '','' (map json_text vs) @ '']'' @ r) = Some (vs, r)"
      using Cons.prems n False unfolding j by (intro Cons.IH) auto
    obtain u us where vs: "vs = u # us" using False by (cases vs) auto
    have ws: "skip_ws (join_with '','' (map json_text vs) @ '']'' @ r) = join_with '','' (map json_text vs) @ '']'' @ r"
      using Cons.prems(1) json_text_first [of u] unfolding vs
      by (cases us) (auto simp: skip_ws_def)
    show ?thesis unfolding j using v rest ws n by (simp add: skip_ws_char not_space)
  qed
qed simp

lemma json_members_text:
  assumes "list_all (\<lambda>kv. json_ok (snd kv) \<and> reads (snd kv)) kvs" and "kvs \<noteq> []"
    and "2 * length (join_with '','' (map member_text kvs)) + 1 \<le> n"
  shows "json_members n (join_with '','' (map member_text kvs) @ ''}'' @ r) = Some (kvs, r)"
  using assms
proof (induction kvs arbitrary: n)
  case (Cons kv kvs)
  then obtain m where n: "n = Suc m" by (cases n) auto
  obtain k v where kv: "kv = (k, v)" by (cases kv)
  have len: "length (json_text v) + 1 \<le> length (join_with '','' (map member_text (kv # kvs)))"
    unfolding kv by (cases kvs) (simp_all add: member_text_pair)
  have v: "json_value m (json_text v @ s) = Some (v, s)" "skip_ws (json_text v @ s) = json_text v @ s" if "ends_token s" for s
    using that len Cons.prems(1,3) n kv by (auto intro: readsD skip_ws_text)
  show ?case
  proof (cases "kvs = []")
    case True
    then show ?thesis
      using v [of "''}'' @ r"] n kv
      by (simp add: member_text_pair json_chars_quoted ends_token_char skip_ws_char not_space)
  next
    case False
    then have j: "join_with '','' (map member_text (kv # kvs)) = member_text kv @ '','' @ join_with '','' (map member_text kvs)"
      by (simp add: join_with_Cons)
    have rest: "json_members m (join_with '','' (map member_text kvs) @ ''}'' @ r) = Some (kvs, r)"
      using Cons.prems n False unfolding j by (intro Cons.IH) auto
    obtain u us where "kvs = u # us" using False by (cases kvs) auto
    then have ws: "skip_ws (join_with '','' (map member_text kvs) @ ''}'' @ r) = join_with '','' (map member_text kvs) @ ''}'' @ r"
      by (cases u; cases us) (auto simp: skip_ws_def member_text_pair json_space_def)
    show ?thesis
      using v [of "'','' @ join_with '','' (map member_text kvs) @ ''}'' @ r"] rest ws n unfolding j unfolding kv
      by (simp add: member_text_pair json_chars_quoted ends_token_char skip_ws_char not_space)
  qed
qed simp

lemma json_value_text: "json_ok v \<Longrightarrow> reads v"
proof (induction v)
  case (JNum x)
  then obtain m where x: "x = NInt m" by (cases x) auto
  obtain c t where c: "int_text m = c # t" "is_digit c \<or> c = CHR ''-''"
    using nat_digits_digits [of "nat m"] nat_digits_nonempty [of "nat m"]
    by (cases "m < 0"; cases "nat_digits (nat m)") (auto simp: int_text_def)
  then have "c \<noteq> CHR 0x22" "c \<noteq> CHR ''[''" "c \<noteq> CHR ''{''" "c \<noteq> CHR ''n''" "c \<noteq> CHR ''t''" "c \<noteq> CHR ''f''"
    by (auto simp: is_digit_def)
  then have branch: "json_value (Suc n) (int_text m @ r) = json_number (int_text m @ r)" for n r
    unfolding c(1) by (simp add: starts_with_def)
  have num: "json_text (JNum (NInt m)) = int_text m" by simp
  show ?case
  proof (rule readsI)
    show "json_value (Suc n) (json_text (JNum x) @ r) = Some (JNum x, r)" if "ends_token r" for n r
      by (simp only: num branch json_number_int_text [OF that] x)
  qed (simp add: x c(1))
next
  case (JArr xs)
  then have ok: "list_all (\<lambda>v. json_ok v \<and> reads v) xs" "list_all json_ok xs" by (auto simp: list_all_iff)
  show ?case unfolding reads_def json_text_JArr [OF ok(2)]
  proof (intro allI impI)
    fix n r
    assume n: "2 * length (''['' @ join_with '','' (map json_text xs) @ '']'') \<le> n" and r: "ends_token r"
    then obtain m where m: "n = Suc m" by (cases n) auto
    show "json_value n ((''['' @ join_with '','' (map json_text xs) @ '']'') @ r) = Some (JArr xs, r)"
    proof (cases xs)
      case Nil
      then show ?thesis by (simp add: m skip_ws_char not_space starts_with_def)
    next
      case (Cons y ys)
      have "\<exists>c t. join_with '','' (map json_text xs) = c # t \<and> \<not> json_space c \<and> c \<noteq> CHR '']''"
        using json_text_first [of y] ok(2) Cons by (cases ys) auto
      then have "skip_ws (join_with '','' (map json_text xs) @ '']'' @ r) = join_with '','' (map json_text xs) @ '']'' @ r"
        "\<not> starts_with (join_with '','' (map json_text xs) @ '']'' @ r) '']''"
        by (auto simp: skip_ws_def starts_with_def)
      then show ?thesis using json_elements_text [OF ok(1), of m r] n m Cons by simp
    qed
  qed
next
  case (JObj kvs)
  then have ok: "list_all (\<lambda>kv. json_ok (snd kv) \<and> reads (snd kv)) kvs" "list_all (\<lambda>kv. json_ok (snd kv)) kvs"
    by (fastforce simp: list_all_iff)+
  show ?case unfolding reads_def json_text_JObj [OF ok(2)]
  proof (intro allI impI)
    fix n r
    assume n: "2 * length (''{'' @ join_with '','' (map member_text kvs) @ ''}'') \<le> n" and r: "ends_token r"
    then obtain m where m: "n = Suc m" by (cases n) auto
    show "json_value n ((''{'' @ join_with '','' (map member_text kvs) @ ''}'') @ r) = Some (JObj kvs, r)"
    proof (cases kvs)
      case Nil
      then show ?thesis by (simp add: m skip_ws_char not_space starts_with_def)
    next
      case (Cons y ys)
      have "\<exists>t. join_with '','' (map member_text kvs) = CHR 0x22 # t"
        unfolding Cons by (cases ys) (auto simp: member_text_def quote_string_def)
      then have "skip_ws (join_with '','' (map member_text kvs) @ ''}'' @ r) = join_with '','' (map member_text kvs) @ ''}'' @ r"
        "\<not> starts_with (join_with '','' (map member_text kvs) @ ''}'' @ r) ''}''"
        by (auto simp: skip_ws_def starts_with_def json_space_def)
      then show ?thesis using json_members_text [OF ok(1), of m r] n m Cons JObj.prems by simp
    qed
  qed
next
  case (JStr t)
  show ?case by (rule readsI) (simp_all add: quote_string_def json_chars_quoted)
next
  case (JBool b)
  show ?case by (rule readsI) (simp_all add: starts_with_def)
next
  case JNull
  show ?case by (rule readsI) (simp_all add: starts_with_def)
qed simp_all

lemma json_parse_stringify:
  assumes "json_ok v"
  shows "json_parse (json_text v) = Some v"
  using readsD [OF json_value_text [OF assms], of "2 * length (json_text v) + 2" "[]"] skip_ws_text [OF assms, of "[]"]
  by (simp add: json_parse_def ends_token_def skip_ws_def)

end
