(* ===== verification/Templates.thy ===== *)
theory Templates
  imports Contract
begin

text \<open>
  The \<open>{{ ... }}\<close> reference parser shared by the validator and the prompt renderer
  (\<open>parseTemplateReferences\<close> of \<open>src/workflow/validator.ts\<close>).
\<close>

datatype template_ref =
    RefInput string string
  | RefStep string string string
  | RefWorkflow string
  | RefContext string string string
  | RefPause string

fun ref_raw :: "template_ref \<Rightarrow> string" where
  "ref_raw (RefInput n raw) = raw"
| "ref_raw (RefStep s f raw) = raw"
| "ref_raw (RefWorkflow raw) = raw"
| "ref_raw (RefContext g f raw) = raw"
| "ref_raw (RefPause raw) = raw"

section \<open>Scanning\<close>

text \<open>\<open>(text.match(/\{\{/g) ?? []).length\<close>: pairs counted left to right without overlap.\<close>

fun count_pairs :: "char \<Rightarrow> string \<Rightarrow> nat" where
  "count_pairs c (x # y # s) = (if x = c \<and> y = c then Suc (count_pairs c s) else count_pairs c (y # s))"
| "count_pairs c _ = 0"

text \<open>The shortest text before the first closing pair, and what follows the pair.\<close>

fun split_close :: "string \<Rightarrow> (string \<times> string) option" where
  "split_close (x # y # s) =
    (if x = CHR ''}'' \<and> y = CHR ''}'' then Some ([], s)
     else map_option (\<lambda>(a, r). (x # a, r)) (split_close (y # s)))"
| "split_close _ = None"

lemma split_close_append: "split_close s = Some (a, r) \<Longrightarrow> s = a @ ''}}'' @ r"
  by (induction s arbitrary: a r rule: split_close.induct) (auto split: if_splits)

lemma split_close_length: "split_close s = Some (a, r) \<Longrightarrow> length r < length s"
  using split_close_append [of s a r] by simp

text \<open>The captured group of every match of \<open>/\{\{([\s\S]*?)\}\}/g\<close>. When no closing pair follows
  an opening one, none follows a later one either.\<close>

function scan_refs :: "string \<Rightarrow> string list" where
  "scan_refs (x # y # s) =
    (if x = CHR ''{'' \<and> y = CHR ''{''
     then (case split_close s of None \<Rightarrow> [] | Some (inner, r) \<Rightarrow> inner # scan_refs r)
     else scan_refs (y # s))"
| "scan_refs [] = []"
| "scan_refs [x] = []"
  by pat_completeness auto
termination
  by (relation "measure length") (auto dest: split_close_length)

section \<open>References\<close>

text \<open>\<open>/^steps\.([a-z0-9][a-z0-9_-]*)\.output\.([A-Za-z_][A-Za-z0-9_]*)$/\<close>\<close>

definition step_id_text :: "string \<Rightarrow> bool" where
  "step_id_text s = (case s of [] \<Rightarrow> False
    | c # cs \<Rightarrow> (is_lower c \<or> is_digit c) \<and>
        list_all (\<lambda>d. is_lower d \<or> is_digit d \<or> d = CHR ''_'' \<or> d = CHR ''-'') cs)"

definition match_step_ref :: "string \<Rightarrow> (string \<times> string) option" where
  "match_step_ref t =
    (let rest = drop 6 t; sid = takeWhile (\<lambda>c. c \<noteq> CHR ''.'') rest;
         tail = dropWhile (\<lambda>c. c \<noteq> CHR ''.'') rest
     in if starts_with t ''steps.'' \<and> step_id_text sid \<and> starts_with tail ''.output.'' \<and> is_ident (drop 8 tail)
        then Some (sid, drop 8 tail) else None)"

text \<open>\<open>/^context\.(latest_planner_decision|latest_executor_handoff)\.([A-Za-z_][A-Za-z0-9_]*)$/\<close>\<close>

definition match_context_ref :: "string \<Rightarrow> (string \<times> string) option" where
  "match_context_ref t =
    (let rest = drop 8 t; g = takeWhile (\<lambda>c. c \<noteq> CHR ''.'') rest;
         tail = dropWhile (\<lambda>c. c \<noteq> CHR ''.'') rest
     in if starts_with t ''context.'' \<and> g \<in> set CONTEXT_GROUPS \<and> starts_with tail ''.'' \<and> is_ident (drop 1 tail)
        then Some (g, drop 1 tail) else None)"

definition KNOWN_TEMPLATE_NAMESPACES :: "string list" where
  "KNOWN_TEMPLATE_NAMESPACES = [''inputs'', ''steps'', ''workflow'', ''context'', ''pause'']"

definition raw_ref :: "string \<Rightarrow> string" where
  "raw_ref inner = ''{{'' @ inner @ ''}}''"

text \<open>One match: the reference, or the code that is pushed to \<open>errors\<close>.\<close>

definition classify_ref :: "string \<Rightarrow> string + template_ref" where
  "classify_ref captured =
    (let inner = trim captured; raw = raw_ref captured
     in if inner = [] then Inl ''template_malformed''
        else if starts_with inner ''inputs.'' \<and> is_ident (drop 7 inner) then Inr (RefInput (drop 7 inner) raw)
        else (case match_step_ref inner of Some (s, f) \<Rightarrow> Inr (RefStep s f raw)
        | None \<Rightarrow>
          if inner = ''workflow.round'' then Inr (RefWorkflow raw)
          else (case match_context_ref inner of Some (g, f) \<Rightarrow> Inr (RefContext g f raw)
          | None \<Rightarrow>
            if inner = ''pause.response'' then Inr (RefPause raw)
            else if takeWhile (\<lambda>c. c \<noteq> CHR ''.'') inner \<in> set KNOWN_TEMPLATE_NAMESPACES
            then Inl ''template_bad_reference'' else Inl ''template_unsupported_namespace'')))"

record template_parse =
  parse_refs :: "template_ref list"
  parse_errors :: "string list"

definition sum_lefts :: "('a + 'b) list \<Rightarrow> 'a list" where
  "sum_lefts xs = concat (map (\<lambda>x. case x of Inl a \<Rightarrow> [a] | Inr _ \<Rightarrow> []) xs)"

definition sum_rights :: "('a + 'b) list \<Rightarrow> 'b list" where
  "sum_rights xs = concat (map (\<lambda>x. case x of Inl _ \<Rightarrow> [] | Inr b \<Rightarrow> [b]) xs)"

definition parseTemplateReferences :: "string \<Rightarrow> template_parse" where
  "parseTemplateReferences t =
    (let found = map classify_ref (scan_refs t)
     in \<lparr>parse_refs = sum_rights found,
         parse_errors =
           (if count_pairs (CHR ''{'') t \<noteq> count_pairs (CHR ''}'') t then [''template_malformed''] else [])
           @ sum_lefts found\<rparr>)"

section \<open>Facts\<close>

lemma sum_sides_simps [simp]:
  "sum_lefts [] = []" "sum_lefts (Inl a # xs) = a # sum_lefts xs" "sum_lefts (Inr b # xs) = sum_lefts xs"
  "sum_rights [] = []" "sum_rights (Inl a # xs) = sum_rights xs" "sum_rights (Inr b # xs) = b # sum_rights xs"
  by (simp_all add: sum_lefts_def sum_rights_def)

lemma sum_rights_append [simp]: "sum_rights (xs @ ys) = sum_rights xs @ sum_rights ys"
  by (simp add: sum_rights_def)

lemma sum_lefts_append [simp]: "sum_lefts (xs @ ys) = sum_lefts xs @ sum_lefts ys"
  by (simp add: sum_lefts_def)

lemma in_sum_rights: "b \<in> set (sum_rights xs) \<longleftrightarrow> Inr b \<in> set xs"
  by (force simp: sum_rights_def split: sum.splits)

text \<open>Text without braces.\<close>

definition plain :: "string \<Rightarrow> bool" where
  "plain s = (CHR ''{'' \<notin> set s \<and> CHR ''}'' \<notin> set s)"

lemma plain_simps [simp]:
  "plain []" "plain (c # s) \<longleftrightarrow> c \<noteq> CHR ''{'' \<and> c \<noteq> CHR ''}'' \<and> plain s"
  "plain (s @ t) \<longleftrightarrow> plain s \<and> plain t"
  by (auto simp: plain_def)

lemma count_pairs_skip [simp]: "x \<noteq> c \<Longrightarrow> count_pairs c (x # s) = count_pairs c s"
  by (cases s) auto

lemma count_pairs_plain [simp]: "plain s \<Longrightarrow> c = CHR ''{'' \<or> c = CHR ''}'' \<Longrightarrow> count_pairs c (s @ t) = count_pairs c t"
  by (induction s) auto

lemma count_pairs_ref:
  assumes "plain inner"
  shows "count_pairs (CHR ''{'') (raw_ref inner @ t) = Suc (count_pairs (CHR ''{'') t)"
    and "count_pairs (CHR ''}'') (raw_ref inner @ t) = Suc (count_pairs (CHR ''}'') t)"
  using assms by (simp_all add: raw_ref_def)

lemma scan_refs_plain [simp]: "plain s \<Longrightarrow> scan_refs (s @ t) = scan_refs t"
proof (induction s)
  case (Cons x s)
  then show ?case by (cases "s @ t") auto
qed simp

lemma split_close_plain: "plain inner \<Longrightarrow> split_close (inner @ ''}}'' @ t) = Some (inner, t)"
proof (induction inner)
  case (Cons x s)
  then show ?case by (cases "s @ ''}}'' @ t") auto
qed simp

lemma scan_refs_ref: "plain inner \<Longrightarrow> scan_refs (raw_ref inner @ t) = inner # scan_refs t"
  using split_close_plain [of inner t] by (simp add: raw_ref_def)

lemma scan_refs_sub: "inner \<in> set (scan_refs t) \<Longrightarrow> \<exists>a b. t = a @ raw_ref inner @ b"
proof (induction t rule: scan_refs.induct)
  case (1 x y s)
  show ?case
  proof (cases "x = CHR ''{'' \<and> y = CHR ''{''")
    case True
    with "1.prems" obtain c r where sc: "split_close s = Some (c, r)" and "inner = c \<or> inner \<in> set (scan_refs r)"
      by (auto split: option.splits dest: sym)
    then consider "inner = c" | "\<exists>a b. r = a @ raw_ref inner @ b" using "1.IH"(1) [OF True sc] by auto
    then show ?thesis
    proof cases
      case 1
      have "x # y # s = [] @ raw_ref inner @ r"
        using True 1 split_close_append [OF sc] by (simp add: raw_ref_def)
      then show ?thesis by blast
    next
      case 2
      then obtain a b where "r = a @ raw_ref inner @ b" by blast
      then have "x # y # s = (x # y # c @ ''}}'' @ a) @ raw_ref inner @ b"
        using split_close_append [OF sc] by simp
      then show ?thesis by blast
    qed
  next
    case False
    with "1.prems" have "inner \<in> set (scan_refs (y # s))" by auto
    from "1.IH"(2) [OF False this] obtain a b where "y # s = a @ raw_ref inner @ b" by blast
    then have "x # y # s = (x # a) @ raw_ref inner @ b" by simp
    then show ?thesis by blast
  qed
qed auto

lemma classify_ref_raw: "classify_ref captured = Inr ref \<Longrightarrow> ref_raw ref = raw_ref captured"
  by (auto simp: classify_ref_def Let_def split: if_splits option.splits)

lemma parse_refs_raw:
  assumes "ref \<in> set (parse_refs (parseTemplateReferences t))"
  shows "\<exists>a b captured. t = a @ ref_raw ref @ b \<and> ref_raw ref = raw_ref captured"
  using assms scan_refs_sub
  by (fastforce simp: parseTemplateReferences_def Let_def in_sum_rights dest: classify_ref_raw [OF sym])

lemma parse_context_group:
  "RefContext g f raw \<in> set (parse_refs (parseTemplateReferences t)) \<Longrightarrow> g \<in> set CONTEXT_GROUPS"
  by (auto simp: parseTemplateReferences_def Let_def in_sum_rights classify_ref_def
      match_context_ref_def split: if_splits option.splits)

end
