(* ===== verification/SpecChecks.thy ===== *)
theory SpecChecks
  imports Contract TaskVerification
begin

text \<open>
  The parts of \<open>src/workflow/validator.ts\<close> that check one section of a spec each: policies,
  agents, inputs, output schemas, steps and limits. An issue keeps the stable code and the
  path of the source's \<open>ValidationIssue\<close> (its severity is always \<open>error\<close>); the human
  readable message is not modelled. A checker returns the issues in the order they are
  pushed, beside the tables it builds.
\<close>

record issue =
  issue_code :: string
  issue_path :: string

definition err :: "string \<Rightarrow> string \<Rightarrow> issue" where
  "err c p = \<lparr>issue_code = c, issue_path = p\<rparr>"

definition err_if :: "bool \<Rightarrow> string \<Rightarrow> string \<Rightarrow> issue list" where
  "err_if bad c p = (if bad then [err c p] else [])"

lemma err_if_Nil_iff [simp, issue_simps]: "err_if bad c p = [] \<longleftrightarrow> \<not> bad"
  by (simp add: err_if_def)

text \<open>\<open>for (const k of Object.keys(o)) if (!allowed.includes(k)) err(code, ..., `${p}/${k}`)\<close>\<close>

definition unknown_fields :: "string list \<Rightarrow> string \<Rightarrow> string \<Rightarrow> jsval \<Rightarrow> issue list" where
  "unknown_fields allowed c p v =
    concat (map (\<lambda>k. err_if (k \<notin> set allowed) c (p @ ''/'' @ k)) (obj_keys v))"

lemma unknown_fields_Nil_iff [simp, issue_simps]:
  "unknown_fields allowed c p v = [] \<longleftrightarrow> set (obj_keys v) \<subseteq> set allowed"
  by (auto simp: unknown_fields_def)

section \<open>Secret-looking names\<close>

definition SECRET_TOKENS :: "string list" where
  "SECRET_TOKENS = [''token'', ''secret'', ''password'', ''passwd'', ''apikey'', ''bearer'', ''credential'',
     ''privatekey'', ''encryptionkey'', ''accesskey'', ''signingkey'']"

definition normalized_name :: "string \<Rightarrow> string" where
  "normalized_name key = filter (\<lambda>c. is_lower c \<or> is_digit c) (to_lower key)"

definition isSecretKey :: "string \<Rightarrow> bool" where
  "isSecretKey key = list_ex (\<lambda>t. str_includes (normalized_name key) t) SECRET_TOKENS"

lemma size_enumerate: "(i, v) \<in> set (enumerate n xs) \<Longrightarrow> size v < Suc (size_list size xs)"
  by (auto simp: in_set_enumerate_eq intro!: le_imp_less_Suc size_list_estimation' dest: nth_mem)

lemma size_pair_entry:
  "(k, v) \<in> set kvs \<Longrightarrow> size v < Suc (size_list (size_prod (\<lambda>_. 0) size) (kvs :: (string \<times> jsval) list))"
  by (induction kvs) auto

function (sequential) scanSecretFields :: "jsval \<Rightarrow> string \<Rightarrow> issue list" where
  "scanSecretFields (JArr xs) p =
    concat (map (\<lambda>(i, v). scanSecretFields v (p @ ''/'' @ nat_digits i)) (enumerate 0 xs))"
| "scanSecretFields (JObj kvs) p =
    concat (map (\<lambda>(k, v). err_if (isSecretKey k) ''secret_field_forbidden'' (p @ ''/'' @ k) @
                          scanSecretFields v (p @ ''/'' @ k)) kvs)"
| "scanSecretFields _ p = []"
  by pat_completeness auto
termination
  by (relation "measure (\<lambda>(v, _). size v)") (auto simp: size_enumerate size_list_estimation' dest: size_pair_entry)

section \<open>Policies\<close>

definition validateCompletionPolicy :: "jsval \<Rightarrow> issue list" where
  "validateCompletionPolicy cp =
    (let p = ''/completion_policy''; re = fld cp ''required_evidence''
     in if \<not> isObj cp then [err ''bad_completion_policy'' p]
        else
          (if re \<noteq> JUndef then
             (if \<not> isArr re \<or> length (arr_of re) > length EVIDENCE_TYPES
              then [err ''bad_required_evidence'' (p @ ''/required_evidence'')]
              else concat (map (\<lambda>e. err_if (\<not> js_includes (map JStr EVIDENCE_TYPES) e)
                     ''bad_evidence_type'' (p @ ''/required_evidence'')) (arr_of re)))
           else []) @
          concat (map (\<lambda>k. err_if (fld cp k \<noteq> JUndef \<and> \<not> isBool (fld cp k))
              ''bad_completion_flag'' (p @ ''/'' @ k))
            [''require_repository_change'', ''require_no_remaining_work'', ''require_tests_passed'']) @
          unknown_fields [''required_evidence'', ''require_repository_change'',
              ''require_no_remaining_work'', ''require_tests_passed'']
            ''completion_policy_unknown_field'' p cp)"

definition MAX_STALLED_ROUNDS :: int where "MAX_STALLED_ROUNDS = 100"

definition validateStallPolicy :: "jsval \<Rightarrow> bool \<Rightarrow> issue list" where
  "validateStallPolicy sp hasLoopEdge =
    (let p = ''/stall_policy''; m = fld sp ''max_stalled_rounds''; sg = fld sp ''signals''
     in if \<not> isObj sp then [err ''bad_stall_policy'' p]
        else
          err_if (\<not> hasLoopEdge) ''stall_policy_without_loop'' p @
          err_if (\<not> isPosInt m \<or> int_of m > MAX_STALLED_ROUNDS) ''bad_max_stalled_rounds'' (p @ ''/max_stalled_rounds'') @
          (if \<not> isArr sg \<or> arr_of sg = [] \<or> length (arr_of sg) > length STALL_SIGNALS
           then [err ''bad_stall_signals'' (p @ ''/signals'')]
           else concat (map (\<lambda>s. err_if (\<not> js_includes (map JStr STALL_SIGNALS) s)
                  ''bad_stall_signal'' (p @ ''/signals'')) (arr_of sg))) @
          unknown_fields [''max_stalled_rounds'', ''signals''] ''stall_policy_unknown_field'' p sp)"

section \<open>Agents and inputs\<close>

definition validateAgents :: "jsval \<Rightarrow> string list \<times> issue list" where
  "validateAgents agents =
    (if \<not> isObj agents \<or> obj_keys agents = [] then ([], [err ''agents_missing'' ''/agents''])
     else (set_of_list (obj_keys agents),
       concat (map (\<lambda>(role, def). let p = ''/agents/'' @ role in
         err_if (\<not> SAFE_ID role) ''bad_role_name'' p @
         (if \<not> isObj def then [err ''bad_role'' p]
          else
            err_if (\<not> isStr (fld def ''agent'') \<or> trim (str_of (fld def ''agent'')) = [])
              ''bad_role_agent'' (p @ ''/agent'') @
            err_if (fld def ''node_id'' \<noteq> JUndef \<and>
                (\<not> isStr (fld def ''node_id'') \<or> \<not> NODE_ID (str_of (fld def ''node_id''))))
              ''bad_role_node_id'' (p @ ''/node_id'') @
            err_if (fld def ''description'' \<noteq> JUndef \<and> \<not> isStr (fld def ''description''))
              ''bad_field_type'' (p @ ''/description'') @
            unknown_fields [''agent'', ''node_id'', ''description''] ''role_unknown_field'' p def))
        (entries agents))))"

definition matchesInputType :: "jsval \<Rightarrow> string \<Rightarrow> bool" where
  "matchesInputType v t =
    (if t = ''string'' then isStr v
     else if t = ''number'' then isFiniteNum v
     else if t = ''boolean'' then isBool v
     else if t = ''string[]'' then isArr v \<and> list_all isStr (arr_of v)
     else False)"

definition valid_input_type :: "jsval \<Rightarrow> bool" where
  "valid_input_type t = (isStr t \<and> str_of t \<in> set input_types)"

definition validateInputs :: "jsval \<Rightarrow> (string \<times> string) list \<times> issue list" where
  "validateInputs inputs =
    (if inputs = JUndef then ([], [])
     else if \<not> isObj inputs then ([], [err ''inputs_bad'' ''/inputs''])
     else (concat (map (\<lambda>(name, def).
             if isObj def \<and> valid_input_type (fld def ''type'') then [(name, str_of (fld def ''type''))] else [])
             (entries inputs)),
       concat (map (\<lambda>(name, def). let p = ''/inputs/'' @ name; t = fld def ''type'' in
         err_if (\<not> SAFE_ID name) ''bad_input_name'' p @
         (if \<not> isObj def then [err ''bad_input'' p]
          else
            (if \<not> valid_input_type t then [err ''bad_input_type'' (p @ ''/type'')]
             else err_if (fld def ''default'' \<noteq> JUndef \<and> \<not> matchesInputType (fld def ''default'') (str_of t))
               ''bad_input_default'' (p @ ''/default'')) @
            err_if (fld def ''required'' \<noteq> JUndef \<and> \<not> isBool (fld def ''required''))
              ''bad_field_type'' (p @ ''/required'') @
            err_if (fld def ''description'' \<noteq> JUndef \<and> \<not> isStr (fld def ''description''))
              ''bad_field_type'' (p @ ''/description'') @
            unknown_fields [''type'', ''required'', ''description'', ''default''] ''input_unknown_field'' p def))
        (entries inputs))))"

section \<open>Output schemas\<close>

record field_def =
  fd_type :: string
  fd_enum :: "jsval list option"
  fd_required :: bool

definition validateEnumValues :: "jsval \<Rightarrow> string \<Rightarrow> issue list" where
  "validateEnumValues en p =
    (if \<not> isArr en \<or> arr_of en = [] then [err ''bad_enum'' p]
     else
       err_if (length (arr_of en) > MAX_ENUM_VALUES) ''enum_too_many'' p @
       snd (foldl (\<lambda>(seen, iss) v.
           if \<not> isStr v \<or> str_of v = [] then (seen, iss @ [err ''enum_value_invalid'' p])
           else (set_add v seen,
             iss @ err_if (length (str_of v) > MAX_ENUM_VALUE_LENGTH) ''enum_value_invalid'' p
                 @ err_if (v \<in> set seen) ''enum_duplicate_values'' p))
         ([], []) (arr_of en)))"

definition valid_field_type :: "jsval \<Rightarrow> bool" where
  "valid_field_type t = (isStr t \<and> str_of t \<in> set schema_field_types)"

definition schema_field_def :: "jsval \<Rightarrow> field_def" where
  "schema_field_def fdef = \<lparr>fd_type = str_of (fld fdef ''type''),
     fd_enum = (if isArr (fld fdef ''enum'') then Some (arr_of (fld fdef ''enum'')) else None),
     fd_required = (fld fdef ''required'' = JBool True)\<rparr>"

definition field_issues :: "string \<Rightarrow> jsval \<Rightarrow> issue list" where
  "field_issues fp fdef =
    (if \<not> isObj fdef then [err ''bad_schema_field'' fp]
     else
       err_if (\<not> valid_field_type (fld fdef ''type'')) ''bad_schema_field_type'' (fp @ ''/type'') @
       (if fld fdef ''type'' = JStr ''enum'' then validateEnumValues (fld fdef ''enum'') (fp @ ''/enum'')
        else err_if (fld fdef ''enum'' \<noteq> JUndef) ''enum_on_non_enum_field'' (fp @ ''/enum'')) @
       err_if (fld fdef ''required'' \<noteq> JUndef \<and> \<not> isBool (fld fdef ''required''))
         ''bad_field_type'' (fp @ ''/required'') @
       err_if (fld fdef ''description'' \<noteq> JUndef \<and> \<not> isStr (fld fdef ''description''))
         ''bad_field_type'' (fp @ ''/description'') @
       unknown_fields [''type'', ''required'', ''enum'', ''description''] ''schema_field_unknown_field'' fp fdef)"

definition schema_issues :: "string \<Rightarrow> jsval \<Rightarrow> issue list" where
  "schema_issues sname sdef = (let p = ''/output_schemas/'' @ sname in
    err_if (\<not> SAFE_ID sname) ''bad_schema_name'' p @
    (if \<not> isObj sdef then [err ''bad_schema'' p]
     else
       unknown_fields [''fields''] ''schema_unknown_field'' p sdef @
       (if \<not> isObj (fld sdef ''fields'') then [err ''bad_schema'' (p @ ''/fields'')]
        else
          err_if (obj_keys (fld sdef ''fields'') = []) ''schema_no_fields'' (p @ ''/fields'') @
          concat (map (\<lambda>(fname, fdef). field_issues (p @ ''/fields/'' @ fname) fdef) (entries (fld sdef ''fields''))))))"

text \<open>The fields of a schema and their definitions; both are empty when the schema or its
  \<open>fields\<close> is not an object, as \<open>entries\<close> is.\<close>

definition schema_field_names :: "jsval \<Rightarrow> string list" where
  "schema_field_names sdef = obj_keys (fld sdef ''fields'')"

definition schema_defs :: "jsval \<Rightarrow> (string \<times> field_def) list" where
  "schema_defs sdef = concat (map (\<lambda>(fname, fdef).
     if isObj fdef \<and> valid_field_type (fld fdef ''type'') then [(fname, schema_field_def fdef)] else [])
     (entries (fld sdef ''fields'')))"

record schema_tables =
  schemaNames :: "string list"
  schemaFields :: "(string \<times> string list) list"
  schemaFieldDefs :: "(string \<times> (string \<times> field_def) list) list"

definition validateOutputSchemas :: "jsval \<Rightarrow> schema_tables \<times> issue list" where
  "validateOutputSchemas ss =
    (if \<not> isObj ss \<or> obj_keys ss = []
     then (\<lparr>schemaNames = [], schemaFields = [], schemaFieldDefs = []\<rparr>, [err ''output_schemas_missing'' ''/output_schemas''])
     else (\<lparr>schemaNames = set_of_list (obj_keys ss),
            schemaFields = map (\<lambda>(sname, sdef). (sname, schema_field_names sdef)) (entries ss),
            schemaFieldDefs = map (\<lambda>(sname, sdef). (sname, schema_defs sdef)) (entries ss)\<rparr>,
       concat (map (\<lambda>(sname, sdef). schema_issues sname sdef) (entries ss))))"

section \<open>Steps\<close>

definition checkContextBindingCompat :: "string \<Rightarrow> (string \<times> field_def) list option \<Rightarrow> string \<Rightarrow> issue list" where
  "checkContextBindingCompat grp defs p = (case defs of None \<Rightarrow> []
    | Some ds \<Rightarrow>
        concat (map (\<lambda>(fname, _). err_if (fname \<notin> set (CONTEXT_FIELDS grp)) ''context_binding_incompatible_schema'' p) ds) @
        concat (map (\<lambda>core. err_if (case map_of ds core of None \<Rightarrow> True | Some d \<Rightarrow> \<not> fd_required d)
          ''context_binding_incompatible_schema'' p) [''status'', ''summary'']))"

definition MAX_PAUSE_PROMPT :: nat where "MAX_PAUSE_PROMPT = 2000"
definition MAX_PAUSE_CHOICES :: nat where "MAX_PAUSE_CHOICES = 50"
definition MAX_PAUSE_CHOICE_LEN :: nat where "MAX_PAUSE_CHOICE_LEN = 200"

definition validatePauseGate :: "jsval \<Rightarrow> string \<Rightarrow> issue list" where
  "validatePauseGate gate p =
    (if \<not> isObj gate then [err ''bad_pause_before'' p]
     else
       err_if (fld gate ''kind'' \<noteq> JStr ''input'' \<and> fld gate ''kind'' \<noteq> JStr ''approval'') ''bad_pause_kind'' (p @ ''/kind'') @
       err_if (\<not> isStr (fld gate ''prompt'') \<or> str_of (fld gate ''prompt'') = []
           \<or> length (str_of (fld gate ''prompt'')) > MAX_PAUSE_PROMPT) ''bad_pause_prompt'' (p @ ''/prompt'') @
       err_if (fld gate ''choices'' \<noteq> JUndef \<and>
           (\<not> isArr (fld gate ''choices'') \<or> length (arr_of (fld gate ''choices'')) > MAX_PAUSE_CHOICES
            \<or> \<not> list_all (\<lambda>c. isStr c \<and> str_of c \<noteq> [] \<and> length (str_of c) \<le> MAX_PAUSE_CHOICE_LEN)
                 (arr_of (fld gate ''choices''))))
         ''bad_pause_choices'' (p @ ''/choices'') @
       unknown_fields [''kind'', ''prompt'', ''choices''] ''pause_unknown_field'' p gate)"

definition STEP_FIELDS :: "string list" where
  "STEP_FIELDS = [''id'', ''type'', ''agent_role'', ''prompt_template'', ''output_schema'', ''permission_mode'',
     ''workspace_key_template'', ''workspace_write'', ''context_binding'', ''pause_before'', ''label'',
     ''description'', ''verify'']"

definition valid_step_id :: "jsval \<Rightarrow> bool" where
  "valid_step_id v = (isStr v \<and> SAFE_ID (str_of v))"

definition workspace_issues :: "jsval \<Rightarrow> string \<Rightarrow> issue list" where
  "workspace_issues step p =
    err_if (fld step ''workspace_key_template'' \<noteq> JUndef \<and> \<not> isStr (fld step ''workspace_key_template''))
      ''bad_workspace_key_template'' (p @ ''/workspace_key_template'') @
    (if fld step ''workspace_write'' \<noteq> JUndef then
       (if \<not> isBool (fld step ''workspace_write'') then [err ''bad_workspace_write'' (p @ ''/workspace_write'')]
        else err_if (fld step ''workspace_write'' = JBool True \<and> fld step ''workspace_key_template'' = JUndef)
          ''workspace_write_requires_workspace'' (p @ ''/workspace_write''))
     else []) @
    (if fld step ''verify'' \<noteq> JUndef then
       err_if (isl (validateTaskVerifyConfig (fld step ''verify''))) ''bad_verify'' (p @ ''/verify'') @
       err_if (fld step ''workspace_key_template'' = JUndef) ''verify_requires_workspace'' (p @ ''/verify'')
     else [])"

definition step_issues :: "string list \<Rightarrow> schema_tables \<Rightarrow> string list \<Rightarrow> string \<Rightarrow> jsval \<Rightarrow> issue list" where
  "step_issues agentRoles tables stepIds p step =
    (if \<not> isObj step then [err ''bad_step'' p]
     else
       (if \<not> valid_step_id (fld step ''id'') then [err ''bad_step_id'' (p @ ''/id'')]
        else err_if (str_of (fld step ''id'') \<in> set stepIds) ''duplicate_step_id'' (p @ ''/id'')) @
       err_if (fld step ''type'' \<noteq> JStr ''agent_task'') ''unsupported_step_type'' (p @ ''/type'') @
       err_if (\<not> isStr (fld step ''agent_role'') \<or> str_of (fld step ''agent_role'') \<notin> set agentRoles)
         ''unknown_agent_role'' (p @ ''/agent_role'') @
       err_if (\<not> isStr (fld step ''output_schema'') \<or> str_of (fld step ''output_schema'') \<notin> set (schemaNames tables))
         ''unknown_output_schema'' (p @ ''/output_schema'') @
       err_if (fld step ''permission_mode'' \<notin> {JUndef, JStr ''default'', JStr ''unsafe-skip''})
         ''bad_permission_mode'' (p @ ''/permission_mode'') @
       err_if (\<not> isStr (fld step ''prompt_template'')) ''bad_prompt_template'' (p @ ''/prompt_template'') @
       workspace_issues step p @
       (if fld step ''context_binding'' \<noteq> JUndef then
          (if \<not> isStr (fld step ''context_binding'') \<or> str_of (fld step ''context_binding'') \<notin> set CONTEXT_GROUPS
           then [err ''bad_context_binding'' (p @ ''/context_binding'')]
           else if isStr (fld step ''output_schema'') \<and> str_of (fld step ''output_schema'') \<noteq> []
           then checkContextBindingCompat (str_of (fld step ''context_binding''))
             (map_of (schemaFieldDefs tables) (str_of (fld step ''output_schema''))) (p @ ''/context_binding'')
           else [])
        else []) @
       err_if (fld step ''label'' \<noteq> JUndef \<and> \<not> isStr (fld step ''label'')) ''bad_field_type'' (p @ ''/label'') @
       err_if (fld step ''description'' \<noteq> JUndef \<and> \<not> isStr (fld step ''description'')) ''bad_field_type'' (p @ ''/description'') @
       (if fld step ''pause_before'' \<noteq> JUndef then validatePauseGate (fld step ''pause_before'') (p @ ''/pause_before'') else []) @
       unknown_fields STEP_FIELDS ''step_unknown_field'' p step)"

record step_tables =
  stepIds :: "string list"
  stepOutputSchema :: "(string \<times> string) list"

text \<open>One iteration of \<open>steps.forEach\<close>.\<close>

definition visit_step ::
  "string list \<Rightarrow> schema_tables \<Rightarrow> step_tables \<times> issue list \<Rightarrow> nat \<times> jsval \<Rightarrow> step_tables \<times> issue list" where
  "visit_step agentRoles tables st ix = (case (st, ix) of ((tab, iss), (i, step)) \<Rightarrow>
    (\<lparr>stepIds = (if isObj step \<and> valid_step_id (fld step ''id'')
                 then set_add (str_of (fld step ''id'')) (stepIds tab) else stepIds tab),
      stepOutputSchema = (if isObj step \<and> isStr (fld step ''output_schema'')
                 \<and> str_of (fld step ''output_schema'') \<in> set (schemaNames tables) \<and> isStr (fld step ''id'')
                 then AList.update (str_of (fld step ''id'')) (str_of (fld step ''output_schema'')) (stepOutputSchema tab)
                 else stepOutputSchema tab)\<rparr>,
     iss @ step_issues agentRoles tables (stepIds tab) (''/steps/'' @ nat_digits i) step))"

definition validateSteps :: "jsval \<Rightarrow> string list \<Rightarrow> schema_tables \<Rightarrow> step_tables \<times> issue list" where
  "validateSteps steps agentRoles tables =
    (if \<not> isArr steps \<or> arr_of steps = []
     then (\<lparr>stepIds = [], stepOutputSchema = []\<rparr>, [err ''steps_missing'' ''/steps''])
     else foldl (visit_step agentRoles tables) (\<lparr>stepIds = [], stepOutputSchema = []\<rparr>, []) (enumerate 0 (arr_of steps)))"

section \<open>Limits\<close>

definition REQUIRED_LIMITS :: "string list" where
  "REQUIRED_LIMITS = [''max_tasks'', ''max_runtime_seconds'', ''max_step_attempts'', ''max_failures'']"

definition limit_issues :: "jsval \<Rightarrow> string \<Rightarrow> issue list" where
  "limit_issues limits key = (let v = fld limits key; p = ''/limits/'' @ key in
     if v = JUndef then [err ''limit_missing'' p]
     else if \<not> isPosInt v then [err ''limit_invalid'' p]
     else err_if (int_of v > limit_maximum key) ''limit_exceeds_max'' p)"

definition validateLimits :: "jsval \<Rightarrow> bool \<Rightarrow> issue list" where
  "validateLimits limits hasLoopEdge = (let mr = fld limits ''max_rounds''; b = fld limits ''budget'' in
    if \<not> isObj limits then [err ''limits_missing'' ''/limits'']
    else
      concat (map (limit_issues limits) REQUIRED_LIMITS) @
      (if mr \<noteq> JUndef then
         (if \<not> isPosInt mr then [err ''limit_invalid'' ''/limits/max_rounds'']
          else err_if (int_of mr > limit_maximum ''max_rounds'') ''limit_exceeds_max'' ''/limits/max_rounds'')
       else []) @
      err_if (hasLoopEdge \<and> \<not> isPosInt mr) ''loop_requires_max_rounds'' ''/limits/max_rounds'' @
      (if b \<noteq> JUndef then
         (if \<not> isObj b then [err ''bad_budget'' ''/limits/budget'']
          else concat (map (\<lambda>k. [err ''budget_unknown_field'' (''/limits/budget/'' @ k)]) (obj_keys b)))
       else []) @
      unknown_fields [''max_rounds'', ''max_tasks'', ''max_runtime_seconds'', ''max_step_attempts'',
        ''max_failures'', ''budget''] ''limit_unknown_field'' ''/limits'' limits)"

end
