(* ===== verification/Rendering.thy ===== *)
theory Rendering
  imports Templates SpecChecks
begin

text \<open>
  Input normalisation (\<open>src/workflow/input-values.ts\<close>) and deterministic rendering of prompts
  and workspace keys (\<open>src/workflow/prompt-renderer.ts\<close>).
\<close>

section \<open>Input values\<close>

definition isSecretName :: "string \<Rightarrow> bool" where
  "isSecretName key = (normalized_name key = ''pid'' \<or> isSecretKey key)"

text \<open>Every failure has the code \<open>invalid_input_values\<close>; the model keeps what was wrong.\<close>

datatype input_error =
    InputsNotObject
  | SecretInputName string
  | UnknownInput string
  | InputTypeMismatch string
  | MissingRequiredInput string

definition input_name_error :: "jsval \<Rightarrow> string \<Rightarrow> input_error option" where
  "input_name_error defs name =
    (if isSecretName name then Some (SecretInputName name)
     else if \<not> has_own defs name then Some (UnknownInput name) else None)"

definition input_value :: "jsval \<Rightarrow> string \<times> jsval \<Rightarrow> input_error + (string \<times> jsval) list" where
  "input_value given nd = (case nd of (name, def) \<Rightarrow>
    (if has_own given name then
       (if \<not> matchesInputType (fld given name) (str_of (fld def ''type'')) then Inl (InputTypeMismatch name)
        else Inr [(name, fld given name)])
     else if fld def ''default'' \<noteq> JUndef then Inr [(name, fld def ''default'')]
     else if truthy (fld def ''required'') then Inl (MissingRequiredInput name)
     else Inr []))"

fun collect_inputs :: "jsval \<Rightarrow> (string \<times> jsval) list \<Rightarrow> input_error + (string \<times> jsval) list" where
  "collect_inputs given [] = Inr []"
| "collect_inputs given (nd # nds) =
    and_then (input_value given nd) (\<lambda>kv. and_then (collect_inputs given nds) (\<lambda>kvs. Inr (kv @ kvs)))"

definition normalizeInputValues :: "jsval \<Rightarrow> jsval \<Rightarrow> input_error + jsval" where
  "normalizeInputValues spec provided =
    (if provided \<noteq> JUndef \<and> \<not> isObj provided then Inl InputsNotObject
     else or_else (first_some (input_name_error (fld spec ''inputs'')) (obj_keys provided))
       (and_then (collect_inputs provided (entries (fld spec ''inputs''))) (\<lambda>kvs. Inr (JObj kvs))))"

section \<open>Rendering\<close>

definition MAX_RENDERED_PROMPT_BYTES :: nat where
  "MAX_RENDERED_PROMPT_BYTES = 64 * 1024"

record render_scope =
  rs_inputs :: jsval
  rs_stepOutputs :: jsval
  rs_round :: int
  rs_context :: jsval
  rs_pauseResponse :: "string option"

text \<open>A function has no JSON text; joining with \<open>undefined\<close> puts a comma.\<close>

definition renderValue :: "jsval \<Rightarrow> string" where
  "renderValue v =
    (if isStr v then str_of v
     else if isNum v \<or> isBool v then to_text v
     else if v = JNull \<or> v = JUndef then []
     else (case stringify v of None \<Rightarrow> '','' | Some t \<Rightarrow> t))"

text \<open>The value of a reference and whether it is required.\<close>

definition resolveRef :: "template_ref \<Rightarrow> render_scope \<Rightarrow> jsval \<times> bool" where
  "resolveRef ref scope = (case ref of
      RefInput name _ \<Rightarrow> (get_prop (rs_inputs scope) name, True)
    | RefWorkflow _ \<Rightarrow> (JNum (NInt (rs_round scope)), True)
    | RefStep s f _ \<Rightarrow>
        (let out = get_prop (rs_stepOutputs scope) s
         in if out = JUndef then (JUndef, True) else (get_prop out f, False))
    | RefContext g f _ \<Rightarrow>
        (let grp = fld (rs_context scope) g in (if truthy grp then get_prop grp f else JUndef, False))
    | RefPause _ \<Rightarrow> (case rs_pauseResponse scope of None \<Rightarrow> JUndef | Some r \<Rightarrow> JStr r, True))"

text \<open>\<open>s.split(raw).join(v)\<close> for a nonempty \<open>raw\<close>.\<close>

function replace_all :: "string \<Rightarrow> string \<Rightarrow> string \<Rightarrow> string" where
  "replace_all raw v [] = []"
| "replace_all raw v (c # s) =
    (if raw \<noteq> [] \<and> starts_with (c # s) raw then v @ replace_all raw v (drop (length raw) (c # s))
     else c # replace_all raw v s)"
  by pat_completeness auto
termination
  by (relation "measure (\<lambda>(_, _, s). length s)") auto

datatype render_error = RenderMissingValue | RenderTooLarge | RenderBadReference

fun render_refs :: "render_scope \<Rightarrow> template_ref list \<Rightarrow> string \<Rightarrow> render_error + string" where
  "render_refs scope [] out = Inr out"
| "render_refs scope (ref # refs) out =
    (case resolveRef ref scope of (val, required) \<Rightarrow>
       if val = JUndef \<and> required then Inl RenderMissingValue
       else render_refs scope refs (replace_all (ref_raw ref) (renderValue val) out))"

definition renderPrompt :: "string \<Rightarrow> render_scope \<Rightarrow> nat \<Rightarrow> render_error + string" where
  "renderPrompt template scope maxBytes =
    (let parsed = parseTemplateReferences template
     in if parse_errors parsed \<noteq> [] then Inl RenderBadReference
        else and_then (render_refs scope (parse_refs parsed) template)
          (\<lambda>out. if byteLen out > maxBytes then Inl RenderTooLarge else Inr out))"

definition renderWorkspaceKey :: "string option \<Rightarrow> render_scope \<Rightarrow> render_error + string option" where
  "renderWorkspaceKey template scope = (case template of
      None \<Rightarrow> Inr None
    | Some t \<Rightarrow>
        if \<not> str_includes t ''{{'' then (if WORKSPACE_KEY t then Inr (Some t) else Inl RenderBadReference)
        else (case parse_refs (parseTemplateReferences t) of
            [RefInput name raw] \<Rightarrow>
              if parse_errors (parseTemplateReferences t) \<noteq> [] \<or> trim t \<noteq> raw then Inl RenderBadReference
              else let v = get_prop (rs_inputs scope) name in
                if v = JUndef \<or> v = JStr [] then Inr None
                else if \<not> isStr v \<or> \<not> WORKSPACE_KEY (str_of v) then Inl RenderBadReference
                else Inr (Some (str_of v))
          | _ \<Rightarrow> Inl RenderBadReference))"

section \<open>Facts\<close>

lemma collect_inputs_Inr:
  assumes "collect_inputs given nds = Inr kvs"
  shows "map_of kvs name = Some v \<Longrightarrow> \<exists>def. (name, def) \<in> set nds \<and>
      (has_own given name \<and> v = fld given name \<and> matchesInputType v (str_of (fld def ''type'')) \<or>
       \<not> has_own given name \<and> v = fld def ''default'' \<and> v \<noteq> JUndef)"
    and "(name, def) \<in> set nds \<Longrightarrow> truthy (fld def ''required'') \<Longrightarrow> name \<in> fst ` set kvs"
  using assms
  by (induction nds arbitrary: kvs)
    (auto simp: input_value_def split: if_splits; force)+

text \<open>What the normalised object satisfies: every value has its declared type or is the declared
  default, every required input is there, and every key was declared and is not secret-like.\<close>

lemma normalizeInputValues_Inr:
  assumes "normalizeInputValues spec provided = Inr vals"
  shows "fld vals name \<noteq> JUndef \<Longrightarrow> \<exists>def. (name, def) \<in> set (entries (fld spec ''inputs'')) \<and>
      (matchesInputType (fld vals name) (str_of (fld def ''type'')) \<or> fld vals name = fld def ''default'')"
    and "(name, def) \<in> set (entries (fld spec ''inputs'')) \<Longrightarrow> truthy (fld def ''required'') \<Longrightarrow> has_own vals name"
    and "set (obj_keys provided) \<subseteq> set (obj_keys (fld spec ''inputs''))"
    and "\<forall>k\<in>set (obj_keys provided). \<not> isSecretName k"
proof -
  obtain kvs where kvs: "collect_inputs provided (entries (fld spec ''inputs'')) = Inr kvs" "vals = JObj kvs"
    and names: "\<forall>k\<in>set (obj_keys provided). input_name_error (fld spec ''inputs'') k = None"
    using assms by (auto simp: normalizeInputValues_def split: if_splits)
  show "\<exists>def. (name, def) \<in> set (entries (fld spec ''inputs'')) \<and>
      (matchesInputType (fld vals name) (str_of (fld def ''type'')) \<or> fld vals name = fld def ''default'')"
    if "fld vals name \<noteq> JUndef"
    using that collect_inputs_Inr(1) [OF kvs(1), of name] kvs(2) by (fastforce simp: fld_def split: option.splits)
  show "has_own vals name"
    if "(name, def) \<in> set (entries (fld spec ''inputs''))" "truthy (fld def ''required'')"
    using collect_inputs_Inr(2) [OF kvs(1) that] kvs(2) by (simp add: has_own_iff)
  show "set (obj_keys provided) \<subseteq> set (obj_keys (fld spec ''inputs''))" "\<forall>k\<in>set (obj_keys provided). \<not> isSecretName k"
    using names by (auto simp: input_name_error_def has_own_iff split: if_splits)
qed

section \<open>Rendering a template of plain text and references\<close>

datatype segment = Lit string | Hole string

fun seg_text :: "segment \<Rightarrow> string" where
  "seg_text (Lit s) = s"
| "seg_text (Hole inner) = raw_ref inner"

fun seg_plain :: "segment \<Rightarrow> bool" where
  "seg_plain (Lit s) = plain s"
| "seg_plain (Hole inner) = plain inner"

fun seg_holes :: "segment list \<Rightarrow> string list" where
  "seg_holes [] = []"
| "seg_holes (Lit s # segs) = seg_holes segs"
| "seg_holes (Hole inner # segs) = inner # seg_holes segs"

definition template_text :: "segment list \<Rightarrow> string" where
  "template_text segs = concat (map seg_text segs)"

lemma template_scan:
  assumes "list_all seg_plain segs"
  shows "scan_refs (template_text segs) = seg_holes segs"
    and "count_pairs (CHR ''{'') (template_text segs) = length (seg_holes segs)"
    and "count_pairs (CHR ''}'') (template_text segs) = length (seg_holes segs)"
  using assms
  by (induction segs rule: seg_holes.induct) (auto simp: template_text_def scan_refs_ref count_pairs_ref)

text \<open>Replacing one reference in such a text touches exactly its own occurrences.\<close>

lemma not_starts_raw: "c \<noteq> CHR ''{'' \<Longrightarrow> \<not> starts_with (c # s) (raw_ref i)"
  by (simp add: starts_with_def raw_ref_def)

lemma replace_plain: "plain s \<Longrightarrow> replace_all (raw_ref i) v (s @ t) = s @ replace_all (raw_ref i) v t"
  by (induction s) (auto simp: not_starts_raw)

lemma raw_ref_inj_append:
  assumes "plain i" and "plain j" and "raw_ref i @ s = raw_ref j @ t"
  shows "i = j"
proof -
  have "takeWhile (\<lambda>c. c \<noteq> CHR ''}'') (k @ CHR ''}'' # r) = k" if "plain k" for k r
    using that by (induction k) auto
  from this [OF assms(1), of "CHR ''}'' # s"] this [OF assms(2), of "CHR ''}'' # t"] assms(3)
  show ?thesis by (simp add: raw_ref_def)
qed

lemma replace_same: "replace_all (raw_ref i) v (raw_ref i @ t) = v @ replace_all (raw_ref i) v t"
proof -
  obtain c s where cs: "raw_ref i @ t = c # s" by (cases "raw_ref i @ t") (auto simp: raw_ref_def)
  have "starts_with (raw_ref i @ t) (raw_ref i)" by (simp add: starts_with_def)
  moreover have "drop (length (raw_ref i)) (raw_ref i @ t) = t" by simp
  moreover have "raw_ref i \<noteq> []" by (simp add: raw_ref_def)
  ultimately show ?thesis unfolding cs by simp
qed

lemma replace_other:
  assumes "plain i" and "plain j" and "i \<noteq> j"
  shows "replace_all (raw_ref i) v (raw_ref j @ t) = raw_ref j @ replace_all (raw_ref i) v t"
proof -
  have no0: "\<not> starts_with (raw_ref j @ t) (raw_ref i)"
    using raw_ref_inj_append [OF assms(2,1)] assms(3) by (auto simp: starts_with_iff)
  have no1: "\<not> starts_with (CHR ''{'' # j @ ''}}'' @ t) (raw_ref i)"
    using assms(2) by (cases j) (auto simp: starts_with_def raw_ref_def)
  have "replace_all (raw_ref i) v (j @ ''}}'' @ t) = j @ ''}}'' @ replace_all (raw_ref i) v t"
    using replace_plain [OF assms(2), of i v "''}}'' @ t"] by (simp add: not_starts_raw)
  moreover have "raw_ref j @ t = CHR ''{'' # CHR ''{'' # j @ ''}}'' @ t" by (simp add: raw_ref_def)
  ultimately show ?thesis using no0 no1 by (simp add: raw_ref_def)
qed

fun seg_state :: "(string \<Rightarrow> string) \<Rightarrow> string set \<Rightarrow> segment \<Rightarrow> string" where
  "seg_state val finished (Lit s) = s"
| "seg_state val finished (Hole inner) = (if inner \<in> finished then val inner else raw_ref inner)"

lemma replace_segments:
  assumes "list_all seg_plain segs" and "plain i" and "\<forall>j\<in>finished. plain (val j)"
  shows "replace_all (raw_ref i) (val i) (concat (map (seg_state val finished) segs)) =
    (if i \<in> finished then concat (map (seg_state val finished) segs)
     else concat (map (seg_state val (insert i finished)) segs))"
  using assms
proof (induction segs)
  case (Cons seg segs)
  show ?case
  proof (cases seg)
    case (Lit s)
    with Cons show ?thesis by (auto simp: replace_plain)
  next
    case (Hole j)
    with Cons show ?thesis
      by (cases "j \<in> finished"; cases "i = j") (auto simp: replace_plain replace_same replace_other)
  qed
qed simp

definition hole_ref :: "string \<Rightarrow> template_ref" where
  "hole_ref inner = (case classify_ref inner of Inr r \<Rightarrow> r | Inl _ \<Rightarrow> RefPause (raw_ref inner))"

definition hole_value :: "render_scope \<Rightarrow> string \<Rightarrow> string" where
  "hole_value scope inner = renderValue (fst (resolveRef (hole_ref inner) scope))"

lemma render_refs_segments:
  assumes "list_all seg_plain segs" and "\<forall>i\<in>finished \<union> set hs. plain i \<and> plain (hole_value scope i)"
    and "\<forall>i\<in>set hs. isl (classify_ref i) = False \<and>
      (fst (resolveRef (hole_ref i) scope) \<noteq> JUndef \<or> \<not> snd (resolveRef (hole_ref i) scope))"
  shows "render_refs scope (map hole_ref hs) (concat (map (seg_state (hole_value scope) finished) segs)) =
    Inr (concat (map (seg_state (hole_value scope) (finished \<union> set hs)) segs))"
  using assms(2,3)
proof (induction hs arbitrary: finished)
  case (Cons i hs)
  let ?val = "hole_value scope"
  have raw: "ref_raw (hole_ref i) = raw_ref i"
    using Cons.prems(2) by (auto simp: hole_ref_def isl_def split: sum.splits dest: classify_ref_raw)
  have "replace_all (raw_ref i) (?val i) (concat (map (seg_state ?val finished) segs)) =
      concat (map (seg_state ?val (insert i finished)) segs)"
    using replace_segments [OF assms(1), of i finished ?val] Cons.prems(1)
    by (cases "i \<in> finished") (auto simp: insert_absorb)
  then have "render_refs scope (map hole_ref (i # hs)) (concat (map (seg_state ?val finished) segs)) =
      render_refs scope (map hole_ref hs) (concat (map (seg_state ?val (insert i finished)) segs))"
    using Cons.prems(2) raw by (auto simp: hole_value_def case_prod_beta)
  also have "\<dots> = Inr (concat (map (seg_state ?val (insert i finished \<union> set hs)) segs))"
    using Cons.prems by (intro Cons.IH) auto
  finally show ?case by simp
qed simp

text \<open>The output of rendering: every literal as it is, every reference replaced by its value.\<close>

lemma renderPrompt_segments:
  assumes "list_all seg_plain segs"
    and "\<forall>i\<in>set (seg_holes segs). isl (classify_ref i) = False \<and> plain (hole_value scope i) \<and>
      (fst (resolveRef (hole_ref i) scope) \<noteq> JUndef \<or> \<not> snd (resolveRef (hole_ref i) scope))"
    and "byteLen (concat (map (seg_state (hole_value scope) UNIV) segs)) \<le> maxBytes"
  shows "renderPrompt (template_text segs) scope maxBytes = Inr (concat (map (seg_state (hole_value scope) UNIV) segs))"
proof -
  let ?hs = "seg_holes segs"
  have cls: "map classify_ref ?hs = map (Inr \<circ> hole_ref) ?hs"
    using assms(2) by (auto simp: hole_ref_def isl_def split: sum.splits)
  have lr: "sum_lefts (map (Inr \<circ> f) xs) = ([] :: string list)" "sum_rights (map (Inr \<circ> f) xs) = map f xs" for f :: "string \<Rightarrow> template_ref" and xs
    by (induction xs) simp_all
  have parsed: "parse_refs (parseTemplateReferences (template_text segs)) = map hole_ref ?hs"
    "parse_errors (parseTemplateReferences (template_text segs)) = []"
    unfolding parseTemplateReferences_def Let_def template_scan [OF assms(1)] cls lr by simp_all
  have plain: "plain i" if "i \<in> set ?hs" for i
    using that assms(1) by (induction segs rule: seg_holes.induct) auto
  have start: "template_text segs = concat (map (seg_state (hole_value scope) {}) segs)"
    unfolding template_text_def by (intro arg_cong [where f = concat] map_cong refl) (metis seg_state.simps seg_text.elims empty_iff)
  have fin: "concat (map (seg_state val F) gs) = concat (map (seg_state val UNIV) gs)"
    if "set (seg_holes gs) \<subseteq> F" for val F gs
    using that by (induction gs rule: seg_holes.induct) auto
  show ?thesis
    unfolding renderPrompt_def Let_def parsed
    using render_refs_segments [OF assms(1), of "{}" ?hs scope] plain assms(2,3) fin [of segs "set ?hs"] start by auto
qed

end
