(* ===== verification/Recovery.thy ===== *)
theory Recovery
  imports JsonParse Rendering TaskResult StoreTables
begin

text \<open>
  Deterministic identifiers and recovery phases (\<open>src/workflow/recovery.ts\<close>) and the lease
  targets a spec needs (\<open>resolveWorkspaceTargets\<close> of
  \<open>src/workflow/workspace-lease-client.ts\<close>).
\<close>

section \<open>Identifiers\<close>

definition stepExecutionId :: "string \<Rightarrow> string \<Rightarrow> int \<Rightarrow> int \<Rightarrow> string" where
  "stepExecutionId workflowId stepId round attempt =
    workflowId @ ''.'' @ stepId @ ''.r'' @ int_text round @ ''.a'' @ int_text attempt"

definition humanRequestId :: "(string \<Rightarrow> string) \<Rightarrow> string \<Rightarrow> string" where
  "humanRequestId sha x = ''hr_'' @ take 32 (sha x)"

section \<open>Recovery phases\<close>

datatype recovery_phase =
    PhaseTerminal | PhaseBlocked | PhaseNeedsStepExecution | PhaseNeedsTask | PhaseAwaitingTask | PhaseNeedsRouting

definition classifyPhase :: "workflow_row \<Rightarrow> step_row option \<Rightarrow> recovery_phase" where
  "classifyPhase w currentStep =
    (if wf_status w \<in> {WCompleted, WFailed, WCancelled} then PhaseTerminal
     else if wf_status w = WBlocked then PhaseBlocked
     else (case currentStep of
         None \<Rightarrow> PhaseNeedsStepExecution
       | Some st \<Rightarrow>
           if se_status st = SCompleted then PhaseNeedsRouting
           else if se_task_id st = None then PhaseNeedsTask
           else PhaseAwaitingTask))"

section \<open>Lease targets\<close>

record workspace_target =
  tg_node_id :: string
  tg_workspace_key :: string
  tg_lease_id :: string

datatype target_error = WorkspaceNodeAmbiguous string | WorkspaceLeaseInvalid string

text \<open>An optional string field of a validated spec.\<close>

definition opt_string :: "jsval \<Rightarrow> string option" where
  "opt_string v = (case v of JStr s \<Rightarrow> Some s | _ \<Rightarrow> None)"

text \<open>\<open>s.agent_role ? spec.agents[s.agent_role] : undefined\<close>\<close>

definition step_role :: "jsval \<Rightarrow> jsval \<Rightarrow> jsval" where
  "step_role spec s = (if truthy (fld s ''agent_role'') then get_prop (fld spec ''agents'') (str_of (fld s ''agent_role'')) else JUndef)"

definition input_scope :: "jsval \<Rightarrow> int \<Rightarrow> render_scope" where
  "input_scope inputs round = \<lparr>rs_inputs = inputs, rs_stepOutputs = JObj [], rs_round = round, rs_context = JObj [],
     rs_pauseResponse = None\<rparr>"

definition target_of :: "(string \<Rightarrow> string) \<Rightarrow> string \<Rightarrow> string \<Rightarrow> string \<Rightarrow> workspace_target" where
  "target_of sha workflowId node key = \<lparr>tg_node_id = node, tg_workspace_key = key, tg_lease_id = workspaceLeaseId sha workflowId node key\<rparr>"

fun collect_targets ::
  "(string \<Rightarrow> string) \<Rightarrow> string \<Rightarrow> jsval \<Rightarrow> jsval \<Rightarrow> jsval list \<Rightarrow> (string \<times> workspace_target) list \<Rightarrow>
   target_error + (string \<times> workspace_target) list" where
  "collect_targets sha workflowId spec inputs [] byKey = Inr byKey"
| "collect_targets sha workflowId spec inputs (s # ss) byKey =
    (case renderWorkspaceKey (opt_string (fld s ''workspace_key_template'')) (input_scope inputs 1) of
       Inl _ \<Rightarrow> Inl (WorkspaceLeaseInvalid (str_of (fld s ''id'')))
     | Inr None \<Rightarrow> collect_targets sha workflowId spec inputs ss byKey
     | Inr (Some key) \<Rightarrow>
         if \<not> truthy (step_role spec s) \<or> \<not> truthy (fld (step_role spec s) ''node_id'')
         then Inl (WorkspaceNodeAmbiguous (str_of (fld s ''id'')))
         else (let node = str_of (fld (step_role spec s) ''node_id''); k = node @ [CHR 0x00] @ key
               in collect_targets sha workflowId spec inputs ss
                    (if map_of byKey k = None then byKey @ [(k, target_of sha workflowId node key)] else byKey)))"

definition resolveWorkspaceTargets ::
  "(string \<Rightarrow> string) \<Rightarrow> string \<Rightarrow> jsval \<Rightarrow> jsval \<Rightarrow> target_error + workspace_target list" where
  "resolveWorkspaceTargets sha workflowId spec inputs =
    and_then (collect_targets sha workflowId spec inputs (spec_steps spec) []) (\<lambda>byKey.
      Inr (sort_key tg_node_id (sort_key tg_workspace_key (map snd byKey))))"

section \<open>Facts\<close>

lemma nat_digits_plain: "c \<in> set (nat_digits n) \<Longrightarrow> is_digit c"
  using nat_digits_digits [of n] by (simp add: list_all_iff)

lemma int_text_no_dot: "CHR ''.'' \<notin> set (int_text n)"
  using nat_digits_plain [of "CHR ''.''"] by (auto simp: int_text_def is_digit_def)

lemma append_split_unique:
  assumes "x \<notin> set a" and "x \<notin> set b" and "a @ x # p = b @ x # q"
  shows "a = b \<and> p = q"
  using assms
proof (induction a arbitrary: b)
  case Nil
  then show ?case by (cases b) auto
next
  case (Cons y a)
  then show ?case by (cases b) auto
qed

lemma append_split_unique_last:
  assumes "x \<notin> set p" and "x \<notin> set q" and "a @ x # p = b @ x # q"
  shows "a = b \<and> p = q"
proof -
  have "rev p @ x # rev a = rev q @ x # rev b" using arg_cong [OF assms(3), of rev] by simp
  from append_split_unique [OF _ _ this] assms(1,2) show ?thesis by simp
qed

lemma nat_digits_inj: "nat_digits m = nat_digits n \<Longrightarrow> m = n"
  by (metis nat_digits_value of_nat_eq_iff)

lemma nat_digits_no_minus: "CHR ''-'' # t \<noteq> nat_digits m"
proof
  assume "CHR ''-'' # t = nat_digits m"
  then have "CHR ''-'' \<in> set (nat_digits m)" by (metis list.set_intros(1))
  from nat_digits_plain [OF this] show False by (simp add: is_digit_def)
qed

lemma int_text_inj:
  assumes "int_text m = int_text n"
  shows "m = n"
proof (cases "m < 0"; cases "n < 0")
  assume "m < 0" "n < 0"
  then show ?thesis using assms nat_digits_inj [of "nat (- m)" "nat (- n)"] by (simp add: int_text_def)
next
  assume "\<not> m < 0" "\<not> n < 0"
  then show ?thesis using assms nat_digits_inj [of "nat m" "nat n"] by (simp add: int_text_def)
qed (use assms nat_digits_no_minus nat_digits_no_minus [symmetric] in \<open>simp_all add: int_text_def\<close>)

lemma stepExecutionId_inj:
  assumes "CHR ''.'' \<notin> set w" and "CHR ''.'' \<notin> set w'" and "stepExecutionId w s r a = stepExecutionId w' s' r' a'"
  shows "w = w' \<and> s = s' \<and> r = r' \<and> a = a'"
proof -
  have "w @ CHR ''.'' # (s @ ''.r'' @ int_text r @ ''.a'' @ int_text a) = w' @ CHR ''.'' # (s' @ ''.r'' @ int_text r' @ ''.a'' @ int_text a')"
    using assms(3) by (simp add: stepExecutionId_def)
  from append_split_unique [OF assms(1,2) this]
  have w: "w = w'" and rest: "(s @ ''.r'' @ int_text r) @ CHR ''.'' # CHR ''a'' # int_text a = (s' @ ''.r'' @ int_text r') @ CHR ''.'' # CHR ''a'' # int_text a'" by auto
  from append_split_unique_last [OF _ _ rest] int_text_no_dot
  have a: "int_text a = int_text a'" and rest: "s @ CHR ''.'' # CHR ''r'' # int_text r = s' @ CHR ''.'' # CHR ''r'' # int_text r'" by auto
  from append_split_unique_last [OF _ _ rest] int_text_no_dot
  have "s = s'" "int_text r = int_text r'" by auto
  with w a show ?thesis by (auto dest: int_text_inj)
qed

text \<open>Targets: one per node and workspace, in the order the acquisition takes them.\<close>

lemma collect_targets_keys:
  assumes "collect_targets sha w spec inputs ss byKey = Inr byKey'"
    and "\<forall>(k, t)\<in>set byKey. k = tg_node_id t @ [CHR 0x00] @ tg_workspace_key t \<and> tg_lease_id t = workspaceLeaseId sha w (tg_node_id t) (tg_workspace_key t)"
    and "distinct (map fst byKey)"
  shows "(\<forall>(k, t)\<in>set byKey'. k = tg_node_id t @ [CHR 0x00] @ tg_workspace_key t \<and> tg_lease_id t = workspaceLeaseId sha w (tg_node_id t) (tg_workspace_key t)) \<and>
    distinct (map fst byKey') \<and> set byKey \<subseteq> set byKey'"
  using assms
proof (induction ss arbitrary: byKey)
  case (Cons s ss)
  show ?case
  proof (cases "renderWorkspaceKey (opt_string (fld s ''workspace_key_template'')) (input_scope inputs 1)")
    case (Inr r)
    then show ?thesis
    proof (cases r)
      case (Some key)
      let ?k = "str_of (fld (step_role spec s) ''node_id'') @ [CHR 0x00] @ key"
      show ?thesis
      proof (cases "map_of byKey ?k")
        case None
        then have "?k \<notin> fst ` set byKey" by (simp add: map_of_eq_None_iff)
        then show ?thesis
          using Cons.IH [of "byKey @ [(?k, target_of sha w (str_of (fld (step_role spec s) ''node_id'')) key)]"] Cons.prems Inr Some None
          by (auto simp: Let_def target_of_def split: if_splits)
      qed (use Cons Inr Some in \<open>auto simp: Let_def split: if_splits\<close>)
    qed (use Cons Inr in auto)
  qed (use Cons in auto)
qed auto

lemma resolved_targets:
  assumes "resolveWorkspaceTargets sha w spec inputs = Inr ts"
  shows "distinct (map (\<lambda>t. (tg_node_id t, tg_workspace_key t)) ts)"
    and "sorted (map tg_node_id ts)"
    and "t \<in> set ts \<Longrightarrow> tg_lease_id t = workspaceLeaseId sha w (tg_node_id t) (tg_workspace_key t)"
proof -
  obtain byKey where b: "collect_targets sha w spec inputs (spec_steps spec) [] = Inr byKey"
    and ts: "ts = sort_key tg_node_id (sort_key tg_workspace_key (map snd byKey))"
    using assms by (auto simp: resolveWorkspaceTargets_def)
  have keys: "\<forall>(k, t)\<in>set byKey. k = tg_node_id t @ [CHR 0x00] @ tg_workspace_key t \<and> tg_lease_id t = workspaceLeaseId sha w (tg_node_id t) (tg_workspace_key t)"
    and dist: "distinct (map fst byKey)"
    using collect_targets_keys [OF b] by auto
  have "distinct (map (\<lambda>t. tg_node_id t @ [CHR 0x00] @ tg_workspace_key t) (map snd byKey))"
  proof -
    have "map (\<lambda>t. tg_node_id t @ [CHR 0x00] @ tg_workspace_key t) (map snd byKey) = map fst byKey"
      using keys by auto
    then show ?thesis using dist by argo
  qed
  then have "distinct (map snd byKey)" "inj_on (\<lambda>t. tg_node_id t @ [CHR 0x00] @ tg_workspace_key t) (set (map snd byKey))"
    by (auto simp only: distinct_map)
  then have "distinct ts" "inj_on (\<lambda>t. tg_node_id t @ [CHR 0x00] @ tg_workspace_key t) (set ts)" by (simp_all add: ts)
  then show "distinct (map (\<lambda>t. (tg_node_id t, tg_workspace_key t)) ts)"
    unfolding distinct_map inj_on_def by auto
  show "sorted (map tg_node_id ts)" by (simp add: ts)
  show "t \<in> set ts \<Longrightarrow> tg_lease_id t = workspaceLeaseId sha w (tg_node_id t) (tg_workspace_key t)"
    using keys by (auto simp: ts)
qed

end
