(* ===== verification/OutputParser.thy ===== *)
theory OutputParser
  imports JsonParse
begin

text \<open>
  Strict parsing of agent output (\<open>src/workflow/output-parser.ts\<close>): the text of a run from
  its events, and the single JSON object it must be.
\<close>

definition MAX_AGENT_OUTPUT_BYTES :: nat where
  "MAX_AGENT_OUTPUT_BYTES = 256 * 1024"

section \<open>The output text of a run\<close>

definition boundText :: "string \<Rightarrow> nat \<Rightarrow> string \<times> bool" where
  "boundText t maxBytes = (if byteLen t \<le> maxBytes then (t, False) else (take maxBytes t, True))"

text \<open>\<open>(e.payload as { text?: unknown } | undefined)?.text\<close> of the last completed-output event whose
  text is a string.\<close>

definition completed_text :: "jsval \<Rightarrow> string option" where
  "completed_text e = (if fld e ''type'' = JStr ''agent.output.completed'' \<and> isStr (fld (fld e ''payload'') ''text'')
     then Some (str_of (fld (fld e ''payload'') ''text'')) else None)"

definition stdout_text :: "jsval \<Rightarrow> string option" where
  "stdout_text e =
    (let p = fld e ''payload'' in
     if fld e ''type'' \<noteq> JStr ''agent.output.delta'' then None
     else if \<not> truthy p \<or> \<not> isStr (fld p ''text'') then None
     else if fld p ''stream'' \<noteq> JUndef \<and> fld p ''stream'' \<noteq> JStr ''stdout'' then None
     else Some (str_of (fld p ''text'')))"

fun gather :: "nat \<Rightarrow> string \<Rightarrow> jsval list \<Rightarrow> string \<times> bool" where
  "gather maxBytes out [] = (out, False)"
| "gather maxBytes out (e # es) = (case stdout_text e of
      None \<Rightarrow> gather maxBytes out es
    | Some t \<Rightarrow>
        if byteLen out + byteLen t > maxBytes then (out @ take (maxBytes - byteLen out) t, True)
        else gather maxBytes (out @ t) es)"

definition extractAgentOutputText :: "jsval list \<Rightarrow> nat \<Rightarrow> string \<times> bool" where
  "extractAgentOutputText events maxBytes = (case first_some completed_text (rev events) of
      Some t \<Rightarrow> boundText t maxBytes
    | None \<Rightarrow> gather maxBytes [] events)"

section \<open>Exactly one JSON object\<close>

datatype parse_error = ParseEmpty | ParseTooLarge | ParseNotJson | ParseNotObject

definition fence :: string where
  "fence = ''```''"

text \<open>\<open>/^```(?:json)?[ \t]*\r?\n([\s\S]*?)\r?\n```$/\<close>: the body is as short as possible, so a carriage
  return before the last line feed is not part of it.\<close>

definition fence_body :: "string \<Rightarrow> string option" where
  "fence_body s =
    (if \<not> starts_with s fence then None
     else let r1 = drop 3 s;
              r2 = (if starts_with r1 ''json'' then drop 4 r1 else r1);
              r3 = dropWhile (\<lambda>c. c = CHR '' '' \<or> c = CHR 0x09) r2;
              r4 = (if starts_with r3 [CHR 0x0D] then tl r3 else r3);
              inner = tl r4;
              body = take (length inner - 4) inner
          in if starts_with r4 [CHR 0x0A] \<and> 4 \<le> length inner \<and> drop (length inner - 4) inner = CHR 0x0A # fence
             then Some (if body \<noteq> [] \<and> last body = CHR 0x0D then butlast body else body)
             else None)"

definition parse_object :: "string \<Rightarrow> parse_error + jsval" where
  "parse_object t =
    (if \<not> starts_with t ''{'' then Inl ParseNotObject
     else (case json_parse t of
         None \<Rightarrow> Inl ParseNotJson
       | Some v \<Rightarrow> if isObj v then Inr v else Inl ParseNotObject))"

definition parseSingleJsonObject :: "string \<Rightarrow> nat \<Rightarrow> parse_error + jsval" where
  "parseSingleJsonObject raw maxBytes =
    (let trimmed = trim raw in
     if byteLen raw > maxBytes then Inl ParseTooLarge
     else if trimmed = [] then Inl ParseEmpty
     else if starts_with trimmed fence then
       (case fence_body trimmed of None \<Rightarrow> Inl ParseNotJson | Some b \<Rightarrow> parse_object (trim b))
     else if str_includes trimmed fence then Inl ParseNotJson
     else parse_object trimmed)"

section \<open>Facts\<close>

lemma gather_bound: "byteLen out \<le> maxBytes \<Longrightarrow> length (fst (gather maxBytes out es)) \<le> maxBytes"
proof (induction maxBytes out es rule: gather.induct)
  case (1 maxBytes out)
  then show ?case using length_le_byteLen [of out] by simp
next
  case (2 maxBytes out e es)
  show ?case
  proof (cases "stdout_text e")
    case (Some t)
    have "length out \<le> byteLen out" by (rule length_le_byteLen)
    then show ?thesis using 2 Some by (auto simp: min_def)
  qed (use 2 in simp)
qed

lemma extract_bound: "length (fst (extractAgentOutputText events maxBytes)) \<le> maxBytes"
proof -
  have "length (fst (boundText t maxBytes)) \<le> maxBytes" for t
    using length_le_byteLen [of t] by (auto simp: boundText_def)
  then show ?thesis
    using gather_bound [of "[]" maxBytes events]
    by (auto simp: extractAgentOutputText_def byteLen_def split: option.splits)
qed

text \<open>Without truncation nothing is lost: the text is all of the standard output, in order.\<close>

lemma gather_complete:
  assumes "snd (gather maxBytes out es) = False"
  shows "fst (gather maxBytes out es) = out @ concat (map (\<lambda>e. case stdout_text e of None \<Rightarrow> [] | Some t \<Rightarrow> t) es)"
  using assms by (induction maxBytes out es rule: gather.induct) (auto split: option.splits if_splits)

lemma trim_fixed:
  assumes "s \<noteq> []" and "\<not> is_space (hd s)" and "\<not> is_space (last s)"
  shows "trim s = s"
proof -
  have "dropWhile is_space s = s" using assms by (cases s) auto
  moreover have "dropWhile is_space (rev s) = rev s" using assms by (cases "rev s") (auto simp: hd_rev [symmetric])
  ultimately show ?thesis by (simp add: trim_def)
qed

lemma object_text_ends:
  assumes "json_ok (JObj kvs)"
  shows "json_text (JObj kvs) \<noteq> [] \<and> hd (json_text (JObj kvs)) = CHR ''{'' \<and> last (json_text (JObj kvs)) = CHR ''}''"
  by simp

lemma parse_own_text:
  assumes "json_ok (JObj kvs)" and "byteLen (json_text (JObj kvs)) \<le> maxBytes" and "\<not> str_includes (json_text (JObj kvs)) fence"
  shows "parseSingleJsonObject (json_text (JObj kvs)) maxBytes = Inr (JObj kvs)"
proof -
  let ?t = "json_text (JObj kvs)"
  have t: "trim ?t = ?t" using object_text_ends [OF assms(1)] by (intro trim_fixed) (auto simp: is_space_def)
  have "\<not> starts_with ?t fence" using assms(3) by (cases ?t) auto
  moreover have "starts_with ?t ''{''" by (simp add: starts_with_def)
  ultimately show ?thesis
    using assms t object_text_ends [OF assms(1)] json_parse_stringify [OF assms(1)]
    unfolding parseSingleJsonObject_def Let_def t parse_object_def by (simp del: stringify.simps)
qed

lemma parse_is_object: "parseSingleJsonObject raw maxBytes = Inr v \<Longrightarrow> isObj v"
  by (auto simp: parseSingleJsonObject_def parse_object_def Let_def split: if_splits option.splits)

text \<open>A fenced object parses whatever it contains; a bare one only when the fence does not occur in it,
  not even within a string.\<close>

definition fenced :: "string \<Rightarrow> string" where
  "fenced t = ''```json'' @ [CHR 0x0A] @ t @ [CHR 0x0A] @ fence"

lemma fence_body_fenced: "t \<noteq> [] \<Longrightarrow> last t \<noteq> CHR 0x0D \<Longrightarrow> fence_body (fenced t) = Some t"
  by (simp add: fence_body_def fenced_def fence_def starts_with_def Let_def)

lemma parse_fenced_text:
  assumes "json_ok (JObj kvs)" and "byteLen (fenced (json_text (JObj kvs))) \<le> maxBytes"
  shows "parseSingleJsonObject (fenced (json_text (JObj kvs))) maxBytes = Inr (JObj kvs)"
proof -
  let ?t = "json_text (JObj kvs)"
  note ends = object_text_ends [OF assms(1)]
  have t: "trim ?t = ?t" using ends by (intro trim_fixed) (auto simp: is_space_def)
  have f: "trim (fenced ?t) = fenced ?t" by (intro trim_fixed) (simp_all add: fenced_def fence_def is_space_def)
  have "starts_with (fenced ?t) fence" "fenced ?t \<noteq> []" by (simp_all add: fenced_def fence_def starts_with_def)
  moreover have "fence_body (fenced ?t) = Some ?t" using ends by (intro fence_body_fenced) auto
  moreover have "starts_with ?t ''{''" by (simp add: starts_with_def)
  ultimately show ?thesis
    using assms t ends json_parse_stringify [OF assms(1)]
    unfolding parseSingleJsonObject_def Let_def f parse_object_def by (simp del: stringify.simps)
qed

lemma parse_bare_with_fence:
  assumes "json_ok (JObj kvs)" and "byteLen (json_text (JObj kvs)) \<le> maxBytes" and "str_includes (json_text (JObj kvs)) fence"
  shows "parseSingleJsonObject (json_text (JObj kvs)) maxBytes = Inl ParseNotJson"
proof -
  let ?t = "json_text (JObj kvs)"
  have t: "trim ?t = ?t" using object_text_ends [OF assms(1)] by (intro trim_fixed) (auto simp: is_space_def)
  have "\<not> starts_with ?t fence" by (simp add: starts_with_def fence_def)
  then show ?thesis using assms object_text_ends [OF assms(1)]
    unfolding parseSingleJsonObject_def Let_def t by (simp del: stringify.simps)
qed

end
