(* ===== verification/RuntimeBase.thy ===== *)
theory RuntimeBase
  imports StoreReads Recovery OutputParser
begin

text \<open>
  The setting of the workflow runtime (\<open>src/workflow/runtime.ts\<close>). The runtime is an
  asynchronous program: between two of its awaits other callers of the same store and the
  Node run. A computation \<open>'a rt\<close> maps the world (store, time, trace of what the runtime
  did) to an outcome and the next world. The environment \<open>env\<close> is everything the runtime does
  not decide: the transactions of others before each await (\<open>e_others\<close>), the answers of the
  task client and the lease client, the clock, aborts, and whether the process dies
  (\<open>e_crash\<close>). Every await reads the environment at the current tick and advances the tick,
  so a statement for all environments covers every interleaving at await granularity and a
  crash at every await.
\<close>

section \<open>What the clients exchange\<close>

text \<open>\<open>AgentTaskCreateRequest\<close>; a field that may be absent is \<open>JUndef\<close> or \<open>None\<close>.\<close>

record task_request =
  rq_agent :: jsval
  rq_node_id :: jsval
  rq_text :: string
  rq_workspace_key :: "string option"
  rq_permission_mode :: jsval
  rq_workspace_write :: bool
  rq_metadata :: jsval
  rq_idempotency_key :: string
  rq_workspace_lease_id :: "string option"
  rq_verify :: jsval

text \<open>\<open>AgentTaskTerminalRead\<close> without the events, which the runtime does not read.\<close>

record task_read =
  rd_task_id :: string
  rd_status :: string
  rd_terminal :: bool
  rd_history_complete :: bool
  rd_result_status :: "string option"
  rd_result_text :: "string option"
  rd_next_event_id :: int

datatype rt_exn =
    StoreFailed store_error
  | TransientTask
  | TaskFailure
  | LeaseVerdict string
  | TransientLease
  | LeaseFailure
  | RuntimeError string
  | TypeErr

datatype lease_outcome = Acquired | Pending | Blocked

datatype 'a outcome = Value 'a | Throws rt_exn | Unfinished

text \<open>What the runtime does, for the trace. \<open>UndoLease\<close> is the client's \<open>release\<close> as the roll-back of a partial
  acquisition calls it.\<close>

datatype action =
    Did store_call
  | Refused store_call
  | CreateTask task_request
  | WaitTask string int
  | CancelTask string
  | AcquireLease string string string
  | GetLease string string
  | ObserveRevision string string
  | ReleaseLease string string
  | UndoLease string string
  | Slept int
  | StartPump string
  | ScheduleReconcile string
  | AbortWait string

section \<open>Environment and world\<close>

text \<open>\<open>e_inflight\<close> is the outcome of a lease acquisition for the workflow that another call has
  already in flight; \<open>e_now\<close> the injectable clock in milliseconds, \<open>e_iso\<close> the text of
  \<open>new Date()\<close>, \<open>e_db_iso\<close> that of the store's clock; \<open>e_date\<close> is \<open>Date.parse\<close>, with \<open>None\<close> for NaN.\<close>

record env =
  e_others :: "nat \<Rightarrow> (string \<times> store_call) list"
  e_crash :: "nat \<Rightarrow> bool"
  e_stopped :: "nat \<Rightarrow> bool"
  e_aborted :: "nat \<Rightarrow> bool"
  e_now :: "nat \<Rightarrow> int"
  e_iso :: "nat \<Rightarrow> string"
  e_db_iso :: "nat \<Rightarrow> string"
  e_random :: "nat \<Rightarrow> string"
  e_date :: "string \<Rightarrow> int option"
  e_sha :: "string \<Rightarrow> string"
  e_create :: "nat \<Rightarrow> task_request \<Rightarrow> rt_exn + string"
  e_wait :: "nat \<Rightarrow> string \<Rightarrow> int \<Rightarrow> rt_exn + task_read"
  e_cancel :: "nat \<Rightarrow> string \<Rightarrow> rt_exn + unit"
  e_has_leases :: bool
  e_acquire :: "nat \<Rightarrow> string \<Rightarrow> string \<Rightarrow> string \<Rightarrow> rt_exn + workspace_lease"
  e_get :: "nat \<Rightarrow> string \<Rightarrow> string \<Rightarrow> rt_exn + workspace_lease option"
  e_observe :: "nat \<Rightarrow> string \<Rightarrow> string \<Rightarrow> rt_exn + workspace_revision"
  e_release :: "nat \<Rightarrow> string \<Rightarrow> string \<Rightarrow> rt_exn + workspace_lease"
  e_inflight :: "nat \<Rightarrow> string \<Rightarrow> (rt_exn + lease_outcome) option"
  e_backoffBaseMs :: int
  e_backoffMaxMs :: int
  e_maxReleaseAttempts :: nat
  e_resultIngestionDeadlineMs :: int

record world =
  w_store :: wstore
  w_tick :: nat
  w_trace :: "(action \<times> wstore) list"
  w_stopped :: bool
  w_pumps :: "string list"
  w_aborts :: "string list"
  w_timers :: "string list"

type_synonym 'a rt = "world \<Rightarrow> 'a outcome \<times> world"

section \<open>Computations\<close>

definition ret :: "'a \<Rightarrow> 'a rt" where
  "ret x w = (Value x, w)"

definition raise :: "rt_exn \<Rightarrow> 'a rt" where
  "raise e w = (Throws e, w)"

definition unfinished :: "'a rt" where
  "unfinished w = (Unfinished, w)"

definition bnd :: "'a rt \<Rightarrow> ('a \<Rightarrow> 'b rt) \<Rightarrow> 'b rt" where
  "bnd m f w = (case m w of
      (Value x, w') \<Rightarrow> f x w'
    | (Throws e, w') \<Rightarrow> (Throws e, w')
    | (Unfinished, w') \<Rightarrow> (Unfinished, w'))"

text \<open>\<open>try { m } catch (err)\<close>: the exception as a value.\<close>

definition attempt :: "'a rt \<Rightarrow> (rt_exn + 'a) rt" where
  "attempt m w = (case m w of
      (Value x, w') \<Rightarrow> (Value (Inr x), w')
    | (Throws e, w') \<Rightarrow> (Value (Inl e), w')
    | (Unfinished, w') \<Rightarrow> (Unfinished, w'))"

text \<open>A test of the current world, without an await.\<close>

definition branch :: "(world \<Rightarrow> bool) \<Rightarrow> 'a rt \<Rightarrow> 'a rt \<Rightarrow> 'a rt" where
  "branch c m m' w = (if c w then m w else m' w)"

definition look :: "(world \<Rightarrow> 'a) \<Rightarrow> 'a rt" where
  "look f w = (Value (f w), w)"

text \<open>\<open>x!\<close> before a property read: a null row is a \<open>TypeError\<close>.\<close>

definition present :: "'a option \<Rightarrow> 'a rt" where
  "present x = (case x of None \<Rightarrow> raise TypeErr | Some y \<Rightarrow> ret y)"

definition ok_or_throw :: "rt_exn + 'a \<Rightarrow> 'a rt" where
  "ok_or_throw r = (case r of Inl e \<Rightarrow> raise e | Inr x \<Rightarrow> ret x)"

text \<open>\<open>try { await m } catch { }\<close>\<close>

definition ignoring :: "unit rt \<Rightarrow> unit rt" where
  "ignoring m = bnd (attempt m) (\<lambda>_. ret ())"

fun each :: "('a \<Rightarrow> unit rt) \<Rightarrow> 'a list \<Rightarrow> unit rt" where
  "each f [] = ret ()"
| "each f (x # xs) = bnd (f x) (\<lambda>_. each f xs)"

section \<open>Awaits\<close>

definition others_run :: "env \<Rightarrow> world \<Rightarrow> world" where
  "others_run env w = w\<lparr>w_store := run_calls (e_others env (w_tick w)) (w_store w), w_tick := w_tick w + 1\<rparr>"

definition noted :: "action \<Rightarrow> world \<Rightarrow> world" where
  "noted a w = w\<lparr>w_trace := w_trace w @ [(a, w_store w)]\<rparr>"

definition stored :: "store_call \<Rightarrow> wstore \<Rightarrow> world \<Rightarrow> world" where
  "stored c s w = noted (Did c) (w\<lparr>w_store := s\<rparr>)"

text \<open>One transaction of the runtime; \<open>c\<close> takes the time stamp of its event drafts and \<open>g\<close> reads
  the records the method returns.\<close>

definition db :: "env \<Rightarrow> (string \<Rightarrow> store_call) \<Rightarrow> (wstore \<Rightarrow> 'a) \<Rightarrow> 'a rt" where
  "db env c g w =
    (if e_crash env (w_tick w) then (Unfinished, w)
     else let w1 = others_run env w; call = c (e_iso env (w_tick w))
          in case perform (e_db_iso env (w_tick w)) call (w_store w1) of
               Inl e \<Rightarrow> (Throws (StoreFailed e), noted (Refused call) w1)
             | Inr s \<Rightarrow> (Value (g s), stored call s w1))"

definition query :: "env \<Rightarrow> (wstore \<Rightarrow> 'a) \<Rightarrow> 'a rt" where
  "query env g w =
    (if e_crash env (w_tick w) then (Unfinished, w)
     else let w1 = others_run env w
          in if ws_closed (w_store w1) then (Throws (StoreFailed Closed), w1) else (Value (g (w_store w1)), w1))"

text \<open>A call of a client: it is noted when it is sent.\<close>

definition ext :: "env \<Rightarrow> action \<Rightarrow> (nat \<Rightarrow> rt_exn + 'a) \<Rightarrow> 'a rt" where
  "ext env a answer w =
    (if e_crash env (w_tick w) then (Unfinished, w)
     else let w1 = noted a (others_run env w)
          in case answer (w_tick w) of Inl e \<Rightarrow> (Throws e, w1) | Inr x \<Rightarrow> (Value x, w1))"

text \<open>A change of the runtime's own maps, noted, without an await.\<close>

definition own :: "action \<Rightarrow> (world \<Rightarrow> world) \<Rightarrow> unit rt" where
  "own a f w = (Value (), noted a (f w))"

definition stopped :: "env \<Rightarrow> world \<Rightarrow> bool" where
  "stopped env w = (w_stopped w \<or> e_stopped env (w_tick w))"

definition aborted :: "env \<Rightarrow> world \<Rightarrow> bool" where
  "aborted env w = e_aborted env (w_tick w)"

definition backoff :: "env \<Rightarrow> nat \<Rightarrow> unit rt" where
  "backoff env n = ext env (Slept (min (e_backoffBaseMs env * 2 ^ n) (e_backoffMaxMs env))) (\<lambda>_. Inr ())"

section \<open>Relational reasoning\<close>

text \<open>\<open>obeys R m\<close>: whatever the outcome, \<open>R\<close> relates the world before to the world after.\<close>

definition obeys :: "(world \<Rightarrow> world \<Rightarrow> bool) \<Rightarrow> 'a rt \<Rightarrow> bool" where
  "obeys R m = (\<forall>w. R w (snd (m w)))"

lemma obeysD: "obeys R m \<Longrightarrow> m w = (r, w') \<Longrightarrow> R w w'"
  by (metis obeys_def snd_conv)

lemma obeys_if: "(c \<Longrightarrow> obeys R m) \<Longrightarrow> (\<not> c \<Longrightarrow> obeys R m') \<Longrightarrow> obeys R (if c then m else m')"
  by simp

lemma obeys_option:
  "(x = None \<Longrightarrow> obeys R m) \<Longrightarrow> (\<And>y. x = Some y \<Longrightarrow> obeys R (f y)) \<Longrightarrow> obeys R (case x of None \<Rightarrow> m | Some y \<Rightarrow> f y)"
  by (cases x) auto

lemma obeys_sum:
  "(\<And>e. x = Inl e \<Longrightarrow> obeys R (f e)) \<Longrightarrow> (\<And>y. x = Inr y \<Longrightarrow> obeys R (g y)) \<Longrightarrow> obeys R (case x of Inl e \<Rightarrow> f e | Inr y \<Rightarrow> g y)"
  by (cases x) auto

lemma obeys_branch: "obeys R m \<Longrightarrow> obeys R m' \<Longrightarrow> obeys R (branch c m m')"
  by (simp add: obeys_def branch_def)

lemma obeys_attempt: "obeys R m \<Longrightarrow> obeys R (attempt m)"
  by (auto simp: obeys_def attempt_def split: prod.split outcome.split; metis snd_conv)

text \<open>A relation on worlds that every await of the runtime respects. \<open>seen\<close> says which entries of
  the trace the relation allows.\<close>

locale run_relation =
  fixes R :: "world \<Rightarrow> world \<Rightarrow> bool" and seen :: "action \<Rightarrow> wstore \<Rightarrow> bool"
  assumes R_refl: "R w w"
    and R_trans: "R u v \<Longrightarrow> R v w \<Longrightarrow> R u w"
    and R_others: "R w (others_run env w)"
    and R_noted: "seen a (w_store w) \<Longrightarrow> (\<And>c. a \<noteq> Did c) \<Longrightarrow> R w (noted a w)"
    and R_stored: "perform now c (w_store w) = Inr s \<Longrightarrow> seen (Did c) s \<Longrightarrow> R w (stored c s w)"
    and R_local: "R w (w\<lparr>w_stopped := st, w_pumps := ps, w_aborts := ab, w_timers := ti\<rparr>)"
begin

lemma obeys_ret: "obeys R (ret x)"
  by (simp add: obeys_def ret_def R_refl)

lemma obeys_raise: "obeys R (raise e)"
  by (simp add: obeys_def raise_def R_refl)

lemma obeys_unfinished: "obeys R unfinished"
  by (simp add: obeys_def unfinished_def R_refl)

lemma obeys_look: "obeys R (look f)"
  by (simp add: obeys_def look_def R_refl)

lemma obeys_bnd:
  assumes "obeys R m" and "\<And>x. obeys R (f x)"
  shows "obeys R (bnd m f)"
proof -
  have "R w (snd (bnd m f w))" for w
  proof (cases "m w")
    case (Pair r w')
    then have "R w w'" using assms(1) by (metis obeysD)
    moreover have "R w' (snd (f x w'))" for x using assms(2) by (simp add: obeys_def)
    ultimately show ?thesis using Pair by (cases r) (auto simp: bnd_def intro: R_trans)
  qed
  then show ?thesis by (simp add: obeys_def)
qed

lemma obeys_present: "obeys R (present x)"
  by (cases x) (simp_all add: present_def obeys_ret obeys_raise)

lemma obeys_ok_or_throw: "obeys R (ok_or_throw x)"
  by (cases x) (simp_all add: ok_or_throw_def obeys_ret obeys_raise)

lemma obeys_ignoring: "obeys R m \<Longrightarrow> obeys R (ignoring m)"
  unfolding ignoring_def by (intro obeys_bnd obeys_attempt obeys_ret)

lemma obeys_each: "(\<And>x. x \<in> set xs \<Longrightarrow> obeys R (f x)) \<Longrightarrow> obeys R (each f xs)"
  by (induction xs) (auto intro!: obeys_ret obeys_bnd)

lemma obeys_db:
  assumes "\<And>ts s. seen (Did (c ts)) s" and "\<And>ts s. seen (Refused (c ts)) s"
  shows "obeys R (db env c g)"
proof -
  have "R w (noted (Refused call) (others_run env w))" if "\<And>s. seen (Refused call) s" for w call
    using that by (intro R_trans [OF R_others R_noted]) auto
  moreover have "R w (stored call s (others_run env w))"
    if "perform now call (w_store (others_run env w)) = Inr s" "seen (Did call) s" for w call s now
    by (rule R_trans [OF R_others R_stored [OF that]])
  ultimately show ?thesis using assms by (auto simp: obeys_def db_def Let_def R_refl split: sum.split)
qed

lemma obeys_query: "obeys R (query env g)"
  by (simp add: obeys_def query_def Let_def R_refl R_others)

lemma obeys_ext:
  assumes "\<And>s. seen a s" and "\<And>c. a \<noteq> Did c"
  shows "obeys R (ext env a answer)"
proof -
  have "R w (noted a (others_run env w))" for w
    using assms by (intro R_trans [OF R_others R_noted]) auto
  then show ?thesis by (auto simp: obeys_def ext_def Let_def R_refl split: sum.split)
qed

lemma obeys_backoff: "(\<And>n s. seen (Slept n) s) \<Longrightarrow> obeys R (backoff env n)"
  unfolding backoff_def by (rule obeys_ext) auto

lemma obeys_own:
  assumes "\<And>s. seen a s" and "\<And>c. a \<noteq> Did c" and "\<And>w. R w (f w)"
  shows "obeys R (own a f)"
proof -
  have "R w (noted a (f w))" for w using assms by (intro R_trans [OF assms(3) R_noted]) auto
  then show ?thesis by (simp add: obeys_def own_def)
qed

lemmas obeys_rules = obeys_ret obeys_raise obeys_unfinished obeys_look obeys_bnd obeys_present obeys_ok_or_throw
  obeys_ignoring obeys_each obeys_query obeys_branch obeys_attempt obeys_if obeys_option obeys_sum

end

section \<open>Every run is a sequence of transactions\<close>

text \<open>\<open>moves w w'\<close>: the store of \<open>w'\<close> and the store at every new entry of the trace result from
  that of \<open>w\<close> by transactions, in this order.\<close>

definition after_calls :: "wstore \<Rightarrow> wstore \<Rightarrow> bool" where
  "after_calls s s' = (\<exists>cs. s' = run_calls cs s)"

definition moves :: "world \<Rightarrow> world \<Rightarrow> bool" where
  "moves w w' = (after_calls (w_store w) (w_store w') \<and> (\<exists>tr. w_trace w' = w_trace w @ tr \<and>
     (\<forall>(a, s)\<in>set tr. after_calls (w_store w) s \<and> after_calls s (w_store w'))))"

lemma after_calls_refl [simp]: "after_calls s s"
  by (auto simp: after_calls_def run_calls_def intro: exI [of _ "[]"])

lemma after_calls_run: "after_calls s (run_calls cs s)"
  by (auto simp: after_calls_def)

lemma after_calls_trans: "after_calls s t \<Longrightarrow> after_calls t u \<Longrightarrow> after_calls s u"
  by (auto simp: after_calls_def run_calls_def) (metis foldl_append)

lemma after_calls_perform: "perform now c s = Inr s' \<Longrightarrow> after_calls s s'"
  unfolding after_calls_def by (rule exI [of _ "[(now, c)]"]) (simp add: run_calls_def transact_def)

lemma moves_trans:
  assumes "moves u v" and "moves v w"
  shows "moves u w"
proof -
  obtain tr where tr: "w_trace v = w_trace u @ tr" "\<forall>(a, s)\<in>set tr. after_calls (w_store u) s \<and> after_calls s (w_store v)"
    using assms(1) by (auto simp: moves_def)
  obtain tr' where tr': "w_trace w = w_trace v @ tr'" "\<forall>(a, s)\<in>set tr'. after_calls (w_store v) s \<and> after_calls s (w_store w)"
    using assms(2) by (auto simp: moves_def)
  have "after_calls (w_store u) (w_store v)" "after_calls (w_store v) (w_store w)" using assms by (auto simp: moves_def)
  then have "\<forall>(a, s)\<in>set (tr @ tr'). after_calls (w_store u) s \<and> after_calls s (w_store w)"
    using tr(2) tr'(2) by (fastforce intro: after_calls_trans)
  then show ?thesis using tr(1) tr'(1) \<open>after_calls (w_store u) (w_store v)\<close> \<open>after_calls (w_store v) (w_store w)\<close>
    by (auto simp: moves_def intro: after_calls_trans)
qed

interpretation mv: run_relation moves "\<lambda>a s. True"
proof
  show "moves w w" for w by (simp add: moves_def)
  show "moves u w" if "moves u v" "moves v w" for u v w using that by (rule moves_trans)
  show "moves w (others_run env w)" for env w by (simp add: moves_def others_run_def after_calls_run)
  show "moves w (noted a w)" for a w by (simp add: moves_def noted_def)
  show "moves w (stored c s w)" if "perform now c (w_store w) = Inr s" for now c s w
    using after_calls_perform [OF that] by (simp add: moves_def stored_def noted_def)
  show "moves w (w\<lparr>w_stopped := st, w_pumps := ps, w_aborts := ab, w_timers := ti\<rparr>)" for w st ps ab ti by (simp add: moves_def)
qed

text \<open>\<open>emits Q w w'\<close>: every new entry of the trace satisfies \<open>Q\<close>.\<close>

definition emits :: "(action \<Rightarrow> wstore \<Rightarrow> bool) \<Rightarrow> world \<Rightarrow> world \<Rightarrow> bool" where
  "emits Q w w' = (\<exists>tr. w_trace w' = w_trace w @ tr \<and> (\<forall>(a, s)\<in>set tr. Q a s))"

interpretation em: run_relation "emits Q" Q
proof
  show "emits Q w w" for w by (simp add: emits_def)
  show "emits Q u w" if "emits Q u v" "emits Q v w" for u v w using that by (fastforce simp: emits_def)
  show "emits Q w (others_run env w)" for env w by (simp add: emits_def others_run_def)
  show "emits Q w (noted a w)" if "Q a (w_store w)" for a w using that by (simp add: emits_def noted_def)
  show "emits Q w (stored c s w)" if "Q (Did c) s" for c s w using that by (simp add: emits_def stored_def noted_def)
  show "emits Q w (w\<lparr>w_stopped := st, w_pumps := ps, w_aborts := ab, w_timers := ti\<rparr>)" for w st ps ab ti by (simp add: emits_def)
qed

end
