(* ===== verification/Conditions.thy ===== *)
theory Conditions
  imports Contract
begin

text \<open>
  Declarative edge conditions (\<open>src/workflow/conditions.ts\<close>): path parsing, the shape
  check the validator uses and the evaluator the runtime uses. A condition is a JSON
  object with \<open>path\<close>, \<open>op\<close> and \<open>value\<close>.
\<close>

datatype condition_path = OutputField string | WorkflowRound

definition parseConditionPath :: "string \<Rightarrow> condition_path option" where
  "parseConditionPath p =
    (if starts_with p ''output.'' \<and> is_ident (drop 7 p) then Some (OutputField (drop 7 p))
     else if p = ''workflow.round'' then Some WorkflowRound
     else None)"

definition checkConditionShape :: "jsval \<Rightarrow> string list" where
  "checkConditionShape c =
    (if \<not> isObj c then [''condition_not_object'']
     else
       (if \<not> isStr (fld c ''path'') \<or> parseConditionPath (str_of (fld c ''path'')) = None
        then [''condition_bad_path''] else []) @
       (if \<not> isStr (fld c ''op'') \<or> str_of (fld c ''op'') \<notin> set CONDITION_OPS
        then [''condition_unsupported_op'']
        else if fld c ''op'' = JStr ''exists''
        then (if fld c ''value'' \<noteq> JUndef then [''condition_exists_takes_no_value''] else [])
        else if fld c ''op'' = JStr ''in''
        then (if \<not> isArr (fld c ''value'') \<or> arr_of (fld c ''value'') = []
                 \<or> \<not> list_all isScalar (arr_of (fld c ''value''))
              then [''condition_in_needs_scalar_array''] else [])
        else (if \<not> isScalar (fld c ''value'') then [''condition_needs_scalar_value''] else [])) @
       concat (map (\<lambda>k. if k \<in> set [''path'', ''op'', ''value''] then [] else [''condition_unknown_field''])
                   (obj_keys c)))"

text \<open>The scope a condition is evaluated in: the source step's output and the round.\<close>

record condition_scope =
  scope_output :: jsval
  scope_round :: int

text \<open>\<open>{ found, value }\<close> of the source is \<open>Some value\<close> when found.\<close>

definition resolveConditionValue :: "string \<Rightarrow> condition_scope \<Rightarrow> jsval option" where
  "resolveConditionValue p scope = (case parseConditionPath p of
       None \<Rightarrow> None
     | Some WorkflowRound \<Rightarrow> Some (JNum (NInt (scope_round scope)))
     | Some (OutputField k) \<Rightarrow>
         (if has_own (scope_output scope) k then Some (fld (scope_output scope) k) else None))"

definition evaluateCondition :: "jsval \<Rightarrow> condition_scope \<Rightarrow> bool" where
  "evaluateCondition cond scope =
    (let r = resolveConditionValue (str_of (fld cond ''path'')) scope;
         op = fld cond ''op''
     in if op = JStr ''exists'' then (case r of None \<Rightarrow> False | Some v \<Rightarrow> v \<noteq> JUndef \<and> v \<noteq> JNull)
        else if op = JStr ''eq'' then (case r of None \<Rightarrow> False | Some v \<Rightarrow> strict_eq v (fld cond ''value''))
        else if op = JStr ''neq'' then \<not> (case r of None \<Rightarrow> False | Some v \<Rightarrow> strict_eq v (fld cond ''value''))
        else if op = JStr ''in'' then (case r of None \<Rightarrow> False
            | Some v \<Rightarrow> isArr (fld cond ''value'') \<and> js_includes (arr_of (fld cond ''value'')) v)
        else False)"

text \<open>The values an \<open>eq\<close> or \<open>in\<close> condition accepts.\<close>

definition condition_values :: "jsval \<Rightarrow> jsval list" where
  "condition_values cond =
    (if fld cond ''op'' = JStr ''in''
     then (if isArr (fld cond ''value'') then arr_of (fld cond ''value'') else [])
     else [fld cond ''value''])"

lemma parseConditionPath_output:
  "parseConditionPath p = Some (OutputField k) \<longleftrightarrow> p = ''output.'' @ k \<and> is_ident k"
  by (auto simp: parseConditionPath_def starts_with_iff split: if_splits)

lemma parseConditionPath_round:
  "parseConditionPath p = Some WorkflowRound \<longleftrightarrow> p = ''workflow.round''"
  by (auto simp: parseConditionPath_def starts_with_def split: if_splits)

text \<open>A condition that passes the shape check and uses \<open>eq\<close> or \<open>in\<close> holds exactly when the
  selected value is one of its values.\<close>

lemma evaluateCondition_eq_in:
  assumes "fld cond ''op'' = JStr ''eq'' \<or> fld cond ''op'' = JStr ''in''"
    and "evaluateCondition cond scope"
  obtains v w where "resolveConditionValue (str_of (fld cond ''path'')) scope = Some v"
    and "w \<in> set (condition_values cond)" and "same_value_zero w v"
  using assms that
  by (force simp: evaluateCondition_def Let_def condition_values_def js_includes_iff strict_eq_def
      split: option.splits intro: same_value_zero_sym)

lemma evaluateCondition_eq_in_iff:
  assumes "fld cond ''op'' = JStr ''eq'' \<or> fld cond ''op'' = JStr ''in''"
    and "resolveConditionValue (str_of (fld cond ''path'')) scope = Some v" and "v \<noteq> JNum NNaN"
  shows "evaluateCondition cond scope \<longleftrightarrow> (\<exists>w\<in>set (condition_values cond). same_value_zero w v)"
  using assms
  by (auto simp: evaluateCondition_def Let_def condition_values_def js_includes_iff strict_eq_def
      intro: same_value_zero_sym)

end
