(* ===== verification/Routing.thy ===== *)
theory Routing
  imports Conditions
begin

text \<open>
  Deterministic edge selection (\<open>src/workflow/routing.ts\<close>): after a step completes
  with validated output, exactly one outgoing edge is selected or routing fails with a
  structured code.
\<close>

record routing_decision =
  decision_terminal :: bool
  decision_target :: string
  decision_loop :: bool

datatype routing_error = RoutingNoEdge | RoutingAmbiguous

definition outgoing_edges :: "jsval \<Rightarrow> string \<Rightarrow> jsval list" where
  "outgoing_edges spec from_id = filter (\<lambda>e. fld e ''from'' = JStr from_id) (spec_edges spec)"

definition edge_decision :: "jsval \<Rightarrow> routing_decision" where
  "edge_decision e = \<lparr>decision_terminal = isTerminalTarget (str_of (fld e ''to'')),
     decision_target = str_of (fld e ''to''), decision_loop = (fld e ''kind'' = JStr ''loop'')\<rparr>"

definition selectEdge :: "jsval \<Rightarrow> string \<Rightarrow> jsval \<Rightarrow> int \<Rightarrow> routing_error + routing_decision" where
  "selectEdge spec from_id out round =
    (let outgoing = outgoing_edges spec from_id;
         scope = \<lparr>scope_output = out, scope_round = round\<rparr>;
         matched = filter (\<lambda>e. fld e ''condition'' \<noteq> JUndef \<and> evaluateCondition (fld e ''condition'') scope) outgoing;
         fallbacks = filter (\<lambda>e. fld e ''condition'' = JUndef) outgoing
     in if length matched > 1 then Inl RoutingAmbiguous
        else if length matched = 1 then Inr (edge_decision (hd matched))
        else if length fallbacks = 1 then Inr (edge_decision (hd fallbacks))
        else if length fallbacks > 1 then Inl RoutingAmbiguous
        else Inl RoutingNoEdge)"

text \<open>A selected edge is an outgoing edge of the step, and either its condition holds or it
  is the only unconditional edge and no condition holds.\<close>

lemma selectEdge_Inr:
  assumes "selectEdge spec from_id out round = Inr d"
  obtains e where "e \<in> set (outgoing_edges spec from_id)" and "d = edge_decision e"
    and "fld e ''condition'' \<noteq> JUndef \<longrightarrow>
         evaluateCondition (fld e ''condition'') \<lparr>scope_output = out, scope_round = round\<rparr>"
proof -
  let ?scope = "\<lparr>scope_output = out, scope_round = round\<rparr>"
  let ?out = "outgoing_edges spec from_id"
  let ?m = "filter (\<lambda>e. fld e ''condition'' \<noteq> JUndef \<and> evaluateCondition (fld e ''condition'') ?scope) ?out"
  let ?f = "filter (\<lambda>e. fld e ''condition'' = JUndef) ?out"
  from assms consider (m) "length ?m = 1" "d = edge_decision (hd ?m)"
    | (f) "length ?f = 1" "d = edge_decision (hd ?f)"
    by (auto simp: selectEdge_def Let_def split: if_splits)
  then show thesis
  proof cases
    case m
    then have "hd ?m \<in> set ?m" by (intro hd_in_set) auto
    then have "hd ?m \<in> set ?out" and "evaluateCondition (fld (hd ?m) ''condition'') ?scope" by auto
    with m(2) show thesis by (intro that) auto
  next
    case f
    then have "hd ?f \<in> set ?f" by (intro hd_in_set) auto
    then have "hd ?f \<in> set ?out" and "fld (hd ?f) ''condition'' = JUndef" by auto
    with f(2) show thesis by (intro that) auto
  qed
qed

end
