(* ===== verification/WorkflowGraph.thy ===== *)
theory WorkflowGraph
  imports Contract "HOL-Library.While_Combinator"
begin

text \<open>
  The graph algorithms of \<open>src/workflow/validator.ts\<close>: the reachability loop of
  \<open>analyzeGraph\<close>, \<open>findCycle\<close> and \<open>computeDominators\<close>. An adjacency map
  (\<open>Map<string, string[]>\<close>) is an association list; a missing key reads as \<open>[]\<close>
  (\<^const>\<open>map_list\<close>). The node type is left open.
\<close>

type_synonym 'a adj = "('a \<times> 'a list) list"

definition succs :: "'a adj \<Rightarrow> 'a \<Rightarrow> 'a set" where
  "succs adj u = set (map_list adj u)"

definition edges_of :: "'a adj \<Rightarrow> ('a \<times> 'a) set" where
  "edges_of adj = {(u, v). v \<in> succs adj u}"

lemma edges_of_iff [simp]: "(u, v) \<in> edges_of adj \<longleftrightarrow> v \<in> succs adj u"
  by (simp add: edges_of_def)

definition all_targets :: "'a adj \<Rightarrow> 'a list" where
  "all_targets adj = concat (map snd adj)"

lemma succs_targets: "succs adj u \<subseteq> set (all_targets adj)"
proof
  fix v
  assume "v \<in> succs adj u"
  then obtain vs where "map_of adj u = Some vs" "v \<in> set vs"
    by (cases "map_of adj u") (auto simp: succs_def map_list_def)
  then show "v \<in> set (all_targets adj)"
    by (force simp: all_targets_def dest: map_of_SomeD)
qed

section \<open>Reachability\<close>

text \<open>The inner \<open>for\<close>: unseen successors are added to the set and pushed.\<close>

definition push_new :: "'a list \<Rightarrow> 'a list \<Rightarrow> 'a list \<Rightarrow> 'a list \<times> 'a list" where
  "push_new reachable stack nexts =
    foldl (\<lambda>(r, st) nxt. if nxt \<in> set r then (r, st) else (r @ [nxt], st @ [nxt])) (reachable, stack) nexts"

lemma push_new_spec:
  "\<exists>news. push_new r st xs = (r @ news, st @ news) \<and> distinct news \<and> set news = set xs - set r"
proof (induction xs arbitrary: r st)
  case Nil
  then show ?case by (simp add: push_new_def)
next
  case (Cons x xs)
  show ?case
  proof (cases "x \<in> set r")
    case True
    then show ?thesis using Cons [of r st] by (auto simp: push_new_def)
  next
    case False
    from Cons [of "r @ [x]" "st @ [x]"] obtain news where
      "push_new (r @ [x]) (st @ [x]) xs = (r @ [x] @ news, st @ [x] @ news)"
      "distinct news" "set news = set xs - set (r @ [x])" by auto
    with False show ?thesis
      by (intro exI [of _ "x # news"]) (auto simp: push_new_def)
  qed
qed

function reach_loop :: "'a adj \<Rightarrow> 'a list \<Rightarrow> 'a list \<Rightarrow> 'a list" where
  "reach_loop adj reachable stack =
    (if stack = [] then reachable
     else case push_new reachable (butlast stack) (map_list adj (last stack)) of
       (r, st) \<Rightarrow> reach_loop adj r st)"
  by pat_completeness auto
termination
proof (relation "measure (\<lambda>(adj, r, st). card (set (all_targets adj) - set r) + length st)", goal_cases)
  case 1
  then show ?case by simp
next
  case (2 adj reachable stack)
  obtain news where n: "push_new reachable (butlast stack) (map_list adj (last stack))
      = (reachable @ news, butlast stack @ news)"
    "distinct news" "set news = set (map_list adj (last stack)) - set reachable"
    using push_new_spec [of reachable "butlast stack" "map_list adj (last stack)"] by auto
  let ?U = "set (all_targets adj) - set reachable"
  have sub: "set news \<subseteq> ?U"
    using n(3) succs_targets [of adj "last stack"] by (auto simp: succs_def)
  have "set (all_targets adj) - set (reachable @ news) = ?U - set news" by auto
  then have "card (set (all_targets adj) - set (reachable @ news)) = card ?U - length news"
    using sub by (simp add: card_Diff_subset distinct_card n(2))
  moreover have "length news \<le> card ?U"
    using sub by (metis card_mono distinct_card finite_Diff List.finite_set n(2))
  moreover have "stack \<noteq> []" using 2 by simp
  ultimately show ?case using 2 n(1) by (cases stack) auto
qed

declare reach_loop.simps [simp del]

lemma reach_loop_Nil: "reach_loop adj r [] = r"
  by (simp add: reach_loop.simps)

lemma reach_loop_step:
  "st \<noteq> [] \<Longrightarrow> push_new r (butlast st) (map_list adj (last st)) = (r', st') \<Longrightarrow>
    reach_loop adj r st = reach_loop adj r' st'"
  by (simp add: reach_loop.simps [of adj r st])

definition reachable_from :: "'a adj \<Rightarrow> 'a \<Rightarrow> 'a list" where
  "reachable_from adj entry = reach_loop adj [entry] [entry]"

lemma reach_loop_sound:
  "x \<in> set (reach_loop adj r st) \<Longrightarrow> set st \<subseteq> set r \<Longrightarrow> (\<exists>y\<in>set r. (y, x) \<in> (edges_of adj)\<^sup>*)"
proof (induction adj r st rule: reach_loop.induct)
  case (1 adj r st)
  show ?case
  proof (cases "st = []")
    case True
    with 1 show ?thesis by (auto simp: reach_loop_Nil)
  next
    case False
    obtain news where n: "push_new r (butlast st) (map_list adj (last st)) = (r @ news, butlast st @ news)"
      and s: "set news = set (map_list adj (last st)) - set r"
      using push_new_spec [of r "butlast st" "map_list adj (last st)"] by auto
    have "x \<in> set (reach_loop adj (r @ news) (butlast st @ news))"
      using "1.prems"(1) reach_loop_step [OF False n] by simp
    moreover have "set (butlast st @ news) \<subseteq> set (r @ news)"
      using "1.prems"(2) by (auto dest: in_set_butlastD)
    ultimately obtain y where y: "y \<in> set (r @ news)" "(y, x) \<in> (edges_of adj)\<^sup>*"
      using "1.IH" [OF False n [symmetric]] by blast
    show ?thesis
    proof (cases "y \<in> set r")
      case False
      with y s have "(last st, y) \<in> edges_of adj" by (auto simp: succs_def)
      moreover have "last st \<in> set r" using \<open>st \<noteq> []\<close> "1.prems"(2) by auto
      ultimately show ?thesis using y(2) by (meson converse_rtrancl_into_rtrancl)
    qed (use y in blast)
  qed
qed

lemma reach_loop_closed:
  assumes "\<forall>u\<in>set r. u \<in> set st \<or> succs adj u \<subseteq> set r"
  shows "set r \<subseteq> set (reach_loop adj r st) \<and>
    (\<forall>u\<in>set (reach_loop adj r st). succs adj u \<subseteq> set (reach_loop adj r st))"
  using assms
proof (induction adj r st rule: reach_loop.induct)
  case (1 adj r st)
  show ?case
  proof (cases "st = []")
    case True
    with 1 show ?thesis by (auto simp: reach_loop_Nil)
  next
    case False
    obtain news where n: "push_new r (butlast st) (map_list adj (last st)) = (r @ news, butlast st @ news)"
      and s: "set news = set (map_list adj (last st)) - set r"
      using push_new_spec [of r "butlast st" "map_list adj (last st)"] by auto
    have st: "set st = insert (last st) (set (butlast st))"
      using False by (metis append_butlast_last_id list.simps(15) rotate1.simps(2) set_rotate1)
    have "\<forall>u\<in>set (r @ news). u \<in> set (butlast st @ news) \<or> succs adj u \<subseteq> set (r @ news)"
      using "1.prems" s st by (auto simp: succs_def)
    from "1.IH" [OF False n [symmetric] this] show ?thesis
      unfolding reach_loop_step [OF False n] by simp
  qed
qed

lemma distinct_reach_loop: "distinct r \<Longrightarrow> distinct (reach_loop adj r st)"
proof (induction adj r st rule: reach_loop.induct)
  case (1 adj r st)
  show ?case
  proof (cases "st = []")
    case False
    obtain news where n: "push_new r (butlast st) (map_list adj (last st)) = (r @ news, butlast st @ news)"
      and "distinct news" "set news = set (map_list adj (last st)) - set r"
      using push_new_spec [of r "butlast st" "map_list adj (last st)"] by auto
    then have "distinct (r @ news)" using "1.prems" by auto
    from "1.IH" [OF False n [symmetric] this] show ?thesis
      unfolding reach_loop_step [OF False n] .
  qed (use 1 in \<open>simp add: reach_loop_Nil\<close>)
qed

lemma distinct_reachable_from: "distinct (reachable_from adj entry)"
  by (simp add: reachable_from_def distinct_reach_loop)

lemma entry_reachable: "entry \<in> set (reachable_from adj entry)"
  using reach_loop_closed [of "[entry]" "[entry]" adj] by (simp add: reachable_from_def)

lemma reachable_from_iff: "x \<in> set (reachable_from adj entry) \<longleftrightarrow> (entry, x) \<in> (edges_of adj)\<^sup>*"
proof
  assume "x \<in> set (reachable_from adj entry)"
  then show "(entry, x) \<in> (edges_of adj)\<^sup>*"
    using reach_loop_sound [of x adj "[entry]" "[entry]"] by (auto simp: reachable_from_def)
next
  have closed: "set [entry] \<subseteq> set (reachable_from adj entry)"
    "\<forall>u\<in>set (reachable_from adj entry). succs adj u \<subseteq> set (reachable_from adj entry)"
    using reach_loop_closed [of "[entry]" "[entry]" adj] by (auto simp: reachable_from_def)
  assume "(entry, x) \<in> (edges_of adj)\<^sup>*"
  then show "x \<in> set (reachable_from adj entry)"
    by (induction rule: rtrancl_induct) (use closed in auto)
qed

section \<open>Cycle detection\<close>

datatype node_color = WHITE | GRAY | BLACK

text \<open>
  The result of one \<open>dfs\<close> call: the cycle it returns, or the colouring it leaves when it
  returns \<open>null\<close> (\<open>path\<close> is then as it was at the call). The nested calls are bounded by
  fuel; \<open>findCycle_fuel\<close> below shows that one unit per node is enough.
\<close>

datatype 'a dfs_result = Cycle "'a list" | Clear "'a \<Rightarrow> node_color option"

definition slice_from :: "'a \<Rightarrow> 'a list \<Rightarrow> 'a list" where
  "slice_from v path = dropWhile (\<lambda>x. x \<noteq> v) path"

fun dfs :: "nat \<Rightarrow> 'a adj \<Rightarrow> ('a \<Rightarrow> node_color option) \<Rightarrow> 'a list \<Rightarrow> 'a \<Rightarrow> 'a dfs_result option"
  and dfs_edges :: "nat \<Rightarrow> 'a adj \<Rightarrow> ('a \<Rightarrow> node_color option) \<Rightarrow> 'a list \<Rightarrow> 'a list \<Rightarrow> 'a dfs_result option" where
  "dfs 0 adj color path u = None"
| "dfs (Suc n) adj color path u =
    (case dfs_edges n adj (color(u \<mapsto> GRAY)) (path @ [u]) (map_list adj u) of
       Some (Clear color') \<Rightarrow> Some (Clear (color'(u \<mapsto> BLACK)))
     | r \<Rightarrow> r)"
| "dfs_edges n adj color path [] = Some (Clear color)"
| "dfs_edges n adj color path (v # vs) =
    (if color v = Some GRAY then Some (Cycle (slice_from v path @ [v]))
     else if color v = Some WHITE then
       (case dfs n adj color path v of
          Some (Clear color') \<Rightarrow> dfs_edges n adj color' path vs
        | r \<Rightarrow> r)
     else dfs_edges n adj color path vs)"

text \<open>The final loop over the nodes.\<close>

fun dfs_roots :: "nat \<Rightarrow> 'a adj \<Rightarrow> ('a \<Rightarrow> node_color option) \<Rightarrow> 'a list \<Rightarrow> 'a dfs_result option" where
  "dfs_roots n adj color [] = Some (Clear color)"
| "dfs_roots n adj color (u # us) =
    (if color u = Some WHITE then
       (case dfs n adj color [] u of
          Some (Clear color') \<Rightarrow> dfs_roots n adj color' us
        | r \<Rightarrow> r)
     else dfs_roots n adj color us)"

definition all_white :: "'a list \<Rightarrow> 'a \<Rightarrow> node_color option" where
  "all_white nodes = (\<lambda>n. if n \<in> set nodes then Some WHITE else None)"

definition findCycle :: "'a list \<Rightarrow> 'a adj \<Rightarrow> 'a list option" where
  "findCycle nodes adj = (case dfs_roots (length nodes) adj (all_white nodes) nodes of
       Some (Cycle c) \<Rightarrow> Some c
     | _ \<Rightarrow> None)"

definition colored :: "('a \<Rightarrow> node_color option) \<Rightarrow> node_color \<Rightarrow> 'a set" where
  "colored color c = {x. color x = Some c}"

definition dfs_inv :: "'a adj \<Rightarrow> 'a set \<Rightarrow> ('a \<Rightarrow> node_color option) \<Rightarrow> 'a list \<Rightarrow> bool" where
  "dfs_inv adj N color path \<longleftrightarrow>
    dom color = N \<and> colored color GRAY = set path \<and>
    (\<forall>u\<in>colored color BLACK. succs adj u \<subseteq> colored color BLACK) \<and>
    acyclic (edges_of adj \<inter> (colored color BLACK \<times> UNIV)) \<and>
    successively (\<lambda>x y. y \<in> succs adj x) path"

text \<open>What a call that returns \<open>null\<close> leaves: nothing turns white, grey nodes stay grey, black
  nodes stay black.\<close>

definition dfs_grows :: "('a \<Rightarrow> node_color option) \<Rightarrow> ('a \<Rightarrow> node_color option) \<Rightarrow> bool" where
  "dfs_grows color color' \<longleftrightarrow>
    colored color' GRAY = colored color GRAY \<and> colored color BLACK \<subseteq> colored color' BLACK \<and>
    colored color' WHITE \<subseteq> colored color WHITE"

lemma dfs_grows_refl [simp]: "dfs_grows color color"
  by (simp add: dfs_grows_def)

lemma dfs_grows_trans: "dfs_grows a b \<Longrightarrow> dfs_grows b c \<Longrightarrow> dfs_grows a c"
  by (auto simp: dfs_grows_def)

definition is_cycle :: "'a adj \<Rightarrow> 'a list \<Rightarrow> bool" where
  "is_cycle adj c \<longleftrightarrow> length c \<ge> 2 \<and> hd c = last c \<and> successively (\<lambda>x y. y \<in> succs adj x) c"

lemma acyclic_add_source:
  assumes "acyclic (E \<inter> (B \<times> UNIV))" and "\<forall>b\<in>B. E `` {b} \<subseteq> B" and "u \<notin> B" and "E `` {u} \<subseteq> B"
  shows "acyclic (E \<inter> (insert u B \<times> UNIV))"
proof -
  let ?R = "E \<inter> (insert u B \<times> UNIV)"
  have into: "b \<in> B" if "(a, b) \<in> ?R\<^sup>+" for a b
    using that by (induction rule: trancl_induct) (use assms in auto)
  have stay: "(a, b) \<in> (E \<inter> (B \<times> UNIV))\<^sup>+" if "(a, b) \<in> ?R\<^sup>+" "a \<in> B" for a b
    using that
  proof (induction rule: trancl_induct)
    case (base y)
    then show ?case by auto
  next
    case (step y z)
    then have "y \<in> B" using into by blast
    with step have "(y, z) \<in> E \<inter> (B \<times> UNIV)" by auto
    with step show ?case by (meson trancl_into_trancl)
  qed
  show ?thesis
    unfolding acyclic_def using into stay assms(1) by (metis acyclic_def)
qed

lemma is_cycle_slice:
  assumes "v \<in> set path" and "successively (\<lambda>x y. y \<in> succs adj x) path" and "v \<in> succs adj (last path)"
  shows "is_cycle adj (slice_from v path @ [v])"
proof -
  let ?s = "slice_from v path"
  have split: "path = takeWhile (\<lambda>x. x \<noteq> v) path @ ?s" by (simp add: slice_from_def)
  have ne: "?s \<noteq> []" using assms(1) by (auto simp: slice_from_def dropWhile_eq_Nil_conv)
  then have "hd ?s = v" using hd_dropWhile [of "\<lambda>x. x \<noteq> v" path] by (simp add: slice_from_def)
  moreover have "last ?s = last path" using split ne by (metis last_appendR)
  moreover have "successively (\<lambda>x y. y \<in> succs adj x) ?s"
    using assms(2) split by (metis successively_append_iff)
  ultimately have "successively (\<lambda>x y. y \<in> succs adj x) (?s @ [v])" and "hd ?s = v"
    using assms(3) by (simp_all add: successively_append_iff)
  then show ?thesis using ne by (cases ?s) (simp_all add: is_cycle_def)
qed

lemma colored_upd:
  "colored (color(u \<mapsto> c)) d = (if c = d then insert u (colored color d) else colored color d - {u})"
  by (auto simp: colored_def)

definition dfs_post ::
  "'a adj \<Rightarrow> 'a set \<Rightarrow> ('a \<Rightarrow> node_color option) \<Rightarrow> 'a list \<Rightarrow> 'a set \<Rightarrow> 'a dfs_result option \<Rightarrow> bool" where
  "dfs_post adj N color path done_nodes r = (case r of
      None \<Rightarrow> False
    | Some (Cycle c) \<Rightarrow> is_cycle adj c
    | Some (Clear color') \<Rightarrow>
        dfs_inv adj N color' path \<and> dfs_grows color color' \<and> done_nodes \<subseteq> colored color' BLACK)"

lemma dfs_inv_gray: "dfs_inv adj N color path \<Longrightarrow> color u = Some GRAY \<longleftrightarrow> u \<in> set path"
  by (auto simp: dfs_inv_def colored_def)

lemma dfs_inv_finite_white: "dfs_inv adj N color path \<Longrightarrow> finite N \<Longrightarrow> finite (colored color WHITE)"
  by (auto simp: dfs_inv_def colored_def intro: finite_subset [of _ N])

lemma dfs_enter:
  assumes "dfs_inv adj N color path" and "color u = Some WHITE" and "path = [] \<or> u \<in> succs adj (last path)"
  shows "dfs_inv adj N (color(u \<mapsto> GRAY)) (path @ [u])"
proof -
  have "u \<notin> colored color BLACK" using assms(2) by (simp add: colored_def)
  then have "colored (color(u \<mapsto> GRAY)) BLACK = colored color BLACK" by (simp add: colored_upd)
  with assms show ?thesis
    by (auto simp: dfs_inv_def colored_upd successively_append_iff)
qed

lemma dfs_leave:
  assumes inv: "dfs_inv adj N color (path @ [u])" and "u \<notin> set path" and succ: "succs adj u \<subseteq> colored color BLACK"
  shows "dfs_inv adj N (color(u \<mapsto> BLACK)) path"
proof -
  let ?B = "colored color BLACK"
  have "u \<in> colored color GRAY" using inv by (simp add: dfs_inv_def)
  then have u: "color u = Some GRAY" by (simp add: colored_def)
  then have "u \<notin> ?B" by (simp add: colored_def)
  then have "acyclic (edges_of adj \<inter> (insert u ?B \<times> UNIV))"
    using inv succ by (intro acyclic_add_source) (fastforce simp: dfs_inv_def)+
  with assms u show ?thesis
    by (auto simp: dfs_inv_def colored_upd successively_append_iff)
qed

lemma dfs_correct:
  assumes fin: "finite N" and closed: "\<forall>u. succs adj u \<subseteq> N"
  shows dfs_call: "dfs_inv adj N color path \<Longrightarrow> color u = Some WHITE \<Longrightarrow>
      path = [] \<or> u \<in> succs adj (last path) \<Longrightarrow> card (colored color WHITE) \<le> n \<Longrightarrow>
      dfs_post adj N color path {u} (dfs n adj color path u)"
    and dfs_loop: "dfs_inv adj N color path \<Longrightarrow> path \<noteq> [] \<Longrightarrow> set vs \<subseteq> succs adj (last path) \<Longrightarrow>
      card (colored color WHITE) \<le> n \<Longrightarrow>
      dfs_post adj N color path (set vs) (dfs_edges n adj color path vs)"
  using closed
proof (induction n adj color path u and n adj color path vs rule: dfs_dfs_edges.induct)
  case (1 adj color path u)
  have "finite (colored color WHITE)" using 1 fin dfs_inv_finite_white by blast
  moreover have "u \<in> colored color WHITE" using 1 by (simp add: colored_def)
  ultimately show ?case using 1 by auto
next
  case (2 n adj color path u)
  let ?c = "color(u \<mapsto> GRAY)"
  have u: "u \<in> colored color WHITE" "u \<notin> set path"
    using 2(3) dfs_inv_gray [OF 2(2), of u] by (auto simp: colored_def)
  have "finite (colored color WHITE)" using 2(2) fin dfs_inv_finite_white by blast
  then have "card (colored ?c WHITE) \<le> n" using u 2(5) by (simp add: colored_upd)
  then have post: "dfs_post adj N ?c (path @ [u]) (set (map_list adj u)) (dfs_edges n adj ?c (path @ [u]) (map_list adj u))"
    by (intro "2.IH" [OF dfs_enter [OF 2(2-4)] _ _ _ 2(6)]) (simp_all add: succs_def fun_upd_def)
  show ?case
  proof (cases "\<exists>c'. dfs_edges n adj ?c (path @ [u]) (map_list adj u) = Some (Clear c')")
    case True
    then obtain c' where c': "dfs_edges n adj ?c (path @ [u]) (map_list adj u) = Some (Clear c')" by blast
    with post have q: "dfs_inv adj N c' (path @ [u])" "dfs_grows ?c c'" "succs adj u \<subseteq> colored c' BLACK"
      by (auto simp: dfs_post_def succs_def)
    have "u \<notin> colored color GRAY" "u \<notin> colored color BLACK" using 2(3) by (simp_all add: colored_def)
    then have "dfs_grows color (c'(u \<mapsto> BLACK))"
      using q(2) unfolding dfs_grows_def colored_upd by (auto split: if_splits)
    with dfs_leave [OF q(1) u(2) q(3)] c' show ?thesis by (simp add: dfs_post_def colored_upd)
  next
    case False
    with post show ?thesis
      by (auto simp: dfs_post_def split: option.splits dfs_result.splits)
  qed
next
  case (3 n adj color path)
  then show ?case by (simp add: dfs_post_def)
next
  case (4 n adj color path v vs)
  have "v \<in> dom color" using "4.prems" by (auto simp: dfs_inv_def)
  then obtain c where "color v = Some c" by blast
  then consider (gray) "color v = Some GRAY" | (white) "color v = Some WHITE" | (black) "color v = Some BLACK"
    by (cases c) auto
  then show ?case
  proof cases
    case gray
    then have "v \<in> set path" using 4(4) by (simp add: dfs_inv_gray)
    then show ?thesis
      using gray is_cycle_slice [of v path adj] "4.prems" by (auto simp: dfs_post_def dfs_inv_def)
  next
    case white
    have post: "dfs_post adj N color path {v} (dfs n adj color path v)"
      using white "4.prems" by (intro "4.IH"(1)) auto
    show ?thesis
    proof (cases "\<exists>c'. dfs n adj color path v = Some (Clear c')")
      case True
      then obtain c' where c': "dfs n adj color path v = Some (Clear c')" by blast
      with post have q: "dfs_inv adj N c' path" "dfs_grows color c'" "v \<in> colored c' BLACK"
        by (auto simp: dfs_post_def)
      have "finite (colored color WHITE)" using 4(4) fin dfs_inv_finite_white by blast
      then have "card (colored c' WHITE) \<le> n"
        using q(2) 4(7) card_mono [of "colored color WHITE" "colored c' WHITE"] by (auto simp: dfs_grows_def)
      then have "dfs_post adj N c' path (set vs) (dfs_edges n adj c' path vs)"
        using white c' q "4.prems" by (intro "4.IH"(2)) auto
      then show ?thesis
        using white c' q by (auto simp: dfs_post_def dfs_grows_def split: option.splits dfs_result.splits)
    next
      case False
      with post white show ?thesis
        by (auto simp: dfs_post_def split: option.splits dfs_result.splits)
    qed
  next
    case black
    have "dfs_post adj N color path (set vs) (dfs_edges n adj color path vs)"
      using black "4.prems" by (intro "4.IH"(3)) auto
    then show ?thesis
      using black by (auto simp: dfs_post_def dfs_grows_def colored_def split: option.splits dfs_result.splits)
  qed
qed

lemma dfs_roots_correct:
  assumes "finite N" and "\<forall>u. succs adj u \<subseteq> N"
  shows "dfs_inv adj N color [] \<Longrightarrow> card (colored color WHITE) \<le> n \<Longrightarrow> set us \<subseteq> N \<Longrightarrow>
    dfs_post adj N color [] (set us) (dfs_roots n adj color us)"
proof (induction us arbitrary: color)
  case Nil
  then show ?case by (simp add: dfs_post_def)
next
  case (Cons u us)
  show ?case
  proof (cases "color u = Some WHITE")
    case True
    have post: "dfs_post adj N color [] {u} (dfs n adj color [] u)"
      using dfs_call [OF assms Cons.prems(1) True _ Cons.prems(2)] by simp
    show ?thesis
    proof (cases "\<exists>c'. dfs n adj color [] u = Some (Clear c')")
      case ex: True
      then obtain c' where c': "dfs n adj color [] u = Some (Clear c')" by blast
      with post have q: "dfs_inv adj N c' []" "dfs_grows color c'" "u \<in> colored c' BLACK"
        by (auto simp: dfs_post_def)
      have "finite (colored color WHITE)" using Cons.prems(1) assms(1) dfs_inv_finite_white by blast
      then have "card (colored c' WHITE) \<le> n"
        using q(2) Cons.prems(2) card_mono [of "colored color WHITE" "colored c' WHITE"] by (auto simp: dfs_grows_def)
      then have "dfs_post adj N c' [] (set us) (dfs_roots n adj c' us)"
        using Cons q by auto
      then show ?thesis
        using True c' q by (auto simp: dfs_post_def dfs_grows_def split: option.splits dfs_result.splits)
    next
      case False
      with post True show ?thesis
        by (auto simp: dfs_post_def split: option.splits dfs_result.splits)
    qed
  next
    case False
    have "u \<in> dom color" using Cons.prems by (auto simp: dfs_inv_def)
    then obtain c where c: "color u = Some c" by blast
    with False dfs_inv_gray [OF Cons.prems(1), of u] have "c = BLACK" by (cases c) auto
    moreover have "dfs_post adj N color [] (set us) (dfs_roots n adj color us)" using Cons by auto
    ultimately show ?thesis
      using c by (auto simp: dfs_post_def dfs_grows_def colored_def split: option.splits dfs_result.splits)
  qed
qed

lemma dfs_inv_start: "dfs_inv adj (set nodes) (all_white nodes) []"
proof -
  have "colored (all_white nodes) BLACK = {}" "colored (all_white nodes) GRAY = {}"
    by (auto simp: colored_def all_white_def)
  then show ?thesis by (auto simp: dfs_inv_def all_white_def dom_def acyclic_def)
qed

lemma dfs_roots_start:
  assumes "\<forall>u. succs adj u \<subseteq> set nodes"
  shows "dfs_post adj (set nodes) (all_white nodes) [] (set nodes)
    (dfs_roots (length nodes) adj (all_white nodes) nodes)"
proof (rule dfs_roots_correct [OF _ assms dfs_inv_start])
  have "colored (all_white nodes) WHITE = set nodes" by (auto simp: colored_def all_white_def)
  then show "card (colored (all_white nodes) WHITE) \<le> length nodes" by (simp add: card_length)
qed auto

text \<open>The fuel is enough: the search always ends with a cycle or a colouring.\<close>

lemma findCycle_fuel:
  assumes "\<forall>u. succs adj u \<subseteq> set nodes"
  shows "dfs_roots (length nodes) adj (all_white nodes) nodes \<noteq> None"
  using dfs_roots_start [OF assms] by (auto simp: dfs_post_def split: option.splits)

lemma findCycle_sound:
  assumes "\<forall>u. succs adj u \<subseteq> set nodes" and "findCycle nodes adj = Some c"
  shows "is_cycle adj c"
  using dfs_roots_start [OF assms(1)] assms(2)
  by (auto simp: findCycle_def dfs_post_def split: option.splits dfs_result.splits)

lemma findCycle_None:
  assumes closed: "\<forall>u. succs adj u \<subseteq> set nodes" and sources: "\<forall>u. succs adj u \<noteq> {} \<longrightarrow> u \<in> set nodes"
    and none: "findCycle nodes adj = None"
  shows "acyclic (edges_of adj)"
proof -
  obtain color' where c: "dfs_roots (length nodes) adj (all_white nodes) nodes = Some (Clear color')"
    using none findCycle_fuel [OF closed] by (auto simp: findCycle_def split: dfs_result.splits option.splits)
  with dfs_roots_start [OF closed] have "dfs_inv adj (set nodes) color' []" "set nodes \<subseteq> colored color' BLACK"
    by (auto simp: dfs_post_def)
  then have "acyclic (edges_of adj \<inter> (colored color' BLACK \<times> UNIV))" by (simp add: dfs_inv_def)
  moreover have "edges_of adj \<inter> (colored color' BLACK \<times> UNIV) = edges_of adj"
    using sources \<open>set nodes \<subseteq> colored color' BLACK\<close> by fastforce
  ultimately show ?thesis by simp
qed

lemma successively_rtrancl:
  "successively (\<lambda>x y. y \<in> succs adj x) (x # xs) \<Longrightarrow> (x, last (x # xs)) \<in> (edges_of adj)\<^sup>*"
proof (induction xs arbitrary: x)
  case (Cons y ys)
  then have "(x, y) \<in> edges_of adj" and "(y, last (y # ys)) \<in> (edges_of adj)\<^sup>*" by auto
  then show ?case by (simp add: converse_rtrancl_into_rtrancl)
qed simp

lemma is_cycle_not_acyclic: "is_cycle adj c \<Longrightarrow> \<not> acyclic (edges_of adj)"
proof -
  assume c: "is_cycle adj c"
  then obtain x y zs where xyz: "c = x # y # zs"
    by (cases c rule: remdups_adj.cases) (auto simp: is_cycle_def)
  with c have "(x, y) \<in> edges_of adj" "(y, x) \<in> (edges_of adj)\<^sup>*"
    using successively_rtrancl [of adj y zs] by (auto simp: is_cycle_def)
  then show ?thesis by (meson acyclic_def rtrancl_into_trancl2)
qed

lemma findCycle_None_iff:
  assumes "\<forall>u. succs adj u \<subseteq> set nodes" and "\<forall>u. succs adj u \<noteq> {} \<longrightarrow> u \<in> set nodes"
  shows "findCycle nodes adj = None \<longleftrightarrow> acyclic (edges_of adj)"
  using findCycle_None [OF assms] findCycle_sound [OF assms(1)] is_cycle_not_acyclic
  by (metis not_None_eq)

section \<open>Dominators\<close>

type_synonym 'a doms = "'a \<Rightarrow> 'a list"

text \<open>\<open>preds\<close>: the sources, in the order of the adjacency map, of the edges into a node, both
  ends reachable.\<close>

definition preds_of :: "'a list \<Rightarrow> 'a adj \<Rightarrow> 'a \<Rightarrow> 'a list" where
  "preds_of reachable adj n =
    concat (map (\<lambda>(u, vs). if u \<in> set reachable then map (\<lambda>_. u) (filter (\<lambda>v. v = n) vs) else []) adj)"

text \<open>\<open>inter\<close>: the members of the first predecessor's set that every other one has.\<close>

fun intersect_doms :: "'a doms \<Rightarrow> 'a list \<Rightarrow> 'a list" where
  "intersect_doms dm [] = []"
| "intersect_doms dm (p # ps) = foldl (\<lambda>acc q. filter (\<lambda>x. x \<in> set (dm q)) acc) (dm p) ps"

definition next_dom :: "('a \<Rightarrow> 'a list) \<Rightarrow> 'a doms \<Rightarrow> 'a \<Rightarrow> 'a list" where
  "next_dom preds dm n = set_add n (intersect_doms dm (preds n))"

definition differs :: "'a list \<Rightarrow> 'a list \<Rightarrow> bool" where
  "differs nxt cur = (length nxt \<noteq> length cur \<or> list_ex (\<lambda>x. x \<notin> set cur) nxt)"

definition dom_visit :: "'a \<Rightarrow> ('a \<Rightarrow> 'a list) \<Rightarrow> 'a doms \<times> bool \<Rightarrow> 'a \<Rightarrow> 'a doms \<times> bool" where
  "dom_visit entry preds st n = (case st of (dm, changed) \<Rightarrow>
    if n = entry then (dm, changed)
    else let nxt = next_dom preds dm n
         in if differs nxt (dm n) then (dm(n := nxt), True) else (dm, changed))"

definition dom_pass :: "'a \<Rightarrow> ('a \<Rightarrow> 'a list) \<Rightarrow> 'a list \<Rightarrow> 'a doms \<Rightarrow> 'a doms \<times> bool" where
  "dom_pass entry preds nodes dm = foldl (dom_visit entry preds) (dm, False) nodes"

definition dom_start :: "'a \<Rightarrow> 'a list \<Rightarrow> 'a doms" where
  "dom_start entry nodes = (\<lambda>n. if n = entry then [entry] else nodes)"

text \<open>The \<open>while (changed)\<close> loop; \<open>computeDominators_returns\<close> shows that it ends.\<close>

definition computeDominators :: "'a \<Rightarrow> 'a list \<Rightarrow> 'a adj \<Rightarrow> 'a doms option" where
  "computeDominators entry reachable adj =
    map_option fst (while_option snd (\<lambda>(dm, _). dom_pass entry (preds_of reachable adj) reachable dm)
      (dom_start entry reachable, True))"

lemma set_intersect_doms:
  "ps \<noteq> [] \<Longrightarrow> set (intersect_doms dm ps) = (\<Inter>p\<in>set ps. set (dm p))"
proof (cases ps)
  case (Cons p qs)
  have "set (foldl (\<lambda>acc q. filter (\<lambda>x. x \<in> set (dm q)) acc) xs qs) = set xs \<inter> (\<Inter>q\<in>set qs. set (dm q))" for xs
    by (induction qs arbitrary: xs) auto
  with Cons show ?thesis by auto
qed simp

lemma distinct_intersect_doms:
  "(\<And>p. p \<in> set ps \<Longrightarrow> distinct (dm p)) \<Longrightarrow> distinct (intersect_doms dm ps)"
proof (cases ps)
  case (Cons p qs)
  assume "\<And>p. p \<in> set ps \<Longrightarrow> distinct (dm p)"
  moreover have "distinct xs \<Longrightarrow> distinct (foldl (\<lambda>acc q. filter (\<lambda>x. x \<in> set (dm q)) acc) xs qs)" for xs
    by (induction qs arbitrary: xs) auto
  ultimately show ?thesis using Cons by simp
qed simp

text \<open>The sets a node's next set is built from, whatever the predecessors are.\<close>

definition meet :: "('a \<Rightarrow> 'a set) \<Rightarrow> 'a list \<Rightarrow> 'a set" where
  "meet D ps = (if ps = [] then {} else (\<Inter>p\<in>set ps. D p))"

lemma set_next_dom: "set (next_dom preds dm n) = insert n (meet (\<lambda>p. set (dm p)) (preds n))"
  by (simp add: next_dom_def meet_def set_intersect_doms)

lemma meet_mono: "(\<And>p. p \<in> set ps \<Longrightarrow> D p \<subseteq> D' p) \<Longrightarrow> meet D ps \<subseteq> meet D' ps"
  by (auto simp: meet_def)

locale dominance =
  fixes entry :: 'a and nodes :: "'a list" and preds :: "'a \<Rightarrow> 'a list"
  assumes entry_node: "entry \<in> set nodes"
    and nodes_distinct: "distinct nodes"
    and preds_nodes: "set (preds n) \<subseteq> set nodes"
begin

definition shrinking :: "'a doms \<Rightarrow> bool" where
  "shrinking dm \<longleftrightarrow> dm entry = [entry] \<and>
    (\<forall>n\<in>set nodes. distinct (dm n) \<and> set (dm n) \<subseteq> set nodes \<and>
       (n \<noteq> entry \<longrightarrow> set (next_dom preds dm n) \<subseteq> set (dm n)))"

text \<open>Any family of sets that the equations bound from above stays below the computed one.\<close>

definition bounded_by_preds :: "('a \<Rightarrow> 'a set) \<Rightarrow> bool" where
  "bounded_by_preds D \<longleftrightarrow> D entry \<subseteq> {entry} \<and>
    (\<forall>n\<in>set nodes. D n \<subseteq> set nodes \<and> (n \<noteq> entry \<longrightarrow> D n \<subseteq> insert n (meet D (preds n))))"

definition below :: "('a \<Rightarrow> 'a set) \<Rightarrow> 'a doms \<Rightarrow> bool" where
  "below D dm \<longleftrightarrow> (\<forall>n\<in>set nodes. D n \<subseteq> set (dm n))"

definition solved :: "'a list \<Rightarrow> 'a doms \<Rightarrow> bool" where
  "solved ns dm \<longleftrightarrow> (\<forall>n\<in>set ns. n \<noteq> entry \<longrightarrow> set (next_dom preds dm n) = set (dm n))"

definition weight :: "'a doms \<Rightarrow> nat" where
  "weight dm = sum_list (map (\<lambda>n. length (dm n)) nodes)"

lemma shrinking_start: "shrinking (dom_start entry nodes)"
proof -
  have "set (dom_start entry nodes p) \<subseteq> set nodes" for p
    using entry_node by (simp add: dom_start_def)
  then have "meet (\<lambda>p. set (dom_start entry nodes p)) ps \<subseteq> set nodes" for ps
    by (cases ps) (auto simp: meet_def)
  then show ?thesis
    using nodes_distinct entry_node
    by (auto simp: shrinking_def set_next_dom dom_start_def)
qed

lemma differs_iff:
  assumes "shrinking dm" and "n \<in> set nodes" and "n \<noteq> entry"
  shows "differs (next_dom preds dm n) (dm n) \<longleftrightarrow> set (next_dom preds dm n) \<noteq> set (dm n)"
    and "differs (next_dom preds dm n) (dm n) \<Longrightarrow> length (next_dom preds dm n) < length (dm n)"
proof -
  let ?n = "next_dom preds dm n"
  have sub: "set ?n \<subseteq> set (dm n)" and d: "distinct (dm n)" using assms by (auto simp: shrinking_def)
  have "distinct (dm p)" if "p \<in> set (preds n)" for p
    using assms that preds_nodes [of n] by (auto simp: shrinking_def)
  then have dn: "distinct ?n" by (simp add: next_dom_def distinct_intersect_doms)
  have len: "length ?n = card (set ?n)" "length (dm n) = card (set (dm n))"
    using d dn by (simp_all add: distinct_card)
  show "differs ?n (dm n) \<longleftrightarrow> set ?n \<noteq> set (dm n)"
    using sub len by (auto simp: differs_def list_ex_iff) (metis card_subset_eq List.finite_set)
  then show "differs ?n (dm n) \<Longrightarrow> length ?n < length (dm n)"
    using sub len by (metis List.finite_set psubsetI psubset_card_mono)
qed

lemma weight_upd:
  assumes "n \<in> set nodes" and "length xs < length (dm n)"
  shows "weight (dm(n := xs)) < weight dm"
proof -
  obtain as bs where ab: "nodes = as @ n # bs" using assms(1) by (meson split_list)
  with nodes_distinct have "n \<notin> set as" "n \<notin> set bs" by auto
  then have "sum_list (map (\<lambda>m. length ((dm(n := xs)) m)) as) = sum_list (map (\<lambda>m. length (dm m)) as)"
    "sum_list (map (\<lambda>m. length ((dm(n := xs)) m)) bs) = sum_list (map (\<lambda>m. length (dm m)) bs)"
    by (auto intro!: arg_cong [where f = sum_list] map_cong)
  then show ?thesis using assms(2) unfolding weight_def by (simp add: ab)
qed

lemma shrinking_upd:
  assumes "shrinking dm" and "n \<in> set nodes" and "n \<noteq> entry"
  shows "shrinking (dm(n := next_dom preds dm n))"
proof -
  let ?dm = "dm(n := next_dom preds dm n)"
  have le: "set (?dm p) \<subseteq> set (dm p)" for p using assms by (auto simp: shrinking_def)
  have "set (next_dom preds ?dm m) \<subseteq> set (next_dom preds dm m)" for m
    unfolding set_next_dom using meet_mono [of "preds m" "\<lambda>p. set (?dm p)" "\<lambda>p. set (dm p)"] le by blast
  moreover have "distinct (next_dom preds dm n)"
    using assms preds_nodes [of n] by (auto simp: next_dom_def shrinking_def intro: distinct_intersect_doms)
  ultimately show ?thesis
    using assms unfolding shrinking_def by (simp add: subset_iff)
qed

lemma below_upd:
  assumes "below D dm" and "bounded_by_preds D" and "n \<in> set nodes" and "n \<noteq> entry"
  shows "below D (dm(n := next_dom preds dm n))"
proof -
  have "D p \<subseteq> set (dm p)" if "p \<in> set (preds n)" for p
    using assms(1) that preds_nodes [of n] by (auto simp: below_def)
  then have "meet D (preds n) \<subseteq> meet (\<lambda>p. set (dm p)) (preds n)" by (rule meet_mono)
  moreover have "D n \<subseteq> insert n (meet D (preds n))" using assms by (simp add: bounded_by_preds_def)
  ultimately have "D n \<subseteq> set (next_dom preds dm n)" unfolding set_next_dom by blast
  with assms(1) show ?thesis by (simp add: below_def)
qed

lemma dom_visit_cases:
  assumes "shrinking dm" and "n \<in> set nodes"
  obtains (same) "dom_visit entry preds (dm, ch) n = (dm, ch)" and "solved [n] dm"
  | (less) dm' where "dom_visit entry preds (dm, ch) n = (dm', True)" and "shrinking dm'"
      and "weight dm' < weight dm" and "\<And>D. below D dm \<Longrightarrow> bounded_by_preds D \<Longrightarrow> below D dm'"
proof (cases "n = entry \<or> \<not> differs (next_dom preds dm n) (dm n)")
  case True
  then show ?thesis
    using differs_iff(1) [OF assms] by (intro same) (auto simp: dom_visit_def Let_def solved_def)
next
  case False
  then have "dom_visit entry preds (dm, ch) n = (dm(n := next_dom preds dm n), True)"
    by (simp add: dom_visit_def Let_def)
  then show ?thesis
  proof (rule less)
    show "shrinking (dm(n := next_dom preds dm n))" using False assms by (simp add: shrinking_upd)
    show "weight (dm(n := next_dom preds dm n)) < weight dm"
      using False assms differs_iff(2) [OF assms] by (intro weight_upd) auto
    show "below D (dm(n := next_dom preds dm n))" if "below D dm" "bounded_by_preds D" for D
      using False assms that by (intro below_upd) auto
  qed
qed

lemma dom_fold:
  assumes "foldl (dom_visit entry preds) (dm, ch) ns = (dm', ch')" and "shrinking dm" and "set ns \<subseteq> set nodes"
  shows "shrinking dm' \<and> (\<forall>D. below D dm \<longrightarrow> bounded_by_preds D \<longrightarrow> below D dm') \<and>
    (ch' \<and> weight dm' < weight dm \<or> ch' = ch \<and> dm' = dm \<and> solved ns dm)"
  using assms
proof (induction ns arbitrary: dm ch)
  case Nil
  then show ?case by (auto simp: solved_def)
next
  case (Cons n ns)
  have "shrinking dm" "n \<in> set nodes" using Cons.prems by auto
  then show ?case
  proof (cases rule: dom_visit_cases [where ch = ch])
    case same
    with Cons.prems Cons.IH [of dm ch] show ?thesis by (auto simp: solved_def)
  next
    case (less d)
    with Cons.prems have "foldl (dom_visit entry preds) (d, True) ns = (dm', ch')" by simp
    from Cons.IH [OF this less(2)] Cons.prems(3) less(3,4) show ?thesis by auto
  qed
qed

lemma loop_returns:
  shows "\<exists>dm. map_option fst (while_option snd (\<lambda>(dm, _). dom_pass entry preds nodes dm)
      (dom_start entry nodes, True)) = Some dm \<and>
    shrinking dm \<and> solved nodes dm \<and> (\<forall>D. bounded_by_preds D \<longrightarrow> below D dm)"
proof -
  let ?P = "\<lambda>(dm, ch). shrinking dm \<and> (\<not> ch \<longrightarrow> solved nodes dm) \<and> (\<forall>D. bounded_by_preds D \<longrightarrow> below D dm)"
  let ?f = "\<lambda>(dm, ch). 2 * weight dm + (if ch then 1 else 0)"
  let ?c = "\<lambda>(dm, _). dom_pass entry preds nodes dm"
  have step: "?P (?c s) \<and> ?f (?c s) < ?f s" if inv: "?P s" and b: "snd s" for s :: "'a doms \<times> bool"
  proof -
    obtain dm where s: "s = (dm, True)" using b by (cases s) auto
    obtain dm' ch' where c: "?c s = (dm', ch')" by (cases "?c s")
    then have "foldl (dom_visit entry preds) (dm, False) nodes = (dm', ch')" by (simp add: s dom_pass_def)
    from dom_fold [OF this] inv s show ?thesis unfolding c by auto
  qed
  have start: "?P (dom_start entry nodes, True)"
    using shrinking_start by (auto simp: below_def bounded_by_preds_def dom_start_def)
  have "\<exists>t. while_option snd ?c (dom_start entry nodes, True) = Some t"
    by (rule measure_while_option_Some [where P = ?P and f = ?f, OF step start])
  then obtain t where t: "while_option snd ?c (dom_start entry nodes, True) = Some t" by (elim exE)
  have "?P t" by (rule while_option_rule [where P = ?P, OF conjunct1 [OF step] t start])
  moreover have "\<not> snd t" using while_option_stop [OF t] .
  ultimately show ?thesis unfolding t by (cases t) auto
qed

end

lemma preds_of_reachable: "p \<in> set (preds_of reachable adj n) \<Longrightarrow> p \<in> set reachable"
  by (auto simp: preds_of_def split: if_splits)

lemma preds_of_iff:
  assumes "distinct (map fst adj)"
  shows "p \<in> set (preds_of reachable adj n) \<longleftrightarrow> p \<in> set reachable \<and> n \<in> succs adj p"
proof -
  have "p \<in> set (preds_of reachable adj n) \<longleftrightarrow> p \<in> set reachable \<and> (\<exists>vs. (p, vs) \<in> set adj \<and> n \<in> set vs)"
    by (force simp: preds_of_def split: if_splits)
  also have "(\<exists>vs. (p, vs) \<in> set adj \<and> n \<in> set vs) \<longleftrightarrow> n \<in> succs adj p"
    using assms by (auto simp: succs_def map_list_def split: option.splits dest: map_of_SomeD)
  finally show ?thesis .
qed

interpretation cd: dominance entry "reachable_from allAdj entry" "preds_of (reachable_from allAdj entry) adj"
  for entry allAdj adj
  by unfold_locales (auto simp: entry_reachable distinct_reachable_from dest: preds_of_reachable)

text \<open>A path of the graph, as the list of its nodes.\<close>

definition is_walk :: "'a adj \<Rightarrow> 'a \<Rightarrow> 'a list \<Rightarrow> 'a \<Rightarrow> bool" where
  "is_walk adj entry ws n \<longleftrightarrow> ws \<noteq> [] \<and> hd ws = entry \<and> last ws = n \<and> successively (\<lambda>x y. y \<in> succs adj x) ws"

lemma is_walk_snoc:
  assumes "ws \<noteq> []"
  shows "is_walk adj entry (ws @ [n]) m \<longleftrightarrow> m = n \<and> is_walk adj entry ws (last ws) \<and> n \<in> succs adj (last ws)"
  using assms by (auto simp: is_walk_def successively_append_iff)

lemma is_walk_prefix:
  assumes "is_walk adj entry ws m" and "x \<in> set ws"
  obtains a b where "ws = (a @ [x]) @ b" and "is_walk adj entry (a @ [x]) x"
proof -
  from assms(2) obtain a b where ab: "ws = (a @ [x]) @ b"
    by (metis append.assoc append_Cons append_Nil split_list)
  moreover from assms(1) have "successively (\<lambda>x y. y \<in> succs adj x) (a @ [x])"
    unfolding ab is_walk_def by (metis successively_append_iff)
  ultimately have "is_walk adj entry (a @ [x]) x"
    using assms(1) by (cases a) (auto simp: is_walk_def)
  with ab show thesis by (rule that)
qed

lemma is_walk_reach: "is_walk adj entry ws n \<Longrightarrow> (entry, n) \<in> (edges_of adj)\<^sup>*"
  by (cases ws) (auto simp: is_walk_def dest: successively_rtrancl)

lemma reach_is_walk: "(entry, n) \<in> (edges_of adj)\<^sup>* \<Longrightarrow> \<exists>ws. is_walk adj entry ws n"
proof (induction rule: rtrancl_induct)
  case base
  have "is_walk adj entry [entry] entry" by (simp add: is_walk_def)
  then show ?case by blast
next
  case (step y z)
  then obtain ws where "is_walk adj entry ws y" by blast
  with step have "is_walk adj entry (ws @ [z]) z" by (subst is_walk_snoc) (auto simp: is_walk_def)
  then show ?case by blast
qed

lemma computeDominators_returns:
  "\<exists>dm. computeDominators entry (reachable_from allAdj entry) adj = Some dm"
  using cd.loop_returns [of entry allAdj adj] by (auto simp: computeDominators_def)

lemma computeDominators_solution:
  assumes "computeDominators entry (reachable_from allAdj entry) adj = Some dm"
    and "distinct (map fst adj)" and "n \<in> set (reachable_from allAdj entry)"
  shows "n = entry \<Longrightarrow> set (dm n) = {entry}"
    and "n \<noteq> entry \<Longrightarrow> p \<in> set (reachable_from allAdj entry) \<Longrightarrow> n \<in> succs adj p \<Longrightarrow> x \<in> set (dm n) \<Longrightarrow>
      x = n \<or> x \<in> set (dm p)"
proof -
  let ?preds = "preds_of (reachable_from allAdj entry) adj"
  have "cd.shrinking entry allAdj adj dm \<and> cd.solved entry allAdj adj (reachable_from allAdj entry) dm"
    using cd.loop_returns [of entry allAdj adj] assms(1) by (auto simp: computeDominators_def)
  then have start: "dm entry = [entry]" and eq: "n \<noteq> entry \<Longrightarrow> set (next_dom ?preds dm n) = set (dm n)"
    using assms(3) by (auto simp: cd.shrinking_def cd.solved_def)
  show "n = entry \<Longrightarrow> set (dm n) = {entry}" using start by simp
  show "x = n \<or> x \<in> set (dm p)"
    if "n \<noteq> entry" "p \<in> set (reachable_from allAdj entry)" "n \<in> succs adj p" "x \<in> set (dm n)"
  proof -
    have "p \<in> set (?preds n)" using that assms(2) by (simp add: preds_of_iff)
    with that eq show ?thesis unfolding set_next_dom meet_def by (auto split: if_splits)
  qed
qed

text \<open>
  A computed dominator lies on every path whose edges are normal edges or go back to a
  dominator of their source.
\<close>

lemma dominator_on_walk:
  assumes cd: "computeDominators entry (reachable_from allAdj entry) adj = Some dm"
    and keys: "distinct (map fst adj)"
    and walk: "is_walk allAdj entry ws n"
    and loops: "successively (\<lambda>u v. v \<in> succs adj u \<or> v \<in> set (dm u)) ws"
    and x: "x \<in> set (dm n)"
  shows "x \<in> set ws"
  using walk loops x
proof (induction ws arbitrary: n x rule: length_induct)
  case (1 ws)
  let ?R = "set (reachable_from allAdj entry)"
  have nR: "n \<in> ?R" using 1(2) by (simp add: is_walk_reach reachable_from_iff)
  note sol = computeDominators_solution [OF cd keys nR]
  show ?case
  proof (cases "n = entry")
    case True
    then show ?thesis using sol(1) 1(2,4) by (auto simp: is_walk_def)
  next
    case False
    define w where "w = butlast ws"
    have ws: "ws = w @ [n]" using 1(2) by (auto simp: is_walk_def w_def)
    with False 1(2) have "w \<noteq> []" by (auto simp: is_walk_def)
    with 1(2,3) ws have w: "is_walk allAdj entry w (last w)" "n \<in> succs adj (last w) \<or> n \<in> set (dm (last w))"
      and lw: "successively (\<lambda>u v. v \<in> succs adj u \<or> v \<in> set (dm u)) w"
      by (auto simp: is_walk_snoc successively_append_iff)
    then have pR: "last w \<in> ?R" by (simp add: is_walk_reach reachable_from_iff)
    have IH: "y \<in> set w" if "y \<in> set (dm (last w))" for y using 1(1) ws w(1) lw that by auto
    from w(2) show ?thesis
    proof
      assume "n \<in> succs adj (last w)"
      then show ?thesis using sol(2) [OF False pR _ \<open>x \<in> set (dm n)\<close>] IH ws by auto
    next
      assume "n \<in> set (dm (last w))"
      then have "n \<in> set w" by (rule IH)
      with w(1) obtain a b where ab: "w = (a @ [n]) @ b" and "is_walk allAdj entry (a @ [n]) n"
        by (rule is_walk_prefix)
      moreover have "length (a @ [n]) < length ws" using ws ab by simp
      moreover have "successively (\<lambda>u v. v \<in> succs adj u \<or> v \<in> set (dm u)) (a @ [n])"
        using lw unfolding ab by (metis successively_append_iff)
      ultimately have "x \<in> set (a @ [n])" using "1.IH" "1.prems"(3) by blast
      then show ?thesis using ws ab by auto
    qed
  qed
qed

text \<open>On a graph without loop-only nodes the computed sets are exactly the dominators.\<close>

definition on_all_walks :: "'a adj \<Rightarrow> 'a \<Rightarrow> 'a \<Rightarrow> 'a set" where
  "on_all_walks adj entry n = {x. \<forall>ws. is_walk adj entry ws n \<longrightarrow> x \<in> set ws}"

lemma computeDominators_complete:
  assumes cd: "computeDominators entry (reachable_from adj entry) adj = Some dm"
    and keys: "distinct (map fst adj)" and n: "n \<in> set (reachable_from adj entry)"
  shows "on_all_walks adj entry n \<subseteq> set (dm n)"
proof -
  let ?R = "reachable_from adj entry" and ?D = "on_all_walks adj entry"
  have walks: "\<exists>ws. is_walk adj entry ws m" if "m \<in> set ?R" for m
    using that reach_is_walk by (simp add: reachable_from_iff)
  have sub: "?D m \<subseteq> set ?R" if m: "m \<in> set ?R" for m
  proof
    fix x assume "x \<in> ?D m"
    with walks [OF m] obtain ws where ws: "is_walk adj entry ws m" "x \<in> set ws" by (auto simp: on_all_walks_def)
    then obtain a b where "is_walk adj entry (a @ [x]) x" by (rule is_walk_prefix)
    then show "x \<in> set ?R" by (simp add: is_walk_reach reachable_from_iff)
  qed
  have step: "?D m \<subseteq> insert m (meet ?D (preds_of ?R adj m))" if m: "m \<in> set ?R" "m \<noteq> entry" for m
  proof -
    from walks [OF m(1)] obtain ws where ws: "is_walk adj entry ws m" by blast
    define w where "w = butlast ws"
    have "ws = w @ [m]" "w \<noteq> []" using ws m(2) by (cases ws; auto simp: is_walk_def w_def)+
    with ws have "is_walk adj entry w (last w)" "m \<in> succs adj (last w)" by (auto simp: is_walk_snoc)
    then have "last w \<in> set (preds_of ?R adj m)"
      by (simp add: preds_of_iff [OF keys] reachable_from_iff is_walk_reach)
    moreover have "x \<in> ?D p" if "x \<in> ?D m" "x \<noteq> m" "p \<in> set (preds_of ?R adj m)" for x p
      unfolding on_all_walks_def
    proof (clarify)
      fix v assume v: "is_walk adj entry v p"
      with that(3) have "is_walk adj entry (v @ [m]) m"
        by (auto simp: preds_of_iff [OF keys] is_walk_def successively_append_iff)
      with that(1,2) show "x \<in> set v" by (auto simp: on_all_walks_def)
    qed
    ultimately show ?thesis by (auto simp: meet_def)
  qed
  have "is_walk adj entry [entry] entry" by (simp add: is_walk_def)
  then have "?D entry \<subseteq> {entry}" by (auto simp: on_all_walks_def)
  with sub step have "cd.bounded_by_preds entry adj adj ?D" by (auto simp: cd.bounded_by_preds_def)
  then have "cd.below adj entry ?D dm"
    using cd.loop_returns [of entry adj adj] cd by (auto simp: computeDominators_def)
  with n show ?thesis by (simp add: cd.below_def)
qed

lemma computeDominators_exact:
  assumes "computeDominators entry (reachable_from adj entry) adj = Some dm"
    and "distinct (map fst adj)" and "n \<in> set (reachable_from adj entry)"
  shows "x \<in> set (dm n) \<longleftrightarrow> (\<forall>ws. is_walk adj entry ws n \<longrightarrow> x \<in> set ws)"
proof
  assume x: "x \<in> set (dm n)"
  show "\<forall>ws. is_walk adj entry ws n \<longrightarrow> x \<in> set ws"
  proof (clarify)
    fix ws assume w: "is_walk adj entry ws n"
    then have "successively (\<lambda>u v. v \<in> succs adj u \<or> v \<in> set (dm u)) ws"
      by (auto simp: is_walk_def intro: successively_mono)
    with dominator_on_walk [OF assms(1,2) w _ x] show "x \<in> set ws" by blast
  qed
next
  assume "\<forall>ws. is_walk adj entry ws n \<longrightarrow> x \<in> set ws"
  then show "x \<in> set (dm n)" using computeDominators_complete [OF assms] by (auto simp: on_all_walks_def)
qed

end
