(* ===== verification/Validator.thy ===== *)
theory Validator
  imports SpecChecks Templates Routing WorkflowGraph
begin

text \<open>
  The parts of \<open>src/workflow/validator.ts\<close> that look at the whole graph: edges, graph
  analysis, template references, routing, and \<open>validateWorkflowSpec\<close> itself.
\<close>

section \<open>Edges\<close>

record out_edge =
  oe_condition :: jsval
  oe_kind :: jsval
  oe_idx :: nat

record wgraph =
  normalAdj :: "string adj"
  allAdj :: "string adj"
  outgoing :: "(string \<times> out_edge list) list"
  anyTerminalEdge :: bool

definition empty_graph :: wgraph where
  "empty_graph = \<lparr>normalAdj = [], allAdj = [], outgoing = [], anyTerminalEdge = False\<rparr>"

text \<open>The key of an edge as code units: its separators, an arrow (U+2192) and the empty set sign
  (U+2205), are not below 256.\<close>

datatype key_unit = Latin char | Wide int

definition edge_key :: "jsval \<Rightarrow> key_unit list" where
  "edge_key edge =
    map Latin (to_text (fld edge ''from'')) @ [Wide 0x2192] @
    map Latin (to_text (fld edge ''to'') @ ''|'' @ to_text (fld edge ''kind'') @ ''|'') @
    (if truthy (fld edge ''condition'')
     then map Latin (case stringify (fld edge ''condition'') of None \<Rightarrow> ''undefined'' | Some t \<Rightarrow> t)
     else [Wide 0x2205])"

definition to_is_terminal :: "jsval \<Rightarrow> bool" where
  "to_is_terminal edge = (isStr (fld edge ''to'') \<and> isTerminalTarget (str_of (fld edge ''to'')))"

definition to_is_step :: "string list \<Rightarrow> jsval \<Rightarrow> bool" where
  "to_is_step ids edge = (isStr (fld edge ''to'') \<and> str_of (fld edge ''to'') \<in> set ids)"

definition from_is_step :: "string list \<Rightarrow> jsval \<Rightarrow> bool" where
  "from_is_step ids edge = (isStr (fld edge ''from'') \<and> str_of (fld edge ''from'') \<in> set ids)"

definition condition_issues :: "step_tables \<Rightarrow> schema_tables \<Rightarrow> string \<Rightarrow> jsval \<Rightarrow> issue list" where
  "condition_issues stab tables p edge =
    (let cond = fld edge ''condition''; codes = checkConditionShape cond
     in if cond = JUndef then []
        else
          map (\<lambda>c. err c (p @ ''/condition'')) codes @
          (if codes = [] \<and> isStr (fld edge ''from'') then
             (case parseConditionPath (str_of (fld cond ''path'')) of
                Some (OutputField key) \<Rightarrow>
                  (case map_of (stepOutputSchema stab) (str_of (fld edge ''from'')) of
                     None \<Rightarrow> []
                   | Some schema \<Rightarrow>
                       if schema = [] then []
                       else (case map_of (schemaFields tables) schema of
                          None \<Rightarrow> []
                        | Some flds \<Rightarrow> err_if (key \<notin> set flds) ''condition_unknown_output_field'' (p @ ''/condition'')))
              | _ \<Rightarrow> [])
           else []))"

definition edge_issues :: "step_tables \<Rightarrow> schema_tables \<Rightarrow> key_unit list list \<Rightarrow> nat \<Rightarrow> jsval \<Rightarrow> issue list" where
  "edge_issues stab tables seen i edge = (let p = ''/edges/'' @ nat_digits i in
    if \<not> isObj edge then [err ''bad_edge'' p]
    else
      err_if (\<not> from_is_step (stepIds stab) edge) ''edge_bad_source'' (p @ ''/from'') @
      err_if (\<not> to_is_terminal edge \<and> \<not> to_is_step (stepIds stab) edge) ''edge_bad_target'' (p @ ''/to'') @
      err_if (fld edge ''kind'' \<noteq> JStr ''normal'' \<and> fld edge ''kind'' \<noteq> JStr ''loop'') ''edge_bad_kind'' (p @ ''/kind'') @
      unknown_fields [''from'', ''to'', ''condition'', ''kind''] ''edge_unknown_field'' p edge @
      condition_issues stab tables p edge @
      err_if (edge_key edge \<in> set seen) ''duplicate_edge'' p)"

definition add_edge :: "string list \<Rightarrow> wgraph \<Rightarrow> nat \<Rightarrow> jsval \<Rightarrow> wgraph" where
  "add_edge ids g i edge =
    (let from_id = str_of (fld edge ''from''); to_id = str_of (fld edge ''to'')
     in if \<not> from_is_step ids edge then g
        else \<lparr>normalAdj = (if to_is_step ids edge \<and> fld edge ''kind'' \<noteq> JStr ''loop''
                then map_push from_id to_id (normalAdj g) else normalAdj g),
              allAdj = (if to_is_step ids edge then map_push from_id to_id (allAdj g) else allAdj g),
              outgoing = map_push from_id
                \<lparr>oe_condition = fld edge ''condition'', oe_kind = fld edge ''kind'', oe_idx = i\<rparr> (outgoing g),
              anyTerminalEdge = (anyTerminalEdge g \<or> to_is_terminal edge)\<rparr>)"

text \<open>One iteration of \<open>spec.edges.forEach\<close>.\<close>

definition visit_edge ::
  "step_tables \<Rightarrow> schema_tables \<Rightarrow> wgraph \<times> key_unit list list \<times> issue list \<Rightarrow> nat \<times> jsval \<Rightarrow>
   wgraph \<times> key_unit list list \<times> issue list" where
  "visit_edge stab tables st ix = (case (st, ix) of ((g, seen, iss), (i, edge)) \<Rightarrow>
    (if isObj edge then add_edge (stepIds stab) g i edge else g,
     if isObj edge then set_add (edge_key edge) seen else seen,
     iss @ edge_issues stab tables seen i edge))"

definition validateEdges :: "jsval \<Rightarrow> step_tables \<Rightarrow> schema_tables \<Rightarrow> wgraph \<times> issue list" where
  "validateEdges spec stab tables =
    (if \<not> isArr (fld spec ''edges'') then (empty_graph, [err ''edges_missing'' ''/edges''])
     else case foldl (visit_edge stab tables) (empty_graph, [], []) (enumerate 0 (arr_of (fld spec ''edges''))) of
       (g, _, iss) \<Rightarrow> (g, iss))"

section \<open>Graph analysis\<close>

text \<open>\<open>entry\<close> is \<open>None\<close> for \<open>undefined\<close>, and an empty entry id counts as none (\<open>if (entry)\<close>).
  \<open>doms\<close> is \<open>None\<close> when there is no entry.\<close>

definition analyzeGraph ::
  "jsval \<Rightarrow> string list \<Rightarrow> string option \<Rightarrow> wgraph \<Rightarrow> (string list \<times> string doms option) \<times> issue list" where
  "analyzeGraph spec ids entry g =
    (let noTerm = err_if (\<not> anyTerminalEdge g \<and> isArr (fld spec ''edges'')) ''no_terminal_reachable'' ''/edges'';
         cyc = err_if (findCycle ids (normalAdj g) \<noteq> None) ''unmarked_cycle'' ''/edges''
     in case entry of
          Some e \<Rightarrow>
            if e = [] then (([], None), noTerm @ cyc)
            else let reachable = reachable_from (allAdj g) e in
              ((reachable, computeDominators e reachable (normalAdj g)),
               noTerm @ concat (map (\<lambda>s. err_if (s \<notin> set reachable) ''unreachable_step'' ''/steps'') ids) @ cyc)
        | None \<Rightarrow> (([], None), noTerm @ cyc))"

section \<open>Templates\<close>

definition checkPromptRef ::
  "string \<Rightarrow> string option \<Rightarrow> bool \<Rightarrow> (string \<times> string) list \<Rightarrow> step_tables \<Rightarrow> schema_tables \<Rightarrow>
   string list \<Rightarrow> string doms option \<Rightarrow> template_ref \<Rightarrow> issue list" where
  "checkPromptRef p currentStep hasInputPause inputTypes stab tables reachable doms ref = (case ref of
      RefPause _ \<Rightarrow> err_if (\<not> hasInputPause) ''template_pause_without_input_gate'' p
    | RefInput name _ \<Rightarrow> err_if (name \<notin> fst ` set inputTypes) ''template_unknown_input'' p
    | RefContext g f _ \<Rightarrow> err_if (f \<notin> set (CONTEXT_FIELDS g)) ''template_unknown_context_field'' p
    | RefWorkflow _ \<Rightarrow> []
    | RefStep s f _ \<Rightarrow>
        if s \<notin> set (stepIds stab) then [err ''template_unknown_step'' p]
        else
          (case map_of (stepOutputSchema stab) s of
             None \<Rightarrow> []
           | Some schema \<Rightarrow>
               if schema = [] then []
               else (case map_of (schemaFields tables) schema of
                  None \<Rightarrow> []
                | Some flds \<Rightarrow> err_if (f \<notin> set flds) ''template_unknown_output_field'' p)) @
          (case currentStep of
             None \<Rightarrow> []
           | Some cur \<Rightarrow>
               if cur \<noteq> [] \<and> cur \<in> set reachable then
                 (if s = cur then [err ''template_self_reference'' p]
                  else err_if (case doms of None \<Rightarrow> True | Some dm \<Rightarrow> s \<notin> set (dm cur)) ''template_step_not_guaranteed'' p)
               else []))"

definition validateWorkspaceKey :: "string \<Rightarrow> string \<Rightarrow> (string \<times> string) list \<Rightarrow> issue list" where
  "validateWorkspaceKey wk p inputTypes =
    (if \<not> str_includes wk ''{{'' then err_if (\<not> WORKSPACE_KEY wk) ''bad_workspace_key'' p
     else let parsed = parseTemplateReferences wk in
       map (\<lambda>c. err c p) (parse_errors parsed) @
       (case parse_refs parsed of
          [RefInput name raw] \<Rightarrow>
            if trim wk \<noteq> raw then [err ''workspace_key_bad_reference'' p]
            else (case map_of inputTypes name of
              None \<Rightarrow> [err ''template_unknown_input'' p]
            | Some t \<Rightarrow> err_if (t \<noteq> ''string'') ''workspace_key_input_not_string'' p)
        | _ \<Rightarrow> [err ''workspace_key_bad_reference'' p]))"

definition prompt_issues ::
  "string \<Rightarrow> string option \<Rightarrow> bool \<Rightarrow> (string \<times> string) list \<Rightarrow> step_tables \<Rightarrow> schema_tables \<Rightarrow>
   string list \<Rightarrow> string doms option \<Rightarrow> template_parse \<Rightarrow> issue list" where
  "prompt_issues p stepId hasInputPause inputTypes stab tables reachable doms parsed =
    map (\<lambda>c. err c p) (parse_errors parsed) @
    concat (map (checkPromptRef p stepId hasInputPause inputTypes stab tables reachable doms) (parse_refs parsed))"

definition step_id_of :: "jsval \<Rightarrow> string option" where
  "step_id_of step = (if isStr (fld step ''id'') then Some (str_of (fld step ''id'')) else None)"

definition has_input_pause :: "jsval \<Rightarrow> bool" where
  "has_input_pause step =
    (isObj (fld step ''pause_before'') \<and> fld (fld step ''pause_before'') ''kind'' = JStr ''input'')"

fun template_issues ::
  "(string \<times> string) list \<Rightarrow> step_tables \<Rightarrow> schema_tables \<Rightarrow> string list \<Rightarrow> string doms option \<Rightarrow>
   nat \<times> jsval \<Rightarrow> issue list" where
  "template_issues inputTypes stab tables reachable doms (i, step) =
    (if \<not> isObj step then []
     else
       (if isStr (fld step ''prompt_template'') then
          prompt_issues (''/steps/'' @ nat_digits i @ ''/prompt_template'') (step_id_of step) (has_input_pause step)
            inputTypes stab tables reachable doms (parseTemplateReferences (str_of (fld step ''prompt_template'')))
        else []) @
       (if isStr (fld step ''workspace_key_template'') then
          validateWorkspaceKey (str_of (fld step ''workspace_key_template''))
            (''/steps/'' @ nat_digits i @ ''/workspace_key_template'') inputTypes
        else []))"

definition validateTemplates ::
  "jsval \<Rightarrow> (string \<times> string) list \<Rightarrow> step_tables \<Rightarrow> schema_tables \<Rightarrow> string list \<Rightarrow> string doms option \<Rightarrow> issue list" where
  "validateTemplates steps inputTypes stab tables reachable doms =
    (if \<not> isArr steps then []
     else concat (map (template_issues inputTypes stab tables reachable doms) (enumerate 0 (arr_of steps))))"

section \<open>Deterministic and exhaustive routing\<close>

datatype selector = SelRound | SelField string "field_def option" | SelUnknown

definition selectorOf :: "jsval \<Rightarrow> string \<Rightarrow> step_tables \<Rightarrow> schema_tables \<Rightarrow> selector" where
  "selectorOf cond from_id stab tables =
    (if \<not> isObj cond \<or> \<not> isStr (fld cond ''path'') then SelUnknown
     else case parseConditionPath (str_of (fld cond ''path'')) of
       None \<Rightarrow> SelUnknown
     | Some WorkflowRound \<Rightarrow> SelRound
     | Some (OutputField key) \<Rightarrow> SelField key
         (case map_of (stepOutputSchema stab) from_id of
            None \<Rightarrow> None
          | Some schema \<Rightarrow>
              if schema = [] then None
              else (case map_of (schemaFieldDefs tables) schema of None \<Rightarrow> None | Some ds \<Rightarrow> map_of ds key)))"

definition matchesField :: "jsval \<Rightarrow> field_def option \<Rightarrow> bool" where
  "matchesField v d = (case d of None \<Rightarrow> True
    | Some fd \<Rightarrow>
        if fd_type fd = ''string'' then isStr v
        else if fd_type fd = ''number'' then isNum v
        else if fd_type fd = ''boolean'' then isBool v
        else if fd_type fd = ''enum'' then isStr v \<and> (case fd_enum fd of None \<Rightarrow> False | Some en \<Rightarrow> js_includes en v)
        else False)"

definition type_is :: "field_def option \<Rightarrow> string \<Rightarrow> bool" where
  "type_is d t = (case d of None \<Rightarrow> False | Some fd \<Rightarrow> fd_type fd = t)"

definition conditionValueTypeIssues :: "jsval \<Rightarrow> selector \<Rightarrow> string list" where
  "conditionValueTypeIssues cond sel =
    (let vals = condition_values cond
     in if fld cond ''op'' = JStr ''exists'' then []
        else case sel of
          SelRound \<Rightarrow> (if \<not> list_all isNum vals then [''condition_round_needs_number''] else [])
        | SelUnknown \<Rightarrow> []
        | SelField f d \<Rightarrow>
            if type_is d ''string[]'' then [''condition_op_not_allowed_for_type'']
            else concat (map (\<lambda>v.
              if \<not> isScalar v then [''condition_value_type_mismatch'']
              else if \<not> matchesField v d
              then [if type_is d ''enum'' then ''condition_value_not_in_enum'' else ''condition_value_type_mismatch'']
              else []) vals))"

text \<open>Whether a value occurs twice among the branches (\<open>seen\<close> and \<open>overlap\<close>).\<close>

definition scan_overlap :: "jsval list \<Rightarrow> bool" where
  "scan_overlap vals = snd (foldl (\<lambda>(seen, overlap) v. (seen @ [v], overlap \<or> js_includes seen v)) ([], False) vals)"

definition cond_path :: "jsval \<Rightarrow> string option" where
  "cond_path c = (if isObj c \<and> isStr (fld c ''path'') then Some (str_of (fld c ''path'')) else None)"

definition branch_issues :: "out_edge list \<Rightarrow> issue list" where
  "branch_issues conditional =
    (let conds = map oe_condition conditional; paths = map cond_path conds
     in if length (set_of_list (map (case_option ''?'' id) paths)) \<noteq> 1 \<or> ''?'' \<in> set (map (case_option ''?'' id) paths)
        then [err ''routing_mixed_selectors'' ''/edges'']
        else if \<not> list_all (\<lambda>c. fld c ''op'' = JStr ''eq'' \<or> fld c ''op'' = JStr ''in'') conds
        then [err ''routing_not_provably_disjoint'' ''/edges'']
        else err_if (scan_overlap (concat (map condition_values conds))) ''routing_overlapping_values'' ''/edges'')"

definition same_selector :: "selector \<Rightarrow> selector \<Rightarrow> bool" where
  "same_selector a b = (case (a, b) of (SelField f _, SelField f' _) \<Rightarrow> f = f' | _ \<Rightarrow> False)"

definition covered_values :: "jsval list \<Rightarrow> jsval list" where
  "covered_values conds = concat (map (\<lambda>c.
     if fld c ''op'' = JStr ''eq'' then [fld c ''value'']
     else if fld c ''op'' = JStr ''in'' \<and> isArr (fld c ''value'') then arr_of (fld c ''value'') else []) conds)"

definition unrouted :: "jsval list \<Rightarrow> jsval \<Rightarrow> issue list" where
  "unrouted covered v = err_if (\<not> js_includes covered v) ''enum_outcome_unrouted'' ''/edges''"

definition enum_issues :: "selector \<Rightarrow> bool \<Rightarrow> out_edge list \<Rightarrow> out_edge list \<Rightarrow> issue list" where
  "enum_issues sel sameField conditional fallbacks = (case sel of
      SelField f (Some d) \<Rightarrow>
        if sameField \<and> fd_type d = ''enum'' \<and> fd_enum d \<noteq> None \<and> fd_required d \<and> fallbacks = []
        then concat (map (unrouted (covered_values (map oe_condition conditional))) (the (fd_enum d)))
        else []
    | _ \<Rightarrow> [])"

fun exhaustive_issues :: "string \<Rightarrow> out_edge list \<Rightarrow> out_edge list \<Rightarrow> step_tables \<Rightarrow> schema_tables \<Rightarrow> issue list" where
  "exhaustive_issues from_id [] fallbacks stab tables = []"
| "exhaustive_issues from_id (e # es) fallbacks stab tables =
    enum_issues (selectorOf (oe_condition e) from_id stab tables)
      (list_all (same_selector (selectorOf (oe_condition e) from_id stab tables))
        (map (\<lambda>x. selectorOf (oe_condition x) from_id stab tables) (e # es)))
      (e # es) fallbacks"

definition conditional_edges :: "out_edge list \<Rightarrow> out_edge list" where
  "conditional_edges es = filter (\<lambda>e. oe_condition e \<noteq> JUndef) es"

definition fallback_edges :: "out_edge list \<Rightarrow> out_edge list" where
  "fallback_edges es = filter (\<lambda>e. oe_condition e = JUndef) es"

definition value_issues :: "step_tables \<Rightarrow> schema_tables \<Rightarrow> string \<Rightarrow> out_edge \<Rightarrow> issue list" where
  "value_issues stab tables from_id e =
    (if checkConditionShape (oe_condition e) \<noteq> [] then []
     else map (\<lambda>c. err c (''/edges/'' @ nat_digits (oe_idx e) @ ''/condition''))
       (conditionValueTypeIssues (oe_condition e) (selectorOf (oe_condition e) from_id stab tables)))"

text \<open>The first two outcomes of the multi-branch check end the iteration (\<open>continue\<close>).\<close>

definition ends_iteration :: "issue list \<Rightarrow> bool" where
  "ends_iteration branch = list_ex (\<lambda>i. issue_code i \<noteq> ''routing_overlapping_values'') branch"

definition multi_branch_issues :: "out_edge list \<Rightarrow> issue list" where
  "multi_branch_issues conditional = (if length conditional < 2 then [] else branch_issues conditional)"

fun routing_issues :: "step_tables \<Rightarrow> schema_tables \<Rightarrow> string \<times> out_edge list \<Rightarrow> issue list" where
  "routing_issues stab tables (from_id, es) =
    err_if (length (fallback_edges es) \<ge> 2) ''ambiguous_unconditional_edges'' ''/edges'' @
    concat (map (value_issues stab tables from_id) (conditional_edges es)) @
    multi_branch_issues (conditional_edges es) @
    (if ends_iteration (multi_branch_issues (conditional_edges es)) then []
     else exhaustive_issues from_id (conditional_edges es) (fallback_edges es) stab tables)"

definition validateRouting :: "(string \<times> out_edge list) list \<Rightarrow> step_tables \<Rightarrow> schema_tables \<Rightarrow> issue list" where
  "validateRouting out stab tables = concat (map (routing_issues stab tables) out)"

section \<open>The validator\<close>

record validation_tables =
  vt_inputs :: "(string \<times> string) list"
  vt_schemas :: schema_tables
  vt_steps :: step_tables
  vt_graph :: wgraph
  vt_reachable :: "string list"
  vt_doms :: "string doms option"

definition hasLoopEdge :: "jsval \<Rightarrow> bool" where
  "hasLoopEdge spec = (isArr (fld spec ''edges'') \<and>
     list_ex (\<lambda>e. isObj e \<and> fld e ''kind'' = JStr ''loop'') (arr_of (fld spec ''edges'')))"

definition entry_of :: "jsval \<Rightarrow> string list \<Rightarrow> string option" where
  "entry_of spec ids = (if isStr (fld spec ''entry_step'') \<and> str_of (fld spec ''entry_step'') \<in> set ids
     then Some (str_of (fld spec ''entry_step'')) else None)"

text \<open>The tables the checks of a spec build and share.\<close>

definition spec_tables :: "jsval \<Rightarrow> validation_tables" where
  "spec_tables spec =
    (let tables = fst (validateOutputSchemas (fld spec ''output_schemas''));
         stab = fst (validateSteps (fld spec ''steps'') (fst (validateAgents (fld spec ''agents''))) tables);
         g = fst (validateEdges spec stab tables);
         a = fst (analyzeGraph spec (stepIds stab) (entry_of spec (stepIds stab)) g)
     in \<lparr>vt_inputs = fst (validateInputs (fld spec ''inputs'')), vt_schemas = tables, vt_steps = stab,
         vt_graph = g, vt_reachable = fst a, vt_doms = snd a\<rparr>)"

definition validateWorkflowSpec :: "jsval \<Rightarrow> issue list" where
  "validateWorkflowSpec spec =
    (if \<not> isObj spec then [err ''not_an_object'' []]
     else let t = spec_tables spec; ids = stepIds (vt_steps t); agents = validateAgents (fld spec ''agents'') in
       scanSecretFields spec [] @
       concat (map (\<lambda>k. err_if (k \<notin> set KNOWN_SPEC_FIELDS) ''unknown_top_level_field'' (''/'' @ k)) (obj_keys spec)) @
       err_if (fld spec ''version'' \<noteq> JStr ''1'') ''unsupported_version'' ''/version'' @
       err_if (\<not> isStr (fld spec ''name'') \<or> \<not> SAFE_ID (str_of (fld spec ''name''))) ''bad_workflow_name'' ''/name'' @
       err_if (fld spec ''description'' \<noteq> JUndef \<and> \<not> isStr (fld spec ''description'')) ''bad_field_type'' ''/description'' @
       snd agents @
       snd (validateInputs (fld spec ''inputs'')) @
       snd (validateOutputSchemas (fld spec ''output_schemas'')) @
       snd (validateSteps (fld spec ''steps'') (fst agents) (vt_schemas t)) @
       err_if (entry_of spec ids = None) ''unknown_entry_step'' ''/entry_step'' @
       validateLimits (fld spec ''limits'') (hasLoopEdge spec) @
       (if fld spec ''completion_policy'' \<noteq> JUndef then validateCompletionPolicy (fld spec ''completion_policy'') else []) @
       (if fld spec ''stall_policy'' \<noteq> JUndef then validateStallPolicy (fld spec ''stall_policy'') (hasLoopEdge spec) else []) @
       snd (validateEdges spec (vt_steps t) (vt_schemas t)) @
       snd (analyzeGraph spec ids (entry_of spec ids) (vt_graph t)) @
       validateTemplates (fld spec ''steps'') (vt_inputs t) (vt_steps t) (vt_schemas t) (vt_reachable t) (vt_doms t) @
       validateRouting (outgoing (vt_graph t)) (vt_steps t) (vt_schemas t))"

definition spec_valid :: "jsval \<Rightarrow> bool" where
  "spec_valid spec = (validateWorkflowSpec spec = [])"

end
