(* ===== verification/OutputValidation.thy ===== *)
theory OutputValidation
  imports JsValue
begin

text \<open>
  Validation of a step's parsed output against its schema (\<open>src/workflow/output-validator.ts\<close>).
  An error carries the source's code and the offending field.
\<close>

definition MAX_OUTPUT_STRING_LEN :: nat where "MAX_OUTPUT_STRING_LEN = 16 * 1024"
definition MAX_OUTPUT_ARRAY_LEN :: nat where "MAX_OUTPUT_ARRAY_LEN = 512"
definition MAX_OUTPUT_SERIALIZED_BYTES :: nat where "MAX_OUTPUT_SERIALIZED_BYTES = 128 * 1024"

datatype output_error =
    OutputUnknownField string
  | OutputMissingRequired string
  | OutputEnumInvalid string
  | OutputTypeMismatch string
  | OutputStringTooLong string
  | OutputArrayTooLong string
  | OutputTooLarge

definition matchesSchemaType :: "jsval \<Rightarrow> jsval \<Rightarrow> bool" where
  "matchesSchemaType v f = (let t = fld f ''type'' in
     if t = JStr ''string'' then isStr v
     else if t = JStr ''number'' then isFiniteNum v
     else if t = JStr ''boolean'' then isBool v
     else if t = JStr ''string[]'' then isArr v \<and> list_all isStr (arr_of v)
     else if t = JStr ''enum'' then isStr v \<and> isArr (fld f ''enum'') \<and> js_includes (arr_of (fld f ''enum'')) v
     else False)"

text \<open>One iteration of the loop over the declared fields.\<close>

definition field_error :: "jsval \<Rightarrow> string \<times> jsval \<Rightarrow> output_error option" where
  "field_error obj nd = (case nd of (name, def) \<Rightarrow>
     (if \<not> has_own obj name then
        (if truthy (fld def ''required'') then Some (OutputMissingRequired name) else None)
      else let v = fld obj name; t = fld def ''type'' in
        if \<not> matchesSchemaType v def then
          Some (if t = JStr ''enum'' then OutputEnumInvalid name else OutputTypeMismatch name)
        else if t = JStr ''string'' \<and> byteLen (str_of v) > MAX_OUTPUT_STRING_LEN then Some (OutputStringTooLong name)
        else if t = JStr ''string[]'' then
          (if length (arr_of v) > MAX_OUTPUT_ARRAY_LEN then Some (OutputArrayTooLong name)
           else first_some (\<lambda>s. if byteLen (str_of s) > MAX_OUTPUT_STRING_LEN then Some (OutputStringTooLong name) else None)
             (arr_of v))
        else None))"

definition validateAgainstSchema :: "jsval \<Rightarrow> jsval \<Rightarrow> output_error + jsval" where
  "validateAgainstSchema obj schema =
    (let fields = fld schema ''fields''
     in or_else (first_some (\<lambda>k. if has_own fields k then None else Some (OutputUnknownField k)) (obj_keys obj))
       (or_else (first_some (field_error obj) (entries fields))
         (if byteLen (case stringify obj of None \<Rightarrow> [] | Some t \<Rightarrow> t) > MAX_OUTPUT_SERIALIZED_BYTES
          then Inl OutputTooLarge else Inr obj)))"

text \<open>What an accepted output satisfies. The object itself is returned.\<close>

lemma validateAgainstSchema_Inr:
  assumes "validateAgainstSchema obj schema = Inr v"
  shows "v = obj" and "set (obj_keys obj) \<subseteq> set (obj_keys (fld schema ''fields''))"
    and "\<forall>nd\<in>set (entries (fld schema ''fields'')). field_error obj nd = None"
    and "byteLen (case stringify obj of None \<Rightarrow> [] | Some t \<Rightarrow> t) \<le> MAX_OUTPUT_SERIALIZED_BYTES"
  using assms
  by (auto simp: validateAgainstSchema_def Let_def has_own_iff split: if_splits)

lemma accepted_field:
  assumes "validateAgainstSchema obj schema = Inr v" and "(name, def) \<in> set (entries (fld schema ''fields''))"
  shows "truthy (fld def ''required'') \<Longrightarrow> has_own v name"
    and "has_own v name \<Longrightarrow> matchesSchemaType (fld v name) def"
  using validateAgainstSchema_Inr(1) [OF assms(1)]
    bspec [OF validateAgainstSchema_Inr(3) [OF assms(1)] assms(2)]
  by (auto simp: field_error_def Let_def split: if_splits)

end
