(* ===== verification/RuntimeParts.thy ===== *)
theory RuntimeParts
  imports RuntimeBase Validator OutputValidation Routing
begin

text \<open>
  The parts of the workflow runtime (\<open>src/workflow/runtime.ts\<close>) below its driver loop: what it
  reads from a spec and the store, the terminal transitions, cancellation and the human
  pause gate. A spec that was read back has passed the validator, so its fields have their
  declared shapes.
\<close>

definition jint :: "int \<Rightarrow> jsval" where
  "jint n = JNum (NInt n)"

definition draft :: "workflow_event_type \<Rightarrow> string \<Rightarrow> string option \<Rightarrow> jsval \<Rightarrow> event_draft" where
  "draft ty ts sx payload = \<lparr>ed_type = ty, ed_ts = ts, ed_step_execution_id = sx, ed_payload = payload\<rparr>"

text \<open>\<open>{ ...base, ...extra }\<close>\<close>

definition spread :: "(string \<times> jsval) list \<Rightarrow> (string \<times> jsval) list \<Rightarrow> (string \<times> jsval) list" where
  "spread base extra = foldl (\<lambda>m kv. AList.update (fst kv) (snd kv) m) base extra"

text \<open>\<open>v ?? d\<close>\<close>

definition nullish :: "jsval \<Rightarrow> jsval \<Rightarrow> jsval" where
  "nullish d v = (if v = JUndef \<or> v = JNull then d else v)"

section \<open>The persisted spec\<close>

definition loadSpec :: "workflow_row \<Rightarrow> jsval option" where
  "loadSpec row = (if spec_valid (wf_spec row) then Some (wf_spec row) else None)"

definition spec_limit :: "jsval \<Rightarrow> string \<Rightarrow> int" where
  "spec_limit spec k = int_of (nullish (jint 0) (fld (fld spec ''limits'') k))"

definition deadlineExceeded :: "env \<Rightarrow> workflow_row \<Rightarrow> world \<Rightarrow> bool" where
  "deadlineExceeded env row w = (case wf_started_at row of
      None \<Rightarrow> False
    | Some t \<Rightarrow>
        if t = [] then False
        else (case e_date env t of None \<Rightarrow> False
          | Some started \<Rightarrow> e_now env (w_tick w) - started \<ge> spec_limit (wf_spec row) ''max_runtime_seconds'' * 1000))"

definition inputs_of :: "workflow_row \<Rightarrow> jsval" where
  "inputs_of row = (case wf_input_values row of None \<Rightarrow> JObj [] | Some v \<Rightarrow> v)"

definition role_of :: "jsval \<Rightarrow> jsval \<Rightarrow> jsval" where
  "role_of spec specStep = get_prop (fld spec ''agents'') (str_of (fld specStep ''agent_role''))"

definition step_output :: "step_row \<Rightarrow> jsval option" where
  "step_output st = (case se_output st of Some v \<Rightarrow> if isObj v then Some v else None | None \<Rightarrow> None)"

text \<open>The declared policies, as the policy functions take them.\<close>

definition evidence_of_name :: "jsval \<Rightarrow> evidence_type list" where
  "evidence_of_name v = filter (\<lambda>t. JStr (evidence_name t) = v)
     [EvTaskStatus, EvExitCode, EvContentHash, EvWorkspaceRevision, EvChangedFiles, EvTestsPassed]"

definition policy_of :: "jsval \<Rightarrow> completion_policy" where
  "policy_of cp = \<lparr>required_evidence = concat (map evidence_of_name (arr_of (fld cp ''required_evidence''))),
     require_repository_change = truthy (fld cp ''require_repository_change''),
     require_no_remaining_work = truthy (fld cp ''require_no_remaining_work''),
     require_tests_passed = truthy (fld cp ''require_tests_passed'')\<rparr>"

definition signals_of :: "jsval \<Rightarrow> stall_signal list" where
  "signals_of sp = concat (map (\<lambda>v. filter (\<lambda>t. JStr (signal_name t) = v)
     [SigPlannerNextStep, SigRemainingWork, SigWorkspaceRevision, SigVerifiedEvidence]) (arr_of (fld sp ''signals'')))"

section \<open>Terminal helpers\<close>

definition failStep :: "env \<Rightarrow> string \<Rightarrow> step_row \<Rightarrow> (string \<times> jsval) list \<Rightarrow> unit rt" where
  "failStep env wid st meta = db env (\<lambda>ts. WorkflowCall (FailStepAndWorkflow (se_id st) wid
     (draft EvStepFailed ts (Some (se_id st)) (JObj meta)) (draft EvFailed ts None (JObj meta)) (JObj meta))) (\<lambda>_. ())"

definition failWorkflow :: "env \<Rightarrow> string \<Rightarrow> string \<Rightarrow> (string \<times> jsval) list \<Rightarrow> unit rt" where
  "failWorkflow env wid code meta = db env (\<lambda>ts. WorkflowCall (TerminalizeWorkflow wid WFailed None
     (draft EvFailed ts None (JObj (spread [(''reason'', JStr code)] meta))))) (\<lambda>_. ())"

definition failLimit :: "env \<Rightarrow> string \<Rightarrow> string \<Rightarrow> unit rt" where
  "failLimit env wid limit = db env (\<lambda>ts. WorkflowCall (TerminalizeWorkflow wid WFailed None
     (draft EvFailed ts None (JObj [(''reason'', JStr ''workflow_limit_exceeded''), (''limit'', JStr limit)])))) (\<lambda>_. ())"

definition blockWorkflow :: "env \<Rightarrow> string \<Rightarrow> string \<Rightarrow> (string \<times> jsval) list \<Rightarrow> unit rt" where
  "blockWorkflow env wid reason meta = db env (\<lambda>ts. WorkflowCall (TerminalizeWorkflow wid WBlocked None
     (draft EvBlocked ts None (JObj (spread [(''reason'', JStr reason)] meta))))) (\<lambda>_. ())"

section \<open>Cancellation\<close>

text \<open>The current step of the workflow, if it has one, and its task, which is asked to stop.\<close>

definition cancel_current :: "env \<Rightarrow> string \<Rightarrow> workflow_row \<Rightarrow> string option rt" where
  "cancel_current env wid row = (case wf_current_step_id row of
      None \<Rightarrow> ret None
    | Some stepId \<Rightarrow>
        if stepId = [] then ret None
        else bnd (query env (getStepExecutionByKey wid stepId (wf_current_round row) 1)) (\<lambda>step.
          case step of None \<Rightarrow> ret None
          | Some st \<Rightarrow> bnd (case se_task_id st of None \<Rightarrow> ret ()
              | Some t \<Rightarrow> if t = [] then ret ()
                  else ignoring (ext env (CancelTask t) (\<lambda>n. e_cancel env n t)))
              (\<lambda>_. ret (Some (se_id st)))))"

definition performCancellation :: "env \<Rightarrow> string \<Rightarrow> unit rt" where
  "performCancellation env wid = bnd (query env (\<lambda>s. workflowRow s wid)) (\<lambda>row. case row of
      None \<Rightarrow> ret ()
    | Some r \<Rightarrow>
        if isTerminalWorkflowStatus (wf_status r) then ret ()
        else bnd (db env (\<lambda>ts. WorkflowCall (RecordCancellationIntent wid)) (\<lambda>_. ())) (\<lambda>_.
          bnd (cancel_current env wid r) (\<lambda>stepExecId.
            db env (\<lambda>ts. WorkflowCall (CancelStepAndWorkflow stepExecId wid (draft EvCancelled ts None (JObj [])))) (\<lambda>_. ()))))"

section \<open>The human pause gate\<close>

definition gate_kind :: "jsval \<Rightarrow> human_kind" where
  "gate_kind gate = (if fld gate ''kind'' = JStr ''input'' then InputRequest else ApprovalRequest)"

definition gate_choices :: "jsval \<Rightarrow> string list option" where
  "gate_choices gate = (case nullish JNull (fld gate ''choices'') of JArr xs \<Rightarrow> Some (map str_of xs) | _ \<Rightarrow> None)"

definition waiting_name :: "human_kind \<Rightarrow> string" where
  "waiting_name k = (case k of InputRequest \<Rightarrow> ''waiting_input'' | ApprovalRequest \<Rightarrow> ''waiting_approval'')"

definition waiting_status :: "human_kind \<Rightarrow> workflow_status" where
  "waiting_status k = (case k of InputRequest \<Rightarrow> WWaitingInput | ApprovalRequest \<Rightarrow> WWaitingApproval)"

definition pause_for :: "env \<Rightarrow> string \<Rightarrow> step_row \<Rightarrow> jsval \<Rightarrow> unit rt" where
  "pause_for env wid st gate = db env (\<lambda>ts. GateCall (CreateHumanRequestAndPause
     \<lparr>hi_request_id = humanRequestId (e_sha env) (se_id st), hi_workflow_id = wid, hi_step_execution_id = se_id st,
      hi_kind = gate_kind gate, hi_prompt = str_of (fld gate ''prompt''), hi_choices = gate_choices gate\<rparr>
     (waiting_status (gate_kind gate))
     (draft EvPaused ts None (JObj [(''reason'', JStr (waiting_name (gate_kind gate))), (''kind'', fld gate ''kind''),
        (''step_id'', JStr (se_step_id st)), (''step_execution_id'', JStr (se_id st))])))) (\<lambda>_. ())"

text \<open>\<open>True\<close> for \<open>proceed\<close>, \<open>False\<close> for \<open>stop\<close>.\<close>

definition evaluatePauseGate :: "env \<Rightarrow> string \<Rightarrow> step_row \<Rightarrow> jsval \<Rightarrow> bool rt" where
  "evaluatePauseGate env wid st gate =
    bnd (query env (\<lambda>s. humanRow s (humanRequestId (e_sha env) (se_id st)))) (\<lambda>existing.
      if \<exists>h\<in>set_option existing. hr_status h = HAnswered \<or> hr_status h = HApproved then ret True
      else if \<exists>h\<in>set_option existing. hr_status h = HRejected then
        bnd (failWorkflow env wid ''runtime_internal'' [(''reason'', JStr ''approval_rejected''), (''step_id'', JStr (se_step_id st))])
          (\<lambda>_. ret False)
      else bnd (pause_for env wid st gate) (\<lambda>_. ret False))"

section \<open>Render scope and context\<close>

text \<open>The outputs of completed steps by step id; a later execution replaces an earlier one.\<close>

definition step_outputs :: "step_row list \<Rightarrow> jsval" where
  "step_outputs steps = JObj (foldl (\<lambda>m st. case step_output st of
      Some v \<Rightarrow> if se_status st = SCompleted then AList.update (se_step_id st) v m else m | None \<Rightarrow> m) [] steps)"

definition truthy_fields :: "jsval \<Rightarrow> string list \<Rightarrow> (string \<times> jsval) list" where
  "truthy_fields v ks = concat (map (\<lambda>k. if truthy (fld v k) then [(k, fld v k)] else []) ks)"

definition context_of :: "wstore \<Rightarrow> string \<Rightarrow> jsval" where
  "context_of s wid = (case workflowRow s wid of
      None \<Rightarrow> JObj []
    | Some r \<Rightarrow> (case wf_context r of None \<Rightarrow> JObj [] | Some c \<Rightarrow> nullish (JObj []) c))"

definition buildRenderScope :: "env \<Rightarrow> string \<Rightarrow> workflow_row \<Rightarrow> step_row \<Rightarrow> render_scope rt" where
  "buildRenderScope env wid row st =
    bnd (query env (\<lambda>s. context_of s wid)) (\<lambda>ctx.
    bnd (query env (listStepExecutions wid)) (\<lambda>steps.
    bnd (query env (\<lambda>s. humanRow s (humanRequestId (e_sha env) (se_id st)))) (\<lambda>req.
      ret \<lparr>rs_inputs = inputs_of row, rs_stepOutputs = step_outputs steps, rs_round = se_round st,
        rs_context = JObj (truthy_fields ctx CONTEXT_GROUPS),
        rs_pauseResponse = (case req of None \<Rightarrow> None
          | Some h \<Rightarrow> if hr_kind h = InputRequest \<and> hr_status h = HAnswered then hr_response_value h else None)\<rparr>)))"

text \<open>\<open>[...(v ?? [])]\<close>\<close>

definition spread_list :: "jsval \<Rightarrow> jsval list option" where
  "spread_list v = (case v of JUndef \<Rightarrow> Some [] | JNull \<Rightarrow> Some [] | JArr xs \<Rightarrow> Some xs
     | JStr t \<Rightarrow> Some (map (\<lambda>c. JStr [c]) t) | _ \<Rightarrow> None)"

definition MAX_CTX_LIST :: nat where
  "MAX_CTX_LIST = 50"

text \<open>\<open>xs.slice(-MAX_CTX_LIST)\<close>\<close>

definition last_items :: "jsval list \<Rightarrow> jsval list" where
  "last_items xs = drop (length xs - MAX_CTX_LIST) xs"

definition status_evidence :: "string \<Rightarrow> bool \<Rightarrow> jsval" where
  "status_evidence taskId historyComplete = JObj [(''kind'', JStr ''task_status''),
     (''summary'', JStr (''task completed; history_complete='' @ (if historyComplete then ''true'' else ''false''))),
     (''task_id'', JStr taskId)]"

definition updated_context :: "jsval \<Rightarrow> int \<Rightarrow> jsval \<Rightarrow> jsval \<Rightarrow> string \<Rightarrow> bool \<Rightarrow> jsval option" where
  "updated_context cur round binding out taskId historyComplete =
    (case (spread_list (fld cur ''verified_evidence''), spread_list (fld cur ''prior_task_ids'')) of
       (Some ev, Some ids) \<Rightarrow> Some (JObj (spread (entries cur) (
          [(''current_round'', jint round)] @
          (if binding = JStr ''latest_planner_decision'' then [(''latest_planner_decision'', out)]
           else if binding = JStr ''latest_executor_handoff'' then [(''latest_executor_handoff'', out)] else []) @
          [(''verified_evidence'', JArr (last_items (ev @ [status_evidence taskId historyComplete]))),
           (''prior_task_ids'', JArr (last_items (ids @ [JStr taskId])))])))
     | _ \<Rightarrow> None)"

definition buildUpdatedContext :: "env \<Rightarrow> string \<Rightarrow> jsval \<Rightarrow> jsval \<Rightarrow> string \<Rightarrow> bool \<Rightarrow> (jsval \<times> int) rt" where
  "buildUpdatedContext env wid binding out taskId historyComplete =
    bnd (query env (\<lambda>s. map_option (\<lambda>r. (r, context_of s wid)) (workflowRow s wid))) (\<lambda>snap.
    bnd (present snap) (\<lambda>rc.
    bnd (present (updated_context (snd rc) (wf_current_round (fst rc)) binding out taskId historyComplete)) (\<lambda>ctx.
      ret (ctx, wf_context_revision (fst rc)))))"

section \<open>Parsing a result\<close>

definition parse_code :: "parse_error \<Rightarrow> string" where
  "parse_code e = (case e of ParseEmpty \<Rightarrow> ''output_empty'' | ParseTooLarge \<Rightarrow> ''output_too_large''
     | ParseNotJson \<Rightarrow> ''output_not_json'' | ParseNotObject \<Rightarrow> ''output_not_object'')"

text \<open>The code of a schema error and the field it names.\<close>

definition output_code :: "output_error \<Rightarrow> string \<times> string option" where
  "output_code e = (case e of OutputUnknownField k \<Rightarrow> (''output_unknown_field'', Some k)
     | OutputMissingRequired k \<Rightarrow> (''output_missing_required'', Some k)
     | OutputEnumInvalid k \<Rightarrow> (''output_enum_invalid'', Some k)
     | OutputTypeMismatch k \<Rightarrow> (''output_type_mismatch'', Some k)
     | OutputStringTooLong k \<Rightarrow> (''output_string_too_long'', Some k)
     | OutputArrayTooLong k \<Rightarrow> (''output_array_too_long'', Some k)
     | OutputTooLarge \<Rightarrow> (''output_too_large'', None))"

definition parseResultOutput :: "string \<Rightarrow> jsval \<Rightarrow> jsval \<Rightarrow> (string \<times> string option) + jsval" where
  "parseResultOutput resultText spec specStep =
    (case parseSingleJsonObject resultText MAX_AGENT_OUTPUT_BYTES of
       Inl e \<Rightarrow> Inl (parse_code e, None)
     | Inr v \<Rightarrow>
        (case validateAgainstSchema v (get_prop (fld spec ''output_schemas'') (str_of (fld specStep ''output_schema''))) of
           Inl e \<Rightarrow> Inl (output_code e) | Inr x \<Rightarrow> Inr x))"

end
