(* ===== verification/RuntimeLeases.thy ===== *)
theory RuntimeLeases
  imports RuntimeParts
begin

text \<open>
  The workspace-lease lifecycle of the runtime (\<open>src/workflow/runtime.ts\<close>): acquisition before
  a workflow starts, with the reconciliation of unknown outcomes, the revision gate around
  each step, and the release after the workflow is terminal.
\<close>

section \<open>Acquisition\<close>

definition setLeaseReason :: "env \<Rightarrow> string \<Rightarrow> string option \<Rightarrow> unit rt" where
  "setLeaseReason env leaseId reason =
    ignoring (db env (\<lambda>ts. GateCall (SetLeaseAcquireReason leaseId reason)) (\<lambda>_. ()))"

definition mark_active :: "env \<Rightarrow> workspace_lease \<Rightarrow> unit rt" where
  "mark_active env l = db env (\<lambda>ts. GateCall (MarkLeaseActive (wl_id l) (wl_base_revision l)
     (case wl_current_revision l of None \<Rightarrow> wl_base_revision l | Some r \<Rightarrow> Some r)
     (case wl_acquired_at l of None \<Rightarrow> ts | Some t \<Rightarrow> t))) (\<lambda>_. ())"

datatype lease_state = LeaseActive | LeasePending | LeaseBlocked

text \<open>The two parts of the \<open>try\<close> block of \<open>reconcileAmbiguousAcquire\<close>.\<close>

definition probe_lease :: "env \<Rightarrow> string \<Rightarrow> workspace_target \<Rightarrow> lease_state rt" where
  "probe_lease env wid tgt =
    bnd (ext env (GetLease (tg_node_id tgt) (tg_lease_id tgt)) (\<lambda>n. e_get env n (tg_node_id tgt) (tg_lease_id tgt))) (\<lambda>l.
      case l of
        None \<Rightarrow> bnd (setLeaseReason env (tg_lease_id tgt) (Some ''acquire_unconfirmed'')) (\<lambda>_. ret LeasePending)
      | Some x \<Rightarrow>
          if wl_status x = LActive \<and> wl_workflow_id x = wid then bnd (mark_active env x) (\<lambda>_. ret LeaseActive)
          else bnd (setLeaseReason env (tg_lease_id tgt) (Some ''lease_outcome_unknown'')) (\<lambda>_. ret LeasePending))"

definition reconcileAmbiguousAcquire :: "env \<Rightarrow> string \<Rightarrow> workspace_target \<Rightarrow> lease_state rt" where
  "reconcileAmbiguousAcquire env wid tgt = bnd (attempt (probe_lease env wid tgt)) (\<lambda>r. case r of
      Inr st \<Rightarrow> ret st
    | Inl _ \<Rightarrow> bnd (setLeaseReason env (tg_lease_id tgt) (Some ''lease_outcome_unknown'')) (\<lambda>_. ret LeasePending))"

definition acquire_lease :: "env \<Rightarrow> string \<Rightarrow> workspace_target \<Rightarrow> unit rt" where
  "acquire_lease env wid tgt =
    bnd (ext env (AcquireLease (tg_node_id tgt) wid (tg_workspace_key tgt))
          (\<lambda>n. e_acquire env n (tg_node_id tgt) wid (tg_workspace_key tgt)))
      (mark_active env)"

definition reconcileOneLease :: "env \<Rightarrow> string \<Rightarrow> workspace_target \<Rightarrow> lease_state rt" where
  "reconcileOneLease env wid tgt =
    bnd (query env (\<lambda>s. leaseRow s (tg_lease_id tgt))) (\<lambda>proj.
      if map_option lr_status proj = Some LActive then ret LeaseActive
      else bnd (db env (\<lambda>ts. GateCall (RecordLeaseIntent (tg_lease_id tgt) wid (tg_node_id tgt) (tg_workspace_key tgt))) (\<lambda>_. ())) (\<lambda>_.
        bnd (attempt (acquire_lease env wid tgt)) (\<lambda>r. case r of
            Inr _ \<Rightarrow> ret LeaseActive
          | Inl e \<Rightarrow> (case e of
              LeaseVerdict code \<Rightarrow> bnd (setLeaseReason env (tg_lease_id tgt) (Some code)) (\<lambda>_. ret LeaseBlocked)
            | TransientLease \<Rightarrow> reconcileAmbiguousAcquire env wid tgt
            | _ \<Rightarrow> raise e))))"

definition rollback_one :: "env \<Rightarrow> workspace_target \<Rightarrow> unit rt" where
  "rollback_one env t =
    bnd (ignoring (bnd (ext env (UndoLease (tg_node_id t) (tg_lease_id t)) (\<lambda>n. e_release env n (tg_node_id t) (tg_lease_id t)))
          (\<lambda>_. ret ()))) (\<lambda>_.
      ignoring (db env (\<lambda>ts. GateCall (MarkLeaseReleased (tg_lease_id t) ts)) (\<lambda>_. ())))"

definition rollbackAcquired :: "env \<Rightarrow> workspace_target list \<Rightarrow> unit rt" where
  "rollbackAcquired env targets = each (rollback_one env) targets"

fun acquire_all :: "env \<Rightarrow> string \<Rightarrow> workspace_target list \<Rightarrow> workspace_target list \<Rightarrow> lease_outcome rt" where
  "acquire_all env wid [] activated = ret Acquired"
| "acquire_all env wid (t # ts) activated = bnd (reconcileOneLease env wid t) (\<lambda>r. case r of
      LeaseActive \<Rightarrow> acquire_all env wid ts (activated @ [t])
    | LeasePending \<Rightarrow> bnd (rollbackAcquired env activated) (\<lambda>_. ret Pending)
    | LeaseBlocked \<Rightarrow> bnd (rollbackAcquired env activated) (\<lambda>_. ret Blocked))"

definition doAcquireOrReconcile :: "env \<Rightarrow> string \<Rightarrow> jsval \<Rightarrow> jsval \<Rightarrow> lease_outcome rt" where
  "doAcquireOrReconcile env wid spec inputs =
    (if \<not> e_has_leases env then ret Acquired
     else (case resolveWorkspaceTargets (e_sha env) wid spec inputs of
         Inl (WorkspaceNodeAmbiguous _) \<Rightarrow> raise (RuntimeError ''workspace_node_ambiguous'')
       | Inl (WorkspaceLeaseInvalid _) \<Rightarrow> raise (RuntimeError ''runtime_internal'')
       | Inr targets \<Rightarrow> acquire_all env wid targets []))"

text \<open>A call that finds an acquisition in flight shares its outcome.\<close>

definition acquireOrReconcileLeases :: "env \<Rightarrow> string \<Rightarrow> jsval \<Rightarrow> jsval \<Rightarrow> lease_outcome rt" where
  "acquireOrReconcileLeases env wid spec inputs = bnd (look (\<lambda>w. e_inflight env (w_tick w) wid)) (\<lambda>existing.
      case existing of Some r \<Rightarrow> ok_or_throw r | None \<Rightarrow> doAcquireOrReconcile env wid spec inputs)"

definition scheduleLeaseReconcile :: "env \<Rightarrow> string \<Rightarrow> unit rt" where
  "scheduleLeaseReconcile env wid = branch (\<lambda>w. stopped env w \<or> wid \<in> set (w_timers w)) (ret ())
     (own (ScheduleReconcile wid) (\<lambda>w. w\<lparr>w_timers := w_timers w @ [wid]\<rparr>))"

section \<open>The revision gate of a step\<close>

definition stepLeaseTarget :: "env \<Rightarrow> jsval \<Rightarrow> workflow_row \<Rightarrow> step_row \<Rightarrow> workspace_target option" where
  "stepLeaseTarget env spec row st =
    (if \<not> e_has_leases env then None
     else (case find_step spec (se_step_id st) of
         None \<Rightarrow> None
       | Some specStep \<Rightarrow>
           let role = step_role spec specStep
           in if \<not> truthy role \<or> \<not> truthy (fld role ''node_id'') then None
              else (case renderWorkspaceKey (opt_string (fld specStep ''workspace_key_template''))
                      (input_scope (inputs_of row) (se_round st)) of
                  Inr (Some key) \<Rightarrow> Some (target_of (e_sha env) (wf_id row) (str_of (fld role ''node_id'')) key)
                | _ \<Rightarrow> None)))"

definition observe :: "env \<Rightarrow> workspace_target \<Rightarrow> workspace_revision rt" where
  "observe env t = ext env (ObserveRevision (tg_node_id t) (tg_workspace_key t))
     (\<lambda>n. e_observe env n (tg_node_id t) (tg_workspace_key t))"

text \<open>The observation loop: \<open>None\<close> when the runtime stops or the wait is aborted.\<close>

fun observe_retry :: "nat \<Rightarrow> env \<Rightarrow> workspace_target \<Rightarrow> nat \<Rightarrow> workspace_revision option rt" where
  "observe_retry 0 env t n = unfinished"
| "observe_retry (Suc fuel) env t n = branch (\<lambda>w. stopped env w \<or> aborted env w) (ret None)
    (bnd (attempt (observe env t)) (\<lambda>r. case r of
        Inr v \<Rightarrow> ret (Some v)
      | Inl e \<Rightarrow> if e = TransientLease then bnd (backoff env n) (\<lambda>_. observe_retry fuel env t (n + 1)) else raise e))"

definition expected_revision :: "lease_row option \<Rightarrow> workspace_revision option" where
  "expected_revision proj = (case proj of None \<Rightarrow> None
     | Some l \<Rightarrow> (case lr_current_revision l of None \<Rightarrow> lr_base_revision l | Some r \<Rightarrow> Some r))"

text \<open>\<open>True\<close> for \<open>ok\<close>, \<open>False\<close> for \<open>stop\<close>.\<close>

definition revisionGateBefore :: "nat \<Rightarrow> env \<Rightarrow> string \<Rightarrow> step_row \<Rightarrow> workspace_target \<Rightarrow> bool rt" where
  "revisionGateBefore fuel env wid st target =
    (if \<not> e_has_leases env then ret True
     else bnd (query env (\<lambda>s. leaseRow s (tg_lease_id target))) (\<lambda>proj.
       bnd (observe_retry fuel env target 0) (\<lambda>observed. case observed of
           None \<Rightarrow> ret False
         | Some v \<Rightarrow>
             bnd (db env (\<lambda>ts. GateCall (SetStepRevisionBefore (se_id st) (Some v))) (\<lambda>_. ())) (\<lambda>_.
               if expected_revision proj \<noteq> None \<and> \<not> revisionsMatch (expected_revision proj) (Some v) then
                 bnd (blockWorkflow env wid ''workspace_revision_conflict'' [(''step_id'', JStr (se_step_id st)),
                     (''round'', jint (se_round st)), (''workspace_key'', JStr (tg_workspace_key target))]) (\<lambda>_. ret False)
               else ret True))))"

definition record_revision :: "env \<Rightarrow> step_row \<Rightarrow> workspace_target \<Rightarrow> unit rt" where
  "record_revision env st t = bnd (observe env t) (\<lambda>v.
     bnd (db env (\<lambda>ts. GateCall (SetStepRevisionAfter (se_id st) (Some v))) (\<lambda>_. ())) (\<lambda>_.
       db env (\<lambda>ts. GateCall (SetLeaseRevision (tg_lease_id t) (Some v))) (\<lambda>_. ())))"

text \<open>\<open>for (attempt = a; attempt < max; attempt++)\<close>, counted down.\<close>

fun record_retry :: "nat \<Rightarrow> env \<Rightarrow> step_row \<Rightarrow> workspace_target \<Rightarrow> nat \<Rightarrow> unit rt" where
  "record_retry 0 env st t n = ret ()"
| "record_retry (Suc left) env st t n = branch (stopped env) (ret ())
    (bnd (attempt (record_revision env st t)) (\<lambda>r. case r of
        Inr _ \<Rightarrow> ret ()
      | Inl e \<Rightarrow> if e = TransientLease then bnd (backoff env n) (\<lambda>_. record_retry left env st t (n + 1)) else ret ()))"

definition observeRevisionAfter :: "env \<Rightarrow> jsval \<Rightarrow> workflow_row \<Rightarrow> step_row \<Rightarrow> unit rt" where
  "observeRevisionAfter env spec row st = (case stepLeaseTarget env spec row st of
      None \<Rightarrow> ret ()
    | Some t \<Rightarrow> record_retry (e_maxReleaseAttempts env) env st t 0)"

section \<open>Release\<close>

definition release_once :: "env \<Rightarrow> string \<Rightarrow> string \<Rightarrow> unit rt" where
  "release_once env nodeId leaseId =
    bnd (ext env (ReleaseLease nodeId leaseId) (\<lambda>n. e_release env n nodeId leaseId)) (\<lambda>_.
      db env (\<lambda>ts. GateCall (MarkLeaseReleased leaseId ts)) (\<lambda>_. ()))"

fun release_retry :: "nat \<Rightarrow> env \<Rightarrow> string \<Rightarrow> string \<Rightarrow> nat \<Rightarrow> unit rt" where
  "release_retry 0 env nodeId leaseId n = ret ()"
| "release_retry (Suc left) env nodeId leaseId n = branch (stopped env) (ret ())
    (bnd (attempt (release_once env nodeId leaseId)) (\<lambda>r. case r of
        Inr _ \<Rightarrow> ret ()
      | Inl e \<Rightarrow> if e = TransientLease then bnd (backoff env n) (\<lambda>_. release_retry left env nodeId leaseId (n + 1)) else ret ()))"

definition releaseLeaseWithRetry :: "env \<Rightarrow> string \<Rightarrow> string \<Rightarrow> unit rt" where
  "releaseLeaseWithRetry env nodeId leaseId =
    bnd (db env (\<lambda>ts. GateCall (RequestLeaseRelease leaseId ts)) (\<lambda>_. ())) (\<lambda>_.
      release_retry (e_maxReleaseAttempts env) env nodeId leaseId 0)"

definition release_row :: "env \<Rightarrow> lease_row \<Rightarrow> unit rt" where
  "release_row env l = releaseLeaseWithRetry env (lr_node_id l) (lr_id l)"

definition settleLeaseReleases :: "env \<Rightarrow> string \<Rightarrow> unit rt" where
  "settleLeaseReleases env wid =
    (if \<not> e_has_leases env then ret ()
     else bnd (query env (\<lambda>s. workflowRow s wid)) (\<lambda>row. case row of
         None \<Rightarrow> ret ()
       | Some r \<Rightarrow>
           if wf_status r \<notin> {WCompleted, WFailed, WCancelled} then ret ()
           else bnd (query env (listWorkspaceLeaseProjections wid)) (\<lambda>leases.
             each (\<lambda>l. if lr_status l = LReleased then ret () else release_row env l) leases)))"

definition recoverLeaseReleases :: "env \<Rightarrow> nat rt" where
  "recoverLeaseReleases env =
    (if \<not> e_has_leases env then ret 0
     else bnd (query env listReleasableWorkspaceLeases) (\<lambda>pending.
       bnd (each (release_row env) pending) (\<lambda>_. ret (length pending))))"

end
