(* ===== verification/RuntimeTasks.thy ===== *)
theory RuntimeTasks
  imports RuntimeLeases
begin

text \<open>
  One step of a workflow in the runtime (\<open>src/workflow/runtime.ts\<close>): starting it, creating and
  binding its task, awaiting the task, resolving and checking its result, and routing on the
  output. Loops without a bound of their own take fuel and are \<open>Unfinished\<close> when it runs out.
\<close>

section \<open>Starting a step\<close>

definition pending_step :: "string \<Rightarrow> string \<Rightarrow> int \<Rightarrow> create_step_input" where
  "pending_step wid stepId round = \<lparr>cs_id = stepExecutionId wid stepId round 1, cs_workflow_id = wid, cs_step_id = stepId,
     cs_round = round, cs_attempt = 1, cs_task_id = None, cs_status = Some SPending\<rparr>"

definition started_draft :: "string \<Rightarrow> string \<Rightarrow> int \<Rightarrow> string \<Rightarrow> event_draft" where
  "started_draft wid stepId round ts = draft EvStepStarted ts (Some (stepExecutionId wid stepId round 1))
     (JObj [(''step_id'', JStr stepId), (''round'', jint round), (''attempt'', jint 1)])"

definition startStep :: "env \<Rightarrow> string \<Rightarrow> string \<Rightarrow> int \<Rightarrow> step_row rt" where
  "startStep env wid stepId round =
    bnd (db env (\<lambda>ts. WorkflowCall (EnsureStepStarted (pending_step wid stepId round) stepId (started_draft wid stepId round ts)))
          (getStepExecutionByKey wid stepId round 1)) present"

section \<open>Creating and binding the task\<close>

definition if_truthy :: "jsval \<Rightarrow> jsval" where
  "if_truthy v = (if truthy v then v else JUndef)"

definition task_request_of :: "string \<Rightarrow> jsval \<Rightarrow> jsval \<Rightarrow> step_row \<Rightarrow> string \<Rightarrow> string option \<Rightarrow> string option \<Rightarrow> task_request" where
  "task_request_of wid role specStep st body key leaseId =
    \<lparr>rq_agent = fld role ''agent'', rq_node_id = if_truthy (fld role ''node_id''), rq_text = body,
     rq_workspace_key = key, rq_permission_mode = if_truthy (fld specStep ''permission_mode''),
     rq_workspace_write = (truthy (fld specStep ''workspace_write'') \<and> leaseId \<noteq> None),
     rq_metadata = JObj [(''workflow_id'', JStr wid), (''step_execution_id'', JStr (se_id st)), (''step_id'', JStr (se_step_id st)),
       (''round'', jint (se_round st)), (''attempt'', jint (se_attempt st))],
     rq_idempotency_key = se_id st, rq_workspace_lease_id = leaseId, rq_verify = if_truthy (fld specStep ''verify'')\<rparr>"

definition create_and_bind :: "env \<Rightarrow> string \<Rightarrow> step_row \<Rightarrow> task_request \<Rightarrow> unit rt" where
  "create_and_bind env wid st req = bnd (ext env (CreateTask req) (\<lambda>n. e_create env n req)) (\<lambda>taskId.
     db env (\<lambda>ts. WorkflowCall (BindStepTaskOnce (se_id st) taskId wid (draft EvStepTaskCreated ts (Some (se_id st))
       (JObj [(''task_id'', JStr taskId), (''step_id'', JStr (se_step_id st)), (''round'', jint (se_round st))])))) (\<lambda>_. ()))"

text \<open>\<open>True\<close> for \<open>ok\<close>, \<open>False\<close> for \<open>stop\<close>.\<close>

fun create_retry :: "nat \<Rightarrow> env \<Rightarrow> string \<Rightarrow> workflow_row \<Rightarrow> step_row \<Rightarrow> task_request \<Rightarrow> nat \<Rightarrow> bool rt" where
  "create_retry 0 env wid row st req n = unfinished"
| "create_retry (Suc fuel) env wid row st req n = branch (\<lambda>w. stopped env w \<or> aborted env w) (ret False)
    (branch (deadlineExceeded env row) (ret False)
      (bnd (attempt (create_and_bind env wid st req)) (\<lambda>r. case r of
          Inr _ \<Rightarrow> ret True
        | Inl e \<Rightarrow>
            if e = TransientTask then bnd (backoff env n) (\<lambda>_. create_retry fuel env wid row st req (n + 1))
            else bnd (failWorkflow env wid ''runtime_internal'' [(''reason'', JStr ''task_create_failed''), (''step_id'', JStr (se_step_id st))])
              (\<lambda>_. ret False))))"

definition render_code :: "render_error \<Rightarrow> string" where
  "render_code e = (case e of RenderMissingValue \<Rightarrow> ''render_missing_value'' | RenderTooLarge \<Rightarrow> ''render_too_large''
     | RenderBadReference \<Rightarrow> ''render_bad_reference'')"

definition fail_render :: "env \<Rightarrow> string \<Rightarrow> step_row \<Rightarrow> render_error \<Rightarrow> bool rt" where
  "fail_render env wid st e =
    bnd (failWorkflow env wid ''render_error'' [(''code'', JStr (render_code e)), (''step_id'', JStr (se_step_id st))]) (\<lambda>_. ret False)"

text \<open>The rest of \<open>createAndBindTask\<close> after the pause gate.\<close>

definition create_rendered ::
  "nat \<Rightarrow> env \<Rightarrow> string \<Rightarrow> jsval \<Rightarrow> workflow_row \<Rightarrow> step_row \<Rightarrow> jsval \<Rightarrow> jsval \<Rightarrow> bool rt" where
  "create_rendered fuel env wid spec row st specStep role =
    bnd (buildRenderScope env wid row st) (\<lambda>scope.
      case renderPrompt (str_of (fld specStep ''prompt_template'')) scope MAX_RENDERED_PROMPT_BYTES of
        Inl e \<Rightarrow> fail_render env wid st e
      | Inr body \<Rightarrow> (case renderWorkspaceKey (opt_string (fld specStep ''workspace_key_template'')) scope of
          Inl e \<Rightarrow> fail_render env wid st e
        | Inr key \<Rightarrow> (case stepLeaseTarget env spec row st of
            None \<Rightarrow> create_retry fuel env wid row st (task_request_of wid role specStep st body key None) 0
          | Some t \<Rightarrow> bnd (revisionGateBefore fuel env wid st t) (\<lambda>go.
              if go then create_retry fuel env wid row st (task_request_of wid role specStep st body key (Some (tg_lease_id t))) 0
              else ret False))))"

definition createAndBindTask :: "nat \<Rightarrow> env \<Rightarrow> string \<Rightarrow> jsval \<Rightarrow> workflow_row \<Rightarrow> step_row \<Rightarrow> bool rt" where
  "createAndBindTask fuel env wid spec row st =
    (case find_step spec (se_step_id st) of
       Some specStep \<Rightarrow>
         if truthy (role_of spec specStep) then
           (if truthy (fld specStep ''pause_before'') then
              bnd (evaluatePauseGate env wid st (fld specStep ''pause_before'')) (\<lambda>go.
                if go then create_rendered fuel env wid spec row st specStep (role_of spec specStep) else ret False)
            else create_rendered fuel env wid spec row st specStep (role_of spec specStep))
         else bnd (failWorkflow env wid ''runtime_internal'' [(''reason'', JStr ''unknown_step_or_role''), (''step_id'', JStr (se_step_id st))])
           (\<lambda>_. ret False)
     | None \<Rightarrow> bnd (failWorkflow env wid ''runtime_internal'' [(''reason'', JStr ''unknown_step_or_role''), (''step_id'', JStr (se_step_id st))])
         (\<lambda>_. ret False))"

section \<open>Awaiting the task\<close>

datatype await_result = AwRead task_read | AwShutdown | AwDeadline | AwCancel

fun awaitTask :: "nat \<Rightarrow> env \<Rightarrow> workflow_row \<Rightarrow> string \<Rightarrow> int \<Rightarrow> nat \<Rightarrow> await_result rt" where
  "awaitTask 0 env row taskId cursor n = unfinished"
| "awaitTask (Suc fuel) env row taskId cursor n = branch (stopped env) (ret AwShutdown)
    (branch (aborted env) (ret AwCancel)
      (branch (deadlineExceeded env row) (ret AwDeadline)
        (bnd (attempt (ext env (WaitTask taskId cursor) (\<lambda>k. e_wait env k taskId cursor))) (\<lambda>r. case r of
            Inr read \<Rightarrow> if rd_terminal read then ret (AwRead read) else awaitTask fuel env row taskId (rd_next_event_id read) 0
          | Inl e \<Rightarrow>
              if e = TransientTask then branch (aborted env) (ret AwCancel)
                (bnd (backoff env n) (\<lambda>_. awaitTask fuel env row taskId cursor (n + 1)))
              else raise e))))"

section \<open>The result of a terminal task\<close>

text \<open>\<open>this.now() - new Date(since).getTime() > this.resultIngestionDeadlineMs\<close>\<close>

definition result_overdue :: "env \<Rightarrow> string option \<Rightarrow> world \<Rightarrow> bool" where
  "result_overdue env since w = (case (case since of None \<Rightarrow> Some 0 | Some t \<Rightarrow> e_date env t) of
      None \<Rightarrow> False | Some t \<Rightarrow> e_now env (w_tick w) - t > e_resultIngestionDeadlineMs env)"

definition awaited_since :: "env \<Rightarrow> step_row \<Rightarrow> string option rt" where
  "awaited_since env st = bnd (query env (\<lambda>s. stepRow s (se_id st))) (\<lambda>proj.
     case (case proj of None \<Rightarrow> None | Some r \<Rightarrow> se_result_awaited_since r) of
       Some t \<Rightarrow> if t = [] then db env (\<lambda>ts. GateCall (MarkStepAwaitingResult (se_id st) ts))
           (\<lambda>s. case stepRow s (se_id st) of None \<Rightarrow> None | Some r \<Rightarrow> se_result_awaited_since r) else ret (Some t)
     | None \<Rightarrow> db env (\<lambda>ts. GateCall (MarkStepAwaitingResult (se_id st) ts))
         (\<lambda>s. case stepRow s (se_id st) of None \<Rightarrow> None | Some r \<Rightarrow> se_result_awaited_since r))"

definition task_meta :: "task_read \<Rightarrow> step_row \<Rightarrow> (string \<times> jsval) list" where
  "task_meta cur st = [(''task_id'', JStr (rd_task_id cur)), (''step_id'', JStr (se_step_id st)), (''round'', jint (se_round st))]"

text \<open>The read to route on, or \<open>None\<close> when the outcome is already handled.\<close>

fun resolveTerminalResult :: "nat \<Rightarrow> env \<Rightarrow> string \<Rightarrow> step_row \<Rightarrow> task_read \<Rightarrow> int \<Rightarrow> nat \<Rightarrow> task_read option rt" where
  "resolveTerminalResult 0 env wid st cur cursor n = unfinished"
| "resolveTerminalResult (Suc fuel) env wid st cur cursor n =
    (if rd_result_status cur = Some ''available'' \<and> rd_result_text cur \<noteq> None then ret (Some cur)
     else if rd_result_status cur = Some ''invalid'' then
       bnd (failStep env wid st [(''reason'', JStr ''task_result_invalid''), (''task_id'', JStr (rd_task_id cur))]) (\<lambda>_. ret None)
     else if rd_result_status cur = Some ''missing'' then
       bnd (blockWorkflow env wid ''task_result_missing'' (task_meta cur st)) (\<lambda>_. ret None)
     else branch (\<lambda>w. stopped env w \<or> aborted env w) (ret None)
       (bnd (awaited_since env st) (\<lambda>since.
         branch (result_overdue env since)
           (bnd (blockWorkflow env wid ''task_result_timeout'' (task_meta cur st)) (\<lambda>_. ret None))
           (bnd (backoff env n) (\<lambda>_.
             bnd (attempt (ext env (WaitTask (rd_task_id cur) cursor) (\<lambda>k. e_wait env k (rd_task_id cur) cursor))) (\<lambda>r. case r of
                 Inr read \<Rightarrow> resolveTerminalResult fuel env wid st read (rd_next_event_id read) (n + 1)
               | Inl e \<Rightarrow> if e = TransientTask then resolveTerminalResult fuel env wid st cur cursor (n + 1) else raise e))))))"

definition complete_step :: "env \<Rightarrow> string \<Rightarrow> jsval \<Rightarrow> step_row \<Rightarrow> jsval \<Rightarrow> task_read \<Rightarrow> bool rt" where
  "complete_step env wid specStep st v read =
    bnd (buildUpdatedContext env wid (fld specStep ''context_binding'') v (rd_task_id read) (rd_history_complete read)) (\<lambda>cr.
      bnd (db env (\<lambda>ts. WorkflowCall (CompleteStep (se_id st) v wid (Some (snd cr)) (fst cr)
            (draft EvStepCompleted ts (Some (se_id st)) (JObj [(''step_id'', JStr (se_step_id st)), (''round'', jint (se_round st))])))) (\<lambda>_. ()))
        (\<lambda>_. ret False))"

definition invalid_output_meta :: "string \<times> string option \<Rightarrow> (string \<times> jsval) list" where
  "invalid_output_meta e = [(''reason'', JStr ''invalid_output''), (''code'', JStr (fst e))] @
     (case snd e of None \<Rightarrow> [] | Some f \<Rightarrow> if f = [] then [] else [(''field'', JStr f)])"

text \<open>\<open>True\<close> when the driver stops.\<close>

definition handleTaskTerminal :: "nat \<Rightarrow> env \<Rightarrow> string \<Rightarrow> jsval \<Rightarrow> step_row \<Rightarrow> task_read \<Rightarrow> bool rt" where
  "handleTaskTerminal fuel env wid spec st read =
    bnd (query env (\<lambda>s. workflowRow s wid)) (\<lambda>found. bnd (present found) (\<lambda>row.
    bnd (observeRevisionAfter env spec row st) (\<lambda>_.
      if wf_cancel_requested row then bnd (performCancellation env wid) (\<lambda>_. ret True)
      else if rd_status read = ''failed'' then
        bnd (failStep env wid st [(''reason'', JStr ''task_failed''), (''task_id'', JStr (rd_task_id read))]) (\<lambda>_. ret True)
      else if rd_status read = ''cancelled'' then
        bnd (failStep env wid st [(''reason'', JStr ''task_cancelled_external''), (''task_id'', JStr (rd_task_id read))]) (\<lambda>_. ret True)
      else bnd (resolveTerminalResult fuel env wid st read (rd_next_event_id read) 0) (\<lambda>resolved. case resolved of
          None \<Rightarrow> ret True
        | Some r \<Rightarrow> bnd (present (find_step spec (se_step_id st))) (\<lambda>specStep.
            case parseResultOutput (case rd_result_text r of None \<Rightarrow> [] | Some t \<Rightarrow> t) spec specStep of
              Inl e \<Rightarrow> bnd (failStep env wid st (invalid_output_meta e)) (\<lambda>_. ret True)
            | Inr v \<Rightarrow> complete_step env wid specStep st v r)))))"

section \<open>Completion policy\<close>

text \<open>\<open>(await read)?.x ?? null\<close> under \<open>try ... catch { }\<close>\<close>

definition or_none :: "'a option rt \<Rightarrow> 'a option rt" where
  "or_none m = bnd (attempt m) (\<lambda>r. ret (case r of Inr x \<Rightarrow> x | Inl _ \<Rightarrow> None))"

definition result_of :: "env \<Rightarrow> string \<Rightarrow> task_result option rt" where
  "result_of env taskId = bnd (query env (getTaskResultDurable (e_sha env) taskId)) (\<lambda>r. case r of
      Inl e \<Rightarrow> raise (StoreFailed e)
    | Inr None \<Rightarrow> ret None
    | Inr (Some sr) \<Rightarrow> ret (snd sr))"

definition assembleStepEvidence :: "env \<Rightarrow> step_row \<Rightarrow> verified_evidence rt" where
  "assembleStepEvidence env st = (case se_task_id st of
      None \<Rightarrow> ret (assembleEvidence (e_sha env) None None (se_revision_before st) (se_revision_after st))
    | Some t \<Rightarrow>
        if t = [] then ret (assembleEvidence (e_sha env) None None (se_revision_before st) (se_revision_after st))
        else bnd (or_none (query env (\<lambda>s. map_option tk_status (taskRow s t)))) (\<lambda>taskStatus.
          bnd (or_none (result_of env t)) (\<lambda>result.
            ret (assembleEvidence (e_sha env) taskStatus result (se_revision_before st) (se_revision_after st)))))"

definition declaredRemainingWork :: "step_row \<Rightarrow> jsval list option" where
  "declaredRemainingWork st = (case step_output st of None \<Rightarrow> None
     | Some v \<Rightarrow> (case fld v ''remaining_work'' of JArr xs \<Rightarrow> Some xs | _ \<Rightarrow> None))"

definition opt_json :: "('a \<Rightarrow> jsval) \<Rightarrow> 'a option \<Rightarrow> jsval" where
  "opt_json f v = (case v of None \<Rightarrow> JNull | Some x \<Rightarrow> f x)"

definition evidence_json :: "verified_evidence \<Rightarrow> jsval" where
  "evidence_json e = JObj [(''task_status'', opt_json JStr (ve_task_status e)), (''exit_code'', opt_json jint (ve_exit_code e)),
     (''content_hash'', opt_json JStr (ve_content_hash e)), (''revision_before'', opt_json JStr (ve_revision_before e)),
     (''revision_after'', opt_json JStr (ve_revision_after e)), (''repository_changed'', opt_json JBool (ve_repository_changed e)),
     (''changed_files'', opt_json (\<lambda>fs. JArr (map JStr fs)) (ve_changed_files e)),
     (''changed_files_hash'', opt_json JStr (ve_changed_files_hash e)), (''tests_passed'', opt_json JBool (ve_tests_passed e))]"

definition decision_name :: "completion_decision \<Rightarrow> string" where
  "decision_name d = (case d of Complete \<Rightarrow> ''complete'' | BlockedVerification _ \<Rightarrow> ''blocked'' | FailedEvidence _ \<Rightarrow> ''failed'')"

text \<open>The terminal transition a decision leads to.\<close>

fun decided :: "string \<Rightarrow> completion_decision \<Rightarrow> string \<Rightarrow> string \<Rightarrow> store_call" where
  "decided wid Complete target ts = WorkflowCall (TerminalizeWorkflow wid WCompleted
     (Some (draft EvEdgeSelected ts None (JObj [(''to'', JStr target), (''gated'', JBool True)])))
     (draft EvCompleted ts None (JObj [(''verified'', JBool True)])))"
| "decided wid (BlockedVerification missing) target ts = WorkflowCall (TerminalizeWorkflow wid WBlocked
     (Some (draft EvEdgeSelected ts None (JObj [(''to'', JStr target), (''gated'', JBool True)])))
     (draft EvBlocked ts None (JObj [(''reason'', JStr ''verification_required''), (''missing'', JArr (map JStr missing))])))"
| "decided wid (FailedEvidence reason) target ts = WorkflowCall (TerminalizeWorkflow wid WFailed
     (Some (draft EvEdgeSelected ts None (JObj [(''to'', JStr target), (''gated'', JBool True)])))
     (draft EvFailed ts None (JObj [(''reason'', JStr reason)])))"

definition gateCompletion :: "env \<Rightarrow> string \<Rightarrow> jsval \<Rightarrow> step_row \<Rightarrow> string \<Rightarrow> bool rt" where
  "gateCompletion env wid spec st target =
    bnd (assembleStepEvidence env st) (\<lambda>evidence.
      let decision = evaluateCompletion (policy_of (fld spec ''completion_policy'')) evidence (declaredRemainingWork st)
      in bnd (ignoring (db env (\<lambda>ts. GateCall (RecordCompletionEvidence (se_id st) wid (evidence_json evidence) (decision_name decision))) (\<lambda>_. ())))
        (\<lambda>_. bnd (db env (decided wid decision target) (\<lambda>_. ())) (\<lambda>_. ret True)))"

section \<open>Stall detection\<close>

definition latestResultContentHash :: "env \<Rightarrow> string \<Rightarrow> string \<Rightarrow> string option rt" where
  "latestResultContentHash env wid excludeStepId =
    bnd (query env (listStepExecutions wid)) (\<lambda>steps.
      let candidates = filter (\<lambda>r. se_status r = SCompleted \<and> se_task_id r \<noteq> None \<and> se_task_id r \<noteq> Some [] \<and>
            se_step_id r \<noteq> excludeStepId) steps
      in if candidates = [] then ret None
         else (case se_task_id (last candidates) of None \<Rightarrow> ret None
           | Some t \<Rightarrow> bnd (or_none (result_of env t)) (\<lambda>r. ret (map_option tr_content_hash r))))"

text \<open>The observed workspace revision of the first held lease.\<close>

definition workspace_signal :: "lease_row list \<Rightarrow> string" where
  "workspace_signal leases = (case find (\<lambda>l. lr_status l = LActive \<or> lr_status l = LReleaseRequested) leases of
      None \<Rightarrow> ''none''
    | Some l \<Rightarrow> (case lr_current_revision l of None \<Rightarrow> ''none''
        | Some r \<Rightarrow> if state_hash r = [] then ''none'' else state_hash r))"

definition stall_values_of :: "step_row \<Rightarrow> jsval \<Rightarrow> string \<Rightarrow> string option \<Rightarrow> stall_values" where
  "stall_values_of st ctx wsRev verified =
    (let out = (case step_output st of None \<Rightarrow> JObj [] | Some v \<Rightarrow> v)
     in \<lparr>sv_planner_next_step = to_text (nullish (JStr []) (fld out ''next_step'')),
         sv_remaining_work = (case stringify (nullish JNull (fld (fld ctx ''latest_executor_handoff'') ''remaining_work'')) of
            None \<Rightarrow> ''undefined'' | Some t \<Rightarrow> t),
         sv_workspace_revision = wsRev,
         sv_verified_evidence = (case verified of None \<Rightarrow> ''none'' | Some h \<Rightarrow> h)\<rparr>)"

definition stall_json :: "stall_values \<Rightarrow> jsval" where
  "stall_json v = JObj [(''planner_next_step'', JStr (sv_planner_next_step v)), (''remaining_work'', JStr (sv_remaining_work v)),
     (''workspace_revision'', JStr (sv_workspace_revision v)), (''verified_evidence'', JStr (sv_verified_evidence v))]"

definition checkStall :: "env \<Rightarrow> string \<Rightarrow> jsval \<Rightarrow> step_row \<Rightarrow> bool rt" where
  "checkStall env wid spec st =
    (let sp = fld spec ''stall_policy'' in
     bnd (query env (\<lambda>s. context_of s wid)) (\<lambda>ctx.
     bnd (attempt (query env (listWorkspaceLeaseProjections wid))) (\<lambda>leases.
     bnd (latestResultContentHash env wid (se_step_id st)) (\<lambda>verified.
       let values = stall_values_of st ctx (case leases of Inr ls \<Rightarrow> workspace_signal ls | Inl _ \<Rightarrow> ''none'') verified;
           fp = computeStallFingerprint (e_sha env) (signals_of sp) values
       in bnd (db env (\<lambda>ts. GateCall (RecordStallRound wid (se_round st) fp (stall_json values))) (\<lambda>_. ())) (\<lambda>_.
          bnd (query env (listStallRounds wid)) (\<lambda>rows.
            if isStalled (map sr_fingerprint rows) (int_of (fld sp ''max_stalled_rounds'')) then
              bnd (blockWorkflow env wid ''no_progress'' [(''round'', jint (se_round st)), (''signals'', fld sp ''signals''),
                  (''stalled_rounds'', fld sp ''max_stalled_rounds'')]) (\<lambda>_. ret True)
            else ret False))))))"

section \<open>Routing\<close>

definition terminal_event :: "workflow_status \<Rightarrow> workflow_event_type" where
  "terminal_event status = (if status = WCompleted then EvCompleted else if status = WFailed then EvFailed else EvBlocked)"

definition terminal_payload :: "workflow_status \<Rightarrow> jsval" where
  "terminal_payload status = JObj (if status = WCompleted then [(''legacy_unverified'', JBool True)]
     else if status = WBlocked then [(''reason'', JStr ''routed_blocked'')] else [])"

definition route_terminal :: "env \<Rightarrow> string \<Rightarrow> jsval \<Rightarrow> step_row \<Rightarrow> string \<Rightarrow> bool rt" where
  "route_terminal env wid spec st target =
    bnd (present (terminalTargetToStatus target)) (\<lambda>status.
      if status = WCompleted \<and> truthy (fld spec ''completion_policy'') then gateCompletion env wid spec st target
      else bnd (db env (\<lambda>ts. WorkflowCall (TerminalizeWorkflow wid status
            (Some (draft EvEdgeSelected ts None (JObj [(''to'', JStr target)])))
            (draft (terminal_event status) ts None (terminal_payload status)))) (\<lambda>_. ())) (\<lambda>_. ret True))"

definition advance_to :: "env \<Rightarrow> string \<Rightarrow> step_row \<Rightarrow> string \<Rightarrow> bool \<Rightarrow> bool rt" where
  "advance_to env wid st target loop =
    (let nextRound = (if loop then se_round st + 1 else se_round st)
     in bnd (db env (\<lambda>ts. WorkflowCall (AdvanceWorkflow wid
            (draft EvEdgeSelected ts None (JObj [(''to'', JStr target), (''kind'', JStr (if loop then ''loop'' else ''normal''))]))
            (if loop then Some (draft EvRoundAdvanced ts None (JObj [(''round'', jint nextRound)])) else None)
            (pending_step wid target nextRound) target (started_draft wid target nextRound ts))) (\<lambda>_. ()))
        (\<lambda>_. ret False))"

definition route_step :: "env \<Rightarrow> string \<Rightarrow> jsval \<Rightarrow> step_row \<Rightarrow> string \<Rightarrow> bool \<Rightarrow> bool rt" where
  "route_step env wid spec st target loop =
    (if loop \<and> \<not> canTakeLoopEdge (se_round st) (spec_limit spec ''max_rounds'')
     then bnd (failLimit env wid ''max_rounds'') (\<lambda>_. ret True)
     else if loop \<and> truthy (fld spec ''stall_policy'') then
       bnd (checkStall env wid spec st) (\<lambda>stalled. if stalled then ret True else advance_to env wid st target loop)
     else advance_to env wid st target loop)"

text \<open>\<open>True\<close> when the driver stops.\<close>

definition routeAndAdvance :: "env \<Rightarrow> string \<Rightarrow> jsval \<Rightarrow> step_row \<Rightarrow> bool rt" where
  "routeAndAdvance env wid spec st = (case step_output st of
      None \<Rightarrow> bnd (failWorkflow env wid ''runtime_internal'' [(''reason'', JStr ''missing_step_output''), (''step_id'', JStr (se_step_id st))])
        (\<lambda>_. ret True)
    | Some out \<Rightarrow> (case selectEdge spec (se_step_id st) out (se_round st) of
        Inl e \<Rightarrow> bnd (failWorkflow env wid (if e = RoutingNoEdge then ''routing_no_edge'' else ''routing_ambiguous'')
            [(''step_id'', JStr (se_step_id st))]) (\<lambda>_. ret True)
      | Inr d \<Rightarrow>
          if decision_terminal d then route_terminal env wid spec st (decision_target d)
          else route_step env wid spec st (decision_target d) (decision_loop d)))"

end
