(* ===== verification/Runtime.thy ===== *)
theory Runtime
  imports RuntimeTasks
begin

text \<open>
  The driver loop and the public operations of the workflow runtime
  (\<open>src/workflow/runtime.ts\<close>). A pump is the background task that drives one workflow:
  \<open>ensurePump\<close> notes that it starts one and \<open>pump\<close> is what that task runs. A promise that another
  call already has in flight is shared, not repeated.
\<close>

section \<open>The runtime's own maps\<close>

definition adjust :: "(world \<Rightarrow> world) \<Rightarrow> unit rt" where
  "adjust f w = (Value (), f w)"

definition ensurePump :: "string \<Rightarrow> unit rt" where
  "ensurePump wid = branch (\<lambda>w. wid \<in> set (w_pumps w)) (ret ())
     (own (StartPump wid) (\<lambda>w. w\<lparr>w_pumps := w_pumps w @ [wid]\<rparr>))"

definition abort_wait :: "string \<Rightarrow> unit rt" where
  "abort_wait wid = branch (\<lambda>w. wid \<in> set (w_aborts w)) (own (AbortWait wid) (\<lambda>w. w)) (ret ())"

section \<open>Driving a workflow\<close>

text \<open>One pass of the loop body; \<open>True\<close> when the driver returns. A binding that another caller cleared
  after it was made would be awaited as a null task id; that is a \<open>TypeErr\<close> here.\<close>

definition await_and_handle :: "nat \<Rightarrow> env \<Rightarrow> string \<Rightarrow> jsval \<Rightarrow> workflow_row \<Rightarrow> step_row \<Rightarrow> bool rt" where
  "await_and_handle fuel env wid spec row st =
    bnd (present (se_task_id st)) (\<lambda>taskId.
    bnd (awaitTask fuel env row taskId (-1) 0) (\<lambda>r. case r of
        AwShutdown \<Rightarrow> ret True
      | AwDeadline \<Rightarrow> bnd (failLimit env wid ''max_runtime_seconds'') (\<lambda>_. ret True)
      | AwCancel \<Rightarrow> bnd (performCancellation env wid) (\<lambda>_. ret True)
      | AwRead read \<Rightarrow> handleTaskTerminal fuel env wid spec st read))"

definition drive_task :: "nat \<Rightarrow> env \<Rightarrow> string \<Rightarrow> jsval \<Rightarrow> workflow_row \<Rightarrow> step_row \<Rightarrow> bool rt" where
  "drive_task fuel env wid spec row st =
    (if se_task_id st = None then
       (if wf_total_tasks row \<ge> spec_limit spec ''max_tasks'' then bnd (failLimit env wid ''max_tasks'') (\<lambda>_. ret True)
        else bnd (createAndBindTask fuel env wid spec row st) (\<lambda>go.
          if \<not> go then ret True
          else bnd (query env (getStepExecutionByKey wid (se_step_id st) (se_round st) 1)) (\<lambda>found.
            bnd (present found) (await_and_handle fuel env wid spec row))))
     else await_and_handle fuel env wid spec row st)"

definition drive_step :: "nat \<Rightarrow> env \<Rightarrow> string \<Rightarrow> jsval \<Rightarrow> workflow_row \<Rightarrow> bool rt" where
  "drive_step fuel env wid spec row =
    (let stepId = (case wf_current_step_id row of None \<Rightarrow> str_of (fld spec ''entry_step'') | Some x \<Rightarrow> x);
         round = wf_current_round row
     in bnd (query env (getStepExecutionByKey wid stepId round 1)) (\<lambda>found.
        bnd (case found of Some st \<Rightarrow> ret st | None \<Rightarrow> startStep env wid stepId round) (\<lambda>st.
          if se_status st = SCompleted then routeAndAdvance env wid spec st
          else if isTerminalStepStatus (se_status st) then ret True
          else drive_task fuel env wid spec row st)))"

definition drive_body :: "nat \<Rightarrow> env \<Rightarrow> string \<Rightarrow> bool rt" where
  "drive_body fuel env wid =
    bnd (query env (\<lambda>s. workflowRow s wid)) (\<lambda>found. case found of
        None \<Rightarrow> ret True
      | Some row \<Rightarrow>
          if wf_status row \<noteq> WRunning then ret True
          else (case loadSpec row of
              None \<Rightarrow> bnd (failWorkflow env wid ''runtime_internal'' [(''reason'', JStr ''invalid_persisted_spec'')]) (\<lambda>_. ret True)
            | Some spec \<Rightarrow>
                if wf_cancel_requested row then bnd (performCancellation env wid) (\<lambda>_. ret True)
                else branch (deadlineExceeded env row) (bnd (failLimit env wid ''max_runtime_seconds'') (\<lambda>_. ret True))
                  (drive_step fuel env wid spec row)))"

fun drive_loop :: "nat \<Rightarrow> env \<Rightarrow> string \<Rightarrow> unit rt" where
  "drive_loop 0 env wid = unfinished"
| "drive_loop (Suc fuel) env wid = branch (stopped env) (ret ())
    (bnd (drive_body fuel env wid) (\<lambda>finished. if finished then ret () else drive_loop fuel env wid))"

definition driveWorkflow :: "nat \<Rightarrow> env \<Rightarrow> string \<Rightarrow> unit rt" where
  "driveWorkflow fuel env wid = bnd (adjust (\<lambda>w. w\<lparr>w_aborts := set_add wid (w_aborts w)\<rparr>)) (\<lambda>_. drive_loop fuel env wid)"

definition runWorkflow :: "nat \<Rightarrow> env \<Rightarrow> string \<Rightarrow> unit rt" where
  "runWorkflow fuel env wid = bnd (driveWorkflow fuel env wid) (\<lambda>_.
     branch (\<lambda>w. e_has_leases env \<and> \<not> stopped env w) (settleLeaseReleases env wid) (ret ()))"

text \<open>What the task of a pump runs: errors are dropped, and the pump leaves the maps.\<close>

definition pump :: "nat \<Rightarrow> env \<Rightarrow> string \<Rightarrow> unit rt" where
  "pump fuel env wid = bnd (ignoring (runWorkflow fuel env wid)) (\<lambda>_.
     adjust (\<lambda>w. w\<lparr>w_pumps := removeAll wid (w_pumps w), w_aborts := removeAll wid (w_aborts w)\<rparr>))"

section \<open>Public operations\<close>

definition create_input :: "string \<Rightarrow> jsval \<Rightarrow> jsval \<Rightarrow> create_workflow_input" where
  "create_input wid spec inputs = \<lparr>cw_id = wid, cw_spec_version = str_of (fld spec ''version''),
     cw_name = str_of (fld spec ''name''), cw_spec = spec, cw_status = None, cw_current_step_id = None,
     cw_current_round = None, cw_input_values = inputs\<rparr>"

definition initial_context :: "jsval \<Rightarrow> jsval \<Rightarrow> jsval" where
  "initial_context spec inputs =
    (let objective = (if isStr (fld inputs ''objective'') then fld inputs ''objective''
                      else nullish (fld spec ''name'') (fld spec ''description''))
     in JObj [(''objective'', JStr (take 4096 (to_text objective))), (''current_round'', jint 1)])"

definition createWorkflow :: "env \<Rightarrow> jsval \<Rightarrow> jsval \<Rightarrow> (string \<times> workflow_row option) rt" where
  "createWorkflow env spec inputValues =
    (if \<not> spec_valid spec then raise (RuntimeError ''invalid_spec'')
     else if isCompletableSpec spec \<and> fld spec ''completion_policy'' = JUndef
     then raise (RuntimeError ''completion_policy_required'')
     else (case normalizeInputValues spec inputValues of
         Inl _ \<Rightarrow> raise (RuntimeError ''invalid_input_values'')
       | Inr inputs \<Rightarrow> bnd (look (\<lambda>w. ''wf_'' @ e_random env (w_tick w))) (\<lambda>wid.
           bnd (db env (\<lambda>ts. WorkflowCall (CreateWorkflowWithLifecycle (create_input wid spec inputs) (initial_context spec inputs)
                  (draft EvCreated ts None (JObj [(''name'', fld spec ''name'')])) (draft EvValidated ts None (JObj []))))
                (\<lambda>s. workflowRow s wid)) (\<lambda>row. ret (wid, row)))))"

definition start_durably :: "env \<Rightarrow> string \<Rightarrow> workflow_row option rt" where
  "start_durably env wid = bnd (db env (\<lambda>ts. WorkflowCall (StartWorkflow wid (draft EvStarted ts None (JObj []))))
       (\<lambda>s. workflowRow s wid)) (\<lambda>row. bnd (ensurePump wid) (\<lambda>_. ret row))"

text \<open>A workflow needs a lease when its targets resolve to some or do not resolve at all.\<close>

definition workspace_bound :: "env \<Rightarrow> string \<Rightarrow> jsval \<Rightarrow> jsval \<Rightarrow> bool" where
  "workspace_bound env wid spec inputs = (case resolveWorkspaceTargets (e_sha env) wid spec inputs of
      Inl _ \<Rightarrow> True | Inr targets \<Rightarrow> targets \<noteq> [])"

definition start_ready :: "env \<Rightarrow> string \<Rightarrow> jsval \<Rightarrow> jsval \<Rightarrow> workflow_row option rt" where
  "start_ready env wid spec inputs =
    (if workspace_bound env wid spec inputs \<and> \<not> e_has_leases env then raise (RuntimeError ''workspace_lease_unsupported'')
     else if e_has_leases env then
       bnd (acquireOrReconcileLeases env wid spec inputs) (\<lambda>outcome. case outcome of
           Blocked \<Rightarrow> raise (RuntimeError ''workspace_lease_conflict'')
         | Pending \<Rightarrow> bnd (scheduleLeaseReconcile env wid) (\<lambda>_. raise (RuntimeError ''workspace_lease_pending''))
         | Acquired \<Rightarrow> start_durably env wid)
     else start_durably env wid)"

definition startWorkflow :: "env \<Rightarrow> string \<Rightarrow> workflow_row option rt" where
  "startWorkflow env wid = bnd (query env (\<lambda>s. workflowRow s wid)) (\<lambda>found. case found of
      None \<Rightarrow> raise (RuntimeError ''invalid_transition'')
    | Some row \<Rightarrow>
        if isTerminalWorkflowStatus (wf_status row) then ret (Some row)
        else if wf_status row = WBlocked then ret (Some row)
        else if wf_status row = WRunning then bnd (ensurePump wid) (\<lambda>_. ret (Some row))
        else if wf_status row \<noteq> WReady then raise (RuntimeError ''invalid_transition'')
        else (case loadSpec row of
            None \<Rightarrow> raise (RuntimeError ''runtime_internal'')
          | Some spec \<Rightarrow> start_ready env wid spec (inputs_of row)))"

definition reconcileAndMaybeStart :: "env \<Rightarrow> string \<Rightarrow> unit rt" where
  "reconcileAndMaybeStart env wid = branch (stopped env) (ret ())
    (bnd (query env (\<lambda>s. workflowRow s wid)) (\<lambda>found. case found of
        None \<Rightarrow> ret ()
      | Some row \<Rightarrow>
          if wf_status row \<noteq> WReady then ret ()
          else (case loadSpec row of
              None \<Rightarrow> ret ()
            | Some spec \<Rightarrow> bnd (acquireOrReconcileLeases env wid spec (inputs_of row)) (\<lambda>outcome. case outcome of
                Acquired \<Rightarrow> bnd (start_durably env wid) (\<lambda>_. ret ())
              | Pending \<Rightarrow> scheduleLeaseReconcile env wid
              | Blocked \<Rightarrow> ret ()))))"

text \<open>The callback of the reconcile timer.\<close>

definition timer_fires :: "env \<Rightarrow> string \<Rightarrow> unit rt" where
  "timer_fires env wid = bnd (adjust (\<lambda>w. w\<lparr>w_timers := removeAll wid (w_timers w)\<rparr>)) (\<lambda>_.
     ignoring (reconcileAndMaybeStart env wid))"

definition or_empty :: "'a list rt \<Rightarrow> 'a list rt" where
  "or_empty m = bnd (attempt m) (\<lambda>r. ret (case r of Inr xs \<Rightarrow> xs | Inl _ \<Rightarrow> []))"

definition getWorkflowSnapshot :: "env \<Rightarrow> string \<Rightarrow> (workflow_row \<times> jsval option \<times> int) option rt" where
  "getWorkflowSnapshot env wid = query env (\<lambda>s. map_option (\<lambda>r. (r, wf_context r, wf_context_revision r)) (workflowRow s wid))"

definition recover_ready :: "env \<Rightarrow> workflow_row \<Rightarrow> unit rt" where
  "recover_ready env row = bnd (or_empty (query env (listWorkspaceLeaseProjections (wf_id row)))) (\<lambda>leases.
     if list_ex (\<lambda>l. lr_status l = LAcquiring) leases then scheduleLeaseReconcile env (wf_id row) else ret ())"

definition recoverWorkflows :: "env \<Rightarrow> string list rt" where
  "recoverWorkflows env =
    bnd (query env (listWorkflows (Some WRunning) None None)) (\<lambda>running.
    bnd (each (\<lambda>row. ensurePump (wf_id row)) running) (\<lambda>_.
    bnd (ignoring (bnd (recoverLeaseReleases env) (\<lambda>_. ret ()))) (\<lambda>_.
    bnd (if e_has_leases env then
           bnd (or_empty (query env (listWorkflows (Some WReady) None None))) (\<lambda>ready. each (recover_ready env) ready)
         else ret ()) (\<lambda>_.
      ret (map wf_id running)))))"

definition settle_if_leased :: "env \<Rightarrow> string \<Rightarrow> unit rt" where
  "settle_if_leased env wid = (if e_has_leases env then settleLeaseReleases env wid else ret ())"

definition cancelWorkflow :: "env \<Rightarrow> string \<Rightarrow> workflow_row option rt" where
  "cancelWorkflow env wid = bnd (query env (\<lambda>s. workflowRow s wid)) (\<lambda>found. case found of
      None \<Rightarrow> raise (RuntimeError ''invalid_transition'')
    | Some row \<Rightarrow>
        if isTerminalWorkflowStatus (wf_status row) then ret (Some row)
        else bnd (db env (\<lambda>ts. WorkflowCall (RecordCancellationIntent wid)) (\<lambda>_. ())) (\<lambda>_.
          bnd (abort_wait wid) (\<lambda>_.
          bnd (performCancellation env wid) (\<lambda>_.
          bnd (settle_if_leased env wid) (\<lambda>_.
            query env (\<lambda>s. workflowRow s wid))))))"

definition shutdown :: "unit rt" where
  "shutdown = bnd (adjust (\<lambda>w. w\<lparr>w_stopped := True\<rparr>)) (\<lambda>_.
     bnd (bnd (look w_aborts) (each (\<lambda>wid. own (AbortWait wid) (\<lambda>w. w)))) (\<lambda>_.
       adjust (\<lambda>w. w\<lparr>w_timers := []\<rparr>)))"

text \<open>A pump that is already running is another task; a new one runs to its end.\<close>

definition awaitWorkflow :: "nat \<Rightarrow> env \<Rightarrow> string \<Rightarrow> workflow_row option rt" where
  "awaitWorkflow fuel env wid = bnd (branch (\<lambda>w. wid \<in> set (w_pumps w)) (ret ())
      (bnd (ensurePump wid) (\<lambda>_. pump fuel env wid))) (\<lambda>_. query env (\<lambda>s. workflowRow s wid))"

section \<open>Human requests\<close>

definition getPendingRequest :: "env \<Rightarrow> string \<Rightarrow> human_request_row option rt" where
  "getPendingRequest env wid = query env (getPendingHumanRequest wid)"

definition answerInput :: "env \<Rightarrow> string \<Rightarrow> string \<Rightarrow> human_request_row option rt" where
  "answerInput env requestId v = db env (\<lambda>ts. GateCall (AnswerHumanRequest requestId v)) (\<lambda>s. humanRow s requestId)"

definition decideApproval :: "env \<Rightarrow> string \<Rightarrow> bool \<Rightarrow> human_request_row option rt" where
  "decideApproval env requestId approved =
    (if approved then db env (\<lambda>ts. GateCall (ApproveHumanRequest requestId)) (\<lambda>s. humanRow s requestId)
     else bnd (db env (\<lambda>ts. GateCall (RejectHumanRequest requestId (draft EvFailed ts None
            (JObj [(''reason'', JStr ''approval_rejected'')])))) (\<lambda>s. humanRow s requestId)) (\<lambda>found.
       bnd (present found) (\<lambda>h.
       bnd (abort_wait (hr_workflow_id h)) (\<lambda>_.
       bnd (settle_if_leased env (hr_workflow_id h)) (\<lambda>_. ret found)))))"

definition resume_if_ready :: "env \<Rightarrow> string \<Rightarrow> unit rt" where
  "resume_if_ready env wid = bnd (query env (getActiveHumanRequest wid)) (\<lambda>req. case req of
      None \<Rightarrow> ret ()
    | Some h \<Rightarrow>
        if hr_status h = HAnswered \<or> hr_status h = HApproved then
          bnd (db env (\<lambda>ts. GateCall (ResumeWorkflow wid (draft EvResumed ts None (JObj [(''request_id'', JStr (hr_id h))])))) (\<lambda>_. ()))
            (\<lambda>_. ensurePump wid)
        else ret ())"

definition resumeWorkflow :: "env \<Rightarrow> string \<Rightarrow> workflow_row option rt" where
  "resumeWorkflow env wid = bnd (query env (\<lambda>s. workflowRow s wid)) (\<lambda>found. case found of
      None \<Rightarrow> raise (RuntimeError ''invalid_transition'')
    | Some row \<Rightarrow>
        bnd (if wf_status row = WWaitingInput \<or> wf_status row = WWaitingApproval then resume_if_ready env wid
             else if wf_status row = WRunning then ensurePump wid else ret ()) (\<lambda>_.
          query env (\<lambda>s. workflowRow s wid)))"

end
