(* ===== verification/RuntimeFacts.thy ===== *)
theory RuntimeFacts
  imports Runtime
begin

text \<open>
  What every operation of the runtime leaves alone. An action is minor unless it creates a
  task, releases a lease, starts or advances a workflow or completes it; a relation on
  worlds that allows every minor action is respected by every operation that takes only
  such actions, and by the others where the actions they take are allowed.
\<close>

definition minor_call :: "workflow_call \<Rightarrow> bool" where
  "minor_call c = (case c of TerminalizeWorkflow _ st _ _ \<Rightarrow> st \<noteq> WCompleted
     | AdvanceWorkflow _ _ _ _ _ _ \<Rightarrow> False | StartWorkflow _ _ \<Rightarrow> False | _ \<Rightarrow> True)"

definition minor :: "action \<Rightarrow> bool" where
  "minor a = (case a of CreateTask _ \<Rightarrow> False | ReleaseLease _ _ \<Rightarrow> False
     | Did (WorkflowCall c) \<Rightarrow> minor_call c | _ \<Rightarrow> True)"

lemmas minor_defs = minor_def minor_call_def

locale quiet_relation = run_relation +
  assumes minor_seen: "minor a \<Longrightarrow> seen a s"
begin

lemma quiet_db: "(\<And>ts. minor (Did (c ts))) \<Longrightarrow> obeys R (db env c g)"
  by (rule obeys_db) (auto intro!: minor_seen simp: minor_def)

lemma known_db: "(\<And>ts s. seen (Did (c ts)) s) \<Longrightarrow> obeys R (db env c g)"
  by (rule obeys_db) (auto intro!: minor_seen simp: minor_def)

lemma quiet_ext: "minor a \<Longrightarrow> (\<And>c. a \<noteq> Did c) \<Longrightarrow> obeys R (ext env a answer)"
  by (rule obeys_ext) (auto intro: minor_seen)

lemma quiet_backoff: "obeys R (backoff env n)"
  by (rule obeys_backoff) (simp add: minor_seen minor_def)

lemma quiet_own: "minor a \<Longrightarrow> (\<And>c. a \<noteq> Did c) \<Longrightarrow> (\<And>w. R w (f w)) \<Longrightarrow> obeys R (own a f)"
  by (rule obeys_own) (auto intro: minor_seen)

lemma quiet_adjust: "(\<And>w. R w (f w)) \<Longrightarrow> obeys R (adjust f)"
  by (simp add: obeys_def adjust_def)

lemma R_pumps: "R w (w\<lparr>w_pumps := x\<rparr>)"
  using R_local [where w = w and st = "w_stopped w" and ps = x and ab = "w_aborts w" and ti = "w_timers w"] by simp

lemma R_aborts: "R w (w\<lparr>w_aborts := x\<rparr>)"
  using R_local [where w = w and st = "w_stopped w" and ps = "w_pumps w" and ab = x and ti = "w_timers w"] by simp

lemma R_timers: "R w (w\<lparr>w_timers := x\<rparr>)"
  using R_local [where w = w and st = "w_stopped w" and ps = "w_pumps w" and ab = "w_aborts w" and ti = x] by simp

lemma R_stopped: "R w (w\<lparr>w_stopped := x\<rparr>)"
  using R_local [where w = w and st = x and ps = "w_pumps w" and ab = "w_aborts w" and ti = "w_timers w"] by simp

lemmas quiet_rules = obeys_rules quiet_db quiet_ext quiet_backoff quiet_own quiet_adjust R_pumps R_aborts R_timers R_stopped R_refl

text \<open>Terminal helpers, cancellation, the pause gate, context.\<close>

lemma quiet_terminal:
  "obeys R (failStep env wid st meta)"
  "obeys R (failWorkflow env wid code meta)"
  "obeys R (failLimit env wid limit)"
  "obeys R (blockWorkflow env wid reason meta)"
  unfolding failStep_def failWorkflow_def failLimit_def blockWorkflow_def
  by (intro quiet_rules; simp add: minor_defs)+

lemma quiet_cancellation: "obeys R (performCancellation env wid)"
  unfolding performCancellation_def cancel_current_def
  by (intro quiet_rules; simp add: minor_defs)+

lemma quiet_pause: "obeys R (evaluatePauseGate env wid st gate)"
  unfolding evaluatePauseGate_def pause_for_def
  by (intro quiet_rules quiet_terminal; simp add: minor_defs)+

lemma quiet_context:
  "obeys R (buildRenderScope env wid row st)"
  "obeys R (buildUpdatedContext env wid binding out taskId hc)"
  unfolding buildRenderScope_def buildUpdatedContext_def
  by (intro quiet_rules)+

text \<open>Leases.\<close>

lemma quiet_reason: "obeys R (setLeaseReason env l r)" "obeys R (mark_active env l')"
  unfolding setLeaseReason_def mark_active_def
  by (intro quiet_rules; simp add: minor_defs)+

lemma obeys_exn:
  "(\<And>code. obeys R (f code)) \<Longrightarrow> obeys R g \<Longrightarrow> (\<And>e. obeys R (h e)) \<Longrightarrow>
    obeys R (case e of StoreFailed x \<Rightarrow> h e | TransientTask \<Rightarrow> h e | TaskFailure \<Rightarrow> h e | LeaseVerdict code \<Rightarrow> f code
      | TransientLease \<Rightarrow> g | LeaseFailure \<Rightarrow> h e | RuntimeError x \<Rightarrow> h e | TypeErr \<Rightarrow> h e)"
  by (cases e) simp_all

lemma quiet_reconcile:
  "obeys R (reconcileAmbiguousAcquire env wid t)"
  "obeys R (reconcileOneLease env wid t)"
  unfolding reconcileAmbiguousAcquire_def reconcileOneLease_def probe_lease_def acquire_lease_def
  by (intro quiet_rules quiet_reason obeys_exn; simp add: minor_defs)+

lemma quiet_schedule: "obeys R (scheduleLeaseReconcile env wid)"
  unfolding scheduleLeaseReconcile_def by (intro quiet_rules; simp add: minor_defs)

lemma quiet_observe_retry: "obeys R (observe_retry fuel env t n)"
proof (induction fuel arbitrary: n)
  case (Suc fuel)
  then show ?case unfolding observe_retry.simps observe_def by (intro quiet_rules; simp add: minor_defs)
qed (simp add: obeys_unfinished)

lemma quiet_revision_gate: "obeys R (revisionGateBefore fuel env wid st t)"
  unfolding revisionGateBefore_def by (intro quiet_rules quiet_observe_retry quiet_terminal; simp add: minor_defs)

lemma quiet_record_retry: "obeys R (record_retry left env st t n)"
proof (induction left arbitrary: n)
  case (Suc left)
  then show ?case unfolding record_retry.simps record_revision_def observe_def
    by (intro quiet_rules; simp add: minor_defs)
qed (simp add: obeys_ret)

lemma quiet_observe_after: "obeys R (observeRevisionAfter env spec row st)"
  unfolding observeRevisionAfter_def by (intro quiet_rules quiet_record_retry)

text \<open>Tasks.\<close>

lemma quiet_start_step: "obeys R (startStep env wid stepId round)"
  unfolding startStep_def by (intro quiet_rules; simp add: minor_defs)

lemma quiet_await: "obeys R (awaitTask fuel env row taskId cursor n)"
proof (induction fuel arbitrary: cursor n)
  case (Suc fuel)
  then show ?case unfolding awaitTask.simps by (intro quiet_rules; simp add: minor_defs)
qed (simp add: obeys_unfinished)

lemma quiet_since: "obeys R (awaited_since env st)"
  unfolding awaited_since_def by (intro quiet_rules; simp add: minor_defs)

lemma quiet_resolve: "obeys R (resolveTerminalResult fuel env wid st cur cursor n)"
proof (induction fuel arbitrary: cur cursor n)
  case (Suc fuel)
  then show ?case unfolding resolveTerminalResult.simps
    by (intro quiet_rules quiet_since quiet_terminal; simp add: minor_defs)
qed (simp add: obeys_unfinished)

lemma quiet_handle: "obeys R (handleTaskTerminal fuel env wid spec st read)"
  unfolding handleTaskTerminal_def complete_step_def
  by (intro quiet_rules quiet_observe_after quiet_cancellation quiet_terminal quiet_resolve quiet_context; simp add: minor_defs)

lemma quiet_result_of: "obeys R (or_none (result_of env t))"
  unfolding or_none_def result_of_def by (intro quiet_rules)

lemma quiet_evidence: "obeys R (assembleStepEvidence env st)"
  unfolding assembleStepEvidence_def or_none_def result_of_def by (intro quiet_rules)

lemma quiet_stall: "obeys R (checkStall env wid spec st)"
  unfolding checkStall_def latestResultContentHash_def Let_def
  by (intro quiet_rules quiet_result_of quiet_terminal; simp add: minor_defs)

lemma quiet_pumps: "obeys R (ensurePump wid)" "obeys R (abort_wait wid)"
  unfolding ensurePump_def abort_wait_def by (intro quiet_rules; simp add: minor_defs)+

lemma quiet_await_and_handle: "obeys R (await_and_handle fuel env wid spec row st)"
proof -
  have "obeys R (case r of AwRead read \<Rightarrow> handleTaskTerminal fuel env wid spec st read | AwShutdown \<Rightarrow> ret True
    | AwDeadline \<Rightarrow> bnd (failLimit env wid ''max_runtime_seconds'') (\<lambda>_. ret True)
    | AwCancel \<Rightarrow> bnd (performCancellation env wid) (\<lambda>_. ret True))" for r
    by (cases r) (auto intro!: quiet_rules quiet_handle quiet_terminal quiet_cancellation)
  then show ?thesis unfolding await_and_handle_def by (intro quiet_rules quiet_await)
qed

text \<open>Creating a task.\<close>

lemma obeys_create_retry:
  assumes "\<And>s. seen (CreateTask req) s"
  shows "obeys R (create_retry fuel env wid row st req n)"
proof (induction fuel arbitrary: n)
  case (Suc fuel)
  have "obeys R (create_and_bind env wid st req)"
    unfolding create_and_bind_def using assms by (intro obeys_bnd obeys_ext quiet_db) (simp_all add: minor_defs)
  with Suc show ?case unfolding create_retry.simps by (intro quiet_rules quiet_terminal)
qed (simp add: obeys_unfinished)

text \<open>Releasing leases.\<close>

lemma obeys_release:
  assumes "\<And>s. seen (ReleaseLease n l) s"
  shows "obeys R (ext env (ReleaseLease n l) answer)"
  using assms by (intro obeys_ext) simp_all

lemma quiet_rollback: "obeys R (rollbackAcquired env ts)"
  unfolding rollbackAcquired_def rollback_one_def by (intro quiet_rules; simp add: minor_defs)

lemma quiet_acquire_all: "obeys R (acquire_all env wid ts act)"
proof (induction ts arbitrary: act)
  case (Cons t ts)
  have "obeys R (case r of LeaseActive \<Rightarrow> acquire_all env wid ts (act @ [t])
      | LeasePending \<Rightarrow> bnd (rollbackAcquired env act) (\<lambda>_. ret Pending)
      | LeaseBlocked \<Rightarrow> bnd (rollbackAcquired env act) (\<lambda>_. ret Blocked))" for r
    using Cons quiet_rollback by (cases r) (auto intro!: quiet_rules)
  then show ?case by (auto intro!: quiet_rules quiet_reconcile)
qed (simp add: obeys_ret)

lemma quiet_acquire: "obeys R (acquireOrReconcileLeases env wid spec inputs)"
  unfolding acquireOrReconcileLeases_def doAcquireOrReconcile_def
  by (intro quiet_rules quiet_acquire_all; auto split: target_error.split intro: obeys_raise)

lemma obeys_release_row:
  assumes "\<And>s. seen (ReleaseLease (lr_node_id l) (lr_id l)) s"
  shows "obeys R (release_row env l)"
proof -
  have "obeys R (release_retry left env (lr_node_id l) (lr_id l) n)" for left n
  proof (induction left arbitrary: n)
    case (Suc left)
    show ?case unfolding release_retry.simps release_once_def
      by (intro obeys_release quiet_rules Suc assms; simp add: minor_defs)
  qed (simp add: obeys_ret)
  then show ?thesis unfolding release_row_def releaseLeaseWithRetry_def by (intro quiet_rules; simp add: minor_defs)
qed

lemma obeys_settle:
  assumes "\<And>n l s. seen (ReleaseLease n l) s"
  shows "obeys R (settleLeaseReleases env wid)" "obeys R (recoverLeaseReleases env)" "obeys R (settle_if_leased env wid)"
  unfolding settleLeaseReleases_def recoverLeaseReleases_def settle_if_leased_def
  by (intro quiet_rules obeys_release_row assms)+

end

text \<open>A relation that allows every action is respected by every operation.\<close>

locale full_relation = quiet_relation +
  assumes all_seen: "seen a s"
begin

lemma full_create: "obeys R (createAndBindTask fuel env wid spec row st)"
  unfolding createAndBindTask_def create_rendered_def fail_render_def
  by (intro quiet_rules quiet_terminal quiet_pause quiet_context quiet_revision_gate obeys_create_retry all_seen)

lemma full_route: "obeys R (routeAndAdvance env wid spec st)"
  unfolding routeAndAdvance_def route_terminal_def route_step_def gateCompletion_def advance_to_def Let_def
  by (intro obeys_rules known_db quiet_terminal quiet_evidence quiet_stall all_seen)

lemma full_drive_loop: "obeys R (drive_loop fuel env wid)"
proof (induction fuel)
  case (Suc fuel)
  have "obeys R (drive_body fuel env wid)"
    unfolding drive_body_def drive_step_def drive_task_def Let_def
    by (intro quiet_rules quiet_terminal quiet_cancellation quiet_start_step quiet_await_and_handle full_create full_route)
  with Suc show ?case unfolding drive_loop.simps by (intro obeys_rules)
qed (simp add: obeys_unfinished)

lemma full_pump: "obeys R (pump fuel env wid)"
  unfolding pump_def runWorkflow_def driveWorkflow_def
  by (intro quiet_rules full_drive_loop obeys_settle all_seen R_trans [OF R_pumps R_aborts])

lemma full_start_durably: "obeys R (start_durably env wid)"
  unfolding start_durably_def by (intro obeys_rules known_db quiet_pumps all_seen)

lemma obeys_outcome:
  "obeys R a \<Longrightarrow> obeys R b \<Longrightarrow> obeys R c \<Longrightarrow>
    obeys R (case x of Acquired \<Rightarrow> a | Pending \<Rightarrow> b | Blocked \<Rightarrow> c)"
  by (cases x) simp_all

lemma full_start: "obeys R (startWorkflow env wid)"
  unfolding startWorkflow_def start_ready_def
  by (intro quiet_rules obeys_outcome quiet_pumps quiet_schedule quiet_acquire full_start_durably all_seen)

lemma full_timer: "obeys R (timer_fires env wid)"
  unfolding timer_fires_def reconcileAndMaybeStart_def
  by (intro quiet_rules obeys_outcome quiet_schedule quiet_acquire full_start_durably all_seen)

lemma full_recover: "obeys R (recoverWorkflows env)"
  unfolding recoverWorkflows_def recover_ready_def or_empty_def
  by (intro quiet_rules quiet_pumps quiet_schedule obeys_settle all_seen)

lemma full_cancel: "obeys R (cancelWorkflow env wid)"
  unfolding cancelWorkflow_def
  by (intro quiet_rules quiet_pumps quiet_cancellation obeys_settle all_seen; simp add: minor_defs)

lemma full_create_workflow: "obeys R (createWorkflow env spec inputs)"
  unfolding createWorkflow_def by (intro quiet_rules; simp add: minor_defs)

lemma full_shutdown: "obeys R shutdown"
  unfolding shutdown_def by (intro quiet_rules; simp add: minor_defs)

lemma full_human:
  "obeys R (answerInput env i v)"
  "obeys R (decideApproval env i b)"
  "obeys R (resumeWorkflow env wid)"
  unfolding answerInput_def decideApproval_def resumeWorkflow_def resume_if_ready_def
  by (intro quiet_rules quiet_pumps obeys_settle all_seen; simp add: minor_defs)+

end

interpretation mv: full_relation moves "\<lambda>a s. True"
  by unfold_locales simp_all

text \<open>\<open>logs P w w'\<close>: every new entry of the trace is minor or satisfies \<open>P\<close>.\<close>

definition logs :: "(action \<Rightarrow> wstore \<Rightarrow> bool) \<Rightarrow> world \<Rightarrow> world \<Rightarrow> bool" where
  "logs P = emits (\<lambda>a s. minor a \<or> P a s)"

interpretation nt: quiet_relation "logs P" "\<lambda>a s. minor a \<or> P a s"
  unfolding logs_def by unfold_locales simp_all

end
