(* ===== verification/TaskLaws.thy ===== *)
theory TaskLaws
  imports StoreCalls
begin

text \<open>
  What every transaction keeps of the task tables: tasks keep their identity and move
  forward, event logs are contiguous and append-only, a result is written once, and an
  idempotency key names one task. The locale \<open>task_relation\<close> is the contract between the
  task internals and their composites; workflow transactions leave the task tables
  alone, by one more interpretation of \<open>store_relation\<close>.
\<close>

section \<open>Composites respect what the internals respect\<close>

definition same_task_tables :: "wstore \<Rightarrow> wstore \<Rightarrow> bool" where
  "same_task_tables s s' \<longleftrightarrow> ws_tasks s' = ws_tasks s \<and> ws_task_events s' = ws_task_events s \<and>
    ws_results s' = ws_results s \<and> ws_closed s' = ws_closed s"

interpretation frame: store_relation same_task_tables
proof
  show "same_task_tables s s'" if "lease_step s s'" for s s'
    by (subst lease_step_frame [OF that]) (simp add: same_task_tables_def)
  show "same_task_tables s s'" if "appendWorkflowEventSync now w q d s = Inr s'" for now w q d s s'
    using that by (auto simp: appendWorkflowEventSync_def same_task_tables_def split: if_splits option.splits)
  show "same_task_tables s s'" if "insert_human_request now h s = Inr s'" for now h s s'
    using that by (auto simp: insert_human_request_def same_task_tables_def split: if_splits)
qed (auto simp: createWorkflowSync_def updateWorkflowSync_def createStepSync_def updateStepSync_def saveContextSync_def
    update_step_aux_def update_human_def same_task_tables_def split: if_splits)

text \<open>What may happen to a task row besides an appended event.\<close>

definition task_evolves :: "task_row \<Rightarrow> task_row \<Rightarrow> bool" where
  "task_evolves t t' \<longleftrightarrow>
    tk_id t' = tk_id t \<and> tk_agent t' = tk_agent t \<and> tk_node_id t' = tk_node_id t \<and> tk_input_text t' = tk_input_text t \<and>
    tk_created_at t' = tk_created_at t \<and> tk_idempotency_key t' = tk_idempotency_key t \<and>
    tk_request_fingerprint t' = tk_request_fingerprint t \<and> tk_revision t \<le> tk_revision t' \<and>
    tk_last_event_sequence t \<le> tk_last_event_sequence t' \<and> next_source t \<le> next_source t' \<and>
    (tk_terminal_event_recorded t \<longrightarrow> tk_terminal_event_recorded t')"

definition quiet :: "(task_row \<Rightarrow> task_row) \<Rightarrow> bool" where
  "quiet f \<longleftrightarrow> (\<forall>t. tk_id (f t) = tk_id t \<and> tk_idempotency_key (f t) = tk_idempotency_key t \<and>
    tk_last_event_sequence (f t) = tk_last_event_sequence t)"

lemma task_evolves_refl [simp]: "task_evolves t t"
  by (simp add: task_evolves_def)

lemma task_evolves_trans: "task_evolves a b \<Longrightarrow> task_evolves b c \<Longrightarrow> task_evolves a c"
  by (auto simp: task_evolves_def)

lemma append_keeps_cursor:
  assumes "appendTaskEventSync now i e s = Inr s'" and "taskRow s i = Some t"
  obtains t' where "taskRow s' i = Some t'" and "next_source t' = next_source t" and "tk_last_event_sequence t \<le> tk_last_event_sequence t'"
proof -
  have "s' = s \<or> (\<exists>es. ti_sequence e = tk_last_event_sequence t + 1 \<and> s' = s\<lparr>ws_task_events := es, ws_tasks := upd tk_id i (\<lambda>t. t\<lparr>tk_last_event_sequence := ti_sequence e,
      tk_updated_at := now\<rparr>) (ws_tasks s)\<rparr>)"
    using assms by (auto simp: appendTaskEventSync_def split: if_splits option.splits)
  then show ?thesis using assms(2) that by (auto simp: sel_upd next_source_def)
qed

text \<open>An ingested event was seen before or extends the log and moves the cursor.\<close>

lemma ingest_cases:
  assumes "ingestSourceEventDurable now i q ev s = Inr (s', b, g)"
  obtains (seen) t e payload where "s' = s" and "\<not> b" and "taskRow s i = Some t" and "q < next_source t"
      and "sel te_source_sequence (Some q) (task_events_of s i) = Some e"
      and "encodeJson (null_if_undef (sv_payload ev)) limit_task_event_payload = Inr payload"
      and "same_task_event e (sv_type ev) (sv_ts ev) payload" and "g = te_sequence e"
    | (new) t s1 t' where "taskRow s i = Some t" and "q = next_source t" and "b"
      and "appendTaskEventSync now i \<lparr>ti_sequence = g, ti_type = sv_type ev, ti_ts = sv_ts ev,
         ti_payload = sv_payload ev, ti_source_sequence = Some q\<rparr> s = Inr s1"
      and "g = tk_last_event_sequence t + 1"
      and "s' = update_task i (source_effect now ev) (move_cursor now i q s1)"
      and "taskRow s1 i = Some t'" and "next_source t' = q"
proof -
  obtain t payload where t: "taskRow s i = Some t" and p: "encodeJson (null_if_undef (sv_payload ev)) limit_task_event_payload = Inr payload"
    using assms by (auto simp: ingestSourceEventDurable_def split: if_splits)
  show ?thesis
  proof (cases "q < next_source t")
    case True
    then show ?thesis using seen assms t p
      by (auto simp: ingestSourceEventDurable_def split: if_splits option.splits)
  next
    case False
    then have q: "q = next_source t" and b: "b" and g: "g = tk_last_event_sequence t + 1"
      using assms t p by (auto simp: ingestSourceEventDurable_def Let_def split: if_splits)
    obtain s1 where s1: "appendTaskEventSync now i \<lparr>ti_sequence = g, ti_type = sv_type ev, ti_ts = sv_ts ev,
         ti_payload = sv_payload ev, ti_source_sequence = Some q\<rparr> s = Inr s1"
      "s' = update_task i (source_effect now ev) (move_cursor now i q s1)"
      using assms t p False g by (auto simp: ingestSourceEventDurable_def Let_def split: if_splits)
    from append_keeps_cursor [OF s1(1) t] obtain t' where "taskRow s1 i = Some t'" "next_source t' = next_source t" .
    then show ?thesis using new [OF t q b s1(1) g s1(2)] q by simp
  qed
qed

locale task_relation =
  fixes Q :: "wstore \<Rightarrow> wstore \<Rightarrow> bool"
  assumes Q_frame: "same_task_tables s s' \<Longrightarrow> Q s s'"
    and Q_trans: "Q s t \<Longrightarrow> Q t u \<Longrightarrow> Q s u"
    and Q_create: "createTaskSync now c s = Inr s' \<Longrightarrow> Q s s'"
    and Q_append: "appendTaskEventSync now i e s = Inr s' \<Longrightarrow> Q s s'"
    and Q_row: "quiet f \<Longrightarrow> (\<And>t. taskRow s i = Some t \<Longrightarrow> task_evolves t (f t)) \<Longrightarrow> Q s (update_task i f s)"
    and Q_result: "taskRow s i \<noteq> None \<Longrightarrow> taskResultRow s i = None \<Longrightarrow> writeResultRow now i st r s = Inr s' \<Longrightarrow> Q s s'"
begin

lemma Q_refl: "Q s s"
  by (rule Q_frame) (simp add: same_task_tables_def)

lemma Q_update: "updateTaskSync now i rv p s = Inr s' \<Longrightarrow> Q s s'"
  by (auto simp: updateTaskSync_def quiet_def apply_task_patch_def task_evolves_def next_source_def intro!: Q_row)

lemma Q_record_terminal: "Q s (record_terminal i s)"
  by (auto simp: record_terminal_def quiet_def task_evolves_def next_source_def intro!: Q_row)

lemma Q_finish: "finish_task now i rv p e s = Inr s' \<Longrightarrow> Q s s'"
  by (auto simp: finish_task_def split: if_splits dest!: Q_update Q_append; meson Q_trans Q_record_terminal)

lemma Q_ensure_result: "taskRow s i = Some t \<Longrightarrow> ensure_result now i st r s = Inr (s', b) \<Longrightarrow> Q s s'"
  by (auto simp: ensure_result_def Q_refl split: option.splits if_splits intro: Q_result)

lemma Q_createDurable: "createTaskDurable now c e s = Inr s' \<Longrightarrow> Q s s'"
  by (auto simp: createTaskDurable_def dest!: Q_create Q_append; meson Q_trans)

lemma Q_createIdempotently: "createTaskIdempotently now c e s = Inr (s', b) \<Longrightarrow> Q s s'"
  by (auto simp: createTaskIdempotently_def resolve_existing_def Q_refl split: option.splits if_splits
      dest!: Q_create Q_append; meson Q_trans)

lemma Q_terminalize: "terminalizeTaskDurable now i rv p e s = Inr s' \<Longrightarrow> Q s s'"
  by (auto simp: terminalizeTaskDurable_def split: if_splits intro: Q_finish)

lemma Q_terminalizeWithResult:
  assumes "terminalizeTaskWithResultDurable now i rv p e st r s = Inr s'"
  shows "Q s s'"
proof -
  obtain cur s1 b where "taskRow s i = Some cur" "ensure_result now i st r s = Inr (s1, b)"
    and f: "(if tk_terminal_event_recorded cur then Inr s1 else finish_task now i rv p e s1) = Inr s'"
    using assms unfolding terminalizeTaskWithResultDurable_def
    by (elim opened_InrE need_InrE and_then_InrE) (metis prod.collapse)
  then have "Q s s1" by (auto intro: Q_ensure_result)
  with f show ?thesis by (auto split: if_splits dest!: Q_finish intro: Q_trans)
qed

lemma Q_persist: "persistTaskResultDurable now i st r s = Inr (s', b) \<Longrightarrow> Q s s'"
  by (auto simp: persistTaskResultDurable_def intro: Q_ensure_result)

lemma Q_history:
  "markTaskHistoryIncomplete i reason bd s = Inr s' \<Longrightarrow> Q s s'"
  "clearTaskHistoryIncomplete i s = Inr s' \<Longrightarrow> Q s s'"
  "initReplayCursor i s = Inr s' \<Longrightarrow> Q s s'"
  by (auto simp: markTaskHistoryIncomplete_def clearTaskHistoryIncomplete_def initReplayCursor_def quiet_def
      task_evolves_def next_source_def Q_refl split: if_splits intro!: Q_row)

lemma Q_move_cursor: "taskRow s i = Some t \<Longrightarrow> q = next_source t \<Longrightarrow> Q s (move_cursor now i q s)"
  by (auto simp: move_cursor_def quiet_def task_evolves_def next_source_def intro!: Q_row split: option.splits)

lemma Q_cursor: "advanceSourceCursor now i q s = Inr (s', b) \<Longrightarrow> Q s s'"
  by (auto simp: advanceSourceCursor_def Q_refl split: if_splits intro!: Q_move_cursor)

lemma Q_source_effect: "Q s (update_task i (source_effect now ev) s)"
  by (auto simp: source_effect_def quiet_def task_evolves_def next_source_def intro!: Q_row split: option.splits)

lemma Q_ingest:
  assumes "ingestSourceEventDurable now i q ev s = Inr (s', b, g)"
  shows "Q s s'"
  using assms
proof (cases rule: ingest_cases)
  case (new t s1 t')
  then have "Q s s1" "Q s1 (move_cursor now i q s1)" by (auto intro: Q_append Q_move_cursor)
  then show ?thesis unfolding new(6) by (meson Q_trans Q_source_effect)
qed (simp add: Q_refl)

lemmas Q_task_calls = Q_createDurable Q_createIdempotently Q_terminalize Q_terminalizeWithResult Q_persist
  Q_history Q_cursor Q_ingest Q_update Q_append

lemma Q_perform_task: "perform_task now c s = Inr s' \<Longrightarrow> Q s s'"
  by (cases c) (auto elim!: store_of_InrE dest: Q_task_calls)

lemma Q_perform: "perform now c s = Inr s' \<Longrightarrow> Q s s'"
  by (cases c) (auto elim: Q_perform_task frame.R_perform_workflow [THEN Q_frame] frame.R_perform_gate [THEN Q_frame])

lemma Q_run: "Q s (run_calls cs s)"
proof (induction cs arbitrary: s)
  case Nil
  then show ?case by (simp add: run_calls_def Q_refl)
next
  case (Cons c cs)
  have "Q s (transact s c)" by (auto simp: transact_def Q_refl Q_perform split: sum.splits)
  from Q_trans [OF this Cons] show ?case by (simp add: run_calls_def)
qed

end

end
