(* ===== verification/TaskInvariant.thy ===== *)
theory TaskInvariant
  imports TaskLaws
begin

text \<open>
  The two interpretations of \<open>task_relation\<close>: the evolution order of the task tables and
  the preservation of their invariant; and what follows for repeated requests: a creation
  under one idempotency key, a stored result and an ingested source event have one effect
  in every history.
\<close>

section \<open>Evolution\<close>

definition tasks_evolve :: "wstore \<Rightarrow> wstore \<Rightarrow> bool" where
  "tasks_evolve s s' \<longleftrightarrow> ws_closed s' = ws_closed s \<and>
    (\<forall>i t. taskRow s i = Some t \<longrightarrow> (\<exists>t'. taskRow s' i = Some t' \<and> task_evolves t t')) \<and>
    (\<exists>es. ws_task_events s' = ws_task_events s @ es) \<and> (\<exists>rs. ws_results s' = ws_results s @ rs)"

lemma tasks_evolve_trans:
  assumes "tasks_evolve s t" and "tasks_evolve t u"
  shows "tasks_evolve s u"
  using assms unfolding tasks_evolve_def by (auto dest: task_evolves_trans; meson task_evolves_trans)

lemma tasks_evolve_row:
  assumes "\<And>t. tk_id (f t) = tk_id t" and "\<And>t. taskRow s i = Some t \<Longrightarrow> task_evolves t (f t)"
  shows "tasks_evolve s (s\<lparr>ws_results := ws_results s @ rs, ws_task_events := ws_task_events s @ es,
    ws_tasks := upd tk_id i f (ws_tasks s)\<rparr>)"
  using assms by (auto simp: tasks_evolve_def sel_upd)

lemma appendTaskEvent_cases:
  assumes "appendTaskEventSync now i e s = Inr s'"
  obtains (same) t where "s' = s" and "taskRow s i = Some t" and "ti_sequence e \<le> tk_last_event_sequence t"
    | (new) t payload where "taskRow s i = Some t" and "ti_sequence e = tk_last_event_sequence t + 1"
      and "encodeJson (null_if_undef (ti_payload e)) limit_task_event_payload = Inr payload"
      and "\<not> source_taken s i (ti_source_sequence e)"
      and "s' = s\<lparr>ws_task_events := ws_task_events s @ [task_event_row_of now i e payload],
        ws_tasks := upd tk_id i (\<lambda>t. t\<lparr>tk_last_event_sequence := ti_sequence e, tk_updated_at := now\<rparr>) (ws_tasks s)\<rparr>"
proof -
  obtain t payload where t: "taskRow s i = Some t"
    and p: "encodeJson (null_if_undef (ti_payload e)) limit_task_event_payload = Inr payload"
    using assms by (auto simp: appendTaskEventSync_def split: if_splits)
  show ?thesis
  proof (cases "ti_sequence e \<le> tk_last_event_sequence t")
    case True
    then have "s' = s" using assms t p by (auto simp: appendTaskEventSync_def split: if_splits option.splits)
    then show ?thesis using same t True by blast
  next
    case False
    then show ?thesis using new [OF t _ p] assms t p by (simp add: appendTaskEventSync_def split: if_splits)
  qed
qed

lemma writeResultRow_eq:
  assumes "writeResultRow now i st r s = Inr s'"
  shows "s' = s\<lparr>ws_results := ws_results s @ [\<lparr>rr_task_id = i, rr_status = st, rr_result = r, rr_created_at = now\<rparr>],
    ws_tasks := upd tk_id i (\<lambda>t. t\<lparr>tk_result_status := Some st\<rparr>) (ws_tasks s)\<rparr>"
  using assms by (auto simp: writeResultRow_def update_task_def)

interpretation te: task_relation tasks_evolve
proof
  show "tasks_evolve s s'" if "same_task_tables s s'" for s s'
    using that by (auto simp: same_task_tables_def tasks_evolve_def)
  show "tasks_evolve s s'" if "createTaskSync now c s = Inr s'" for now c s s'
    using that by (auto simp: createTaskSync_def tasks_evolve_def split: if_splits)
  show "tasks_evolve s s'" if "appendTaskEventSync now i e s = Inr s'" for now i e s s'
    using that
    by (cases rule: appendTaskEvent_cases)
      (auto simp: tasks_evolve_def sel_upd task_evolves_def next_source_def)
  show "tasks_evolve s (update_task i f s)" if "quiet f" "\<And>t. taskRow s i = Some t \<Longrightarrow> task_evolves t (f t)" for f s i
    using that tasks_evolve_row [where f = f and s = s and i = i and rs = "[]" and es = "[]"] by (simp add: update_task_def quiet_def)
  show "tasks_evolve s s'" if "writeResultRow now i st r s = Inr s'" for s i now st r s'
    unfolding writeResultRow_eq [OF that]
    by (auto simp: tasks_evolve_def sel_upd task_evolves_def next_source_def)
qed (rule tasks_evolve_trans)

section \<open>Invariant\<close>

definition task_inv :: "wstore \<Rightarrow> bool" where
  "task_inv s \<longleftrightarrow>
    distinct (map tk_id (ws_tasks s)) \<and>
    distinct (filter (\<lambda>k. k \<noteq> None) (map tk_idempotency_key (ws_tasks s))) \<and>
    distinct (map rr_task_id (ws_results s)) \<and>
    rr_task_id ` set (ws_results s) \<subseteq> tk_id ` set (ws_tasks s) \<and>
    te_task_id ` set (ws_task_events s) \<subseteq> tk_id ` set (ws_tasks s) \<and>
    (\<forall>t\<in>set (ws_tasks s). contiguous (tk_last_event_sequence t) (map te_sequence (task_events_of s (tk_id t))))"

lemma task_inv_empty: "task_inv empty_store"
  by (simp add: task_inv_def empty_store_def)

lemma task_inv_row:
  assumes "task_inv s" and "quiet f"
  shows "task_inv (s\<lparr>ws_tasks := upd tk_id i f (ws_tasks s)\<rparr>)"
proof -
  have ids: "map tk_id (upd tk_id i f (ws_tasks s)) = map tk_id (ws_tasks s)"
    "tk_id ` set (upd tk_id i f (ws_tasks s)) = tk_id ` set (ws_tasks s)"
    using assms(2) by (auto simp: quiet_def map_key_upd key_image_upd)
  have keys: "map tk_idempotency_key (upd tk_id i f (ws_tasks s)) = map tk_idempotency_key (ws_tasks s)"
    using assms(2) by (auto simp: quiet_def upd_def)
  have "contiguous (tk_last_event_sequence t) (map te_sequence (filter (\<lambda>e. te_task_id e = tk_id t) (ws_task_events s)))"
    if "t \<in> set (upd tk_id i f (ws_tasks s))" for t
    using that assms by (auto simp: in_set_upd task_inv_def quiet_def task_events_of_def)
  then show ?thesis using assms(1) by (simp add: task_inv_def ids keys task_events_of_def)
qed

lemma task_inv_create:
  assumes "task_inv s" and "createTaskSync now c s = Inr s'"
  shows "task_inv s'"
proof -
  obtain md where s': "s' = s\<lparr>ws_tasks := ws_tasks s @ [new_task now c md]\<rparr>" and none: "taskRow s (ct_id c) = None"
    and key: "\<not> key_taken s (ct_idempotency_key c)"
    using assms(2) by (auto simp: createTaskSync_def split: if_splits)
  have "task_events_of s (ct_id c) = []"
  proof -
    have "te_task_id ` set (ws_task_events s) \<subseteq> tk_id ` set (ws_tasks s)" using assms(1) by (simp add: task_inv_def)
    with none show ?thesis unfolding task_events_of_def filter_empty_conv sel_None_iff by (metis imageI subsetD)
  qed
  then have "contiguous (tk_last_event_sequence t) (map te_sequence (task_events_of s (tk_id t)))"
    if "t \<in> set (ws_tasks s @ [new_task now c md])" for t
    using that assms(1) by (auto simp: task_inv_def new_task_def)
  moreover have "distinct (filter (\<lambda>k. k \<noteq> None) (map tk_idempotency_key (ws_tasks s @ [new_task now c md])))"
    using assms(1) key by (auto simp: task_inv_def key_taken_def list_ex_iff new_task_def)
  moreover have "distinct (map tk_id (ws_tasks s @ [new_task now c md]))"
    using assms(1) none by (auto simp: task_inv_def sel_None_iff new_task_def)
  moreover have "rr_task_id ` set (ws_results s) \<subseteq> tk_id ` set (ws_tasks s @ [new_task now c md])"
    "te_task_id ` set (ws_task_events s) \<subseteq> tk_id ` set (ws_tasks s @ [new_task now c md])"
    using assms(1) by (auto simp: task_inv_def)
  moreover have "distinct (map rr_task_id (ws_results s))" using assms(1) by (simp add: task_inv_def)
  ultimately show ?thesis unfolding s' task_inv_def by (simp add: task_events_of_def)
qed

lemma task_inv_append:
  assumes "task_inv s" and "appendTaskEventSync now i e s = Inr s'"
  shows "task_inv s'"
  using assms(2)
proof (cases rule: appendTaskEvent_cases)
  case (new t payload)
  let ?f = "\<lambda>t. t\<lparr>tk_last_event_sequence := ti_sequence e, tk_updated_at := now\<rparr>"
  have t: "t \<in> set (ws_tasks s)" "tk_id t = i" using sel_key [OF new(1)] by auto
  have ids: "map tk_id (upd tk_id i ?f (ws_tasks s)) = map tk_id (ws_tasks s)"
    "tk_id ` set (upd tk_id i ?f (ws_tasks s)) = tk_id ` set (ws_tasks s)"
    by (auto simp: map_key_upd key_image_upd)
  have keys: "map tk_idempotency_key (upd tk_id i ?f (ws_tasks s)) = map tk_idempotency_key (ws_tasks s)"
    by (auto simp: upd_def)
  have "contiguous (ti_sequence e) (map te_sequence (task_events_of s i) @ [ti_sequence e])"
    using assms(1) t new(2) by (auto simp: task_inv_def intro: contiguous_snoc)
  then have "contiguous (tk_last_event_sequence u)
      (map te_sequence (filter (\<lambda>x. te_task_id x = tk_id u) (ws_task_events s @ [task_event_row_of now i e payload])))"
    if "u \<in> set (upd tk_id i ?f (ws_tasks s))" for u
    using that assms(1) by (auto simp: in_set_upd task_inv_def task_events_of_def task_event_row_of_def)
  moreover have "i \<in> tk_id ` set (ws_tasks s)" using t by blast
  ultimately show ?thesis
    using assms(1) unfolding new(5) by (simp add: task_inv_def ids keys task_events_of_def task_event_row_of_def)
qed (simp add: assms(1))

lemma task_inv_result:
  assumes "task_inv s" and "taskRow s i \<noteq> None" and "taskResultRow s i = None" and "writeResultRow now i st r s = Inr s'"
  shows "task_inv s'"
proof -
  have "task_inv (s\<lparr>ws_results := ws_results s @ [\<lparr>rr_task_id = i, rr_status = st, rr_result = r, rr_created_at = now\<rparr>]\<rparr>)"
    using assms(1-3) by (auto simp: task_inv_def sel_None_iff task_events_of_def)
  from task_inv_row [OF this, of "\<lambda>t. t\<lparr>tk_result_status := Some st\<rparr>" i] show ?thesis
    unfolding writeResultRow_eq [OF assms(4)] by (simp add: quiet_def)
qed

interpretation ti: task_relation "\<lambda>s s'. task_inv s \<longrightarrow> task_inv s'"
proof
  show "task_inv s \<longrightarrow> task_inv s'" if "same_task_tables s s'" for s s'
    using that by (simp add: same_task_tables_def task_inv_def task_events_of_def)
qed (auto simp: update_task_def intro: task_inv_create task_inv_append task_inv_row task_inv_result)

lemma run_calls_tasks: "tasks_evolve s (run_calls cs s)"
  by (rule te.Q_run)

lemma run_calls_task_inv: "task_inv s \<Longrightarrow> task_inv (run_calls cs s)"
  using ti.Q_run by blast

section \<open>Repeated requests\<close>

lemma sel_append_list: "sel key k (xs @ ys) = (case sel key k xs of Some x \<Rightarrow> Some x | None \<Rightarrow> sel key k ys)"
  by (induction xs) (auto simp: sel_def)

lemma result_persists:
  assumes "tasks_evolve s s'" and "taskResultRow s i = Some r"
  shows "taskResultRow s' i = Some r"
  using assms by (auto simp: tasks_evolve_def sel_append_list)

lemma event_persists:
  assumes "tasks_evolve s s'" and "sel key k (task_events_of s i) = Some e"
  shows "sel key k (task_events_of s' i) = Some e"
  using assms by (auto simp: tasks_evolve_def task_events_of_def sel_append_list)

lemma task_by_key_sel: "task_by_key s k = sel tk_idempotency_key (Some k) (ws_tasks s)"
  by (simp add: task_by_key_def sel_def)

lemma sel_unique_key:
  assumes "distinct (filter (\<lambda>k. k \<noteq> None) (map key rows))" and "r \<in> set rows" and "key r = Some k"
  shows "sel key (Some k) rows = Some r"
  using assms by (induction rows) (auto simp: sel_def image_iff split: if_splits)

lemma task_by_key_upd:
  assumes "\<And>t. tk_idempotency_key (f t) = tk_idempotency_key t"
  shows "sel tk_idempotency_key (Some k) (upd tk_id i f ts) =
    map_option (\<lambda>t. if tk_id t = i then f t else t) (sel tk_idempotency_key (Some k) ts)"
  using assms by (induction ts) (auto simp: sel_def upd_def)

lemma task_by_key_persists:
  assumes "task_inv s" and "task_inv s'" and "tasks_evolve s s'" and "task_by_key s k = Some t"
  shows "\<exists>t'. task_by_key s' k = Some t' \<and> tk_id t' = tk_id t \<and> tk_request_fingerprint t' = tk_request_fingerprint t"
proof -
  have t: "t \<in> set (ws_tasks s)" "tk_idempotency_key t = Some k"
    using assms(4) sel_key unfolding task_by_key_sel by fast+
  then have "taskRow s (tk_id t) = Some t" using assms(1) by (intro sel_mem) (auto simp: task_inv_def)
  with assms(3) obtain t' where t': "taskRow s' (tk_id t) = Some t'" "task_evolves t t'" by (auto simp: tasks_evolve_def)
  have "t' \<in> set (ws_tasks s')" "tk_id t' = tk_id t" using sel_key [OF t'(1)] by auto
  moreover have "tk_idempotency_key t' = Some k" using t'(2) t(2) by (simp add: task_evolves_def)
  ultimately have "task_by_key s' k = Some t'"
    using assms(2) unfolding task_by_key_sel by (intro sel_unique_key) (auto simp: task_inv_def)
  then show ?thesis using t'(2) by (auto simp: task_evolves_def)
qed

lemma created_task_by_key:
  assumes "createTaskIdempotently now c e s = Inr (s', i, b)"
    and "ct_idempotency_key c = Some k" and "ct_request_fingerprint c = Some fp"
  shows "\<exists>t. task_by_key s' k = Some t \<and> tk_id t = i \<and> tk_request_fingerprint t = Some fp"
proof (cases "task_by_key s k")
  case (Some row)
  then show ?thesis using assms by (auto simp: createTaskIdempotently_def resolve_existing_def split: if_splits)
next
  case None
  then obtain s1 where s1: "createTaskSync now c s = Inr s1" "appendTaskEventSync now (ct_id c) e s1 = Inr s'" "i = ct_id c"
    using assms by (auto simp: createTaskIdempotently_def split: if_splits)
  then obtain md where "ws_tasks s1 = ws_tasks s @ [new_task now c md]" by (auto simp: createTaskSync_def split: if_splits)
  then have "task_by_key s1 k = Some (new_task now c md)"
    using None assms(2) by (simp add: task_by_key_sel new_task_def)
  with s1(2) show ?thesis
  proof (cases rule: appendTaskEvent_cases)
    case (new t payload)
    then show ?thesis
      using \<open>task_by_key s1 k = Some _\<close> assms(3) s1(3) unfolding new(5) task_by_key_sel
      by (simp add: task_by_key_upd new_task_def)
  qed (use assms(3) s1(3) in \<open>simp add: new_task_def\<close>)
qed

lemma retry_returns_same_task:
  assumes "task_inv s" and "createTaskIdempotently now c e s = Inr (s', i, b)"
    and "ct_idempotency_key c' = ct_idempotency_key c" and "u = run_calls cs s'"
  shows "createTaskIdempotently now' c' e' u =
    (if ct_request_fingerprint c' = ct_request_fingerprint c then Inr (u, i, False)
     else if ct_request_fingerprint c' = None \<or> ct_request_fingerprint c' = Some [] then Inl InvalidRecord
     else Inl IdempotencyConflict)"
proof -
  obtain k fp where kf: "ct_idempotency_key c = Some k" "ct_request_fingerprint c = Some fp" "isSafeId k" "fp \<noteq> []" "\<not> ws_closed s"
    using assms(2) by (auto simp: createTaskIdempotently_def split: option.splits if_splits)
  have ev: "tasks_evolve s s'" using te.Q_createIdempotently [OF assms(2)] .
  have inv: "task_inv s'" using ti.Q_createIdempotently [OF assms(2)] assms(1) by blast
  obtain t where "task_by_key u k = Some t" "tk_id t = i" "tk_request_fingerprint t = Some fp"
    using created_task_by_key [OF assms(2) kf(1,2)] task_by_key_persists [OF inv run_calls_task_inv [OF inv] run_calls_tasks]
    unfolding assms(4) by metis
  moreover have "\<not> ws_closed u"
    using kf(5) ev run_calls_tasks [of s' cs] unfolding assms(4) by (simp add: tasks_evolve_def)
  ultimately show ?thesis
    using kf assms(3) by (auto simp: createTaskIdempotently_def resolve_existing_def opened_def split: option.splits)
qed

lemma ingested_event_recorded:
  assumes "ingestSourceEventDurable now i q ev s = Inr (s', b, g)"
  shows "\<exists>t e payload. taskRow s' i = Some t \<and> q < next_source t \<and> sel te_source_sequence (Some q) (task_events_of s' i) = Some e \<and>
    encodeJson (null_if_undef (sv_payload ev)) limit_task_event_payload = Inr payload \<and>
    same_task_event e (sv_type ev) (sv_ts ev) payload \<and> te_sequence e = g"
  using assms
proof (cases rule: ingest_cases)
  case (seen t e payload)
  then show ?thesis by auto
next
  case (new t s1 t')
  from new(4) show ?thesis
  proof (cases rule: appendTaskEvent_cases)
    case same
    with new(1,5) show ?thesis by simp
  next
    case (new t2 payload)
    have ev: "task_events_of s' i = task_events_of s i @ [task_event_row_of now i \<lparr>ti_sequence = g, ti_type = sv_type ev,
        ti_ts = sv_ts ev, ti_payload = sv_payload ev, ti_source_sequence = Some q\<rparr> payload]"
      using new(5) \<open>s' = _\<close> by (simp add: update_task_def move_cursor_def task_events_of_def task_event_row_of_def)
    have "sel te_source_sequence (Some q) (task_events_of s i) = None"
      using new(4) by (auto simp: source_taken_def list_ex_iff sel_None_iff)
    moreover obtain t3 where "taskRow s' i = Some t3" "q < next_source t3"
      using \<open>s' = _\<close> \<open>taskRow s1 i = Some t'\<close>
      by (auto simp: update_task_def move_cursor_def sel_upd source_effect_def next_source_def split: option.splits)
    ultimately show ?thesis using new(3) by (auto simp: ev task_event_row_of_def same_task_event_def)
  qed
qed

lemma reingest_is_noop:
  assumes "ingestSourceEventDurable now i q ev s = Inr (s', b, g)" and "u = run_calls cs s'"
  shows "ingestSourceEventDurable now' i q ev u = Inr (u, False, g)"
proof -
  have ev: "tasks_evolve s' u" unfolding assms(2) by (rule run_calls_tasks)
  obtain t e payload where e: "taskRow s' i = Some t" "q < next_source t"
    "sel te_source_sequence (Some q) (task_events_of s' i) = Some e"
    "encodeJson (null_if_undef (sv_payload ev)) limit_task_event_payload = Inr payload"
    "same_task_event e (sv_type ev) (sv_ts ev) payload" "te_sequence e = g"
    using ingested_event_recorded [OF assms(1)] by blast
  obtain t' where "taskRow u i = Some t'" "next_source t \<le> next_source t'"
    using ev e(1) by (auto simp: tasks_evolve_def task_evolves_def)
  moreover have "\<not> ws_closed u"
    using assms(1) ev te.Q_ingest [OF assms(1)] by (auto simp: ingestSourceEventDurable_def tasks_evolve_def)
  moreover have "0 \<le> q" "isTaskEventType (sv_type ev)" "iso_utc (sv_ts ev)"
    using assms(1) by (auto simp: ingestSourceEventDurable_def split: if_splits)
  ultimately show ?thesis
    using e event_persists [OF ev e(3)] by (simp add: ingestSourceEventDurable_def opened_def)
qed

end
