(* ===== verification/WorkflowReplay.thy ===== *)
theory WorkflowReplay
  imports StoreCalls
begin

text \<open>
  Crash recovery re-issues transactions. This theory shows that the runtime's composites are
  idempotent: a transaction that succeeded and is performed again leaves the store as it
  is, and the durable outcomes (a step started, completed or failed, a workflow advanced,
  terminalised or cancelled) do so no matter which transactions came in between.
\<close>

section \<open>What the internals leave behind\<close>

definition status_of :: "wstore \<Rightarrow> string \<Rightarrow> workflow_status option" where
  "status_of s i = map_option wf_status (workflowRow s i)"

lemma updateWorkflowSync_effect:
  assumes "updateWorkflowSync now i rv p s = Inr s'"
  shows "status_of s' i = map_option (patched (wp_status p)) (status_of s i)"
    and "workflowRow s' i \<noteq> None" and "ws_steps s' = ws_steps s" and "ws_closed s' = ws_closed s"
    and "ws_human s' = ws_human s"
    and "map_option wf_cancel_requested (workflowRow s' i) =
      map_option (\<lambda>w. wp_cancel_requested p = Some True \<or> wf_cancel_requested w) (workflowRow s i)"
  using assms
  by (auto simp: updateWorkflowSync_def status_of_def sel_upd apply_workflow_patch_def patched_def split: option.splits)

lemma appendWorkflowEventSync_effect:
  assumes "appendWorkflowEventSync now i q d s = Inr s'"
  shows "status_of s' j = status_of s j" and "ws_steps s' = ws_steps s" and "ws_closed s' = ws_closed s"
    and "ws_human s' = ws_human s"
  using assms
  by (auto simp: appendWorkflowEventSync_def status_of_def sel_upd option.map_comp o_def split: if_splits option.splits)

lemma appendWorkflowEventAuto_effect:
  assumes "appendWorkflowEventAuto now i d s = Inr s'"
  shows "status_of s' j = status_of s j" and "ws_steps s' = ws_steps s" and "ws_closed s' = ws_closed s"
    and "ws_human s' = ws_human s"
  using assms appendWorkflowEventSync_effect by (auto simp: appendWorkflowEventAuto_def)

lemma status_of_Some: "status_of s i = Some st \<longleftrightarrow> (\<exists>w. workflowRow s i = Some w \<and> wf_status w = st)"
  by (auto simp: status_of_def)

lemma status_of_need [simp]: "workflowRow s i \<noteq> None \<longleftrightarrow> status_of s i \<noteq> None"
  by (simp add: status_of_def)

lemma updateStepSync_effect:
  assumes "updateStepSync now x rv p s = Inr s'"
  shows "map_option se_status (stepRow s' x) = map_option (\<lambda>r. patched (sp_status p) (se_status r)) (stepRow s x)"
    and "map_option se_task_id (stepRow s' x) = map_option (\<lambda>r. patched (sp_task_id p) (se_task_id r)) (stepRow s x)"
    and "stepRow s x \<noteq> None" and "ws_workflows s' = ws_workflows s" and "ws_closed s' = ws_closed s"
  using assms by (auto simp: updateStepSync_def sel_upd apply_step_patch_def split: if_splits)

lemma createStepSync_effect:
  assumes "createStepSync now c s = Inr s'"
  shows "stepExecByKey s' (input_key c) \<noteq> None" and "ws_workflows s' = ws_workflows s" and "ws_closed s' = ws_closed s"
  using assms by (auto simp: createStepSync_def input_key_def step_key_def new_step_def split: if_splits option.splits)

lemma saveContextSync_effect:
  assumes "saveContextSync now i rv ctx s = Inr s'"
  shows "status_of s' j = status_of s j" and "ws_steps s' = ws_steps s" and "ws_closed s' = ws_closed s"
  using assms by (auto simp: saveContextSync_def status_of_def sel_upd option.map_comp o_def split: if_splits)

lemma save_context_opt_effect:
  assumes "save_context_opt now i r ctx s = Inr s'"
  shows "status_of s' j = status_of s j" and "ws_steps s' = ws_steps s" and "ws_closed s' = ws_closed s"
  using assms saveContextSync_effect by (auto simp: save_context_opt_def split: option.splits if_splits)

lemma set_current_step_effect:
  assumes "set_current_step now i x s = Inr s'"
  shows "ws_steps s' = ws_steps s" and "ws_closed s' = ws_closed s"
  using assms updateWorkflowSync_effect by (auto simp: set_current_step_def split: if_splits)

section \<open>Outcomes that later transactions keep\<close>

definition step_started :: "wstore \<Rightarrow> string \<times> string \<times> int \<times> int \<Rightarrow> bool" where
  "step_started s k = (stepExecByKey s k \<noteq> None)"

definition step_finished :: "wstore \<Rightarrow> string \<Rightarrow> step_status \<Rightarrow> bool" where
  "step_finished s x st = (isTerminalStepStatus st \<and> map_option se_status (stepRow s x) = Some st)"

definition workflow_finished :: "wstore \<Rightarrow> string \<Rightarrow> workflow_status \<Rightarrow> bool" where
  "workflow_finished s i st = (isTerminalWorkflowStatus st \<and> status_of s i = Some st)"

lemma step_started_persists:
  assumes "wf_inv s" and "evolves s s'" and "step_started s k"
  shows "step_started s' k"
proof -
  obtain r where r: "stepExecByKey s k = Some r" using assms(3) by (auto simp: step_started_def)
  then have rk: "step_key r = k" "r \<in> set (ws_steps s)" using sel_key by fast+
  then have "stepRow s (se_id r) = Some r" using assms(1) by (intro sel_mem) (auto simp: wf_inv_def)
  with assms(2) obtain r' where "stepRow s' (se_id r) = Some r'" "step_key r' = step_key r"
    by (fastforce simp: evolves_def step_evolves_def)
  then have "r' \<in> set (ws_steps s')" "step_key r' = k" using sel_key rk(1) by fast+
  then show ?thesis by (auto simp: step_started_def sel_None_iff)
qed

lemma step_finished_persists:
  assumes "evolves s s'" and "step_finished s x st"
  shows "step_finished s' x st"
  using assms by (fastforce simp: evolves_def step_evolves_def step_finished_def)

lemma workflow_finished_persists:
  assumes "evolves s s'" and "workflow_finished s i st"
  shows "workflow_finished s' i st"
  using assms by (fastforce simp: evolves_def workflow_evolves_def workflow_finished_def status_of_def)

lemma cancel_requested_persists:
  assumes "evolves s s'" and "workflowRow s i = Some w" and "wf_cancel_requested w"
  shows "\<exists>w'. workflowRow s' i = Some w' \<and> wf_cancel_requested w'"
  using assms by (fastforce simp: evolves_def workflow_evolves_def)


section \<open>What a composite that succeeded has established\<close>

lemma workflow_rows_status: "ws_workflows s' = ws_workflows s \<Longrightarrow> status_of s' i = status_of s i"
  by (simp add: status_of_def)

lemmas effects = updateWorkflowSync_effect appendWorkflowEventAuto_effect updateStepSync_effect createStepSync_effect
  saveContextSync_effect save_context_opt_effect set_current_step_effect

lemma fail_workflow_effect:
  assumes "fail_workflow now i ev s = Inr s'"
  shows "\<exists>st. workflow_finished s' i st" and "ws_steps s' = ws_steps s" and "ws_closed s' = ws_closed s"
proof -
  from assms obtain w where w: "workflowRow s i = Some w" by (auto simp: fail_workflow_def)
  show "ws_steps s' = ws_steps s" "ws_closed s' = ws_closed s"
    using assms by (auto simp: fail_workflow_def effects split: if_splits)
  show "\<exists>st. workflow_finished s' i st"
  proof (cases "isTerminalWorkflowStatus (wf_status w)")
    case True
    then show ?thesis using assms w by (auto simp: fail_workflow_def workflow_finished_def status_of_def)
  next
    case False
    then obtain t where "updateWorkflowSync now i (wf_revision w)
        (no_wpatch\<lparr>wp_status := Some WFailed, wp_terminal_at := Some (Some now)\<rparr>) s = Inr t"
      "appendWorkflowEventAuto now i ev t = Inr s'"
      using assms w by (auto simp: fail_workflow_def)
    then have "status_of s' i = Some WFailed"
      using w effects(1) appendWorkflowEventAuto_effect(1) [of now i ev t s' i] by (simp add: status_of_def [of s])
    then show ?thesis by (auto simp: workflow_finished_def)
  qed
qed

lemma update_current_effect:
  assumes "update_current now i f s = Inr s'"
  shows "ws_steps s' = ws_steps s" and "ws_closed s' = ws_closed s" and "ws_human s' = ws_human s"
  using assms by (auto simp: update_current_def dest: updateWorkflowSync_effect)

lemma updateStepSync_status:
  assumes "updateStepSync now x rv p s = Inr s'" and "sp_status p = Some st"
  shows "map_option se_status (stepRow s' x) = Some st"
  using updateStepSync_effect(1,3) [OF assms(1)] assms(2) by (auto simp: patched_def)

lemma fail_step_effect:
  assumes "fail_step now st i ev er s = Inr s'" and "stepRow s (se_id st) = Some st"
  shows "(\<exists>x. step_finished s' (se_id st) x) \<and> ws_closed s' = ws_closed s"
proof (cases "isTerminalStepStatus (se_status st)")
  case True
  then show ?thesis using assms by (auto simp: fail_step_def step_finished_def)
next
  case False
  then obtain s1 s2 where u: "updateStepSync now (se_id st) (se_revision st)
        (no_spatch\<lparr>sp_status := Some SFailed, sp_error := er, sp_terminal_at := Some (Some now)\<rparr>) s = Inr s1"
    and c: "update_current now i (\<lambda>w. no_wpatch\<lparr>wp_total_failures := Some (wf_total_failures w + 1)\<rparr>) s1 = Inr s2"
    and a: "appendWorkflowEventAuto now i ev s2 = Inr s'"
    using assms(1) by (auto simp: fail_step_def)
  have "step_finished s' (se_id st) SFailed"
    using updateStepSync_status [OF u] update_current_effect(1) [OF c] appendWorkflowEventAuto_effect(2) [OF a]
    by (simp add: step_finished_def)
  then show ?thesis
    using updateStepSync_effect(5) [OF u] update_current_effect(2) [OF c] appendWorkflowEventAuto_effect(3) [OF a] by auto
qed

lemma failStepAndWorkflow_outcome:
  assumes "failStepAndWorkflow now x i e1 e2 er s = Inr s'"
  shows "(\<exists>st. step_finished s' x st) \<and> (\<exists>st. workflow_finished s' i st) \<and> ws_closed s' = ws_closed s"
proof -
  obtain r t where r: "stepRow s x = Some r" and t: "fail_step now r i e1 er s = Inr t" "fail_workflow now i e2 t = Inr s'"
    using assms by (auto simp: failStepAndWorkflow_def)
  have "se_id r = x" using r sel_key by fast
  with fail_step_effect [OF t(1)] r fail_workflow_effect [OF t(2)] show ?thesis by (auto simp: step_finished_def)
qed

lemma ensureStepStarted_outcome:
  assumes "ensureStepStarted now st c ev s = Inr (s', b)"
  shows "step_started s' (input_key st) \<and> ws_closed s' = ws_closed s"
proof (cases "stepExecByKey s (input_key st) = None")
  case True
  then obtain s1 s2 where x: "createStepSync now st s = Inr s1" "set_current_step now (cs_workflow_id st) c s1 = Inr s2"
    "appendWorkflowEventAuto now (cs_workflow_id st) ev s2 = Inr s'"
    using assms by (auto simp: ensureStepStarted_def)
  then show ?thesis
    using createStepSync_effect [OF x(1)] set_current_step_effect [OF x(2)] appendWorkflowEventAuto_effect [OF x(3)]
    by (simp add: step_started_def)
next
  case False
  then show ?thesis using assms by (auto simp: ensureStepStarted_def step_started_def)
qed

lemma advance_round_effect:
  assumes "advance_round now i r e s = Inr s'"
  shows "ws_steps s' = ws_steps s" and "ws_closed s' = ws_closed s"
  using assms update_current_effect(1,2) appendWorkflowEventAuto_effect(2,3)
  by (fastforce simp: advance_round_def split: option.splits)+

lemma advanceWorkflow_outcome:
  assumes "advanceWorkflow now i e1 e2 st c e3 s = Inr (s', b)"
  shows "step_started s' (input_key st) \<and> ws_closed s' = ws_closed s"
proof (cases "stepExecByKey s (input_key st) = None")
  case True
  then obtain s1 s2 s3 s4 where x: "appendWorkflowEventAuto now i e1 s = Inr s1" "advance_round now i (cs_round st) e2 s1 = Inr s2"
    "createStepSync now st s2 = Inr s3" "set_current_step now i c s3 = Inr s4" "appendWorkflowEventAuto now i e3 s4 = Inr s'"
    using assms by (auto simp: advanceWorkflow_def)
  then show ?thesis
    using appendWorkflowEventAuto_effect [OF x(1)] advance_round_effect [OF x(2)] createStepSync_effect [OF x(3)]
      set_current_step_effect [OF x(4)] appendWorkflowEventAuto_effect [OF x(5)]
    by (simp add: step_started_def)
next
  case False
  then show ?thesis using assms by (auto simp: advanceWorkflow_def step_started_def)
qed

lemma completeStep_outcome:
  assumes "completeStepAndCheckpoint now x out i r ctx ev s = Inr (s', b)"
  shows "step_finished s' x SCompleted \<and> ws_closed s' = ws_closed s"
proof -
  from assms obtain st where st: "stepRow s x = Some st" by (auto simp: completeStepAndCheckpoint_def)
  show ?thesis
  proof (cases "se_status st = SCompleted")
    case True
    then show ?thesis using assms st by (auto simp: completeStepAndCheckpoint_def step_finished_def)
  next
    case False
    then obtain s1 s2 where x: "updateStepSync now x (se_revision st)
        (no_spatch\<lparr>sp_status := Some SCompleted, sp_output := out, sp_terminal_at := Some (Some now)\<rparr>) s = Inr s1"
      "save_context_opt now i r ctx s1 = Inr s2" "appendWorkflowEventAuto now i ev s2 = Inr s'"
      using assms st by (auto simp: completeStepAndCheckpoint_def)
    then show ?thesis
      using updateStepSync_status [OF x(1)] updateStepSync_effect(5) [OF x(1)] save_context_opt_effect [OF x(2)]
        appendWorkflowEventAuto_effect [OF x(3)]
      by (simp add: step_finished_def)
  qed
qed

lemma append_opt_effect:
  assumes "append_opt now i e s = Inr s'"
  shows "status_of s' j = status_of s j" and "ws_steps s' = ws_steps s" and "ws_closed s' = ws_closed s"
    and "ws_human s' = ws_human s"
  using assms appendWorkflowEventAuto_effect by (auto simp: append_opt_def split: option.splits)

lemma updateWorkflowSync_status:
  assumes "updateWorkflowSync now i rv p s = Inr s'" and "wp_status p = Some st"
  shows "status_of s' i = Some st"
  using updateWorkflowSync_effect(1,2) [OF assms(1)] assms(2) by (cases "status_of s i") (auto simp: patched_def status_of_def)

lemma terminalizeWorkflow_outcome:
  assumes "terminalizeWorkflow now i st e1 e2 s = Inr (s', b)"
  shows "(status_of s' i = Some st \<or> (\<exists>x. workflow_finished s' i x)) \<and> ws_closed s' = ws_closed s"
proof -
  from assms obtain w where w: "workflowRow s i = Some w" by (auto simp: terminalizeWorkflow_def)
  show ?thesis
  proof (cases "wf_status w = st \<or> isTerminalWorkflowStatus (wf_status w)")
    case True
    then show ?thesis using assms w by (auto simp: terminalizeWorkflow_def workflow_finished_def status_of_def)
  next
    case False
    then obtain s1 s2 where x: "append_opt now i e1 s = Inr s1"
      "updateWorkflowSync now i (wf_revision w) (no_wpatch\<lparr>wp_status := Some st,
            wp_terminal_at := (if isTerminalWorkflowStatus st then Some (Some now) else None)\<rparr>) s1 = Inr s2"
      "appendWorkflowEventAuto now i e2 s2 = Inr s'"
      using assms w by (auto simp: terminalizeWorkflow_def)
    then show ?thesis
      using append_opt_effect(3) [OF x(1)] updateWorkflowSync_status [OF x(2)] updateWorkflowSync_effect(4) [OF x(2)]
        appendWorkflowEventAuto_effect(1,3) [OF x(3)] by simp
  qed
qed

lemma cancel_step_effect:
  assumes "cancel_step now x s = Inr s'"
  shows "ws_closed s' = ws_closed s"
  using assms updateStepSync_effect(5) by (auto simp: cancel_step_def split: option.splits if_splits)

lemma cancelStepAndWorkflow_outcome:
  assumes "cancelStepAndWorkflow now x i ev s = Inr (s', b)"
  shows "(\<exists>st. workflow_finished s' i st) \<and> ws_closed s' = ws_closed s"
proof -
  from assms obtain w where w: "workflowRow s i = Some w" by (auto simp: cancelStepAndWorkflow_def)
  show ?thesis
  proof (cases "isTerminalWorkflowStatus (wf_status w)")
    case True
    then show ?thesis using assms w by (auto simp: cancelStepAndWorkflow_def workflow_finished_def status_of_def)
  next
    case False
    then obtain s1 s2 where x: "cancel_step now x s = Inr s1"
      "updateWorkflowSync now i (wf_revision w)
         (no_wpatch\<lparr>wp_status := Some WCancelled, wp_terminal_at := Some (Some now)\<rparr>) s1 = Inr s2"
      "appendWorkflowEventAuto now i ev s2 = Inr s'"
      using assms w by (auto simp: cancelStepAndWorkflow_def)
    have "workflow_finished s' i WCancelled"
      using updateWorkflowSync_status [OF x(2)] appendWorkflowEventAuto_effect(1) [OF x(3)]
      by (simp add: workflow_finished_def)
    then show ?thesis
      using cancel_step_effect [OF x(1)] updateWorkflowSync_effect(4) [OF x(2)] appendWorkflowEventAuto_effect(3) [OF x(3)] by auto
  qed
qed

lemma recordCancellationIntent_outcome:
  assumes "recordCancellationIntent now i s = Inr s'"
  shows "(\<exists>w. workflowRow s' i = Some w \<and> (wf_cancel_requested w \<or> isTerminalWorkflowStatus (wf_status w))) \<and>
    ws_closed s' = ws_closed s"
proof -
  from assms obtain w where w: "workflowRow s i = Some w" by (auto simp: recordCancellationIntent_def)
  show ?thesis
  proof (cases "wf_cancel_requested w \<or> isTerminalWorkflowStatus (wf_status w)")
    case True
    then show ?thesis using assms w by (auto simp: recordCancellationIntent_def)
  next
    case False
    then have u: "updateWorkflowSync now i (wf_revision w) (no_wpatch\<lparr>wp_cancel_requested := Some True\<rparr>) s = Inr s'"
      using assms w by (auto simp: recordCancellationIntent_def)
    show ?thesis using updateWorkflowSync_effect(4,6) [OF u] w by auto
  qed
qed

section \<open>Replay\<close>

text \<open>A call whose outcome is an absorbing state of the row it is about.\<close>

fun durable_call :: "workflow_call \<Rightarrow> bool" where
  "durable_call (EnsureStepStarted st c e) = True"
| "durable_call (CompleteStep x out i r ctx e) = True"
| "durable_call (AdvanceWorkflow i e1 e2 st c e3) = True"
| "durable_call (TerminalizeWorkflow i st e1 e2) = isTerminalWorkflowStatus st"
| "durable_call (FailStepAndWorkflow x i e1 e2 er) = True"
| "durable_call (RecordCancellationIntent i) = True"
| "durable_call (CancelStepAndWorkflow x i e) = True"
| "durable_call _ = False"

text \<open>The guard on which the second performance of such a call returns without an effect.\<close>

fun settled :: "workflow_call \<Rightarrow> wstore \<Rightarrow> bool" where
  "settled (EnsureStepStarted st c e) s = step_started s (input_key st)"
| "settled (CompleteStep x out i r ctx e) s = step_finished s x SCompleted"
| "settled (AdvanceWorkflow i e1 e2 st c e3) s = step_started s (input_key st)"
| "settled (TerminalizeWorkflow i st e1 e2) s = (\<exists>x. workflow_finished s i x)"
| "settled (FailStepAndWorkflow x i e1 e2 er) s = ((\<exists>st. step_finished s x st) \<and> (\<exists>st. workflow_finished s i st))"
| "settled (RecordCancellationIntent i) s =
    (\<exists>w. workflowRow s i = Some w \<and> (wf_cancel_requested w \<or> isTerminalWorkflowStatus (wf_status w)))"
| "settled (CancelStepAndWorkflow x i e) s = (\<exists>st. workflow_finished s i st)"
| "settled _ s = True"

lemma performed_settles:
  assumes "perform_workflow now c s = Inr s'" and "durable_call c"
  shows "settled c s'"
  using assms
proof (cases c)
  case (TerminalizeWorkflow i st e1 e2)
  with assms obtain b where "terminalizeWorkflow now i st e1 e2 s = Inr (s', b)" by (auto elim: store_of_InrE)
  from terminalizeWorkflow_outcome [OF this] show ?thesis using assms(2) TerminalizeWorkflow
    by (auto simp: workflow_finished_def)
qed (auto elim!: store_of_InrE dest: ensureStepStarted_outcome completeStep_outcome advanceWorkflow_outcome
    failStepAndWorkflow_outcome recordCancellationIntent_outcome cancelStepAndWorkflow_outcome)

lemma settled_persists:
  assumes "wf_inv s" and "evolves s s'" and "settled c s"
  shows "settled c s'"
  using assms
proof (cases c)
  case (RecordCancellationIntent i)
  with assms show ?thesis by (fastforce simp: evolves_def workflow_evolves_def)
qed (auto dest: step_started_persists step_finished_persists [OF assms(2)] workflow_finished_persists [OF assms(2)])

lemma settled_noop:
  assumes "settled c s" and "durable_call c"
  shows "transact s (now, WorkflowCall c) = s"
  using assms
  by (cases c) (auto simp: transact_def store_of_def opened_def need_def ensureStepStarted_def advanceWorkflow_def
      completeStepAndCheckpoint_def terminalizeWorkflow_def failStepAndWorkflow_def fail_step_def fail_workflow_def
      recordCancellationIntent_def cancelStepAndWorkflow_def step_started_def step_finished_def workflow_finished_def
      status_of_def split: option.splits sum.splits)

lemma replay_is_noop:
  assumes "wf_inv s" and "durable_call c" and "perform_workflow now c s = Inr s'"
  shows "transact (run_calls cs s') (now', WorkflowCall c) = run_calls cs s'"
proof (rule settled_noop [OF _ assms(2)])
  have "wf_inv s'" using inv.calls.R_perform_workflow [OF assms(3)] assms(1) by blast
  then show "settled c (run_calls cs s')"
    by (rule settled_persists [OF _ run_calls_evolves performed_settles [OF assms(3,2)]])
qed

end
