(* ===== verification/RuntimeLogic.thy ===== *)
theory RuntimeLogic
  imports RuntimeFacts TaskInvariant WorkflowReplay
begin

text \<open>
  A program logic for the runtime. Assertions speak about the store and are steady: other
  callers' transactions cannot break them. \<open>hoare X P m Q\<close> says that from a store with \<open>P\<close> every entry
  the computation adds to the trace, whatever its outcome, is minor or satisfies \<open>X\<close>, and
  that \<open>Q\<close> holds of the value it returns and the store it leaves.
\<close>

definition steady :: "(wstore \<Rightarrow> bool) \<Rightarrow> bool" where
  "steady P = (\<forall>s s'. P s \<and> after_calls s s' \<longrightarrow> P s')"

definition hoare :: "(action \<Rightarrow> wstore \<Rightarrow> bool) \<Rightarrow> (wstore \<Rightarrow> bool) \<Rightarrow> 'a rt \<Rightarrow> ('a \<Rightarrow> wstore \<Rightarrow> bool) \<Rightarrow> bool" where
  "hoare X P m Q = (\<forall>w. P (w_store w) \<longrightarrow> logs X w (snd (m w)) \<and> (\<forall>x w'. m w = (Value x, w') \<longrightarrow> Q x (w_store w')))"

lemma steadyD: "steady P \<Longrightarrow> P s \<Longrightarrow> after_calls s s' \<Longrightarrow> P s'"
  by (auto simp: steady_def)

lemma steady_moves: "steady P \<Longrightarrow> P (w_store w) \<Longrightarrow> moves w w' \<Longrightarrow> P (w_store w')"
  by (auto simp: steady_def moves_def)

lemma steady_conj: "steady P \<Longrightarrow> steady Q \<Longrightarrow> steady (\<lambda>s. P s \<and> Q s)"
  by (auto simp: steady_def)

lemma steady_const: "steady (\<lambda>s. c)"
  by (simp add: steady_def)

lemma hoareD_logs: "hoare X P m Q \<Longrightarrow> P (w_store w) \<Longrightarrow> logs X w (snd (m w))"
  by (auto simp: hoare_def)

lemma hoareD_value: "hoare X P m Q \<Longrightarrow> P (w_store w) \<Longrightarrow> m w = (Value x, w') \<Longrightarrow> Q x (w_store w')"
  by (auto simp: hoare_def)

lemma hoare_weaken: "hoare X P m Q \<Longrightarrow> (\<And>s. P' s \<Longrightarrow> P s) \<Longrightarrow> (\<And>x s. Q x s \<Longrightarrow> Q' x s) \<Longrightarrow> hoare X P' m Q'"
  unfolding hoare_def by meson

lemma hoare_post: "hoare X P m Q \<Longrightarrow> (\<And>x s. Q x s \<Longrightarrow> Q' x s) \<Longrightarrow> hoare X P m Q'"
  by (auto simp: hoare_def)

lemma hoare_ret: "(\<And>s. P s \<Longrightarrow> Q x s) \<Longrightarrow> hoare X P (ret x) Q"
  by (auto simp: hoare_def ret_def nt.R_refl)

lemma hoare_raise: "hoare X P (raise e) Q"
  by (auto simp: hoare_def raise_def nt.R_refl)

lemma hoare_unfinished: "hoare X P unfinished Q"
  by (auto simp: hoare_def unfinished_def nt.R_refl)

lemma hoare_bnd:
  assumes "hoare X P m Q" and "\<And>x. hoare X (Q x) (f x) S"
  shows "hoare X P (bnd m f) S"
proof -
  have "logs X w (snd (bnd m f w)) \<and> (\<forall>y w'. bnd m f w = (Value y, w') \<longrightarrow> S y (w_store w'))" if P: "P (w_store w)" for w
  proof (cases "m w")
    case (Pair r w1)
    from assms(1) P Pair have log: "logs X w w1" by (metis hoareD_logs snd_conv)
    show ?thesis
    proof (cases r)
      case (Value x)
      then have "Q x (w_store w1)" using assms(1) P Pair by (metis hoareD_value)
      then have "logs X w1 (snd (f x w1))" "\<forall>y w'. f x w1 = (Value y, w') \<longrightarrow> S y (w_store w')"
        using assms(2) [of x] by (auto simp: hoare_def)
      then show ?thesis using log Pair Value by (auto simp: bnd_def intro: nt.R_trans)
    qed (use log Pair in \<open>auto simp: bnd_def\<close>)
  qed
  then show ?thesis by (simp add: hoare_def)
qed

lemma hoare_if: "(c \<Longrightarrow> hoare X P m Q) \<Longrightarrow> (\<not> c \<Longrightarrow> hoare X P m' Q) \<Longrightarrow> hoare X P (if c then m else m') Q"
  by simp

lemma hoare_option:
  "(x = None \<Longrightarrow> hoare X P m Q) \<Longrightarrow> (\<And>y. x = Some y \<Longrightarrow> hoare X P (f y) Q) \<Longrightarrow> hoare X P (case x of None \<Rightarrow> m | Some y \<Rightarrow> f y) Q"
  by (cases x) auto

lemma hoare_sum:
  "(\<And>e. x = Inl e \<Longrightarrow> hoare X P (f e) Q) \<Longrightarrow> (\<And>y. x = Inr y \<Longrightarrow> hoare X P (g y) Q) \<Longrightarrow>
    hoare X P (case x of Inl e \<Rightarrow> f e | Inr y \<Rightarrow> g y) Q"
  by (cases x) auto

lemma hoare_branch: "hoare X P m Q \<Longrightarrow> hoare X P m' Q \<Longrightarrow> hoare X P (branch c m m') Q"
  by (auto simp: hoare_def branch_def)

lemma hoare_present: "(\<And>y s. x = Some y \<Longrightarrow> P s \<Longrightarrow> Q y s) \<Longrightarrow> hoare X P (present x) Q"
  by (cases x) (auto simp: present_def intro: hoare_ret hoare_raise)

lemma hoare_look: "(\<And>x s. P s \<Longrightarrow> Q x s) \<Longrightarrow> hoare X P (look f) Q"
  by (auto simp: hoare_def look_def nt.R_refl)

text \<open>A computation whose critical actions are known keeps a steady assertion; the assertion holds
  where those actions happen.\<close>

lemma hoare_acts:
  assumes "obeys (logs Y) m" and "obeys moves m" and "steady P"
    and "\<And>a s. P s \<Longrightarrow> Y a s \<Longrightarrow> minor a \<or> X a s"
  shows "hoare X P m (\<lambda>_. P)"
proof -
  have "logs X w (snd (m w)) \<and> P (w_store (snd (m w)))" if P: "P (w_store w)" for w
  proof -
    have mv: "moves w (snd (m w))" using assms(2) by (simp add: obeys_def)
    have "logs Y w (snd (m w))" using assms(1) by (simp add: obeys_def)
    then obtain tr where tr: "w_trace (snd (m w)) = w_trace w @ tr" "\<forall>(a, s)\<in>set tr. minor a \<or> Y a s"
      by (auto simp: logs_def emits_def)
    moreover have "\<forall>(a, s)\<in>set tr. after_calls (w_store w) s" using mv tr(1) by (fastforce simp: moves_def)
    ultimately have "\<forall>(a, s)\<in>set tr. minor a \<or> X a s" using P assms(3,4) by (fastforce dest: steadyD)
    then show ?thesis using tr(1) steady_moves [OF assms(3) P mv] by (auto simp: logs_def emits_def)
  qed
  then show ?thesis by (auto simp: hoare_def) (metis snd_conv)
qed

lemma hoare_quiet: "obeys (logs (\<lambda>_ _. False)) m \<Longrightarrow> obeys moves m \<Longrightarrow> steady P \<Longrightarrow> hoare X P m (\<lambda>_. P)"
  by (rule hoare_acts [where Y = "\<lambda>_ _. False"]) auto

lemma hoare_query: "steady P \<Longrightarrow> hoare X P (query env g) (\<lambda>x s. P s \<and> x = g s)"
proof -
  assume st: "steady P"
  have "hoare X P (query env g) (\<lambda>_. P)" by (intro hoare_quiet nt.quiet_rules mv.quiet_rules st)
  then show ?thesis by (fastforce simp: hoare_def query_def Let_def split: if_splits)
qed

lemma hoare_db:
  assumes "steady P" and "\<And>ts s. P s \<Longrightarrow> minor (Did (c ts)) \<or> X (Did (c ts)) s"
    and "\<And>now ts s s'. perform now (c ts) s = Inr s' \<Longrightarrow> C s'"
  shows "hoare X P (db env c g) (\<lambda>x s. P s \<and> x = g s \<and> C s)"
proof -
  have "hoare X P (db env c g) (\<lambda>_. P)"
  proof (rule hoare_acts [where Y = "\<lambda>a s. \<exists>ts. a = Did (c ts)"])
    show "obeys (logs (\<lambda>a s. \<exists>ts. a = Did (c ts))) (db env c g)" by (rule nt.known_db) auto
    show "obeys moves (db env c g)" by (rule mv.known_db) auto
    show "minor a \<or> X a s" if "P s" "\<exists>ts. a = Did (c ts)" for a s using that assms(2) by blast
  qed (rule assms(1))
  then show ?thesis using assms(3)
    by (fastforce simp: hoare_def db_def Let_def stored_def noted_def split: if_splits sum.splits)
qed

lemma hoare_attempt:
  assumes "hoare X P m Q" and "obeys moves m" and "steady P"
  shows "hoare X P (attempt m) (\<lambda>r s. P s \<and> (\<forall>x. r = Inr x \<longrightarrow> Q x s))"
proof -
  have "logs X w (snd (attempt m w)) \<and> (\<forall>r w'. attempt m w = (Value r, w') \<longrightarrow> P (w_store w') \<and> (\<forall>x. r = Inr x \<longrightarrow> Q x (w_store w')))"
    if P: "P (w_store w)" for w
  proof (cases "m w")
    case (Pair r w1)
    have "logs X w w1" using hoareD_logs [OF assms(1) P] Pair by simp
    moreover have "P (w_store w1)" using steady_moves [OF assms(3) P] assms(2) Pair by (metis obeysD)
    moreover have "r = Value x \<Longrightarrow> Q x (w_store w1)" for x using hoareD_value [OF assms(1) P] Pair by simp
    ultimately show ?thesis using Pair by (cases r) (auto simp: attempt_def)
  qed
  then show ?thesis by (simp add: hoare_def)
qed

end
