(* ===== verification/RuntimeSafety.thy ===== *)
theory RuntimeSafety
  imports RuntimeLogic
begin

text \<open>
  The critical actions of the runtime are lawful, in every interleaving and up to every crash:
  a task is created only for a step of a valid spec whose pause gate was answered and under
  the lease of its workspace; a workflow under a completion policy completes only on observed
  evidence; loop edges stay within the round limit; leases are released only when their
  workflow is terminal; a workspace-bound workflow starts only under a lease client.
\<close>

section \<open>What other callers cannot undo\<close>

definition leases_keep :: "wstore \<Rightarrow> wstore \<Rightarrow> bool" where
  "leases_keep s s' \<longleftrightarrow> (\<forall>l\<in>set (ws_leases s). \<exists>l'\<in>set (ws_leases s').
     lr_id l' = lr_id l \<and> lr_node_id l' = lr_node_id l \<and> lr_workflow_id l' = lr_workflow_id l)"

lemma leases_keep_subset: "set (ws_leases s) \<subseteq> set (ws_leases s') \<Longrightarrow> leases_keep s s'"
  unfolding leases_keep_def by blast

lemma leases_keep_same: "ws_leases s' = ws_leases s \<Longrightarrow> leases_keep s s'"
  by (rule leases_keep_subset) simp

lemma leases_keep_trans: "leases_keep s t \<Longrightarrow> leases_keep t u \<Longrightarrow> leases_keep s u"
  unfolding leases_keep_def by metis

lemma leases_keep_update:
  assumes "\<And>l. lr_id (f l) = lr_id l \<and> lr_node_id (f l) = lr_node_id l \<and> lr_workflow_id (f l) = lr_workflow_id l"
  shows "leases_keep s (update_lease i f s)"
  unfolding leases_keep_def
proof
  fix l assume "l \<in> set (ws_leases s)"
  then show "\<exists>l'\<in>set (ws_leases (update_lease i f s)). lr_id l' = lr_id l \<and> lr_node_id l' = lr_node_id l \<and> lr_workflow_id l' = lr_workflow_id l"
    using assms by (intro bexI [of _ "if lr_id l = i then f l else l"]) (auto simp: update_lease_def upd_def)
qed

lemma leases_keep_step: "lease_step s s' \<Longrightarrow> leases_keep s s'"
proof (induction rule: lease_step.induct)
  case (intent now i wid n k s s')
  then show ?case by (auto simp: recordWorkspaceLeaseIntent_def split: if_splits intro!: leases_keep_subset)
qed (auto simp: markWorkspaceLeaseActive_def setWorkspaceLeaseAcquireReason_def setWorkspaceLeaseRevision_def
    requestWorkspaceLeaseRelease_def markWorkspaceLeaseReleased_def activate_lease_def leases_keep_same
    split: if_splits intro!: leases_keep_update)

interpretation keep: call_relation leases_keep
proof
  show "leases_keep s s'" if "lease_step s s'" for s s' using that by (rule leases_keep_step)
  show "leases_keep s s'" if "appendWorkflowEventSync now w q d s = Inr s'" for now w q d s s'
    using that by (auto simp: appendWorkflowEventSync_def leases_keep_same split: if_splits option.splits)
qed (auto simp: createWorkflowSync_def updateWorkflowSync_def createStepSync_def updateStepSync_def saveContextSync_def
    update_step_aux_def tasks_only_def insert_human_request_def update_human_def leases_keep_same split: if_splits intro: leases_keep_trans)

definition has_row :: "string \<Rightarrow> workflow_row \<Rightarrow> wstore \<Rightarrow> bool" where
  "has_row wid row s = (\<exists>r. workflowRow s wid = Some r \<and> workflow_evolves row r)"

definition has_step :: "step_row \<Rightarrow> wstore \<Rightarrow> bool" where
  "has_step st s = (\<exists>r. stepRow s (se_id st) = Some r \<and> step_evolves st r)"

definition answered :: "string \<Rightarrow> wstore \<Rightarrow> bool" where
  "answered i s = (\<exists>h. humanRow s i = Some h \<and> (hr_status h = HAnswered \<or> hr_status h = HApproved))"

definition terminal :: "string \<Rightarrow> wstore \<Rightarrow> bool" where
  "terminal wid s = (\<exists>r. workflowRow s wid = Some r \<and> isTerminalWorkflowStatus (wf_status r))"

definition has_lease :: "string \<Rightarrow> string \<Rightarrow> string \<Rightarrow> wstore \<Rightarrow> bool" where
  "has_lease n i wid s = (\<exists>l\<in>set (ws_leases s). lr_id l = i \<and> lr_node_id l = n \<and> lr_workflow_id l = wid)"

text \<open>The result a step's evidence is read from.\<close>

definition has_result :: "(string \<Rightarrow> string) \<Rightarrow> step_row \<Rightarrow> task_result option \<Rightarrow> wstore \<Rightarrow> bool" where
  "has_result sha st result s = (\<forall>r. result = Some r \<longrightarrow> (\<exists>t x v. se_task_id st = Some t \<and> taskResultRow s t = Some x \<and>
     rr_result x = Some v \<and> validateTaskResult sha (result_json v) = Inr r))"

lemma steady_row: "steady (has_row wid row)"
  unfolding steady_def has_row_def after_calls_def
  using run_calls_evolves by (fastforce simp: evolves_def dest: workflow_evolves_trans)

lemma steady_step: "steady (has_step st)"
  unfolding steady_def has_step_def after_calls_def
  using run_calls_evolves by (fastforce simp: evolves_def dest: step_evolves_trans)

lemma steady_answered: "steady (answered i)"
  unfolding steady_def answered_def after_calls_def
  using run_calls_gates by (fastforce simp: gates_evolve_def human_evolves_def)

lemma steady_terminal: "steady (terminal wid)"
  unfolding steady_def terminal_def after_calls_def
  using run_calls_evolves by (fastforce simp: evolves_def workflow_evolves_def)

lemma steady_lease: "steady (has_lease n i wid)"
  unfolding steady_def has_lease_def after_calls_def
  using keep.R_run by (fastforce simp: leases_keep_def)

lemma steady_result: "steady (has_result sha st result)"
  unfolding steady_def has_result_def after_calls_def
  using result_persists [OF run_calls_tasks] by blast

lemmas steady_rules = steady_conj steady_const steady_row steady_step steady_answered steady_terminal steady_lease steady_result

section \<open>Lawful actions\<close>

definition task_lawful :: "env \<Rightarrow> task_request \<Rightarrow> wstore \<Rightarrow> bool" where
  "task_lawful env req s = (\<exists>st row specStep. stepRow s (rq_idempotency_key req) = Some st \<and>
     workflowRow s (se_workflow_id st) = Some row \<and> spec_valid (wf_spec row) \<and>
     find_step (wf_spec row) (se_step_id st) = Some specStep \<and>
     (truthy (fld specStep ''pause_before'') \<longrightarrow> answered (humanRequestId (e_sha env) (se_id st)) s) \<and>
     rq_workspace_lease_id req = map_option tg_lease_id (stepLeaseTarget env (wf_spec row) row st) \<and>
     (rq_workspace_write req \<longrightarrow> rq_workspace_lease_id req \<noteq> None))"

definition completion_lawful :: "env \<Rightarrow> string \<Rightarrow> event_draft \<Rightarrow> wstore \<Rightarrow> bool" where
  "completion_lawful env wid ev s = (\<exists>row. workflowRow s wid = Some row \<and>
     (truthy (fld (wf_spec row) ''completion_policy'') \<longrightarrow> ed_payload ev = JObj [(''verified'', JBool True)] \<and>
       (\<exists>st status result. has_step st s \<and> se_workflow_id st = wid \<and> has_result (e_sha env) st result s \<and>
         evaluateCompletion (policy_of (fld (wf_spec row) ''completion_policy''))
           (assembleEvidence (e_sha env) status result (se_revision_before st) (se_revision_after st))
           (declaredRemainingWork st) = Complete)))"

definition advance_lawful :: "string \<Rightarrow> event_draft option \<Rightarrow> create_step_input \<Rightarrow> wstore \<Rightarrow> bool" where
  "advance_lawful wid roundAdvanced nx s = (\<exists>row. workflowRow s wid = Some row \<and>
     (roundAdvanced \<noteq> None \<longrightarrow> cs_round nx \<le> spec_limit (wf_spec row) ''max_rounds''))"

definition release_lawful :: "string \<Rightarrow> string \<Rightarrow> wstore \<Rightarrow> bool" where
  "release_lawful n i s = (\<exists>wid. has_lease n i wid s \<and> terminal wid s)"

definition start_lawful :: "env \<Rightarrow> string \<Rightarrow> wstore \<Rightarrow> bool" where
  "start_lawful env wid s = (\<exists>row. workflowRow s wid = Some row \<and> spec_valid (wf_spec row) \<and>
     (workspace_bound env wid (wf_spec row) (inputs_of row) \<longrightarrow> e_has_leases env))"

definition lawful :: "env \<Rightarrow> action \<Rightarrow> wstore \<Rightarrow> bool" where
  "lawful env a s = (case a of
      CreateTask req \<Rightarrow> task_lawful env req s
    | ReleaseLease n i \<Rightarrow> release_lawful n i s
    | Did (WorkflowCall (TerminalizeWorkflow wid st _ ev)) \<Rightarrow> st = WCompleted \<longrightarrow> completion_lawful env wid ev s
    | Did (WorkflowCall (AdvanceWorkflow wid _ ra nx _ _)) \<Rightarrow> advance_lawful wid ra nx s
    | Did (WorkflowCall (StartWorkflow wid _)) \<Rightarrow> start_lawful env wid s
    | _ \<Rightarrow> True)"

lemma minor_lawful: "minor a \<Longrightarrow> lawful env a s"
  by (auto simp: minor_def minor_call_def lawful_def split: action.splits store_call.splits workflow_call.splits)

section \<open>The pause gate and task creation\<close>

lemma hoare_then: "hoare X P m (\<lambda>_. P) \<Longrightarrow> (\<And>x. hoare X P (f x) S) \<Longrightarrow> hoare X P (bnd m f) S"
  by (rule hoare_bnd)

lemma hoare_read: "steady P \<Longrightarrow> (\<And>s. P s \<Longrightarrow> Q (g s) s) \<Longrightarrow> hoare X P (query env g) Q"
  by (rule hoare_post [OF hoare_query]) auto

lemma hoare_any: "hoare X P m Q \<Longrightarrow> hoare X P m (\<lambda>_ _. True)"
  by (rule hoare_post) auto

lemma hoare_pause:
  assumes "steady P"
  shows "hoare X P (evaluatePauseGate env wid st gate) (\<lambda>go s. P s \<and> (go \<longrightarrow> answered (humanRequestId (e_sha env) (se_id st)) s))"
proof -
  let ?i = "humanRequestId (e_sha env) (se_id st)"
  let ?Q = "\<lambda>go s. P s \<and> (go \<longrightarrow> answered ?i s)"
  have stop: "hoare X P (bnd m (\<lambda>_. ret False)) ?Q" if "obeys (logs (\<lambda>_ _. False)) m" "obeys moves m" for m :: "unit rt"
    by (rule hoare_then [OF hoare_quiet [OF that assms]]) (rule hoare_ret, simp)
  have pause: "obeys (logs (\<lambda>_ _. False)) (pause_for env wid st gate)" "obeys moves (pause_for env wid st gate)"
    unfolding pause_for_def by (rule nt.quiet_db mv.quiet_db; simp add: minor_defs)+
  show ?thesis
    unfolding evaluatePauseGate_def
  proof (rule hoare_bnd [where Q = "\<lambda>x s. P s \<and> x = humanRow s ?i", OF hoare_query [OF assms]], intro hoare_if)
    fix x
    show "hoare X (\<lambda>s. P s \<and> x = humanRow s ?i) (ret True) ?Q"
      if "\<exists>h\<in>set_option x. hr_status h = HAnswered \<or> hr_status h = HApproved"
      using that by (intro hoare_ret) (auto simp: answered_def)
  next
    fix x
    show "hoare X (\<lambda>s. P s \<and> x = humanRow s ?i) (bnd (failWorkflow env wid ''runtime_internal''
        [(''reason'', JStr ''approval_rejected''), (''step_id'', JStr (se_step_id st))]) (\<lambda>_. ret False)) ?Q"
      by (rule hoare_weaken [OF stop [OF nt.quiet_terminal(2) mv.quiet_terminal(2)]]) auto
    show "hoare X (\<lambda>s. P s \<and> x = humanRow s ?i) (bnd (pause_for env wid st gate) (\<lambda>_. ret False)) ?Q"
      by (rule hoare_weaken [OF stop [OF pause]]) auto
  qed
qed

text \<open>What the driver knows of the workflow and the step it works on.\<close>

definition working_on :: "string \<Rightarrow> jsval \<Rightarrow> workflow_row \<Rightarrow> step_row \<Rightarrow> bool" where
  "working_on wid spec row st = (loadSpec row = Some spec \<and> wf_id row = wid \<and> se_workflow_id st = wid)"

lemma stepLeaseTarget_cong:
  assumes "workflow_evolves row row'" and "step_evolves st st'"
  shows "stepLeaseTarget env spec row' st' = stepLeaseTarget env spec row st"
proof -
  have "inputs_of row' = inputs_of row" "wf_id row' = wf_id row" "se_step_id st' = se_step_id st" "se_round st' = se_round st"
    using assms by (auto simp: workflow_evolves_def step_evolves_def step_key_def inputs_of_def)
  then show ?thesis by (simp only: stepLeaseTarget_def)
qed

lemma task_lawfulI:
  assumes "working_on wid spec row st" and "has_row wid row s" and "has_step st s"
    and "find_step spec (se_step_id st) = Some specStep"
    and "truthy (fld specStep ''pause_before'') \<longrightarrow> answered (humanRequestId (e_sha env) (se_id st)) s"
    and "leaseId = map_option tg_lease_id (stepLeaseTarget env spec row st)"
  shows "lawful env (CreateTask (task_request_of wid role specStep st body key leaseId)) s"
proof -
  obtain row' where row': "workflowRow s wid = Some row'" "workflow_evolves row row'" using assms(2) by (auto simp: has_row_def)
  obtain st' where st': "stepRow s (se_id st) = Some st'" "step_evolves st st'" using assms(3) by (auto simp: has_step_def)
  have "spec_valid (wf_spec row')" "wf_spec row' = spec"
    using assms(1) row'(2) by (auto simp: working_on_def loadSpec_def workflow_evolves_def split: if_splits)
  moreover have "se_workflow_id st' = wid" "se_step_id st' = se_step_id st" "se_id st' = se_id st"
    using assms(1) st'(2) by (auto simp: working_on_def step_evolves_def step_key_def)
  ultimately show ?thesis
    using assms(4-6) row' st' stepLeaseTarget_cong [OF row'(2) st'(2)]
    by (auto simp: lawful_def task_lawful_def task_request_of_def)
qed

lemma create_retry_acts:
  "obeys (logs (\<lambda>a s. a = CreateTask req)) (create_retry fuel env wid row st req n)"
  "obeys moves (create_retry fuel env wid row st req n)"
  by (rule nt.obeys_create_retry mv.obeys_create_retry; simp)+

lemma hoare_create_rendered:
  assumes "working_on wid spec row st" and "find_step spec (se_step_id st) = Some specStep"
    and P: "P = (\<lambda>s. has_row wid row s \<and> has_step st s \<and>
      (truthy (fld specStep ''pause_before'') \<longrightarrow> answered (humanRequestId (e_sha env) (se_id st)) s))"
  shows "hoare (lawful env) P (create_rendered fuel env wid spec row st specStep role) (\<lambda>_. P)"
proof -
  have st: "steady P" unfolding P by (cases "truthy (fld specStep ''pause_before'')") (simp_all add: steady_rules)
  have create: "hoare (lawful env) P (create_retry fuel env wid row st (task_request_of wid role specStep st body key leaseId) 0) (\<lambda>_. P)"
    if "leaseId = map_option tg_lease_id (stepLeaseTarget env spec row st)" for body key leaseId
    using task_lawfulI [OF assms(1) _ _ assms(2) _ that] by (intro hoare_acts [OF create_retry_acts st]) (auto simp: P)
  show ?thesis
    unfolding create_rendered_def fail_render_def
    by (intro hoare_then hoare_sum hoare_option hoare_if create hoare_ret
        hoare_quiet [OF nt.quiet_context(1) mv.quiet_context(1) st] hoare_quiet [OF nt.quiet_terminal(2) mv.quiet_terminal(2) st]
        hoare_quiet [OF nt.quiet_revision_gate mv.quiet_revision_gate st]) simp_all
qed

lemma hoare_create:
  assumes "working_on wid spec row st"
  shows "hoare (lawful env) (\<lambda>s. has_row wid row s \<and> has_step st s) (createAndBindTask fuel env wid spec row st) (\<lambda>_ _. True)"
proof -
  let ?P = "\<lambda>s. has_row wid row s \<and> has_step st s"
  have st: "steady ?P" by (intro steady_rules)
  have fail: "hoare (lawful env) ?P (bnd (failWorkflow env wid code meta) (\<lambda>_. ret False)) (\<lambda>_ _. True)" for code meta
    by (intro hoare_then hoare_ret hoare_quiet [OF nt.quiet_terminal(2) mv.quiet_terminal(2) st]) simp
  show ?thesis
    unfolding createAndBindTask_def
  proof (intro hoare_option hoare_if fail)
    fix specStep
    assume found: "find_step spec (se_step_id st) = Some specStep"
    note rendered = hoare_create_rendered [OF assms found refl, THEN hoare_any]
    show "hoare (lawful env) ?P (bnd (evaluatePauseGate env wid st (fld specStep ''pause_before''))
        (\<lambda>go. if go then create_rendered fuel env wid spec row st specStep (role_of spec specStep) else ret False)) (\<lambda>_ _. True)"
      by (rule hoare_bnd [OF hoare_pause [OF st]], intro hoare_if hoare_ret hoare_weaken [OF rendered]) auto
    show "hoare (lawful env) ?P (create_rendered fuel env wid spec row st specStep (role_of spec specStep)) (\<lambda>_ _. True)"
      if "\<not> truthy (fld specStep ''pause_before'')" using that by (intro hoare_weaken [OF rendered]) auto
  qed
qed

section \<open>Routing\<close>

lemma hoare_critical_db:
  assumes "steady P" and "\<And>ts s. P s \<Longrightarrow> minor (Did (c ts)) \<or> X (Did (c ts)) s"
  shows "hoare X P (db env c g) (\<lambda>_. P)"
proof (rule hoare_post)
  show "hoare X P (db env c g) (\<lambda>x s. P s \<and> x = g s \<and> True)" using assms by (intro hoare_db) auto
qed simp

lemma hoare_db_value:
  assumes "steady P" and "\<And>ts. minor (Did (c ts))"
  shows "hoare X P (db env c g) (\<lambda>x s. P s \<and> x = g s)"
proof (rule hoare_post)
  show "hoare X P (db env c g) (\<lambda>x s. P s \<and> x = g s \<and> True)" using assms by (intro hoare_db) auto
qed simp

lemma hoare_result_of:
  assumes "steady P" and "se_task_id st = Some t"
  shows "hoare X P (or_none (result_of env t)) (\<lambda>r s. P s \<and> has_result (e_sha env) st r s)"
proof -
  have mv: "obeys moves (result_of env t)" unfolding result_of_def by (intro mv.quiet_rules)
  let ?R = "\<lambda>x s. P s \<and> x = getTaskResultDurable (e_sha env) t s"
  have "hoare X P (result_of env t) (has_result (e_sha env) st)"
    unfolding result_of_def
  proof (rule hoare_bnd [where Q = ?R, OF hoare_query [OF assms(1)]], intro hoare_sum hoare_option hoare_raise hoare_ret)
    show "has_result (e_sha env) st None s" for s by (simp add: has_result_def)
    show "has_result (e_sha env) st (snd sr) s" if "x = Inr y" "y = Some sr" "?R x s" for x y sr s
      using that assms(2) by (auto simp: has_result_def getTaskResultDurable_def split: option.splits if_splits sum.splits)
  qed
  from hoare_attempt [OF this mv assms(1)] show ?thesis
    unfolding or_none_def
    by (rule hoare_bnd, intro hoare_ret) (auto simp: has_result_def split: sum.split)
qed

lemma hoare_evidence:
  assumes "steady P"
  shows "hoare X P (assembleStepEvidence env st) (\<lambda>e s. P s \<and> (\<exists>status result. has_result (e_sha env) st result s \<and>
    e = assembleEvidence (e_sha env) status result (se_revision_before st) (se_revision_after st)))"
proof -
  have none: "has_result (e_sha env) st None s" for s by (simp add: has_result_def)
  have status: "hoare X P (or_none (query env g)) (\<lambda>_. P)" for g :: "wstore \<Rightarrow> string option"
    unfolding or_none_def by (intro hoare_quiet nt.quiet_rules mv.quiet_rules assms)
  show ?thesis
    unfolding assembleStepEvidence_def
  proof (intro hoare_option hoare_if)
    fix t assume t: "se_task_id st = Some t"
    show "hoare X P (bnd (or_none (query env (\<lambda>s. map_option tk_status (taskRow s t)))) (\<lambda>taskStatus.
        bnd (or_none (result_of env t)) (\<lambda>result. ret (assembleEvidence (e_sha env) taskStatus result (se_revision_before st) (se_revision_after st)))))
      (\<lambda>e s. P s \<and> (\<exists>status result. has_result (e_sha env) st result s \<and>
        e = assembleEvidence (e_sha env) status result (se_revision_before st) (se_revision_after st)))"
      by (rule hoare_then [OF status], rule hoare_bnd [OF hoare_result_of [OF assms t]], rule hoare_ret) blast
  qed (intro hoare_ret; use none in blast)+
qed

lemma hoare_completion:
  assumes "working_on wid spec row st" and "truthy (fld spec ''completion_policy'')"
  shows "hoare (lawful env) (\<lambda>s. has_row wid row s \<and> has_step st s) (gateCompletion env wid spec st target) (\<lambda>_ _. True)"
proof -
  let ?P = "\<lambda>s. has_row wid row s \<and> has_step st s"
  have st: "steady ?P" by (intro steady_rules)
  let ?d = "\<lambda>e. evaluateCompletion (policy_of (fld spec ''completion_policy'')) e (declaredRemainingWork st)"
  let ?e = "\<lambda>status result. assembleEvidence (e_sha env) status result (se_revision_before st) (se_revision_after st)"
  have law: "minor (Did (decided wid (?d (?e status result)) target ts)) \<or> lawful env (Did (decided wid (?d (?e status result)) target ts)) s"
    if P: "?P s" and R: "has_result (e_sha env) st result s" for status result ts s
  proof (cases "?d (?e status result)")
    case Complete
    obtain row' where row': "workflowRow s wid = Some row'" "wf_spec row' = spec"
      using P assms(1) by (auto simp: has_row_def working_on_def loadSpec_def workflow_evolves_def split: if_splits)
    have "completion_lawful env wid (draft EvCompleted ts None (JObj [(''verified'', JBool True)])) s"
      unfolding completion_lawful_def using row' P R assms(1) Complete
      by (intro exI [of _ row'] conjI impI exI [of _ st] exI [of _ status] exI [of _ result]) (auto simp: draft_def working_on_def)
    then show ?thesis using Complete by (simp add: lawful_def)
  qed (simp_all add: minor_defs)
  show ?thesis
    unfolding gateCompletion_def Let_def
  proof (rule hoare_bnd [OF hoare_evidence [OF st]])
    fix e
    let ?E = "\<lambda>s. ?P s \<and> (\<exists>status result. has_result (e_sha env) st result s \<and> e = ?e status result)"
    have "steady (\<lambda>s. has_result (e_sha env) st result s)" for result by (rule steady_result)
    then have E: "steady ?E" using st unfolding steady_def by blast
    show "hoare (lawful env) ?E (bnd (ignoring (db env (\<lambda>ts. GateCall (RecordCompletionEvidence (se_id st) wid (evidence_json e)
        (decision_name (?d e)))) (\<lambda>_. ()))) (\<lambda>_. bnd (db env (decided wid (?d e) target) (\<lambda>_. ())) (\<lambda>_. ret True))) (\<lambda>_ _. True)"
    proof (intro hoare_then)
      show "hoare (lawful env) ?E (ignoring (db env (\<lambda>ts. GateCall (RecordCompletionEvidence (se_id st) wid (evidence_json e)
          (decision_name (?d e)))) (\<lambda>_. ()))) (\<lambda>_. ?E)"
        by (intro hoare_quiet nt.obeys_ignoring mv.obeys_ignoring nt.quiet_db mv.quiet_db E) (simp_all add: minor_defs)
      show "hoare (lawful env) ?E (db env (decided wid (?d e) target) (\<lambda>_. ())) (\<lambda>_. ?E)"
        using law by (intro hoare_critical_db E) blast
    qed (simp add: hoare_ret)
  qed
qed

lemma hoare_advance:
  assumes "working_on wid spec row st" and "loop \<longrightarrow> canTakeLoopEdge (se_round st) (spec_limit spec ''max_rounds'')"
  shows "hoare (lawful env) (\<lambda>s. has_row wid row s \<and> has_step st s) (advance_to env wid st target loop) (\<lambda>_ _. True)"
proof -
  have st: "steady (\<lambda>s. has_row wid row s \<and> has_step st s)" by (intro steady_rules)
  have law: "lawful env (Did (WorkflowCall (AdvanceWorkflow wid e ra (pending_step wid target r) target ev))) s"
    if "has_row wid row s" "ra \<noteq> None \<Longrightarrow> r \<le> spec_limit spec ''max_rounds''" for e ra r ev s
    using that assms(1)
    by (auto simp: lawful_def advance_lawful_def has_row_def working_on_def loadSpec_def workflow_evolves_def pending_step_def split: if_splits)
  show ?thesis
    unfolding advance_to_def Let_def
    by (intro hoare_then hoare_critical_db st disjI2 law hoare_ret) (use assms(2) in \<open>auto simp: canTakeLoopEdge_def split: if_splits\<close>)
qed

lemma hoare_route:
  assumes "working_on wid spec row st"
  shows "hoare (lawful env) (\<lambda>s. has_row wid row s \<and> has_step st s) (routeAndAdvance env wid spec st) (\<lambda>_ _. True)"
proof -
  let ?P = "\<lambda>s. has_row wid row s \<and> has_step st s"
  have st: "steady ?P" by (intro steady_rules)
  have law: "minor (Did (WorkflowCall (TerminalizeWorkflow wid status e ev))) \<or>
      lawful env (Did (WorkflowCall (TerminalizeWorkflow wid status e ev))) s"
    if "has_row wid row s" "\<not> (status = WCompleted \<and> truthy (fld spec ''completion_policy''))" for status e ev s
    using that assms by (auto simp: minor_defs lawful_def completion_lawful_def has_row_def working_on_def loadSpec_def
        workflow_evolves_def split: if_splits)
  show ?thesis
    unfolding routeAndAdvance_def route_terminal_def route_step_def
    by (intro hoare_option hoare_sum hoare_if hoare_then hoare_present hoare_completion [OF assms] hoare_advance [OF assms]
        hoare_critical_db st law hoare_ret hoare_quiet [OF nt.quiet_terminal(2) mv.quiet_terminal(2) st]
        hoare_quiet [OF nt.quiet_terminal(3) mv.quiet_terminal(3) st] hoare_quiet [OF nt.quiet_stall mv.quiet_stall st]) auto
qed

section \<open>The driver\<close>

lemma steady_inv: "steady wf_inv"
  unfolding steady_def after_calls_def using run_calls_inv by blast

lemma step_found:
  assumes "wf_inv s" and "getStepExecutionByKey wid stepId round 1 s = Some st"
  shows "has_step st s \<and> se_workflow_id st = wid"
proof -
  from assms(2) have "st \<in> set (ws_steps s)" "step_key st = (wid, stepId, round, 1)"
    by (auto simp: getStepExecutionByKey_def dest: sel_key)
  moreover have "stepRow s (se_id st) = Some st" using assms(1) calculation(1) by (intro sel_mem) (auto simp: wf_inv_def)
  ultimately show ?thesis by (auto simp: has_step_def step_key_def)
qed

lemma hoare_drive_task:
  assumes "working_on wid spec row st"
  shows "hoare (lawful env) (\<lambda>s. has_row wid row s \<and> has_step st s) (drive_task fuel env wid spec row st) (\<lambda>_ _. True)"
proof -
  let ?P = "\<lambda>s. has_row wid row s \<and> has_step st s"
  have st: "steady ?P" by (intro steady_rules)
  have await: "hoare (lawful env) Q (await_and_handle fuel env wid spec row st') (\<lambda>_ _. True)" if "steady Q" for st' Q
    by (rule hoare_any [OF hoare_quiet [OF nt.quiet_await_and_handle mv.quiet_await_and_handle that]])
  have rest: "hoare (lawful env) (\<lambda>_. True) (bnd (query env g) (\<lambda>found. bnd (present found) (await_and_handle fuel env wid spec row)))
      (\<lambda>_ _. True)" for g :: "wstore \<Rightarrow> step_row option"
    by (rule hoare_then, rule hoare_any [OF hoare_query [OF steady_const]], rule hoare_then) (auto intro!: hoare_present await steady_const)
  show ?thesis
    unfolding drive_task_def
    by (intro hoare_if await st hoare_then [OF hoare_quiet [OF nt.quiet_terminal(3) mv.quiet_terminal(3) st]] hoare_ret
        hoare_bnd [OF hoare_create [OF assms]] rest) auto
qed

lemma hoare_drive_step:
  assumes "loadSpec row = Some spec" and "wf_id row = wid"
  shows "hoare (lawful env) (\<lambda>s. has_row wid row s \<and> wf_inv s) (drive_step fuel env wid spec row) (\<lambda>_ _. True)"
proof -
  let ?P = "\<lambda>s. has_row wid row s \<and> wf_inv s"
  let ?Q = "\<lambda>st s. has_row wid row s \<and> has_step st s \<and> se_workflow_id st = wid"
  have st: "steady ?P" by (intro steady_rules steady_inv)
  have start: "hoare (lawful env) ?P (startStep env wid stepId round) ?Q" for stepId round
    unfolding startStep_def
  proof (rule hoare_bnd [OF hoare_db_value [OF st]])
    show "hoare (lawful env) (\<lambda>s. ?P s \<and> x = getStepExecutionByKey wid stepId round 1 s) (present x) ?Q" for x
      by (rule hoare_present) (auto dest: step_found)
  qed (simp add: minor_defs)
  have found: "hoare (lawful env) (\<lambda>s. ?P s \<and> x = getStepExecutionByKey wid stepId round 1 s)
      (case x of Some st \<Rightarrow> ret st | None \<Rightarrow> startStep env wid stepId round) ?Q" for x stepId round
    by (intro hoare_option hoare_ret hoare_weaken [OF start]) (auto dest: step_found)
  have work: "hoare (lawful env) (?Q st) m (\<lambda>_ _. True)"
    if "working_on wid spec row st \<Longrightarrow> hoare (lawful env) (\<lambda>s. has_row wid row s \<and> has_step st s) m (\<lambda>_ _. True)" for st and m :: "bool rt"
    using that assms by (fastforce simp: hoare_def working_on_def)
  show ?thesis
    unfolding drive_step_def Let_def
    by (rule hoare_bnd [OF hoare_query [OF st]], rule hoare_bnd [OF found], intro hoare_if hoare_ret work hoare_route hoare_drive_task) auto
qed

lemma hoare_drive_body: "hoare (lawful env) wf_inv (drive_body fuel env wid) (\<lambda>_ _. True)"
proof -
  have stop: "hoare (lawful env) P (bnd m (\<lambda>_. ret True)) (\<lambda>_ _. True)"
    if "obeys (logs (\<lambda>_ _. False)) m" "obeys moves m" for m :: "unit rt" and P
    using hoare_quiet [OF that steady_const, of "lawful env" True] by (intro hoare_weaken [OF hoare_then]) (auto intro: hoare_ret)
  show ?thesis
    unfolding drive_body_def
  proof (rule hoare_bnd [OF hoare_query [OF steady_inv]], intro hoare_option hoare_if hoare_ret hoare_branch
      stop nt.quiet_terminal mv.quiet_terminal nt.quiet_cancellation mv.quiet_cancellation)
    show "hoare (lawful env) (\<lambda>s. wf_inv s \<and> x = workflowRow s wid) (drive_step fuel env wid spec row) (\<lambda>_ _. True)"
      if "x = Some row" "loadSpec row = Some spec" for x row spec
    proof (cases "wf_id row = wid")
      case True
      show ?thesis by (rule hoare_weaken [OF hoare_drive_step [OF that(2) True]]) (auto simp: has_row_def that, metis workflow_evolves_refl)
    next
      case False
      then show ?thesis using that(1) by (auto simp: hoare_def dest!: sel_key [OF sym])
    qed
  qed simp_all
qed

lemma hoare_keep: "hoare X P m Q \<Longrightarrow> obeys moves m \<Longrightarrow> steady P \<Longrightarrow> hoare X P m (\<lambda>_. P)"
  unfolding hoare_def by (metis obeysD steady_moves)

lemma hoare_drive_loop: "hoare (lawful env) wf_inv (drive_loop fuel env wid) (\<lambda>_ _. True)"
proof (induction fuel)
  case (Suc fuel)
  have "obeys moves (drive_body fuel env wid)"
    unfolding drive_body_def drive_step_def drive_task_def Let_def
    by (intro mv.quiet_rules mv.quiet_terminal mv.quiet_cancellation mv.quiet_start_step mv.quiet_await_and_handle mv.full_create mv.full_route)
  from hoare_keep [OF hoare_drive_body this steady_inv] Suc show ?case
    by (auto intro!: hoare_branch hoare_then hoare_if hoare_ret)
qed (simp add: hoare_unfinished)

section \<open>Releases\<close>

lemma hoare_each: "(\<And>x. x \<in> set xs \<Longrightarrow> hoare X P (f x) (\<lambda>_. P)) \<Longrightarrow> hoare X P (each f xs) (\<lambda>_. P)"
  by (induction xs) (auto intro!: hoare_ret hoare_then)

lemma hoare_release_row:
  assumes "steady P" and "\<And>s. P s \<Longrightarrow> release_lawful (lr_node_id l) (lr_id l) s"
  shows "hoare (lawful env) P (release_row env l) (\<lambda>_. P)"
proof (rule hoare_acts [where Y = "\<lambda>a s. a = ReleaseLease (lr_node_id l) (lr_id l)"])
  show "obeys (logs (\<lambda>a s. a = ReleaseLease (lr_node_id l) (lr_id l))) (release_row env l)" by (rule nt.obeys_release_row) simp
  show "obeys moves (release_row env l)" by (rule mv.obeys_release_row) simp
qed (use assms in \<open>auto simp: lawful_def\<close>)

lemma steady_all: "(\<And>x. x \<in> S \<Longrightarrow> steady (P x)) \<Longrightarrow> steady (\<lambda>s. \<forall>x\<in>S. P x s)"
  unfolding steady_def by blast

lemma hoare_settle: "hoare (lawful env) (\<lambda>_. True) (settleLeaseReleases env wid) (\<lambda>_ _. True)"
proof -
  let ?L = "\<lambda>ls s. terminal wid s \<and> (\<forall>l\<in>set ls. has_lease (lr_node_id l) (lr_id l) wid s)"
  have all: "hoare (lawful env) (?L ls) (each (\<lambda>l. if lr_status l = LReleased then ret () else release_row env l) ls) (\<lambda>_ _. True)" for ls
    by (rule hoare_any, rule hoare_each, intro hoare_if hoare_ret hoare_release_row steady_rules steady_all)
      (auto simp: release_lawful_def)
  have listed: "hoare (lawful env) (terminal wid) (bnd (query env (listWorkspaceLeaseProjections wid))
      (each (\<lambda>l. if lr_status l = LReleased then ret () else release_row env l))) (\<lambda>_ _. True)"
    by (rule hoare_bnd [OF hoare_read [OF steady_terminal, where Q = ?L] all])
      (auto simp: has_lease_def listWorkspaceLeaseProjections_def)
  have "hoare (lawful env) (\<lambda>s. True \<and> x = workflowRow s wid) (case x of None \<Rightarrow> ret () | Some r \<Rightarrow>
      if wf_status r \<notin> {WCompleted, WFailed, WCancelled} then ret () else bnd (query env (listWorkspaceLeaseProjections wid))
        (each (\<lambda>l. if lr_status l = LReleased then ret () else release_row env l))) (\<lambda>_ _. True)" for x
    by (intro hoare_option hoare_if hoare_ret hoare_weaken [OF listed]) (auto simp: terminal_def dest!: sym [of "Some _"])
  then show ?thesis unfolding settleLeaseReleases_def
    by (intro hoare_if hoare_ret hoare_bnd [OF hoare_query [OF steady_const]]) auto
qed

lemma hoare_recover_releases: "hoare (lawful env) (\<lambda>_. True) (recoverLeaseReleases env) (\<lambda>_ _. True)"
proof -
  let ?L = "\<lambda>ls s. \<forall>l\<in>set ls. has_lease (lr_node_id l) (lr_id l) (lr_workflow_id l) s \<and> terminal (lr_workflow_id l) s"
  have "hoare (lawful env) (?L ls) (each (release_row env) ls) (\<lambda>_. ?L ls)" for ls
    by (rule hoare_each, intro hoare_release_row steady_all steady_rules) (auto simp: release_lawful_def)
  then have "hoare (lawful env) (?L ls) (bnd (each (release_row env) ls) (\<lambda>_. ret (length ls))) (\<lambda>_ _. True)" for ls
    by (intro hoare_then hoare_ret) auto
  then show ?thesis unfolding recoverLeaseReleases_def
    by (intro hoare_if hoare_ret hoare_bnd [OF hoare_read [OF steady_const, where Q = ?L]])
      (auto simp: listReleasableWorkspaceLeases_def has_lease_def terminal_def split: option.splits)
qed

section \<open>Every operation\<close>

lemma hoare_ignoring: "hoare X P m Q \<Longrightarrow> hoare X P (ignoring m) (\<lambda>_ _. True)"
  unfolding ignoring_def hoare_def by (auto simp: bnd_def attempt_def ret_def split: prod.splits outcome.splits)

lemma hoare_true: "obeys (logs (\<lambda>_ _. False)) m \<Longrightarrow> obeys moves m \<Longrightarrow> hoare X P m (\<lambda>_ _. True)"
  by (rule hoare_weaken [OF hoare_quiet [OF _ _ steady_const]]) auto

lemma hoare_pump: "hoare (lawful env) wf_inv (pump fuel env wid) (\<lambda>_ _. True)"
proof -
  have "hoare (lawful env) wf_inv (driveWorkflow fuel env wid) (\<lambda>_ _. True)"
    unfolding driveWorkflow_def
    by (intro hoare_then hoare_drive_loop hoare_quiet nt.quiet_adjust mv.quiet_adjust nt.R_aborts mv.R_aborts steady_inv)
  then have "hoare (lawful env) wf_inv (runWorkflow fuel env wid) (\<lambda>_ _. True)"
    unfolding runWorkflow_def by (rule hoare_bnd) (intro hoare_branch hoare_ret hoare_settle, simp)
  from hoare_ignoring [OF this] show ?thesis
    unfolding pump_def
    by (rule hoare_bnd) (intro hoare_true nt.quiet_adjust mv.quiet_adjust nt.R_trans [OF nt.R_pumps nt.R_aborts] mv.R_trans [OF mv.R_pumps mv.R_aborts])
qed

lemma hoare_start_durably:
  assumes "loadSpec row = Some spec" and "workspace_bound env wid spec (inputs_of row) \<longrightarrow> e_has_leases env"
  shows "hoare (lawful env) (has_row wid row) (start_durably env wid) (\<lambda>_ _. True)"
proof -
  have "lawful env (Did (WorkflowCall (StartWorkflow wid ev))) s" if "has_row wid row s" for ev s
  proof -
    from that obtain r where r: "workflowRow s wid = Some r" "workflow_evolves row r" by (auto simp: has_row_def)
    then have "wf_spec r = spec" "inputs_of r = inputs_of row" "spec_valid spec"
      using assms(1) by (auto simp: workflow_evolves_def inputs_of_def loadSpec_def split: if_splits)
    then show ?thesis using r(1) assms(2) by (simp add: lawful_def start_lawful_def)
  qed
  then show ?thesis
    unfolding start_durably_def
    by (intro hoare_then hoare_critical_db steady_row disjI2 hoare_any [OF hoare_quiet [OF nt.quiet_pumps(1) mv.quiet_pumps(1) steady_row]]
        hoare_quiet [OF nt.quiet_pumps(1) mv.quiet_pumps(1) steady_row] hoare_ret) auto
qed

lemma hoare_outcome:
  "hoare X P a Q \<Longrightarrow> hoare X P b Q \<Longrightarrow> hoare X P c Q \<Longrightarrow> hoare X P (case x of Acquired \<Rightarrow> a | Pending \<Rightarrow> b | Blocked \<Rightarrow> c) Q"
  by (cases x) simp_all

lemma hoare_row_read:
  assumes "\<And>row. hoare X (has_row wid row) (f (Some row)) Q" and "hoare X (\<lambda>_. True) (f None) Q"
  shows "hoare X (\<lambda>_. True) (bnd (query env (\<lambda>s. workflowRow s wid)) f) Q"
proof (rule hoare_bnd [OF hoare_query [OF steady_const]])
  fix x
  show "hoare X (\<lambda>s. True \<and> x = workflowRow s wid) (f x) Q"
  proof (cases x)
    case (Some row)
    show ?thesis unfolding Some by (rule hoare_weaken [OF assms(1)]) (auto simp: has_row_def dest!: sym [of "Some _"])
  qed (use assms(2) in \<open>auto intro: hoare_weaken\<close>)
qed

lemma hoare_start: "hoare (lawful env) (\<lambda>_. True) (startWorkflow env wid) (\<lambda>_ _. True)"
proof -
  have "hoare (lawful env) (has_row wid row) (start_ready env wid spec (inputs_of row)) (\<lambda>_ _. True)"
    if "loadSpec row = Some spec" for row spec
    unfolding start_ready_def using that
    by (intro hoare_if hoare_raise hoare_then hoare_outcome hoare_start_durably
        hoare_quiet [OF nt.quiet_acquire mv.quiet_acquire steady_row] hoare_quiet [OF nt.quiet_schedule mv.quiet_schedule steady_row]) auto
  then show ?thesis
    unfolding startWorkflow_def
    by (intro hoare_row_read; unfold option.case)
      (intro hoare_if hoare_option hoare_ret hoare_raise hoare_then hoare_quiet [OF nt.quiet_pumps(1) mv.quiet_pumps(1) steady_row]; simp)+
qed

text \<open>A reconcile timer exists only in a runtime with a lease client.\<close>

lemma hoare_timer:
  assumes "e_has_leases env"
  shows "hoare (lawful env) (\<lambda>_. True) (timer_fires env wid) (\<lambda>_ _. True)"
proof -
  have "hoare (lawful env) (\<lambda>_. True) (reconcileAndMaybeStart env wid) (\<lambda>_ _. True)"
    unfolding reconcileAndMaybeStart_def
    by (intro hoare_branch hoare_ret hoare_row_read TrueI; (unfold option.case)?)
      (intro hoare_if hoare_option hoare_ret hoare_outcome hoare_bnd [OF hoare_start_durably] hoare_then
        hoare_quiet [OF nt.quiet_acquire mv.quiet_acquire steady_row] hoare_any [OF hoare_quiet [OF nt.quiet_schedule mv.quiet_schedule steady_row]]; simp add: assms)+
  from hoare_ignoring [OF this] show ?thesis
    unfolding timer_fires_def by (intro hoare_bnd [OF hoare_true] nt.quiet_adjust mv.quiet_adjust nt.R_timers mv.R_timers)
qed

lemma hoare_settle_if: "hoare (lawful env) (\<lambda>_. True) (settle_if_leased env wid) (\<lambda>_ _. True)"
  unfolding settle_if_leased_def by (intro hoare_if hoare_settle hoare_ret) simp

lemma hoare_recover: "hoare (lawful env) (\<lambda>_. True) (recoverWorkflows env) (\<lambda>_ _. True)"
  unfolding recoverWorkflows_def recover_ready_def or_empty_def
  by (intro hoare_bnd [OF hoare_true] hoare_bnd [OF hoare_ignoring] hoare_bnd [OF hoare_recover_releases] hoare_ret TrueI
      nt.quiet_rules mv.quiet_rules nt.quiet_pumps mv.quiet_pumps nt.quiet_schedule mv.quiet_schedule)

lemma hoare_cancel: "hoare (lawful env) (\<lambda>_. True) (cancelWorkflow env wid) (\<lambda>_ _. True)"
  unfolding cancelWorkflow_def
  by (intro hoare_row_read; unfold option.case)
    (intro hoare_if hoare_ret hoare_raise hoare_bnd [OF hoare_settle_if] hoare_bnd [OF hoare_true] hoare_true
      nt.quiet_rules mv.quiet_rules nt.quiet_pumps mv.quiet_pumps nt.quiet_cancellation mv.quiet_cancellation TrueI; simp add: minor_defs)+

lemma hoare_decide: "hoare (lawful env) (\<lambda>_. True) (decideApproval env i b) (\<lambda>_ _. True)"
  unfolding decideApproval_def
  by (intro hoare_if hoare_ret hoare_bnd [OF hoare_settle_if] hoare_bnd [OF hoare_true] hoare_true
      nt.quiet_rules mv.quiet_rules nt.quiet_pumps mv.quiet_pumps TrueI; simp add: minor_defs)

lemma hoare_others:
  "hoare X P (createWorkflow env spec inputs) (\<lambda>_ _. True)"
  "hoare X P (answerInput env i v) (\<lambda>_ _. True)"
  "hoare X P (resumeWorkflow env wid) (\<lambda>_ _. True)"
  "hoare X P shutdown (\<lambda>_ _. True)"
  unfolding createWorkflow_def answerInput_def resumeWorkflow_def resume_if_ready_def shutdown_def
  by (intro hoare_true nt.quiet_rules mv.quiet_rules nt.quiet_pumps mv.quiet_pumps; simp add: minor_defs)+

section \<open>Histories of a runtime\<close>

text \<open>What can happen to a runtime process: a public operation, a pump that runs, a reconcile timer
  that fires, or a restart after a crash, which loses the maps in memory. A history runs them
  one after the other; what runs concurrently is in the environment's \<open>e_others\<close>.\<close>

datatype operation =
    OpCreate jsval jsval
  | OpStart string
  | OpPump nat string
  | OpTimer string
  | OpRecover
  | OpCancel string
  | OpAnswer string string
  | OpDecide string bool
  | OpResume string
  | OpShutdown
  | OpRestart

fun run_op :: "env \<Rightarrow> operation \<Rightarrow> world \<Rightarrow> world" where
  "run_op env (OpCreate spec inputs) w = snd (createWorkflow env spec inputs w)"
| "run_op env (OpStart wid) w = snd (startWorkflow env wid w)"
| "run_op env (OpPump fuel wid) w = snd (pump fuel env wid w)"
| "run_op env (OpTimer wid) w = (if e_has_leases env \<and> wid \<in> set (w_timers w) then snd (timer_fires env wid w) else w)"
| "run_op env OpRecover w = snd (recoverWorkflows env w)"
| "run_op env (OpCancel wid) w = snd (cancelWorkflow env wid w)"
| "run_op env (OpAnswer i v) w = snd (answerInput env i v w)"
| "run_op env (OpDecide i b) w = snd (decideApproval env i b w)"
| "run_op env (OpResume wid) w = snd (resumeWorkflow env wid w)"
| "run_op env OpShutdown w = snd (shutdown w)"
| "run_op env OpRestart w = w\<lparr>w_tick := w_tick w + 1, w_stopped := False, w_pumps := [], w_aborts := [], w_timers := []\<rparr>"

definition run_ops :: "env \<Rightarrow> operation list \<Rightarrow> world \<Rightarrow> world" where
  "run_ops env ops w = foldl (\<lambda>w op. run_op env op w) w ops"

definition fresh_world :: "wstore \<Rightarrow> world" where
  "fresh_world s = \<lparr>w_store = s, w_tick = 0, w_trace = [], w_stopped = False, w_pumps = [], w_aborts = [], w_timers = []\<rparr>"

lemma run_op_moves: "moves w (run_op env op w)"
proof (cases op)
  case OpRestart
  then show ?thesis by (simp add: moves_def)
qed (auto simp: mv.R_refl intro!: mv.full_create_workflow [unfolded obeys_def, rule_format] mv.full_start [unfolded obeys_def, rule_format]
    mv.full_pump [unfolded obeys_def, rule_format] mv.full_timer [unfolded obeys_def, rule_format] mv.full_recover [unfolded obeys_def, rule_format]
    mv.full_cancel [unfolded obeys_def, rule_format] mv.full_human [unfolded obeys_def, rule_format] mv.full_shutdown [unfolded obeys_def, rule_format])

lemma run_op_lawful:
  assumes "wf_inv (w_store w)"
  shows "logs (lawful env) w (run_op env op w)"
proof (cases op)
  case OpRestart
  then show ?thesis by (simp add: logs_def emits_def)
next
  case (OpPump fuel wid)
  then show ?thesis using hoareD_logs [OF hoare_pump assms] by simp
qed (auto simp: nt.R_refl intro: hoareD_logs hoare_others hoare_start hoare_timer hoare_recover hoare_cancel hoare_decide)

lemma run_ops_moves: "moves w (run_ops env ops w)"
  by (induction ops arbitrary: w) (auto simp: run_ops_def mv.R_refl intro: moves_trans run_op_moves)

lemma run_ops_lawful:
  assumes "wf_inv (w_store w)"
  shows "logs (lawful env) w (run_ops env ops w)"
  using assms
proof (induction ops arbitrary: w)
  case (Cons op ops)
  then have "wf_inv (w_store (run_op env op w))" using steady_moves [OF steady_inv _ run_op_moves] by blast
  from Cons.IH [OF this] run_op_lawful [OF Cons.prems] show ?case by (auto simp: run_ops_def intro: nt.R_trans)
qed (simp add: run_ops_def nt.R_refl)

text \<open>The entries of a history that starts with an empty trace.\<close>

lemma history_entry:
  assumes "(a, s) \<in> set (w_trace (run_ops env ops (fresh_world s0)))" and "wf_inv s0"
  shows "after_calls s0 s \<and> lawful env a s"
proof -
  have "after_calls s0 s" using run_ops_moves [of "fresh_world s0" env ops] assms(1) by (auto simp: moves_def fresh_world_def)
  moreover have "minor a \<or> lawful env a s"
    using run_ops_lawful [of "fresh_world s0" env ops] assms by (auto simp: logs_def emits_def fresh_world_def)
  ultimately show ?thesis using minor_lawful by blast
qed

end
