(* ===== verification/RuntimeShutdown.thy ===== *)
theory RuntimeShutdown
  imports RuntimeFacts
begin

text \<open>
  Termination of the driver. Its loops have no bound of their own: they poll until the task ends.
  What ends them for certain is a shutdown, which every loop looks for before its next await.
  \<open>settles d k env t m\<close> says that \<open>m\<close>, run where fewer than \<open>k\<close> awaits are left before the shutdown at
  tick \<open>t\<close>, does not run out of fuel, and that it takes at least \<open>d\<close> awaits. The number of awaits
  left is the measure that decreases along each loop.
\<close>

definition stops :: "env \<Rightarrow> nat \<Rightarrow> bool" where
  "stops env t = ((\<forall>n. \<not> e_crash env n) \<and> (\<forall>n\<ge>t. e_stopped env n))"

definition settles :: "nat \<Rightarrow> nat \<Rightarrow> nat \<Rightarrow> 'a rt \<Rightarrow> bool" where
  "settles d k t m = (\<forall>w. t - w_tick w < k \<longrightarrow> fst (m w) \<noteq> Unfinished \<and> w_tick w + d \<le> w_tick (snd (m w)))"

lemma settlesD: "settles d k t m \<Longrightarrow> t - w_tick w < k \<Longrightarrow> m w = (r, w') \<Longrightarrow> r \<noteq> Unfinished \<and> w_tick w + d \<le> w_tick w'"
  unfolding settles_def by (metis fst_conv snd_conv)

lemma settles_any: "settles 1 k t m \<Longrightarrow> settles 0 k t m"
  unfolding settles_def by (metis add_leD1 add_0_right)

section \<open>Awaits and combinators\<close>

lemma settles_await:
  assumes "stops env t"
  shows "settles 1 k t (query env g)" "settles 1 k t (db env c h)" "settles 1 k t (ext env a answer)"
  using assms
  by (auto simp: settles_def stops_def query_def db_def ext_def Let_def others_run_def noted_def stored_def split: sum.split)

lemmas settles_awaits = settles_await [THEN settles_any]

lemma settles_pure:
  "settles 0 k t (ret x)" "settles 0 k t (raise e)" "settles 0 k t (look f)" "settles 0 k t (present y)" "settles 0 k t (own a (\<lambda>w. w))"
  "settles 0 k t (ensurePump wid)" "settles 0 k t (abort_wait wid)"
  by (auto simp: settles_def ret_def raise_def look_def present_def own_def noted_def ensurePump_def abort_wait_def branch_def split: option.split)

lemma settles_adjust: "(\<And>w. w_tick (f w) = w_tick w) \<Longrightarrow> settles 0 k t (adjust f)"
  by (simp add: settles_def adjust_def)

text \<open>After a first part that takes an await, one fewer is left.\<close>

lemma settles_bnd_gen:
  assumes "settles d k t m" and "\<And>x. settles 0 l t (f x)"
    and "\<And>w w' :: world. t - w_tick w < k \<Longrightarrow> w_tick w + d \<le> w_tick w' \<Longrightarrow> c w \<Longrightarrow> t - w_tick w' < l"
    and "t - w_tick w < k" and "c w"
  shows "fst (bnd m f w) \<noteq> Unfinished \<and> w_tick w + d \<le> w_tick (snd (bnd m f w))"
proof (cases "m w")
  case (Pair r w')
  note step = settlesD [OF assms(1,4) Pair]
  have "t - w_tick w' < l" by (rule assms(3) [OF assms(4) conjunct2 [OF step] assms(5)])
  then have "fst (f x w') \<noteq> Unfinished \<and> w_tick w' + 0 \<le> w_tick (snd (f x w'))" for x
    using assms(2) unfolding settles_def by blast
  then show ?thesis using step Pair by (cases r) (auto simp: bnd_def intro: le_trans)
qed

lemma settles_bnd: "settles d k t m \<Longrightarrow> (\<And>x. settles 0 k t (f x)) \<Longrightarrow> settles d k t (bnd m f)"
  unfolding settles_def [of d k t "bnd m f"]
  by (intro allI impI settles_bnd_gen [where l = k and c = "\<lambda>_. True"]) auto

lemma settles_attempt: "settles d k t m \<Longrightarrow> settles d k t (attempt m)"
  by (auto simp: settles_def attempt_def split: prod.split outcome.split; metis fst_conv snd_conv)

lemma settles_branch: "settles d k t m \<Longrightarrow> settles d k t m' \<Longrightarrow> settles d k t (branch c m m')"
  by (simp add: settles_def branch_def)

lemma settles_if: "(c \<Longrightarrow> settles d k t m) \<Longrightarrow> (\<not> c \<Longrightarrow> settles d k t m') \<Longrightarrow> settles d k t (if c then m else m')"
  by simp

lemma settles_option:
  "(x = None \<Longrightarrow> settles d k t m) \<Longrightarrow> (\<And>y. x = Some y \<Longrightarrow> settles d k t (f y)) \<Longrightarrow> settles d k t (case x of None \<Rightarrow> m | Some y \<Rightarrow> f y)"
  by (cases x) auto

lemma settles_sum:
  "(\<And>e. x = Inl e \<Longrightarrow> settles d k t (f e)) \<Longrightarrow> (\<And>y. x = Inr y \<Longrightarrow> settles d k t (g y)) \<Longrightarrow>
    settles d k t (case x of Inl e \<Rightarrow> f e | Inr y \<Rightarrow> g y)"
  by (cases x) auto

lemma settles_ignoring: "settles 0 k t m \<Longrightarrow> settles 0 k t (ignoring m)"
  unfolding ignoring_def by (intro settles_bnd settles_attempt settles_pure)

lemma settles_each: "(\<And>x. settles 0 k t (f x)) \<Longrightarrow> settles 0 k t (each f xs)"
  by (induction xs) (auto intro: settles_pure settles_bnd)

text \<open>A loop returns once the runtime has stopped; before that its body takes an await or returns.\<close>

definition before_stop :: "env \<Rightarrow> nat \<Rightarrow> nat \<Rightarrow> 'a rt \<Rightarrow> bool" where
  "before_stop env k t m = (\<forall>w. \<not> stopped env w \<longrightarrow> t - w_tick w < k \<longrightarrow> fst (m w) \<noteq> Unfinished \<and> w_tick w \<le> w_tick (snd (m w)))"

lemma before_stop_ret: "before_stop env k t (ret a)"
  by (simp add: before_stop_def ret_def)

lemma before_stop_branch: "before_stop env k t m \<Longrightarrow> before_stop env k t m' \<Longrightarrow> before_stop env k t (branch c m m')"
  by (simp add: before_stop_def branch_def)

lemma before_stop_bnd:
  assumes "stops env t" and "settles 1 (Suc k) t m" and "\<And>x. settles 0 k t (f x)"
  shows "before_stop env (Suc k) t (bnd m f)"
proof -
  have "t - w_tick w' < k" if "t - w_tick w < Suc k" "w_tick w + 1 \<le> w_tick w'" "\<not> stopped env w" for w w' :: world
  proof -
    have "w_tick w < t" using assms(1) that(3) by (auto simp: stopped_def stops_def simp flip: not_le)
    then show ?thesis using that by linarith
  qed
  then have "fst (bnd m f w) \<noteq> Unfinished \<and> w_tick w + 1 \<le> w_tick (snd (bnd m f w))" if "t - w_tick w < Suc k" "\<not> stopped env w" for w
    using that by (intro settles_bnd_gen [OF assms(2,3), where c = "\<lambda>w. \<not> stopped env w"]) auto
  then show ?thesis by (auto simp: before_stop_def dest: Suc_leD)
qed

lemma settles_loop: "before_stop env k t m \<Longrightarrow> (\<And>w. stopped env w \<Longrightarrow> c w) \<Longrightarrow> settles 0 k t (branch c (ret a) m)"
  by (auto simp: settles_def before_stop_def branch_def ret_def)

lemmas loop_rules = settles_loop before_stop_branch before_stop_ret before_stop_bnd settles_attempt settles_await

lemma settles_zero: "settles d 0 t m"
  by (simp add: settles_def)

lemma settles_backoff: "stops env t \<Longrightarrow> settles 1 k t (backoff env n)"
  unfolding backoff_def by (rule settles_await)

lemmas settle_rules = settles_pure settles_awaits settles_bnd settles_attempt settles_branch settles_if settles_option settles_sum
  settles_ignoring settles_each settles_backoff [THEN settles_any]

section \<open>The operations of the driver\<close>

lemma settles_terminal:
  assumes "stops env t"
  shows "settles 0 k t (failStep env wid st meta)" "settles 0 k t (failWorkflow env wid code meta)"
    "settles 0 k t (failLimit env wid limit)" "settles 0 k t (blockWorkflow env wid reason meta)"
    "settles 0 k t (performCancellation env wid)" "settles 0 k t (evaluatePauseGate env wid st gate)"
    "settles 0 k t (buildRenderScope env wid row st)" "settles 0 k t (buildUpdatedContext env wid b out taskId hc)"
    "settles 0 k t (startStep env wid stepId round)"
  unfolding failStep_def failWorkflow_def failLimit_def blockWorkflow_def performCancellation_def cancel_current_def evaluatePauseGate_def
    pause_for_def buildRenderScope_def buildUpdatedContext_def startStep_def
  by (intro settle_rules assms)+

lemma settles_observe_retry: "stops env t \<Longrightarrow> settles 0 k t (observe_retry k env tgt n)"
proof (induction k arbitrary: n)
  case (Suc k)
  then show ?case unfolding observe_retry.simps observe_def by (intro loop_rules settle_rules) auto
qed (rule settles_zero)

lemma settles_create_retry: "stops env t \<Longrightarrow> settles 0 k t (create_retry k env wid row st req n)"
proof (induction k arbitrary: n)
  case (Suc k)
  then have "settles 1 (Suc k) t (create_and_bind env wid st req)"
    unfolding create_and_bind_def by (intro settles_bnd settles_await settles_awaits)
  with Suc show ?case unfolding create_retry.simps by (intro loop_rules settle_rules settles_terminal) auto
qed (rule settles_zero)

lemma settles_awaitTask: "stops env t \<Longrightarrow> settles 0 k t (awaitTask k env row taskId cursor n)"
proof (induction k arbitrary: cursor n)
  case (Suc k)
  then show ?case unfolding awaitTask.simps by (intro loop_rules settle_rules) auto
qed (rule settles_zero)

lemma settles_resolve: "stops env t \<Longrightarrow> settles 0 k t (resolveTerminalResult k env wid st cur cursor n)"
proof (induction k arbitrary: cur cursor n)
  case (Suc k)
  have "settles 1 (Suc k) t (awaited_since env st)"
    unfolding awaited_since_def by (intro settles_bnd settles_await settle_rules Suc.prems)
  with Suc show ?case unfolding resolveTerminalResult.simps
    by (intro loop_rules settles_if settle_rules settles_terminal) auto
qed (rule settles_zero)

lemma settles_record_retry: "stops env t \<Longrightarrow> settles 0 k t (record_retry n env st tgt i)"
proof (induction n arbitrary: i)
  case (Suc n)
  then show ?case unfolding record_retry.simps record_revision_def observe_def by (intro settle_rules) auto
qed (simp add: settles_pure)

lemma settles_release_retry: "stops env t \<Longrightarrow> settles 0 k t (release_retry n env nodeId l i)"
proof (induction n arbitrary: i)
  case (Suc n)
  then show ?case unfolding release_retry.simps release_once_def by (intro settle_rules) auto
qed (simp add: settles_pure)

lemma settles_leases:
  assumes "stops env t"
  shows "settles 0 k t (revisionGateBefore k env wid st tgt)" "settles 0 k t (observeRevisionAfter env spec row st)"
    "settles 0 k t (settleLeaseReleases env wid)"
  unfolding revisionGateBefore_def observeRevisionAfter_def settleLeaseReleases_def release_row_def releaseLeaseWithRetry_def
  by (intro settle_rules settles_terminal settles_observe_retry settles_record_retry settles_release_retry assms)+

lemma settles_create:
  assumes "stops env t"
  shows "settles 0 k t (createAndBindTask k env wid spec row st)"
  unfolding createAndBindTask_def create_rendered_def fail_render_def
  by (intro settle_rules settles_terminal settles_leases settles_create_retry assms)

lemma settles_handle:
  assumes "stops env t"
  shows "settles 0 k t (handleTaskTerminal k env wid spec st read)"
  unfolding handleTaskTerminal_def complete_step_def
  by (intro settle_rules settles_terminal settles_leases settles_resolve assms)

lemma settles_result_of: "stops env t \<Longrightarrow> settles 0 k t (or_none (result_of env taskId))"
  unfolding or_none_def result_of_def by (intro settle_rules)

lemma settles_route:
  assumes "stops env t"
  shows "settles 0 k t (routeAndAdvance env wid spec st)"
proof -
  have evidence: "settles 0 k t (assembleStepEvidence env st)"
    unfolding assembleStepEvidence_def by (intro settle_rules settles_result_of assms) (unfold or_none_def, intro settle_rules assms)
  have stall: "settles 0 k t (checkStall env wid spec st)"
    unfolding checkStall_def latestResultContentHash_def Let_def by (intro settle_rules settles_terminal settles_result_of assms)
  show ?thesis
    unfolding routeAndAdvance_def route_terminal_def route_step_def advance_to_def gateCompletion_def Let_def
    by (intro settle_rules settles_terminal evidence stall assms)
qed

section \<open>The driver and the pump\<close>

lemma settles_drive_step:
  assumes "stops env t"
  shows "settles 0 k t (drive_step k env wid spec row)"
proof -
  have await: "settles 0 k t (await_and_handle k env wid spec row st)" for st
    unfolding await_and_handle_def
    by (intro settle_rules settles_terminal settles_awaitTask assms) (auto split: await_result.split
        intro!: settle_rules settles_terminal settles_handle assms)
  show ?thesis unfolding drive_step_def drive_task_def Let_def
    by (intro settle_rules await settles_terminal settles_route settles_create assms)
qed

lemma bnd_bnd: "bnd (bnd m f) g = bnd m (\<lambda>x. bnd (f x) g)"
  by (rule ext) (auto simp: bnd_def split: prod.split outcome.split)

lemma settles_drive_loop: "stops env t \<Longrightarrow> settles 0 k t (drive_loop k env wid)"
proof (induction k)
  case (Suc k)
  then show ?case unfolding drive_loop.simps drive_body_def bnd_bnd
    by (intro loop_rules settle_rules settles_terminal settles_drive_step) auto
qed (rule settles_zero)

lemma settles_run:
  assumes "stops env t"
  shows "settles 0 k t (runWorkflow k env wid)"
  unfolding runWorkflow_def driveWorkflow_def
  by (intro settle_rules settles_adjust settles_drive_loop settles_leases assms) simp

text \<open>A pump drops the errors of its run, so it ends with a plain value.\<close>

lemma pump_returns:
  assumes "stops env t" and "t - w_tick w < fuel"
  shows "fst (pump fuel env wid w) = Value ()"
proof -
  have "fst (runWorkflow fuel env wid w) \<noteq> Unfinished" using settles_run [OF assms(1)] assms(2) by (auto simp: settles_def)
  then show ?thesis
    by (auto simp: pump_def ignoring_def bnd_def attempt_def adjust_def ret_def split: prod.split outcome.split)
qed

section \<open>A loop without a limit\<close>

text \<open>The observation before a step retries as long as the Node cannot be reached, whatever the time limit of the
  workflow: no amount of fuel is enough.\<close>

lemma observation_ignores_the_deadline:
  assumes "\<And>n. \<not> e_crash env n \<and> \<not> e_stopped env n \<and> \<not> e_aborted env n"
    and "\<And>n. e_observe env n (tg_node_id tgt) (tg_workspace_key tgt) = Inl TransientLease" and "\<not> w_stopped w"
  shows "fst (observe_retry fuel env tgt n w) = Unfinished"
  using assms(3)
proof (induction fuel arbitrary: n w)
  case (Suc fuel)
  let ?w = "noted (ObserveRevision (tg_node_id tgt) (tg_workspace_key tgt)) (others_run env w)"
  have "observe env tgt w = (Throws TransientLease, ?w)"
    using assms(1,2) by (simp add: observe_def ext_def Let_def)
  moreover obtain w' where "backoff env n ?w = (Value (), w')" "\<not> w_stopped w'"
    using assms(1) Suc.prems by (simp add: backoff_def ext_def Let_def noted_def others_run_def)
  ultimately show ?case
    using Suc assms(1) by (simp add: branch_def bnd_def attempt_def stopped_def aborted_def)
qed (simp add: unfinished_def)

text \<open>When the time limit passes while a task is being created, the driver stops without a transition: the
  workflow stays running until it is recovered.\<close>

lemma deadline_before_creation_is_silent:
  assumes "deadlineExceeded env row w" and "\<not> stopped env w" and "\<not> aborted env w"
  shows "create_retry (Suc fuel) env wid row st req n w = (Value False, w)"
  using assms by (simp add: branch_def ret_def)

end
