(* ===== verification/Retention.thy ===== *)
theory Retention
  imports TaskInvariant
begin

text \<open>
  Retention (\<open>pruneWorkflowEvents\<close>, \<open>pruneTaskEvents\<close>, \<open>pruneTerminalWorkflows\<close>,
  \<open>pruneTerminalTasks\<close>): what is dropped, what stays, and that the invariants survive.
\<close>

section \<open>Dropping a prefix of a contiguous log\<close>

lemma rev_upto_nth: "k < nat (hi - lo + 1) \<Longrightarrow> rev [lo..hi] ! k = hi - int k"
  by (simp add: rev_nth nth_upto)

lemma cutoff_contiguous:
  assumes "contiguous hi qs"
  shows "cutoff k qs = (if k < length qs then Some (hi - int k) else None)"
proof -
  from assms obtain lo where qs: "qs = [lo..hi]" by (auto simp: contiguous_iff)
  then have "sort qs = qs" by (simp add: sorted_sort_id)
  with qs rev_upto_nth [of k hi lo] show ?thesis by (auto simp: cutoff_def)
qed

lemma filter_above_is_drop:
  assumes "map f es = [lo..hi]"
  shows "filter (\<lambda>e. c < f e) es = drop (nat (c - lo + 1)) es"
  using assms
proof (induction es arbitrary: lo)
  case (Cons e es)
  then have e: "f e = lo" "lo \<le> hi" "map f es = [lo + 1..hi]"
    by (auto simp: upto.simps [of lo hi] split: if_splits)
  have tail: "filter (\<lambda>e. c < f e) es = drop (nat (c - (lo + 1) + 1)) es" by (rule Cons.IH [OF e(3)])
  show ?case
  proof (cases "c < lo")
    case True
    then show ?thesis using tail e(1) by simp
  next
    case False
    then have "nat (c - lo + 1) = Suc (nat (c - (lo + 1) + 1))" by simp
    then show ?thesis using tail e(1) False by simp
  qed
qed simp

lemma drop_prefix_of_log:
  assumes "contiguous hi (map f es)" and "k < length es"
  shows "filter (\<lambda>e. hi - int k < f e) es = drop (length es - k) es" and "contiguous hi (map f (drop (length es - k) es))"
proof -
  from assms(1) have len: "map f es = [hi - int (length es) + 1..hi]" and low: "int (length es) \<le> hi + 1"
    by (auto simp: contiguous_def)
  have n: "nat (hi - int k - (hi - int (length es) + 1) + 1) = length es - k" using assms(2) by simp
  show "filter (\<lambda>e. hi - int k < f e) es = drop (length es - k) es"
    using filter_above_is_drop [OF len, of "hi - int k"] unfolding n .
  have "map f (drop (length es - k) es) = drop (length es - k) [hi - int (length es) + 1..hi]"
    unfolding drop_map [symmetric] len ..
  also have "\<dots> = [hi - int k + 1..hi]"
    using assms(2) by (intro nth_equalityI) (auto simp: nth_upto of_nat_diff)
  finally show "contiguous hi (map f (drop (length es - k) es))"
    using low assms(2) by (auto simp: contiguous_iff intro!: exI [of _ "hi - int k + 1"])
qed

section \<open>Event retention\<close>

lemma pruneWorkflowEvents_cases:
  assumes "wf_inv s" and "workflowRow s i = Some w" and "pruneWorkflowEvents i k s = Inr (s', n)"
  obtains (all) "0 \<le> k" and "length (events_of s i) \<le> nat k" and "s' = s" and "n = 0"
    | (cut) c ws where "0 \<le> k" and "nat k < length (events_of s i)" and "c = wf_last_event_sequence w - int (nat k)"
      and "s' = s\<lparr>ws_events := filter (\<lambda>e. \<not> (we_workflow_id e = i \<and> we_sequence e \<le> c)) (ws_events s), ws_workflows := ws\<rparr>"
      and "n = length (filter (\<lambda>e. we_workflow_id e = i \<and> we_sequence e \<le> c) (ws_events s))"
      and "ws = ws_workflows s \<or> (\<exists>m. ws = upd wf_id i (\<lambda>w. w\<lparr>wf_earliest_retained_sequence := m\<rparr>) (ws_workflows s))"
proof -
  have w: "w \<in> set (ws_workflows s)" "wf_id w = i" using sel_key [OF assms(2)] by auto
  have con: "contiguous (wf_last_event_sequence w) (map we_sequence (events_of s i))"
    using assms(1) w by (auto simp: wf_inv_def)
  have k: "0 \<le> k" using assms(3) by (auto simp: pruneWorkflowEvents_def split: if_splits)
  show ?thesis
  proof (cases "nat k < length (events_of s i)")
    case True
    then show ?thesis
      using assms(3) k cutoff_contiguous [OF con, of "nat k"] cut [where ws = "ws_workflows s'", OF k True refl]
      by (auto simp: pruneWorkflowEvents_def Let_def split: option.splits) blast
  next
    case False
    then show ?thesis
      using assms(3) k cutoff_contiguous [OF con, of "nat k"] all by (auto simp: pruneWorkflowEvents_def)
  qed
qed

lemma events_of_filter:
  "events_of (s\<lparr>ws_events := filter P (ws_events s), ws_workflows := ws\<rparr>) j = filter P (events_of s j)"
  by (auto simp: events_of_def intro: filter_cong)

lemma pruneWorkflowEvents_keeps:
  assumes "wf_inv s" and "workflowRow s i = Some w" and "pruneWorkflowEvents i k s = Inr (s', n)"
  shows "events_of s' i = drop (length (events_of s i) - nat k) (events_of s i) \<and>
    (\<forall>j. j \<noteq> i \<longrightarrow> events_of s' j = events_of s j) \<and> n = length (events_of s i) - nat k"
  using assms
proof (cases rule: pruneWorkflowEvents_cases)
  case (cut c ws)
  have w: "w \<in> set (ws_workflows s)" "wf_id w = i" using sel_key [OF assms(2)] by auto
  have con: "contiguous (wf_last_event_sequence w) (map we_sequence (events_of s i))"
    using assms(1) w by (auto simp: wf_inv_def)
  have "filter (\<lambda>e. \<not> (we_workflow_id e = i \<and> we_sequence e \<le> c)) (events_of s i) = filter (\<lambda>e. c < we_sequence e) (events_of s i)"
    by (rule filter_cong) (auto simp: events_of_def)
  also have "\<dots> = drop (length (events_of s i) - nat k) (events_of s i)"
    unfolding cut(3) by (rule drop_prefix_of_log [OF con cut(2)])
  finally have kept: "filter (\<lambda>e. \<not> (we_workflow_id e = i \<and> we_sequence e \<le> c)) (events_of s i) =
    drop (length (events_of s i) - nat k) (events_of s i)" .
  have others: "filter (\<lambda>e. \<not> (we_workflow_id e = i \<and> we_sequence e \<le> c)) (events_of s j) = events_of s j" if "j \<noteq> i" for j
    using that by (auto simp: events_of_def intro!: filter_cong)
  have "n = length (filter (\<lambda>e. we_workflow_id e = i \<and> we_sequence e \<le> c) (events_of s i))"
    unfolding cut(5) events_of_def filter_filter by (rule arg_cong [of _ _ length], rule filter_cong) auto
  also have "\<dots> + length (filter (\<lambda>e. \<not> (we_workflow_id e = i \<and> we_sequence e \<le> c)) (events_of s i)) = length (events_of s i)"
    by (rule sum_length_filter_compl)
  finally have "n = length (events_of s i) - nat k" unfolding kept using cut(2) by simp
  then show ?thesis using kept others unfolding cut(4) events_of_filter by blast
qed simp

lemma pruneWorkflowEvents_inv:
  assumes "wf_inv s" and "workflowRow s i = Some w" and "pruneWorkflowEvents i k s = Inr (s', n)"
  shows "wf_inv s'"
  using assms
proof (cases rule: pruneWorkflowEvents_cases)
  case (cut c ws)
  have w: "w \<in> set (ws_workflows s)" "wf_id w = i" using sel_key [OF assms(2)] by auto
  have con: "contiguous (wf_last_event_sequence w) (map we_sequence (events_of s i))"
    using assms(1) w by (auto simp: wf_inv_def)
  have only: "v = w" if "v \<in> set (ws_workflows s)" "wf_id v = i" for v
    using that sel_mem [of wf_id "ws_workflows s" v] assms(1,2) by (simp add: wf_inv_def)
  have log: "contiguous (wf_last_event_sequence v) (map we_sequence (events_of s' (wf_id v)))"
    if "v \<in> set (ws_workflows s)" for v
  proof (cases "wf_id v = i")
    case True
    then show ?thesis
      using only [OF that] pruneWorkflowEvents_keeps [OF assms] drop_prefix_of_log(2) [OF con cut(2)] by simp
  next
    case False
    then show ?thesis using pruneWorkflowEvents_keeps [OF assms] that assms(1) by (auto simp: wf_inv_def)
  qed
  have "wf_inv (s\<lparr>ws_events := ws_events s'\<rparr>)"
    using assms(1) log unfolding wf_inv_def cut(4) by (auto simp: events_of_def)
  from wf_inv_workflow_row [OF this, of "\<lambda>w. w\<lparr>wf_earliest_retained_sequence := _\<rparr>" i] this cut(6) show ?thesis
    unfolding cut(4) by auto
qed (simp add: assms(1))

section \<open>Removal of terminal workflows\<close>

lemma delete_workflows_inv:
  assumes "wf_inv s"
  shows "wf_inv (delete_workflows gone s)"
proof -
  have "event_ok (filter (\<lambda>r. \<not> gone (se_workflow_id r)) (ws_steps s)) e"
    if "event_ok (ws_steps s) e" "\<not> gone (we_workflow_id e)" for e
    using that by (auto simp: event_ok_def split: option.splits)
  moreover have "events_of (delete_workflows gone s) i = events_of s i" if "\<not> gone i" for i
    using that by (auto simp: delete_workflows_def events_of_def Let_def intro!: filter_cong)
  ultimately show ?thesis
    using assms unfolding wf_inv_def by (auto simp: delete_workflows_def Let_def distinct_map_filter)
qed

lemma pruneTerminalWorkflows_effect:
  assumes "wf_inv s" and "pruneTerminalWorkflows olderThan s = Inr (s', n)"
  shows "wf_inv s'" and "n = length (filter (expired_workflow olderThan) (ws_workflows s))"
    and "ws_workflows s' = filter (\<lambda>w. \<not> expired_workflow olderThan w) (ws_workflows s)"
proof -
  have s': "s' = delete_workflows (\<lambda>i. i \<in> wf_id ` set (filter (expired_workflow olderThan) (ws_workflows s))) s"
    and n: "n = length (filter (expired_workflow olderThan) (ws_workflows s))"
    using assms(2) by (auto simp: pruneTerminalWorkflows_def Let_def)
  show "wf_inv s'" unfolding s' by (rule delete_workflows_inv [OF assms(1)])
  show "n = length (filter (expired_workflow olderThan) (ws_workflows s))" by (rule n)
  have inj: "inj_on wf_id (set (ws_workflows s))" using assms(1) by (simp add: wf_inv_def distinct_map)
  have "wf_id w \<in> wf_id ` set (filter (expired_workflow olderThan) (ws_workflows s)) \<longleftrightarrow> expired_workflow olderThan w"
    if "w \<in> set (ws_workflows s)" for w
    using that inj_onD [OF inj _ that] by auto
  then show "ws_workflows s' = filter (\<lambda>w. \<not> expired_workflow olderThan w) (ws_workflows s)"
    unfolding s' delete_workflows_def Let_def by (auto intro!: filter_cong)
qed

end
