(* ===== verification/Examples.thy ===== *)
theory Examples
  imports Validator
begin

text \<open>
  The built-in planner and executor loop of \<open>src/workflow/examples.ts\<close>, as data. It is
  the concrete input at which the properties of the validator, the router and the runtime
  are exercised.
\<close>

definition PLANNER_DECISION_SCHEMA :: jsval where
  "PLANNER_DECISION_SCHEMA = JObj [
      (''fields'', JObj [
        (''status'', JObj [
          (''type'', JStr ''enum''),
          (''required'', JBool True),
          (''enum'', JArr [JStr ''continue'', JStr ''complete'', JStr ''blocked'', JStr ''failed''])]),
        (''summary'', JObj [(''type'', JStr ''string''), (''required'', JBool True)]),
        (''next_step'', JObj [(''type'', JStr ''string''), (''required'', JBool False)]),
        (''acceptance_criteria'', JObj [(''type'', JStr ''string[]''), (''required'', JBool False)]),
        (''open_questions'', JObj [(''type'', JStr ''string[]''), (''required'', JBool False)])])]"

definition EXECUTOR_HANDOFF_SCHEMA :: jsval where
  "EXECUTOR_HANDOFF_SCHEMA = JObj [
      (''fields'', JObj [
        (''status'', JObj [(''type'', JStr ''enum''), (''required'', JBool True), (''enum'', JArr [JStr ''implemented'', JStr ''blocked'', JStr ''failed''])]),
        (''summary'', JObj [(''type'', JStr ''string''), (''required'', JBool True)]),
        (''changed_files'', JObj [(''type'', JStr ''string[]''), (''required'', JBool True)]),
        (''tests_run'', JObj [(''type'', JStr ''string[]''), (''required'', JBool True)]),
        (''remaining_work'', JObj [(''type'', JStr ''string[]''), (''required'', JBool True)]),
        (''risks'', JObj [(''type'', JStr ''string[]''), (''required'', JBool True)])])]"

definition plannerExecutorLoopExample :: jsval where
  "plannerExecutorLoopExample = JObj [
      (''version'', JStr ''1''),
      (''name'', JStr ''planner-executor-loop''),
      (''description'', JStr ''Codex plans, Claude Code implements, Codex reviews the handoff and loops back or terminates.''),
      (''entry_step'', JStr ''plan''),
      (''inputs'', JObj [
        (''objective'', JObj [(''type'', JStr ''string''), (''required'', JBool True), (''description'', JStr ''What the workflow should accomplish.'')]),
        (''workspace_key'', JObj [(''type'', JStr ''string''), (''required'', JBool False), (''description'', JStr ''Opaque workspace key for the executor.'')])]),
      (''agents'', JObj [
        (''planner'', JObj [(''agent'', JStr ''codex''), (''node_id'', JStr ''node_planner''), (''description'', JStr ''Plans and reviews.'')]),
        (''executor'', JObj [(''agent'', JStr ''claude-code''), (''node_id'', JStr ''node_executor''), (''description'', JStr ''Implements.'')])]),
      (''output_schemas'', JObj [(''planner_decision'', PLANNER_DECISION_SCHEMA), (''executor_handoff'', EXECUTOR_HANDOFF_SCHEMA)]),
      (''limits'', JObj [
        (''max_rounds'', JNum (NInt 6)),
        (''max_tasks'', JNum (NInt 20)),
        (''max_runtime_seconds'', JNum (NInt 3600)),
        (''max_step_attempts'', JNum (NInt 3)),
        (''max_failures'', JNum (NInt 3))]),
      (''steps'', JArr [
        JObj [
          (''id'', JStr ''plan''),
          (''type'', JStr ''agent_task''),
          (''agent_role'', JStr ''planner''),
          (''label'', JStr ''Plan''),
          (''prompt_template'', JStr (''You are the planner. Objective: {{ inputs.objective }}. Produce an implementation plan and acceptance criteria. Set status='' @ [CHR 0x22] @ ''continue'' @ [CHR 0x22] @ '' to proceed to implementation, or '' @ [CHR 0x22] @ ''complete'' @ [CHR 0x22] @ ''/'' @ [CHR 0x22] @ ''blocked'' @ [CHR 0x22] @ ''/'' @ [CHR 0x22] @ ''failed'' @ [CHR 0x22] @ ''.'')),
          (''output_schema'', JStr ''planner_decision''),
          (''context_binding'', JStr ''latest_planner_decision'')],
        JObj [
          (''id'', JStr ''implement''),
          (''type'', JStr ''agent_task''),
          (''agent_role'', JStr ''executor''),
          (''label'', JStr ''Implement''),
          (''prompt_template'', JStr ''You are the executor. Objective: {{ inputs.objective }}. Original plan: {{ steps.plan.output.summary }}. Latest instruction: {{ context.latest_planner_decision.next_step }}. Acceptance criteria: {{ context.latest_planner_decision.acceptance_criteria }}. Round: {{ workflow.round }}. Implement the next increment and report a structured handoff.''),
          (''output_schema'', JStr ''executor_handoff''),
          (''context_binding'', JStr ''latest_executor_handoff''),
          (''workspace_key_template'', JStr ''{{ inputs.workspace_key }}''),
          (''permission_mode'', JStr ''default'')],
        JObj [
          (''id'', JStr ''review''),
          (''type'', JStr ''agent_task''),
          (''agent_role'', JStr ''planner''),
          (''label'', JStr ''Review''),
          (''prompt_template'', JStr (''You are the planner reviewing the executor handoff. Objective: {{ inputs.objective }}. Executor summary: {{ context.latest_executor_handoff.summary }}. Changed files: {{ context.latest_executor_handoff.changed_files }}. Remaining work: {{ context.latest_executor_handoff.remaining_work }}. Round: {{ workflow.round }}. Decide status='' @ [CHR 0x22] @ ''continue'' @ [CHR 0x22] @ '' (loop back with a next_step), '' @ [CHR 0x22] @ ''complete'' @ [CHR 0x22] @ '', '' @ [CHR 0x22] @ ''blocked'' @ [CHR 0x22] @ '', or '' @ [CHR 0x22] @ ''failed'' @ [CHR 0x22] @ ''.'')),
          (''output_schema'', JStr ''planner_decision''),
          (''context_binding'', JStr ''latest_planner_decision'')]]),
      (''edges'', JArr [
        JObj [
          (''from'', JStr ''plan''),
          (''to'', JStr ''implement''),
          (''kind'', JStr ''normal''),
          (''condition'', JObj [(''path'', JStr ''output.status''), (''op'', JStr ''eq''), (''value'', JStr ''continue'')])],
        JObj [
          (''from'', JStr ''plan''),
          (''to'', JStr ''$complete''),
          (''kind'', JStr ''normal''),
          (''condition'', JObj [(''path'', JStr ''output.status''), (''op'', JStr ''eq''), (''value'', JStr ''complete'')])],
        JObj [
          (''from'', JStr ''plan''),
          (''to'', JStr ''$blocked''),
          (''kind'', JStr ''normal''),
          (''condition'', JObj [(''path'', JStr ''output.status''), (''op'', JStr ''eq''), (''value'', JStr ''blocked'')])],
        JObj [
          (''from'', JStr ''plan''),
          (''to'', JStr ''$failed''),
          (''kind'', JStr ''normal''),
          (''condition'', JObj [(''path'', JStr ''output.status''), (''op'', JStr ''eq''), (''value'', JStr ''failed'')])],
        JObj [
          (''from'', JStr ''implement''),
          (''to'', JStr ''review''),
          (''kind'', JStr ''normal''),
          (''condition'', JObj [(''path'', JStr ''output.status''), (''op'', JStr ''eq''), (''value'', JStr ''implemented'')])],
        JObj [
          (''from'', JStr ''implement''),
          (''to'', JStr ''$blocked''),
          (''kind'', JStr ''normal''),
          (''condition'', JObj [(''path'', JStr ''output.status''), (''op'', JStr ''eq''), (''value'', JStr ''blocked'')])],
        JObj [
          (''from'', JStr ''implement''),
          (''to'', JStr ''$failed''),
          (''kind'', JStr ''normal''),
          (''condition'', JObj [(''path'', JStr ''output.status''), (''op'', JStr ''eq''), (''value'', JStr ''failed'')])],
        JObj [
          (''from'', JStr ''review''),
          (''to'', JStr ''implement''),
          (''kind'', JStr ''loop''),
          (''condition'', JObj [(''path'', JStr ''output.status''), (''op'', JStr ''eq''), (''value'', JStr ''continue'')])],
        JObj [
          (''from'', JStr ''review''),
          (''to'', JStr ''$complete''),
          (''kind'', JStr ''normal''),
          (''condition'', JObj [(''path'', JStr ''output.status''), (''op'', JStr ''eq''), (''value'', JStr ''complete'')])],
        JObj [
          (''from'', JStr ''review''),
          (''to'', JStr ''$blocked''),
          (''kind'', JStr ''normal''),
          (''condition'', JObj [(''path'', JStr ''output.status''), (''op'', JStr ''eq''), (''value'', JStr ''blocked'')])],
        JObj [
          (''from'', JStr ''review''),
          (''to'', JStr ''$failed''),
          (''kind'', JStr ''normal''),
          (''condition'', JObj [(''path'', JStr ''output.status''), (''op'', JStr ''eq''), (''value'', JStr ''failed'')])]]),
      (''completion_policy'', JObj [])]"

end
