(* ===== verification/ValidatorFacts.thy ===== *)
theory ValidatorFacts
  imports Validator OutputValidation
begin

text \<open>
  What acceptance by \<open>validateWorkflowSpec\<close> guarantees: no secret-looking field, limits within
  their maxima, distinct step ids, a reachable graph whose normal edges are acyclic,
  unambiguous and (for required enum selectors) exhaustive routing, and template
  references that point at steps which every forward path has already run.
\<close>

section \<open>What a valid spec is\<close>

lemma spec_valid_parts:
  assumes "spec_valid spec"
  defines "t \<equiv> spec_tables spec"
  shows "isObj spec" and "scanSecretFields spec [] = []"
    and "snd (validateSteps (fld spec ''steps'') (fst (validateAgents (fld spec ''agents''))) (vt_schemas t)) = []"
    and "snd (validateOutputSchemas (fld spec ''output_schemas'')) = []"
    and "entry_of spec (stepIds (vt_steps t)) \<noteq> None"
    and "validateLimits (fld spec ''limits'') (hasLoopEdge spec) = []"
    and "snd (validateEdges spec (vt_steps t) (vt_schemas t)) = []"
    and "snd (analyzeGraph spec (stepIds (vt_steps t)) (entry_of spec (stepIds (vt_steps t))) (vt_graph t)) = []"
    and "validateTemplates (fld spec ''steps'') (vt_inputs t) (vt_steps t) (vt_schemas t) (vt_reachable t) (vt_doms t) = []"
    and "validateRouting (outgoing (vt_graph t)) (vt_steps t) (vt_schemas t) = []"
  using assms(1) unfolding spec_valid_def validateWorkflowSpec_def t_def Let_def
  by (simp_all split: if_splits)

section \<open>No secret-looking field\<close>

fun all_keys :: "jsval \<Rightarrow> string list" where
  "all_keys (JArr xs) = concat (map all_keys xs)"
| "all_keys (JObj kvs) = concat (map (\<lambda>kv. fst kv # all_keys (snd kv)) kvs)"
| "all_keys _ = []"

lemma scanSecretFields_Nil_iff: "scanSecretFields v p = [] \<longleftrightarrow> (\<forall>k\<in>set (all_keys v). \<not> isSecretKey k)"
proof (induction v p rule: scanSecretFields.induct)
  case (1 xs p)
  have "scanSecretFields (JArr xs) p = [] \<longleftrightarrow>
      (\<forall>x\<in>set (enumerate 0 xs). \<forall>k\<in>set (all_keys (snd x)). \<not> isSecretKey k)"
    using 1 by (auto simp: case_prod_beta)
  also have "\<dots> \<longleftrightarrow> (\<forall>v\<in>set xs. \<forall>k\<in>set (all_keys v). \<not> isSecretKey k)" by (rule ball_enumerate)
  finally show ?case by simp
next
  case (2 kvs p)
  have "scanSecretFields (JObj kvs) p = [] \<longleftrightarrow>
      (\<forall>kv\<in>set kvs. \<not> isSecretKey (fst kv) \<and> (\<forall>k\<in>set (all_keys (snd kv)). \<not> isSecretKey k))"
    using 2 by (auto simp: case_prod_beta)
  then show ?case by auto
qed auto

section \<open>The edge loop\<close>

definition edge_from :: "string list \<Rightarrow> string \<Rightarrow> jsval \<Rightarrow> bool" where
  "edge_from ids f e \<longleftrightarrow> isObj e \<and> from_is_step ids e \<and> str_of (fld e ''from'') = f"

definition target :: "jsval \<Rightarrow> string" where
  "target e = str_of (fld e ''to'')"

definition out_edge_of :: "nat \<times> jsval \<Rightarrow> out_edge" where
  "out_edge_of ie = \<lparr>oe_condition = fld (snd ie) ''condition'', oe_kind = fld (snd ie) ''kind'', oe_idx = fst ie\<rparr>"

definition graph_step :: "string list \<Rightarrow> wgraph \<Rightarrow> nat \<times> jsval \<Rightarrow> wgraph" where
  "graph_step ids g ie = (if isObj (snd ie) then add_edge ids g (fst ie) (snd ie) else g)"

lemma visit_edge_graph:
  "fst (foldl (visit_edge stab tables) (g, seen, iss) es) = foldl (graph_step (stepIds stab)) g es"
  by (induction es arbitrary: g seen iss) (auto simp: visit_edge_def graph_step_def case_prod_beta)

lemma graph_fold:
  fixes ids g es f
  defines "g' \<equiv> foldl (graph_step ids) g es"
  shows "map_list (outgoing g') f = map_list (outgoing g) f @ map out_edge_of (filter (edge_from ids f \<circ> snd) es)"
    and "map_list (allAdj g') f = map_list (allAdj g) f @
      map target (filter (\<lambda>e. edge_from ids f e \<and> to_is_step ids e) (map snd es))"
    and "map_list (normalAdj g') f = map_list (normalAdj g) f @
      map target (filter (\<lambda>e. edge_from ids f e \<and> to_is_step ids e \<and> fld e ''kind'' \<noteq> JStr ''loop'') (map snd es))"
  unfolding g'_def
  by (induction es arbitrary: g)
    (auto simp: graph_step_def add_edge_def Let_def edge_from_def target_def out_edge_of_def)

lemma graph_fold_keys:
  "distinct (map fst (normalAdj g)) \<Longrightarrow> distinct (map fst (outgoing g)) \<Longrightarrow>
    distinct (map fst (normalAdj (foldl (graph_step ids) g es))) \<and>
    distinct (map fst (outgoing (foldl (graph_step ids) g es)))"
  by (induction es arbitrary: g) (auto simp: graph_step_def add_edge_def Let_def)


lemma visit_edge_issues:
  "snd (snd (foldl (visit_edge stab tables) (g, seen, iss) es)) = [] \<Longrightarrow>
    iss = [] \<and> (\<forall>ie\<in>set es. \<exists>seen'. edge_issues stab tables seen' (fst ie) (snd ie) = [])"
proof (induction es arbitrary: g seen iss)
  case (Cons ie es)
  obtain g' seen' where
    "visit_edge stab tables (g, seen, iss) ie = (g', seen', iss @ edge_issues stab tables seen (fst ie) (snd ie))"
    by (auto simp: visit_edge_def case_prod_beta)
  with Cons.IH [of g' seen' "iss @ edge_issues stab tables seen (fst ie) (snd ie)"] Cons.prems
  show ?case by auto
qed auto

text \<open>What a valid spec's edges look like.\<close>

definition edge_ok :: "string list \<Rightarrow> jsval \<Rightarrow> bool" where
  "edge_ok ids e \<longleftrightarrow> isObj e \<and> from_is_step ids e \<and> (to_is_terminal e \<or> to_is_step ids e) \<and>
    (fld e ''kind'' = JStr ''normal'' \<or> fld e ''kind'' = JStr ''loop'') \<and>
    (fld e ''condition'' \<noteq> JUndef \<longrightarrow> checkConditionShape (fld e ''condition'') = [])"

lemma edge_issues_ok: "edge_issues stab tables seen i e = [] \<Longrightarrow> edge_ok (stepIds stab) e"
  by (auto simp: edge_issues_def edge_ok_def Let_def condition_issues_def split: if_splits)

lemma vt_graph_eq: "vt_graph (spec_tables spec) = fst (validateEdges spec (vt_steps (spec_tables spec)) (vt_schemas (spec_tables spec)))"
  by (simp add: spec_tables_def Let_def)

lemma valid_edges:
  assumes "spec_valid spec"
  defines "t \<equiv> spec_tables spec"
  shows "\<forall>e\<in>set (spec_edges spec). edge_ok (stepIds (vt_steps t)) e"
    and "vt_graph t = foldl (graph_step (stepIds (vt_steps t))) empty_graph (enumerate 0 (spec_edges spec))"
proof -
  let ?st = "vt_steps t" and ?tab = "vt_schemas t"
  let ?fold = "foldl (visit_edge ?st ?tab) (empty_graph, [], []) (enumerate 0 (spec_edges spec))"
  have ve: "snd (validateEdges spec ?st ?tab) = []" using spec_valid_parts(7) [OF assms(1)] t_def by simp
  then have arr: "isArr (fld spec ''edges'')" by (auto simp: validateEdges_def split: if_splits)
  then have eq: "validateEdges spec ?st ?tab = (fst ?fold, snd (snd ?fold))"
    by (auto simp: validateEdges_def spec_edges_def case_prod_beta)
  with ve have "snd (snd ?fold) = []" by simp
  from visit_edge_issues [OF this] have "\<forall>ie\<in>set (enumerate 0 (spec_edges spec)). edge_ok (stepIds ?st) (snd ie)"
    using edge_issues_ok by blast
  then show "\<forall>e\<in>set (spec_edges spec). edge_ok (stepIds ?st) e" by (simp add: ball_enumerate)
  show "vt_graph t = foldl (graph_step (stepIds ?st)) empty_graph (enumerate 0 (spec_edges spec))"
    using eq by (simp add: t_def vt_graph_eq visit_edge_graph)
qed


section \<open>Routing\<close>

lemma valid_outgoing:
  assumes "spec_valid spec"
  shows "map oe_condition (map_list (outgoing (vt_graph (spec_tables spec))) f) =
    map (\<lambda>e. fld e ''condition'') (outgoing_edges spec f)"
proof -
  let ?ids = "stepIds (vt_steps (spec_tables spec))" and ?es = "spec_edges spec"
  have "map oe_condition (map_list (outgoing (vt_graph (spec_tables spec))) f) =
      map (\<lambda>e. fld e ''condition'') (map snd (filter (edge_from ?ids f \<circ> snd) (enumerate 0 ?es)))"
    unfolding valid_edges(2) [OF assms] by (simp add: graph_fold empty_graph_def out_edge_of_def o_def)
  also have "map snd (filter (edge_from ?ids f \<circ> snd) (enumerate 0 ?es)) = filter (edge_from ?ids f) ?es"
    by (metis filter_map map_snd_enumerate)
  also have "filter (edge_from ?ids f) ?es = outgoing_edges spec f"
    unfolding outgoing_edges_def using valid_edges(1) [OF assms]
    by (intro filter_cong) (auto simp: edge_ok_def edge_from_def from_is_step_def isStr_iff)
  finally show ?thesis .
qed

lemma valid_routing_issues:
  assumes "spec_valid spec"
  defines "t \<equiv> spec_tables spec"
  shows "routing_issues (vt_steps t) (vt_schemas t) (f, map_list (outgoing (vt_graph t)) f) = []"
proof (cases "map_of (outgoing (vt_graph t)) f")
  case None
  then show ?thesis
    by (simp add: map_list_def conditional_edges_def fallback_edges_def multi_branch_issues_def ends_iteration_def)
next
  case (Some es)
  then have "(f, es) \<in> set (outgoing (vt_graph t))" by (rule map_of_SomeD)
  with spec_valid_parts(10) [OF assms(1)] have "routing_issues (vt_steps t) (vt_schemas t) (f, es) = []"
    by (auto simp: validateRouting_def t_def)
  with Some show ?thesis by (simp add: map_list_def del: routing_issues.simps)
qed

lemma scan_overlap_fold:
  "foldl (\<lambda>(seen, overlap) v. (seen @ [v], overlap \<or> js_includes seen v)) (seen, ov) vals =
    (seen @ vals, ov \<or> (\<exists>p v q. vals = p @ v # q \<and> js_includes (seen @ p) v))"
proof (induction vals arbitrary: seen ov)
  case (Cons x xs)
  have "(\<exists>p v q. x # xs = p @ v # q \<and> js_includes (seen @ p) v) \<longleftrightarrow>
    js_includes seen x \<or> (\<exists>p v q. xs = p @ v # q \<and> js_includes (seen @ x # p) v)"
    by (auto simp: Cons_eq_append_conv) fastforce+
  then show ?case using Cons.IH by simp
qed simp

lemma scan_overlapI: "same_value_zero v w \<Longrightarrow> scan_overlap (a @ v # b @ w # c)"
  unfolding scan_overlap_def scan_overlap_fold snd_conv
  by (intro disjI2 exI [of _ "a @ v # b"] exI [of _ w] exI [of _ c]) (auto simp: js_includes_iff)

lemma branch_issues_disjoint:
  assumes "branch_issues conditional = []"
    and "map oe_condition conditional = as @ c # bs @ d # cs"
    and "evaluateCondition c scope" and "evaluateCondition d scope"
  shows False
proof -
  let ?conds = "map oe_condition conditional"
  let ?paths = "map (case_option ''?'' id) (map cond_path ?conds)"
  have uniq: "length (set_of_list ?paths) = 1" and noq: "''?'' \<notin> set ?paths"
    and ops: "\<forall>x\<in>set ?conds. fld x ''op'' = JStr ''eq'' \<or> fld x ''op'' = JStr ''in''"
    and noverlap: "\<not> scan_overlap (concat (map condition_values ?conds))"
    using assms(1) by (auto simp: branch_issues_def Let_def list_all_iff comp_assoc split: if_splits)
  have mem: "c \<in> set ?conds" "d \<in> set ?conds" using assms(2) by simp_all
  obtain p where "set_of_list ?paths = [p]"
    using uniq unfolding One_nat_def length_Suc_conv length_0_conv by blast
  then have "set ?paths = {p}" by (metis list.set(1) list.simps(15) set_set_of_list)
  moreover have "case_option ''?'' id (cond_path x) \<in> set ?paths" if "x \<in> set ?conds" for x using that by auto
  ultimately have "case_option ''?'' id (cond_path c) = p" "case_option ''?'' id (cond_path d) = p" "p \<noteq> ''?''"
    using mem noq by auto
  then have path: "str_of (fld c ''path'') = p" "str_of (fld d ''path'') = p"
    by (auto simp: cond_path_def split: if_splits)
  obtain v w where vw: "resolveConditionValue p scope = Some v" "w \<in> set (condition_values c)" "same_value_zero w v"
    using evaluateCondition_eq_in [of c scope] ops mem assms(3) path by metis
  obtain v' w' where vw': "resolveConditionValue p scope = Some v'" "w' \<in> set (condition_values d)" "same_value_zero w' v'"
    using evaluateCondition_eq_in [of d scope] ops mem assms(4) path by metis
  have "same_value_zero w w'" using vw vw' same_value_zero_sym same_value_zero_trans by (metis option.inject)
  moreover obtain a1 a2 b1 b2 where "condition_values c = a1 @ w # a2" "condition_values d = b1 @ w' # b2"
    using vw vw' by (meson split_list)
  ultimately have "scan_overlap (concat (map condition_values ?conds))"
    using scan_overlapI [of w w' "concat (map condition_values as) @ a1"
        "a2 @ concat (map condition_values bs) @ b1" "b2 @ concat (map condition_values cs)"]
    unfolding assms(2) by simp
  with noverlap show False by simp
qed

lemma valid_matched_le_1:
  assumes "spec_valid spec"
  shows "length (filter (\<lambda>e. fld e ''condition'' \<noteq> JUndef \<and> evaluateCondition (fld e ''condition'') scope)
    (outgoing_edges spec f)) \<le> 1"
proof (rule ccontr)
  let ?P = "\<lambda>e. fld e ''condition'' \<noteq> JUndef \<and> evaluateCondition (fld e ''condition'') scope"
  let ?oes = "map_list (outgoing (vt_graph (spec_tables spec))) f"
  assume "\<not> ?thesis"
  then have "1 < length (filter ?P (outgoing_edges spec f))" by simp
  then obtain as e bs e' cs where split: "outgoing_edges spec f = as @ e # bs @ e' # cs" "?P e" "?P e'"
    by (rule filter_two)
  let ?c = "\<lambda>es. filter (\<lambda>c. c \<noteq> JUndef) (map (\<lambda>e. fld e ''condition'') es)"
  have "map oe_condition (conditional_edges ?oes) = filter (\<lambda>c. c \<noteq> JUndef) (map oe_condition ?oes)"
    by (simp add: conditional_edges_def filter_map o_def)
  also have "\<dots> = ?c as @ fld e ''condition'' # ?c bs @ fld e' ''condition'' # ?c cs"
    unfolding valid_outgoing [OF assms] using split by simp
  finally have conds: "map oe_condition (conditional_edges ?oes) =
    ?c as @ fld e ''condition'' # ?c bs @ fld e' ''condition'' # ?c cs" .
  then have "length (map oe_condition (conditional_edges ?oes)) \<ge> 2" by simp
  then have "branch_issues (conditional_edges ?oes) = []"
    using valid_routing_issues [OF assms, of f] by (auto simp: multi_branch_issues_def)
  from branch_issues_disjoint [OF this conds] split show False by blast
qed

lemma valid_fallbacks_le_1:
  assumes "spec_valid spec"
  shows "length (filter (\<lambda>e. fld e ''condition'' = JUndef) (outgoing_edges spec f)) \<le> 1"
proof -
  let ?oes = "map_list (outgoing (vt_graph (spec_tables spec))) f"
  have "length (fallback_edges ?oes) = length (filter (\<lambda>c. c = JUndef) (map oe_condition ?oes))"
    by (simp add: fallback_edges_def filter_map o_def)
  also have "\<dots> = length (filter (\<lambda>e. fld e ''condition'' = JUndef) (outgoing_edges spec f))"
    unfolding valid_outgoing [OF assms] by (simp add: filter_map o_def)
  finally show ?thesis using valid_routing_issues [OF assms, of f] by auto
qed

lemma valid_never_ambiguous:
  assumes "spec_valid spec"
  shows "selectEdge spec f out round \<noteq> Inl RoutingAmbiguous"
  using valid_matched_le_1 [OF assms, of "\<lparr>scope_output = out, scope_round = round\<rparr>" f]
    valid_fallbacks_le_1 [OF assms, of f]
  by (auto simp: selectEdge_def Let_def)

section \<open>The step loop\<close>

definition step_id :: "jsval \<Rightarrow> string" where
  "step_id s = str_of (fld s ''id'')"

definition step_schema :: "jsval \<Rightarrow> string" where
  "step_schema s = str_of (fld s ''output_schema'')"

lemma step_issues_ok:
  assumes "step_issues roles tables ids p s = []"
  shows "isObj s" and "valid_step_id (fld s ''id'')" and "step_id s \<notin> set ids"
    and "isStr (fld s ''output_schema'')" and "step_schema s \<in> set (schemaNames tables)"
  using assms by (auto simp: step_issues_def step_id_def step_schema_def split: if_splits)

lemma visit_step_snd:
  "snd (visit_step roles tables st ie) =
    snd st @ step_issues roles tables (stepIds (fst st)) (''/steps/'' @ nat_digits (fst ie)) (snd ie)"
  by (simp add: visit_step_def case_prod_beta)

lemma steps_fold_prefix: "\<exists>rest. snd (foldl (visit_step roles tables) st xs) = snd st @ rest"
proof (induction xs arbitrary: st)
  case (Cons x xs)
  from Cons [of "visit_step roles tables st x"] show ?case by (auto simp: visit_step_snd)
qed simp

lemma steps_fold:
  assumes "snd (foldl (visit_step roles tables) (tab, iss) es) = []"
    and "distinct (stepIds tab)" and "map fst (stepOutputSchema tab) = stepIds tab"
  shows "iss = [] \<and> distinct (stepIds tab @ map step_id (map snd es)) \<and>
    stepIds (fst (foldl (visit_step roles tables) (tab, iss) es)) = stepIds tab @ map step_id (map snd es) \<and>
    stepOutputSchema (fst (foldl (visit_step roles tables) (tab, iss) es)) =
      stepOutputSchema tab @ map (\<lambda>s. (step_id s, step_schema s)) (map snd es) \<and>
    (\<forall>ie\<in>set es. \<exists>ids p. step_issues roles tables ids p (snd ie) = [])"
  using assms
proof (induction es arbitrary: tab iss)
  case (Cons ie es)
  obtain i s where ie: "ie = (i, s)" by (cases ie)
  let ?is = "step_issues roles tables (stepIds tab) (''/steps/'' @ nat_digits i) s"
  let ?tab = "fst (visit_step roles tables (tab, iss) ie)"
  have v: "visit_step roles tables (tab, iss) ie = (?tab, iss @ ?is)"
    by (simp add: visit_step_def ie)
  have nil: "iss = [] \<and> ?is = []"
    using Cons.prems(1) steps_fold_prefix [of roles tables "visit_step roles tables (tab, iss) ie" es]
    by (auto simp: visit_step_snd ie)
  note ok = step_issues_ok [OF nil [THEN conjunct2]]
  have fresh: "AList.update k x m = m @ [(k, x)]" if "k \<notin> fst ` set m" for k and x :: string and m
    using that by (induction m) auto
  have "step_id s \<notin> fst ` set (stepOutputSchema tab)"
    using ok(3) Cons.prems(3) by (metis list.set_map)
  then have tab: "stepIds ?tab = stepIds tab @ [step_id s]"
    "stepOutputSchema ?tab = stepOutputSchema tab @ [(step_id s, step_schema s)]"
    using ok fresh by (auto simp: visit_step_def ie step_id_def step_schema_def set_add_def valid_step_id_def)
  have inv: "distinct (stepIds ?tab)" "map fst (stepOutputSchema ?tab) = stepIds ?tab"
    using Cons.prems(2,3) tab ok(3) by simp_all
  have f: "foldl (visit_step roles tables) (tab, iss) (ie # es) = foldl (visit_step roles tables) (?tab, []) es"
    using v nil by (metis append_Nil foldl_Cons)
  then have "snd (foldl (visit_step roles tables) (?tab, []) es) = []" using Cons.prems(1) by simp
  note IH = Cons.IH [OF this inv]
  have "\<exists>ids p. step_issues roles tables ids p s = []" using nil by blast
  with IH nil show ?case unfolding f tab by (auto simp: ie)
qed simp

lemma valid_steps:
  assumes "spec_valid spec"
  defines "t \<equiv> spec_tables spec"
  shows "distinct (map step_id (spec_steps spec))"
    and "stepIds (vt_steps t) = map step_id (spec_steps spec)"
    and "stepOutputSchema (vt_steps t) = map (\<lambda>s. (step_id s, step_schema s)) (spec_steps spec)"
    and "\<forall>s\<in>set (spec_steps spec). \<exists>ids p. step_issues (fst (validateAgents (fld spec ''agents''))) (vt_schemas t) ids p s = []"
proof -
  let ?roles = "fst (validateAgents (fld spec ''agents''))"
  let ?fold = "foldl (visit_step ?roles (vt_schemas t)) (\<lparr>stepIds = [], stepOutputSchema = []\<rparr>, []) (enumerate 0 (spec_steps spec))"
  have vs: "vt_steps t = fst (validateSteps (fld spec ''steps'') ?roles (vt_schemas t))"
    by (simp add: t_def spec_tables_def Let_def)
  have nil: "snd (validateSteps (fld spec ''steps'') ?roles (vt_schemas t)) = []"
    using spec_valid_parts(3) [OF assms(1)] t_def by simp
  then have "validateSteps (fld spec ''steps'') ?roles (vt_schemas t) = ?fold"
    by (auto simp: validateSteps_def spec_steps_def split: if_splits)
  with steps_fold [of ?roles "vt_schemas t" "\<lparr>stepIds = [], stepOutputSchema = []\<rparr>" "[]" "enumerate 0 (spec_steps spec)"] nil vs
  have all: "distinct (map step_id (map snd (enumerate 0 (spec_steps spec)))) \<and> stepIds (vt_steps t) = map step_id (map snd (enumerate 0 (spec_steps spec))) \<and>
    stepOutputSchema (vt_steps t) = map (\<lambda>s. (step_id s, step_schema s)) (map snd (enumerate 0 (spec_steps spec))) \<and>
    (\<forall>ie\<in>set (enumerate 0 (spec_steps spec)). \<exists>ids p. step_issues ?roles (vt_schemas t) ids p (snd ie) = [])"
    by simp
  then show "distinct (map step_id (spec_steps spec))" and "stepIds (vt_steps t) = map step_id (spec_steps spec)"
    and "stepOutputSchema (vt_steps t) = map (\<lambda>s. (step_id s, step_schema s)) (spec_steps spec)"
    by (simp_all only: map_snd_enumerate)
  have "\<forall>ie\<in>set (enumerate 0 (spec_steps spec)). \<exists>ids p. step_issues ?roles (vt_schemas t) ids p (snd ie) = []"
    using all by blast
  then show "\<forall>s\<in>set (spec_steps spec). \<exists>ids p. step_issues ?roles (vt_schemas t) ids p s = []"
    by (rule ball_enumerate [THEN iffD1])
qed

section \<open>Exhaustive routing\<close>

lemma map_of_concat_if:
  assumes "map_of xs k = Some d" and "P d"
  shows "map_of (concat (map (\<lambda>(n, d). if P d then [(n, g d)] else []) xs)) k = Some (g d)"
  using assms by (induction xs) (auto split: if_splits)

text \<open>The schema a step declares, and a field of it.\<close>

definition declared_schema :: "jsval \<Rightarrow> jsval \<Rightarrow> jsval" where
  "declared_schema spec step = fld (fld spec ''output_schemas'') (step_schema step)"

definition declared_field :: "jsval \<Rightarrow> jsval \<Rightarrow> string \<Rightarrow> jsval" where
  "declared_field spec step f = fld (fld (declared_schema spec step) ''fields'') f"

lemma fld_map_of: "fld v k \<noteq> JUndef \<Longrightarrow> map_of (entries v) k = Some (fld v k)"
  by (auto simp: fld_def split: option.splits)

lemma valid_schema_tables:
  assumes "spec_valid spec"
  shows "vt_schemas (spec_tables spec) =
    \<lparr>schemaNames = set_of_list (obj_keys (fld spec ''output_schemas'')),
     schemaFields = map (\<lambda>(n, d). (n, schema_field_names d)) (entries (fld spec ''output_schemas'')),
     schemaFieldDefs = map (\<lambda>(n, d). (n, schema_defs d)) (entries (fld spec ''output_schemas''))\<rparr>"
    and "\<forall>nd\<in>set (entries (fld spec ''output_schemas'')). schema_issues (fst nd) (snd nd) = []"
proof -
  have "snd (validateOutputSchemas (fld spec ''output_schemas'')) = []" by (rule spec_valid_parts(4) [OF assms])
  then have obj: "isObj (fld spec ''output_schemas'')" "obj_keys (fld spec ''output_schemas'') \<noteq> []"
    and iss: "concat (map (\<lambda>(n, d). schema_issues n d) (entries (fld spec ''output_schemas''))) = []"
    by (auto simp: validateOutputSchemas_def split: if_splits)
  then show "vt_schemas (spec_tables spec) =
    \<lparr>schemaNames = set_of_list (obj_keys (fld spec ''output_schemas'')),
     schemaFields = map (\<lambda>(n, d). (n, schema_field_names d)) (entries (fld spec ''output_schemas'')),
     schemaFieldDefs = map (\<lambda>(n, d). (n, schema_defs d)) (entries (fld spec ''output_schemas''))\<rparr>"
    by (simp add: spec_tables_def Let_def validateOutputSchemas_def)
  show "\<forall>nd\<in>set (entries (fld spec ''output_schemas'')). schema_issues (fst nd) (snd nd) = []"
    using iss by auto
qed

lemma enum_field_is_array:
  assumes "field_issues p d = []" and "fld d ''type'' = JStr ''enum''"
  shows "isObj d" and "isArr (fld d ''enum'')"
  using assms by (auto simp: field_issues_def validateEnumValues_def split: if_splits)

lemma valid_field_def:
  assumes valid: "spec_valid spec" and step: "step \<in> set (spec_steps spec)"
    and type: "fld (declared_field spec step f) ''type'' = JStr ''enum''"
    and req: "fld (declared_field spec step f) ''required'' = JBool True"
  defines "t \<equiv> spec_tables spec" and "d \<equiv> declared_field spec step f"
  shows "map_of (stepOutputSchema (vt_steps t)) (step_id step) = Some (step_schema step)"
    and "step_schema step \<noteq> []"
    and "(f, d) \<in> set (entries (fld (declared_schema spec step) ''fields''))"
    and "map_option (\<lambda>ds. map_of ds f) (map_of (schemaFieldDefs (vt_schemas t)) (step_schema step)) =
      Some (Some \<lparr>fd_type = ''enum'', fd_enum = Some (arr_of (fld d ''enum'')), fd_required = True\<rparr>)"
proof -
  let ?S = "fld spec ''output_schemas''" and ?sch = "declared_schema spec step"
  have dne: "d \<noteq> JUndef" using type d_def by auto
  then have fields: "map_of (entries (fld ?sch ''fields'')) f = Some d"
    unfolding d_def declared_field_def by (rule fld_map_of)
  then show mem: "(f, d) \<in> set (entries (fld ?sch ''fields''))" by (rule map_of_SomeD)
  have fne: "fld ?sch ''fields'' \<noteq> JUndef" using mem by auto
  then have sch: "map_of (entries ?S) (step_schema step) = Some ?sch"
    unfolding declared_schema_def by (intro fld_map_of) auto
  then have iss: "schema_issues (step_schema step) ?sch = []"
    using bspec [OF valid_schema_tables(2) [OF valid] map_of_SomeD [OF sch]] by simp
  then obtain p where fi: "field_issues p d = []"
    using mem by (fastforce simp: schema_issues_def Let_def split: if_splits)
  have arr: "isObj d" "isArr (fld d ''enum'')"
    using enum_field_is_array [OF fi] type d_def by auto
  have "distinct (map fst (map (\<lambda>s. (step_id s, step_schema s)) (spec_steps spec)))"
    using valid_steps(1) [OF valid] by (simp add: o_def)
  then show "map_of (stepOutputSchema (vt_steps t)) (step_id step) = Some (step_schema step)"
    unfolding t_def valid_steps(3) [OF valid] using step by (intro map_of_is_SomeI) auto
  show "step_schema step \<noteq> []"
    using iss by (auto simp: schema_issues_def Let_def SAFE_ID_def split: if_splits)
  have "map_of (schema_defs ?sch) f = Some (schema_field_def d)"
    unfolding schema_defs_def using fields arr type d_def
    by (intro map_of_concat_if [where P = "\<lambda>d. isObj d \<and> valid_field_type (fld d ''type'')"])
      (auto simp: valid_field_type_def schema_field_types_def)
  moreover have "map_of (schemaFieldDefs (vt_schemas t)) (step_schema step) = Some (schema_defs ?sch)"
    unfolding t_def valid_schema_tables(1) [OF valid] using sch
    by (simp add: map_of_map)
  ultimately show "map_option (\<lambda>ds. map_of ds f) (map_of (schemaFieldDefs (vt_schemas t)) (step_schema step)) =
      Some (Some \<lparr>fd_type = ''enum'', fd_enum = Some (arr_of (fld d ''enum'')), fd_required = True\<rparr>)"
    using type req arr d_def by (simp add: schema_field_def_def)
qed

lemma parseConditionPath_declared:
  "parseConditionPath (''output.'' @ f) \<noteq> None \<Longrightarrow> parseConditionPath (''output.'' @ f) = Some (OutputField f)"
  by (auto simp: parseConditionPath_def starts_with_def split: if_splits)

lemma condition_shape_ok:
  assumes "checkConditionShape c = []"
  shows "isObj c" and "isStr (fld c ''path'')" and "parseConditionPath (str_of (fld c ''path'')) \<noteq> None"
  using assms by (auto simp: checkConditionShape_def split: if_splits)

lemma covered_value_matches:
  assumes "js_includes (covered_values conds) (JStr s)"
  obtains c where "c \<in> set conds" and "fld c ''op'' = JStr ''eq'' \<or> fld c ''op'' = JStr ''in''"
    and "JStr s \<in> set (condition_values c)"
  using assms that
  by (auto simp: js_includes_iff covered_values_def condition_values_def split: if_splits)

lemma selectorOf_declared:
  assumes valid: "spec_valid spec" and step: "step \<in> set (spec_steps spec)"
    and type: "fld (declared_field spec step f) ''type'' = JStr ''enum''"
    and req: "fld (declared_field spec step f) ''required'' = JBool True"
    and shape: "checkConditionShape c = []" and path: "fld c ''path'' = JStr (''output.'' @ f)"
  shows "selectorOf c (step_id step) (vt_steps (spec_tables spec)) (vt_schemas (spec_tables spec)) =
    SelField f (Some \<lparr>fd_type = ''enum'', fd_enum = Some (arr_of (fld (declared_field spec step f) ''enum'')), fd_required = True\<rparr>)"
proof -
  have "parseConditionPath (''output.'' @ f) = Some (OutputField f)"
    using parseConditionPath_declared condition_shape_ok(3) [OF shape] path by simp
  with condition_shape_ok(1) [OF shape] path valid_field_def [OF valid step type req] show ?thesis
    by (auto simp: selectorOf_def split: option.splits)
qed

lemma valid_conditions:
  assumes "spec_valid spec" and "e \<in> set (outgoing_edges spec f)" and "fld e ''condition'' \<noteq> JUndef"
  shows "checkConditionShape (fld e ''condition'') = []"
  using valid_edges(1) [OF assms(1)] assms(2,3) by (auto simp: outgoing_edges_def edge_ok_def)

lemma enum_outcome_routed:
  assumes valid: "spec_valid spec" and step: "step \<in> set (spec_steps spec)"
    and type: "fld (declared_field spec step f) ''type'' = JStr ''enum''"
    and req: "fld (declared_field spec step f) ''required'' = JBool True"
    and some: "outgoing_edges spec (step_id step) \<noteq> []"
    and paths: "\<forall>e\<in>set (outgoing_edges spec (step_id step)). fld e ''condition'' \<noteq> JUndef \<and>
      fld (fld e ''condition'') ''path'' = JStr (''output.'' @ f)"
    and v: "v \<in> set (arr_of (fld (declared_field spec step f) ''enum''))"
  shows "js_includes (covered_values (map (\<lambda>e. fld e ''condition'') (outgoing_edges spec (step_id step)))) v"
proof -
  let ?t = "spec_tables spec" and ?sid = "step_id step"
  let ?oes = "map_list (outgoing (vt_graph ?t)) ?sid"
  let ?D = "\<lparr>fd_type = ''enum'', fd_enum = Some (arr_of (fld (declared_field spec step f) ''enum'')), fd_required = True\<rparr>"
  have conds: "map oe_condition ?oes = map (\<lambda>e. fld e ''condition'') (outgoing_edges spec ?sid)"
    by (rule valid_outgoing [OF valid])
  have "\<forall>c\<in>set (map oe_condition ?oes). c \<noteq> JUndef" unfolding conds using paths by auto
  then have all: "conditional_edges ?oes = ?oes" "fallback_edges ?oes = []"
    by (auto simp: conditional_edges_def fallback_edges_def)
  have sel: "selectorOf c ?sid (vt_steps ?t) (vt_schemas ?t) = SelField f (Some ?D)"
    if "c \<in> set (map oe_condition ?oes)" for c
    using that paths valid_conditions [OF valid] selectorOf_declared [OF valid step type req]
    unfolding conds by auto
  obtain e es where oes: "?oes = e # es"
    using some conds by (cases ?oes) auto
  have "exhaustive_issues ?sid ?oes [] (vt_steps ?t) (vt_schemas ?t) = []"
    using valid_routing_issues [OF valid, of ?sid] all by (auto simp: ends_iteration_def)
  then have "enum_issues (SelField f (Some ?D)) True ?oes [] = []"
    using sel unfolding oes by (auto simp: list_all_iff same_selector_def)
  then have "\<forall>v\<in>set (arr_of (fld (declared_field spec step f) ''enum'')).
      unrouted (covered_values (map oe_condition ?oes)) v = []"
    by (simp add: enum_issues_def)
  then show ?thesis using v unfolding conds by (auto simp: unrouted_def)
qed

lemma enum_routing_total:
  assumes valid: "spec_valid spec" and step: "step \<in> set (spec_steps spec)"
    and acc: "validateAgainstSchema obj (declared_schema spec step) = Inr out"
    and type: "fld (declared_field spec step f) ''type'' = JStr ''enum''"
    and req: "fld (declared_field spec step f) ''required'' = JBool True"
    and some: "outgoing_edges spec (step_id step) \<noteq> []"
    and paths: "\<forall>e\<in>set (outgoing_edges spec (step_id step)). fld e ''condition'' \<noteq> JUndef \<longrightarrow>
      fld (fld e ''condition'') ''path'' = JStr (''output.'' @ f)"
  shows "\<exists>d. selectEdge spec (step_id step) out round = Inr d"
proof -
  let ?out = "outgoing_edges spec (step_id step)"
  let ?scope = "\<lparr>scope_output = out, scope_round = round\<rparr>"
  let ?m = "filter (\<lambda>e. fld e ''condition'' \<noteq> JUndef \<and> evaluateCondition (fld e ''condition'') ?scope) ?out"
  let ?f = "filter (\<lambda>e. fld e ''condition'' = JUndef) ?out"
  have "?m \<noteq> [] \<or> ?f \<noteq> []"
  proof (cases "?f = []")
    case True
    then have paths': "\<forall>e\<in>set ?out. fld e ''condition'' \<noteq> JUndef \<and>
        fld (fld e ''condition'') ''path'' = JStr (''output.'' @ f)"
      using paths by (auto simp: filter_empty_conv)
    let ?d = "declared_field spec step f"
    have own: "has_own out f" and "matchesSchemaType (fld out f) ?d"
      using accepted_field [OF acc valid_field_def(3) [OF valid step type req]] req by auto
    then obtain s where s: "fld out f = JStr s" "JStr s \<in> set (arr_of (fld ?d ''enum''))"
      using type by (auto simp: matchesSchemaType_def isStr_iff js_includes_iff)
    obtain c where c: "c \<in> set (map (\<lambda>e. fld e ''condition'') ?out)"
      "fld c ''op'' = JStr ''eq'' \<or> fld c ''op'' = JStr ''in''" "JStr s \<in> set (condition_values c)"
      using enum_outcome_routed [OF valid step type req some paths' s(2)] by (rule covered_value_matches)
    then obtain e where e: "e \<in> set ?out" "c = fld e ''condition''" by auto
    have "parseConditionPath (''output.'' @ f) = Some (OutputField f)"
      using condition_shape_ok(3) [OF valid_conditions [OF valid e(1)]] paths' e parseConditionPath_declared by auto
    then have res: "resolveConditionValue (str_of (fld c ''path'')) ?scope = Some (JStr s)"
      using paths' e own s(1) by (auto simp: resolveConditionValue_def)
    have "evaluateCondition c ?scope"
      using evaluateCondition_eq_in_iff [OF c(2) res] c(3) by auto
    then show ?thesis using e paths' by (auto simp: filter_empty_conv)
  qed simp
  then have "length ?m = 1 \<or> length ?m = 0 \<and> length ?f = 1"
    using valid_matched_le_1 [OF valid, of ?scope "step_id step"] valid_fallbacks_le_1 [OF valid, of "step_id step"]
    by (cases ?m; cases ?f; simp)
  then show ?thesis by (auto simp: selectEdge_def Let_def)
qed

section \<open>The graph of a valid spec\<close>

definition is_step_id :: "jsval \<Rightarrow> string \<Rightarrow> bool" where
  "is_step_id spec x \<longleftrightarrow> x \<in> set (map step_id (spec_steps spec))"

definition step_edges :: "jsval \<Rightarrow> (string \<times> string) set" where
  "step_edges spec = {(u, v). is_step_id spec v \<and>
     (\<exists>e\<in>set (spec_edges spec). fld e ''from'' = JStr u \<and> fld e ''to'' = JStr v)}"

definition normal_edges :: "jsval \<Rightarrow> (string \<times> string) set" where
  "normal_edges spec = {(u, v). is_step_id spec v \<and>
     (\<exists>e\<in>set (spec_edges spec). fld e ''from'' = JStr u \<and> fld e ''to'' = JStr v \<and> fld e ''kind'' \<noteq> JStr ''loop'')}"

lemma valid_succs:
  assumes "spec_valid spec"
  defines "g \<equiv> vt_graph (spec_tables spec)"
  shows "v \<in> succs (allAdj g) u \<longleftrightarrow> (u, v) \<in> step_edges spec"
    and "v \<in> succs (normalAdj g) u \<longleftrightarrow> (u, v) \<in> normal_edges spec"
    and "distinct (map fst (normalAdj g))"
proof -
  let ?ids = "stepIds (vt_steps (spec_tables spec))"
  note ok = valid_edges(1) [OF assms(1)]
  have g: "g = foldl (graph_step ?ids) empty_graph (enumerate 0 (spec_edges spec))"
    unfolding g_def by (rule valid_edges(2) [OF assms(1)])
  have ids: "?ids = map step_id (spec_steps spec)" by (rule valid_steps(2) [OF assms(1)])
  have to: "to_is_step ?ids e \<and> target e = v \<longleftrightarrow> is_step_id spec v \<and> fld e ''to'' = JStr v" for e
    unfolding ids by (auto simp: to_is_step_def target_def is_step_id_def isStr_iff)
  have fr: "edge_from ?ids u e \<longleftrightarrow> fld e ''from'' = JStr u" if "e \<in> set (spec_edges spec)" for e
    using ok that by (auto simp: edge_ok_def edge_from_def from_is_step_def isStr_iff)
  have "v \<in> succs (allAdj g) u \<longleftrightarrow> (\<exists>e\<in>set (spec_edges spec). edge_from ?ids u e \<and> to_is_step ?ids e \<and> target e = v)"
    unfolding succs_def g by (auto simp: graph_fold empty_graph_def)
  then show "v \<in> succs (allAdj g) u \<longleftrightarrow> (u, v) \<in> step_edges spec"
    using to fr by (auto simp: step_edges_def)
  have "v \<in> succs (normalAdj g) u \<longleftrightarrow>
      (\<exists>e\<in>set (spec_edges spec). edge_from ?ids u e \<and> to_is_step ?ids e \<and> fld e ''kind'' \<noteq> JStr ''loop'' \<and> target e = v)"
    unfolding succs_def g by (auto simp: graph_fold empty_graph_def)
  then show "v \<in> succs (normalAdj g) u \<longleftrightarrow> (u, v) \<in> normal_edges spec"
    using to fr by (auto simp: normal_edges_def)
  show "distinct (map fst (normalAdj g))"
    unfolding g using graph_fold_keys [of empty_graph] by (simp add: empty_graph_def)
qed

lemma valid_edges_of:
  assumes "spec_valid spec"
  shows "edges_of (allAdj (vt_graph (spec_tables spec))) = step_edges spec"
    and "edges_of (normalAdj (vt_graph (spec_tables spec))) = normal_edges spec"
  using valid_succs [OF assms] by auto

lemma valid_entry:
  assumes "spec_valid spec"
  obtains e where "fld spec ''entry_step'' = JStr e" and "is_step_id spec e" and "e \<noteq> []"
    and "entry_of spec (stepIds (vt_steps (spec_tables spec))) = Some e"
proof -
  let ?ids = "stepIds (vt_steps (spec_tables spec))"
  obtain e where e: "entry_of spec ?ids = Some e" using spec_valid_parts(5) [OF assms] by auto
  then have "fld spec ''entry_step'' = JStr e" "is_step_id spec e"
    unfolding valid_steps(2) [OF assms] by (auto simp: entry_of_def is_step_id_def isStr_iff split: if_splits)
  moreover have "e \<noteq> []"
  proof -
    from \<open>is_step_id spec e\<close> obtain s where s: "s \<in> set (spec_steps spec)" "e = step_id s" by (auto simp: is_step_id_def)
    then obtain ids p where "step_issues (fst (validateAgents (fld spec ''agents''))) (vt_schemas (spec_tables spec)) ids p s = []"
      using valid_steps(4) [OF assms] by blast
    from step_issues_ok(2) [OF this] s(2) show ?thesis
      by (auto simp: valid_step_id_def SAFE_ID_def step_id_def)
  qed
  ultimately show thesis using e that by blast
qed

lemma valid_analysis:
  assumes "spec_valid spec" and "fld spec ''entry_step'' = JStr e"
  defines "t \<equiv> spec_tables spec"
  shows "vt_reachable t = reachable_from (allAdj (vt_graph t)) e"
    and "vt_doms t = computeDominators e (reachable_from (allAdj (vt_graph t)) e) (normalAdj (vt_graph t))"
    and "findCycle (stepIds (vt_steps t)) (normalAdj (vt_graph t)) = None"
    and "\<forall>s\<in>set (stepIds (vt_steps t)). s \<in> set (vt_reachable t)"
proof -
  obtain e' where e': "fld spec ''entry_step'' = JStr e'" "e' \<noteq> []"
    "entry_of spec (stepIds (vt_steps t)) = Some e'"
    using valid_entry [OF assms(1)] t_def by metis
  with assms(2) have e: "e \<noteq> []" "entry_of spec (stepIds (vt_steps t)) = Some e" by auto
  have a: "(vt_reachable t, vt_doms t) = fst (analyzeGraph spec (stepIds (vt_steps t)) (Some e) (vt_graph t))"
    using e by (simp add: t_def spec_tables_def Let_def)
  then show r: "vt_reachable t = reachable_from (allAdj (vt_graph t)) e"
    and "vt_doms t = computeDominators e (reachable_from (allAdj (vt_graph t)) e) (normalAdj (vt_graph t))"
    using e(1) by (auto simp: analyzeGraph_def Let_def)
  have "snd (analyzeGraph spec (stepIds (vt_steps t)) (Some e) (vt_graph t)) = []"
    using spec_valid_parts(8) [OF assms(1)] e(2) t_def by simp
  then show "findCycle (stepIds (vt_steps t)) (normalAdj (vt_graph t)) = None"
    and "\<forall>s\<in>set (stepIds (vt_steps t)). s \<in> set (vt_reachable t)"
    using e(1) r by (auto simp: analyzeGraph_def Let_def)
qed

lemma valid_acyclic:
  assumes "spec_valid spec"
  shows "acyclic (normal_edges spec)"
proof -
  obtain e where e: "fld spec ''entry_step'' = JStr e" using valid_entry [OF assms] by metis
  let ?ids = "stepIds (vt_steps (spec_tables spec))" and ?adj = "normalAdj (vt_graph (spec_tables spec))"
  have ids: "?ids = map step_id (spec_steps spec)" by (rule valid_steps(2) [OF assms])
  have "succs ?adj u \<subseteq> set ?ids" for u
    unfolding ids using valid_succs(2) [OF assms] by (auto simp: normal_edges_def is_step_id_def)
  moreover have "u \<in> set ?ids" if ne: "succs ?adj u \<noteq> {}" for u
  proof -
    obtain ed where "ed \<in> set (spec_edges spec)" "fld ed ''from'' = JStr u"
      using ne valid_succs(2) [OF assms] by (auto simp: normal_edges_def)
    then show ?thesis
      using valid_edges(1) [OF assms] by (fastforce simp: edge_ok_def from_is_step_def)
  qed
  ultimately show ?thesis
    using findCycle_None [of ?adj ?ids] valid_analysis(3) [OF assms e] valid_edges_of(2) [OF assms] by auto
qed

lemma valid_reachable:
  assumes "spec_valid spec" and "fld spec ''entry_step'' = JStr e" and "is_step_id spec s"
  shows "(e, s) \<in> (step_edges spec)\<^sup>*"
proof -
  have "s \<in> set (vt_reachable (spec_tables spec))"
    using valid_analysis(4) [OF assms(1,2)] valid_steps(2) [OF assms(1)] assms(3) by (auto simp: is_step_id_def)
  then show ?thesis
    unfolding valid_analysis(1) [OF assms(1,2)] reachable_from_iff valid_edges_of(1) [OF assms(1)] .
qed

section \<open>Template references of a valid spec\<close>

definition prompt_refs :: "jsval \<Rightarrow> template_ref list" where
  "prompt_refs step = parse_refs (parseTemplateReferences (str_of (fld step ''prompt_template'')))"

lemma valid_prompt:
  assumes "spec_valid spec" and "step \<in> set (spec_steps spec)"
  defines "t \<equiv> spec_tables spec"
  shows "parse_errors (parseTemplateReferences (str_of (fld step ''prompt_template''))) = []"
    and "\<forall>ref\<in>set (prompt_refs step). \<exists>p. checkPromptRef p (Some (step_id step)) (has_input_pause step)
      (vt_inputs t) (vt_steps t) (vt_schemas t) (vt_reachable t) (vt_doms t) ref = []"
proof -
  obtain ids p0 where si: "step_issues (fst (validateAgents (fld spec ''agents''))) (vt_schemas t) ids p0 step = []"
    using valid_steps(4) [OF assms(1)] assms(2) t_def by blast
  then have obj: "isObj step" "isStr (fld step ''prompt_template'')" "isStr (fld step ''id'')"
    by (auto simp: step_issues_def valid_step_id_def split: if_splits)
  have "isArr (fld spec ''steps'')" using assms(2) by (cases "fld spec ''steps''") (auto simp: spec_steps_def)
  then have "\<forall>ie\<in>set (enumerate 0 (spec_steps spec)).
      template_issues (vt_inputs t) (vt_steps t) (vt_schemas t) (vt_reachable t) (vt_doms t) ie = []"
    using spec_valid_parts(9) [OF assms(1)] by (simp add: validateTemplates_def t_def spec_steps_def)
  moreover obtain i where "i < length (spec_steps spec)" "spec_steps spec ! i = step"
    using assms(2) by (auto simp: in_set_conv_nth)
  then have "(i, step) \<in> set (enumerate 0 (spec_steps spec))" by (auto simp: in_set_enumerate_eq)
  ultimately have "template_issues (vt_inputs t) (vt_steps t) (vt_schemas t) (vt_reachable t) (vt_doms t) (i, step) = []"
    by blast
  with obj show "parse_errors (parseTemplateReferences (str_of (fld step ''prompt_template''))) = []"
    and "\<forall>ref\<in>set (prompt_refs step). \<exists>p. checkPromptRef p (Some (step_id step)) (has_input_pause step)
      (vt_inputs t) (vt_steps t) (vt_schemas t) (vt_reachable t) (vt_doms t) ref = []"
    by (auto simp: prompt_issues_def prompt_refs_def step_id_of_def step_id_def split: if_splits)
qed

lemma valid_step_ref:
  assumes "spec_valid spec" and "step \<in> set (spec_steps spec)" and "RefStep s f raw \<in> set (prompt_refs step)"
    and "fld spec ''entry_step'' = JStr e"
  obtains dm where "vt_doms (spec_tables spec) = Some dm" and "is_step_id spec s" and "s \<noteq> step_id step"
    and "s \<in> set (dm (step_id step))"
proof -
  let ?t = "spec_tables spec"
  obtain p where chk: "checkPromptRef p (Some (step_id step)) (has_input_pause step)
      (vt_inputs ?t) (vt_steps ?t) (vt_schemas ?t) (vt_reachable ?t) (vt_doms ?t) (RefStep s f raw) = []"
    using valid_prompt(2) [OF assms(1,2)] assms(3) by blast
  have ids: "stepIds (vt_steps ?t) = map step_id (spec_steps spec)" by (rule valid_steps(2) [OF assms(1)])
  have "step_id step \<in> set (vt_reachable ?t)"
    using valid_analysis(4) [OF assms(1,4)] assms(2) ids by auto
  moreover have "step_id step \<noteq> []"
    using valid_steps(4) [OF assms(1)] assms(2) step_issues_ok(2)
    by (fastforce simp: valid_step_id_def SAFE_ID_def step_id_def)
  ultimately show thesis
    using chk ids that by (auto simp: checkPromptRef_def is_step_id_def split: if_splits option.splits)
qed

definition edge_path :: "(string \<times> string) set \<Rightarrow> string list \<Rightarrow> bool" where
  "edge_path E ws \<longleftrightarrow> successively (\<lambda>x y. (x, y) \<in> E) ws"

text \<open>A path on which every loop edge returns to a step that every forward path to its source
  passes.\<close>

definition returns_to_dominator :: "jsval \<Rightarrow> string \<Rightarrow> string \<Rightarrow> bool" where
  "returns_to_dominator spec u v \<longleftrightarrow>
    (case vt_doms (spec_tables spec) of None \<Rightarrow> False | Some dm \<Rightarrow> v \<in> set (dm u))"

lemma valid_ref_on_path:
  assumes "spec_valid spec" and "step \<in> set (spec_steps spec)" and "RefStep s f raw \<in> set (prompt_refs step)"
    and "fld spec ''entry_step'' = JStr e"
    and "edge_path (step_edges spec) (e # ws)" and "last (e # ws) = step_id step"
    and "successively (\<lambda>u v. (u, v) \<in> normal_edges spec \<or> returns_to_dominator spec u v) (e # ws)"
  shows "s \<in> set (butlast (e # ws))"
proof -
  let ?t = "spec_tables spec"
  let ?all = "allAdj (vt_graph ?t)" and ?adj = "normalAdj (vt_graph ?t)"
  obtain dm where dm: "vt_doms ?t = Some dm" "s \<noteq> step_id step" "s \<in> set (dm (step_id step))"
    using valid_step_ref [OF assms(1-4)] by metis
  have cd: "computeDominators e (reachable_from ?all e) ?adj = Some dm"
    using dm(1) valid_analysis(2) [OF assms(1,4)] by simp
  have "is_walk ?all e (e # ws) (step_id step)"
    using assms(5,6) valid_succs(1) [OF assms(1)] by (auto simp: is_walk_def edge_path_def)
  moreover have "successively (\<lambda>u v. v \<in> succs ?adj u \<or> v \<in> set (dm u)) (e # ws)"
    using assms(7) valid_succs(2) [OF assms(1)] dm(1) by (simp add: returns_to_dominator_def)
  ultimately have "s \<in> set (e # ws)"
    using dominator_on_walk [OF cd valid_succs(3) [OF assms(1)] _ _ dm(3)] by blast
  with assms(6) dm(2) show ?thesis
    by (metis append_butlast_last_id list.distinct(1) rotate1.simps(2) set_ConsD set_rotate1)
qed

section \<open>Limits\<close>

lemma valid_limits:
  assumes "spec_valid spec"
  shows "k \<in> set REQUIRED_LIMITS \<Longrightarrow>
      \<exists>n. fld (fld spec ''limits'') k = JNum (NInt n) \<and> 0 < n \<and> n \<le> limit_maximum k"
    and "hasLoopEdge spec \<or> fld (fld spec ''limits'') ''max_rounds'' \<noteq> JUndef \<Longrightarrow>
      \<exists>n. fld (fld spec ''limits'') ''max_rounds'' = JNum (NInt n) \<and> 0 < n \<and> n \<le> limit_maximum ''max_rounds''"
proof -
  let ?l = "fld spec ''limits''"
  have l: "validateLimits ?l (hasLoopEdge spec) = []" by (rule spec_valid_parts(6) [OF assms])
  then have req: "\<forall>k\<in>set REQUIRED_LIMITS. limit_issues ?l k = []"
    and mr: "fld ?l ''max_rounds'' \<noteq> JUndef \<Longrightarrow> isPosInt (fld ?l ''max_rounds'') \<and> int_of (fld ?l ''max_rounds'') \<le> limit_maximum ''max_rounds''"
    and lp: "hasLoopEdge spec \<Longrightarrow> isPosInt (fld ?l ''max_rounds'')"
    by (auto simp: validateLimits_def Let_def split: if_splits)
  show "\<exists>n. fld ?l k = JNum (NInt n) \<and> 0 < n \<and> n \<le> limit_maximum k" if "k \<in> set REQUIRED_LIMITS"
    using req that by (auto simp: limit_issues_def Let_def isPosInt_iff split: if_splits)
  show "\<exists>n. fld ?l ''max_rounds'' = JNum (NInt n) \<and> 0 < n \<and> n \<le> limit_maximum ''max_rounds''"
    if "hasLoopEdge spec \<or> fld ?l ''max_rounds'' \<noteq> JUndef"
    using that mr lp by (auto simp: isPosInt_iff)
qed

end
