(* ===== verification/ExampleFacts.thy ===== *)
theory ExampleFacts
  imports Examples ValidatorFacts OutputValidation
begin

text \<open>
  Concrete specs at which the properties are exercised: the shipped planner and executor
  loop validates, and so do two small specs, one whose second step reads the first step's
  output and one whose loop edge enters a step from the side.
\<close>

definition plan_step :: "string \<Rightarrow> string \<Rightarrow> jsval" where
  "plan_step i prompt = JObj [(''id'', JStr i), (''type'', JStr ''agent_task''), (''agent_role'', JStr ''dev''),
     (''prompt_template'', JStr prompt), (''output_schema'', JStr ''note'')]"

definition plan_edge :: "string \<Rightarrow> string \<Rightarrow> string \<Rightarrow> (string \<times> jsval) list \<Rightarrow> jsval" where
  "plan_edge u v k c = JObj ([(''from'', JStr u), (''to'', JStr v), (''kind'', JStr k)] @ c)"

definition plan_spec :: "string \<Rightarrow> jsval list \<Rightarrow> jsval list \<Rightarrow> jsval" where
  "plan_spec entry steps edges = JObj [(''version'', JStr ''1''), (''name'', JStr ''n''), (''entry_step'', JStr entry),
     (''agents'', JObj [(''dev'', JObj [(''agent'', JStr ''codex'')])]),
     (''output_schemas'', JObj [(''note'', JObj [(''fields'', JObj [(''st'',
        JObj [(''type'', JStr ''enum''), (''required'', JBool True), (''enum'', JArr [JStr ''y'', JStr ''n''])])])])]),
     (''limits'', JObj [(''max_rounds'', JNum (NInt 3)), (''max_tasks'', JNum (NInt 5)),
        (''max_runtime_seconds'', JNum (NInt 60)), (''max_step_attempts'', JNum (NInt 1)), (''max_failures'', JNum (NInt 1))]),
     (''steps'', JArr steps), (''edges'', JArr edges)]"

definition on_st :: "string \<Rightarrow> (string \<times> jsval) list" where
  "on_st v = [(''condition'', JObj [(''op'', JStr ''eq''), (''path'', JStr ''output.st''), (''value'', JStr v)])]"

definition handoff_spec :: jsval where
  "handoff_spec = plan_spec ''a'' [plan_step ''a'' ''go'', plan_step ''b'' ''{{ steps.a.output.st }}'']
     [plan_edge ''a'' ''b'' ''normal'' [], plan_edge ''b'' ''a'' ''loop'' (on_st ''y''), plan_edge ''b'' ''$complete'' ''normal'' (on_st ''n'')]"

definition skipping_spec :: jsval where
  "skipping_spec = plan_spec ''e''
     [plan_step ''e'' ''go'', plan_step ''a'' ''go'', plan_step ''b'' ''go'', plan_step ''c'' ''{{ steps.a.output.st }}'']
     [plan_edge ''e'' ''a'' ''normal'' (on_st ''y''), plan_edge ''e'' ''b'' ''normal'' (on_st ''n''),
      plan_edge ''a'' ''c'' ''normal'' [], plan_edge ''b'' ''c'' ''loop'' [], plan_edge ''c'' ''$complete'' ''normal'' []]"

lemma example_valid: "spec_valid plannerExecutorLoopExample"
  by code_simp

lemma handoff_valid: "spec_valid handoff_spec"
  by code_simp

lemma skipping_valid: "spec_valid skipping_spec"
  by code_simp

lemma handoff_edges:
  "(''a'', ''b'') \<in> normal_edges handoff_spec"
  "(''a'', ''b'') \<in> step_edges handoff_spec"
  "(''b'', ''a'') \<in> step_edges handoff_spec"
  by (simp_all add: normal_edges_def step_edges_def is_step_id_def handoff_spec_def plan_spec_def plan_step_def
      plan_edge_def spec_edges_def spec_steps_def step_id_def fld_def)

lemma handoff_back: "returns_to_dominator handoff_spec ''b'' ''a''"
  by code_simp

lemma skipping_edges:
  "(''e'', ''b'') \<in> step_edges skipping_spec"
  "(''b'', ''c'') \<in> step_edges skipping_spec"
  by (simp_all add: step_edges_def is_step_id_def skipping_spec_def plan_spec_def plan_step_def
      plan_edge_def spec_edges_def spec_steps_def step_id_def fld_def)

lemma handoff_ref:
  "RefStep ''a'' ''st'' ''{{ steps.a.output.st }}'' \<in> set (prompt_refs (plan_step ''b'' ''{{ steps.a.output.st }}''))"
  by code_simp

lemma skipping_ref:
  "RefStep ''a'' ''st'' ''{{ steps.a.output.st }}'' \<in> set (prompt_refs (plan_step ''c'' ''{{ steps.a.output.st }}''))"
  by code_simp

lemma handoff_steps:
  "plan_step ''b'' ''{{ steps.a.output.st }}'' \<in> set (spec_steps handoff_spec)"
  "step_id (plan_step i p) = i"
  "fld handoff_spec ''entry_step'' = JStr ''a''"
  "is_step_id handoff_spec ''b''"
  by (simp_all add: handoff_spec_def plan_spec_def plan_step_def spec_steps_def step_id_def fld_def is_step_id_def)

lemma skipping_steps:
  "plan_step ''c'' ''{{ steps.a.output.st }}'' \<in> set (spec_steps skipping_spec)"
  "fld skipping_spec ''entry_step'' = JStr ''e''"
  by (simp_all add: skipping_spec_def plan_spec_def plan_step_def spec_steps_def fld_def)

lemma handoff_output:
  "validateAgainstSchema (JObj [(''st'', JStr ''n'')])
     (declared_schema handoff_spec (plan_step ''b'' ''{{ steps.a.output.st }}'')) = Inr (JObj [(''st'', JStr ''n'')])"
proof -
  have "stringify (JObj [(''st'', JStr ''n'')]) = Some (''{'' @ [CHR 0x22] @ ''st'' @ [CHR 0x22] @ '':'' @ [CHR 0x22] @ ''n'' @ [CHR 0x22] @ ''}'')"
    by code_simp
  then show ?thesis
    by (simp add: validateAgainstSchema_def declared_schema_def handoff_spec_def plan_spec_def plan_step_def step_schema_def
        fld_def field_error_def matchesSchemaType_def byteLen_def MAX_OUTPUT_SERIALIZED_BYTES_def js_includes_def
        has_own_def strict_eq_def)
qed

end
