(* ===== verification/SpecProperties.thy ===== *)
theory SpecProperties
  imports ExampleFacts Rendering Policies
begin

text \<open>
  What a spec that \<open>validateWorkflowSpec\<close> accepts guarantees to the router, the renderer and the
  runtime, and the correctness of the pure components the runtime consults: graph analysis,
  rendering, output schemas, results, verification, completion and stall policies.
\<close>

section \<open>Sample records\<close>

definition zero_sha :: "string \<Rightarrow> string" where
  "zero_sha s = replicate 64 (CHR ''0'')"

definition sample_ts :: string where
  "sample_ts = ''2026-01-01T00:00:00.000Z''"

definition sample_verification :: task_verification where
  "sample_verification = buildTaskVerification zero_sha ''node-test'' [''node'', ''--test''] 0 sample_ts sample_ts ''ok''"

definition sample_result :: task_result where
  "sample_result = buildTaskResult zero_sha ''done'' (Some 0) sample_ts [] [] (Some sample_verification)"

lemma zero_sha_hex: "\<forall>s. hex64 (zero_sha s)"
  by (simp add: zero_sha_def hex64_def list_all_iff is_hex_def is_digit_def)

lemma sample_ts_iso: "iso_utc sample_ts"
  by code_simp

lemma sample_bounds:
  "isKnownVerifierProfile ''node-test''" "[''node'', ''--test''] \<noteq> []"
  "length [''node'', ''--test''] \<le> MAX_VERIFY_ARGV_ITEMS"
  "\<forall>a\<in>set [''node'', ''--test'']. byteLen a \<le> MAX_VERIFY_ARGV_ITEM_LEN"
  "byteLen ''done'' \<le> MAX_FINAL_OUTPUT_BYTES" "boundedRefs (JArr [])"
  by (simp_all add: isKnownVerifierProfile_def PROFILES_def MAX_VERIFY_ARGV_ITEMS_def MAX_VERIFY_ARGV_ITEM_LEN_def
      byteLen_def MAX_FINAL_OUTPUT_BYTES_def boundedRefs_def)

lemmas sample_verification_valid =
  validate_build [OF sample_bounds(1-4) sample_ts_iso sample_ts_iso zero_sha_hex, of 0 "''ok''", folded sample_verification_def]

lemma sample_result_valid: "validateTaskResult zero_sha (result_json sample_result) = Inr sample_result"
  unfolding sample_result_def
  by (rule validate_build_result) (simp_all add: sample_bounds sample_ts_iso zero_sha_hex sample_verification_valid)

section \<open>Validation and routing\<close>

text \<open>C29: on a spec the validator accepts, edge selection after any step, with any output and in any
  round, is never ambiguous.\<close>

theorem routing_never_ambiguous:
  assumes "spec_valid spec"
  shows "selectEdge spec from_id out round \<noteq> Inl RoutingAmbiguous"
  using assms by (rule valid_never_ambiguous)

theorem routing_never_ambiguous_witness:
  "spec_valid handoff_spec \<and> selectEdge handoff_spec ''b'' (JObj [(''st'', JStr ''y'')]) 1 \<noteq> Inl RoutingAmbiguous"
  using routing_never_ambiguous [OF handoff_valid] handoff_valid by simp

text \<open>C30: routing is total on a required enum field. When every conditional edge that leaves a step
  of a valid spec tests one declared, required enum field of the step's output schema, any
  output that the schema accepts selects exactly one edge.\<close>

theorem enum_outputs_always_route:
  assumes "spec_valid spec" and "step \<in> set (spec_steps spec)"
    and "validateAgainstSchema obj (declared_schema spec step) = Inr out"
    and "fld (declared_field spec step f) ''type'' = JStr ''enum''"
    and "fld (declared_field spec step f) ''required'' = JBool True"
    and "outgoing_edges spec (step_id step) \<noteq> []"
    and "\<forall>e\<in>set (outgoing_edges spec (step_id step)). fld e ''condition'' \<noteq> JUndef \<longrightarrow>
      fld (fld e ''condition'') ''path'' = JStr (''output.'' @ f)"
  shows "\<exists>d. selectEdge spec (step_id step) out round = Inr d"
  using assms by (rule enum_routing_total)

theorem enum_outputs_always_route_witness:
  "\<exists>d. selectEdge handoff_spec ''b'' (JObj [(''st'', JStr ''n'')]) 2 = Inr d"
  using enum_outputs_always_route [OF handoff_valid handoff_steps(1) handoff_output, of "''st''" 2]
  unfolding handoff_steps(2)
  by (simp add: declared_field_def declared_schema_def outgoing_edges_def handoff_spec_def plan_spec_def plan_step_def
      plan_edge_def on_st_def spec_edges_def step_schema_def fld_def)

text \<open>C31: a valid spec has no cycle of normal edges, so that every cycle passes a loop edge.\<close>

theorem normal_edges_acyclic:
  assumes "spec_valid spec"
  shows "acyclic (normal_edges spec)"
  using assms by (rule valid_acyclic)

theorem normal_edges_acyclic_witness: "acyclic (normal_edges handoff_spec)"
  using normal_edges_acyclic [OF handoff_valid] .

text \<open>In a valid spec every step is reachable from the entry step.\<close>

theorem every_step_reachable:
  assumes "spec_valid spec" and "fld spec ''entry_step'' = JStr e" and "is_step_id spec s"
  shows "(e, s) \<in> (step_edges spec)\<^sup>*"
  using assms by (rule valid_reachable)

theorem every_step_reachable_witness: "(''a'', ''b'') \<in> (step_edges handoff_spec)\<^sup>*"
  using every_step_reachable [OF handoff_valid handoff_steps(3,4)] .

text \<open>C32: when a prompt of a valid spec refers to another step's output, that step lies on every
  path from the entry to the referring step whose loop edges return to a dominator, so its
  output exists when the prompt is rendered.\<close>

theorem referenced_step_ran_before:
  assumes "spec_valid spec" and "step \<in> set (spec_steps spec)" and "RefStep s f raw \<in> set (prompt_refs step)"
    and "fld spec ''entry_step'' = JStr e"
    and "edge_path (step_edges spec) (e # ws)" and "last (e # ws) = step_id step"
    and "successively (\<lambda>u v. (u, v) \<in> normal_edges spec \<or> returns_to_dominator spec u v) (e # ws)"
  shows "s \<in> set (butlast (e # ws))"
  using assms by (rule valid_ref_on_path)

theorem referenced_step_ran_before_witness: "''a'' \<in> set (butlast [''a'', ''b'', ''a'', ''b''])"
  using referenced_step_ran_before [OF handoff_valid handoff_steps(1) handoff_ref handoff_steps(3),
      where ws = "[''b'', ''a'', ''b'']"]
  by (simp add: edge_path_def handoff_edges handoff_steps(2) handoff_back)

text \<open>the restriction on loop edges is needed, because the validator does not make it: there is a
  valid spec with a path from the entry, along declared edges, to a step whose prompt refers to
  the output of a step that is not on the path.\<close>

theorem loop_edge_can_skip_reference:
  "\<exists>spec step s f raw ws. spec_valid spec \<and> step \<in> set (spec_steps spec) \<and> RefStep s f raw \<in> set (prompt_refs step) \<and>
    fld spec ''entry_step'' = JStr (hd ws) \<and> edge_path (step_edges spec) ws \<and> last ws = step_id step \<and> s \<notin> set ws"
  using skipping_valid skipping_steps skipping_ref skipping_edges
  by (intro exI [of _ skipping_spec] exI [of _ "plan_step ''c'' ''{{ steps.a.output.st }}''"] exI [of _ "''a''"]
      exI [of _ "''st''"] exI [of _ "''{{ steps.a.output.st }}''"] exI [of _ "[''e'', ''b'', ''c'']"])
    (simp add: edge_path_def handoff_steps(2))

text \<open>A spec with a field name that looks like a credential, at any depth, is not valid.\<close>

theorem valid_spec_has_no_secret_key:
  assumes "spec_valid spec" and "k \<in> set (all_keys spec)"
  shows "\<not> isSecretKey k"
  using spec_valid_parts(2) [OF assms(1)] assms(2) by (auto simp: scanSecretFields_Nil_iff)

theorem valid_spec_has_no_secret_key_witness: "\<not> isSecretKey ''agents''"
  using valid_spec_has_no_secret_key [OF handoff_valid, of "''agents''"] by (simp add: handoff_spec_def plan_spec_def)

text \<open>Every required limit of a valid spec is a positive integer up to its documented maximum,
  and so is \<open>max_rounds\<close> whenever the spec has a loop edge.\<close>

theorem valid_spec_limits:
  assumes "spec_valid spec" and "k \<in> set REQUIRED_LIMITS \<or> k = ''max_rounds'' \<and> hasLoopEdge spec"
  shows "\<exists>n. fld (fld spec ''limits'') k = JNum (NInt n) \<and> 0 < n \<and> n \<le> limit_maximum k"
  using assms(2) valid_limits [OF assms(1)] by auto

theorem valid_spec_limits_witness:
  "\<exists>n. fld (fld handoff_spec ''limits'') ''max_tasks'' = JNum (NInt n) \<and> 0 < n \<and> n \<le> limit_maximum ''max_tasks''"
  using valid_spec_limits [OF handoff_valid, of "''max_tasks''"] by (simp add: REQUIRED_LIMITS_def)

section \<open>Graph analysis\<close>



text \<open>\<open>findCycle\<close> decides acyclicity of a graph on the given nodes: it answers null exactly when
  there is no cycle.\<close>

theorem findCycle_decides_acyclicity:
  assumes "\<forall>u. succs adj u \<subseteq> set nodes" and "\<forall>u. succs adj u \<noteq> {} \<longrightarrow> u \<in> set nodes"
  shows "findCycle nodes adj = None \<longleftrightarrow> acyclic (edges_of adj)"
  using assms by (rule findCycle_None_iff)

theorem findCycle_decides_acyclicity_witness:
  "findCycle [1, 2::nat] [(1, [2])] = None \<longleftrightarrow> acyclic (edges_of [(1, [2::nat])])"
  by (rule findCycle_decides_acyclicity) (auto simp: succs_def map_list_def)

section \<open>Completion and stall policies\<close>

text \<open>The completion gate decides \<open>complete\<close> exactly when the task did not fail, no exit code is
  nonzero, every required kind of evidence is present, and each demand of the policy on the
  repository, the tests and the remaining work is met; anything else blocks or fails.\<close>

theorem completion_needs_evidence:
  "evaluateCompletion policy e remainingWork = Complete \<longleftrightarrow>
    ve_task_status e \<notin> {Some ''failed'', Some ''cancelled''} \<and> ve_exit_code e \<in> {None, Some 0} \<and>
    (\<forall>t\<in>set (required_evidence policy). evidence_present t e) \<and>
    (require_repository_change policy \<longrightarrow> ve_repository_changed e = Some True) \<and>
    (require_tests_passed policy \<longrightarrow> ve_tests_passed e = Some True) \<and>
    (require_no_remaining_work policy \<longrightarrow> remainingWork \<in> {None, Some []})"
  by (rule evaluateCompletion_Complete_iff)

theorem completion_needs_evidence_witness:
  "evaluateCompletion \<lparr>required_evidence = [EvTaskStatus], require_repository_change = False,
      require_no_remaining_work = True, require_tests_passed = True\<rparr>
    \<lparr>ve_task_status = Some ''completed'', ve_exit_code = Some 0, ve_content_hash = None, ve_revision_before = None,
     ve_revision_after = None, ve_repository_changed = None, ve_changed_files = None, ve_changed_files_hash = None,
     ve_tests_passed = Some True\<rparr> (Some []) = Complete"
  unfolding completion_needs_evidence by simp

text \<open>Evidence assembled by the system claims passing tests exactly when the stored result carries
  a verification record of that kind, and a stored result that validation accepts carries it
  only with exit code 0.\<close>

theorem tests_passed_means_exit_zero:
  assumes "validateTaskResult sha v = Inr r"
    and "ve_tests_passed (assembleEvidence sha st (Some r) before after) = Some True"
  shows "\<exists>tv. tr_verification r = Some tv \<and> tv_exit_code tv = 0"
  using assms validateTaskResult_sound [OF assms(1)] by (auto simp: assembleEvidence_tests)

theorem tests_passed_means_exit_zero_witness:
  "\<exists>tv. tr_verification sample_result = Some tv \<and> tv_exit_code tv = 0"
  by (rule tests_passed_means_exit_zero [OF sample_result_valid, of "Some ''completed''" None None])
    (simp add: assembleEvidence_tests sample_result_def buildTaskResult_def sample_verification_def buildTaskVerification_def)

text \<open>A workflow is stalled after \<open>k\<close> rounds exactly when the last \<open>k\<close> recorded fingerprints exist
  and are equal.\<close>

theorem stalled_iff_last_rounds_equal:
  assumes "0 < k"
  shows "isStalled fps (int k) \<longleftrightarrow> k \<le> length fps \<and> (\<forall>f\<in>set (drop (length fps - k) fps). f = last fps)"
  using assms by (rule isStalled_iff)

theorem stalled_iff_last_rounds_equal_witness:
  "isStalled [''x'', ''y'', ''y''] (int 2) \<longleftrightarrow> 2 \<le> length [''x'', ''y'', ''y''] \<and>
    (\<forall>f\<in>set (drop (length [''x'', ''y'', ''y''] - 2) [''x'', ''y'', ''y'']). f = last [''x'', ''y'', ''y''])"
  by (rule stalled_iff_last_rounds_equal) simp

text \<open>the stall fingerprint depends on the configured set of signals and their values only, not
  on the order or repetition of signals nor on any other signal.\<close>

theorem stall_fingerprint_ignores_order:
  assumes "set signals = set signals'" and "\<forall>s\<in>set signals. signal_value v s = signal_value v' s"
  shows "computeStallFingerprint sha signals v = computeStallFingerprint sha signals' v'"
  using assms by (rule computeStallFingerprint_cong)

theorem stall_fingerprint_ignores_order_witness:
  "computeStallFingerprint id [SigRemainingWork, SigPlannerNextStep]
      \<lparr>sv_planner_next_step = ''n'', sv_remaining_work = ''w'', sv_workspace_revision = ''1'', sv_verified_evidence = ''e''\<rparr> =
    computeStallFingerprint id [SigPlannerNextStep, SigRemainingWork, SigPlannerNextStep]
      \<lparr>sv_planner_next_step = ''n'', sv_remaining_work = ''w'', sv_workspace_revision = ''2'', sv_verified_evidence = ''e''\<rparr>"
  by (rule stall_fingerprint_ignores_order) (auto simp: signal_value_def)

section \<open>Rendering, inputs, results\<close>

text \<open>A template made of brace-free text and well-formed references whose values are brace-free
  renders to the text with every reference replaced by its value, when the result fits.\<close>

theorem render_replaces_each_reference:
  assumes "list_all seg_plain segs"
    and "\<forall>i\<in>set (seg_holes segs). isl (classify_ref i) = False \<and> plain (hole_value scope i) \<and>
      (fst (resolveRef (hole_ref i) scope) \<noteq> JUndef \<or> \<not> snd (resolveRef (hole_ref i) scope))"
    and "byteLen (concat (map (seg_state (hole_value scope) UNIV) segs)) \<le> maxBytes"
  shows "renderPrompt (template_text segs) scope maxBytes = Inr (concat (map (seg_state (hole_value scope) UNIV) segs))"
  using assms by (rule renderPrompt_segments)

theorem render_replaces_each_reference_witness:
  "renderPrompt (template_text [Lit ''round '', Hole '' workflow.round '', Lit ''!''])
      \<lparr>rs_inputs = JObj [], rs_stepOutputs = JObj [], rs_round = 3, rs_context = JObj [], rs_pauseResponse = None\<rparr> 100 =
    Inr (concat (map (seg_state (hole_value
      \<lparr>rs_inputs = JObj [], rs_stepOutputs = JObj [], rs_round = 3, rs_context = JObj [], rs_pauseResponse = None\<rparr>) UNIV)
      [Lit ''round '', Hole '' workflow.round '', Lit ''!'']))"
proof (rule render_replaces_each_reference)
  show "list_all seg_plain [Lit ''round '', Hole '' workflow.round '', Lit ''!'']" by code_simp
  show "\<forall>i\<in>set (seg_holes [Lit ''round '', Hole '' workflow.round '', Lit ''!'']). isl (classify_ref i) = False \<and>
      plain (hole_value \<lparr>rs_inputs = JObj [], rs_stepOutputs = JObj [], rs_round = 3, rs_context = JObj [], rs_pauseResponse = None\<rparr> i) \<and>
      (fst (resolveRef (hole_ref i) \<lparr>rs_inputs = JObj [], rs_stepOutputs = JObj [], rs_round = 3, rs_context = JObj [], rs_pauseResponse = None\<rparr>) \<noteq> JUndef \<or>
       \<not> snd (resolveRef (hole_ref i) \<lparr>rs_inputs = JObj [], rs_stepOutputs = JObj [], rs_round = 3, rs_context = JObj [], rs_pauseResponse = None\<rparr>))"
    by code_simp
  show "byteLen (concat (map (seg_state (hole_value
      \<lparr>rs_inputs = JObj [], rs_stepOutputs = JObj [], rs_round = 3, rs_context = JObj [], rs_pauseResponse = None\<rparr>) UNIV)
      [Lit ''round '', Hole '' workflow.round '', Lit ''!''])) \<le> 100" by code_simp
qed

text \<open>C34: normalised input values hold every required input, and each value they hold is declared and
  has its declared type or is the declared default; a caller's name that is undeclared or
  looks like a credential is refused.\<close>

theorem normalized_inputs_are_declared:
  assumes "normalizeInputValues spec provided = Inr vals"
  shows "(\<forall>name def. (name, def) \<in> set (entries (fld spec ''inputs'')) \<longrightarrow> truthy (fld def ''required'') \<longrightarrow> has_own vals name) \<and>
    (\<forall>name. fld vals name \<noteq> JUndef \<longrightarrow> (\<exists>def. (name, def) \<in> set (entries (fld spec ''inputs'')) \<and>
      (matchesInputType (fld vals name) (str_of (fld def ''type'')) \<or> fld vals name = fld def ''default''))) \<and>
    set (obj_keys provided) \<subseteq> set (obj_keys (fld spec ''inputs'')) \<and> (\<forall>k\<in>set (obj_keys provided). \<not> isSecretName k)"
  using normalizeInputValues_Inr [OF assms] by blast

theorem normalized_inputs_are_declared_witness:
  "set (obj_keys (JObj [(''goal'', JStr ''x'')])) \<subseteq>
     set (obj_keys (fld (JObj [(''inputs'', JObj [(''goal'', JObj [(''type'', JStr ''string'')])])]) ''inputs''))"
proof -
  have "normalizeInputValues (JObj [(''inputs'', JObj [(''goal'', JObj [(''type'', JStr ''string'')])])])
      (JObj [(''goal'', JStr ''x'')]) = Inr (JObj [(''goal'', JStr ''x'')])"
    by code_simp
  from normalized_inputs_are_declared [OF this] show ?thesis by simp
qed

text \<open>C35: a result envelope built by the Node from bounded parts validates to itself, verification
  record included.\<close>

theorem built_result_roundtrips:
  assumes "byteLen body \<le> MAX_FINAL_OUTPUT_BYTES" and "iso_utc finalizedAt" and "\<forall>s. hex64 (sha s)"
    and "boundedRefs (JArr evidence)" and "boundedRefs (JArr artifacts)"
    and "isKnownVerifierProfile profile" and "argv \<noteq> []" and "length argv \<le> MAX_VERIFY_ARGV_ITEMS"
    and "\<forall>a\<in>set argv. byteLen a \<le> MAX_VERIFY_ARGV_ITEM_LEN" and "iso_utc startedAt" and "iso_utc finishedAt"
    and "verification = None \<or> verification = Some (buildTaskVerification sha profile argv exit startedAt finishedAt log)"
  shows "validateTaskResult sha (result_json (buildTaskResult sha body code finalizedAt evidence artifacts verification)) =
    Inr (buildTaskResult sha body code finalizedAt evidence artifacts verification)"
  using assms validate_build [OF assms(6-11,3)] by (intro validate_build_result) auto

theorem built_result_roundtrips_witness:
  "validateTaskResult zero_sha (result_json (buildTaskResult zero_sha ''done'' (Some 0) sample_ts [] [] None)) =
    Inr (buildTaskResult zero_sha ''done'' (Some 0) sample_ts [] [] None)"
  by (rule built_result_roundtrips [OF sample_bounds(5) sample_ts_iso zero_sha_hex sample_bounds(6,6,1-4) sample_ts_iso sample_ts_iso])
    simp

end
