(* ===== verification/StoreProperties.thy ===== *)
theory StoreProperties
  imports WorkflowReplay Retention SpecProperties
begin

text \<open>
  The correctness of the durable control store, over every sequence of its transactions:
  invariants from the empty store on, nothing durable lost, requests that crash recovery
  repeats applied once, and retention that drops what it says and no more.
\<close>

section \<open>Sample stores\<close>

definition sample_workflow :: workflow_row where
  "sample_workflow = \<lparr>wf_id = ''w'', wf_revision = 1, wf_spec_version = ''1'', wf_name = ''n'', wf_spec = JNull,
     wf_status = WRunning, wf_current_step_id = None, wf_current_round = 1, wf_total_tasks = 0, wf_total_failures = 0,
     wf_started_at = None, wf_created_at = sample_ts, wf_updated_at = sample_ts, wf_terminal_at = None,
     wf_last_event_sequence = -1, wf_context_revision = 0, wf_context = None, wf_earliest_retained_sequence = 0,
     wf_input_values = None, wf_cancel_requested = False\<rparr>"

definition sample_task :: task_row where
  "sample_task = \<lparr>tk_id = ''t'', tk_revision = 1, tk_node_id = None, tk_agent = ''a'', tk_workspace_key = None,
     tk_permission_mode = None, tk_status = ''completed'', tk_remote_run_id = None, tk_input_text = None, tk_metadata = None,
     tk_created_at = sample_ts, tk_updated_at = sample_ts, tk_terminal_at = Some sample_ts, tk_last_event_sequence = -1,
     tk_earliest_retained_sequence = 0, tk_terminal_event_recorded = True, tk_error_code = None,
     tk_error_message = None, tk_history_incomplete = False, tk_history_reason = None,
     tk_history_boundary_sequence = None, tk_last_remote_event_sequence = None, tk_idempotency_key = None,
     tk_request_fingerprint = None, tk_result_status = None\<rparr>"

definition sample_step :: step_row where
  "sample_step = \<lparr>se_id = ''x'', se_workflow_id = ''w'', se_step_id = ''a'', se_round = 1, se_attempt = 1,
     se_task_id = Some ''t'', se_revision = 1, se_status = SRunning, se_output = None, se_error = None,
     se_created_at = sample_ts, se_started_at = None, se_updated_at = sample_ts, se_terminal_at = None,
     se_revision_before = None, se_revision_after = None, se_result_awaited_since = None\<rparr>"

definition sample_request :: human_request_row where
  "sample_request = \<lparr>hr_id = ''h'', hr_workflow_id = ''w'', hr_step_execution_id = ''x'', hr_kind = ApprovalRequest,
     hr_prompt = ''ok?'', hr_choices = None, hr_status = HApproved, hr_response_value = None, hr_created_at = sample_ts,
     hr_responded_at = Some sample_ts, hr_updated_at = sample_ts, hr_revision = 2\<rparr>"

definition sample_store :: wstore where
  "sample_store = empty_store\<lparr>ws_workflows := [sample_workflow], ws_steps := [sample_step], ws_tasks := [sample_task],
     ws_human := [sample_request]\<rparr>"

lemmas sample_defs = sample_store_def sample_workflow_def sample_task_def sample_step_def sample_request_def empty_store_def

lemma sample_inv: "wf_inv sample_store"
  by (simp add: wf_inv_def sample_defs events_of_def)


definition sample_source_event :: "string option \<Rightarrow> source_event" where
  "sample_source_event st = \<lparr>sv_type = ''status'', sv_ts = sample_ts, sv_payload = JNull, sv_terminal = False,
     sv_status = st, sv_error_code = None, sv_error_message = None\<rparr>"

lemma sample_texts: "isTaskEventType ''status''" "isSafeId ''k''" "isSafeId ''t2''" "trim ''a'' \<noteq> []"
  by code_simp+

lemma encode_null [simp]: "4 \<le> n \<Longrightarrow> encodeJson JNull n = Inr ''null''"
  by (simp add: encodeJson_def byteLen_def)

section \<open>Every history\<close>



text \<open>In every history there is at most one live lease per workflow, node and workspace.\<close>

theorem one_live_lease_per_workspace: "lease_inv (run_calls cs empty_store)"
  using run_calls_leases [OF lease_inv_empty] .

text \<open>Until events are pruned, the events of a workflow are numbered 0, 1, 2 and so on, up to the
  sequence its row names, in the order they were appended.\<close>

theorem event_log_starts_at_zero:
  assumes "workflowRow (run_calls cs empty_store) i = Some w"
  shows "map we_sequence (events_of (run_calls cs empty_store) i) = [0..wf_last_event_sequence w]"
  using assms full.calls.R_run log_full_empty by (blast intro: log_full_sequences)

definition sample_creation :: "(string \<times> store_call) list" where
  "sample_creation = [(sample_ts, WorkflowCall (CreateWorkflow \<lparr>cw_id = ''w'', cw_spec_version = ''1'', cw_name = ''n'',
     cw_spec = JNull, cw_status = None, cw_current_step_id = None, cw_current_round = None, cw_input_values = JUndef\<rparr>))]"

theorem event_log_starts_at_zero_witness:
  "map we_sequence (events_of (run_calls sample_creation empty_store) ''w'') = [0..-1]"
proof -
  have "isSafeId ''w''" "trim ''1'' \<noteq> []" "trim ''n'' \<noteq> []" by code_simp+
  then have "map_option wf_last_event_sequence (workflowRow (run_calls sample_creation empty_store) ''w'') = Some (-1)"
    by (simp add: sample_creation_def run_calls_def transact_def createWorkflowSync_def validateCreateWorkflow_def
        opened_def empty_store_def encode_inputs_def limit_spec_json_def sel_def)
  then obtain w where "workflowRow (run_calls sample_creation empty_store) ''w'' = Some w" "wf_last_event_sequence w = -1"
    by auto
  from event_log_starts_at_zero [OF this(1)] this(2) show ?thesis by simp
qed

text \<open>A human answer is final: a request that was answered, approved or rejected stays exactly as it
  is under every later transaction.\<close>

theorem human_answer_is_final:
  assumes "humanRow s i = Some h" and "hr_status h \<noteq> HPending"
  shows "humanRow (run_calls cs s) i = Some h"
  using assms run_calls_gates [of s cs] by (fastforce simp: gates_evolve_def human_evolves_def)

theorem human_answer_is_final_witness:
  "\<forall>ev. humanRow (run_calls [(sample_ts, GateCall (RejectHumanRequest ''h'' ev))] sample_store) ''h'' = Some sample_request"
  by (intro allI human_answer_is_final) (simp_all add: sample_defs sel_def)

section \<open>Repeated requests\<close>








lemma sample_ingest:
  "\<exists>s'. ingestSourceEventDurable sample_ts ''t'' 0 (sample_source_event st) sample_store = Inr (s', True, 0) \<and>
    map_option tk_status (taskRow s' ''t'') = Some (case st of None \<Rightarrow> ''completed'' | Some x \<Rightarrow> if x = [] then ''completed'' else x)"
  using sample_texts(1) sample_ts_iso
  by (auto simp: ingestSourceEventDurable_def opened_def sample_source_event_def sample_defs sel_def next_source_def
      null_if_undef_def limit_task_event_payload_def appendTaskEventSync_def source_taken_def task_events_of_def
      update_task_def move_cursor_def upd_def source_effect_def split: option.splits)


text \<open>The result of a task is written once: the row the first successful write makes is the row every
  later state has.\<close>

theorem task_result_is_final:
  assumes "persistTaskResultDurable now i st r s = Inr (s', True)"
  shows "taskResultRow (run_calls cs s') i = Some \<lparr>rr_task_id = i, rr_status = st, rr_result = r, rr_created_at = now\<rparr>"
proof (rule result_persists [OF run_calls_tasks])
  show "taskResultRow s' i = Some \<lparr>rr_task_id = i, rr_status = st, rr_result = r, rr_created_at = now\<rparr>"
    using assms by (auto simp: persistTaskResultDurable_def ensure_result_def update_task_def split: option.splits if_splits
        dest!: writeResultRow_eq)
qed

theorem task_result_is_final_witness:
  "\<exists>s'. taskResultRow (run_calls [(sample_ts, TaskCall (PersistTaskResult ''t'' ''unavailable'' None))] s') ''t'' =
    Some \<lparr>rr_task_id = ''t'', rr_status = ''missing'', rr_result = None, rr_created_at = sample_ts\<rparr>"
proof -
  have "\<exists>s'. persistTaskResultDurable sample_ts ''t'' ''missing'' None sample_store = Inr (s', True)"
    by (simp add: persistTaskResultDurable_def ensure_result_def writeResultRow_def writable_result_def opened_def sample_defs sel_def)
  then show ?thesis using task_result_is_final by blast
qed

section \<open>Retention\<close>

text \<open>Pruning a workflow's events keeps exactly its last \<open>k\<close> events, leaves the events of the other
  workflows alone, reports how many it dropped and keeps the invariant.\<close>

theorem pruning_keeps_last_events:
  assumes "wf_inv s" and "workflowRow s i = Some w" and "pruneWorkflowEvents i k s = Inr (s', n)"
  shows "wf_inv s' \<and> events_of s' i = drop (length (events_of s i) - nat k) (events_of s i) \<and>
    (\<forall>j. j \<noteq> i \<longrightarrow> events_of s' j = events_of s j) \<and> n = length (events_of s i) - nat k"
  using pruneWorkflowEvents_keeps [OF assms] pruneWorkflowEvents_inv [OF assms] by simp

theorem pruning_keeps_last_events_witness:
  "\<exists>s' n. pruneWorkflowEvents ''w'' 0 sample_store = Inr (s', n) \<and> wf_inv s' \<and> n = 0"
proof -
  have p: "pruneWorkflowEvents ''w'' 0 sample_store = Inr (sample_store, 0)"
    by (simp add: pruneWorkflowEvents_def opened_def sample_defs events_of_def cutoff_def)
  have "workflowRow sample_store ''w'' = Some sample_workflow" by (simp add: sample_defs sel_def)
  from pruning_keeps_last_events [OF sample_inv this p] p show ?thesis by blast
qed

text \<open>Pruning terminal workflows removes exactly the workflows that are terminal since before the
  given time, with everything that refers to them, and keeps the invariant.\<close>

theorem pruning_removes_expired_workflows:
  assumes "wf_inv s" and "pruneTerminalWorkflows olderThan s = Inr (s', n)"
  shows "wf_inv s' \<and> ws_workflows s' = filter (\<lambda>w. \<not> expired_workflow olderThan w) (ws_workflows s) \<and>
    n = length (filter (expired_workflow olderThan) (ws_workflows s))"
  using pruneTerminalWorkflows_effect [OF assms] by simp

theorem pruning_removes_expired_workflows_witness:
  "\<exists>s' n. pruneTerminalWorkflows sample_ts sample_store = Inr (s', n) \<and> wf_inv s' \<and>
    ws_workflows s' = filter (\<lambda>w. \<not> expired_workflow sample_ts w) (ws_workflows sample_store)"
proof -
  have "\<exists>s' n. pruneTerminalWorkflows sample_ts sample_store = Inr (s', n)"
    by (simp add: pruneTerminalWorkflows_def opened_def sample_defs Let_def)
  then show ?thesis using pruning_removes_expired_workflows [OF sample_inv] by blast
qed

section \<open>Where the store is weaker than its documentation\<close>

text \<open>a task whose terminal event is recorded and whose status is terminal can leave that status: a
  later source event with a status replaces it.\<close>

theorem late_event_replaces_terminal_status:
  "\<exists>s s' i t t' ev. taskRow s i = Some t \<and> tk_terminal_event_recorded t \<and> isTerminalTaskStatus (tk_status t) \<and>
    ingestSourceEventDurable sample_ts i 0 ev s = Inr (s', True, 0) \<and> taskRow s' i = Some t' \<and> tk_status t' = ''running''"
proof -
  obtain s' where s': "ingestSourceEventDurable sample_ts ''t'' 0 (sample_source_event (Some ''running'')) sample_store = Inr (s', True, 0)"
    "map_option tk_status (taskRow s' ''t'') = Some ''running''"
    using sample_ingest [of "Some ''running''"] by auto
  then obtain t' where "taskRow s' ''t'' = Some t'" "tk_status t' = ''running''" by auto
  moreover have "taskRow sample_store ''t'' = Some sample_task" "tk_terminal_event_recorded sample_task" "isTerminalTaskStatus (tk_status sample_task)"
    by (simp_all add: sample_defs sel_def isTerminalTaskStatus_def TASK_TERMINAL_STATUSES_def)
  ultimately show ?thesis using s'(1) by blast
qed

text \<open>the task binding of a step, once set, can be removed again by a patch with a null task id.\<close>

theorem step_binding_can_be_cleared:
  "\<exists>s s' x r r'. stepRow s x = Some r \<and> se_task_id r \<noteq> None \<and>
    updateStepSync sample_ts x (se_revision r) (no_spatch\<lparr>sp_task_id := Some None\<rparr>) s = Inr s' \<and>
    stepRow s' x = Some r' \<and> se_task_id r' = None"
proof -
  have row: "stepRow sample_store ''x'' = Some sample_step" by (simp add: sample_defs sel_def)
  have "\<exists>s' r'. updateStepSync sample_ts ''x'' (se_revision sample_step) (no_spatch\<lparr>sp_task_id := Some None\<rparr>) sample_store = Inr s' \<and>
    stepRow s' ''x'' = Some r' \<and> se_task_id r' = None"
    unfolding updateStepSync_def row
    by (simp add: step_patch_error_def no_spatch_def encodeOpt_def task_known_def sel_upd apply_step_patch_def)
      (simp add: sample_defs sel_def)
  moreover have "se_task_id sample_step \<noteq> None" by (simp add: sample_step_def)
  ultimately show ?thesis using row by blast
qed

text \<open>pruning all events of a workflow (keeping 0) leaves its earliest retained sequence as it was, so a
  reader of the row cannot see that the log was truncated.\<close>

theorem pruning_all_events_leaves_no_trace:
  "\<exists>s s' n w. wf_inv s \<and> workflowRow s ''w'' = Some w \<and> pruneWorkflowEvents ''w'' 0 s = Inr (s', n) \<and> 0 < n \<and>
    events_of s' ''w'' = [] \<and> workflowRow s' ''w'' = Some w \<and> wf_earliest_retained_sequence w = 0"
proof -
  let ?w = "sample_workflow\<lparr>wf_last_event_sequence := 0\<rparr>"
  let ?e = "\<lparr>we_workflow_id = ''w'', we_sequence = 0, we_type = EvStarted, we_ts = sample_ts, we_step_execution_id = None,
    we_payload_json = ''null'', we_created_at = sample_ts\<rparr>"
  let ?s = "sample_store\<lparr>ws_workflows := [?w], ws_events := [?e]\<rparr>"
  have "wf_inv ?s"
    by (simp add: wf_inv_def sample_defs events_of_def event_ok_def isStepScopedEvent_def STEP_SCOPED_EVENT_TYPES_def contiguous_def)
  moreover have "pruneWorkflowEvents ''w'' 0 ?s = Inr (?s\<lparr>ws_events := []\<rparr>, 1)"
    by (simp add: pruneWorkflowEvents_def opened_def sample_defs events_of_def cutoff_def min_seq_def)
  moreover have "workflowRow ?s ''w'' = Some ?w" "wf_earliest_retained_sequence ?w = 0" by (simp_all add: sample_defs sel_def)
  ultimately show ?thesis by (intro exI [of _ ?s] exI [of _ "?s\<lparr>ws_events := []\<rparr>"] exI [of _ 1] exI [of _ ?w]) (simp add: events_of_def)
qed

end
