(* ===== verification/RuntimeProperties.thy ===== *)
theory RuntimeProperties
  imports RuntimeSafety RuntimeShutdown StoreProperties
begin

text \<open>
  The correctness of the workflow runtime over every history of its operations from an empty
  store, in every environment: every interleaving with other callers, every answer of the task
  client and the lease client, and a crash and restart at every await.
\<close>

section \<open>Safety of every history\<close>

abbreviation history :: "env \<Rightarrow> operation list \<Rightarrow> world" where
  "history env ops \<equiv> run_ops env ops (fresh_world empty_store)"

lemma history_all:
  assumes "\<And>a s. after_calls empty_store s \<Longrightarrow> lawful env a s \<Longrightarrow> P a s"
  shows "list_all (\<lambda>(a, s). P a s) (w_trace (history env ops))"
  using assms history_entry [OF _ wf_inv_empty] by (fastforce simp: list_all_iff)

text \<open>C1: at every moment of every history, between any two actions of the runtime and after a crash, the
  durable store satisfies its invariants: ids and step keys unique, references resolvable, event
  logs gap-free, one live lease per workspace.\<close>

theorem store_invariants_at_every_await:
  "list_all (\<lambda>(a, s). wf_inv s \<and> task_inv s \<and> lease_inv s) (w_trace (history env ops)) \<and>
   wf_inv (w_store (history env ops)) \<and> task_inv (w_store (history env ops)) \<and> lease_inv (w_store (history env ops))"
proof -
  have inv: "wf_inv s \<and> task_inv s \<and> lease_inv s" if "after_calls empty_store s" for s
    using that run_calls_inv [OF wf_inv_empty] run_calls_task_inv [OF task_inv_empty] run_calls_leases [OF lease_inv_empty]
    by (auto simp: after_calls_def)
  then have "list_all (\<lambda>(a, s). wf_inv s \<and> task_inv s \<and> lease_inv s) (w_trace (history env ops))" by (intro history_all)
  moreover have "after_calls empty_store (w_store (history env ops))"
    using run_ops_moves [of "fresh_world empty_store" env ops] by (simp add: moves_def fresh_world_def)
  ultimately show ?thesis using inv by blast
qed

text \<open>C2: the runtime asks for an agent task only for a step execution that exists, of a workflow whose spec
  is valid, under that execution's id as idempotency key; if the step has a pause gate, its human
  request has been answered or approved; the request carries the lease of the step's workspace, and
  write access only with a lease.\<close>

theorem tasks_are_gated:
  "list_all (\<lambda>(a, s). case a of CreateTask req \<Rightarrow> task_lawful env req s | _ \<Rightarrow> True) (w_trace (history env ops))"
  by (rule history_all) (auto simp: lawful_def split: action.splits)


text \<open>C4: a loop edge never takes a workflow past the \<open>max_rounds\<close> of its spec.\<close>

theorem loops_stay_within_max_rounds:
  "list_all (\<lambda>(a, s). case a of Did (WorkflowCall (AdvanceWorkflow wid e ra nx c ev)) \<Rightarrow> advance_lawful wid ra nx s
     | _ \<Rightarrow> True) (w_trace (history env ops))"
  by (rule history_all) (auto simp: lawful_def split: action.splits store_call.splits workflow_call.splits)



section \<open>Cancellation\<close>

lemma hoare_performCancellation: "hoare X (has_row wid row) (performCancellation env wid) (\<lambda>_. terminal wid)"
proof -
  have fin: "terminal wid s'" if "perform now (WorkflowCall (CancelStepAndWorkflow x wid ev)) s = Inr s'" for now x ev s s'
    using that cancelStepAndWorkflow_outcome
    by (fastforce elim!: store_of_InrE simp: terminal_def workflow_finished_def status_of_def split: option.splits)
  have last: "hoare X (has_row wid row) (db env (\<lambda>ts. WorkflowCall (CancelStepAndWorkflow x wid (draft EvCancelled ts None (JObj [])))) (\<lambda>_. ()))
      (\<lambda>_. terminal wid)" for x
    by (rule hoare_post [OF hoare_db [where C = "terminal wid", OF steady_row]]) (auto simp: minor_defs intro: fin)
  have current: "hoare X (has_row wid row) (cancel_current env wid r) (\<lambda>_. has_row wid row)" for r
    unfolding cancel_current_def by (intro hoare_quiet nt.quiet_rules mv.quiet_rules steady_row; simp add: minor_defs)
  have intent: "hoare X (has_row wid row) (db env (\<lambda>ts. WorkflowCall (RecordCancellationIntent wid)) (\<lambda>_. ())) (\<lambda>_. has_row wid row)"
    by (intro hoare_critical_db steady_row) (simp add: minor_defs)
  show ?thesis
    unfolding performCancellation_def
  proof (rule hoare_bnd [OF hoare_query [OF steady_row]], intro hoare_option hoare_if)
    fix x and r :: workflow_row assume "x = Some r"
    show "hoare X (\<lambda>s. has_row wid row s \<and> x = workflowRow s wid) (ret ()) (\<lambda>_. terminal wid)" if "isTerminalWorkflowStatus (wf_status r)"
      using that \<open>x = Some r\<close> by (intro hoare_ret) (auto simp: terminal_def dest!: sym [of "Some _"])
    show "hoare X (\<lambda>s. has_row wid row s \<and> x = workflowRow s wid)
      (bnd (db env (\<lambda>ts. WorkflowCall (RecordCancellationIntent wid)) (\<lambda>_. ())) (\<lambda>_. bnd (cancel_current env wid r) (\<lambda>stepExecId.
        db env (\<lambda>ts. WorkflowCall (CancelStepAndWorkflow stepExecId wid (draft EvCancelled ts None (JObj [])))) (\<lambda>_. ()))))
      (\<lambda>_. terminal wid)"
      by (rule hoare_weaken [OF hoare_then [OF intent hoare_then [OF current last]]]) auto
  next
    fix x :: "workflow_row option" assume "x = None"
    then show "hoare X (\<lambda>s. has_row wid row s \<and> x = workflowRow s wid) (ret ()) (\<lambda>_. terminal wid)"
      by (intro hoare_ret) (auto simp: has_row_def)
  qed
qed

lemma hoare_free: "obeys moves m \<Longrightarrow> obeys (logs (\<lambda>_ _. True)) m \<Longrightarrow> steady P \<Longrightarrow> hoare (\<lambda>_ _. True) P m (\<lambda>_. P)"
  by (rule hoare_acts [where Y = "\<lambda>_ _. True"]) auto

lemma hoare_cancel_terminal:
  "hoare (\<lambda>_ _. True) (\<lambda>_. True) (cancelWorkflow env wid) (\<lambda>r _. \<exists>row. r = Some row \<and> isTerminalWorkflowStatus (wf_status row))"
proof -
  let ?X = "\<lambda>_ _. True" and ?T = "\<lambda>r _. \<exists>row. r = Some row \<and> isTerminalWorkflowStatus (wf_status row)"
  have settle: "hoare ?X (terminal wid) (settle_if_leased env wid) (\<lambda>_. terminal wid)"
    by (intro hoare_free nt.obeys_settle mv.obeys_settle steady_terminal) simp_all
  have final: "hoare ?X (terminal wid) (query env (\<lambda>s. workflowRow s wid)) ?T"
    by (rule hoare_read [OF steady_terminal]) (auto simp: terminal_def)
  have "hoare ?X (has_row wid row) (if isTerminalWorkflowStatus (wf_status row) then ret (Some row)
     else bnd (db env (\<lambda>ts. WorkflowCall (RecordCancellationIntent wid)) (\<lambda>_. ())) (\<lambda>_. bnd (abort_wait wid) (\<lambda>_.
       bnd (performCancellation env wid) (\<lambda>_. bnd (settle_if_leased env wid) (\<lambda>_. query env (\<lambda>s. workflowRow s wid)))))) ?T" for row
    by (intro hoare_if hoare_ret hoare_then [OF hoare_critical_db] steady_row hoare_then [OF hoare_quiet]
        nt.quiet_pumps mv.quiet_pumps hoare_bnd [OF hoare_performCancellation] hoare_then [OF settle] final) auto
  then show ?thesis
    unfolding cancelWorkflow_def by (intro hoare_row_read; unfold option.case) (auto intro: hoare_raise)
qed

text \<open>C7: a cancellation that returns has ended the workflow: the row it returns is completed, failed or
  cancelled, whatever ran concurrently.\<close>

theorem cancellation_is_terminal:
  assumes "cancelWorkflow env wid w = (Value r, w')"
  shows "\<exists>row. r = Some row \<and> isTerminalWorkflowStatus (wf_status row)"
  using hoareD_value [OF hoare_cancel_terminal _ assms] by simp

section \<open>Bounded waiting\<close>

lemma ext_result:
  assumes "\<And>n. \<not> e_crash env n" and "ext env a answer w = (r, w')"
  shows "w_tick w' = Suc (w_tick w) \<and> r = (case answer (w_tick w) of Inl e \<Rightarrow> Throws e | Inr x \<Rightarrow> Value x)"
  using assms by (auto simp: ext_def Let_def noted_def others_run_def split: sum.splits)

text \<open>once the task client reports the task as terminal, the wait of the driver ends: with fuel for the
  remaining polls it returns or throws, whatever transient failures came before.\<close>

theorem task_wait_ends:
  assumes "\<And>n. \<not> e_crash env n"
    and "\<And>n c. t \<le> n \<Longrightarrow> \<exists>r. e_wait env n taskId c = Inr r \<and> rd_terminal r"
    and "t - w_tick w < fuel"
  shows "fst (awaitTask fuel env row taskId cursor k w) \<noteq> Unfinished"
  using assms(3)
proof (induction fuel arbitrary: cursor k w)
  case (Suc fuel)
  let ?e = "ext env (WaitTask taskId cursor) (\<lambda>n. e_wait env n taskId cursor)"
  obtain r w1 where r: "?e w = (r, w1)" by fastforce
  note tick = ext_result [OF assms(1) r]
  have retry: "fst (bnd (backoff env k) (\<lambda>_. awaitTask fuel env row taskId cursor (k + 1)) w1) \<noteq> Unfinished"
    if "w_tick w < t" for k
  proof -
    obtain r2 w2 where r2: "backoff env k w1 = (r2, w2)" by fastforce
    from ext_result [OF assms(1) this [unfolded backoff_def]] have "w_tick w2 = Suc (w_tick w1)" "r2 = Value ()" by simp_all
    moreover have "t - w_tick w2 < fuel" using Suc.prems that tick calculation by linarith
    ultimately show ?thesis using Suc.IH r2 by (simp add: bnd_def)
  qed
  have again: "fst (awaitTask fuel env row taskId c 0 w1) \<noteq> Unfinished" if "w_tick w < t" for c
    using Suc.prems that tick by (intro Suc.IH) linarith
  show ?case
  proof (cases "e_wait env (w_tick w) taskId cursor")
    case (Inl e)
    then have "w_tick w < t" using assms(2) [of "w_tick w" cursor] by (cases "t \<le> w_tick w") auto
    then show ?thesis using r tick Inl retry
      by (simp add: branch_def ret_def bnd_def attempt_def raise_def)
  next
    case (Inr read)
    show ?thesis
    proof (cases "rd_terminal read")
      case False
      then have "w_tick w < t" using assms(2) [of "w_tick w" cursor] Inr by (cases "t \<le> w_tick w") auto
      then show ?thesis using r tick Inr False again by (simp add: branch_def ret_def bnd_def attempt_def)
    qed (use r tick Inr in \<open>simp add: branch_def ret_def bnd_def attempt_def\<close>)
  qed
qed simp

definition quiet_env :: env where
  "quiet_env = \<lparr>e_others = (\<lambda>_. []), e_crash = (\<lambda>_. False), e_stopped = (\<lambda>_. False), e_aborted = (\<lambda>_. False), e_now = int,
     e_iso = (\<lambda>_. sample_ts), e_db_iso = (\<lambda>_. sample_ts), e_random = (\<lambda>_. ''w''), e_date = (\<lambda>_. Some 0), e_sha = id,
     e_create = (\<lambda>_ _. Inr ''t''), e_wait = (\<lambda>n t c. if n < 2 then Inl TransientTask else Inr \<lparr>rd_task_id = t, rd_status = ''completed'',
       rd_terminal = True, rd_history_complete = True, rd_result_status = Some ''available'', rd_result_text = Some ''{}'', rd_next_event_id = 0\<rparr>),
     e_cancel = (\<lambda>_ _. Inr ()), e_has_leases = False, e_acquire = (\<lambda>_ _ _ _. Inl LeaseFailure), e_get = (\<lambda>_ _ _. Inl LeaseFailure),
     e_observe = (\<lambda>_ _ _. Inl LeaseFailure), e_release = (\<lambda>_ _ _. Inl LeaseFailure), e_inflight = (\<lambda>_ _. None),
     e_backoffBaseMs = 500, e_backoffMaxMs = 5000, e_maxReleaseAttempts = 8, e_resultIngestionDeadlineMs = 30000\<rparr>"

lemma quiet_env_simps [simp]:
  "e_others quiet_env n = []" "\<not> e_crash quiet_env n" "e_iso quiet_env n = sample_ts" "e_db_iso quiet_env n = sample_ts"
  "\<not> e_has_leases quiet_env"
  by (simp_all add: quiet_env_def)

theorem task_wait_ends_witness:
  "fst (awaitTask 3 quiet_env sample_workflow ''t'' 0 0 (fresh_world sample_store)) \<noteq> Unfinished"
  by (rule task_wait_ends [where t = 2]) (simp_all add: quiet_env_def fresh_world_def)

lemma cancel_sample: "\<exists>r w'. cancelWorkflow quiet_env ''w'' (fresh_world sample_store) = (Value r, w')"
  using sample_ts_iso
  by (simp add: cancelWorkflow_def performCancellation_def cancel_current_def settle_if_leased_def abort_wait_def bnd_def query_def db_def
      branch_def ret_def others_run_def stored_def noted_def Let_def fresh_world_def run_calls_def sample_defs sel_def
      recordCancellationIntent_def cancelStepAndWorkflow_def cancel_step_def store_of_def opened_def updateWorkflowSync_def workflow_patch_error_def
      no_wpatch_def upd_def apply_workflow_patch_def appendWorkflowEventAuto_def appendWorkflowEventSync_def draft_def event_scope_error_def
      isStepScopedEvent_def STEP_SCOPED_EVENT_TYPES_def encodeJson_def null_if_undef_def limit_workflow_event_payload_def byteLen_def)

theorem cancellation_is_terminal_witness:
  "\<exists>r w' row. cancelWorkflow quiet_env ''w'' (fresh_world sample_store) = (Value r, w') \<and> r = Some row \<and>
    isTerminalWorkflowStatus (wf_status row)"
  using cancel_sample cancellation_is_terminal by blast

section \<open>Creation\<close>

lemma save_context_row:
  "saveContextSync now i rv ctx s = Inr s' \<Longrightarrow> \<exists>r. workflowRow s i = Some r \<and>
    workflowRow s' i = Some (r\<lparr>wf_context := Some ctx, wf_context_revision := rv + 1, wf_updated_at := now\<rparr>)"
  by (auto simp: saveContextSync_def sel_upd split: if_splits)

lemma append_event_row:
  assumes "appendWorkflowEventAuto now i d s = Inr s'"
  shows "\<exists>r. workflowRow s i = Some r \<and>
    workflowRow s' i = Some (r\<lparr>wf_last_event_sequence := wf_last_event_sequence r + 1, wf_updated_at := now\<rparr>)"
  using assms
  by (auto simp: appendWorkflowEventAuto_def appendWorkflowEventSync_def sel_upd split: if_splits option.splits)

lemma lifecycle_row:
  assumes "createWorkflowWithLifecycleEvents now (create_input wid spec inputs) (JObj ctx) e1 e2 s = Inr s'"
  shows "workflowRow s wid = None \<and> (\<exists>r. workflowRow s' wid = Some r \<and> wf_id r = wid \<and> wf_status r = WReady \<and> wf_spec r = spec \<and>
    wf_current_round r = 1 \<and> wf_last_event_sequence r = 1 \<and> wf_started_at r = None)"
  using assms
  by (auto simp: createWorkflowWithLifecycleEvents_def opened_def createWorkflowSync_def create_input_def split: if_splits
      dest!: save_context_row append_event_row)

text \<open>C9: creation is all or nothing. A returned workflow is ready, in round 1, unstarted, with the created and
  validated events; its spec is valid, has a completion policy if it can complete, and its inputs
  are normalised. A refusal by the runtime happens before any await; a refusal by the store
  leaves the store as the other callers left it.\<close>

theorem creation_is_all_or_nothing:
  "case createWorkflow env spec inputValues w of
     (Value (wid, found), w') \<Rightarrow> spec_valid spec \<and> \<not> (isCompletableSpec spec \<and> fld spec ''completion_policy'' = JUndef) \<and>
       \<not> isl (normalizeInputValues spec inputValues) \<and> workflowRow (w_store (others_run env w)) wid = None \<and>
       (\<exists>r. found = Some r \<and> workflowRow (w_store w') wid = Some r \<and> wf_id r = wid \<and> wf_status r = WReady \<and> wf_spec r = spec \<and>
         wf_current_round r = 1 \<and> wf_last_event_sequence r = 1 \<and> wf_started_at r = None)
   | (Throws (StoreFailed e), w') \<Rightarrow> w_store w' = w_store (others_run env w)
   | (_, w') \<Rightarrow> w' = w"
  by (auto simp: createWorkflow_def raise_def bnd_def look_def db_def ret_def Let_def noted_def stored_def initial_context_def
      split: sum.split dest: lifecycle_row)

section \<open>Shutdown\<close>

text \<open>C8: a shutdown ends every pump: if the runtime is stopped from tick t on, the pump of a workflow returns, with
  fuel for the awaits until then, whatever the task client, the lease client and other callers do.\<close>

theorem shutdown_ends_every_pump:
  assumes "\<And>n. \<not> e_crash env n" and "\<And>n. t \<le> n \<Longrightarrow> e_stopped env n" and "t - w_tick w < fuel"
  shows "fst (pump fuel env wid w) = Value ()"
  using assms by (intro pump_returns [where t = t]) (simp_all add: stops_def)

theorem shutdown_ends_every_pump_witness:
  "fst (pump 6 (quiet_env\<lparr>e_stopped := \<lambda>n. 5 \<le> n, e_wait := \<lambda>_ _ _. Inl TransientTask\<rparr>) ''w'' (fresh_world sample_store)) = Value ()"
  by (rule shutdown_ends_every_pump [where t = 5]) (simp_all add: quiet_env_def fresh_world_def)

section \<open>Results\<close>



end
