(* ===== verification/NodeJournal.thy ===== *)
theory NodeJournal
  imports JsonParse StoreTables
begin

text \<open>
  The Node's run journal (\<open>src/node-journal\<close>): the durable log of a remote run's events, the
  results of runs, the exclusive workspace leases of which the Node is the authority, and the
  replay of a log to subscribers followed by its live events. An operation maps the journal to a
  result or an error and the journal it leaves: most errors leave it alone, but a run row that
  an operation creates before it fails stays. A subscriber's consumer is the list of events it
  was given; consumers that call back into the journal are not modelled.
\<close>

section \<open>Rows\<close>

text \<open>\<open>JournalErrorCode\<close> and \<open>WorkspaceLeaseErrorCode\<close>, and the driver's error for the unique index on leases.\<close>

datatype node_error =
    RunNotFound | RunEventConflict | RunEventGap | RunInvalid | RunCorruption | RunInvalidTransition | RunTooLarge
  | EventsPerRunExceeded | RunResultConflict | JournalClosed
  | LeaseConflicts | LeaseInvalid | LeaseIsReleased | LeaseRequired | LeaseInUse | IndexViolation

record run_row =
  rn_id :: string
  rn_created_at :: string
  rn_updated_at :: string
  rn_status :: string
  rn_terminal_at :: "string option"
  rn_last_sequence :: int
  rn_earliest_retained :: int
  rn_terminal :: bool
  rn_lease_id :: "string option"

record run_event_row =
  ne_run_id :: string
  ne_sequence :: int
  ne_type :: string
  ne_ts :: string
  ne_payload :: string
  ne_created_at :: string

record run_result_row =
  nr_run_id :: string
  nr_status :: string
  nr_text :: "string option"
  nr_exit_code :: "int option"
  nr_finalized_at :: "string option"
  nr_content_hash :: "string option"
  nr_evidence :: string
  nr_artifacts :: string
  nr_verification :: "string option"
  nr_created_at :: string

record node_lease_row =
  nl_id :: string
  nl_workflow_id :: string
  nl_node_id :: string
  nl_workspace_key :: string
  nl_status :: lease_status
  nl_acquired_at :: "string option"
  nl_release_requested_at :: "string option"
  nl_released_at :: "string option"
  nl_base_revision :: "string option"
  nl_current_revision :: "string option"
  nl_created_at :: string
  nl_updated_at :: string

record revision_row =
  ob_id :: string
  ob_lease_id :: string
  ob_step_execution_id :: "string option"
  ob_phase :: string
  ob_revision :: string
  ob_created_at :: string

text \<open>An event as it is offered and as it is delivered.\<close>

record run_event_input =
  ri_type :: string
  ri_timestamp :: string
  ri_payload :: jsval
  ri_terminal :: bool
  ri_status :: "string option"

record run_event =
  re_run_id :: string
  re_sequence :: int
  re_type :: string
  re_timestamp :: string
  re_payload :: jsval

text \<open>A subscriber; \<open>su_delivered\<close> is what its consumer was given, \<open>su_registered\<close> whether it is in the map of subscribers,
  \<open>su_draining\<close> whether the callback that empties its queue is scheduled.\<close>

record sub =
  su_run_id :: string
  su_cutoff :: int
  su_max_queue :: nat
  su_queue :: "run_event list"
  su_draining :: bool
  su_overflowed :: bool
  su_closed :: bool
  su_registered :: bool
  su_delivered :: "run_event list"

record journal =
  nj_runs :: "run_row list"
  nj_events :: "run_event_row list"
  nj_results :: "run_result_row list"
  nj_leases :: "node_lease_row list"
  nj_revisions :: "revision_row list"
  nj_subs :: "sub list"
  nj_closed :: bool

definition empty_journal :: journal where
  "empty_journal = \<lparr>nj_runs = [], nj_events = [], nj_results = [], nj_leases = [], nj_revisions = [], nj_subs = [], nj_closed = False\<rparr>"

type_synonym 'a jop = "journal \<Rightarrow> (node_error + 'a) \<times> journal"

abbreviation runRow :: "journal \<Rightarrow> string \<Rightarrow> run_row option" where
  "runRow j i \<equiv> sel rn_id i (nj_runs j)"

abbreviation nodeLeaseRow :: "journal \<Rightarrow> string \<Rightarrow> node_lease_row option" where
  "nodeLeaseRow j i \<equiv> sel nl_id i (nj_leases j)"

abbreviation runResultRow :: "journal \<Rightarrow> string \<Rightarrow> run_result_row option" where
  "runResultRow j i \<equiv> sel nr_run_id i (nj_results j)"

section \<open>Composing operations\<close>

definition jret :: "'a \<Rightarrow> 'a jop" where
  "jret x j = (Inr x, j)"

definition jfail :: "node_error \<Rightarrow> 'a jop" where
  "jfail e j = (Inl e, j)"

definition jbind :: "'a jop \<Rightarrow> ('a \<Rightarrow> 'b jop) \<Rightarrow> 'b jop" where
  "jbind m f j = (case m j of (Inl e, j') \<Rightarrow> (Inl e, j') | (Inr x, j') \<Rightarrow> f x j')"

definition jread :: "(journal \<Rightarrow> node_error + 'a) \<Rightarrow> 'a jop" where
  "jread g j = (g j, j)"

definition jwrite :: "(journal \<Rightarrow> journal) \<Rightarrow> unit jop" where
  "jwrite f j = (Inr (), f j)"

text \<open>\<open>this.open()\<close> and \<open>db.transaction\<close>\<close>

definition jopen :: "'a jop \<Rightarrow> 'a jop" where
  "jopen m j = (if nj_closed j then (Inl JournalClosed, j) else m j)"

definition transaction :: "'a jop \<Rightarrow> 'a jop" where
  "transaction m j = (case m j of (Inl e, j') \<Rightarrow> (Inl e, j) | (Inr x, j') \<Rightarrow> (Inr x, j'))"

section \<open>Serialisation\<close>

definition limit_event_payload :: nat where "limit_event_payload = 256 * 1024"
definition limit_events_per_run :: int where "limit_events_per_run = 200000"

definition NODE_RUN_EVENT_TYPES :: "string list" where
  "NODE_RUN_EVENT_TYPES = [''status'', ''log'', ''approval_required'', ''approval_response'', ''tool_call'', ''pr_created'', ''error'']"

definition RUN_TERMINAL_STATUSES :: "string list" where
  "RUN_TERMINAL_STATUSES = [''completed'', ''failed'', ''stopped'', ''cancelled'']"

definition journal_encode :: "jsval \<Rightarrow> nat \<Rightarrow> node_error + string" where
  "journal_encode v maxBytes = (case stringify v of
      None \<Rightarrow> Inl RunInvalid
    | Some t \<Rightarrow> if byteLen t > maxBytes then Inl RunTooLarge else Inr t)"

definition journal_decode :: "string \<Rightarrow> nat \<Rightarrow> node_error + jsval" where
  "journal_decode t maxBytes = (if byteLen t > maxBytes then Inl RunCorruption
     else (case json_parse t of None \<Rightarrow> Inl RunCorruption | Some v \<Rightarrow> Inr v))"

section \<open>Capture\<close>

definition new_run :: "string \<Rightarrow> string \<Rightarrow> string \<Rightarrow> run_row" where
  "new_run now rid status = \<lparr>rn_id = rid, rn_created_at = now, rn_updated_at = now, rn_status = status, rn_terminal_at = None,
     rn_last_sequence = -1, rn_earliest_retained = 0, rn_terminal = False, rn_lease_id = None\<rparr>"

definition ensureRun :: "string \<Rightarrow> string \<Rightarrow> string \<Rightarrow> run_row jop" where
  "ensureRun now rid status = jopen (\<lambda>j.
     if \<not> isSafeId rid then (Inl RunInvalid, j)
     else (case runRow j rid of
         Some r \<Rightarrow> (Inr r, j)
       | None \<Rightarrow> (Inr (new_run now rid status), j\<lparr>nj_runs := nj_runs j @ [new_run now rid status]\<rparr>)))"

definition validate_event :: "run_event_input \<Rightarrow> node_error + string" where
  "validate_event e =
    (if ri_type e \<notin> set NODE_RUN_EVENT_TYPES then Inl RunInvalid
     else if \<not> iso_utc (ri_timestamp e) then Inl RunInvalid
     else journal_encode (if ri_payload e = JUndef then JNull else ri_payload e) limit_event_payload)"

definition event_row_of :: "string \<Rightarrow> string \<Rightarrow> int \<Rightarrow> run_event_input \<Rightarrow> string \<Rightarrow> run_event_row" where
  "event_row_of now rid q e payload = \<lparr>ne_run_id = rid, ne_sequence = q, ne_type = ri_type e, ne_ts = ri_timestamp e,
     ne_payload = payload, ne_created_at = now\<rparr>"

definition advance_run :: "string \<Rightarrow> int \<Rightarrow> run_event_input \<Rightarrow> run_row \<Rightarrow> run_row" where
  "advance_run now q e r = r\<lparr>rn_last_sequence := q, rn_updated_at := now,
     rn_status := (case ri_status e of Some x \<Rightarrow> x | None \<Rightarrow> if ri_terminal e then ''completed'' else rn_status r),
     rn_terminal_at := (if ri_terminal e then Some now else rn_terminal_at r),
     rn_terminal := (ri_terminal e \<or> rn_terminal r)\<rparr>"

definition insertEvent :: "string \<Rightarrow> string \<Rightarrow> int \<Rightarrow> run_event_input \<Rightarrow> run_event jop" where
  "insertEvent now rid q e j =
    (if q \<ge> limit_events_per_run then (Inl EventsPerRunExceeded, j)
     else (case validate_event e of
         Inl x \<Rightarrow> (Inl x, j)
       | Inr payload \<Rightarrow> (Inr \<lparr>re_run_id = rid, re_sequence = q, re_type = ri_type e, re_timestamp = ri_timestamp e, re_payload = ri_payload e\<rparr>,
           j\<lparr>nj_events := nj_events j @ [event_row_of now rid q e payload],
             nj_runs := upd rn_id rid (advance_run now q e) (nj_runs j)\<rparr>)))"

text \<open>Live delivery: an event above the subscriber's cutoff is queued; a queue above its bound drops the
  subscriber.\<close>

definition overflow :: "sub \<Rightarrow> sub" where
  "overflow s = s\<lparr>su_overflowed := True, su_queue := [], su_registered := False\<rparr>"

definition offer :: "run_event \<Rightarrow> sub \<Rightarrow> sub" where
  "offer e s =
    (if \<not> su_registered s \<or> su_run_id s \<noteq> re_run_id e then s
     else if su_closed s \<or> su_overflowed s then s
     else if re_sequence e \<le> su_cutoff s then s
     else if length (su_queue s @ [e]) > su_max_queue s then overflow s
     else s\<lparr>su_queue := su_queue s @ [e], su_draining := True\<rparr>)"

definition fanout :: "run_event \<Rightarrow> journal \<Rightarrow> journal" where
  "fanout e j = j\<lparr>nj_subs := map (offer e) (nj_subs j)\<rparr>"

definition append_event :: "string \<Rightarrow> string \<Rightarrow> run_event_input \<Rightarrow> run_event jop" where
  "append_event now rid e = jopen (jbind (ensureRun now rid ''running'') (\<lambda>r.
     if rn_terminal r then jfail RunInvalidTransition
     else jbind (insertEvent now rid (rn_last_sequence r + 1) e) (\<lambda>ev. jbind (jwrite (fanout ev)) (\<lambda>_. jret ev))))"

definition toEvent :: "run_event_row \<Rightarrow> node_error + run_event" where
  "toEvent r = and_then (journal_decode (ne_payload r) limit_event_payload) (\<lambda>v.
     Inr \<lparr>re_run_id = ne_run_id r, re_sequence = ne_sequence r, re_type = ne_type r, re_timestamp = ne_ts r, re_payload = v\<rparr>)"

definition events_of_run :: "journal \<Rightarrow> string \<Rightarrow> run_event_row list" where
  "events_of_run j rid = filter (\<lambda>r. ne_run_id r = rid) (nj_events j)"

text \<open>The event at a sequence the journal already passed: the same event again, or an error.\<close>

definition replayed :: "string \<Rightarrow> int \<Rightarrow> run_event_input \<Rightarrow> string \<Rightarrow> journal \<Rightarrow> node_error + run_event" where
  "replayed rid q e payload j = (case sel ne_sequence q (events_of_run j rid) of
      None \<Rightarrow> Inl RunEventGap
    | Some r \<Rightarrow> if ne_type r \<noteq> ri_type e \<or> ne_ts r \<noteq> ri_timestamp e \<or> ne_payload r \<noteq> payload then Inl RunEventConflict else toEvent r)"

definition appendAt :: "string \<Rightarrow> string \<Rightarrow> int \<Rightarrow> run_event_input \<Rightarrow> (run_event \<times> bool) jop" where
  "appendAt now rid q e = jopen (jbind (ensureRun now rid ''running'') (\<lambda>r.
     if q < 0 then jfail RunInvalid
     else (case validate_event e of
         Inl x \<Rightarrow> jfail x
       | Inr payload \<Rightarrow>
           if q \<le> rn_last_sequence r then jread (\<lambda>j. and_then (replayed rid q e payload j) (\<lambda>ev. Inr (ev, True)))
           else if q \<noteq> rn_last_sequence r + 1 then jfail RunEventGap
           else if rn_terminal r then jfail RunInvalidTransition
           else jbind (insertEvent now rid q e) (\<lambda>ev. jbind (jwrite (fanout ev)) (\<lambda>_. jret (ev, False))))))"

definition markStatus :: "string \<Rightarrow> string \<Rightarrow> string \<Rightarrow> string option \<Rightarrow> unit jop" where
  "markStatus now rid status terminalAt = jopen (\<lambda>j. case runRow j rid of
      None \<Rightarrow> (Inl RunNotFound, j)
    | Some r \<Rightarrow>
        if rn_terminal r \<and> status \<notin> set RUN_TERMINAL_STATUSES then (Inl RunInvalidTransition, j)
        else (Inr (), j\<lparr>nj_runs := upd rn_id rid (\<lambda>r. r\<lparr>rn_status := status, rn_updated_at := now,
            rn_terminal_at := (case terminalAt of None \<Rightarrow> rn_terminal_at r | Some t \<Rightarrow> Some t)\<rparr>) (nj_runs j)\<rparr>))"

section \<open>Workspace leases\<close>

definition live_lease :: "node_lease_row \<Rightarrow> bool" where
  "live_lease l = (nl_status l = LAcquiring \<or> nl_status l = LActive \<or> nl_status l = LReleaseRequested)"

definition activeLeaseRow :: "journal \<Rightarrow> string \<Rightarrow> string \<Rightarrow> node_lease_row option" where
  "activeLeaseRow j node key = find (\<lambda>l. nl_node_id l = node \<and> nl_workspace_key l = key \<and> live_lease l) (nj_leases j)"

text \<open>The partial unique index \<open>idx_ws_lease_active\<close>.\<close>

definition lease_index :: "node_lease_row list \<Rightarrow> bool" where
  "lease_index ls = distinct (map (\<lambda>l. (nl_node_id l, nl_workspace_key l)) (filter live_lease ls))"

definition write_leases :: "(node_lease_row list \<Rightarrow> node_lease_row list) \<Rightarrow> unit jop" where
  "write_leases f j = (if lease_index (f (nj_leases j)) then (Inr (), j\<lparr>nj_leases := f (nj_leases j)\<rparr>) else (Inl IndexViolation, j))"

text \<open>A lease as the journal hands it out: the stored revisions are parsed and checked again.\<close>

record node_lease =
  le_row :: node_lease_row
  le_base_revision :: "jsval option"
  le_current_revision :: "jsval option"

definition read_revision :: "string option \<Rightarrow> node_error + jsval option" where
  "read_revision t = (case t of None \<Rightarrow> Inr None
     | Some x \<Rightarrow> if x = [] then Inr None
         else and_then (journal_decode x limit_event_payload) (\<lambda>v. if isValidRevision v then Inr (Some v) else Inl RunCorruption))"

text \<open>\<open>/^[A-Za-z0-9][A-Za-z0-9._-]{0,127}$/\<close>; a row's mode and status are valid by their types.\<close>

definition WORKSPACE_KEY_RE :: "string \<Rightarrow> bool" where
  "WORKSPACE_KEY_RE = id_like is_alnum (\<lambda>c. is_alnum c \<or> c = CHR ''.'' \<or> c = CHR ''_'' \<or> c = CHR ''-'') 127"

definition isValidLease :: "node_lease_row \<Rightarrow> bool" where
  "isValidLease l = (nl_id l \<noteq> [] \<and> nl_workflow_id l \<noteq> [] \<and> nl_node_id l \<noteq> [] \<and> WORKSPACE_KEY_RE (nl_workspace_key l))"

definition toLease :: "node_lease_row \<Rightarrow> node_error + node_lease" where
  "toLease l = and_then (read_revision (nl_base_revision l)) (\<lambda>b. and_then (read_revision (nl_current_revision l)) (\<lambda>c.
     if isValidLease l then Inr \<lparr>le_row = l, le_base_revision = b, le_current_revision = c\<rparr> else Inl RunCorruption))"

definition lease_as_read :: "string \<Rightarrow> node_lease jop" where
  "lease_as_read leaseId = jread (\<lambda>j. case nodeLeaseRow j leaseId of None \<Rightarrow> Inl RunCorruption | Some l \<Rightarrow> toLease l)"

definition activate :: "string \<Rightarrow> string \<Rightarrow> node_lease_row \<Rightarrow> node_lease_row" where
  "activate now rev_text l = l\<lparr>nl_status := LActive, nl_acquired_at := Some now, nl_release_requested_at := None, nl_released_at := None,
     nl_base_revision := Some rev_text, nl_current_revision := Some rev_text, nl_updated_at := now\<rparr>"

definition new_lease :: "string \<Rightarrow> string \<Rightarrow> string \<Rightarrow> string \<Rightarrow> string \<Rightarrow> string \<Rightarrow> node_lease_row" where
  "new_lease now leaseId workflowId nodeId key rev_text = \<lparr>nl_id = leaseId, nl_workflow_id = workflowId, nl_node_id = nodeId,
     nl_workspace_key = key, nl_status = LActive, nl_acquired_at = Some now, nl_release_requested_at = None, nl_released_at = None,
     nl_base_revision = Some rev_text, nl_current_revision = Some rev_text, nl_created_at = now, nl_updated_at = now\<rparr>"

definition acquire_body :: "string \<Rightarrow> string \<Rightarrow> string \<Rightarrow> string \<Rightarrow> string \<Rightarrow> string \<Rightarrow> (node_lease \<times> bool) jop" where
  "acquire_body now leaseId workflowId nodeId key rev_text j =
    (case nodeLeaseRow j leaseId of
       Some l \<Rightarrow>
         if live_lease l then (and_then (toLease l) (\<lambda>x. Inr (x, False)), j)
         else if \<exists>x\<in>set_option (activeLeaseRow j nodeId key). nl_id x \<noteq> leaseId then (Inl LeaseConflicts, j)
         else jbind (write_leases (upd nl_id leaseId (activate now rev_text))) (\<lambda>_. jbind (lease_as_read leaseId) (\<lambda>x. jret (x, True))) j
     | None \<Rightarrow>
         if \<exists>x\<in>set_option (activeLeaseRow j nodeId key). nl_id x \<noteq> leaseId then (Inl LeaseConflicts, j)
         else jbind (write_leases (\<lambda>ls. ls @ [new_lease now leaseId workflowId nodeId key rev_text])) (\<lambda>_.
           jbind (lease_as_read leaseId) (\<lambda>x. jret (x, True))) j)"

definition acquire_attempt :: "string \<Rightarrow> string \<Rightarrow> string \<Rightarrow> string \<Rightarrow> string \<Rightarrow> string \<Rightarrow> (node_lease \<times> bool) jop" where
  "acquire_attempt now leaseId workflowId nodeId key rev_text = transaction (acquire_body now leaseId workflowId nodeId key rev_text)"

text \<open>The second attempt is for a race with another connection; within one process it meets the same journal.\<close>

definition acquireWorkspaceLease :: "(string \<Rightarrow> string) \<Rightarrow> string \<Rightarrow> string \<Rightarrow> string \<Rightarrow> string \<Rightarrow> jsval \<Rightarrow> (node_lease \<times> bool) jop" where
  "acquireWorkspaceLease sha now workflowId nodeId key baseRevision = jopen (
     let leaseId = workspaceLeaseId sha workflowId nodeId key in
     case journal_encode baseRevision limit_event_payload of
       Inl e \<Rightarrow> jfail e
     | Inr rev_text \<Rightarrow> (\<lambda>j. case acquire_attempt now leaseId workflowId nodeId key rev_text j of
           (Inl IndexViolation, j') \<Rightarrow>
             if \<exists>x\<in>set_option (activeLeaseRow j' nodeId key). nl_id x \<noteq> leaseId then (Inl LeaseConflicts, j')
             else acquire_attempt now leaseId workflowId nodeId key rev_text j'
         | r \<Rightarrow> r))"

definition getWorkspaceLease :: "string \<Rightarrow> node_lease option jop" where
  "getWorkspaceLease leaseId = jopen (jread (\<lambda>j. case nodeLeaseRow j leaseId of None \<Rightarrow> Inr None
     | Some l \<Rightarrow> and_then (toLease l) (\<lambda>x. Inr (Some x))))"

definition getActiveWorkspaceLease :: "string \<Rightarrow> string \<Rightarrow> node_lease option jop" where
  "getActiveWorkspaceLease nodeId key = jopen (jread (\<lambda>j. case activeLeaseRow j nodeId key of None \<Rightarrow> Inr None
     | Some l \<Rightarrow> and_then (toLease l) (\<lambda>x. Inr (Some x))))"

text \<open>A run counts as in progress until its terminal event is in the journal.\<close>

definition isLeaseInUse :: "string \<Rightarrow> journal \<Rightarrow> bool" where
  "isLeaseInUse leaseId j = list_ex (\<lambda>r. rn_lease_id r = Some leaseId \<and> \<not> rn_terminal r) (nj_runs j)"

definition releaseWorkspaceLease :: "string \<Rightarrow> string \<Rightarrow> node_lease jop" where
  "releaseWorkspaceLease now leaseId = jopen (transaction (\<lambda>j. case nodeLeaseRow j leaseId of
      None \<Rightarrow> (Inl LeaseInvalid, j)
    | Some l \<Rightarrow>
        if nl_status l = LReleased then (toLease l, j)
        else if isLeaseInUse leaseId j then (Inl LeaseInUse, j)
        else jbind (write_leases (upd nl_id leaseId (\<lambda>l. l\<lparr>nl_status := LReleased, nl_released_at := Some now, nl_updated_at := now\<rparr>)))
          (\<lambda>_. lease_as_read leaseId) j))"

definition given :: "string option \<Rightarrow> bool" where
  "given x = (x \<noteq> None \<and> x \<noteq> Some [])"

definition bindRunToLease :: "string \<Rightarrow> string \<Rightarrow> string \<Rightarrow> unit jop" where
  "bindRunToLease now rid leaseId = jopen (if \<not> isSafeId rid then jfail RunInvalid
     else transaction (jbind (ensureRun now rid ''running'') (\<lambda>r.
       if given (rn_lease_id r) \<and> rn_lease_id r \<noteq> Some leaseId then jfail LeaseConflicts
       else if \<not> given (rn_lease_id r) then
         jwrite (\<lambda>j. j\<lparr>nj_runs := upd rn_id rid (\<lambda>r. r\<lparr>rn_lease_id := Some leaseId, rn_updated_at := now\<rparr>) (nj_runs j)\<rparr>)
       else jret ())))"

definition validateWorkspaceLeaseForRun :: "string \<Rightarrow> string \<Rightarrow> string option \<Rightarrow> unit jop" where
  "validateWorkspaceLeaseForRun nodeId key presented = jopen (jread (\<lambda>j.
     if given presented then
       (case activeLeaseRow j nodeId key of
          None \<Rightarrow> Inl (if \<exists>l\<in>set_option (nodeLeaseRow j (the presented)). nl_status l = LReleased then LeaseIsReleased else LeaseInvalid)
        | Some l \<Rightarrow> if presented \<noteq> Some (nl_id l) then Inl LeaseInvalid else Inr ())
     else if activeLeaseRow j nodeId key \<noteq> None then Inl LeaseRequired
     else Inr ()))"

definition recordWorkspaceRevision :: "string \<Rightarrow> string \<Rightarrow> string \<Rightarrow> string option \<Rightarrow> string \<Rightarrow> jsval \<Rightarrow> string jop" where
  "recordWorkspaceRevision now observation leaseId stepExecutionId phase revision = jopen (transaction (\<lambda>j.
     case nodeLeaseRow j leaseId of
       None \<Rightarrow> (Inl LeaseInvalid, j)
     | Some l \<Rightarrow> (case journal_encode revision limit_event_payload of
         Inl e \<Rightarrow> (Inl e, j)
       | Inr t \<Rightarrow> if observation \<in> ob_id ` set (nj_revisions j) then (Inl IndexViolation, j) else (Inr observation, j\<lparr>
           nj_revisions := nj_revisions j @ [\<lparr>ob_id = observation, ob_lease_id = leaseId, ob_step_execution_id = stepExecutionId,
             ob_phase = phase, ob_revision = t, ob_created_at = now\<rparr>],
           nj_leases := upd nl_id leaseId (\<lambda>l. l\<lparr>nl_current_revision := Some t, nl_updated_at := now\<rparr>) (nj_leases j)\<rparr>))))"

section \<open>Results\<close>

definition encode_refs :: "jsval list \<Rightarrow> node_error + string" where
  "encode_refs rs = journal_encode (JArr rs) (256 * 1024)"

definition encode_verification :: "task_verification option \<Rightarrow> node_error + string option" where
  "encode_verification v = (case v of None \<Rightarrow> Inr None
     | Some tv \<Rightarrow> and_then (journal_encode (verification_json tv) (256 * 1024)) (\<lambda>t. Inr (Some t)))"

text \<open>The comparison stops at the first difference, so a reference list too large to print is an error only where it is reached.\<close>

definition resultMatches :: "run_result_row \<Rightarrow> string \<Rightarrow> task_result option \<Rightarrow> node_error + bool" where
  "resultMatches row status result =
    (if nr_status row \<noteq> status then Inr False
     else (case result of
         None \<Rightarrow> Inr (nr_content_hash row = None)
       | Some r \<Rightarrow>
           if nr_content_hash row \<noteq> Some (tr_content_hash r) then Inr False
           else if (case nr_text row of None \<Rightarrow> [] | Some t \<Rightarrow> t) \<noteq> tr_text r then Inr False
           else if nr_exit_code row \<noteq> tr_exit_code r then Inr False
           else and_then (encode_refs (tr_evidence_refs r)) (\<lambda>e. if nr_evidence row \<noteq> e then Inr False
             else and_then (encode_refs (tr_artifact_refs r)) (\<lambda>a. if nr_artifacts row \<noteq> a then Inr False
               else and_then (encode_verification (tr_verification r)) (\<lambda>v. Inr (nr_verification row = v))))))"

definition result_row_of :: "string \<Rightarrow> string \<Rightarrow> string \<Rightarrow> task_result option \<Rightarrow> node_error + run_result_row" where
  "result_row_of now rid status result = (case result of
      None \<Rightarrow> Inr \<lparr>nr_run_id = rid, nr_status = status, nr_text = None, nr_exit_code = None, nr_finalized_at = None, nr_content_hash = None,
        nr_evidence = ''[]'', nr_artifacts = ''[]'', nr_verification = None, nr_created_at = now\<rparr>
    | Some r \<Rightarrow>
        if byteLen (tr_text r) > MAX_FINAL_OUTPUT_BYTES then Inl RunTooLarge
        else and_then (encode_refs (tr_evidence_refs r)) (\<lambda>e. and_then (encode_refs (tr_artifact_refs r)) (\<lambda>a.
          and_then (encode_verification (tr_verification r)) (\<lambda>v.
            Inr \<lparr>nr_run_id = rid, nr_status = status, nr_text = Some (tr_text r), nr_exit_code = tr_exit_code r,
              nr_finalized_at = Some (tr_finalized_at r), nr_content_hash = Some (tr_content_hash r), nr_evidence = e,
              nr_artifacts = a, nr_verification = v, nr_created_at = now\<rparr>))))"

definition persistRunResult :: "string \<Rightarrow> string \<Rightarrow> string \<Rightarrow> task_result option \<Rightarrow> bool jop" where
  "persistRunResult now rid status result = jopen (if \<not> isSafeId rid then jfail RunInvalid
     else transaction (jbind (ensureRun now rid ''running'') (\<lambda>_ j. case runResultRow j rid of
         Some row \<Rightarrow> (and_then (resultMatches row status result) (\<lambda>same. if same then Inr False else Inl RunResultConflict), j)
       | None \<Rightarrow> (case result_row_of now rid status result of
           Inl e \<Rightarrow> (Inl e, j)
         | Inr row \<Rightarrow> (Inr True, j\<lparr>nj_results := nj_results j @ [row]\<rparr>)))))"

definition stored_result_json :: "run_result_row \<Rightarrow> node_error + jsval" where
  "stored_result_json row = and_then (journal_decode (nr_evidence row) (256 * 1024)) (\<lambda>e.
     and_then (journal_decode (nr_artifacts row) (256 * 1024)) (\<lambda>a.
     and_then (case nr_verification row of None \<Rightarrow> Inr [] | Some t \<Rightarrow> and_then (journal_decode t (256 * 1024)) (\<lambda>v. Inr [(''verification'', v)])) (\<lambda>v.
       Inr (JObj ([(''schema_version'', JStr ''1''),
         (''final_output'', JObj [(''kind'', JStr ''text''), (''text'', JStr (case nr_text row of None \<Rightarrow> [] | Some t \<Rightarrow> t))]),
         (''process_exit_code'', case nr_exit_code row of None \<Rightarrow> JNull | Some n \<Rightarrow> JNum (NInt n)),
         (''finalized_at'', JStr (case nr_finalized_at row of None \<Rightarrow> [] | Some t \<Rightarrow> t)),
         (''content_hash'', JStr (case nr_content_hash row of None \<Rightarrow> [] | Some t \<Rightarrow> t)),
         (''evidence_refs'', e), (''artifact_refs'', a)] @ v)))))"

definition getRunResult :: "(string \<Rightarrow> string) \<Rightarrow> string \<Rightarrow> (string \<times> task_result option) option jop" where
  "getRunResult sha rid = jopen (jread (\<lambda>j. case runResultRow j rid of
      None \<Rightarrow> Inr None
    | Some row \<Rightarrow>
        if nr_status row \<noteq> ''available'' then Inr (Some (nr_status row, None))
        else and_then (stored_result_json row) (\<lambda>v. case validateTaskResult sha v of
            Inl _ \<Rightarrow> Inl RunCorruption
          | Inr r \<Rightarrow> Inr (Some (''available'', Some r)))))"

section \<open>Reads and subscriptions\<close>

fun decode_events :: "run_event_row list \<Rightarrow> node_error + run_event list" where
  "decode_events [] = Inr []"
| "decode_events (r # rs) = and_then (toEvent r) (\<lambda>e. and_then (decode_events rs) (\<lambda>es. Inr (e # es)))"

definition default_read_limit :: nat where
  "default_read_limit = 100000"

definition readEvents :: "string \<Rightarrow> int \<Rightarrow> nat \<Rightarrow> run_event list jop" where
  "readEvents rid afterSequence limit = jopen (jread (\<lambda>j.
     decode_events (take limit (sort_key ne_sequence (filter (\<lambda>r. ne_sequence r > afterSequence) (events_of_run j rid))))))"

record replay_metadata =
  rm_earliest :: int
  rm_latest :: int
  rm_complete :: bool
  rm_status :: string
  rm_terminal :: bool

definition replayMetadata :: "string \<Rightarrow> int \<Rightarrow> replay_metadata option jop" where
  "replayMetadata rid afterSequence = jopen (jread (\<lambda>j. Inr (map_option (\<lambda>r.
     \<lparr>rm_earliest = rn_earliest_retained r, rm_latest = rn_last_sequence r, rm_complete = (afterSequence + 1 \<ge> rn_earliest_retained r),
      rm_status = rn_status r, rm_terminal = rn_terminal r\<rparr>) (runRow j rid))))"

text \<open>The subscriber is registered with the replay delivered; its number is its place in the list.\<close>

definition subscribe :: "string \<Rightarrow> int \<Rightarrow> nat \<Rightarrow> nat jop" where
  "subscribe rid afterSequence maxQueue = jopen (jbind (replayMetadata rid afterSequence) (\<lambda>meta.
     jbind (readEvents rid afterSequence default_read_limit) (\<lambda>replay j.
       (Inr (length (nj_subs j)), j\<lparr>nj_subs := nj_subs j @ [\<lparr>su_run_id = rid,
          su_cutoff = (case meta of None \<Rightarrow> afterSequence | Some m \<Rightarrow> rm_latest m), su_max_queue = maxQueue, su_queue = [],
          su_draining = False, su_overflowed = False, su_closed = False, su_registered = True, su_delivered = replay\<rparr>]\<rparr>))))"

text \<open>The callback that \<open>scheduleDrain\<close> sets: it hands over the queue unless the subscriber is gone.\<close>

definition drained :: "sub \<Rightarrow> sub" where
  "drained s = (if su_closed s \<or> su_overflowed s then s\<lparr>su_draining := False\<rparr>
     else s\<lparr>su_draining := False, su_delivered := su_delivered s @ su_queue s, su_queue := []\<rparr>)"

definition at_sub :: "nat \<Rightarrow> (sub \<Rightarrow> sub) \<Rightarrow> journal \<Rightarrow> journal" where
  "at_sub i f j = (if i < length (nj_subs j) then j\<lparr>nj_subs := (nj_subs j)[i := f (nj_subs j ! i)]\<rparr> else j)"

definition drain :: "nat \<Rightarrow> unit jop" where
  "drain i = jwrite (at_sub i (\<lambda>s. if su_draining s then drained s else s))"

definition close_sub :: "nat \<Rightarrow> unit jop" where
  "close_sub i = jwrite (at_sub i (\<lambda>s. s\<lparr>su_closed := True, su_registered := False\<rparr>))"

definition close_journal :: "unit jop" where
  "close_journal = jwrite (\<lambda>j. if nj_closed j then j
     else j\<lparr>nj_subs := map (\<lambda>s. if su_registered s then s\<lparr>su_closed := True, su_registered := False\<rparr> else s) (nj_subs j), nj_closed := True\<rparr>)"

section \<open>Retention\<close>

definition expired_run :: "string \<Rightarrow> run_row \<Rightarrow> bool" where
  "expired_run olderThan r = (rn_terminal r \<and> (case rn_terminal_at r of None \<Rightarrow> False | Some t \<Rightarrow> t < olderThan))"

text \<open>The foreign keys of events and results delete with their run.\<close>

definition pruneTerminalRuns :: "string \<Rightarrow> nat jop" where
  "pruneTerminalRuns olderThan = jopen (\<lambda>j.
     let gone = rn_id ` set (filter (expired_run olderThan) (nj_runs j))
     in (Inr (length (filter (expired_run olderThan) (nj_runs j))), j\<lparr>nj_runs := filter (\<lambda>r. \<not> expired_run olderThan r) (nj_runs j),
          nj_events := filter (\<lambda>e. ne_run_id e \<notin> gone) (nj_events j), nj_results := filter (\<lambda>r. nr_run_id r \<notin> gone) (nj_results j)\<rparr>))"

definition pruneRunEvents :: "string \<Rightarrow> int \<Rightarrow> nat jop" where
  "pruneRunEvents rid keepLast = jopen (\<lambda>j.
     if keepLast < 0 then (Inl RunInvalid, j)
     else (case cutoff (nat keepLast) (map ne_sequence (events_of_run j rid)) of
         None \<Rightarrow> (Inr 0, j)
       | Some c \<Rightarrow>
           (let dropped = (\<lambda>e. ne_run_id e = rid \<and> ne_sequence e \<le> c);
                kept = filter (\<lambda>e. \<not> dropped e) (nj_events j);
                earliest = min_seq (map ne_sequence (filter (\<lambda>e. ne_run_id e = rid) kept))
            in (Inr (length (filter dropped (nj_events j))), j\<lparr>nj_events := kept,
                  nj_runs := (case earliest of None \<Rightarrow> nj_runs j
                    | Some m \<Rightarrow> upd rn_id rid (\<lambda>r. r\<lparr>rn_earliest_retained := m\<rparr>) (nj_runs j))\<rparr>))))"

end
