(* ===== verification/NodeJournalFacts.thy ===== *)
theory NodeJournalFacts
  imports NodeJournal Retention
begin

text \<open>
  Histories of the Node journal and what they preserve. \<open>journal_relation\<close> is the interface of the
  journal's writes: a relation between journals that each single write respects is respected by
  every operation, whatever its outcome.
\<close>

section \<open>Histories\<close>

datatype journal_call =
    EnsureRun string string string
  | AppendEvent string string run_event_input
  | AppendAt string string int run_event_input
  | MarkStatus string string string "string option"
  | AcquireNodeLease string string string string jsval
  | ReleaseNodeLease string string
  | BindRun string string string
  | RecordNodeRevision string string string "string option" string jsval
  | PersistResult string string string "task_result option"
  | Subscribe string int nat
  | Drain nat
  | CloseSub nat
  | CloseJournal
  | PruneRuns string
  | PruneRunEvents string int

fun journal_step :: "(string \<Rightarrow> string) \<Rightarrow> journal_call \<Rightarrow> journal \<Rightarrow> journal" where
  "journal_step sha (EnsureRun now rid st) j = snd (ensureRun now rid st j)"
| "journal_step sha (AppendEvent now rid e) j = snd (append_event now rid e j)"
| "journal_step sha (AppendAt now rid q e) j = snd (appendAt now rid q e j)"
| "journal_step sha (MarkStatus now rid st at) j = snd (markStatus now rid st at j)"
| "journal_step sha (AcquireNodeLease now w n k v) j = snd (acquireWorkspaceLease sha now w n k v j)"
| "journal_step sha (ReleaseNodeLease now l) j = snd (releaseWorkspaceLease now l j)"
| "journal_step sha (BindRun now rid l) j = snd (bindRunToLease now rid l j)"
| "journal_step sha (RecordNodeRevision now ob l x ph v) j = snd (recordWorkspaceRevision now ob l x ph v j)"
| "journal_step sha (PersistResult now rid st r) j = snd (persistRunResult now rid st r j)"
| "journal_step sha (Subscribe rid a q) j = snd (subscribe rid a q j)"
| "journal_step sha (Drain i) j = snd (drain i j)"
| "journal_step sha (CloseSub i) j = snd (close_sub i j)"
| "journal_step sha CloseJournal j = snd (close_journal j)"
| "journal_step sha (PruneRuns t) j = snd (pruneTerminalRuns t j)"
| "journal_step sha (PruneRunEvents rid k) j = snd (pruneRunEvents rid k j)"

definition run_journal :: "(string \<Rightarrow> string) \<Rightarrow> journal_call list \<Rightarrow> journal \<Rightarrow> journal" where
  "run_journal sha cs j = foldl (\<lambda>j c. journal_step sha c j) j cs"

lemma run_journal_simps [simp]:
  "run_journal sha [] j = j"
  "run_journal sha (cs @ [c]) j = journal_step sha c (run_journal sha cs j)"
  by (simp_all add: run_journal_def)

definition prunes_runs :: "journal_call \<Rightarrow> bool" where
  "prunes_runs c = (case c of PruneRuns _ \<Rightarrow> True | _ \<Rightarrow> False)"

section \<open>Operations respect what their writes respect\<close>

definition keeps :: "(journal \<Rightarrow> journal \<Rightarrow> bool) \<Rightarrow> 'a jop \<Rightarrow> bool" where
  "keeps R m = (\<forall>j. R j (snd (m j)))"

text \<open>The columns of a run that a change of its status leaves alone.\<close>

definition run_core :: "run_row \<Rightarrow> string \<times> int \<times> int \<times> bool \<times> string option" where
  "run_core r = (rn_id r, rn_last_sequence r, rn_earliest_retained r, rn_terminal r, rn_lease_id r)"

locale journal_relation =
  fixes R :: "journal \<Rightarrow> journal \<Rightarrow> bool"
  assumes R_refl: "R j j"
    and R_trans: "R j j' \<Longrightarrow> R j' j'' \<Longrightarrow> R j j''"
    and R_new_run: "runRow j rid = None \<Longrightarrow> R j (j\<lparr>nj_runs := nj_runs j @ [new_run now rid st]\<rparr>)"
    and R_event: "runRow j rid = Some r \<Longrightarrow> \<not> rn_terminal r \<Longrightarrow> q = rn_last_sequence r + 1 \<Longrightarrow>
      insertEvent now rid q e j = (Inr ev, j') \<Longrightarrow> R j (fanout ev j')"
    and R_status: "(\<And>r. run_core (f r) = run_core r) \<Longrightarrow> R j (j\<lparr>nj_runs := upd rn_id rid f (nj_runs j)\<rparr>)"
    and R_bind: "runRow j rid = Some r \<Longrightarrow> \<not> given (rn_lease_id r) \<Longrightarrow>
      R j (j\<lparr>nj_runs := upd rn_id rid (\<lambda>r. r\<lparr>rn_lease_id := Some lid, rn_updated_at := now\<rparr>) (nj_runs j)\<rparr>)"
    and R_result: "runRow j rid \<noteq> None \<Longrightarrow> runResultRow j rid = None \<Longrightarrow> nr_run_id row = rid \<Longrightarrow> R j (j\<lparr>nj_results := nj_results j @ [row]\<rparr>)"
    and R_new_lease: "nodeLeaseRow j lid = None \<Longrightarrow> lease_index (nj_leases j @ [new_lease now lid w n key t]) \<Longrightarrow>
      R j (j\<lparr>nj_leases := nj_leases j @ [new_lease now lid w n key t]\<rparr>)"
    and R_activate: "nodeLeaseRow j lid = Some x \<Longrightarrow> \<not> live_lease x \<Longrightarrow> lease_index (upd nl_id lid (activate now t) (nj_leases j)) \<Longrightarrow>
      R j (j\<lparr>nj_leases := upd nl_id lid (activate now t) (nj_leases j)\<rparr>)"
    and R_release: "nodeLeaseRow j lid = Some x \<Longrightarrow> \<not> isLeaseInUse lid j \<Longrightarrow>
      R j (j\<lparr>nj_leases := upd nl_id lid (\<lambda>l. l\<lparr>nl_status := LReleased, nl_released_at := Some now, nl_updated_at := now\<rparr>) (nj_leases j)\<rparr>)"
    and R_revision: "R j (j\<lparr>nj_revisions := rv, nj_leases := upd nl_id lid (\<lambda>l. l\<lparr>nl_current_revision := Some t, nl_updated_at := now\<rparr>) (nj_leases j)\<rparr>)"
    and R_subscribe: "subscribe rid a mq j = (Inr i, j') \<Longrightarrow> R j j'"
    and R_drain: "R j (at_sub i (\<lambda>s. if su_draining s then drained s else s) j)"
    and R_close_sub: "R j (at_sub i (\<lambda>s. s\<lparr>su_closed := True, su_registered := False\<rparr>) j)"
    and R_close: "R j (snd (close_journal j))"
    and R_prune_events: "pruneRunEvents rid keep j = (Inr removed, j') \<Longrightarrow> R j j'"
begin

lemma keeps_jret: "keeps R (jret x)"
  by (simp add: keeps_def jret_def R_refl)

lemma keeps_jfail: "keeps R (jfail e)"
  by (simp add: keeps_def jfail_def R_refl)

lemma keeps_jread: "keeps R (jread g)"
  by (simp add: keeps_def jread_def R_refl)

lemma keeps_jopen: "keeps R m \<Longrightarrow> keeps R (jopen m)"
  by (simp add: keeps_def jopen_def R_refl)

lemma keeps_transaction: "keeps R m \<Longrightarrow> keeps R (transaction m)"
  by (auto simp: keeps_def transaction_def R_refl split: prod.split sum.split; metis snd_conv)

lemma keeps_if: "(c \<Longrightarrow> keeps R m) \<Longrightarrow> (\<not> c \<Longrightarrow> keeps R m') \<Longrightarrow> keeps R (if c then m else m')"
  by simp

lemmas keeps_rules = keeps_jret keeps_jfail keeps_jread keeps_jopen keeps_transaction keeps_if

lemma keeps_ensureRun: "keeps R (ensureRun now rid st)"
  unfolding ensureRun_def
  by (rule keeps_jopen) (auto simp: keeps_def R_refl split: option.split intro: R_new_run)

text \<open>After \<open>ensureRun\<close> the row it returns is the row of the run.\<close>

lemma ensureRun_row: "ensureRun now rid st j = (Inr r, k) \<Longrightarrow> runRow k rid = Some r"
  by (auto simp: ensureRun_def jopen_def new_run_def split: if_splits option.splits)

lemma keeps_after_ensureRun:
  assumes "\<And>r j. runRow j rid = Some r \<Longrightarrow> R j (snd (f r j))"
  shows "keeps R (jbind (ensureRun now rid st) f)"
proof -
  have "R j (snd (jbind (ensureRun now rid st) f j))" for j
  proof (cases "ensureRun now rid st j")
    case (Pair r k)
    then have "R j k" using keeps_ensureRun by (metis keeps_def snd_conv)
    then show ?thesis using Pair assms ensureRun_row
      by (cases r) (auto simp: jbind_def intro: R_trans)
  qed
  then show ?thesis by (simp add: keeps_def)
qed

lemma R_insert_fanout:
  assumes "runRow j rid = Some r" and "\<not> rn_terminal r"
  shows "R j (snd (jbind (insertEvent now rid (rn_last_sequence r + 1) e) (\<lambda>ev. jbind (jwrite (fanout ev)) (\<lambda>_. jret (g ev))) j))"
proof (cases "insertEvent now rid (rn_last_sequence r + 1) e j")
  case (Pair x k)
  then show ?thesis
  proof (cases x)
    case (Inl a)
    then have "k = j" using Pair by (auto simp: insertEvent_def split: if_splits sum.splits)
    then show ?thesis using Pair Inl by (simp add: jbind_def R_refl)
  next
    case (Inr ev)
    then show ?thesis using Pair R_event [OF assms refl] by (simp add: jbind_def jwrite_def jret_def)
  qed
qed

lemma keeps_append: "keeps R (append_event now rid e)"
  unfolding append_event_def
  by (intro keeps_jopen keeps_after_ensureRun) (auto simp: jfail_def R_refl intro: R_insert_fanout [where g = "\<lambda>x. x"])

lemma keeps_appendAt: "keeps R (appendAt now rid q e)"
  unfolding appendAt_def
  by (intro keeps_jopen keeps_after_ensureRun)
    (auto simp: jfail_def jread_def R_refl split: sum.split intro: R_insert_fanout [where g = "\<lambda>x. (x, False)"])

lemma keeps_markStatus: "keeps R (markStatus now rid st at)"
  unfolding markStatus_def
  by (rule keeps_jopen) (auto simp: keeps_def R_refl run_core_def split: option.split intro!: R_status)

lemma keeps_bind: "keeps R (bindRunToLease now rid l)"
  unfolding bindRunToLease_def
  by (intro keeps_rules keeps_after_ensureRun) (auto simp: jfail_def jret_def jwrite_def R_refl intro: R_bind)

lemma keeps_persist: "keeps R (persistRunResult now rid st r)"
  unfolding persistRunResult_def
  by (intro keeps_rules keeps_after_ensureRun)
    (auto simp: R_refl result_row_of_def split: option.splits sum.splits if_splits intro!: R_result)

lemma keeps_write_then:
  assumes "lease_index (f (nj_leases j)) \<Longrightarrow> R j (j\<lparr>nj_leases := f (nj_leases j)\<rparr>)" and "\<And>x. keeps R (g x)"
  shows "R j (snd (jbind (write_leases f) g j))"
proof -
  have "R k (snd (g x k))" for x k using assms(2) by (simp add: keeps_def)
  then show ?thesis using assms(1) by (auto simp: jbind_def write_leases_def R_refl intro: R_trans)
qed

lemma keeps_jbind_read: "(\<And>x. keeps R (f x)) \<Longrightarrow> keeps R (jbind (jread g) f)"
  by (auto simp: keeps_def jbind_def jread_def R_refl split: sum.split)

lemma keeps_lease_as_read: "keeps R (lease_as_read i)" "(\<And>x. keeps R (f x)) \<Longrightarrow> keeps R (jbind (lease_as_read i) f)"
  unfolding lease_as_read_def by (intro keeps_jread keeps_jbind_read)+

lemma keeps_attempt: "keeps R (acquire_attempt now i w n k t)"
proof -
  have new: "R j (snd (jbind (write_leases (\<lambda>ls. ls @ [new_lease now i w n k t])) (\<lambda>_. jbind (lease_as_read i) (\<lambda>x. jret (x, True))) j))"
    if "nodeLeaseRow j i = None" for j
    by (intro keeps_write_then keeps_lease_as_read keeps_jret R_new_lease that)
  have again: "R j (snd (jbind (write_leases (upd nl_id i (activate now t))) (\<lambda>_. jbind (lease_as_read i) (\<lambda>x. jret (x, True))) j))"
    if "nodeLeaseRow j i = Some x" "\<not> live_lease x" for j x
    by (intro keeps_write_then keeps_lease_as_read keeps_jret R_activate [OF that])
  show ?thesis unfolding acquire_attempt_def
    by (rule keeps_transaction) (auto simp: keeps_def acquire_body_def R_refl split: option.split intro: new again)
qed

lemma keeps_acquire: "keeps R (acquireWorkspaceLease sha now w n k v)"
proof -
  have "R j (snd (acquire_attempt now i w n k t j))" for i t j using keeps_attempt by (simp add: keeps_def)
  then have "keeps R (\<lambda>j. case acquire_attempt now i w n k t j of
      (Inl IndexViolation, j') \<Rightarrow>
        if \<exists>x\<in>set_option (activeLeaseRow j' n k). nl_id x \<noteq> i then (Inl LeaseConflicts, j')
        else acquire_attempt now i w n k t j'
    | r \<Rightarrow> r)" for i t
    by (auto simp: keeps_def split: prod.split sum.split node_error.split; metis R_trans snd_conv)
  then show ?thesis unfolding acquireWorkspaceLease_def Let_def
    by (intro keeps_jopen) (auto intro: keeps_jfail split: sum.split)
qed

lemma keeps_release: "keeps R (releaseWorkspaceLease now i)"
proof -
  have "R j (snd (jbind (write_leases (upd nl_id i (\<lambda>l. l\<lparr>nl_status := LReleased, nl_released_at := Some now, nl_updated_at := now\<rparr>)))
      (\<lambda>_. lease_as_read i) j))" if "nodeLeaseRow j i = Some x" "\<not> isLeaseInUse i j" for j x
    by (intro keeps_write_then keeps_lease_as_read R_release [OF that])
  then show ?thesis unfolding releaseWorkspaceLease_def
    by (intro keeps_jopen keeps_transaction) (auto simp: keeps_def R_refl split: option.split)
qed

lemma keeps_record_revision: "keeps R (recordWorkspaceRevision now ob i x ph v)"
  unfolding recordWorkspaceRevision_def
  by (intro keeps_jopen keeps_transaction) (auto simp: keeps_def R_refl split: option.split sum.split intro: R_revision)

lemma keeps_subscribe: "keeps R (subscribe rid a mq)"
proof -
  have "R j (snd (subscribe rid a mq j))" for j
  proof (cases "subscribe rid a mq j")
    case (Pair r k)
    show ?thesis
    proof (cases r)
      case (Inl e)
      then have "k = j" using Pair
        by (auto simp: subscribe_def jopen_def jbind_def replayMetadata_def readEvents_def jread_def split: if_splits sum.splits)
      then show ?thesis using Pair by (simp add: R_refl)
    qed (use Pair R_subscribe in simp)
  qed
  then show ?thesis by (simp add: keeps_def)
qed

lemma keeps_prune_events: "keeps R (pruneRunEvents rid k)"
proof -
  have "R j (snd (pruneRunEvents rid k j))" for j
  proof (cases "pruneRunEvents rid k j")
    case (Pair r l)
    show ?thesis
    proof (cases r)
      case (Inl e)
      then have "l = j" using Pair by (auto simp: pruneRunEvents_def jopen_def Let_def split: if_splits option.splits)
      then show ?thesis using Pair by (simp add: R_refl)
    qed (use Pair R_prune_events in simp)
  qed
  then show ?thesis by (simp add: keeps_def)
qed

lemma keeps_subs: "keeps R (drain i)" "keeps R (close_sub i)" "keeps R close_journal"
  using R_drain R_close_sub R_close by (simp_all add: keeps_def drain_def close_sub_def jwrite_def)

lemma R_step: "\<not> prunes_runs c \<Longrightarrow> R j (journal_step sha c j)"
  using keeps_ensureRun keeps_append keeps_appendAt keeps_markStatus keeps_acquire keeps_release keeps_bind keeps_record_revision
    keeps_persist keeps_subscribe keeps_subs keeps_prune_events
  by (cases c) (auto simp: keeps_def prunes_runs_def)

lemma R_run: "list_all (\<lambda>c. \<not> prunes_runs c) cs \<Longrightarrow> R j (run_journal sha cs j)"
  by (induction cs rule: rev_induct) (auto simp: R_refl intro: R_trans R_step)

end

text \<open>Relations that also allow expired runs to go.\<close>

locale journal_history = journal_relation +
  assumes R_prune_runs: "R j (snd (pruneTerminalRuns t j))"
begin

lemma R_any_step: "R j (journal_step sha c j)"
  using R_step [of c j sha] R_prune_runs by (cases c) (simp_all add: prunes_runs_def)

lemma R_history: "R j (run_journal sha cs j)"
  by (induction cs rule: rev_induct) (auto simp: R_refl intro: R_trans R_any_step)

end

section \<open>The invariant of the journal\<close>

text \<open>Run ids are unique, every event belongs to a run, and the retained events of a run are numbered without a gap
  up to the run's last sequence.\<close>

definition log_inv :: "journal \<Rightarrow> bool" where
  "log_inv j \<longleftrightarrow> distinct (map rn_id (nj_runs j)) \<and> (\<forall>e\<in>set (nj_events j). ne_run_id e \<in> rn_id ` set (nj_runs j)) \<and>
    (\<forall>r\<in>set (nj_runs j). contiguous (rn_last_sequence r) (map ne_sequence (events_of_run j (rn_id r))))"

definition node_lease_inv :: "journal \<Rightarrow> bool" where
  "node_lease_inv j \<longleftrightarrow> distinct (map nl_id (nj_leases j)) \<and> lease_index (nj_leases j)"

definition result_inv :: "journal \<Rightarrow> bool" where
  "result_inv j \<longleftrightarrow> distinct (map nr_run_id (nj_results j)) \<and> nr_run_id ` set (nj_results j) \<subseteq> rn_id ` set (nj_runs j)"

definition queue_inv :: "journal \<Rightarrow> bool" where
  "queue_inv j \<longleftrightarrow> (\<forall>s\<in>set (nj_subs j). length (su_queue s) \<le> su_max_queue s)"

definition journal_inv :: "journal \<Rightarrow> bool" where
  "journal_inv j \<longleftrightarrow> log_inv j \<and> node_lease_inv j \<and> result_inv j \<and> queue_inv j"

lemma insertEvent_Inr:
  assumes "insertEvent now rid q e j = (Inr ev, k)"
  obtains p where "re_run_id ev = rid" and "re_sequence ev = q" and
    "k = j\<lparr>nj_events := nj_events j @ [event_row_of now rid q e p], nj_runs := upd rn_id rid (advance_run now q e) (nj_runs j)\<rparr>"
  using assms by (auto simp: insertEvent_def split: if_splits sum.splits)

lemma events_of_run_simps [simp]:
  "events_of_run (j\<lparr>nj_runs := rs\<rparr>) i = events_of_run j i"
  "events_of_run (j\<lparr>nj_subs := ss\<rparr>) i = events_of_run j i"
  "events_of_run (j\<lparr>nj_leases := ls\<rparr>) i = events_of_run j i"
  "events_of_run (j\<lparr>nj_results := xs\<rparr>) i = events_of_run j i"
  "events_of_run (j\<lparr>nj_revisions := rv\<rparr>) i = events_of_run j i"
  "events_of_run (j\<lparr>nj_closed := b\<rparr>) i = events_of_run j i"
  "events_of_run (j\<lparr>nj_events := nj_events j @ [x]\<rparr>) i = events_of_run j i @ (if ne_run_id x = i then [x] else [])"
  "events_of_run (j\<lparr>nj_events := filter P (nj_events j)\<rparr>) i = filter P (events_of_run j i)"
  by (auto simp: events_of_run_def intro: filter_cong)

lemma advance_run_simps [simp]:
  "rn_id (advance_run now q e r) = rn_id r"
  "rn_last_sequence (advance_run now q e r) = q"
  "rn_earliest_retained (advance_run now q e r) = rn_earliest_retained r"
  "rn_lease_id (advance_run now q e r) = rn_lease_id r"
  "rn_terminal (advance_run now q e r) = (ri_terminal e \<or> rn_terminal r)"
  by (simp_all add: advance_run_def)

lemma new_run_simps [simp]:
  "rn_id (new_run now rid st) = rid" "rn_last_sequence (new_run now rid st) = -1" "\<not> rn_terminal (new_run now rid st)"
  "rn_lease_id (new_run now rid st) = None"
  by (simp_all add: new_run_def)

lemma log_inv_run:
  assumes "log_inv j" and "\<And>r. rn_id (f r) = rn_id r" and "\<And>r. rn_last_sequence (f r) = rn_last_sequence r"
  shows "log_inv (j\<lparr>nj_runs := upd rn_id i f (nj_runs j)\<rparr>)"
  using assms key_image_upd [of rn_id f i "nj_runs j"] by (auto simp: log_inv_def map_key_upd in_set_upd)

lemma log_inv_frame [simp]:
  "log_inv (j\<lparr>nj_subs := ss\<rparr>) = log_inv j"
  "log_inv (j\<lparr>nj_closed := b\<rparr>) = log_inv j"
  "log_inv (j\<lparr>nj_leases := ls\<rparr>) = log_inv j"
  "log_inv (j\<lparr>nj_results := xs\<rparr>) = log_inv j"
  "log_inv (j\<lparr>nj_revisions := rv\<rparr>) = log_inv j"
  by (simp_all add: log_inv_def)

lemma log_inv_new_run:
  assumes "log_inv j" and "runRow j rid = None"
  shows "log_inv (j\<lparr>nj_runs := nj_runs j @ [new_run now rid st]\<rparr>)"
proof -
  have "rid \<notin> rn_id ` set (nj_runs j)" using assms(2) by (simp add: sel_None_iff)
  moreover from this have "events_of_run j rid = []" using assms(1) by (auto simp: log_inv_def events_of_run_def filter_empty_conv)
  ultimately show ?thesis using assms(1) by (auto simp: log_inv_def)
qed

lemma log_inv_event:
  assumes "log_inv j" and "runRow j rid = Some r" and "insertEvent now rid (rn_last_sequence r + 1) e j = (Inr ev, k)"
  shows "log_inv k"
proof -
  from assms(3) obtain p where k: "k = j\<lparr>nj_events := nj_events j @ [event_row_of now rid (rn_last_sequence r + 1) e p],
      nj_runs := upd rn_id rid (advance_run now (rn_last_sequence r + 1) e) (nj_runs j)\<rparr>"
    by (rule insertEvent_Inr)
  have r: "r \<in> set (nj_runs j)" "rn_id r = rid" using sel_key [OF assms(2)] by auto
  have only: "x = r" if "x \<in> set (nj_runs j)" "rn_id x = rid" for x
    using that sel_mem [of rn_id "nj_runs j" x] assms(1,2) by (simp add: log_inv_def)
  have ids: "rn_id ` set (nj_runs k) = rn_id ` set (nj_runs j)" unfolding k by (simp add: key_image_upd)
  have "contiguous (rn_last_sequence x) (map ne_sequence (events_of_run k (rn_id x)))" if "x \<in> set (nj_runs k)" for x
  proof -
    from that obtain y where y: "y \<in> set (nj_runs j)" "x = (if rn_id y = rid then advance_run now (rn_last_sequence r + 1) e y else y)"
      unfolding k by (auto simp: in_set_upd)
    have "contiguous (rn_last_sequence y) (map ne_sequence (events_of_run j (rn_id y)))" using assms(1) y(1) by (simp add: log_inv_def)
    then show ?thesis using y only contiguous_snoc by (auto simp: k event_row_of_def)
  qed
  then show ?thesis using assms(1) r ids by (auto simp: log_inv_def k map_key_upd event_row_of_def)
qed

lemma pruneRunEvents_Inr:
  assumes "log_inv j" and "pruneRunEvents rid k j = (Inr n, j')"
  shows "j' = j \<or> (\<exists>r c rs. runRow j rid = Some r \<and> nat k < length (events_of_run j rid) \<and> c = rn_last_sequence r - int (nat k) \<and>
    (rs = nj_runs j \<or> (\<exists>m. rs = upd rn_id rid (\<lambda>r. r\<lparr>rn_earliest_retained := m\<rparr>) (nj_runs j))) \<and>
    j' = j\<lparr>nj_events := filter (\<lambda>e. \<not> (ne_run_id e = rid \<and> ne_sequence e \<le> c)) (nj_events j), nj_runs := rs\<rparr>)"
proof (cases "runRow j rid")
  case None
  then have "events_of_run j rid = []"
    using assms(1) by (auto simp: log_inv_def events_of_run_def filter_empty_conv sel_None_iff)
  then show ?thesis using assms(2) by (auto simp: pruneRunEvents_def jopen_def cutoff_def split: if_splits)
next
  case (Some r)
  then have con: "contiguous (rn_last_sequence r) (map ne_sequence (events_of_run j rid))"
    using assms(1) sel_key [OF Some] by (auto simp: log_inv_def)
  show ?thesis
    using assms(2) cutoff_contiguous [OF con, of "nat k"] Some
    by (auto simp: pruneRunEvents_def jopen_def Let_def split: if_splits option.splits)
qed

lemma log_inv_prune_events:
  assumes "log_inv j" and "pruneRunEvents rid k j = (Inr n, j')"
  shows "log_inv j'"
proof (cases "j' = j")
  case False
  then obtain r c rs where r: "runRow j rid = Some r" and len: "nat k < length (events_of_run j rid)" and c: "c = rn_last_sequence r - int (nat k)"
    and rs: "rs = nj_runs j \<or> (\<exists>m. rs = upd rn_id rid (\<lambda>r. r\<lparr>rn_earliest_retained := m\<rparr>) (nj_runs j))"
    and j': "j' = j\<lparr>nj_events := filter (\<lambda>e. \<not> (ne_run_id e = rid \<and> ne_sequence e \<le> c)) (nj_events j), nj_runs := rs\<rparr>"
    using pruneRunEvents_Inr [OF assms] by blast
  let ?P = "\<lambda>e. \<not> (ne_run_id e = rid \<and> ne_sequence e \<le> c)"
  have mem: "r \<in> set (nj_runs j)" "rn_id r = rid" using sel_key [OF r] by auto
  then have con: "contiguous (rn_last_sequence r) (map ne_sequence (events_of_run j rid))" using assms(1) by (auto simp: log_inv_def)
  have only: "x = r" if "x \<in> set (nj_runs j)" "rn_id x = rid" for x
    using that sel_mem [of rn_id "nj_runs j" x] assms(1) r by (simp add: log_inv_def)
  have "filter ?P (events_of_run j rid) = filter (\<lambda>e. c < ne_sequence e) (events_of_run j rid)"
    by (rule filter_cong) (auto simp: events_of_run_def)
  also have "\<dots> = drop (length (events_of_run j rid) - nat k) (events_of_run j rid)"
    unfolding c by (rule drop_prefix_of_log [OF con len])
  finally have kept: "contiguous (rn_last_sequence r) (map ne_sequence (filter ?P (events_of_run j rid)))"
    using drop_prefix_of_log(2) [OF con len] by simp
  have other: "filter ?P (events_of_run j i) = events_of_run j i" if "i \<noteq> rid" for i
    using that by (auto simp: events_of_run_def intro!: filter_cong)
  have "contiguous (rn_last_sequence x) (map ne_sequence (filter ?P (events_of_run j (rn_id x))))" if "x \<in> set (nj_runs j)" for x
    using that kept other [of "rn_id x"] only assms(1) by (cases "rn_id x = rid") (auto simp: log_inv_def)
  then have "log_inv (j\<lparr>nj_events := filter ?P (nj_events j)\<rparr>)" using assms(1) by (auto simp: log_inv_def)
  then show ?thesis unfolding j' using rs log_inv_run [of "j\<lparr>nj_events := filter ?P (nj_events j)\<rparr>" _ rid] by auto
qed (use assms in simp)

lemma log_inv_prune_runs:
  assumes "log_inv j"
  shows "log_inv (snd (pruneTerminalRuns t j))"
proof -
  let ?gone = "rn_id ` set (filter (expired_run t) (nj_runs j))"
  have same: "filter (\<lambda>e. ne_run_id e \<notin> ?gone) (events_of_run j (rn_id r)) = events_of_run j (rn_id r)"
    if "r \<in> set (nj_runs j)" "\<not> expired_run t r" for r
  proof -
    have "rn_id r \<notin> ?gone" using that assms by (auto simp: log_inv_def distinct_map dest: inj_onD)
    then have "\<forall>e\<in>set (events_of_run j (rn_id r)). ne_run_id e \<notin> ?gone" by (auto simp: events_of_run_def)
    then show ?thesis by (simp add: filter_id_conv)
  qed
  have left: "rn_id ` set (nj_runs j) - ?gone \<subseteq> rn_id ` {r \<in> set (nj_runs j). \<not> expired_run t r}" by auto
  show ?thesis
  proof (cases "nj_closed j")
    case False
    let ?j = "snd (pruneTerminalRuns t j)"
    have tables: "nj_runs ?j = filter (\<lambda>r. \<not> expired_run t r) (nj_runs j)" "nj_events ?j = filter (\<lambda>e. ne_run_id e \<notin> ?gone) (nj_events j)"
      using False by (simp_all add: pruneTerminalRuns_def jopen_def Let_def)
    have "events_of_run ?j i = filter (\<lambda>e. ne_run_id e \<notin> ?gone) (events_of_run j i)" for i
      unfolding events_of_run_def tables filter_filter by (rule filter_cong) auto
    then have "contiguous (rn_last_sequence r) (map ne_sequence (events_of_run ?j (rn_id r)))" if "r \<in> set (nj_runs ?j)" for r
      using that same assms by (auto simp: tables log_inv_def)
    moreover have "ne_run_id e \<in> rn_id ` set (nj_runs ?j)" if "e \<in> set (nj_events ?j)" for e
      using that assms left by (auto simp: tables log_inv_def)
    ultimately show ?thesis using assms by (simp add: log_inv_def tables distinct_map_filter)
  qed (use assms in \<open>simp add: pruneTerminalRuns_def jopen_def\<close>)
qed

text \<open>What each write leaves of the tables it does not touch.\<close>

lemma subscribe_frame: "subscribe rid a mq j = (Inr i, k) \<Longrightarrow> \<exists>s. k = j\<lparr>nj_subs := nj_subs j @ [s]\<rparr> \<and> su_queue s = []"
  by (auto simp: subscribe_def jopen_def jbind_def replayMetadata_def readEvents_def jread_def split: if_splits sum.splits)

lemma at_sub_frame: "\<exists>ss. at_sub i f j = j\<lparr>nj_subs := ss\<rparr>"
  unfolding at_sub_def by (cases "i < length (nj_subs j)") (auto intro: exI [of _ "nj_subs j"])

lemma close_frame: "\<exists>ss. snd (close_journal j) = j\<lparr>nj_subs := ss, nj_closed := True\<rparr>"
  unfolding close_journal_def jwrite_def by (cases "nj_closed j") (auto intro: exI [of _ "nj_subs j"])

lemma prune_events_frame:
  assumes "pruneRunEvents rid k j = (Inr n, j')"
  shows "nj_leases j' = nj_leases j" "nj_results j' = nj_results j" "nj_subs j' = nj_subs j"
    "map (\<lambda>r. r\<lparr>rn_earliest_retained := 0\<rparr>) (nj_runs j') = map (\<lambda>r. r\<lparr>rn_earliest_retained := 0\<rparr>) (nj_runs j)"
  using assms by (auto simp: pruneRunEvents_def jopen_def Let_def upd_def split: if_splits option.splits)

lemma fanout_frame: "\<exists>ss. fanout ev k = k\<lparr>nj_subs := ss\<rparr>"
  by (auto simp: fanout_def)

interpretation log: journal_history "\<lambda>j k. log_inv j \<longrightarrow> log_inv k"
proof
  show "log_inv j \<longrightarrow> log_inv (j\<lparr>nj_runs := upd rn_id rid f (nj_runs j)\<rparr>)" if "\<And>r. run_core (f r) = run_core r" for j rid f
    using that by (intro impI log_inv_run) (auto simp: run_core_def)
  show "log_inv j \<longrightarrow> log_inv k" if "subscribe rid a mq j = (Inr i, k)" for rid a mq j i k
    using subscribe_frame [OF that] by auto
  show "log_inv j \<longrightarrow> log_inv (at_sub i (\<lambda>s. if su_draining s then drained s else s) j)"
    "log_inv j \<longrightarrow> log_inv (at_sub i (\<lambda>s. s\<lparr>su_closed := True, su_registered := False\<rparr>) j)" for i j
    by (simp_all add: at_sub_def)
  show "log_inv j \<longrightarrow> log_inv (snd (close_journal j))" for j
    using close_frame [of j] by auto
qed (auto simp: fanout_def intro: log_inv_event log_inv_new_run log_inv_run log_inv_prune_events log_inv_prune_runs)

section \<open>Leases\<close>

lemma lease_keys_upd:
  assumes "\<And>l. live_lease (f l) \<Longrightarrow> live_lease l \<and> nl_node_id (f l) = nl_node_id l \<and> nl_workspace_key (f l) = nl_workspace_key l"
  shows "set (map (\<lambda>l. (nl_node_id l, nl_workspace_key l)) (filter live_lease (upd nl_id i f ls))) \<subseteq>
    set (map (\<lambda>l. (nl_node_id l, nl_workspace_key l)) (filter live_lease ls))"
  using assms by (fastforce simp: in_set_upd image_iff split: if_splits)

lemma lease_index_upd:
  assumes "\<And>l. live_lease (f l) \<Longrightarrow> live_lease l \<and> nl_node_id (f l) = nl_node_id l \<and> nl_workspace_key (f l) = nl_workspace_key l"
    and "lease_index ls"
  shows "lease_index (upd nl_id i f ls)"
  using assms(2)
proof (induction ls)
  case (Cons l ls)
  then have "lease_index (upd nl_id i f ls)" by (auto simp: lease_index_def split: if_splits)
  moreover have "upd nl_id i f (l # ls) = (if nl_id l = i then f l else l) # upd nl_id i f ls" by (simp add: upd_def)
  ultimately show ?case
    using Cons.prems assms(1) [of l] lease_keys_upd [of f i ls, OF assms(1)]
    by (auto simp: lease_index_def split: if_splits)
qed (simp add: upd_def lease_index_def)

lemma node_lease_inv_upd:
  assumes "\<And>l. nl_id (f l) = nl_id l" and "lease_index (upd nl_id i f (nj_leases j))" and "node_lease_inv j"
  shows "node_lease_inv (j\<lparr>nj_leases := upd nl_id i f (nj_leases j)\<rparr>)"
  using assms by (simp add: node_lease_inv_def map_key_upd)

lemma node_lease_inv_frame [simp]:
  "node_lease_inv (j\<lparr>nj_subs := ss\<rparr>) = node_lease_inv j"
  "node_lease_inv (j\<lparr>nj_closed := b\<rparr>) = node_lease_inv j"
  "node_lease_inv (j\<lparr>nj_runs := rs\<rparr>) = node_lease_inv j"
  "node_lease_inv (j\<lparr>nj_events := es\<rparr>) = node_lease_inv j"
  "node_lease_inv (j\<lparr>nj_results := xs\<rparr>) = node_lease_inv j"
  "node_lease_inv (j\<lparr>nj_revisions := rv\<rparr>) = node_lease_inv j"
  by (simp_all add: node_lease_inv_def)

interpretation claims: journal_history "\<lambda>j k. node_lease_inv j \<longrightarrow> node_lease_inv k"
proof
  show "node_lease_inv j \<longrightarrow> node_lease_inv (fanout ev k)" if "insertEvent now rid q e j = (Inr ev, k)" for j now rid q e ev k
    using that by (auto simp: fanout_def elim!: insertEvent_Inr)
  show "node_lease_inv j \<longrightarrow> node_lease_inv (j\<lparr>nj_leases := nj_leases j @ [new_lease now i w n k t]\<rparr>)"
    if "nodeLeaseRow j i = None" "lease_index (nj_leases j @ [new_lease now i w n k t])" for j i now w n k t
    using that by (auto simp: node_lease_inv_def sel_None_iff new_lease_def)
  show "node_lease_inv j \<longrightarrow> node_lease_inv (j\<lparr>nj_leases := upd nl_id i (activate now t) (nj_leases j)\<rparr>)"
    if "lease_index (upd nl_id i (activate now t) (nj_leases j))" for j i now t
    using that by (intro impI node_lease_inv_upd) (auto simp: activate_def)
  show "node_lease_inv j \<longrightarrow> node_lease_inv (j\<lparr>nj_leases :=
      upd nl_id i (\<lambda>l. l\<lparr>nl_status := LReleased, nl_released_at := Some now, nl_updated_at := now\<rparr>) (nj_leases j)\<rparr>)" for j i now
    by (intro impI node_lease_inv_upd lease_index_upd) (auto simp: live_lease_def node_lease_inv_def)
  show "node_lease_inv j \<longrightarrow> node_lease_inv (j\<lparr>nj_revisions := rv, nj_leases :=
      upd nl_id i (\<lambda>l. l\<lparr>nl_current_revision := Some t, nl_updated_at := now\<rparr>) (nj_leases j)\<rparr>)" for j rv i t now
    using node_lease_inv_upd [of "\<lambda>l. l\<lparr>nl_current_revision := Some t, nl_updated_at := now\<rparr>" i "j\<lparr>nj_revisions := rv\<rparr>"]
      lease_index_upd [of "\<lambda>l. l\<lparr>nl_current_revision := Some t, nl_updated_at := now\<rparr>" "nj_leases j" i]
    by (auto simp: live_lease_def node_lease_inv_def)
  show "node_lease_inv j \<longrightarrow> node_lease_inv k" if "subscribe rid a mq j = (Inr i, k)" for rid a mq j i k
    using subscribe_frame [OF that] by auto
  show "node_lease_inv j \<longrightarrow> node_lease_inv (at_sub i (\<lambda>s. if su_draining s then drained s else s) j)"
    "node_lease_inv j \<longrightarrow> node_lease_inv (at_sub i (\<lambda>s. s\<lparr>su_closed := True, su_registered := False\<rparr>) j)" for i j
    by (simp_all add: at_sub_def)
  show "node_lease_inv j \<longrightarrow> node_lease_inv (snd (close_journal j))" for j
    using close_frame [of j] by auto
  show "node_lease_inv j \<longrightarrow> node_lease_inv k" if "pruneRunEvents rid keep j = (Inr n, k)" for rid keep j n k
    using prune_events_frame(1) [OF that] by (simp add: node_lease_inv_def)
  show "node_lease_inv j \<longrightarrow> node_lease_inv (snd (pruneTerminalRuns t j))" for j t
    by (simp add: pruneTerminalRuns_def jopen_def Let_def)
qed auto

section \<open>Results and queues\<close>

lemma result_inv_runs:
  assumes "result_inv j" and "nj_results k = nj_results j" and "rn_id ` set (nj_runs j) \<subseteq> rn_id ` set (nj_runs k)"
  shows "result_inv k"
  using assms unfolding result_inv_def by (metis subset_trans)

lemma result_inv_frame [simp]:
  "result_inv (j\<lparr>nj_subs := ss\<rparr>) = result_inv j"
  "result_inv (j\<lparr>nj_closed := b\<rparr>) = result_inv j"
  "result_inv (j\<lparr>nj_leases := ls\<rparr>) = result_inv j"
  "result_inv (j\<lparr>nj_events := es\<rparr>) = result_inv j"
  "result_inv (j\<lparr>nj_revisions := rv\<rparr>) = result_inv j"
  by (simp_all add: result_inv_def)

lemma prune_events_ids: "pruneRunEvents rid k j = (Inr n, j') \<Longrightarrow> map rn_id (nj_runs j') = map rn_id (nj_runs j)"
  using arg_cong [OF prune_events_frame(4), of rid k j n j' "map rn_id"] by (simp add: comp_def)

interpretation outcomes: journal_history "\<lambda>j k. result_inv j \<longrightarrow> result_inv k"
proof
  show "result_inv j \<longrightarrow> result_inv (j\<lparr>nj_runs := nj_runs j @ [new_run now rid st]\<rparr>)" for j now rid st
    by (auto intro!: result_inv_runs [of j])
  show "result_inv j \<longrightarrow> result_inv (fanout ev k)" if "insertEvent now rid q e j = (Inr ev, k)" for j now rid q e ev k
    using that by (elim insertEvent_Inr) (auto simp: fanout_def key_image_upd intro!: result_inv_runs [of j])
  show "result_inv j \<longrightarrow> result_inv (j\<lparr>nj_runs := upd rn_id rid f (nj_runs j)\<rparr>)" if "\<And>r. run_core (f r) = run_core r" for j rid f
    using that key_image_upd [of rn_id f rid "nj_runs j"] by (auto simp: run_core_def intro!: result_inv_runs [of j])
  show "result_inv j \<longrightarrow> result_inv (j\<lparr>nj_runs := upd rn_id rid (\<lambda>r. r\<lparr>rn_lease_id := Some l, rn_updated_at := now\<rparr>) (nj_runs j)\<rparr>)"
    for j rid l now
    by (auto simp: key_image_upd intro!: result_inv_runs [of j])
  show "result_inv j \<longrightarrow> result_inv (j\<lparr>nj_results := nj_results j @ [row]\<rparr>)"
    if "runRow j rid \<noteq> None" "runResultRow j rid = None" "nr_run_id row = rid" for j rid row
    using that sel_None_iff [of rn_id rid "nj_runs j"] sel_None_iff [of nr_run_id rid "nj_results j"] by (auto simp: result_inv_def)
  show "result_inv j \<longrightarrow> result_inv k" if "subscribe rid a mq j = (Inr i, k)" for rid a mq j i k
    using subscribe_frame [OF that] by auto
  show "result_inv j \<longrightarrow> result_inv (at_sub i (\<lambda>s. if su_draining s then drained s else s) j)"
    "result_inv j \<longrightarrow> result_inv (at_sub i (\<lambda>s. s\<lparr>su_closed := True, su_registered := False\<rparr>) j)" for i j
    by (simp_all add: at_sub_def)
  show "result_inv j \<longrightarrow> result_inv (snd (close_journal j))" for j
    using close_frame [of j] by auto
  show "result_inv j \<longrightarrow> result_inv k" if "pruneRunEvents rid keep j = (Inr n, k)" for rid keep j n k
    using prune_events_frame(2) [OF that] arg_cong [OF prune_events_ids [OF that], of set] by (auto intro!: result_inv_runs [of j])
  show "result_inv j \<longrightarrow> result_inv (snd (pruneTerminalRuns t j))" for j t
    by (auto simp: pruneTerminalRuns_def jopen_def Let_def result_inv_def distinct_map_filter)
qed auto

lemma queue_inv_frame [simp]:
  "queue_inv (j\<lparr>nj_runs := rs\<rparr>) = queue_inv j"
  "queue_inv (j\<lparr>nj_closed := b\<rparr>) = queue_inv j"
  "queue_inv (j\<lparr>nj_leases := ls\<rparr>) = queue_inv j"
  "queue_inv (j\<lparr>nj_events := es\<rparr>) = queue_inv j"
  "queue_inv (j\<lparr>nj_results := xs\<rparr>) = queue_inv j"
  "queue_inv (j\<lparr>nj_revisions := rv\<rparr>) = queue_inv j"
  by (simp_all add: queue_inv_def)

lemma queue_inv_sub:
  assumes "queue_inv j" and "\<And>s. length (su_queue s) \<le> su_max_queue s \<Longrightarrow> length (su_queue (f s)) \<le> su_max_queue (f s)"
  shows "queue_inv (at_sub i f j)" and "queue_inv (j\<lparr>nj_subs := map f (nj_subs j)\<rparr>)"
  using assms set_update_subset_insert [of "nj_subs j" i "f (nj_subs j ! i)"] by (auto simp: queue_inv_def at_sub_def)

interpretation queues: journal_history "\<lambda>j k. queue_inv j \<longrightarrow> queue_inv k"
proof
  show "queue_inv j \<longrightarrow> queue_inv (fanout ev k)" if "insertEvent now rid q e j = (Inr ev, k)" for j now rid q e ev k
    using that unfolding fanout_def
    by (intro impI queue_inv_sub(2)) (auto simp: offer_def overflow_def elim!: insertEvent_Inr)
  show "queue_inv j \<longrightarrow> queue_inv k" if "subscribe rid a mq j = (Inr i, k)" for rid a mq j i k
    using subscribe_frame [OF that] by (auto simp: queue_inv_def)
  show "queue_inv j \<longrightarrow> queue_inv (at_sub i (\<lambda>s. if su_draining s then drained s else s) j)"
    "queue_inv j \<longrightarrow> queue_inv (at_sub i (\<lambda>s. s\<lparr>su_closed := True, su_registered := False\<rparr>) j)" for i j
    by (auto intro!: queue_inv_sub simp: drained_def)
  show "queue_inv j \<longrightarrow> queue_inv (snd (close_journal j))" for j
    by (auto simp: close_journal_def jwrite_def queue_inv_def)
  show "queue_inv j \<longrightarrow> queue_inv k" if "pruneRunEvents rid keep j = (Inr n, k)" for rid keep j n k
    using prune_events_frame(3) [OF that] by (simp add: queue_inv_def)
  show "queue_inv j \<longrightarrow> queue_inv (snd (pruneTerminalRuns t j))" for j t
    by (simp add: pruneTerminalRuns_def jopen_def Let_def)
qed auto

lemma journal_inv_empty: "journal_inv empty_journal"
  by (simp add: journal_inv_def log_inv_def node_lease_inv_def result_inv_def queue_inv_def lease_index_def empty_journal_def)

lemma journal_inv_history: "journal_inv j \<Longrightarrow> journal_inv (run_journal sha cs j)"
  using log.R_history claims.R_history outcomes.R_history queues.R_history unfolding journal_inv_def by blast

section \<open>A lease in use\<close>

text \<open>The claim of a lease: its holder and its workspace.\<close>

definition lease_claim :: "node_lease_row \<Rightarrow> string \<times> string \<times> string" where
  "lease_claim l = (nl_workflow_id l, nl_node_id l, nl_workspace_key l)"

definition holds :: "journal \<Rightarrow> string \<Rightarrow> string \<times> string \<times> string \<Rightarrow> bool" where
  "holds j i c = (\<exists>l\<in>set_option (nodeLeaseRow j i). live_lease l \<and> lease_claim l = c)"

text \<open>A single operation releases at most the lease it is asked to release, and looks at its runs before that.\<close>

lemma holds_same: "nj_leases k = nj_leases j \<Longrightarrow> holds k i c = holds j i c"
  by (simp add: holds_def)

lemma holds_upd:
  assumes "\<And>l. nl_id (f l) = nl_id l" and "\<And>l. live_lease l \<Longrightarrow> live_lease (f l)" and "\<And>l. lease_claim (f l) = lease_claim l"
    and "holds j i c" and "nj_leases k = upd nl_id x f (nj_leases j)"
  shows "holds k i c"
  using assms by (auto simp: holds_def sel_upd)

lemma snd_transaction: "snd (transaction m j) = j \<or> snd (transaction m j) = snd (m j)"
  by (auto simp: transaction_def split: prod.split sum.split)

lemma snd_write_leases:
  assumes "\<And>x k. nj_leases (snd (g x k)) = nj_leases k"
  shows "nj_leases (snd (jbind (write_leases f) g j)) = nj_leases j \<or> nj_leases (snd (jbind (write_leases f) g j)) = f (nj_leases j)"
  using assms by (auto simp: jbind_def write_leases_def)

lemma snd_lease_as_read: "snd (lease_as_read i k) = k" "nj_leases (snd (jbind (lease_as_read i) (\<lambda>x. jret (x, b)) k)) = nj_leases k"
  by (auto simp: lease_as_read_def jread_def jbind_def jret_def split: sum.split option.split)

lemma acquire_attempt_leases:
  "nj_leases (snd (acquire_attempt now l w n k t j)) = nj_leases j \<or>
   nj_leases (snd (acquire_attempt now l w n k t j)) = nj_leases j @ [new_lease now l w n k t] \<or>
   nj_leases (snd (acquire_attempt now l w n k t j)) = upd nl_id l (activate now t) (nj_leases j)"
proof -
  note new = snd_write_leases [of "\<lambda>_. jbind (lease_as_read l) (\<lambda>x. jret (x, True))" "\<lambda>ls. ls @ [new_lease now l w n k t]" j, OF snd_lease_as_read(2)]
  note again = snd_write_leases [of "\<lambda>_. jbind (lease_as_read l) (\<lambda>x. jret (x, True))" "upd nl_id l (activate now t)" j, OF snd_lease_as_read(2)]
  have "nj_leases (snd (acquire_body now l w n k t j)) = nj_leases j \<or>
      nj_leases (snd (acquire_body now l w n k t j)) = nj_leases j @ [new_lease now l w n k t] \<or>
      nj_leases (snd (acquire_body now l w n k t j)) = upd nl_id l (activate now t) (nj_leases j)"
    using new again by (cases "nodeLeaseRow j l") (auto simp: acquire_body_def)
  then show ?thesis
    using snd_transaction [of "acquire_body now l w n k t" j] unfolding acquire_attempt_def by presburger
qed

lemma acquire_keeps_claims:
  assumes "holds j i c"
  shows "holds (snd (acquire_attempt now l w n k t j)) i c"
  using acquire_attempt_leases [of now l w n k t j]
proof (elim disjE)
  assume "nj_leases (snd (acquire_attempt now l w n k t j)) = nj_leases j"
  then show ?thesis using assms holds_same by blast
next
  assume "nj_leases (snd (acquire_attempt now l w n k t j)) = nj_leases j @ [new_lease now l w n k t]"
  then show ?thesis using assms by (auto simp: holds_def)
next
  assume leases: "nj_leases (snd (acquire_attempt now l w n k t j)) = upd nl_id l (activate now t) (nj_leases j)"
  show ?thesis by (rule holds_upd [OF _ _ _ assms leases]) (auto simp: activate_def live_lease_def lease_claim_def)
qed

lemma acquireWorkspaceLease_keeps_claims:
  assumes "holds j i c"
  shows "holds (snd (acquireWorkspaceLease sha now w n k v j)) i c"
proof -
  have "holds (snd (case acquire_attempt now l w n k t j of
        (Inl IndexViolation, j') \<Rightarrow>
          if \<exists>x\<in>set_option (activeLeaseRow j' n k). nl_id x \<noteq> l then (Inl LeaseConflicts, j')
          else acquire_attempt now l w n k t j'
      | r \<Rightarrow> r)) i c" for l t
    using acquire_keeps_claims [OF assms, of now l w n k t] acquire_keeps_claims [of "snd (acquire_attempt now l w n k t j)" i c now l w n k t]
    by (cases "acquire_attempt now l w n k t j") (auto split: sum.split node_error.split)
  then show ?thesis using assms
    by (cases "journal_encode v limit_event_payload") (simp_all add: acquireWorkspaceLease_def jopen_def jfail_def Let_def)
qed

lemma release_keeps_claims:
  assumes "holds j i c" and "isLeaseInUse i j"
  shows "holds (snd (releaseWorkspaceLease now l j)) i c"
proof (cases "l = i")
  case True
  then show ?thesis using assms
    by (auto simp: releaseWorkspaceLease_def jopen_def transaction_def holds_def live_lease_def split: option.splits sum.splits)
next
  case False
  let ?f = "\<lambda>l. l\<lparr>nl_status := LReleased, nl_released_at := Some now, nl_updated_at := now\<rparr>"
  note written = snd_write_leases [of "\<lambda>_. lease_as_read l" "upd nl_id l ?f" j]
  have "holds k i c" if "nj_leases k = nj_leases j \<or> nj_leases k = upd nl_id l ?f (nj_leases j)" for k
    using that assms(1) False by (auto simp: holds_def sel_upd)
  moreover have "nj_leases (snd (releaseWorkspaceLease now l j)) = nj_leases j \<or>
      nj_leases (snd (releaseWorkspaceLease now l j)) = upd nl_id l ?f (nj_leases j)"
    using written snd_lease_as_read(1) unfolding releaseWorkspaceLease_def jopen_def transaction_def
    by (auto split: option.splits sum.splits prod.splits; metis snd_conv)
  ultimately show ?thesis by blast
qed

lemma revision_keeps_claims: "holds j i c \<Longrightarrow> holds (snd (recordWorkspaceRevision now ob l x ph v j)) i c"
  by (auto simp: recordWorkspaceRevision_def jopen_def transaction_def holds_def sel_upd live_lease_def lease_claim_def
      split: option.splits sum.splits)

lemma ensureRun_leases: "nj_leases (snd (ensureRun now rid st j)) = nj_leases j"
  by (auto simp: ensureRun_def jopen_def split: option.split)

lemma jbind_leases:
  "nj_leases (snd (m j)) = nj_leases j \<Longrightarrow> (\<And>x k. nj_leases (snd (f x k)) = nj_leases k) \<Longrightarrow> nj_leases (snd (jbind m f j)) = nj_leases j"
  by (auto simp: jbind_def split: prod.split sum.split)

lemma insert_fanout_leases: "nj_leases (snd (jbind (insertEvent now rid q e) (\<lambda>ev. jbind (jwrite (fanout ev)) (\<lambda>_. jret (g ev))) j)) = nj_leases j"
  by (intro jbind_leases)
    (auto simp: insertEvent_def jwrite_def jret_def jbind_def fanout_def split: sum.split)

lemma transaction_leases: "nj_leases (snd (m j)) = nj_leases j \<Longrightarrow> nj_leases (snd (transaction m j)) = nj_leases j"
  using snd_transaction [of m j] by auto

lemma jopen_leases: "nj_leases (snd (m j)) = nj_leases j \<Longrightarrow> nj_leases (snd (jopen m j)) = nj_leases j"
  by (simp add: jopen_def)

lemma if_leases: "(c \<Longrightarrow> nj_leases (snd (m j)) = nj_leases j) \<Longrightarrow> (\<not> c \<Longrightarrow> nj_leases (snd (m' j)) = nj_leases j) \<Longrightarrow>
    nj_leases (snd ((if c then m else m') j)) = nj_leases j"
  by simp

lemma after_ensureRun_leases:
  "(\<And>r k. nj_leases (snd (f r k)) = nj_leases k) \<Longrightarrow> nj_leases (snd (jbind (ensureRun now rid st) f j)) = nj_leases j"
  by (rule jbind_leases) (rule ensureRun_leases)

lemmas lease_free = jopen_leases transaction_leases if_leases after_ensureRun_leases

lemma append_leases: "nj_leases (snd (append_event now rid e j)) = nj_leases j"
  unfolding append_event_def
  by (intro lease_free insert_fanout_leases [where g = "\<lambda>x. x"]) (simp add: jfail_def)

lemma appendAt_leases: "nj_leases (snd (appendAt now rid q e j)) = nj_leases j"
  unfolding appendAt_def
  by (intro lease_free) (auto simp: jfail_def jread_def insert_fanout_leases [where g = "\<lambda>x. (x, False)"] split: sum.split)

lemma bind_leases: "nj_leases (snd (bindRunToLease now rid l j)) = nj_leases j"
  unfolding bindRunToLease_def by (intro lease_free) (simp_all add: jfail_def jwrite_def jret_def)

lemma persist_leases: "nj_leases (snd (persistRunResult now rid st r j)) = nj_leases j"
  unfolding persistRunResult_def by (intro lease_free) (auto simp: jfail_def split: option.split sum.split)

lemma other_leases:
  "nj_leases (snd (markStatus now rid st at j)) = nj_leases j"
  "nj_leases (snd (pruneTerminalRuns t j)) = nj_leases j"
  "nj_leases (snd (drain i j)) = nj_leases j"
  "nj_leases (snd (close_sub i j)) = nj_leases j"
  "nj_leases (snd (close_journal j)) = nj_leases j"
  by (auto simp: markStatus_def pruneTerminalRuns_def drain_def close_sub_def close_journal_def jwrite_def at_sub_def jopen_def Let_def
      split: option.split)

lemma subscribe_leases: "nj_leases (snd (subscribe rid a mq j)) = nj_leases j"
  by (auto simp: subscribe_def jopen_def jbind_def replayMetadata_def readEvents_def jread_def split: sum.split)

lemma prune_events_leases: "nj_leases (snd (pruneRunEvents rid k j)) = nj_leases j"
  by (auto simp: pruneRunEvents_def jopen_def Let_def split: option.split)

lemma busy_step:
  assumes "holds j i c" and "isLeaseInUse i j"
  shows "holds (journal_step sha call j) i c"
  using assms
  by (cases call) (simp_all add: holds_same [OF ensureRun_leases] holds_same [OF append_leases] holds_same [OF appendAt_leases]
      holds_same [OF bind_leases] holds_same [OF persist_leases] holds_same [OF other_leases(1)] holds_same [OF other_leases(2)]
      holds_same [OF other_leases(3)] holds_same [OF other_leases(4)] holds_same [OF other_leases(5)] holds_same [OF subscribe_leases]
      holds_same [OF prune_events_leases] acquireWorkspaceLease_keeps_claims release_keeps_claims revision_keeps_claims)

section \<open>The gate for new runs\<close>

lemma activeLeaseRow_iff:
  assumes "node_lease_inv j"
  shows "activeLeaseRow j n k = Some l \<longleftrightarrow> l \<in> set (nj_leases j) \<and> live_lease l \<and> nl_node_id l = n \<and> nl_workspace_key l = k"
proof
  assume "activeLeaseRow j n k = Some l"
  then show "l \<in> set (nj_leases j) \<and> live_lease l \<and> nl_node_id l = n \<and> nl_workspace_key l = k"
    by (auto simp: activeLeaseRow_def find_Some_iff)
next
  assume l: "l \<in> set (nj_leases j) \<and> live_lease l \<and> nl_node_id l = n \<and> nl_workspace_key l = k"
  then obtain x where x: "activeLeaseRow j n k = Some x" by (cases "activeLeaseRow j n k") (auto simp: activeLeaseRow_def find_None_iff)
  then have "x \<in> set (nj_leases j) \<and> live_lease x \<and> nl_node_id x = n \<and> nl_workspace_key x = k"
    by (auto simp: activeLeaseRow_def find_Some_iff)
  with l assms have "x = l" by (auto simp: node_lease_inv_def lease_index_def distinct_map dest!: inj_onD)
  with x show "activeLeaseRow j n k = Some l" by simp
qed

lemma activeLeaseRow_None: "activeLeaseRow j n k = None \<longleftrightarrow> (\<forall>l\<in>set (nj_leases j). \<not> (live_lease l \<and> nl_node_id l = n \<and> nl_workspace_key l = k))"
  by (auto simp: activeLeaseRow_def find_None_iff)

end
