(* ===== verification/NodeProperties.thy ===== *)
theory NodeProperties
  imports NodeJournalFacts
begin

text \<open>
  The correctness of the Node journal over every history of its operations: its invariant, the
  exclusive leases and the gate for runs, and the delivery of a run's log to a subscriber.
\<close>

section \<open>Replay and live delivery\<close>

lemma decode_events_sequences: "decode_events rs = Inr es \<Longrightarrow> map re_sequence es = map ne_sequence rs"
  by (induction rs arbitrary: es) (auto simp: toEvent_def)

lemma retained_above:
  assumes "contiguous hi (map f es)" and "hi - int (length es) \<le> a" and "a \<le> hi"
  shows "sort_key f (filter (\<lambda>e. a < f e) es) = filter (\<lambda>e. a < f e) es" and "map f (filter (\<lambda>e. a < f e) es) = [a + 1..hi]"
proof -
  from assms(1) have es: "map f es = [hi - int (length es) + 1..hi]" by (simp add: contiguous_def)
  have "map f (filter (\<lambda>e. a < f e) es) = drop (nat (a - hi + int (length es))) [hi - int (length es) + 1..hi]"
    unfolding es [symmetric] drop_map using filter_above_is_drop [OF es, of a] by (simp add: algebra_simps)
  also have "\<dots> = [a + 1..hi]"
    using assms(2,3) by (intro nth_equalityI) (auto simp: nth_upto)
  finally show "map f (filter (\<lambda>e. a < f e) es) = [a + 1..hi]" .
  then show "sort_key f (filter (\<lambda>e. a < f e) es) = filter (\<lambda>e. a < f e) es" by (intro sort_key_id_if_sorted) simp
qed

text \<open>A subscriber is up to date when what it was given, with what is queued for it, is the log from its cursor \<open>a\<close>
  to \<open>hi\<close>, without a gap and without a repetition, and a filled queue has its drain scheduled.\<close>

definition gone :: "sub \<Rightarrow> bool" where
  "gone s = (su_closed s \<or> su_overflowed s)"

definition up_to_date :: "int \<Rightarrow> int \<Rightarrow> sub \<Rightarrow> bool" where
  "up_to_date a hi s \<longleftrightarrow> su_registered s \<and> (su_queue s = [] \<or> su_draining s) \<and> a \<le> hi \<and> su_cutoff s \<le> hi \<and>
    map re_sequence (su_delivered s @ su_queue s) = [a + 1..hi]"

definition covered :: "nat \<Rightarrow> int \<Rightarrow> string \<Rightarrow> journal \<Rightarrow> bool" where
  "covered i a rid j \<longleftrightarrow> i < length (nj_subs j) \<and> su_run_id (nj_subs j ! i) = rid \<and>
    (gone (nj_subs j ! i) \<or> (\<exists>r. runRow j rid = Some r \<and> up_to_date a (rn_last_sequence r) (nj_subs j ! i)))"


lemma covered_frame [simp]:
  "covered i a rid (j\<lparr>nj_closed := b\<rparr>) = covered i a rid j"
  "covered i a rid (j\<lparr>nj_leases := ls\<rparr>) = covered i a rid j"
  "covered i a rid (j\<lparr>nj_events := es\<rparr>) = covered i a rid j"
  "covered i a rid (j\<lparr>nj_results := xs\<rparr>) = covered i a rid j"
  "covered i a rid (j\<lparr>nj_revisions := rv\<rparr>) = covered i a rid j"
  by (simp_all add: covered_def)








text \<open>A subscription registers with the replay delivered and the last sequence as its cutoff.\<close>

lemma subscribe_Inr:
  assumes "subscribe rid a mq j = (Inr i, k)" and "runRow j rid = Some r"
  obtains es where "i = length (nj_subs j)"
    and "decode_events (take default_read_limit (sort_key ne_sequence (filter (\<lambda>e. a < ne_sequence e) (events_of_run j rid)))) = Inr es"
    and "k = j\<lparr>nj_subs := nj_subs j @ [\<lparr>su_run_id = rid, su_cutoff = rn_last_sequence r, su_max_queue = mq, su_queue = [],
      su_draining = False, su_overflowed = False, su_closed = False, su_registered = True, su_delivered = es\<rparr>]\<rparr>"
  using assms
  by (auto simp: subscribe_def jopen_def jbind_def replayMetadata_def readEvents_def jread_def split: if_splits sum.splits)

lemma subscribe_delivers:
  assumes "log_inv j" and "runRow j rid = Some r" and "rn_last_sequence r - int (length (events_of_run j rid)) \<le> a"
    and "a \<le> rn_last_sequence r" and "subscribe rid a mq j = (Inr i, k)"
  shows "i < length (nj_subs k) \<and> su_run_id (nj_subs k ! i) = rid \<and> su_registered (nj_subs k ! i) \<and> \<not> gone (nj_subs k ! i) \<and>
    su_queue (nj_subs k ! i) = [] \<and> su_cutoff (nj_subs k ! i) = rn_last_sequence r \<and> runRow k rid = Some r \<and>
    map re_sequence (su_delivered (nj_subs k ! i)) = take default_read_limit [a + 1..rn_last_sequence r]"
proof -
  obtain es where i: "i = length (nj_subs j)"
    and es: "decode_events (take default_read_limit (sort_key ne_sequence (filter (\<lambda>e. a < ne_sequence e) (events_of_run j rid)))) = Inr es"
    and k: "k = j\<lparr>nj_subs := nj_subs j @ [\<lparr>su_run_id = rid, su_cutoff = rn_last_sequence r, su_max_queue = mq, su_queue = [],
      su_draining = False, su_overflowed = False, su_closed = False, su_registered = True, su_delivered = es\<rparr>]\<rparr>"
    by (rule subscribe_Inr [OF assms(5,2)])
  have con: "contiguous (rn_last_sequence r) (map ne_sequence (events_of_run j rid))"
    using assms(1) sel_key [OF assms(2)] by (auto simp: log_inv_def)
  have "map re_sequence es = take default_read_limit [a + 1..rn_last_sequence r]"
    using decode_events_sequences [OF es] retained_above [of "rn_last_sequence r" ne_sequence "events_of_run j rid" a] con assms(3,4)
    by (simp flip: take_map)
  then show ?thesis using assms(2) by (simp add: i k gone_def nth_append)
qed


text \<open>Beyond the default limit of a read the replay is cut, but the cutoff is the last sequence: the events in between
  are neither replayed nor delivered live.\<close>

lemma long_replay_leaves_a_gap:
  assumes "log_inv j" and "runRow j rid = Some r" and "rn_last_sequence r - int (length (events_of_run j rid)) \<le> a"
    and "rn_last_sequence r - a > int default_read_limit" and "subscribe rid a mq j = (Inr i, k)"
  shows "map re_sequence (su_delivered (nj_subs k ! i)) = [a + 1..a + int default_read_limit] \<and>
    (\<forall>ev. re_sequence ev \<le> rn_last_sequence r \<longrightarrow> offer ev (nj_subs k ! i) = nj_subs k ! i)"
proof -
  have a: "a \<le> rn_last_sequence r" using assms(4) by (simp add: default_read_limit_def)
  have "take default_read_limit [a + 1..rn_last_sequence r] = [a + 1..a + int default_read_limit]"
    using assms(4) by (intro nth_equalityI) (auto simp: nth_upto)
  then show ?thesis using subscribe_delivers [OF assms(1-3) a assms(5)] by (auto simp: offer_def)
qed

text \<open>Pruning a whole log leaves its earliest retained sequence, so a replay of nothing is reported as complete.\<close>

lemma pruned_log_is_reported_complete:
  assumes "log_inv j" and "runRow j rid = Some r" and "\<not> nj_closed j" and "rn_earliest_retained r \<le> a + 1"
    and "pruneRunEvents rid 0 j = (Inr n, k)"
  shows "events_of_run k rid = [] \<and> (\<exists>m. fst (replayMetadata rid a k) = Inr (Some m) \<and> rm_complete m)"
proof -
  have con: "contiguous (rn_last_sequence r) (map ne_sequence (events_of_run j rid))"
    using assms(1) sel_key [OF assms(2)] by (auto simp: log_inv_def)
  let ?P = "\<lambda>e. \<not> (ne_run_id e = rid \<and> ne_sequence e \<le> rn_last_sequence r)"
  have all: "ne_sequence e \<le> rn_last_sequence r" if "e \<in> set (events_of_run j rid)" for e
  proof -
    have "ne_sequence e \<in> set (map ne_sequence (events_of_run j rid))" using that by simp
    then show ?thesis using con by (metis atLeastAtMost_iff contiguous_def set_upto)
  qed
  then have none: "filter (\<lambda>e. ne_run_id e = rid) (filter ?P (nj_events j)) = []" by (auto simp: events_of_run_def filter_empty_conv)
  show ?thesis
  proof (cases "events_of_run j rid = []")
    case True
    then have "k = j" using assms(3,5) by (simp add: pruneRunEvents_def jopen_def cutoff_def)
    then show ?thesis using True assms(2-4) by (simp add: replayMetadata_def jopen_def jread_def)
  next
    case False
    then have "cutoff 0 (map ne_sequence (events_of_run j rid)) = Some (rn_last_sequence r)" using cutoff_contiguous [OF con, of 0] by simp
    then have "nj_events k = filter ?P (nj_events j)" "nj_runs k = nj_runs j" "nj_closed k = nj_closed j"
      using assms(3,5) none by (auto simp: pruneRunEvents_def jopen_def Let_def min_seq_def)
    then show ?thesis using none assms(2-4) by (simp add: replayMetadata_def jopen_def jread_def events_of_run_def)
  qed
qed

section \<open>Properties\<close>

text \<open>C11: in every history of the journal the retained events of a run are numbered without a gap up to its last
  sequence, run ids, lease ids and results are unique, at most one lease per workspace is live, and no subscriber's
  queue exceeds its bound.\<close>

theorem journal_invariant: "journal_inv (run_journal sha cs empty_journal)"
  by (rule journal_inv_history [OF journal_inv_empty])

text \<open>C12: a workspace lease under which a run is in progress is never taken away: as long as some run bound to it has no
  terminal event, every operation, a release included, leaves it live with the same holder and
  workspace, and no other lease of that workspace is live.\<close>

theorem busy_lease_keeps_its_holder:
  assumes "holds (run_journal sha cs empty_journal) i (w, n, k)"
    and "\<And>m. m < length cs' \<Longrightarrow> isLeaseInUse i (run_journal sha (cs @ take m cs') empty_journal)"
  shows "holds (run_journal sha (cs @ cs') empty_journal) i (w, n, k) \<and>
    (\<forall>l\<in>set (nj_leases (run_journal sha (cs @ cs') empty_journal)). live_lease l \<and> nl_node_id l = n \<and> nl_workspace_key l = k \<longrightarrow> nl_id l = i)"
proof -
  have held: "holds (run_journal sha (cs @ cs') empty_journal) i (w, n, k)"
    using assms(2)
  proof (induction cs' rule: rev_induct)
    case (snoc c cs')
    have "holds (run_journal sha (cs @ cs') empty_journal) i (w, n, k)"
    proof (rule snoc.IH)
      fix m assume "m < length cs'"
      then show "isLeaseInUse i (run_journal sha (cs @ take m cs') empty_journal)" using snoc.prems [of m] by simp
    qed
    moreover have "isLeaseInUse i (run_journal sha (cs @ cs') empty_journal)" using snoc.prems [of "length cs'"] by simp
    ultimately have "holds (journal_step sha c (run_journal sha (cs @ cs') empty_journal)) i (w, n, k)" by (rule busy_step)
    then show ?case by (metis append.assoc run_journal_simps(2))
  qed (use assms(1) in simp)
  then obtain x where "x \<in> set (nj_leases (run_journal sha (cs @ cs') empty_journal))" "nl_id x = i" "live_lease x"
    "nl_node_id x = n" "nl_workspace_key x = k"
    by (auto simp: holds_def lease_claim_def dest!: sel_key)
  moreover have "node_lease_inv (run_journal sha (cs @ cs') empty_journal)"
    using journal_inv_history [OF journal_inv_empty] by (simp add: journal_inv_def)
  ultimately show ?thesis using held activeLeaseRow_iff by (metis option.inject)
qed

definition node_ts :: string where
  "node_ts = ''2026-01-01T00:00:00.000Z''"

definition node_revision :: jsval where
  "node_revision = JObj [(''revision_kind'', JStr ''unavailable''), (''state_hash'', JStr (replicate 64 (CHR ''a''))), (''observed_at'', JStr node_ts)]"


text \<open>Workflow \<open>w\<close> leases a workspace, a run under the lease is in progress, and both the release of the lease and the claim
  of another workflow fail.\<close>

definition busy_history :: "journal_call list" where
  "busy_history = [AcquireNodeLease node_ts ''w'' ''n'' ''k'' node_revision, BindRun node_ts ''r'' ''wl_w'']"

lemma node_revision_encoded: "journal_encode node_revision limit_event_payload = Inr (json_text node_revision)"
proof -
  have "json_ok node_revision" by code_simp
  then obtain t where t: "stringify node_revision = Some t" using json_ok_stringify by blast
  have "byteLen (json_text node_revision) \<le> 300" by code_simp
  then show ?thesis using t by (simp add: journal_encode_def limit_event_payload_def)
qed

lemma node_revision_read: "read_revision (Some (json_text node_revision)) = Inr (Some node_revision)"
proof -
  have "json_ok node_revision" by code_simp
  moreover have "isValidRevision node_revision" by code_simp
  moreover have "byteLen (json_text node_revision) \<le> 300" "json_text node_revision \<noteq> []" by code_simp+
  ultimately show ?thesis
    using json_parse_stringify [of node_revision] by (simp add: read_revision_def journal_decode_def limit_event_payload_def)
qed


abbreviation busy_lease :: node_lease_row where
  "busy_lease \<equiv> new_lease node_ts ''wl_w'' ''w'' ''n'' ''k'' (json_text node_revision)"

lemma busy_lease_read: "toLease busy_lease = Inr \<lparr>le_row = busy_lease, le_base_revision = Some node_revision, le_current_revision = Some node_revision\<rparr>"
proof -
  have "WORKSPACE_KEY_RE ''k''" by code_simp
  then show ?thesis using node_revision_read by (simp add: toLease_def new_lease_def isValidLease_def)
qed

lemma run_journal_Cons: "run_journal sha (c # cs) j = run_journal sha cs (journal_step sha c j)"
  by (simp add: run_journal_def)

lemma busy_acquired:
  "journal_step (take 1) (AcquireNodeLease node_ts ''w'' ''n'' ''k'' node_revision) empty_journal = empty_journal\<lparr>nj_leases := [busy_lease]\<rparr>"
  using busy_lease_read node_revision_encoded
  by (simp add: acquireWorkspaceLease_def jopen_def workspaceLeaseId_def acquire_attempt_def transaction_def acquire_body_def
      empty_journal_def activeLeaseRow_def jbind_def write_leases_def lease_index_def live_lease_def lease_as_read_def jread_def jret_def
      new_lease_def sel_def Let_def)

lemma busy_bound:
  "run_journal (take 1) busy_history empty_journal =
    empty_journal\<lparr>nj_leases := [busy_lease], nj_runs := [(new_run node_ts ''r'' ''running'')\<lparr>rn_lease_id := Some ''wl_w''\<rparr>]\<rparr>"
proof -
  have "isSafeId ''r''" by code_simp
  then show ?thesis
    unfolding busy_history_def run_journal_Cons busy_acquired
    by (simp add: bindRunToLease_def jopen_def transaction_def jbind_def ensureRun_def empty_journal_def jwrite_def new_run_def given_def upd_def)
qed

theorem busy_lease_keeps_its_holder_witness:
  "holds (run_journal (take 1) (busy_history @ [ReleaseNodeLease node_ts ''wl_w'']) empty_journal) ''wl_w'' (''w'', ''n'', ''k'')"
proof -
  have "holds (run_journal (take 1) busy_history empty_journal) ''wl_w'' (''w'', ''n'', ''k'')"
    unfolding busy_bound by (simp add: holds_def empty_journal_def new_lease_def live_lease_def lease_claim_def sel_def)
  moreover have "isLeaseInUse ''wl_w'' (run_journal (take 1) busy_history empty_journal)"
    unfolding busy_bound by (simp add: isLeaseInUse_def)
  then have "isLeaseInUse ''wl_w'' (run_journal (take 1) (busy_history @ take m [ReleaseNodeLease node_ts ''wl_w'']) empty_journal)"
    if "m < length [ReleaseNodeLease node_ts ''wl_w'']" for m
    using that by simp
  ultimately show ?thesis using busy_lease_keeps_its_holder by blast
qed

text \<open>C13: the Node lets a run start exactly when it presents the live lease of its workspace, or the workspace has no
  live lease and none is presented.\<close>

theorem run_gate_is_exact:
  "fst (validateWorkspaceLeaseForRun n k presented (run_journal sha cs empty_journal)) = Inr () \<longleftrightarrow>
    \<not> nj_closed (run_journal sha cs empty_journal) \<and>
    (if list_ex (\<lambda>l. live_lease l \<and> nl_node_id l = n \<and> nl_workspace_key l = k) (nj_leases (run_journal sha cs empty_journal))
     then given presented \<and> list_ex (\<lambda>l. live_lease l \<and> nl_node_id l = n \<and> nl_workspace_key l = k \<and> presented = Some (nl_id l))
       (nj_leases (run_journal sha cs empty_journal))
     else \<not> given presented)"
proof -
  let ?j = "run_journal sha cs empty_journal"
  have inv: "node_lease_inv ?j" using journal_inv_history [OF journal_inv_empty] by (simp add: journal_inv_def)
  show ?thesis
  proof (cases "activeLeaseRow ?j n k")
    case None
    then have "\<not> list_ex (\<lambda>l. live_lease l \<and> nl_node_id l = n \<and> nl_workspace_key l = k) (nj_leases ?j)"
      using activeLeaseRow_None [of ?j n k] by (auto simp: list_ex_iff)
    then show ?thesis using None by (simp add: validateWorkspaceLeaseForRun_def jopen_def jread_def)
  next
    case (Some l)
    then have l: "l \<in> set (nj_leases ?j)" "live_lease l" "nl_node_id l = n" "nl_workspace_key l = k"
      using activeLeaseRow_iff [OF inv, of n k l] by simp_all
    then have some: "list_ex (\<lambda>l. live_lease l \<and> nl_node_id l = n \<and> nl_workspace_key l = k) (nj_leases ?j)" by (auto simp: list_ex_iff)
    have only: "x = l" if "x \<in> set (nj_leases ?j)" "live_lease x" "nl_node_id x = n" "nl_workspace_key x = k" for x
      using that Some activeLeaseRow_iff [OF inv, of n k x] by simp
    have this_one: "list_ex (\<lambda>l. live_lease l \<and> nl_node_id l = n \<and> nl_workspace_key l = k \<and> presented = Some (nl_id l)) (nj_leases ?j) \<longleftrightarrow>
        presented = Some (nl_id l)"
      unfolding list_ex_iff using l only by blast
    show ?thesis unfolding this_one using Some some by (simp add: validateWorkspaceLeaseForRun_def jopen_def jread_def)
  qed
qed















end
