(* ===== verification/TaskContract.thy ===== *)
theory TaskContract
  imports JsonParse TaskVerification
begin

text \<open>
  The public contract of an agent task (\<open>src/lib/agent-task-contract.ts\<close>), the classification of
  remote failures (\<open>src/lib/run-error.ts\<close>) and the fingerprint by which a repeated creation
  request is recognised (\<open>src/lib/request-fingerprint.ts\<close>). All of it is pure: the validation of a
  request body, the projections of a run and of its events, and the maps of errors.
\<close>

section \<open>Statuses\<close>

datatype task_status = TsQueued | TsStarting | TsRunning | TsCompleted | TsFailed | TsCancelled

datatype run_status = RsQueued | RsRunning | RsCompleted | RsFailed | RsStopped | RsCancelled | RsBlocked

definition TASK_STATUSES :: "task_status list" where
  "TASK_STATUSES = [TsQueued, TsStarting, TsRunning, TsCompleted, TsFailed, TsCancelled]"

definition TERMINAL_TASK_STATUSES :: "task_status list" where
  "TERMINAL_TASK_STATUSES = [TsCompleted, TsFailed, TsCancelled]"

definition terminal_status :: "task_status \<Rightarrow> bool" where
  "terminal_status s = (s \<in> set TERMINAL_TASK_STATUSES)"

fun TASK_TRANSITIONS :: "task_status \<Rightarrow> task_status list" where
  "TASK_TRANSITIONS TsQueued = [TsStarting, TsRunning, TsCancelled, TsFailed]"
| "TASK_TRANSITIONS TsStarting = [TsRunning, TsCompleted, TsFailed, TsCancelled]"
| "TASK_TRANSITIONS TsRunning = [TsCompleted, TsFailed, TsCancelled]"
| "TASK_TRANSITIONS TsCompleted = []"
| "TASK_TRANSITIONS TsFailed = []"
| "TASK_TRANSITIONS TsCancelled = []"

definition isLegalTaskTransition :: "task_status \<Rightarrow> task_status \<Rightarrow> bool" where
  "isLegalTaskTransition s t = (t \<in> set (TASK_TRANSITIONS s))"

fun runStatusToTaskStatus :: "run_status \<Rightarrow> task_status" where
  "runStatusToTaskStatus RsQueued = TsQueued"
| "runStatusToTaskStatus RsRunning = TsRunning"
| "runStatusToTaskStatus RsCompleted = TsCompleted"
| "runStatusToTaskStatus RsFailed = TsFailed"
| "runStatusToTaskStatus RsStopped = TsCancelled"
| "runStatusToTaskStatus RsCancelled = TsCancelled"
| "runStatusToTaskStatus RsBlocked = TsRunning"

text \<open>The texts under which the statuses are stored and sent.\<close>

fun task_status_text :: "task_status \<Rightarrow> string" where
  "task_status_text TsQueued = ''queued''"
| "task_status_text TsStarting = ''starting''"
| "task_status_text TsRunning = ''running''"
| "task_status_text TsCompleted = ''completed''"
| "task_status_text TsFailed = ''failed''"
| "task_status_text TsCancelled = ''cancelled''"

section \<open>The projection of a run\<close>

text \<open>The fields of a \<open>RunRecord\<close> that the projection reads; the others (session, process, paths, keys) never leave it.\<close>

record run_record =
  ru_run_id :: string
  ru_agent :: string
  ru_final_agent :: "string option"
  ru_node_id :: string
  ru_status :: run_status
  ru_created_at :: string
  ru_updated_at :: string
  ru_switched :: bool
  ru_exit_code :: "int option"
  ru_error :: "string option"
  ru_failure_reason :: "string option"
  ru_recoverable :: "bool option"
  ru_metadata :: "jsval option"

record task_outcome =
  to_final_agent :: "string option"
  to_switched :: bool
  to_exit_code :: "int option"

record task_failure =
  tf_message :: string
  tf_reason :: "string option"
  tf_recoverable :: "bool option"
  tf_exit_code :: "int option"

record public_task =
  pt_task_id :: string
  pt_agent :: string
  pt_node_id :: string
  pt_status :: task_status
  pt_created_at :: string
  pt_updated_at :: string
  pt_result :: "task_outcome option"
  pt_error :: "task_failure option"
  pt_metadata :: "jsval option"

text \<open>An optional string in a condition: absent and empty are the same.\<close>

definition nonempty :: "string option \<Rightarrow> string option" where
  "nonempty x = (if x = Some [] then None else x)"

definition runRecordToTask :: "run_record \<Rightarrow> public_task" where
  "runRecordToTask r =
    (let status = runStatusToTaskStatus (ru_status r) in
     \<lparr>pt_task_id = ru_run_id r, pt_agent = (case ru_final_agent r of Some a \<Rightarrow> a | None \<Rightarrow> ru_agent r), pt_node_id = ru_node_id r,
      pt_status = status, pt_created_at = ru_created_at r, pt_updated_at = ru_updated_at r,
      pt_result = (if status = TsCompleted
        then Some \<lparr>to_final_agent = nonempty (ru_final_agent r), to_switched = ru_switched r, to_exit_code = ru_exit_code r\<rparr> else None),
      pt_error = (if status = TsFailed
        then Some \<lparr>tf_message = (case ru_error r of Some e \<Rightarrow> e | None \<Rightarrow> ''run failed''), tf_reason = nonempty (ru_failure_reason r),
          tf_recoverable = ru_recoverable r, tf_exit_code = ru_exit_code r\<rparr> else None),
      pt_metadata = ru_metadata r\<rparr>)"

section \<open>The creation request\<close>

definition IDEMPOTENCY_KEY_RE :: "string \<Rightarrow> bool" where
  "IDEMPOTENCY_KEY_RE = id_like is_alnum (\<lambda>c. is_alnum c \<or> c = CHR ''.'' \<or> c = CHR ''_'' \<or> c = CHR '':'' \<or> c = CHR ''-'') 127"

definition TASK_WORKSPACE_KEY_RE :: "string \<Rightarrow> bool" where
  "TASK_WORKSPACE_KEY_RE = id_like is_alnum (\<lambda>c. is_alnum c \<or> c = CHR ''.'' \<or> c = CHR ''_'' \<or> c = CHR ''-'') 127"

definition DEFERRED_WORKSPACE_FIELDS :: "string list" where
  "DEFERRED_WORKSPACE_FIELDS = [''repo_url'', ''branch'']"

definition DEFERRED_EXECUTION_FIELDS :: "string list" where
  "DEFERRED_EXECUTION_FIELDS = [''timeout_seconds'']"

definition CWD_PATH_MAX :: nat where "CWD_PATH_MAX = 1024"

definition CWD_CONTROL_RE :: "string \<Rightarrow> bool" where
  "CWD_CONTROL_RE s = list_ex (\<lambda>c. cunit c < 32 \<or> cunit c = 127) s"

datatype permission_mode = DefaultMode | UnsafeSkip

fun mode_text :: "permission_mode \<Rightarrow> string" where
  "mode_text DefaultMode = ''default''"
| "mode_text UnsafeSkip = ''unsafe-skip''"

record create_request =
  cr_agent :: string
  cr_node_id :: "string option"
  cr_text :: string
  cr_workspace_key :: "string option"
  cr_path :: "string option"
  cr_permission_mode :: "permission_mode option"
  cr_workspace_write :: "bool option"
  cr_metadata :: "jsval option"
  cr_idempotency_key :: "string option"
  cr_workspace_lease_id :: "string option"
  cr_verify :: "string option"

text \<open>One constructor per message of \<open>fail\<close>; each is an \<open>invalid_request\<close>.\<close>

datatype request_error =
    BodyNotObject | AgentRequired | NodeIdNotString | InputNotObject | InputTextRequired
  | ExecutionNotObject | ExecutionDeferred | PermissionModeInvalid | WorkspaceWriteNotBool
  | WorkspaceNotObject | WorkspaceDeferred | WorkspaceKeyInvalid | PathInvalid | PathNotAbsolute
  | PathWithKey | PathWithWrite | PathWithLease | MetadataNotObject | IdempotencyKeyInvalid | LeaseIdInvalid
  | VerifyInvalid verify_config_error

definition check_execution :: "jsval \<Rightarrow> request_error option" where
  "check_execution e =
    (if e = JUndef then None
     else if \<not> isObj e then Some ExecutionNotObject
     else if list_ex (\<lambda>f. fld e f \<noteq> JUndef) DEFERRED_EXECUTION_FIELDS then Some ExecutionDeferred
     else if fld e ''permission_mode'' \<notin> {JUndef, JStr ''default'', JStr ''unsafe-skip''} then Some PermissionModeInvalid
     else if fld e ''workspace_write'' \<noteq> JUndef \<and> \<not> isBool (fld e ''workspace_write'') then Some WorkspaceWriteNotBool
     else None)"

definition check_path :: "jsval \<Rightarrow> jsval \<Rightarrow> request_error option" where
  "check_path b w =
    (let p = fld w ''path'' in
     if p = JUndef then None
     else if \<not> isStr p \<or> str_of p = [] \<or> length (str_of p) > CWD_PATH_MAX \<or> CWD_CONTROL_RE (str_of p) then Some PathInvalid
     else if \<not> starts_with (str_of p) ''/'' then Some PathNotAbsolute
     else if fld w ''workspace_key'' \<noteq> JUndef then Some PathWithKey
     else if fld (fld b ''execution'') ''workspace_write'' = JBool True then Some PathWithWrite
     else if fld b ''workspace_lease_id'' \<noteq> JUndef then Some PathWithLease
     else None)"

definition check_workspace :: "jsval \<Rightarrow> request_error option" where
  "check_workspace b =
    (let w = fld b ''workspace'' in
     if w = JUndef then None
     else if \<not> isObj w then Some WorkspaceNotObject
     else if list_ex (\<lambda>f. fld w f \<noteq> JUndef) DEFERRED_WORKSPACE_FIELDS then Some WorkspaceDeferred
     else if fld w ''workspace_key'' \<noteq> JUndef
       \<and> (\<not> isStr (fld w ''workspace_key'') \<or> \<not> TASK_WORKSPACE_KEY_RE (str_of (fld w ''workspace_key''))) then Some WorkspaceKeyInvalid
     else check_path b w)"

text \<open>An optional field that has to be a bounded safe identifier.\<close>

definition bad_key :: "jsval \<Rightarrow> bool" where
  "bad_key v = (v \<noteq> JUndef \<and> (\<not> isStr v \<or> \<not> IDEMPOTENCY_KEY_RE (str_of v)))"

definition check_verify :: "jsval \<Rightarrow> request_error option" where
  "check_verify v = (if v = JUndef then None
     else (case validateTaskVerifyConfig v of Inl e \<Rightarrow> Some (VerifyInvalid e) | Inr _ \<Rightarrow> None))"

definition check_request :: "jsval \<Rightarrow> request_error option" where
  "check_request b =
    (if \<not> isObj b then Some BodyNotObject
     else if \<not> isStr (fld b ''agent'') \<or> trim (str_of (fld b ''agent'')) = [] then Some AgentRequired
     else if fld b ''node_id'' \<noteq> JUndef \<and> \<not> isStr (fld b ''node_id'') then Some NodeIdNotString
     else if \<not> isObj (fld b ''input'') then Some InputNotObject
     else if \<not> isStr (fld (fld b ''input'') ''text'') \<or> trim (str_of (fld (fld b ''input'') ''text'')) = [] then Some InputTextRequired
     else (case check_execution (fld b ''execution'') of Some e \<Rightarrow> Some e | None \<Rightarrow>
       (case check_workspace b of Some e \<Rightarrow> Some e | None \<Rightarrow>
         if fld b ''metadata'' \<noteq> JUndef \<and> \<not> isObj (fld b ''metadata'') then Some MetadataNotObject
         else if bad_key (fld b ''idempotency_key'') then Some IdempotencyKeyInvalid
         else if bad_key (fld b ''workspace_lease_id'') then Some LeaseIdInvalid
         else check_verify (fld b ''verify''))))"

definition opt_str :: "jsval \<Rightarrow> string option" where
  "opt_str v = (if isStr v then Some (str_of v) else None)"

definition opt_mode :: "jsval \<Rightarrow> permission_mode option" where
  "opt_mode v = (if v = JStr ''default'' then Some DefaultMode else if v = JStr ''unsafe-skip'' then Some UnsafeSkip else None)"

definition opt_bool :: "jsval \<Rightarrow> bool option" where
  "opt_bool v = (case v of JBool b \<Rightarrow> Some b | _ \<Rightarrow> None)"

definition request_of :: "jsval \<Rightarrow> create_request" where
  "request_of b = \<lparr>cr_agent = str_of (fld b ''agent''), cr_node_id = opt_str (fld b ''node_id''), cr_text = str_of (fld (fld b ''input'') ''text''),
     cr_workspace_key = opt_str (fld (fld b ''workspace'') ''workspace_key''), cr_path = opt_str (fld (fld b ''workspace'') ''path''),
     cr_permission_mode = opt_mode (fld (fld b ''execution'') ''permission_mode''),
     cr_workspace_write = opt_bool (fld (fld b ''execution'') ''workspace_write''),
     cr_metadata = (if isObj (fld b ''metadata'') then Some (fld b ''metadata'') else None),
     cr_idempotency_key = opt_str (fld b ''idempotency_key''), cr_workspace_lease_id = opt_str (fld b ''workspace_lease_id''),
     cr_verify = opt_str (fld (fld b ''verify'') ''profile'')\<rparr>"

definition validateCreateTaskRequest :: "jsval \<Rightarrow> request_error + create_request" where
  "validateCreateTaskRequest b = (case check_request b of Some e \<Rightarrow> Inl e | None \<Rightarrow> Inr (request_of b))"

section \<open>Events\<close>

datatype task_event_type = TeCreated | TeStarted | TeDelta | TeOutputCompleted | TeCompleted | TeFailed | TeCancelled

fun task_event_text :: "task_event_type \<Rightarrow> string" where
  "task_event_text TeCreated = ''task.created''"
| "task_event_text TeStarted = ''task.started''"
| "task_event_text TeDelta = ''agent.output.delta''"
| "task_event_text TeOutputCompleted = ''agent.output.completed''"
| "task_event_text TeCompleted = ''task.completed''"
| "task_event_text TeFailed = ''task.failed''"
| "task_event_text TeCancelled = ''task.cancelled''"

record task_event =
  ev_seq :: int
  ev_task_id :: string
  ev_type :: task_event_type
  ev_ts :: string
  ev_payload :: jsval

text \<open>\<open>RunEvent\<close>: the members of the union, with the fields the projection reads.\<close>

datatype run_event_body =
    StatusEvent run_status
  | LogEvent string string
  | ApprovalRequiredEvent
  | ApprovalResponseEvent
  | ToolCallEvent
  | PrCreatedEvent
  | ErrorEvent

record backend_event =
  be_run_id :: string
  be_ts :: string
  be_body :: run_event_body

definition task_event_of :: "backend_event \<Rightarrow> int \<Rightarrow> task_event_type \<Rightarrow> jsval \<Rightarrow> task_event" where
  "task_event_of e q ty payload = \<lparr>ev_seq = q, ev_task_id = be_run_id e, ev_type = ty, ev_ts = be_ts e, ev_payload = payload\<rparr>"

definition runEventToTaskEvent :: "backend_event \<Rightarrow> int \<Rightarrow> task_event option" where
  "runEventToTaskEvent e q = (case be_body e of
      StatusEvent RsRunning \<Rightarrow> Some (task_event_of e q TeStarted (JObj []))
    | StatusEvent RsCompleted \<Rightarrow> Some (task_event_of e q TeCompleted (JObj []))
    | StatusEvent RsFailed \<Rightarrow> Some (task_event_of e q TeFailed (JObj []))
    | StatusEvent RsStopped \<Rightarrow> Some (task_event_of e q TeCancelled (JObj []))
    | StatusEvent RsCancelled \<Rightarrow> Some (task_event_of e q TeCancelled (JObj []))
    | LogEvent stream message \<Rightarrow> Some (task_event_of e q TeDelta (JObj [(''stream'', JStr stream), (''text'', JStr message)]))
    | _ \<Rightarrow> None)"

section \<open>Agents\<close>

definition STREAMING_AGENTS :: "string list" where
  "STREAMING_AGENTS = [''mock'', ''claude-code'', ''codex'', ''opencode'']"

record agent_descriptor =
  ad_id :: string
  ad_node_id :: "string option"
  ad_available :: bool
  ad_streaming :: bool

definition buildAgentDescriptors :: "string list \<Rightarrow> string option \<Rightarrow> agent_descriptor list" where
  "buildAgentDescriptors ids node =
    map (\<lambda>i. \<lparr>ad_id = i, ad_node_id = nonempty node, ad_available = True, ad_streaming = (i \<in> set STREAMING_AGENTS)\<rparr>) ids"

section \<open>Errors\<close>

datatype api_code =
    InvalidRequest | Unauthorized | AgentUnavailable | NodeOffline | ServiceUnavailable | TaskNotFound | InvalidStateTransition
  | CancellationConflict | IdempotencyConflictCode | WorkspaceLeaseUnsupported | CwdNotAllowed | InternalError

fun RETRYABLE :: "api_code \<Rightarrow> bool" where
  "RETRYABLE NodeOffline = True"
| "RETRYABLE ServiceUnavailable = True"
| "RETRYABLE InternalError = True"
| "RETRYABLE _ = False"

record api_error =
  ae_code :: api_code
  ae_retryable :: bool
  ae_task_id :: "string option"

definition apiError :: "api_code \<Rightarrow> bool option \<Rightarrow> string option \<Rightarrow> api_error" where
  "apiError code retryable taskId =
    \<lparr>ae_code = code, ae_retryable = (case retryable of Some r \<Rightarrow> r | None \<Rightarrow> RETRYABLE code), ae_task_id = nonempty taskId\<rparr>"

fun apiErrorHttpStatus :: "api_code \<Rightarrow> int" where
  "apiErrorHttpStatus InvalidRequest = 400"
| "apiErrorHttpStatus Unauthorized = 401"
| "apiErrorHttpStatus TaskNotFound = 404"
| "apiErrorHttpStatus CancellationConflict = 409"
| "apiErrorHttpStatus InvalidStateTransition = 409"
| "apiErrorHttpStatus IdempotencyConflictCode = 409"
| "apiErrorHttpStatus AgentUnavailable = 422"
| "apiErrorHttpStatus WorkspaceLeaseUnsupported = 422"
| "apiErrorHttpStatus CwdNotAllowed = 400"
| "apiErrorHttpStatus NodeOffline = 503"
| "apiErrorHttpStatus ServiceUnavailable = 503"
| "apiErrorHttpStatus InternalError = 500"

datatype vibe_code = UserError | VibeNotFound | BackendError | ReadOnly | NodeNotFound | AgentNotSupported | NoRunnerAvailable

fun VIBE_ERROR_MAP :: "vibe_code \<Rightarrow> api_code" where
  "VIBE_ERROR_MAP UserError = InvalidRequest"
| "VIBE_ERROR_MAP VibeNotFound = TaskNotFound"
| "VIBE_ERROR_MAP BackendError = InternalError"
| "VIBE_ERROR_MAP ReadOnly = InvalidRequest"
| "VIBE_ERROR_MAP NodeNotFound = NodeOffline"
| "VIBE_ERROR_MAP AgentNotSupported = AgentUnavailable"
| "VIBE_ERROR_MAP NoRunnerAvailable = AgentUnavailable"

definition vibeErrorToApiError :: "vibe_code \<Rightarrow> string option \<Rightarrow> api_error" where
  "vibeErrorToApiError code runId = apiError (VIBE_ERROR_MAP code) None (nonempty runId)"

datatype run_code =
    RelayUnavailable | RunNodeOffline | RunUnauthorized | RunIsNotFound | RunAgentNotSupported | AlreadyTerminal | RemoteError | UnknownError

fun RUN_ERROR_MAP :: "run_code \<Rightarrow> api_code" where
  "RUN_ERROR_MAP RelayUnavailable = ServiceUnavailable"
| "RUN_ERROR_MAP RunNodeOffline = NodeOffline"
| "RUN_ERROR_MAP RunUnauthorized = Unauthorized"
| "RUN_ERROR_MAP RunIsNotFound = TaskNotFound"
| "RUN_ERROR_MAP RunAgentNotSupported = AgentUnavailable"
| "RUN_ERROR_MAP AlreadyTerminal = CancellationConflict"
| "RUN_ERROR_MAP RemoteError = InternalError"
| "RUN_ERROR_MAP UnknownError = InternalError"

definition runErrorToApiError :: "run_code \<Rightarrow> string option \<Rightarrow> api_error" where
  "runErrorToApiError code taskId = apiError (RUN_ERROR_MAP code) None taskId"

subsection \<open>Classification of remote failures\<close>

text \<open>The head of \<open>/^([a-z][a-z0-9_]+):/\<close>.\<close>

definition leadingCode :: "string \<Rightarrow> string option" where
  "leadingCode m =
    (let h = takeWhile (\<lambda>c. is_lower c \<or> is_digit c \<or> c = CHR ''_'') m in
     if 2 \<le> length h \<and> is_lower (hd h) \<and> starts_with (drop (length h) m) '':'' then Some h else None)"

fun CODE_MAP :: "string \<Rightarrow> run_code option" where
  "CODE_MAP h =
    (if h = ''run_not_found'' then Some RunIsNotFound
     else if h = ''already_terminal'' then Some AlreadyTerminal
     else if h = ''node_offline'' \<or> h = ''node_not_found'' then Some RunNodeOffline
     else if h = ''agent_not_supported'' then Some RunAgentNotSupported
     else None)"

definition word_char :: "char \<Rightarrow> bool" where
  "word_char c = (is_alnum c \<or> c = CHR ''_'')"

text \<open>An occurrence of \<open>t\<close> behind a word boundary (\<open>\b\<close>), and one between two of them; \<open>prev\<close> says whether the character before is
  a word character.\<close>

fun after_boundary :: "bool \<Rightarrow> (string \<Rightarrow> bool) \<Rightarrow> string \<Rightarrow> bool" where
  "after_boundary prev P [] = False"
| "after_boundary prev P (c # s) = ((prev \<noteq> word_char c \<and> P (c # s)) \<or> after_boundary (word_char c) P s)"

definition whole_word :: "string \<Rightarrow> string \<Rightarrow> bool" where
  "whole_word t s = (starts_with s t \<and> (drop (length t) s = [] \<or> \<not> word_char (hd (drop (length t) s))))"

definition auth_signal :: "string \<Rightarrow> bool" where
  "auth_signal m =
    (after_boundary False (\<lambda>s. whole_word ''401'' s \<or> whole_word ''403'' s) m \<or>
     list_ex (str_includes (to_lower m)) [''unauthor'', ''forbidden'', ''invalid token'', ''bad token'', ''require-pairing'',
       ''require_pairing'', ''require pairing'', ''requirepairing'', ''not paired''])"

definition transport_signal :: "string \<Rightarrow> bool" where
  "transport_signal m =
    (list_ex (str_includes (to_lower m)) [''econnrefused'', ''enotfound'', ''eai_again'', ''etimedout'', ''econnreset'', ''ehostunreach'',
       ''enetunreach'', ''epipe'', ''socket hang up'', ''getaddrinfo'', ''connection closed'', ''closed before'', ''timeout waiting''] \<or>
     after_boundary False (\<lambda>s. starts_with s ''connect '') (to_lower m))"

definition classifyRunError :: "string \<Rightarrow> run_code" where
  "classifyRunError m =
    (case Option.bind (leadingCode m) CODE_MAP of
       Some code \<Rightarrow> code
     | None \<Rightarrow>
         if auth_signal m then RunUnauthorized
         else if transport_signal m then RelayUnavailable
         else if leadingCode m \<noteq> None then RemoteError
         else UnknownError)"

definition runErrorExitCode :: "run_code \<Rightarrow> int" where
  "runErrorExitCode code = (if code = RunIsNotFound then 3 else 1)"

section \<open>The fingerprint of a request\<close>

text \<open>Keys are assigned in sorted order to a fresh object. An assignment to \<open>__proto__\<close> sets the prototype of the object or nothing,
  but makes no property.\<close>

fun canonicalize :: "jsval \<Rightarrow> jsval" where
  "canonicalize (JArr xs) = JArr (map canonicalize xs)"
| "canonicalize (JObj kvs) =
    JObj (own_properties (sort_key fst (filter (\<lambda>kv. fst kv \<noteq> ''__proto__'') (map (\<lambda>kv. (fst kv, canonicalize (snd kv))) kvs))))"
| "canonicalize v = v"

definition null_or :: "('a \<Rightarrow> jsval) \<Rightarrow> 'a option \<Rightarrow> jsval" where
  "null_or f x = (case x of None \<Rightarrow> JNull | Some y \<Rightarrow> f y)"

definition semantic_request :: "create_request \<Rightarrow> jsval" where
  "semantic_request r = JObj
    [(''agent'', JStr (cr_agent r)), (''node_id'', null_or JStr (cr_node_id r)), (''input_text'', JStr (cr_text r)),
     (''workspace_key'', null_or JStr (cr_workspace_key r)), (''workspace_path'', null_or JStr (cr_path r)),
     (''permission_mode'', null_or (\<lambda>m. JStr (mode_text m)) (cr_permission_mode r)),
     (''workspace_write'', null_or JBool (cr_workspace_write r)), (''workspace_lease_id'', null_or JStr (cr_workspace_lease_id r)),
     (''metadata'', null_or id (cr_metadata r))]"

definition fingerprint_text :: "create_request \<Rightarrow> string" where
  "fingerprint_text r = the (stringify (canonicalize (semantic_request r)))"

definition computeRequestFingerprint :: "(string \<Rightarrow> string) \<Rightarrow> create_request \<Rightarrow> string" where
  "computeRequestFingerprint sha r = sha (fingerprint_text r)"

end
