(* ===== verification/Gateway.thy ===== *)
theory Gateway
  imports TaskContract StoreReads
begin

text \<open>
  The task gateway (\<open>src/lib/agent-gateway.ts\<close>): its registry of live tasks over the durable store,
  the emission of events to the store, the replay buffer and the open event streams, and the
  one-time terminalisation of a task. The gateway is an event loop: every definition here is
  a stretch of code without an await. A call that awaits leaves an entry in \<open>gw_waits\<close> that names
  the rest of the code; the answer it waits for is an input of the definition that continues it.
\<close>

section \<open>State\<close>

datatype gateway_mode = LocalRun | RemoteRun

text \<open>\<open>GatewayTask\<close>. \<open>g_registered\<close> says whether the object is in the map \<open>tasks\<close>: closures keep using an object that was evicted.
  \<open>g_subs\<close> are the open responses. \<open>g_log\<close> is not in the code: all events ever published, of which \<open>g_events\<close> retains the last.\<close>

record gateway_task =
  g_id :: string
  g_agent :: string
  g_mode :: gateway_mode
  g_events :: "task_event list"
  g_log :: "task_event list"
  g_nextSeq :: int
  g_emitted :: nat
  g_subs :: "nat list"
  g_terminal :: bool
  g_cancelInFlight :: bool
  g_poll :: bool
  g_pumpActive :: bool
  g_reconciling :: bool
  g_resumeCount :: nat
  g_lastRecord :: "run_record option"
  g_revision :: int
  g_nodeId :: "string option"
  g_remoteRunId :: "string option"
  g_recovered :: bool
  g_historyTruncated :: bool
  g_replayCapable :: bool
  g_resultCapable :: "bool option"
  g_replayCutoff :: "int option"
  g_replayComplete :: bool
  g_catchUpCleared :: bool
  g_pendingResult :: "(string \<times> task_result option) option"
  g_registered :: bool

text \<open>The code after an await. The numbers of the first kind name the request that is answered, those of the last the attempt.\<close>

datatype wait =
    AwaitNodes nat create_request
  | AwaitRemoteStart nat gateway_task task_event
  | AwaitPlainStart nat create_request
  | AwaitLocalStart nat create_request
  | AwaitGet nat string
  | AwaitCancelStatus nat string
  | AwaitStop nat string
  | AwaitCancelAgain nat string string
  | AwaitResult string task_event nat
  | SleepResult string task_event nat
  | AwaitConvergence string
  | AwaitReconcile string nat
  | SleepReconcile string nat
  | RecoveryTimer string nat
  | AwaitRecovery string nat

datatype reply = Accepted string | Existing string | ShowRecord run_record | ShowRow task_row | Denied api_code

record gateway_config =
  gc_persist :: bool
  gc_remote :: bool
  gc_recover :: bool
  gc_maxActive :: int
  gc_maxRetained :: nat
  gc_maxEvents :: nat

text \<open>\<open>gw_frames\<close> are the events written to event streams, with the response each was written to; \<open>gw_gone\<close> are the responses
  whose client has disconnected or that were ended by the shutdown.\<close>

record gateway =
  gw_tasks :: "gateway_task list"
  gw_completed :: "string list"
  gw_active :: int
  gw_pending :: int
  gw_store :: wstore
  gw_waits :: "wait list"
  gw_frames :: "(nat \<times> task_event) list"
  gw_replies :: "(nat \<times> reply) list"
  gw_gone :: "nat list"
  gw_closing :: bool

definition task_object :: "gateway \<Rightarrow> string \<Rightarrow> gateway_task option" where
  "task_object g i = find (\<lambda>t. g_id t = i) (gw_tasks g)"

definition task_named :: "gateway \<Rightarrow> string \<Rightarrow> gateway_task option" where
  "task_named g i = find (\<lambda>t. g_id t = i \<and> g_registered t) (gw_tasks g)"

definition on_task :: "string \<Rightarrow> (gateway_task \<Rightarrow> gateway_task) \<Rightarrow> gateway \<Rightarrow> gateway" where
  "on_task i f g = g\<lparr>gw_tasks := map (\<lambda>t. if g_id t = i then f t else t) (gw_tasks g)\<rparr>"

text \<open>Code that runs on the object of a task.\<close>

definition with_task :: "string \<Rightarrow> (gateway_task \<Rightarrow> gateway \<Rightarrow> gateway) \<Rightarrow> gateway \<Rightarrow> gateway" where
  "with_task i f g = (case task_object g i of None \<Rightarrow> g | Some t \<Rightarrow> f t g)"

definition add_wait :: "wait \<Rightarrow> gateway \<Rightarrow> gateway" where
  "add_wait w g = g\<lparr>gw_waits := gw_waits g @ [w]\<rparr>"

definition answer_with :: "nat \<Rightarrow> reply \<Rightarrow> gateway \<Rightarrow> gateway" where
  "answer_with n r g = g\<lparr>gw_replies := gw_replies g @ [(n, r)]\<rparr>"

text \<open>A durable call whose failure is swallowed.\<close>

definition try_store :: "(wstore \<Rightarrow> store_error + wstore) \<Rightarrow> gateway \<Rightarrow> gateway" where
  "try_store f g = (case f (gw_store g) of Inl _ \<Rightarrow> g | Inr s \<Rightarrow> g\<lparr>gw_store := s\<rparr>)"

section \<open>Publishing\<close>

definition MAX_EVENTS_PER_TASK :: nat where "MAX_EVENTS_PER_TASK = 1000"
definition MAX_RETAINED_COMPLETED_TASKS :: nat where "MAX_RETAINED_COMPLETED_TASKS = 100"
definition MAX_ACTIVE_TASKS :: int where "MAX_ACTIVE_TASKS = 32"

definition toEventInput :: "task_event \<Rightarrow> task_event_input" where
  "toEventInput e = \<lparr>ti_sequence = ev_seq e, ti_type = task_event_text (ev_type e), ti_ts = ev_ts e, ti_payload = ev_payload e,
     ti_source_sequence = None\<rparr>"

definition shift_to :: "nat \<Rightarrow> 'a list \<Rightarrow> 'a list" where
  "shift_to n xs = (if length xs > n then tl xs else xs)"

definition publish_in :: "gateway_config \<Rightarrow> task_event \<Rightarrow> gateway_task \<Rightarrow> gateway_task" where
  "publish_in cfg e t = t\<lparr>g_events := shift_to (gc_maxEvents cfg) (g_events t @ [e]), g_log := g_log t @ [e]\<rparr>"

definition pushEvent :: "gateway_config \<Rightarrow> string \<Rightarrow> task_event \<Rightarrow> gateway \<Rightarrow> gateway" where
  "pushEvent cfg i e = with_task i (\<lambda>t g. (on_task i (publish_in cfg e) g)\<lparr>gw_frames := gw_frames g @ map (\<lambda>n. (n, e)) (g_subs t)\<rparr>)"

definition appendTaskEventDurable :: "string \<Rightarrow> string \<Rightarrow> task_event_input \<Rightarrow> wstore \<Rightarrow> store_error + wstore" where
  "appendTaskEventDurable now i e s = opened s (appendTaskEventSync now i e s)"

definition persistThenPush :: "gateway_config \<Rightarrow> string \<Rightarrow> string \<Rightarrow> task_event \<Rightarrow> gateway \<Rightarrow> gateway" where
  "persistThenPush cfg now i e g =
    (if gc_persist cfg then
       (case appendTaskEventDurable now i (toEventInput e) (gw_store g) of
          Inl _ \<Rightarrow> g
        | Inr s \<Rightarrow> pushEvent cfg i e (g\<lparr>gw_store := s\<rparr>))
     else pushEvent cfg i e g)"

definition next_event :: "string \<Rightarrow> task_event_type \<Rightarrow> jsval \<Rightarrow> gateway_task \<Rightarrow> task_event" where
  "next_event ts ty payload t = \<lparr>ev_seq = g_nextSeq t, ev_task_id = g_id t, ev_type = ty, ev_ts = ts, ev_payload = payload\<rparr>"

text \<open>\<open>synthEvent\<close>: the event takes the next sequence number of the task, whatever becomes of it.\<close>

definition synthEvent :: "string \<Rightarrow> string \<Rightarrow> task_event_type \<Rightarrow> jsval \<Rightarrow> (task_event \<Rightarrow> gateway \<Rightarrow> gateway) \<Rightarrow> gateway \<Rightarrow> gateway" where
  "synthEvent ts i ty payload k = with_task i (\<lambda>t g. k (next_event ts ty payload t) (on_task i (\<lambda>t. t\<lparr>g_nextSeq := g_nextSeq t + 1\<rparr>) g))"

section \<open>Finishing a task\<close>

definition evictIfNeeded :: "gateway_config \<Rightarrow> gateway \<Rightarrow> gateway" where
  "evictIfNeeded cfg g =
    (let n = length (gw_completed g) - gc_maxRetained cfg; victims = take n (gw_completed g) in
     g\<lparr>gw_completed := drop n (gw_completed g),
       gw_tasks := map (\<lambda>t. if g_id t \<in> set victims \<and> g_terminal t then t\<lparr>g_registered := False\<rparr> else t) (gw_tasks g)\<rparr>)"

definition end_streams :: "gateway_task \<Rightarrow> gateway_task" where
  "end_streams t = t\<lparr>g_terminal := True, g_poll := False, g_subs := []\<rparr>"

definition finishTask :: "gateway_config \<Rightarrow> string \<Rightarrow> gateway \<Rightarrow> gateway" where
  "finishTask cfg i = with_task i (\<lambda>t g.
     if g_terminal t then g
     else evictIfNeeded cfg ((on_task i end_streams g)\<lparr>gw_active := gw_active g - 1, gw_completed := gw_completed g @ [i]\<rparr>))"

definition TERMINAL_EVENT_TYPES :: "task_event_type list" where
  "TERMINAL_EVENT_TYPES = [TeCompleted, TeFailed, TeCancelled]"

definition terminal_type :: "task_event_type \<Rightarrow> bool" where
  "terminal_type ty = (ty \<in> set TERMINAL_EVENT_TYPES)"

definition terminalStatusFor :: "task_event_type \<Rightarrow> string" where
  "terminalStatusFor ty = (if ty = TeCompleted then ''completed'' else if ty = TeFailed then ''failed'' else ''cancelled'')"

text \<open>\<open>local_result\<close> is what the run's own record holds: the result, if its status is \<open>available\<close>. \<open>None\<close> also stands for a record
  that cannot be read.\<close>

definition gateway_terminal_result ::
  "(string \<Rightarrow> string) \<Rightarrow> jsval option \<Rightarrow> gateway_task \<Rightarrow> task_event \<Rightarrow> string \<times> task_result option" where
  "gateway_terminal_result sha local_result t e = (case g_pendingResult t of
      Some r \<Rightarrow> r
    | None \<Rightarrow>
        if ev_type e = TeCompleted \<and> g_mode t = LocalRun then
          (case local_result of
             None \<Rightarrow> (''missing'', None)
           | Some v \<Rightarrow> (case validateTaskResult sha v of Inl _ \<Rightarrow> (''invalid'', None) | Inr r \<Rightarrow> (''available'', Some r)))
        else (''missing'', None))"

definition terminal_update :: "task_event_type \<Rightarrow> (string \<times> string) option \<Rightarrow> task_patch" where
  "terminal_update ty err = \<lparr>tp_status = Some (terminalStatusFor ty), tp_remote_run_id = None, tp_workspace_key = None,
     tp_permission_mode = None, tp_metadata = JUndef, tp_terminal_at = None,
     tp_error_code = map_option (\<lambda>e. Some (fst e)) err, tp_error_message = map_option (\<lambda>e. Some (snd e)) err\<rparr>"

text \<open>What the terminalisation leaves in the store, and the revision of the row it returns.\<close>

definition terminalize ::
  "(string \<Rightarrow> string) \<Rightarrow> string \<Rightarrow> jsval option \<Rightarrow> (string \<times> string) option \<Rightarrow> gateway_task \<Rightarrow> task_event \<Rightarrow> gateway \<Rightarrow> gateway" where
  "terminalize sha now local_result err t e g =
    (let r = gateway_terminal_result sha local_result t e in
     case terminalizeTaskWithResultDurable now (g_id t) (g_revision t) (terminal_update (ev_type e) err) (toEventInput e) (fst r) (snd r) (gw_store g) of
       Inl _ \<Rightarrow> g
     | Inr s \<Rightarrow> on_task (g_id t) (\<lambda>t. t\<lparr>g_revision := (case taskRow s (g_id t) of None \<Rightarrow> g_revision t | Some row \<Rightarrow> tk_revision row)\<rparr>)
         (g\<lparr>gw_store := s\<rparr>))"

definition finishWithTerminal ::
  "gateway_config \<Rightarrow> (string \<Rightarrow> string) \<Rightarrow> string \<Rightarrow> jsval option \<Rightarrow> (string \<times> string) option \<Rightarrow> string \<Rightarrow> task_event \<Rightarrow> gateway \<Rightarrow> gateway" where
  "finishWithTerminal cfg sha now local_result err i e = with_task i (\<lambda>t g.
     if g_terminal t then g
     else finishTask cfg i (pushEvent cfg i e (if gc_persist cfg then terminalize sha now local_result err t e g else g)))"

section \<open>Remote results\<close>

definition REMOTE_RESULT_ATTEMPTS :: nat where "REMOTE_RESULT_ATTEMPTS = 3"

definition finish_missing :: "gateway_config \<Rightarrow> (string \<Rightarrow> string) \<Rightarrow> string \<Rightarrow> string \<Rightarrow> task_event \<Rightarrow> gateway \<Rightarrow> gateway" where
  "finish_missing cfg sha now i e g =
    finishWithTerminal cfg sha now None None i e (on_task i (\<lambda>t. t\<lparr>g_pendingResult := Some (''missing'', None)\<rparr>) g)"

text \<open>The loop of \<open>finishRemoteWithResult\<close> from its test on, and its answers.\<close>

definition result_loop :: "gateway_config \<Rightarrow> (string \<Rightarrow> string) \<Rightarrow> string \<Rightarrow> string \<Rightarrow> task_event \<Rightarrow> nat \<Rightarrow> gateway \<Rightarrow> gateway" where
  "result_loop cfg sha now i e n = with_task i (\<lambda>t g.
     if n < REMOTE_RESULT_ATTEMPTS \<and> \<not> g_terminal t then add_wait (AwaitResult i e n) g
     else if g_resultCapable t = None \<and> \<not> g_terminal t then finish_missing cfg sha now i e g
     else g)"

definition finishRemoteWithResult :: "gateway_config \<Rightarrow> (string \<Rightarrow> string) \<Rightarrow> string \<Rightarrow> string \<Rightarrow> task_event \<Rightarrow> gateway \<Rightarrow> gateway" where
  "finishRemoteWithResult cfg sha now i e = with_task i (\<lambda>t g.
     if g_terminal t then g
     else if \<not> gc_remote cfg \<or> g_mode t \<noteq> RemoteRun \<or> nonempty (g_remoteRunId t) = None then finishWithTerminal cfg sha now None None i e g
     else if g_resultCapable t = Some False then finish_missing cfg sha now i e g
     else result_loop cfg sha now i e 0 g)"

definition result_answered ::
  "gateway_config \<Rightarrow> (string \<Rightarrow> string) \<Rightarrow> string \<Rightarrow> string \<Rightarrow> task_event \<Rightarrow> nat \<Rightarrow> (string \<times> task_result option) option \<Rightarrow> gateway \<Rightarrow> gateway" where
  "result_answered cfg sha now i e n answer g = (case answer of
      Some r \<Rightarrow> finishWithTerminal cfg sha now None None i e (on_task i (\<lambda>t. t\<lparr>g_pendingResult := Some r\<rparr>) g)
    | None \<Rightarrow> if n + 1 < REMOTE_RESULT_ATTEMPTS then add_wait (SleepResult i e n) g else result_loop cfg sha now i e (n + 1) g)"

text \<open>\<open>fetchRemoteResult\<close> up to its await, and \<open>fetchAndPersistRemoteResult\<close> after it. Where there is nothing to fetch the code after
  the await runs at once.\<close>

definition persist_pending :: "string \<Rightarrow> string \<Rightarrow> gateway \<Rightarrow> gateway" where
  "persist_pending now i = with_task i (\<lambda>t g. case g_pendingResult t of
      None \<Rightarrow> g
    | Some r \<Rightarrow> try_store (\<lambda>s. and_then (persistTaskResultDurable now i (fst r) (snd r) s) (\<lambda>x. Inr (fst x))) g)"

definition fetchAndPersistRemoteResult :: "gateway_config \<Rightarrow> string \<Rightarrow> string \<Rightarrow> gateway \<Rightarrow> gateway" where
  "fetchAndPersistRemoteResult cfg now i = with_task i (\<lambda>t g.
     if \<not> gc_persist cfg \<or> g_mode t \<noteq> RemoteRun then g
     else if g_pendingResult t \<noteq> None \<or> \<not> gc_remote cfg \<or> nonempty (g_remoteRunId t) = None then persist_pending now i g
     else if g_resultCapable t = Some False then persist_pending now i (on_task i (\<lambda>t. t\<lparr>g_pendingResult := Some (''missing'', None)\<rparr>) g)
     else add_wait (AwaitConvergence i) g)"

definition convergence_answered :: "string \<Rightarrow> string \<Rightarrow> (string \<times> task_result option) option \<Rightarrow> gateway \<Rightarrow> gateway" where
  "convergence_answered now i answer g = persist_pending now i (case answer of
      None \<Rightarrow> g
    | Some r \<Rightarrow> on_task i (\<lambda>t. t\<lparr>g_pendingResult := Some r\<rparr>) g)"

section \<open>Sources of events\<close>

text \<open>\<open>ingest\<close>; the second component says whether the event ended the task.\<close>

definition ingest ::
  "gateway_config \<Rightarrow> (string \<Rightarrow> string) \<Rightarrow> string \<Rightarrow> jsval option \<Rightarrow> string \<Rightarrow> backend_event \<Rightarrow> gateway \<Rightarrow> gateway \<times> bool" where
  "ingest cfg sha now local_result i e g = (case task_object g i of
      None \<Rightarrow> (g, True)
    | Some t \<Rightarrow>
        if g_terminal t then (g, True)
        else (case runEventToTaskEvent e (g_nextSeq t) of
            None \<Rightarrow> (g, False)
          | Some te0 \<Rightarrow>
              let te = te0\<lparr>ev_task_id := i\<rparr>; g1 = on_task i (\<lambda>t. t\<lparr>g_nextSeq := g_nextSeq t + 1\<rparr>) g in
              if terminal_type (ev_type te) then
                (if g_mode t = RemoteRun then finishRemoteWithResult cfg sha now i te g1
                 else finishWithTerminal cfg sha now local_result None i te g1, True)
              else (persistThenPush cfg now i te g1, False)))"

text \<open>\<open>drain\<close>: the events of a local run from the poller's cursor on.\<close>

fun drain_events ::
  "gateway_config \<Rightarrow> (string \<Rightarrow> string) \<Rightarrow> string \<Rightarrow> jsval option \<Rightarrow> string \<Rightarrow> nat \<Rightarrow> backend_event list \<Rightarrow> gateway \<Rightarrow> gateway" where
  "drain_events cfg sha now local_result i n [] g = on_task i (\<lambda>t. t\<lparr>g_emitted := n\<rparr>) g"
| "drain_events cfg sha now local_result i n (e # es) g =
    (let (g1, ended) = ingest cfg sha now local_result i e g in
     if ended then on_task i (\<lambda>t. t\<lparr>g_emitted := n + 1\<rparr>) g1
     else drain_events cfg sha now local_result i (n + 1) es g1)"

definition drain_run ::
  "gateway_config \<Rightarrow> (string \<Rightarrow> string) \<Rightarrow> string \<Rightarrow> jsval option \<Rightarrow> backend_event list option \<Rightarrow> string \<Rightarrow> gateway \<Rightarrow> gateway" where
  "drain_run cfg sha now local_result run_events i = with_task i (\<lambda>t g. case run_events of
      None \<Rightarrow> g
    | Some es \<Rightarrow> if g_emitted t < length es then drain_events cfg sha now local_result i (g_emitted t) (drop (g_emitted t) es) g
        else on_task i (\<lambda>t. t\<lparr>g_emitted := length es\<rparr>) g)"

definition startPoll ::
  "gateway_config \<Rightarrow> (string \<Rightarrow> string) \<Rightarrow> string \<Rightarrow> jsval option \<Rightarrow> backend_event list option \<Rightarrow> string \<Rightarrow> gateway \<Rightarrow> gateway" where
  "startPoll cfg sha now local_result run_events i g =
    with_task i (\<lambda>t g. if g_terminal t then g else on_task i (\<lambda>t. t\<lparr>g_poll := True\<rparr>) g)
      (drain_run cfg sha now local_result run_events i g)"

definition startRemotePump :: "string \<Rightarrow> gateway \<Rightarrow> gateway" where
  "startRemotePump i = with_task i (\<lambda>t g.
     if g_terminal t \<or> g_pumpActive t then g else on_task i (\<lambda>t. t\<lparr>g_pumpActive := True\<rparr>) g)"

text \<open>The replay pump starts at the cursor it is given; what the Node then sends are inputs of \<open>ingestSource\<close>.\<close>

definition startReplayPump :: "gateway_config \<Rightarrow> string \<Rightarrow> gateway \<Rightarrow> gateway" where
  "startReplayPump cfg i = with_task i (\<lambda>t g.
     if g_terminal t \<or> g_pumpActive t \<or> \<not> gc_persist cfg then g else on_task i (\<lambda>t. t\<lparr>g_pumpActive := True\<rparr>) g)"

definition resumePump :: "gateway_config \<Rightarrow> string \<Rightarrow> gateway \<Rightarrow> gateway" where
  "resumePump cfg i = with_task i (\<lambda>t g.
     if g_terminal t \<or> g_pumpActive t then g
     else if g_replayCapable t \<and> gc_persist cfg then startReplayPump cfg i g
     else startRemotePump i g)"

section \<open>Replayed source events\<close>

definition maybeClearCatchUp :: "gateway_config \<Rightarrow> string \<Rightarrow> gateway \<Rightarrow> gateway" where
  "maybeClearCatchUp cfg i = with_task i (\<lambda>t g.
     if g_catchUpCleared t \<or> \<not> g_replayComplete t \<or> \<not> gc_persist cfg then g
     else (case (g_replayCutoff t, taskRow (gw_store g) i) of
         (Some c, Some row) \<Rightarrow>
           if (case tk_last_remote_event_sequence row of None \<Rightarrow> -1 | Some q \<Rightarrow> q) \<ge> c then
             (case clearTaskHistoryIncomplete i (gw_store g) of
                Inl _ \<Rightarrow> g
              | Inr s \<Rightarrow> on_task i (\<lambda>t. t\<lparr>g_catchUpCleared := True, g_historyTruncated := False\<rparr>) (g\<lparr>gw_store := s\<rparr>))
           else g
       | _ \<Rightarrow> g))"

text \<open>The node's answer to a replay request: its last sequence and whether the requested history is complete, where it says so.\<close>

definition handleReplayMeta :: "gateway_config \<Rightarrow> string \<Rightarrow> (int option \<times> bool option) option \<Rightarrow> gateway \<Rightarrow> gateway" where
  "handleReplayMeta cfg i meta = with_task i (\<lambda>t g.
     if \<not> gc_persist cfg then g
     else (case meta of
         None \<Rightarrow> on_task i (\<lambda>t. t\<lparr>g_historyTruncated := True\<rparr>)
           (try_store (markTaskHistoryIncomplete i ''remote_source_cursor_unknown'' (g_nextSeq t - 1)) g)
       | Some (latest, complete) \<Rightarrow>
           let g1 = on_task i (\<lambda>t. t\<lparr>g_replayCutoff := latest, g_replayComplete := (complete = Some True)\<rparr>) g in
           if complete = Some False then on_task i (\<lambda>t. t\<lparr>g_historyTruncated := True\<rparr>)
             (try_store (markTaskHistoryIncomplete i ''node_journal_truncated'' (g_nextSeq t - 1)) g1)
           else maybeClearCatchUp cfg i g1))"

definition source_input :: "task_event \<Rightarrow> source_event" where
  "source_input te = \<lparr>sv_type = task_event_text (ev_type te), sv_ts = ev_ts te, sv_payload = ev_payload te,
     sv_terminal = terminal_type (ev_type te), sv_status = (if terminal_type (ev_type te) then Some (terminalStatusFor (ev_type te)) else None),
     sv_error_code = None, sv_error_message = None\<rparr>"

text \<open>After the transaction: the event is published if it was new, and a terminal one ends the task.\<close>

definition source_stored :: "gateway_config \<Rightarrow> string \<Rightarrow> string \<Rightarrow> task_event \<Rightarrow> wstore \<Rightarrow> bool \<Rightarrow> int \<Rightarrow> gateway \<Rightarrow> gateway" where
  "source_stored cfg now i te s applied seq g =
    (let g1 = on_task i (\<lambda>t. t\<lparr>g_revision := (case taskRow s i of None \<Rightarrow> g_revision t | Some row \<Rightarrow> tk_revision row)\<rparr>) (g\<lparr>gw_store := s\<rparr>);
         te2 = te\<lparr>ev_seq := seq, ev_task_id := i\<rparr>;
         g2 = (if applied then pushEvent cfg i te2 (on_task i (\<lambda>t. t\<lparr>g_nextSeq := max (g_nextSeq t) (seq + 1)\<rparr>) g1) else g1);
         g3 = (if applied \<and> terminal_type (ev_type te) then fetchAndPersistRemoteResult cfg now i (finishTask cfg i g2) else g2)
     in maybeClearCatchUp cfg i g3)"

definition ingestSource :: "gateway_config \<Rightarrow> string \<Rightarrow> string \<Rightarrow> backend_event \<Rightarrow> int \<Rightarrow> gateway \<Rightarrow> gateway" where
  "ingestSource cfg now i e q = with_task i (\<lambda>t g.
     if g_terminal t \<or> \<not> gc_persist cfg then g
     else (case runEventToTaskEvent e 0 of
         None \<Rightarrow> maybeClearCatchUp cfg i (try_store (\<lambda>s. and_then (advanceSourceCursor now i q s) (\<lambda>x. Inr (fst x))) g)
       | Some te \<Rightarrow>
           (case ingestSourceEventDurable now i q (source_input te) (gw_store g) of
              Inl _ \<Rightarrow> g
            | Inr (s, applied, seq) \<Rightarrow> source_stored cfg now i te s applied seq g)))"

section \<open>Reconciliation\<close>

definition REMOTE_RECONCILE_ATTEMPTS :: nat where "REMOTE_RECONCILE_ATTEMPTS = 3"
definition REMOTE_MAX_RESUMES :: nat where "REMOTE_MAX_RESUMES = 3"

fun terminal_event_type :: "task_status \<Rightarrow> task_event_type" where
  "terminal_event_type TsCompleted = TeCompleted"
| "terminal_event_type TsFailed = TeFailed"
| "terminal_event_type _ = TeCancelled"

definition reconcileRemoteRecord ::
  "gateway_config \<Rightarrow> (string \<Rightarrow> string) \<Rightarrow> string \<Rightarrow> string \<Rightarrow> string \<Rightarrow> run_record \<Rightarrow> gateway \<Rightarrow> gateway" where
  "reconcileRemoteRecord cfg sha now ts i rec g =
    with_task i (\<lambda>t g.
      if g_terminal t then g
      else let status = runStatusToTaskStatus (ru_status rec) in
        if \<not> terminal_status status then g
        else synthEvent ts i (terminal_event_type status) (JObj []) (\<lambda>e. finishRemoteWithResult cfg sha now i e) g)
      (on_task i (\<lambda>t. t\<lparr>g_lastRecord := Some rec\<rparr>) g)"

definition reconcile_loop :: "string \<Rightarrow> nat \<Rightarrow> gateway \<Rightarrow> gateway" where
  "reconcile_loop i n = with_task i (\<lambda>t g.
     if n < REMOTE_RECONCILE_ATTEMPTS \<and> \<not> g_terminal t then add_wait (AwaitReconcile i n) g
     else on_task i (\<lambda>t. t\<lparr>g_reconciling := False\<rparr>) g)"

definition reconcileViaStatus :: "string \<Rightarrow> gateway \<Rightarrow> gateway" where
  "reconcileViaStatus i = with_task i (\<lambda>t g.
     if g_terminal t \<or> g_reconciling t then g else reconcile_loop i 0 (on_task i (\<lambda>t. t\<lparr>g_reconciling := True\<rparr>) g))"

definition reconcile_answered ::
  "gateway_config \<Rightarrow> (string \<Rightarrow> string) \<Rightarrow> string \<Rightarrow> string \<Rightarrow> string \<Rightarrow> nat \<Rightarrow> run_record option \<Rightarrow> gateway \<Rightarrow> gateway" where
  "reconcile_answered cfg sha now ts i n answer g = (case answer of
      None \<Rightarrow> add_wait (SleepReconcile i n) g
    | Some rec \<Rightarrow> on_task i (\<lambda>t. t\<lparr>g_reconciling := False\<rparr>)
        (with_task i (\<lambda>t g.
           if g_terminal t then g
           else if g_resumeCount t < REMOTE_MAX_RESUMES then resumePump cfg i (on_task i (\<lambda>t. t\<lparr>g_resumeCount := g_resumeCount t + 1\<rparr>) g)
           else g)
          (reconcileRemoteRecord cfg sha now ts i rec g)))"

end
