(* ===== verification/GatewayRoutes.thy ===== *)
theory GatewayRoutes
  imports Gateway
begin

text \<open>
  The routes of the task gateway (\<open>src/lib/agent-gateway.ts\<close>): creation with its idempotency check,
  its capacity check and its remote preflight, status, event streams and cancellation. HTTP,
  authentication and the JSON text of requests and answers are not modelled.
\<close>

section \<open>Creation\<close>

definition GATEWAY_LOCAL_AGENTS :: "string list" where
  "GATEWAY_LOCAL_AGENTS = [''mock'']"

definition is_remote :: "create_request \<Rightarrow> bool" where
  "is_remote r = (case nonempty (cr_node_id r) of None \<Rightarrow> False | Some n \<Rightarrow> n \<noteq> ''local'' \<and> n \<noteq> ''auto'')"

definition reserve :: "gateway \<Rightarrow> gateway" where
  "reserve g = g\<lparr>gw_pending := gw_pending g + 1\<rparr>"

definition release :: "gateway \<Rightarrow> gateway" where
  "release g = g\<lparr>gw_pending := gw_pending g - 1\<rparr>"

definition deny :: "nat \<Rightarrow> api_code \<Rightarrow> gateway \<Rightarrow> gateway" where
  "deny n code = answer_with n (Denied code)"

text \<open>The checks before the idempotency check.\<close>

definition request_refused :: "gateway_config \<Rightarrow> create_request \<Rightarrow> api_code option" where
  "request_refused cfg r =
    (if is_remote r \<and> \<not> gc_remote cfg then Some InvalidRequest
     else if \<not> is_remote r \<and> cr_agent r \<notin> set GATEWAY_LOCAL_AGENTS then Some AgentUnavailable
     else if nonempty (cr_workspace_lease_id r) \<noteq> None \<and> \<not> is_remote r then Some WorkspaceLeaseUnsupported
     else if nonempty (cr_path r) \<noteq> None \<and> \<not> is_remote r then Some AgentUnavailable
     else None)"

text \<open>The idempotency pre-check: the answer it gives, if it ends the request. A failing read counts as no task.\<close>

definition precheck :: "gateway_config \<Rightarrow> (string \<Rightarrow> string) \<Rightarrow> create_request \<Rightarrow> wstore \<Rightarrow> reply option" where
  "precheck cfg sha r s = (case nonempty (cr_idempotency_key r) of
      None \<Rightarrow> None
    | Some k \<Rightarrow>
        if \<not> gc_persist cfg then Some (Denied InvalidRequest)
        else if ws_closed s then None
        else (case task_by_key s k of
            None \<Rightarrow> None
          | Some row \<Rightarrow> if tk_request_fingerprint row \<noteq> Some (computeRequestFingerprint sha r) then Some (Denied IdempotencyConflictCode)
              else Some (Existing (tk_id row))))"

text \<open>\<open>written\<close> says whether the prompt file could be written: a failure there is an exception after the reservation.\<close>

definition handleCreate :: "gateway_config \<Rightarrow> (string \<Rightarrow> string) \<Rightarrow> bool \<Rightarrow> nat \<Rightarrow> jsval \<Rightarrow> gateway \<Rightarrow> gateway" where
  "handleCreate cfg sha written n body g = (case validateCreateTaskRequest body of
      Inl _ \<Rightarrow> deny n InvalidRequest g
    | Inr r \<Rightarrow> (case request_refused cfg r of
        Some code \<Rightarrow> deny n code g
      | None \<Rightarrow> (case precheck cfg sha r (gw_store g) of
          Some a \<Rightarrow> answer_with n a g
        | None \<Rightarrow>
            if gw_active g + gw_pending g \<ge> gc_maxActive cfg then deny n ServiceUnavailable g
            else if is_remote r then add_wait (AwaitNodes n r) (reserve g)
            else if written then add_wait (AwaitLocalStart n r) (reserve g)
            else deny n InternalError (reserve g))))"

record node_info =
  ni_id :: string
  ni_online :: bool
  ni_agents :: "string list"
  ni_key :: bool
  ni_capabilities :: "string list"

definition preflight :: "create_request \<Rightarrow> node_info list \<Rightarrow> api_code + node_info" where
  "preflight r nodes = (case find (\<lambda>x. Some (ni_id x) = cr_node_id r) nodes of
      None \<Rightarrow> Inl NodeOffline
    | Some x \<Rightarrow>
        if \<not> ni_online x then Inl NodeOffline
        else if cr_agent r \<notin> set (ni_agents x) then Inl AgentUnavailable
        else if \<not> ni_key x then Inl ServiceUnavailable
        else if nonempty (cr_workspace_lease_id r) \<noteq> None \<and> ''workspace_lease_v1'' \<notin> set (ni_capabilities x) then Inl WorkspaceLeaseUnsupported
        else if nonempty (cr_path r) \<noteq> None \<and> ''cwd'' \<notin> set (ni_capabilities x) then Inl AgentUnavailable
        else Inr x)"

definition new_gateway_task :: "string \<Rightarrow> string \<Rightarrow> gateway_mode \<Rightarrow> string option \<Rightarrow> string option \<Rightarrow> gateway_task" where
  "new_gateway_task i agent mode node run = \<lparr>g_id = i, g_agent = agent, g_mode = mode, g_events = [], g_log = [], g_nextSeq = 0, g_emitted = 0,
     g_subs = [], g_terminal = False, g_cancelInFlight = False, g_poll = False, g_pumpActive = False, g_reconciling = False, g_resumeCount = 0,
     g_lastRecord = None, g_revision = 1, g_nodeId = node, g_remoteRunId = run, g_recovered = False, g_historyTruncated = False,
     g_replayCapable = False, g_resultCapable = None, g_replayCutoff = None, g_replayComplete = False, g_catchUpCleared = False,
     g_pendingResult = None, g_registered = True\<rparr>"

definition created_event :: "string \<Rightarrow> gateway_task \<Rightarrow> task_event" where
  "created_event ts t = next_event ts TeCreated (JObj [(''agent'', JStr (g_agent t))]) t"

definition task_input :: "create_request \<Rightarrow> gateway_task \<Rightarrow> task_status \<Rightarrow> string option \<Rightarrow> string option \<Rightarrow> create_task_input" where
  "task_input r t status key fp = \<lparr>ct_id = g_id t, ct_node_id = g_nodeId t, ct_agent = g_agent t, ct_workspace_key = cr_workspace_key r,
     ct_permission_mode = map_option mode_text (cr_permission_mode r), ct_status = task_status_text status, ct_remote_run_id = g_remoteRunId t,
     ct_input_text = Some (cr_text r), ct_metadata = (case cr_metadata r of None \<Rightarrow> JNull | Some m \<Rightarrow> m),
     ct_idempotency_key = key, ct_request_fingerprint = fp\<rparr>"

text \<open>\<open>persistCreate\<close>: the store, the id of the task the caller gets and whether it is a new one.\<close>

definition persistCreate ::
  "(string \<Rightarrow> string) \<Rightarrow> string \<Rightarrow> create_request \<Rightarrow> gateway_task \<Rightarrow> task_status \<Rightarrow> task_event \<Rightarrow> wstore \<Rightarrow> store_error + (wstore \<times> string \<times> bool)" where
  "persistCreate sha now r t status e s = (case nonempty (cr_idempotency_key r) of
      Some k \<Rightarrow> createTaskIdempotently now (task_input r t status (Some k) (Some (computeRequestFingerprint sha r))) (toEventInput e) s
    | None \<Rightarrow> and_then (createTaskDurable now (task_input r t status None None) (toEventInput e) s) (\<lambda>s1. Inr (s1, g_id t, True)))"

definition create_failed :: "nat \<Rightarrow> store_error \<Rightarrow> gateway \<Rightarrow> gateway" where
  "create_failed n e g = deny n (if e = IdempotencyConflict then IdempotencyConflictCode else InternalError) (release g)"

text \<open>\<open>remoteApiError\<close>\<close>

definition start_error :: "string \<Rightarrow> api_code" where
  "start_error m = (if starts_with m ''cwd_not_allowed:'' then CwdNotAllowed else RUN_ERROR_MAP (classifyRunError m))"

text \<open>After \<open>fetchRemoteNodes\<close>; \<open>i\<close> is the fresh task id. With a store the task is recorded before the Node is asked to start the run.\<close>

definition remote_task :: "string \<Rightarrow> create_request \<Rightarrow> node_info \<Rightarrow> gateway_task" where
  "remote_task i r x = (new_gateway_task i (cr_agent r) RemoteRun (cr_node_id r) None)\<lparr>
     g_replayCapable := ''run_event_replay_v1'' \<in> set (ni_capabilities x), g_resultCapable := Some (''run_result_v1'' \<in> set (ni_capabilities x))\<rparr>"

definition nodes_answered ::
  "gateway_config \<Rightarrow> (string \<Rightarrow> string) \<Rightarrow> string \<Rightarrow> string \<Rightarrow> bool \<Rightarrow> string \<Rightarrow> nat \<Rightarrow> create_request \<Rightarrow> string + node_info list \<Rightarrow> gateway \<Rightarrow> gateway" where
  "nodes_answered cfg sha now ts written i n r answer g = (case answer of
      Inl m \<Rightarrow> deny n (start_error m) (release g)
    | Inr nodes \<Rightarrow> (case preflight r nodes of
        Inl code \<Rightarrow> deny n code (release g)
      | Inr x \<Rightarrow>
          if \<not> written then deny n InternalError g
          else if \<not> gc_persist cfg then add_wait (AwaitPlainStart n r) g
          else let t = remote_task i r x; e = created_event ts t in
            (case persistCreate sha now r t TsQueued e (gw_store g) of
               Inl err \<Rightarrow> create_failed n err g
             | Inr (s, j, created) \<Rightarrow>
                 if created then add_wait (AwaitRemoteStart n (t\<lparr>g_nextSeq := 1,
                     g_revision := (case taskRow s j of None \<Rightarrow> 1 | Some row \<Rightarrow> tk_revision row)\<rparr>) e) (g\<lparr>gw_store := s\<rparr>)
                 else answer_with n (Existing j) (release (g\<lparr>gw_store := s\<rparr>)))))"

fun run_code_text :: "run_code \<Rightarrow> string" where
  "run_code_text RelayUnavailable = ''relay_unavailable''"
| "run_code_text RunNodeOffline = ''node_offline''"
| "run_code_text RunUnauthorized = ''unauthorized''"
| "run_code_text RunIsNotFound = ''run_not_found''"
| "run_code_text RunAgentNotSupported = ''agent_not_supported''"
| "run_code_text AlreadyTerminal = ''already_terminal''"
| "run_code_text RemoteError = ''remote_error''"
| "run_code_text UnknownError = ''unknown_error''"

definition register :: "gateway_task \<Rightarrow> gateway \<Rightarrow> gateway" where
  "register t g = g\<lparr>gw_tasks := gw_tasks g @ [t], gw_pending := gw_pending g - 1, gw_active := gw_active g + 1\<rparr>"

definition bind_patch :: "run_record \<Rightarrow> task_patch" where
  "bind_patch rec = \<lparr>tp_status = Some (task_status_text (runStatusToTaskStatus (ru_status rec))), tp_remote_run_id = Some (Some (ru_run_id rec)),
     tp_workspace_key = None, tp_permission_mode = None, tp_metadata = JUndef, tp_terminal_at = None, tp_error_code = None, tp_error_message = None\<rparr>"

text \<open>After \<open>remoteRunStart\<close> with a store: the run is bound to the task, then the task is registered and its pump started.\<close>

definition bind_run :: "string \<Rightarrow> run_record \<Rightarrow> gateway_task \<Rightarrow> wstore \<Rightarrow> wstore \<times> int" where
  "bind_run now rec t s = (case opened s (updateTaskSync now (g_id t) (g_revision t) (bind_patch rec) s) of
      Inl _ \<Rightarrow> (s, g_revision t)
    | Inr s1 \<Rightarrow> (s1, case taskRow s1 (g_id t) of None \<Rightarrow> g_revision t | Some row \<Rightarrow> tk_revision row))"

definition remote_started ::
  "gateway_config \<Rightarrow> string \<Rightarrow> string \<Rightarrow> nat \<Rightarrow> gateway_task \<Rightarrow> task_event \<Rightarrow> string + run_record \<Rightarrow> gateway \<Rightarrow> gateway" where
  "remote_started cfg now ts n t created answer g =
    (case answer of
       Inl m \<Rightarrow> deny n (start_error m) (try_store (terminalizeTaskDurable now (g_id t) (g_revision t)
           ((terminal_update TeFailed (Some (run_code_text (classifyRunError m), m))))
           (toEventInput (next_event ts TeFailed (JObj [(''reason'', JStr (run_code_text (classifyRunError m)))]) t))) (release g))
     | Inr rec \<Rightarrow>
         let (s1, rv) = bind_run now rec t (gw_store g);
             t1 = t\<lparr>g_revision := rv, g_remoteRunId := Some (ru_run_id rec)\<rparr>;
             g1 = (if g_replayCapable t then try_store (initReplayCursor (g_id t)) (g\<lparr>gw_store := s1\<rparr>) else g\<lparr>gw_store := s1\<rparr>);
             g2 = pushEvent cfg (g_id t) created (register t1 g1)
         in answer_with n (Accepted (g_id t))
           (if g_replayCapable t then startReplayPump cfg (g_id t) g2 else startRemotePump (g_id t) g2))"

text \<open>After a start without a store, or of a local run: the task has the id of the run.\<close>

definition plain_started ::
  "gateway_config \<Rightarrow> string \<Rightarrow> nat \<Rightarrow> create_request \<Rightarrow> string + run_record \<Rightarrow> gateway \<Rightarrow> gateway" where
  "plain_started cfg ts n r answer g = (case answer of
      Inl m \<Rightarrow> deny n (start_error m) (release g)
    | Inr rec \<Rightarrow>
        let t = new_gateway_task (ru_run_id rec) (ru_agent rec) RemoteRun (cr_node_id r) (Some (ru_run_id rec)) in
        answer_with n (Accepted (g_id t)) (startRemotePump (g_id t)
          (pushEvent cfg (g_id t) (created_event ts t) (register (t\<lparr>g_nextSeq := 1\<rparr>) g))))"

definition local_started ::
  "gateway_config \<Rightarrow> (string \<Rightarrow> string) \<Rightarrow> string \<Rightarrow> string \<Rightarrow> jsval option \<Rightarrow> backend_event list option \<Rightarrow> nat \<Rightarrow> create_request \<Rightarrow>
   run_record option \<Rightarrow> gateway \<Rightarrow> gateway" where
  "local_started cfg sha now ts local_result run_events n r answer g = (case answer of
      None \<Rightarrow> deny n InternalError (release g)
    | Some rec \<Rightarrow>
        let t = new_gateway_task (ru_run_id rec) (ru_agent rec) LocalRun None None;
            go = (\<lambda>t g. answer_with n (Accepted (g_id t)) (startPoll cfg sha now local_result run_events (g_id t)
              (pushEvent cfg (g_id t) (created_event ts (t\<lparr>g_nextSeq := 0\<rparr>)) (register t g))))
        in if \<not> gc_persist cfg then go (t\<lparr>g_nextSeq := 1\<rparr>) g
          else (case persistCreate sha now r t (runStatusToTaskStatus (ru_status rec)) (created_event ts t) (gw_store g) of
              Inl e \<Rightarrow> create_failed n e g
            | Inr (s, j, created) \<Rightarrow>
                if created then go (t\<lparr>g_nextSeq := 1, g_revision := (case taskRow s j of None \<Rightarrow> 1 | Some row \<Rightarrow> tk_revision row)\<rparr>) (g\<lparr>gw_store := s\<rparr>)
                else answer_with n (Existing j) (release (g\<lparr>gw_store := s\<rparr>))))"

section \<open>Status\<close>

text \<open>The row of a task. A closed store throws, which the server answers as an internal error.\<close>

definition stored_row :: "gateway_config \<Rightarrow> gateway \<Rightarrow> string \<Rightarrow> api_code + task_row option" where
  "stored_row cfg g i =
    (if \<not> gc_persist cfg then Inr None
     else if ws_closed (gw_store g) then Inl InternalError
     else Inr (taskRow (gw_store g) i))"

text \<open>The answer for a task that is only in the store.\<close>

definition show_stored :: "gateway_config \<Rightarrow> nat \<Rightarrow> string \<Rightarrow> gateway \<Rightarrow> gateway" where
  "show_stored cfg n i g = (case stored_row cfg g i of
      Inl code \<Rightarrow> deny n code g
    | Inr None \<Rightarrow> deny n TaskNotFound g
    | Inr (Some row) \<Rightarrow> answer_with n (ShowRow row) g)"

text \<open>The projection of a remote task that is already terminal.\<close>

definition final_projection :: "gateway_config \<Rightarrow> gateway \<Rightarrow> gateway_task \<Rightarrow> reply option" where
  "final_projection cfg g t =
    (if g_terminal t \<and> g_mode t = RemoteRun then
       (case stored_row cfg g (g_id t) of
          Inl code \<Rightarrow> Some (Denied code)
        | Inr (Some row) \<Rightarrow> Some (ShowRow row)
        | Inr None \<Rightarrow> map_option ShowRecord (g_lastRecord t))
     else None)"

text \<open>The answer with the record of the run and the history of the row.\<close>

definition show_record :: "gateway_config \<Rightarrow> nat \<Rightarrow> string \<Rightarrow> run_record \<Rightarrow> gateway \<Rightarrow> gateway" where
  "show_record cfg n i rec g = (case stored_row cfg g i of
      Inl code \<Rightarrow> deny n code g
    | Inr _ \<Rightarrow> answer_with n (ShowRecord rec) g)"

definition handleGet :: "gateway_config \<Rightarrow> nat \<Rightarrow> string \<Rightarrow> run_record option \<Rightarrow> gateway \<Rightarrow> gateway" where
  "handleGet cfg n i local_rec g = (case task_named g i of
      None \<Rightarrow> show_stored cfg n i g
    | Some t \<Rightarrow> (case final_projection cfg g t of
        Some a \<Rightarrow> answer_with n a g
      | None \<Rightarrow>
          if g_mode t = RemoteRun then add_wait (AwaitGet n i) g
          else (case local_rec of None \<Rightarrow> deny n TaskNotFound g | Some rec \<Rightarrow> show_record cfg n i rec g)))"

definition get_answered ::
  "gateway_config \<Rightarrow> (string \<Rightarrow> string) \<Rightarrow> string \<Rightarrow> string \<Rightarrow> nat \<Rightarrow> string \<Rightarrow> string + run_record \<Rightarrow> gateway \<Rightarrow> gateway" where
  "get_answered cfg sha now ts n i answer g = (case answer of
      Inl m \<Rightarrow> deny n (start_error m) g
    | Inr rec \<Rightarrow> show_record cfg n i rec (reconcileRemoteRecord cfg sha now ts i rec g))"

section \<open>Event streams\<close>

definition parse_cursor :: "string option \<Rightarrow> int option" where
  "parse_cursor h = (case h of None \<Rightarrow> None | Some raw \<Rightarrow> if raw \<noteq> [] \<and> list_all is_digit raw then Some (digits_value raw) else None)"

definition computeSseReplay :: "task_event list \<Rightarrow> string option \<Rightarrow> task_event list \<times> bool \<times> int option" where
  "computeSseReplay buffer h = (case parse_cursor h of
      None \<Rightarrow> (buffer, False, None)
    | Some c \<Rightarrow> (filter (\<lambda>e. c < ev_seq e) buffer, buffer \<noteq> [] \<and> c + 1 < ev_seq (hd buffer), Some c))"

definition write_frames :: "nat \<Rightarrow> task_event list \<Rightarrow> gateway \<Rightarrow> gateway" where
  "write_frames n es g = g\<lparr>gw_frames := gw_frames g @ map (\<lambda>e. (n, e)) es\<rparr>"

text \<open>The events of a task in the store. The gateway is the only writer of task events, and every type it writes is one of
  \<open>task_event_type\<close>; a row whose payload cannot be decoded makes the whole read fail.\<close>

definition event_type_named :: "string \<Rightarrow> task_event_type option" where
  "event_type_named s = find (\<lambda>ty. task_event_text ty = s) [TeCreated, TeStarted, TeDelta, TeOutputCompleted, TeCompleted, TeFailed, TeCancelled]"

definition toTaskEvent :: "string \<Rightarrow> task_event_row \<Rightarrow> task_event_type \<Rightarrow> jsval \<Rightarrow> task_event" where
  "toTaskEvent i row ty payload = \<lparr>ev_seq = te_sequence row, ev_task_id = i, ev_type = ty, ev_ts = te_ts row,
     ev_payload = (if payload = JNull then JObj [] else payload)\<rparr>"

fun decode_rows :: "string \<Rightarrow> task_event_row list \<Rightarrow> task_event list option" where
  "decode_rows i [] = Some []"
| "decode_rows i (row # rows) =
    (if limit_task_event_payload < byteLen (te_payload_json row) then None
     else (case json_parse (te_payload_json row) of
         None \<Rightarrow> None
       | Some v \<Rightarrow> (case (event_type_named (te_type row), decode_rows i rows) of
           (_, None) \<Rightarrow> None
         | (None, Some es) \<Rightarrow> Some es
         | (Some ty, Some es) \<Rightarrow> Some (toTaskEvent i row ty v # es))))"

definition loadTaskEvents :: "string \<Rightarrow> wstore \<Rightarrow> task_event list option" where
  "loadTaskEvents i s = (if ws_closed s then None else decode_rows i (sort_key te_sequence (task_events_of s i)))"

text \<open>The stream of a task that is only in the store is replayed and ended.\<close>

definition stream_stored :: "gateway_config \<Rightarrow> nat \<Rightarrow> string option \<Rightarrow> string \<Rightarrow> gateway \<Rightarrow> gateway" where
  "stream_stored cfg n h i g = (case stored_row cfg g i of
      Inl code \<Rightarrow> deny n code g
    | Inr None \<Rightarrow> deny n TaskNotFound g
    | Inr (Some row) \<Rightarrow> (case loadTaskEvents i (gw_store g) of
        None \<Rightarrow> deny n InternalError g
      | Some es \<Rightarrow> write_frames n (fst (computeSseReplay es h)) g))"

definition handleEvents :: "gateway_config \<Rightarrow> nat \<Rightarrow> string option \<Rightarrow> string \<Rightarrow> gateway \<Rightarrow> gateway" where
  "handleEvents cfg n h i g = (case task_named g i of
      None \<Rightarrow> stream_stored cfg n h i g
    | Some t \<Rightarrow>
        let g1 = write_frames n (fst (computeSseReplay (g_events t) h)) g in
        if g_terminal t then g1
        else let g2 = on_task i (\<lambda>t. t\<lparr>g_subs := g_subs t @ [n]\<rparr>) g1 in
          if g_mode t = RemoteRun \<and> \<not> g_pumpActive t then resumePump cfg i g2 else g2)"

definition disconnect :: "nat \<Rightarrow> string \<Rightarrow> gateway \<Rightarrow> gateway" where
  "disconnect n i g = on_task i (\<lambda>t. t\<lparr>g_subs := filter (\<lambda>m. m \<noteq> n) (g_subs t)\<rparr>) (g\<lparr>gw_gone := gw_gone g @ [n]\<rparr>)"

section \<open>Cancellation\<close>

definition cancel_flag :: "bool \<Rightarrow> string \<Rightarrow> gateway \<Rightarrow> gateway" where
  "cancel_flag b i = on_task i (\<lambda>t. t\<lparr>g_cancelInFlight := b\<rparr>)"

text \<open>From the status of the run on; \<open>stopped\<close> is the record \<open>stopRun\<close> returns for a local run and \<open>again\<close> what a second read shows.\<close>

definition cancel_decide ::
  "gateway_config \<Rightarrow> (string \<Rightarrow> string) \<Rightarrow> string \<Rightarrow> jsval option \<Rightarrow> backend_event list option \<Rightarrow> run_record option \<Rightarrow> run_record option \<Rightarrow>
   nat \<Rightarrow> string \<Rightarrow> run_record \<Rightarrow> gateway \<Rightarrow> gateway" where
  "cancel_decide cfg sha now local_result run_events stopped_rec again n i rec = with_task i (\<lambda>t g.
     if terminal_status (runStatusToTaskStatus (ru_status rec)) \<or> g_cancelInFlight t then answer_with n (ShowRecord rec) g
     else if g_mode t = RemoteRun then add_wait (AwaitStop n i) (cancel_flag True i g)
     else (case stopped_rec of
         Some r \<Rightarrow> answer_with n (ShowRecord r) (drain_run cfg sha now local_result run_events i g)
       | None \<Rightarrow> (case again of Some r \<Rightarrow> answer_with n (ShowRecord r) g | None \<Rightarrow> deny n InternalError g)))"

definition handleCancel ::
  "gateway_config \<Rightarrow> (string \<Rightarrow> string) \<Rightarrow> string \<Rightarrow> jsval option \<Rightarrow> backend_event list option \<Rightarrow> run_record option \<Rightarrow> run_record option \<Rightarrow>
   run_record option \<Rightarrow> nat \<Rightarrow> string \<Rightarrow> gateway \<Rightarrow> gateway" where
  "handleCancel cfg sha now local_result run_events local_rec stopped_rec again n i g = (case task_named g i of
      None \<Rightarrow> show_stored cfg n i g
    | Some t \<Rightarrow> (case final_projection cfg g t of
        Some a \<Rightarrow> answer_with n a g
      | None \<Rightarrow>
          if g_mode t = RemoteRun then add_wait (AwaitCancelStatus n i) g
          else (case local_rec of
              None \<Rightarrow> deny n TaskNotFound g
            | Some rec \<Rightarrow> cancel_decide cfg sha now local_result run_events stopped_rec again n i rec g)))"

definition cancel_status_answered ::
  "gateway_config \<Rightarrow> (string \<Rightarrow> string) \<Rightarrow> string \<Rightarrow> nat \<Rightarrow> string \<Rightarrow> string + run_record \<Rightarrow> gateway \<Rightarrow> gateway" where
  "cancel_status_answered cfg sha now n i answer g = (case answer of
      Inl m \<Rightarrow> deny n (start_error m) g
    | Inr rec \<Rightarrow> cancel_decide cfg sha now None None None None n i rec g)"

definition stop_answered ::
  "gateway_config \<Rightarrow> (string \<Rightarrow> string) \<Rightarrow> string \<Rightarrow> string \<Rightarrow> nat \<Rightarrow> string \<Rightarrow> string + run_record \<Rightarrow> gateway \<Rightarrow> gateway" where
  "stop_answered cfg sha now ts n i answer g = (case answer of
      Inl m \<Rightarrow> add_wait (AwaitCancelAgain n i m) g
    | Inr rec \<Rightarrow> cancel_flag False i (answer_with n (ShowRecord rec) (reconcileRemoteRecord cfg sha now ts i rec g)))"

definition cancel_again_answered :: "nat \<Rightarrow> string \<Rightarrow> string \<Rightarrow> run_record option \<Rightarrow> gateway \<Rightarrow> gateway" where
  "cancel_again_answered n i m answer g = cancel_flag False i (case answer of
      Some rec \<Rightarrow> answer_with n (ShowRecord rec) g
    | None \<Rightarrow> deny n (start_error m) g)"

end
