(* ===== verification/GatewayLoop.thy ===== *)
theory GatewayLoop
  imports GatewayRoutes
begin

text \<open>
  The recovery of unfinished tasks after a restart of the gateway, its shutdown, and its event
  loop as a step relation (\<open>src/lib/agent-gateway.ts\<close>). One step is a request, the answer to something the
  gateway awaits, an event of a pump or of the poller, a timer, a client that disconnects or a transaction
  of another user of the store. What the Node, the relay, the clock and the clients do is arbitrary.
\<close>

section \<open>Recovery\<close>

text \<open>\<open>seedRecoveredLocalCursor\<close>: the position after the first \<open>left\<close> events that map to task events.\<close>

fun seed_from :: "int \<Rightarrow> nat \<Rightarrow> backend_event list \<Rightarrow> nat" where
  "seed_from left k [] = k"
| "seed_from left k (e # es) =
    (if left \<le> 0 then k else seed_from (if runEventToTaskEvent e 0 \<noteq> None then left - 1 else left) (k + 1) es)"

definition seedRecoveredLocalCursor :: "backend_event list option \<Rightarrow> string \<Rightarrow> gateway \<Rightarrow> gateway" where
  "seedRecoveredLocalCursor run_events i g = (case run_events of
      None \<Rightarrow> g
    | Some es \<Rightarrow> on_task i (\<lambda>t. t\<lparr>g_emitted := seed_from (max 0 (g_nextSeq t - 1)) 0 es\<rparr>) g)"

definition recovery_failed :: "gateway_config \<Rightarrow> (string \<Rightarrow> string) \<Rightarrow> string \<Rightarrow> string \<Rightarrow> string \<Rightarrow> nat \<Rightarrow> gateway \<Rightarrow> gateway" where
  "recovery_failed cfg sha now ts i n = with_task i (\<lambda>t g.
     if n + 1 < REMOTE_RECONCILE_ATTEMPTS \<and> \<not> gw_closing g then add_wait (RecoveryTimer i (n + 1)) g
     else if g_mode t = LocalRun then
       synthEvent ts i TeFailed (JObj [(''reason'', JStr ''recovery_run_missing''), (''message'', JStr ''local run state unavailable after restart'')])
         (finishWithTerminal cfg sha now None (Some (''recovery_run_missing'', ''local run state unavailable after restart'')) i) g
     else g)"

text \<open>\<open>reconcileRecovered\<close> when its timer fires; \<open>local_rec\<close> is the record of a local run, if it can be read.\<close>

definition reconcileRecovered ::
  "gateway_config \<Rightarrow> (string \<Rightarrow> string) \<Rightarrow> string \<Rightarrow> string \<Rightarrow> run_record option \<Rightarrow> jsval option \<Rightarrow> backend_event list option \<Rightarrow>
   string \<Rightarrow> nat \<Rightarrow> gateway \<Rightarrow> gateway" where
  "reconcileRecovered cfg sha now ts local_rec local_result run_events i n = with_task i (\<lambda>t g.
     if g_terminal t \<or> gw_closing g then g
     else if g_mode t = RemoteRun then
       (if g_replayCapable t \<and> gc_persist cfg then
          (if ws_closed (gw_store g) then recovery_failed cfg sha now ts i n g else startReplayPump cfg i g)
        else add_wait (AwaitRecovery i n) g)
     else (case local_rec of
         None \<Rightarrow> recovery_failed cfg sha now ts i n g
       | Some rec \<Rightarrow>
           if terminal_status (runStatusToTaskStatus (ru_status rec)) then
             synthEvent ts i (terminal_event_type (runStatusToTaskStatus (ru_status rec))) (JObj [])
               (finishWithTerminal cfg sha now local_result None i) g
           else startPoll cfg sha now local_result run_events i (seedRecoveredLocalCursor run_events i g)))"

definition live_only :: "gateway_config \<Rightarrow> string \<Rightarrow> gateway \<Rightarrow> gateway" where
  "live_only cfg i = with_task i (\<lambda>t g.
     if gc_persist cfg \<and> g_recovered t then
       on_task i (\<lambda>t. t\<lparr>g_historyTruncated := True\<rparr>) (try_store (markTaskHistoryIncomplete i ''remote_source_cursor_unknown'' (g_nextSeq t - 1)) g)
     else g)"

definition recovery_answered ::
  "gateway_config \<Rightarrow> (string \<Rightarrow> string) \<Rightarrow> string \<Rightarrow> string \<Rightarrow> string \<Rightarrow> nat \<Rightarrow> run_record option \<Rightarrow> gateway \<Rightarrow> gateway" where
  "recovery_answered cfg sha now ts i n answer g = (case answer of
      None \<Rightarrow> recovery_failed cfg sha now ts i n g
    | Some rec \<Rightarrow>
        with_task i (\<lambda>t g. if g_terminal t then g else startRemotePump i (live_only cfg i g))
          (reconcileRemoteRecord cfg sha now ts i rec g))"

definition listNonTerminalTasks :: "wstore \<Rightarrow> task_row list" where
  "listNonTerminalTasks s = sort_key tk_created_at (filter (\<lambda>t. tk_status t \<notin> {''completed'', ''failed'', ''cancelled''}) (ws_tasks s))"

definition recovered_mode :: "task_row \<Rightarrow> gateway_mode" where
  "recovered_mode row =
    (if tk_remote_run_id row \<noteq> None \<or> (case tk_node_id row of None \<Rightarrow> False | Some n \<Rightarrow> n \<noteq> ''local'' \<and> n \<noteq> ''auto'') then RemoteRun else LocalRun)"

definition recovered_task :: "gateway_config \<Rightarrow> task_row \<Rightarrow> task_event list \<Rightarrow> gateway_task" where
  "recovered_task cfg row es =
    (new_gateway_task (tk_id row) (tk_agent row) (recovered_mode row) (tk_node_id row) (tk_remote_run_id row))\<lparr>
      g_events := drop (length es - gc_maxEvents cfg) es, g_log := es, g_nextSeq := tk_last_event_sequence row + 1, g_revision := tk_revision row,
      g_recovered := True, g_historyTruncated := (tk_earliest_retained_sequence row > 0 \<or> length es > gc_maxEvents cfg),
      g_replayCapable := (tk_last_remote_event_sequence row \<noteq> None)\<rparr>"

definition recover_message :: string where
  "recover_message = ''task start outcome is unknown after gateway restart; not resumed to avoid a duplicate execution''"

text \<open>A remote task without a run id may or may not have been started: it fails, once. Every other task is reconciled by a timer.\<close>

definition recover_record ::
  "gateway_config \<Rightarrow> (string \<Rightarrow> string) \<Rightarrow> (string \<Rightarrow> string) \<Rightarrow> (string \<Rightarrow> string) \<Rightarrow> gateway \<Rightarrow> task_row \<Rightarrow> gateway" where
  "recover_record cfg sha now ts g row =
    (let i = tk_id row; es = (case loadTaskEvents i (gw_store g) of None \<Rightarrow> [] | Some es \<Rightarrow> es);
         t = recovered_task cfg row es;
         g1 = g\<lparr>gw_tasks := gw_tasks g @ [t], gw_active := gw_active g + 1\<rparr>
     in if g_mode t = RemoteRun \<and> nonempty (tk_remote_run_id row) = None then
          synthEvent (ts i) i TeFailed (JObj [(''reason'', JStr ''recovery_unknown_start''), (''message'', JStr recover_message)])
            (finishWithTerminal cfg sha (now i) None
               (Some (''recovery_unknown_start'', ''remote start outcome unknown after gateway restart; not resumed'')) i) g1
        else add_wait (RecoveryTimer i 0) g1)"

definition empty_gateway :: "wstore \<Rightarrow> gateway" where
  "empty_gateway s = \<lparr>gw_tasks = [], gw_completed = [], gw_active = 0, gw_pending = 0, gw_store = s, gw_waits = [], gw_frames = [],
     gw_replies = [], gw_gone = [], gw_closing = False\<rparr>"

text \<open>\<open>startAgentGateway\<close> with \<open>recoverTasks\<close>. The clock is read once per task.\<close>

definition startAgentGateway ::
  "gateway_config \<Rightarrow> (string \<Rightarrow> string) \<Rightarrow> (string \<Rightarrow> string) \<Rightarrow> (string \<Rightarrow> string) \<Rightarrow> wstore \<Rightarrow> gateway" where
  "startAgentGateway cfg sha now ts s =
    (if gc_persist cfg \<and> gc_recover cfg \<and> \<not> ws_closed s then foldl (recover_record cfg sha now ts) (empty_gateway s) (listNonTerminalTasks s)
     else empty_gateway s)"

section \<open>Shutdown\<close>

definition close_gateway :: "gateway \<Rightarrow> gateway" where
  "close_gateway g = g\<lparr>gw_closing := True,
     gw_waits := filter (\<lambda>w. \<not> (case w of RecoveryTimer i n \<Rightarrow> True | _ \<Rightarrow> False)) (gw_waits g),
     gw_gone := gw_gone g @ concat (map g_subs (filter g_registered (gw_tasks g))),
     gw_tasks := map (\<lambda>t. if g_registered t then t\<lparr>g_poll := False, g_subs := []\<rparr> else t) (gw_tasks g)\<rparr>"

section \<open>The event loop\<close>

definition resumed :: "wait \<Rightarrow> gateway \<Rightarrow> gateway" where
  "resumed w g = g\<lparr>gw_waits := remove1 w (gw_waits g)\<rparr>"

fun wait_id :: "wait \<Rightarrow> string list" where
  "wait_id (AwaitRemoteStart n t e) = [g_id t]"
| "wait_id _ = []"

text \<open>Task ids and run ids are random; no two tasks of a process have the same.\<close>

definition fresh_task :: "string \<Rightarrow> gateway \<Rightarrow> bool" where
  "fresh_task i g = (i \<notin> set (map g_id (gw_tasks g) @ concat (map wait_id (gw_waits g))))"

definition fresh_response :: "nat \<Rightarrow> gateway \<Rightarrow> bool" where
  "fresh_response n g = (n \<notin> set (map fst (gw_frames g) @ concat (map g_subs (gw_tasks g)) @ gw_gone g))"

text \<open>Another user of the store (the workflow runtime) leaves the tables of the tasks as they are.\<close>

definition tasks_untouched :: "wstore \<Rightarrow> wstore \<Rightarrow> bool" where
  "tasks_untouched s s' = (ws_tasks s' = ws_tasks s \<and> ws_task_events s' = ws_task_events s \<and> ws_results s' = ws_results s)"

inductive gateway_step :: "gateway_config \<Rightarrow> (string \<Rightarrow> string) \<Rightarrow> gateway \<Rightarrow> gateway \<Rightarrow> bool" for cfg sha where
  create: "\<not> gw_closing g \<Longrightarrow> gateway_step cfg sha g (handleCreate cfg sha written n body g)"
| nodes: "AwaitNodes n r \<in> set (gw_waits g) \<Longrightarrow> fresh_task i g \<Longrightarrow>
    gateway_step cfg sha g (nodes_answered cfg sha now ts written i n r nodes (resumed (AwaitNodes n r) g))"
| remote: "AwaitRemoteStart n t e \<in> set (gw_waits g) \<Longrightarrow>
    gateway_step cfg sha g (remote_started cfg now ts n t e started (resumed (AwaitRemoteStart n t e) g))"
| plain: "AwaitPlainStart n r \<in> set (gw_waits g) \<Longrightarrow> (\<And>rec. started = Inr rec \<Longrightarrow> fresh_task (ru_run_id rec) g) \<Longrightarrow>
    gateway_step cfg sha g (plain_started cfg ts n r started (resumed (AwaitPlainStart n r) g))"
| local_run: "AwaitLocalStart n r \<in> set (gw_waits g) \<Longrightarrow> (\<And>rec. started' = Some rec \<Longrightarrow> fresh_task (ru_run_id rec) g) \<Longrightarrow>
    gateway_step cfg sha g (local_started cfg sha now ts local_result run_events n r started' (resumed (AwaitLocalStart n r) g))"
| get: "\<not> gw_closing g \<Longrightarrow> gateway_step cfg sha g (handleGet cfg n i local_rec g)"
| get_answer: "AwaitGet n i \<in> set (gw_waits g) \<Longrightarrow> gateway_step cfg sha g (get_answered cfg sha now ts n i answer (resumed (AwaitGet n i) g))"
| events: "\<not> gw_closing g \<Longrightarrow> fresh_response n g \<Longrightarrow> gateway_step cfg sha g (handleEvents cfg n h i g)"
| gone: "task_object g i = Some t \<Longrightarrow> n \<in> set (g_subs t) \<Longrightarrow> gateway_step cfg sha g (disconnect n i g)"
| cancel: "\<not> gw_closing g \<Longrightarrow>
    gateway_step cfg sha g (handleCancel cfg sha now local_result run_events local_rec stopped_rec again n i g)"
| cancel_status: "AwaitCancelStatus n i \<in> set (gw_waits g) \<Longrightarrow>
    gateway_step cfg sha g (cancel_status_answered cfg sha now n i answer (resumed (AwaitCancelStatus n i) g))"
| stop: "AwaitStop n i \<in> set (gw_waits g) \<Longrightarrow> gateway_step cfg sha g (stop_answered cfg sha now ts n i answer (resumed (AwaitStop n i) g))"
| cancel_again: "AwaitCancelAgain n i m \<in> set (gw_waits g) \<Longrightarrow>
    gateway_step cfg sha g (cancel_again_answered n i m again (resumed (AwaitCancelAgain n i m) g))"
| result: "AwaitResult i e k \<in> set (gw_waits g) \<Longrightarrow>
    gateway_step cfg sha g (result_answered cfg sha now i e k result (resumed (AwaitResult i e k) g))"
| result_timer: "SleepResult i e k \<in> set (gw_waits g) \<Longrightarrow>
    gateway_step cfg sha g (result_loop cfg sha now i e (k + 1) (resumed (SleepResult i e k) g))"
| convergence: "AwaitConvergence i \<in> set (gw_waits g) \<Longrightarrow>
    gateway_step cfg sha g (convergence_answered now i result (resumed (AwaitConvergence i) g))"
| pump_event: "task_object g i = Some t \<Longrightarrow> g_pumpActive t \<Longrightarrow> \<not> (g_replayCapable t \<and> gc_persist cfg) \<Longrightarrow>
    gateway_step cfg sha g (fst (ingest cfg sha now None i event g))"
| source_event: "task_object g i = Some t \<Longrightarrow> g_pumpActive t \<Longrightarrow> g_replayCapable t \<Longrightarrow>
    gateway_step cfg sha g (ingestSource cfg now i event q g)"
| replay_meta: "task_object g i = Some t \<Longrightarrow> g_pumpActive t \<Longrightarrow> g_replayCapable t \<Longrightarrow> gateway_step cfg sha g (handleReplayMeta cfg i meta g)"
| give_up: "task_object g i = Some t \<Longrightarrow> g_pumpActive t \<Longrightarrow> gateway_step cfg sha g (reconcileViaStatus i g)"
| pump_end: "gateway_step cfg sha g (on_task i (\<lambda>t. t\<lparr>g_pumpActive := False\<rparr>) g)"
| poll: "task_object g i = Some t \<Longrightarrow> g_poll t \<Longrightarrow> gateway_step cfg sha g (drain_run cfg sha now local_result run_events i g)"
| reconcile: "AwaitReconcile i k \<in> set (gw_waits g) \<Longrightarrow>
    gateway_step cfg sha g (reconcile_answered cfg sha now ts i k record (resumed (AwaitReconcile i k) g))"
| reconcile_timer: "SleepReconcile i k \<in> set (gw_waits g) \<Longrightarrow>
    gateway_step cfg sha g (reconcile_loop i (k + 1) (resumed (SleepReconcile i k) g))"
| recovery: "RecoveryTimer i k \<in> set (gw_waits g) \<Longrightarrow>
    gateway_step cfg sha g (reconcileRecovered cfg sha now ts local_rec local_result run_events i k (resumed (RecoveryTimer i k) g))"
| recovery_answer: "AwaitRecovery i k \<in> set (gw_waits g) \<Longrightarrow>
    gateway_step cfg sha g (recovery_answered cfg sha now ts i k record (resumed (AwaitRecovery i k) g))"
| shutdown: "gateway_step cfg sha g (close_gateway g)"
| others: "tasks_untouched (gw_store g) s \<Longrightarrow> gateway_step cfg sha g (g\<lparr>gw_store := s\<rparr>)"

text \<open>All states of a gateway over a store, through any number of crashes and restarts.\<close>

inductive gateway_reaches :: "gateway_config \<Rightarrow> (string \<Rightarrow> string) \<Rightarrow> wstore \<Rightarrow> gateway \<Rightarrow> bool" for cfg sha s where
  start: "gateway_reaches cfg sha s (startAgentGateway cfg sha now ts s)"
| step: "gateway_reaches cfg sha s g \<Longrightarrow> gateway_step cfg sha g g' \<Longrightarrow> gateway_reaches cfg sha s g'"
| restart: "gateway_reaches cfg sha s g \<Longrightarrow> gateway_reaches cfg sha s (startAgentGateway cfg sha now ts ((gw_store g)\<lparr>ws_closed := False\<rparr>))"

end
