(* ===== verification/GatewayStore.thy ===== *)
theory GatewayStore
  imports GatewayLoop TaskInvariant
begin

text \<open>
  What the gateway's transactions do to the task tables, beyond the invariant of the store:
  the types of stored events are the contract's, and a task with a stored terminal event has a
  terminal status, so that recovery never resumes a task that has ended.
\<close>

section \<open>Settled tables\<close>

definition tables_settled :: "wstore \<Rightarrow> bool" where
  "tables_settled s \<longleftrightarrow> (\<forall>row\<in>set (ws_task_events s). \<exists>ty t. te_type row = task_event_text ty \<and> taskRow s (te_task_id row) = Some t \<and>
     (terminal_type ty \<longrightarrow> isTerminalTaskStatus (tk_status t)))"

definition keeps_end :: "(task_row \<Rightarrow> task_row) \<Rightarrow> task_row \<Rightarrow> bool" where
  "keeps_end f t \<longleftrightarrow> (isTerminalTaskStatus (tk_status t) \<longrightarrow> isTerminalTaskStatus (tk_status (f t)))"

lemma settled_rows:
  assumes "tables_settled s" and "ws_task_events s' = ws_task_events s"
    and "\<And>i t. taskRow s i = Some t \<Longrightarrow> \<exists>t'. taskRow s' i = Some t' \<and> (isTerminalTaskStatus (tk_status t) \<longrightarrow> isTerminalTaskStatus (tk_status t'))"
  shows "tables_settled s'"
  using assms(1) unfolding tables_settled_def assms(2) by (meson assms(3))

lemma settled_upd:
  assumes "tables_settled s" and "\<And>t. tk_id (f t) = tk_id t" and "\<And>t. taskRow s i = Some t \<Longrightarrow> keeps_end f t"
  shows "tables_settled (update_task i f s)"
  using assms(1) by (rule settled_rows) (use assms(2,3) in \<open>auto simp: update_task_def sel_upd keeps_end_def\<close>)

lemma settled_results [simp]: "tables_settled (s\<lparr>ws_results := rs\<rparr>) = tables_settled s"
  by (simp add: tables_settled_def)

lemma settled_append:
  assumes "tables_settled s" and "appendTaskEventSync now i e s = Inr s'" and "ti_type e = task_event_text ty"
    and "terminal_type ty \<Longrightarrow> taskRow s i = Some t \<Longrightarrow> isTerminalTaskStatus (tk_status t)" and "taskRow s i = Some t"
  shows "tables_settled s'"
  using assms(2)
proof (cases rule: appendTaskEvent_cases)
  case (new u payload)
  let ?f = "\<lambda>t. t\<lparr>tk_last_event_sequence := ti_sequence e, tk_updated_at := now\<rparr>"
  have old: "tables_settled (update_task i ?f s)"
    using assms(1) by (rule settled_upd) (simp_all add: keeps_end_def)
  have new_row: "taskRow s' i = Some (?f t)" using assms(5) by (simp add: new(5) sel_upd)
  have "\<exists>ty t. te_type row = task_event_text ty \<and> taskRow s' (te_task_id row) = Some t \<and> (terminal_type ty \<longrightarrow> isTerminalTaskStatus (tk_status t))"
    if "row \<in> set (ws_task_events s')" for row
  proof (cases "row \<in> set (ws_task_events s)")
    case True
    then show ?thesis using old by (auto simp: tables_settled_def update_task_def new(5))
  next
    case False
    then have "row = task_event_row_of now i e payload" using that by (simp add: new(5))
    then show ?thesis using new_row assms(3-5) by (auto simp: task_event_row_of_def)
  qed
  then show ?thesis unfolding tables_settled_def by blast
qed (simp add: assms(1))

lemma settled_update:
  assumes "tables_settled s" and "updateTaskSync now i rv p s = Inr s'"
  shows "tables_settled s'"
proof -
  obtain t md where t: "taskRow s i = Some t" "task_patch_error t rv p = None" and s': "s' = update_task i (apply_task_patch now p md) s"
    using assms(2) by (auto simp: updateTaskSync_def split: option.splits)
  then have "keeps_end (apply_task_patch now p md) t"
    by (auto simp: keeps_end_def apply_task_patch_def task_patch_error_def patched_def split: if_splits option.splits)
  then show ?thesis unfolding s' by (intro settled_upd [OF assms(1)]) (use t in \<open>auto simp: apply_task_patch_def\<close>)
qed

lemma settled_create:
  assumes "tables_settled s" and "createTaskSync now c s = Inr s'"
  shows "tables_settled s'"
proof -
  obtain md where "s' = s\<lparr>ws_tasks := ws_tasks s @ [new_task now c md]\<rparr>" using assms(2) by (auto simp: createTaskSync_def split: if_splits)
  then show ?thesis by (intro settled_rows [OF assms(1)]) auto
qed

lemma settled_write: "tables_settled s \<Longrightarrow> writeResultRow now i st r s = Inr s' \<Longrightarrow> tables_settled s'"
  by (auto simp: writeResultRow_def keeps_end_def intro!: settled_upd)

lemma settled_result: "tables_settled s \<Longrightarrow> ensure_result now i st r s = Inr (s', b) \<Longrightarrow> tables_settled s'"
  by (auto simp: ensure_result_def split: option.splits if_splits intro: settled_write)

lemma settled_finish:
  assumes "tables_settled s" and "finish_task now i rv p e s = Inr s'" and "ti_type e = task_event_text ty"
  shows "tables_settled s'"
proof -
  obtain s1 s2 where s1: "updateTaskSync now i rv (terminal_patch now p) s = Inr s1" and s2: "appendTaskEventSync now i e s1 = Inr s2"
    and s': "s' = record_terminal i s2" and p: "case tp_status p of None \<Rightarrow> False | Some st \<Rightarrow> isTerminalTaskStatus st"
    using assms(2) by (auto simp: finish_task_def split: if_splits)
  obtain t where t: "taskRow s1 i = Some t" "isTerminalTaskStatus (tk_status t)"
    using s1 p by (auto simp: updateTaskSync_def update_task_def sel_upd apply_task_patch_def terminal_patch_def task_patch_error_def split: if_splits option.splits)
  have "tables_settled s2" using settled_append [OF settled_update [OF assms(1) s1] s2 assms(3)] t by blast
  then show ?thesis unfolding s' record_terminal_def by (rule settled_upd) (auto simp: keeps_end_def)
qed

section \<open>Transactions of the gateway\<close>

definition store_moves :: "wstore \<Rightarrow> wstore \<Rightarrow> bool" where
  "store_moves s s' \<longleftrightarrow> set (ws_task_events s) \<subseteq> set (ws_task_events s') \<and> (task_inv s \<longrightarrow> task_inv s') \<and> (tables_settled s \<longrightarrow> tables_settled s')"

lemma store_moves_refl [simp]: "store_moves s s"
  by (simp add: store_moves_def)

lemma store_movesI: "tasks_evolve s s' \<Longrightarrow> (task_inv s \<longrightarrow> task_inv s') \<Longrightarrow> (tables_settled s \<Longrightarrow> tables_settled s') \<Longrightarrow> store_moves s s'"
  by (auto simp: store_moves_def tasks_evolve_def)

lemma moves_append:
  assumes "appendTaskEventDurable now i e s = Inr s'" and "ti_type e = task_event_text ty" and "\<not> terminal_type ty"
  shows "store_moves s s'"
proof -
  have a: "appendTaskEventSync now i e s = Inr s'" using assms(1) by (auto simp: appendTaskEventDurable_def)
  then obtain t where "taskRow s i = Some t" by (auto simp: appendTaskEventSync_def split: if_splits)
  with a show ?thesis using te.Q_append [OF a] ti.Q_append [OF a] settled_append [OF _ a assms(2)] assms(3) by (intro store_movesI) auto
qed

lemma moves_terminalize:
  assumes "terminalizeTaskDurable now i rv p e s = Inr s'" and "ti_type e = task_event_text ty"
  shows "store_moves s s'"
  using te.Q_terminalize [OF assms(1)] ti.Q_terminalize [OF assms(1)]
  by (rule store_movesI) (use assms in \<open>auto simp: terminalizeTaskDurable_def split: if_splits intro: settled_finish\<close>)

lemma moves_terminalizeWithResult:
  assumes "terminalizeTaskWithResultDurable now i rv p e st r s = Inr s'" and "ti_type e = task_event_text ty"
  shows "store_moves s s'"
  using te.Q_terminalizeWithResult [OF assms(1)] ti.Q_terminalizeWithResult [OF assms(1)]
proof (rule store_movesI)
  assume s: "tables_settled s"
  obtain cur s1 b where "taskRow s i = Some cur" "ensure_result now i st r s = Inr (s1, b)"
    and f: "(if tk_terminal_event_recorded cur then Inr s1 else finish_task now i rv p e s1) = Inr s'"
    using assms(1) unfolding terminalizeTaskWithResultDurable_def
    by (elim opened_InrE need_InrE and_then_InrE) (metis prod.collapse)
  then have "tables_settled s1" using settled_result s by blast
  with f show "tables_settled s'" using settled_finish assms(2) by (auto split: if_splits)
qed

lemma moves_persist: "persistTaskResultDurable now i st r s = Inr (s', b) \<Longrightarrow> store_moves s s'"
  by (rule store_movesI [OF te.Q_persist ti.Q_persist]) (auto simp: persistTaskResultDurable_def intro: settled_result)

lemma moves_history:
  "markTaskHistoryIncomplete i reason bd s = Inr s' \<Longrightarrow> store_moves s s'"
  "clearTaskHistoryIncomplete i s = Inr s' \<Longrightarrow> store_moves s s'"
  "initReplayCursor i s = Inr s' \<Longrightarrow> store_moves s s'"
  subgoal by (rule store_movesI [OF te.Q_history(1) ti.Q_history(1)])
      (auto simp: markTaskHistoryIncomplete_def keeps_end_def split: if_splits intro!: settled_upd)
  subgoal by (rule store_movesI [OF te.Q_history(2) ti.Q_history(2)])
      (auto simp: clearTaskHistoryIncomplete_def keeps_end_def intro!: settled_upd)
  subgoal by (rule store_movesI [OF te.Q_history(3) ti.Q_history(3)])
      (auto simp: initReplayCursor_def keeps_end_def intro!: settled_upd)
  done

lemma moves_cursor: "advanceSourceCursor now i q s = Inr (s', b) \<Longrightarrow> store_moves s s'"
  by (rule store_movesI [OF te.Q_cursor ti.Q_cursor])
    (auto simp: advanceSourceCursor_def move_cursor_def keeps_end_def split: if_splits intro!: settled_upd)

lemma moves_update: "opened s (updateTaskSync now i rv p s) = Inr s' \<Longrightarrow> store_moves s s'"
  by (erule opened_InrE) (rule store_movesI [OF te.Q_update ti.Q_update], assumption+, rule settled_update)

lemma terminal_statuses: "isTerminalTaskStatus (terminalStatusFor ty)" "terminalStatusFor ty \<noteq> []"
  by (auto simp: isTerminalTaskStatus_def TASK_TERMINAL_STATUSES_def terminalStatusFor_def)

lemma moves_ingest:
  assumes "ingestSourceEventDurable now i q (source_input te) s = Inr (s', b, g)"
  shows "store_moves s s'"
  using te.Q_ingest [OF assms] ti.Q_ingest [OF assms]
proof (rule store_movesI)
  assume s: "tables_settled s"
  show "tables_settled s'"
    using assms
  proof (cases rule: ingest_cases)
    case (new t s1 t')
    let ?e = "\<lparr>ti_sequence = g, ti_type = sv_type (source_input te), ti_ts = sv_ts (source_input te),
       ti_payload = sv_payload (source_input te), ti_source_sequence = Some q\<rparr>"
    let ?f = "\<lambda>t. source_effect now (source_input te) (t\<lparr>tk_last_remote_event_sequence := Some q, tk_updated_at := now\<rparr>)"
    have ids: "tk_id (?f u) = tk_id u" for u by (simp add: source_effect_def split: option.splits)
    have ends: "isTerminalTaskStatus (tk_status (?f u))" if "terminal_type (ev_type te) \<or> isTerminalTaskStatus (tk_status u)" for u
      using that by (auto simp: source_effect_def source_input_def terminal_statuses)
    have rows: "taskRow s' k = (if k = i then map_option ?f (taskRow s1 k) else taskRow s1 k)" for k
      unfolding new(6) by (auto simp: update_task_def move_cursor_def sel_upd source_effect_def option.map_comp o_def split: option.splits)
    from new(4) show ?thesis
    proof (cases rule: appendTaskEvent_cases)
      case (new u payload)
      let ?row = "task_event_row_of now i ?e payload"
      have evs: "ws_task_events s' = ws_task_events s @ [?row]" using new(5) \<open>s' = _\<close> by (simp add: update_task_def move_cursor_def)
      have s1rows: "taskRow s1 k = map_option (\<lambda>t. if k = i then t\<lparr>tk_last_event_sequence := g, tk_updated_at := now\<rparr> else t) (taskRow s k)" for k
        by (cases "taskRow s k") (auto simp: new(5) sel_upd)
      have "\<exists>ty t. te_type row = task_event_text ty \<and> taskRow s' (te_task_id row) = Some t \<and> (terminal_type ty \<longrightarrow> isTerminalTaskStatus (tk_status t))"
        if r: "row \<in> set (ws_task_events s)" for row
      proof -
        obtain ty t0 where "te_type row = task_event_text ty" "taskRow s (te_task_id row) = Some t0"
          "terminal_type ty \<longrightarrow> isTerminalTaskStatus (tk_status t0)"
          using s r unfolding tables_settled_def by blast
        then obtain t1 where "taskRow s1 (te_task_id row) = Some t1" "terminal_type ty \<longrightarrow> isTerminalTaskStatus (tk_status t1)"
          by (auto simp: s1rows)
        then have "taskRow s' (te_task_id row) = Some (if te_task_id row = i then ?f t1 else t1)"
          "terminal_type ty \<longrightarrow> isTerminalTaskStatus (tk_status (if te_task_id row = i then ?f t1 else t1))"
          using ends [of t1] by (auto simp: rows)
        with \<open>te_type row = _\<close> show ?thesis by blast
      qed
      moreover have "te_type ?row = task_event_text (ev_type te)" "te_task_id ?row = i" by (simp_all add: task_event_row_of_def source_input_def)
      moreover have "\<exists>t. taskRow s' i = Some t \<and> (terminal_type (ev_type te) \<longrightarrow> isTerminalTaskStatus (tk_status t))"
        using \<open>taskRow s1 i = Some t'\<close> ends by (simp add: rows)
      ultimately show ?thesis unfolding tables_settled_def evs by auto
    next
      case same
      then have "s1 = s" by simp
      moreover have "g > tk_last_event_sequence t" using new(5) by simp
      ultimately show ?thesis using same new(1) by simp
    qed
  qed (simp add: s)
qed

lemma moves_create:
  assumes "persistCreate sha now r t st e s = Inr (s', j, b)" and "\<not> terminal_type (ev_type e)"
  shows "store_moves s s'"
proof (cases "nonempty (cr_idempotency_key r)")
  case None
  let ?c = "task_input r t st None None"
  have c: "createTaskDurable now ?c (toEventInput e) s = Inr s'" using assms(1) None by (auto simp: persistCreate_def)
  then obtain s1 where s1: "createTaskSync now ?c s = Inr s1" "appendTaskEventSync now (ct_id ?c) (toEventInput e) s1 = Inr s'"
    by (auto simp: createTaskDurable_def)
  then obtain u where "taskRow s1 (ct_id ?c) = Some u" by (auto simp: appendTaskEventSync_def split: if_splits)
  then have "tables_settled s \<Longrightarrow> tables_settled s'"
    using settled_append [OF settled_create [OF _ s1(1)] s1(2), of "ev_type e"] assms(2) by (simp add: toEventInput_def)
  then show ?thesis using te.Q_createDurable [OF c] ti.Q_createDurable [OF c] by (intro store_movesI) auto
next
  case (Some k)
  let ?c = "task_input r t st (Some k) (Some (computeRequestFingerprint sha r))"
  have c: "createTaskIdempotently now ?c (toEventInput e) s = Inr (s', j, b)" using assms(1) Some by (auto simp: persistCreate_def)
  then consider "s' = s" | s1 where "createTaskSync now ?c s = Inr s1" "appendTaskEventSync now (ct_id ?c) (toEventInput e) s1 = Inr s'"
    by (auto simp: createTaskIdempotently_def resolve_existing_def split: option.splits if_splits)
  then have "tables_settled s' " if "tables_settled s"
  proof cases
    case 2
    then obtain u where "taskRow s1 (ct_id ?c) = Some u" by (auto simp: appendTaskEventSync_def split: if_splits)
    then show ?thesis using settled_append [OF settled_create [OF that 2(1)] 2(2), of "ev_type e"] assms(2) by (simp add: toEventInput_def)
  qed (simp add: that)
  then show ?thesis using te.Q_createIdempotently [OF c] ti.Q_createIdempotently [OF c] by (intro store_movesI) auto
qed

section \<open>Stored events\<close>

text \<open>The row holds the event: its payload is the text of the row, or was read from it.\<close>

definition row_shows :: "task_event_row \<Rightarrow> string \<Rightarrow> task_event \<Rightarrow> bool" where
  "row_shows row i e \<longleftrightarrow> te_task_id row = i \<and> te_sequence row = ev_seq e \<and> te_type row = task_event_text (ev_type e) \<and> te_ts row = ev_ts e \<and>
     (encodeJson (null_if_undef (ev_payload e)) limit_task_event_payload = Inr (te_payload_json row) \<or>
      (\<exists>v. json_parse (te_payload_json row) = Some v \<and> ev_payload e = (if v = JNull then JObj [] else v)))"

definition event_stored :: "wstore \<Rightarrow> string \<Rightarrow> task_event \<Rightarrow> bool" where
  "event_stored s i e \<longleftrightarrow> (\<exists>row\<in>set (ws_task_events s). row_shows row i e)"

lemma event_stored_mono: "event_stored s i e \<Longrightarrow> store_moves s s' \<Longrightarrow> event_stored s' i e"
  by (auto simp: event_stored_def store_moves_def)

lemma append_stored:
  assumes "appendTaskEventSync now i (toEventInput e) s = Inr s'"
  shows "event_stored s' i e"
proof -
  obtain t payload where t: "taskRow s i = Some t" and p: "encodeJson (null_if_undef (ev_payload e)) limit_task_event_payload = Inr payload"
    using assms by (auto simp: appendTaskEventSync_def toEventInput_def split: if_splits)
  show ?thesis
  proof (cases "ev_seq e \<le> tk_last_event_sequence t")
    case True
    then obtain row where "sel te_sequence (ev_seq e) (task_events_of s i) = Some row" "same_task_event row (task_event_text (ev_type e)) (ev_ts e) payload" "s' = s"
      using assms t p by (auto simp: appendTaskEventSync_def toEventInput_def split: if_splits option.splits)
    then show ?thesis using p sel_key [of te_sequence "ev_seq e" "task_events_of s i" row]
      by (auto simp: event_stored_def row_shows_def same_task_event_def task_events_of_def intro!: bexI [of _ row])
  next
    case False
    then have "task_event_row_of now i (toEventInput e) payload \<in> set (ws_task_events s')"
      using assms t p by (auto simp: appendTaskEventSync_def toEventInput_def split: if_splits)
    moreover have "row_shows (task_event_row_of now i (toEventInput e) payload) i e"
      using p by (simp add: row_shows_def task_event_row_of_def toEventInput_def)
    ultimately show ?thesis unfolding event_stored_def by blast
  qed
qed

end
