(* ===== verification/GatewaySpec.thy ===== *)
theory GatewaySpec
  imports GatewayStore
begin

text \<open>
  What the gateway does, seen from its clients: slots are reserved, moved, released and forgotten, tasks are
  registered, events published, tasks finished, streams opened and closed, transactions made. The relation
  \<open>act\<close> has one rule for each such action with the conditions under which the gateway takes it;
  every step of the gateway is a sequence of them (theory \<open>GatewaySim\<close>), so what they keep, it keeps.
\<close>

section \<open>Actions\<close>

fun creation :: "wait \<Rightarrow> bool" where
  "creation (AwaitNodes n r) = True"
| "creation (AwaitRemoteStart n t e) = True"
| "creation (AwaitPlainStart n r) = True"
| "creation (AwaitLocalStart n r) = True"
| "creation _ = False"

text \<open>What a client can see of a task.\<close>

definition stream_of :: "gateway_task \<Rightarrow> string \<times> task_event list \<times> task_event list \<times> nat list \<times> bool \<times> bool \<times> bool" where
  "stream_of t = (g_id t, g_log t, g_events t, g_subs t, g_terminal t, g_registered t, g_recovered t)"

definition pristine :: "gateway_task \<Rightarrow> bool" where
  "pristine t \<longleftrightarrow> g_log t = [] \<and> g_events t = [] \<and> g_subs t = [] \<and> \<not> g_terminal t \<and> g_registered t \<and> \<not> g_recovered t"

fun wait_ok :: "gateway_config \<Rightarrow> wstore \<Rightarrow> wait \<Rightarrow> bool" where
  "wait_ok cfg s (AwaitRemoteStart n t e) = (pristine t \<and> \<not> terminal_type (ev_type e) \<and> event_stored s (g_id t) e)"
| "wait_ok cfg s (AwaitPlainStart n r) = (\<not> gc_persist cfg)"
| "wait_ok cfg s (AwaitResult i e k) = terminal_type (ev_type e)"
| "wait_ok cfg s (SleepResult i e k) = terminal_type (ev_type e)"
| "wait_ok cfg s _ = True"

definition event_saved :: "gateway_config \<Rightarrow> wstore \<Rightarrow> string \<Rightarrow> task_event \<Rightarrow> bool" where
  "event_saved cfg s i e \<longleftrightarrow> (gc_persist cfg \<longrightarrow> event_stored s i e)"

definition open_log :: "task_event list \<Rightarrow> bool" where
  "open_log es \<longleftrightarrow> (\<forall>e\<in>set es. \<not> terminal_type (ev_type e))"

definition last_events :: "nat \<Rightarrow> 'a list \<Rightarrow> 'a list" where
  "last_events n xs = drop (length xs - n) xs"

definition recoverable :: "gateway_config \<Rightarrow> gateway_task \<Rightarrow> gateway \<Rightarrow> bool" where
  "recoverable cfg t g \<longleftrightarrow> g_recovered t \<and> g_registered t \<and> \<not> g_terminal t \<and> g_subs t = [] \<and> open_log (g_log t) \<and>
     g_events t = last_events (gc_maxEvents cfg) (g_log t) \<and> (\<forall>e\<in>set (g_log t). event_saved cfg (gw_store g) (g_id t) e) \<and>
     fresh_task (g_id t) g \<and> (\<forall>u\<in>set (gw_tasks g). g_recovered u) \<and> (\<forall>w\<in>set (gw_waits g). \<not> creation w) \<and> gw_pending g = 0"

inductive act :: "gateway_config \<Rightarrow> gateway \<Rightarrow> gateway \<Rightarrow> bool" for cfg where
  task: "(\<And>t. stream_of (f t) = stream_of t) \<Longrightarrow> act cfg g (on_task i f g)"
| store: "store_moves (gw_store g) s \<Longrightarrow> act cfg g (g\<lparr>gw_store := s\<rparr>)"
| reply: "act cfg g (answer_with n r g)"
| wait: "\<not> creation w \<Longrightarrow> wait_ok cfg (gw_store g) w \<Longrightarrow> act cfg g (add_wait w g)"
| resume: "\<not> creation w \<Longrightarrow> act cfg g (resumed w g)"
| reserve: "creation w \<Longrightarrow> wait_id w = [] \<Longrightarrow> wait_ok cfg (gw_store g) w \<Longrightarrow> gw_active g + gw_pending g < gc_maxActive cfg \<Longrightarrow>
    act cfg g (add_wait w (reserve g))"
| keep: "gw_active g + gw_pending g < gc_maxActive cfg \<Longrightarrow> act cfg g (reserve g)"
| forget: "w \<in> set (gw_waits g) \<Longrightarrow> creation w \<Longrightarrow> act cfg g (resumed w g)"
| move: "w \<in> set (gw_waits g) \<Longrightarrow> creation w \<Longrightarrow> creation w' \<Longrightarrow> wait_ok cfg (gw_store g) w' \<Longrightarrow>
    (\<And>i. i \<in> set (wait_id w') \<Longrightarrow> fresh_task i g) \<Longrightarrow> act cfg g (add_wait w' (resumed w g))"
| release: "w \<in> set (gw_waits g) \<Longrightarrow> creation w \<Longrightarrow> act cfg g (release (resumed w g))"
| register: "w \<in> set (gw_waits g) \<Longrightarrow> creation w \<Longrightarrow> pristine t \<Longrightarrow> fresh_task (g_id t) (resumed w g) \<Longrightarrow> \<not> terminal_type (ev_type e) \<Longrightarrow>
    event_saved cfg (gw_store g) (g_id t) e \<Longrightarrow> act cfg g (register (publish_in cfg e t) (resumed w g))"
| publish: "task_object g i = Some t \<Longrightarrow> \<not> g_terminal t \<Longrightarrow> \<not> terminal_type (ev_type e) \<Longrightarrow> event_saved cfg (gw_store g) i e \<Longrightarrow>
    act cfg g (pushEvent cfg i e g)"
| finish: "task_object g i = Some t \<Longrightarrow> \<not> g_terminal t \<Longrightarrow> terminal_type (ev_type e) \<Longrightarrow> act cfg g (finishTask cfg i (pushEvent cfg i e g))"
| replay: "fresh_response n g \<Longrightarrow> act cfg g (write_frames n es g)"
| subscribe: "fresh_response n g \<Longrightarrow> task_object g i = Some t \<Longrightarrow> \<not> g_terminal t \<Longrightarrow>
    act cfg g (on_task i (\<lambda>t. t\<lparr>g_subs := g_subs t @ [n]\<rparr>) (write_frames n es g))"
| leave: "task_object g i = Some t \<Longrightarrow> n \<in> set (g_subs t) \<Longrightarrow> act cfg g (disconnect n i g)"
| shutdown: "act cfg g (close_gateway g)"
| recover: "recoverable cfg t g \<Longrightarrow> act cfg g (g\<lparr>gw_tasks := gw_tasks g @ [t], gw_active := gw_active g + 1\<rparr>)"

abbreviation acts :: "gateway_config \<Rightarrow> gateway \<Rightarrow> gateway \<Rightarrow> bool" where
  "acts cfg \<equiv> (act cfg)\<^sup>*\<^sup>*"

section \<open>Invariant\<close>

definition task_ok :: "gateway_config \<Rightarrow> gateway_task \<Rightarrow> bool" where
  "task_ok cfg t \<longleftrightarrow> g_events t = last_events (gc_maxEvents cfg) (g_log t) \<and>
    (if g_terminal t then g_subs t = [] \<and> g_log t \<noteq> [] \<and> terminal_type (ev_type (last (g_log t))) \<and> open_log (butlast (g_log t))
     else open_log (g_log t))"

definition ids_ok :: "gateway \<Rightarrow> bool" where
  "ids_ok g \<longleftrightarrow> distinct (map g_id (gw_tasks g) @ concat (map wait_id (gw_waits g)))"

definition slots_ok :: "gateway_config \<Rightarrow> gateway \<Rightarrow> bool" where
  "slots_ok cfg g \<longleftrightarrow> gw_active g = int (length (filter (\<lambda>t. \<not> g_terminal t) (gw_tasks g))) \<and>
     int (length (filter creation (gw_waits g))) \<le> gw_pending g \<and>
     gw_active g + gw_pending g \<le> max (gc_maxActive cfg) (int (length (filter g_recovered (gw_tasks g))))"

definition tasks_ok :: "gateway_config \<Rightarrow> gateway \<Rightarrow> bool" where
  "tasks_ok cfg g \<longleftrightarrow> (\<forall>t\<in>set (gw_tasks g). task_ok cfg t)"

definition saved_ok :: "gateway_config \<Rightarrow> gateway \<Rightarrow> bool" where
  "saved_ok cfg g \<longleftrightarrow> (\<forall>w\<in>set (gw_waits g). wait_ok cfg (gw_store g) w) \<and>
     (\<forall>t\<in>set (gw_tasks g). \<forall>e\<in>set (g_log t). \<not> terminal_type (ev_type e) \<longrightarrow> event_saved cfg (gw_store g) (g_id t) e)"

definition retained_ok :: "gateway_config \<Rightarrow> gateway \<Rightarrow> bool" where
  "retained_ok cfg g \<longleftrightarrow> distinct (gw_completed g) \<and> length (gw_completed g) \<le> gc_maxRetained cfg \<and>
     (\<forall>t\<in>set (gw_tasks g). g_registered t \<longleftrightarrow> \<not> g_terminal t \<or> g_id t \<in> set (gw_completed g)) \<and>
     (\<forall>i\<in>set (gw_completed g). \<exists>t\<in>set (gw_tasks g). g_id t = i \<and> g_terminal t)"

definition subs_ok :: "gateway \<Rightarrow> bool" where
  "subs_ok g \<longleftrightarrow> distinct (concat (map g_subs (gw_tasks g))) \<and> set (concat (map g_subs (gw_tasks g))) \<inter> set (gw_gone g) = {}"

definition store_ok :: "gateway \<Rightarrow> bool" where
  "store_ok g \<longleftrightarrow> task_inv (gw_store g) \<and> tables_settled (gw_store g)"

definition gateway_ok :: "gateway_config \<Rightarrow> gateway \<Rightarrow> bool" where
  "gateway_ok cfg g \<longleftrightarrow> ids_ok g \<and> slots_ok cfg g \<and> tasks_ok cfg g \<and> saved_ok cfg g \<and> retained_ok cfg g \<and> subs_ok g \<and> store_ok g"

section \<open>One task of the gateway\<close>

lemma task_split:
  assumes "distinct (map g_id ts)" and "find (\<lambda>t. g_id t = i) ts = Some t"
  obtains xs ys where "ts = xs @ t # ys" and "g_id t = i" and "\<forall>u\<in>set xs \<union> set ys. g_id u \<noteq> i"
proof -
  have t: "t \<in> set ts" "g_id t = i" using assms(2) by (auto simp: find_Some_iff)
  then obtain xs ys where ts: "ts = xs @ t # ys" by (meson split_list)
  with assms(1) t(2) have "\<forall>u\<in>set xs \<union> set ys. g_id u \<noteq> i" by (auto simp: image_iff)
  with ts t(2) show ?thesis using that by blast
qed

lemma map_split:
  assumes "g_id t = i" and "\<forall>u\<in>set xs \<union> set ys. g_id u \<noteq> i"
  shows "map (\<lambda>t. if g_id t = i then f t else t) (xs @ t # ys) = xs @ f t # ys"
  using assms by (auto intro: map_idI)

lemma publish_in_fields [simp]:
  "g_id (publish_in cfg e t) = g_id t" "g_log (publish_in cfg e t) = g_log t @ [e]" "g_subs (publish_in cfg e t) = g_subs t"
  "g_terminal (publish_in cfg e t) = g_terminal t" "g_registered (publish_in cfg e t) = g_registered t"
  "g_recovered (publish_in cfg e t) = g_recovered t"
  by (simp_all add: publish_in_def)

lemma last_events_snoc: "shift_to n (last_events n xs @ [x]) = last_events n (xs @ [x])"
proof (cases "length xs < n")
  case False
  then have "tl (drop (length xs - n) (xs @ [x])) = drop (Suc (length xs) - n) (xs @ [x])"
    by (simp only: tl_drop drop_Suc Suc_diff_le not_less)
  with False show ?thesis by (simp add: shift_to_def last_events_def)
qed (simp add: shift_to_def last_events_def)

lemma publish_in_events:
  "g_events t = last_events (gc_maxEvents cfg) (g_log t) \<Longrightarrow> g_events (publish_in cfg e t) = last_events (gc_maxEvents cfg) (g_log t @ [e])"
  by (simp add: publish_in_def last_events_snoc)

lemma end_streams_fields [simp]:
  "g_id (end_streams t) = g_id t" "g_log (end_streams t) = g_log t" "g_subs (end_streams t) = []" "g_events (end_streams t) = g_events t"
  "g_terminal (end_streams t) = True" "g_registered (end_streams t) = g_registered t" "g_recovered (end_streams t) = g_recovered t"
  by (simp_all add: end_streams_def)

text \<open>Eviction only unregisters.\<close>

definition unregister :: "string set \<Rightarrow> gateway_task \<Rightarrow> gateway_task" where
  "unregister D t = (if g_id t \<in> D \<and> g_terminal t then t\<lparr>g_registered := False\<rparr> else t)"

lemma unregister_fields [simp]:
  "g_id (unregister D t) = g_id t" "g_log (unregister D t) = g_log t" "g_subs (unregister D t) = g_subs t" "g_events (unregister D t) = g_events t"
  "g_terminal (unregister D t) = g_terminal t" "g_recovered (unregister D t) = g_recovered t"
  "g_registered (unregister D t) \<longleftrightarrow> g_registered t \<and> \<not> (g_id t \<in> D \<and> g_terminal t)"
  by (simp_all add: unregister_def)

lemma evict_eq: "evictIfNeeded cfg g =
  g\<lparr>gw_completed := drop (length (gw_completed g) - gc_maxRetained cfg) (gw_completed g),
    gw_tasks := map (unregister (set (take (length (gw_completed g) - gc_maxRetained cfg) (gw_completed g)))) (gw_tasks g)\<rparr>"
  by (simp add: evictIfNeeded_def Let_def unregister_def)

lemma push_eq:
  assumes "gw_tasks g = xs @ t # ys" and "g_id t = i" and "\<forall>u\<in>set xs \<union> set ys. g_id u \<noteq> i"
  shows "pushEvent cfg i e g = g\<lparr>gw_tasks := xs @ publish_in cfg e t # ys, gw_frames := gw_frames g @ map (\<lambda>n. (n, e)) (g_subs t)\<rparr>"
proof -
  have "find (\<lambda>t. g_id t = i) (xs @ t # ys) = Some t"
    using assms(2,3) by (induction xs) auto
  then show ?thesis using map_split [OF assms(2,3)] by (simp add: pushEvent_def with_task_def task_object_def assms(1) on_task_def)
qed

definition finished :: "gateway_config \<Rightarrow> task_event \<Rightarrow> gateway_task list \<Rightarrow> gateway_task \<Rightarrow> gateway_task list \<Rightarrow> gateway \<Rightarrow> gateway" where
  "finished cfg e xs t ys g = g\<lparr>gw_frames := gw_frames g @ map (\<lambda>n. (n, e)) (g_subs t), gw_tasks := xs @ end_streams (publish_in cfg e t) # ys,
     gw_active := gw_active g - 1, gw_completed := gw_completed g @ [g_id t]\<rparr>"

lemma finish_eq:
  assumes "gw_tasks g = xs @ t # ys" and "g_id t = i" and "\<forall>u\<in>set xs \<union> set ys. g_id u \<noteq> i" and "\<not> g_terminal t"
  shows "finishTask cfg i (pushEvent cfg i e g) = evictIfNeeded cfg (finished cfg e xs t ys g)"
proof -
  have "find (\<lambda>t. g_id t = i) (xs @ publish_in cfg e t # ys) = Some (publish_in cfg e t)"
    using assms(2,3) by (induction xs) auto
  moreover have "map (\<lambda>t. if g_id t = i then end_streams t else t) (xs @ publish_in cfg e t # ys) = xs @ end_streams (publish_in cfg e t) # ys"
    using assms(2,3) by (intro map_split) auto
  ultimately show ?thesis using assms(2,4)
    by (simp add: push_eq [OF assms(1-3)] finishTask_def with_task_def task_object_def on_task_def finished_def)
qed

end
