(* ===== verification/GatewayInvariant.thy ===== *)
theory GatewayInvariant
  imports GatewaySpec
begin

text \<open>
  Every action of the gateway keeps its invariant: task ids are unique, the two counters count the
  running tasks and at least the creations under way, a task has at most one terminal event and it is the last, what was
  published before it is stored, finished tasks are retained up to the limit, and a stream belongs to one task.
\<close>

section \<open>Frames\<close>

lemma stream_ofD:
  assumes "stream_of t = stream_of u"
  shows "g_id t = g_id u" "g_log t = g_log u" "g_events t = g_events u" "g_subs t = g_subs u" "g_terminal t = g_terminal u"
    "g_registered t = g_registered u" "g_recovered t = g_recovered u"
  using assms by (simp_all add: stream_of_def)

lemma on_task_simps [simp]:
  "gw_waits (on_task i f g) = gw_waits g" "gw_store (on_task i f g) = gw_store g" "gw_active (on_task i f g) = gw_active g"
  "gw_pending (on_task i f g) = gw_pending g" "gw_completed (on_task i f g) = gw_completed g" "gw_frames (on_task i f g) = gw_frames g"
  "gw_gone (on_task i f g) = gw_gone g" "gw_replies (on_task i f g) = gw_replies g" "gw_closing (on_task i f g) = gw_closing g"
  by (simp_all add: on_task_def)

lemma on_task_map: "(\<And>t. h (f t) = h t) \<Longrightarrow> map h (gw_tasks (on_task i f g)) = map h (gw_tasks g)"
  by (auto simp: on_task_def)

lemma on_task_count: "(\<And>t. P (f t) = P t) \<Longrightarrow> length (filter P (gw_tasks (on_task i f g))) = length (filter P (gw_tasks g))"
  by (simp add: on_task_def filter_map comp_def if_distrib cong: if_cong)

lemma on_task_all: "\<forall>t\<in>set (gw_tasks g). P t \<Longrightarrow> (\<And>t. P (f t) = P t) \<Longrightarrow> \<forall>t\<in>set (gw_tasks (on_task i f g)). P t"
  by (auto simp: on_task_def)

lemma add_wait_simps [simp]:
  "gw_waits (add_wait w g) = gw_waits g @ [w]" "gw_tasks (add_wait w g) = gw_tasks g" "gw_store (add_wait w g) = gw_store g"
  "gw_active (add_wait w g) = gw_active g" "gw_pending (add_wait w g) = gw_pending g" "gw_completed (add_wait w g) = gw_completed g"
  "gw_frames (add_wait w g) = gw_frames g" "gw_gone (add_wait w g) = gw_gone g"
  by (simp_all add: add_wait_def)

lemma resumed_simps [simp]:
  "gw_waits (resumed w g) = remove1 w (gw_waits g)" "gw_tasks (resumed w g) = gw_tasks g" "gw_store (resumed w g) = gw_store g"
  "gw_active (resumed w g) = gw_active g" "gw_pending (resumed w g) = gw_pending g" "gw_completed (resumed w g) = gw_completed g"
  "gw_frames (resumed w g) = gw_frames g" "gw_gone (resumed w g) = gw_gone g"
  by (simp_all add: resumed_def)

lemma answer_simps [simp]:
  "gw_waits (answer_with n r g) = gw_waits g" "gw_tasks (answer_with n r g) = gw_tasks g" "gw_store (answer_with n r g) = gw_store g"
  "gw_active (answer_with n r g) = gw_active g" "gw_pending (answer_with n r g) = gw_pending g" "gw_completed (answer_with n r g) = gw_completed g"
  "gw_frames (answer_with n r g) = gw_frames g" "gw_gone (answer_with n r g) = gw_gone g"
  by (simp_all add: answer_with_def)

lemmas small_defs = reserve_def release_def register_def write_frames_def

lemma remove1_split:
  assumes "w \<in> set ws"
  obtains us vs where "ws = us @ w # vs" and "remove1 w ws = us @ vs"
  using split_list_first [OF assms] by (metis remove1.simps(2) remove1_append)

lemma wait_id_creation: "\<not> creation w \<Longrightarrow> wait_id w = []"
  by (cases w) auto

lemma count_remove1: "\<not> P w \<Longrightarrow> filter P (remove1 w ws) = filter P ws"
  by (induction ws) auto

lemma wait_ids_remove1: "wait_id w = [] \<Longrightarrow> concat (map wait_id (remove1 w ws)) = concat (map wait_id ws)"
  by (induction ws) auto

lemma wait_ids_filter: "(\<And>w. \<not> P w \<Longrightarrow> wait_id w = []) \<Longrightarrow> concat (map wait_id (filter P ws)) = concat (map wait_id ws)"
  by (induction ws) auto

section \<open>Task ids\<close>

definition kept_waits :: "wait list \<Rightarrow> wait list" where
  "kept_waits ws = filter (\<lambda>w. \<not> (case w of RecoveryTimer i n \<Rightarrow> True | _ \<Rightarrow> False)) ws"

lemma kept_waits_ids: "concat (map wait_id (kept_waits ws)) = concat (map wait_id ws)"
  unfolding kept_waits_def by (rule wait_ids_filter) (auto split: wait.splits)

lemma kept_waits_creation: "filter creation (kept_waits ws) = filter creation ws"
  unfolding kept_waits_def by (induction ws) (auto split: wait.splits)

lemma close_simps [simp]:
  "gw_waits (close_gateway g) = kept_waits (gw_waits g)" "gw_store (close_gateway g) = gw_store g" "gw_active (close_gateway g) = gw_active g"
  "gw_pending (close_gateway g) = gw_pending g" "gw_completed (close_gateway g) = gw_completed g" "gw_frames (close_gateway g) = gw_frames g"
  "gw_gone (close_gateway g) = gw_gone g @ concat (map g_subs (filter g_registered (gw_tasks g)))"
  "gw_tasks (close_gateway g) = map (\<lambda>t. if g_registered t then t\<lparr>g_poll := False, g_subs := []\<rparr> else t) (gw_tasks g)"
  by (simp_all add: close_gateway_def kept_waits_def)

lemma ids_act:
  assumes "act cfg g g'" and "ids_ok g"
  shows "ids_ok g'"
  using assms
proof (induction rule: act.induct)
  case (task f g i)
  have "g_id (f t) = g_id t" for t using task(1) stream_ofD(1) by blast
  with task(2) show ?case by (simp add: ids_ok_def on_task_map)
next
  case (resume w g)
  then show ?case by (simp add: ids_ok_def wait_ids_remove1 wait_id_creation)
next
  case (move w g w')
  from move(1) obtain us vs where ws: "gw_waits g = us @ w # vs" "remove1 w (gw_waits g) = us @ vs" by (rule remove1_split)
  with move show ?case by (cases w') (auto simp: ids_ok_def fresh_task_def)
next
  case (release w g)
  from release(1) obtain us vs where ws: "gw_waits g = us @ w # vs" "remove1 w (gw_waits g) = us @ vs" by (rule remove1_split)
  with release(3) show ?case by (auto simp: ids_ok_def release_def)
next
  case (forget w g)
  from forget(1) obtain us vs where ws: "gw_waits g = us @ w # vs" "remove1 w (gw_waits g) = us @ vs" by (rule remove1_split)
  with forget(3) show ?case by (auto simp: ids_ok_def)
next
  case (register w g t e)
  from register(1) obtain us vs where ws: "gw_waits g = us @ w # vs" "remove1 w (gw_waits g) = us @ vs" by (rule remove1_split)
  with register(4,7) show ?case by (auto simp: ids_ok_def register_def fresh_task_def)
next
  case (publish g i t e)
  then obtain xs ys where s: "gw_tasks g = xs @ t # ys" "g_id t = i" "\<forall>u\<in>set xs \<union> set ys. g_id u \<noteq> i"
    using task_split [of "gw_tasks g" i t] by (auto simp: ids_ok_def task_object_def)
  with publish show ?case by (simp add: push_eq [OF s] ids_ok_def)
next
  case (finish g i t e)
  then obtain xs ys where s: "gw_tasks g = xs @ t # ys" "g_id t = i" "\<forall>u\<in>set xs \<union> set ys. g_id u \<noteq> i"
    using task_split [of "gw_tasks g" i t] by (auto simp: ids_ok_def task_object_def)
  with finish show ?case by (simp add: finish_eq [OF s finish(2)] evict_eq finished_def ids_ok_def comp_def)
next
  case (shutdown g)
  then show ?case by (simp add: ids_ok_def kept_waits_ids comp_def if_distrib cong: if_cong)
next
  case (recover t g)
  then show ?case by (auto simp: ids_ok_def recoverable_def fresh_task_def)
qed (auto simp: ids_ok_def small_defs wait_id_creation on_task_map disconnect_def)

lemma object_split:
  assumes "ids_ok g" and "task_object g i = Some t"
  obtains xs ys where "gw_tasks g = xs @ t # ys" and "g_id t = i" and "\<forall>u\<in>set xs \<union> set ys. g_id u \<noteq> i"
  using assms task_split [of "gw_tasks g" i t] by (auto simp: ids_ok_def task_object_def)

lemma on_split:
  assumes "gw_tasks g = xs @ t # ys" and "g_id t = i" and "\<forall>u\<in>set xs \<union> set ys. g_id u \<noteq> i"
  shows "gw_tasks (on_task i f g) = xs @ f t # ys"
  using map_split [OF assms(2,3)] by (simp add: on_task_def assms(1))

lemma on_object:
  assumes "ids_ok g" and "task_object g i = Some t"
  shows "\<exists>xs ys. gw_tasks g = xs @ t # ys \<and> g_id t = i \<and> (\<forall>f. gw_tasks (on_task i f g) = xs @ f t # ys)"
  using object_split [OF assms] on_split by metis

section \<open>Slots\<close>

lemma slots_act:
  assumes "act cfg g g'" and "ids_ok g" and "slots_ok cfg g"
  shows "slots_ok cfg g'"
  using assms
proof (induction rule: act.induct)
  case (task f g i)
  have "g_terminal (f t) = g_terminal t" "g_recovered (f t) = g_recovered t" for t using task(1) stream_ofD by blast+
  with task(3) show ?case by (simp add: slots_ok_def on_task_count)
next
  case (move w g w')
  from move(1) obtain us vs where "gw_waits g = us @ w # vs" "remove1 w (gw_waits g) = us @ vs" by (rule remove1_split)
  with move(2,3,7) show ?case by (simp add: slots_ok_def)
next
  case (release w g)
  from release(1) obtain us vs where "gw_waits g = us @ w # vs" "remove1 w (gw_waits g) = us @ vs" by (rule remove1_split)
  with release(2,4) show ?case by (simp add: slots_ok_def release_def)
next
  case (forget w g)
  from forget(1) obtain us vs where "gw_waits g = us @ w # vs" "remove1 w (gw_waits g) = us @ vs" by (rule remove1_split)
  with forget(2,4) show ?case by (simp add: slots_ok_def)
next
  case (register w g t e)
  from register(1) obtain us vs where "gw_waits g = us @ w # vs" "remove1 w (gw_waits g) = us @ vs" by (rule remove1_split)
  with register(2,3,8) show ?case by (simp add: slots_ok_def register_def pristine_def)
next
  case (publish g i t e)
  from publish(5,1) obtain xs ys where s: "gw_tasks g = xs @ t # ys" "g_id t = i" "\<forall>u\<in>set xs \<union> set ys. g_id u \<noteq> i" by (rule object_split)
  with publish(2,6) show ?case by (cases "g_recovered t") (simp_all add: push_eq [OF s] slots_ok_def)
next
  case (finish g i t e)
  from finish(4,1) obtain xs ys where s: "gw_tasks g = xs @ t # ys" "g_id t = i" "\<forall>u\<in>set xs \<union> set ys. g_id u \<noteq> i" by (rule object_split)
  with finish(2,5) show ?case
    by (cases "g_recovered t") (simp_all add: finish_eq [OF s finish(2)] evict_eq finished_def slots_ok_def filter_map comp_def)
next
  case (recover t g)
  then have "\<forall>u\<in>set (gw_tasks g). g_recovered u" "\<forall>w\<in>set (gw_waits g). \<not> creation w" "g_recovered t" "\<not> g_terminal t" "gw_pending g = 0"
    by (auto simp: recoverable_def)
  then have "filter g_recovered (gw_tasks g) = gw_tasks g" "filter creation (gw_waits g) = []" "g_recovered t" "\<not> g_terminal t" "gw_pending g = 0" by auto
  with recover(3) length_filter_le [of "\<lambda>t. \<not> g_terminal t" "gw_tasks g"] show ?case
    by (auto simp: slots_ok_def simp del: length_filter_le)
qed (auto simp: slots_ok_def small_defs count_remove1 on_task_count disconnect_def filter_map comp_def if_distrib kept_waits_creation cong: if_cong)

section \<open>Streams of events\<close>

lemma task_ok_stream: "stream_of t = stream_of u \<Longrightarrow> task_ok cfg t = task_ok cfg u"
  by (simp add: task_ok_def stream_of_def)

lemma open_log_simps [simp]: "open_log []" "open_log (e # es) \<longleftrightarrow> \<not> terminal_type (ev_type e) \<and> open_log es" "open_log (es @ [e]) \<longleftrightarrow> open_log es \<and> \<not> terminal_type (ev_type e)"
  by (auto simp: open_log_def)

lemma tasks_act:
  assumes "act cfg g g'" and "ids_ok g" and "tasks_ok cfg g"
  shows "tasks_ok cfg g'"
  using assms
proof (induction rule: act.induct)
  case (task f g i)
  have "task_ok cfg (f t) = task_ok cfg t" for t using task(1) by (rule task_ok_stream)
  with task(3) show ?case by (auto simp: tasks_ok_def on_task_def)
next
  case (register w g t e)
  have "task_ok cfg (publish_in cfg e t)"
    using register(3,5) publish_in_events [of t cfg e] by (simp add: task_ok_def pristine_def last_events_def)
  with register(8) show ?case by (auto simp: tasks_ok_def register_def)
next
  case (publish g i t e)
  from publish(5,1) obtain xs ys where s: "gw_tasks g = xs @ t # ys" "g_id t = i" "\<forall>u\<in>set xs \<union> set ys. g_id u \<noteq> i" by (rule object_split)
  then have "task_ok cfg t" using publish(6) by (simp add: tasks_ok_def)
  then have "task_ok cfg (publish_in cfg e t)" using publish(2,3) publish_in_events [of t cfg e] by (simp add: task_ok_def)
  with publish(6) s(1) show ?case by (simp add: push_eq [OF s] tasks_ok_def)
next
  case (finish g i t e)
  from finish(4,1) obtain xs ys where s: "gw_tasks g = xs @ t # ys" "g_id t = i" "\<forall>u\<in>set xs \<union> set ys. g_id u \<noteq> i" by (rule object_split)
  then have "task_ok cfg t" using finish(5) by (simp add: tasks_ok_def)
  then have "task_ok cfg (end_streams (publish_in cfg e t))" using finish(2,3) publish_in_events [of t cfg e] by (simp add: task_ok_def)
  moreover have "task_ok cfg (unregister D u) = task_ok cfg u" for D u by (simp add: task_ok_def)
  ultimately show ?case using finish(5) s(1) by (auto simp: finish_eq [OF s finish(2)] evict_eq finished_def tasks_ok_def)
next
  case (subscribe n g i t es)
  from subscribe(4,2) obtain xs ys where s: "gw_tasks g = xs @ t # ys" "g_id t = i" "\<forall>u\<in>set xs \<union> set ys. g_id u \<noteq> i" by (rule object_split)
  then have "gw_tasks (write_frames n es g) = xs @ t # ys" by (simp add: write_frames_def)
  with subscribe(3,5) s show ?case by (simp add: tasks_ok_def on_split [OF _ s(2,3)] task_ok_def)
next
  case (recover t g)
  then show ?case by (auto simp: tasks_ok_def recoverable_def task_ok_def)
qed (auto simp: tasks_ok_def small_defs task_ok_def disconnect_def on_task_def)

section \<open>Stored events\<close>

lemma wait_ok_mono: "wait_ok cfg s w \<Longrightarrow> store_moves s s' \<Longrightarrow> wait_ok cfg s' w"
  by (cases w) (auto intro: event_stored_mono)

lemma event_saved_mono: "event_saved cfg s i e \<Longrightarrow> store_moves s s' \<Longrightarrow> event_saved cfg s' i e"
  by (auto simp: event_saved_def intro: event_stored_mono)

lemma saved_act:
  assumes "act cfg g g'" and "ids_ok g" and "saved_ok cfg g"
  shows "saved_ok cfg g'"
  using assms
proof (induction rule: act.induct)
  case (task f g i)
  have "g_log (f t) = g_log t" "g_id (f t) = g_id t" for t using task(1) stream_ofD by blast+
  with task(3) show ?case by (auto simp: saved_ok_def on_task_def)
next
  case (store g s)
  then show ?case by (auto simp: saved_ok_def intro: wait_ok_mono event_saved_mono)
next
  case (register w g t e)
  have "set (remove1 w (gw_waits g)) \<subseteq> set (gw_waits g)" by (rule set_remove1_subset)
  with register show ?case by (auto simp: saved_ok_def register_def pristine_def)
next
  case (publish g i t e)
  from publish(5,1) obtain xs ys where s: "gw_tasks g = xs @ t # ys" "g_id t = i" "\<forall>u\<in>set xs \<union> set ys. g_id u \<noteq> i" by (rule object_split)
  with publish(4,6) show ?case by (auto simp: push_eq [OF s] saved_ok_def)
next
  case (finish g i t e)
  from finish(4,1) obtain xs ys where s: "gw_tasks g = xs @ t # ys" "g_id t = i" "\<forall>u\<in>set xs \<union> set ys. g_id u \<noteq> i" by (rule object_split)
  with finish(3,5) show ?case by (auto simp: finish_eq [OF s finish(2)] evict_eq finished_def saved_ok_def)
next
  case (move w g w')
  then show ?case by (auto simp: saved_ok_def dest: set_remove1_subset [THEN subsetD])
next
  case (release w g)
  then show ?case by (auto simp: saved_ok_def release_def dest: set_remove1_subset [THEN subsetD])
next
  case (forget w g)
  then show ?case by (auto simp: saved_ok_def dest: set_remove1_subset [THEN subsetD])
next
  case (resume w g)
  then show ?case by (auto simp: saved_ok_def dest: set_remove1_subset [THEN subsetD])
qed (auto simp: saved_ok_def small_defs disconnect_def on_task_def kept_waits_def recoverable_def)

section \<open>Retention\<close>

definition registry :: "gateway_task list \<Rightarrow> (string \<times> bool \<times> bool) list" where
  "registry ts = map (\<lambda>t. (g_id t, g_terminal t, g_registered t)) ts"

lemma retained_registry:
  "retained_ok cfg g \<longleftrightarrow> distinct (gw_completed g) \<and> length (gw_completed g) \<le> gc_maxRetained cfg \<and>
     (\<forall>(i, e, r)\<in>set (registry (gw_tasks g)). r \<longleftrightarrow> \<not> e \<or> i \<in> set (gw_completed g)) \<and>
     (\<forall>i\<in>set (gw_completed g). \<exists>(k, e, r)\<in>set (registry (gw_tasks g)). k = i \<and> e)"
  by (simp add: retained_ok_def registry_def)

lemma retained_same:
  assumes "retained_ok cfg g" and "registry (gw_tasks g') = registry (gw_tasks g)" and "gw_completed g' = gw_completed g"
  shows "retained_ok cfg g'"
  using assms unfolding retained_registry by simp

lemma registry_on_task:
  "(\<And>t. (g_id (f t), g_terminal (f t), g_registered (f t)) = (g_id t, g_terminal t, g_registered t)) \<Longrightarrow>
   registry (gw_tasks (on_task i f g)) = registry (gw_tasks g)"
  unfolding registry_def by (rule on_task_map) auto

lemma in_drop_iff:
  assumes "distinct xs"
  shows "x \<in> set (drop n xs) \<longleftrightarrow> x \<in> set xs \<and> x \<notin> set (take n xs)"
proof -
  have "set xs = set (take n xs) \<union> set (drop n xs)" by (metis append_take_drop_id set_append)
  with set_take_disj_set_drop_if_distinct [OF assms, of n n] show ?thesis by auto
qed

lemma retained_act:
  assumes "act cfg g g'" and "ids_ok g" and "retained_ok cfg g"
  shows "retained_ok cfg g'"
  using assms
proof (induction rule: act.induct)
  case (task f g i)
  have "g_id (f t) = g_id t" "g_terminal (f t) = g_terminal t" "g_registered (f t) = g_registered t" for t using task(1) stream_ofD by blast+
  then show ?case by (intro retained_same [OF task(3)] registry_on_task) simp_all
next
  case (publish g i t e)
  from publish(5,1) obtain xs ys where s: "gw_tasks g = xs @ t # ys" "g_id t = i" "\<forall>u\<in>set xs \<union> set ys. g_id u \<noteq> i" by (rule object_split)
  then show ?case by (intro retained_same [OF publish(6)]) (simp_all add: push_eq [OF s] registry_def)
next
  case (finish g i t e)
  from finish(4,1) obtain xs ys where s: "gw_tasks g = xs @ t # ys" "g_id t = i" "\<forall>u\<in>set xs \<union> set ys. g_id u \<noteq> i" by (rule object_split)
  let ?C = "gw_completed g @ [i]" let ?n = "length ?C - gc_maxRetained cfg" let ?ts = "xs @ end_streams (publish_in cfg e t) # ys"
  have i: "i \<notin> set (gw_completed g)" "g_registered t" using finish(2,5) s by (auto simp: retained_ok_def)
  have d: "distinct ?C" using finish(5) i by (simp add: retained_ok_def)
  then have C: "k \<in> set (drop ?n ?C) \<longleftrightarrow> k \<in> set ?C \<and> k \<notin> set (take ?n ?C)" for k by (rule in_drop_iff)
  have "\<forall>u\<in>set ?ts. (g_registered u \<and> \<not> (g_id u \<in> set (take ?n ?C) \<and> g_terminal u)) \<longleftrightarrow> \<not> g_terminal u \<or> g_id u \<in> set (drop ?n ?C)"
    using finish(5) s i unfolding C by (simp add: retained_ok_def del: take_append) blast
  moreover have "\<exists>u\<in>set ?ts. g_id u = k \<and> g_terminal u" if "k \<in> set (drop ?n ?C)" for k
    using in_set_dropD [OF that] finish(2,5) s by (auto simp: retained_ok_def)
  moreover have "gw_completed (finishTask cfg i (pushEvent cfg i e g)) = drop ?n ?C"
    "gw_tasks (finishTask cfg i (pushEvent cfg i e g)) = map (unregister (set (take ?n ?C))) ?ts"
    by (simp_all add: finish_eq [OF s finish(2)] evict_eq finished_def s(2))
  ultimately show ?case unfolding retained_ok_def using distinct_drop [OF d, of ?n]
    by (simp del: take_append drop_append set_append append_assoc map_append distinct_append)
next
  case (subscribe n g i t es)
  have "retained_ok cfg (write_frames n es g)" using subscribe(5) by (simp add: retained_ok_def write_frames_def)
  then show ?case by (rule retained_same) (rule registry_on_task, simp_all)
next
  case (leave g i t n)
  have "retained_ok cfg (g\<lparr>gw_gone := gw_gone g @ [n]\<rparr>)" using leave(4) by (simp add: retained_ok_def)
  then show ?case unfolding disconnect_def by (rule retained_same) (rule registry_on_task, simp_all)
next
  case (shutdown g)
  show ?case by (rule retained_same [OF shutdown(2)]) (simp_all add: registry_def comp_def if_distrib cong: if_cong)
next
  case (register w g t e)
  then show ?case by (auto simp: retained_ok_def register_def pristine_def)
next
  case (recover t g)
  then show ?case by (auto simp: retained_ok_def recoverable_def)
qed (auto simp: retained_ok_def small_defs)

section \<open>Subscribers\<close>

lemma closed_subs:
  "concat (map g_subs (map (\<lambda>t. if g_registered t then t\<lparr>g_poll := False, g_subs := []\<rparr> else t) ts)) =
     concat (map g_subs (filter (\<lambda>t. \<not> g_registered t) ts))"
  "distinct (concat (map g_subs ts)) \<Longrightarrow> distinct (concat (map g_subs (filter (\<lambda>t. \<not> g_registered t) ts)))"
  "distinct (concat (map g_subs ts)) \<Longrightarrow>
     set (concat (map g_subs (filter (\<lambda>t. \<not> g_registered t) ts))) \<inter> set (concat (map g_subs (filter g_registered ts))) = {}"
  by (induction ts) auto

lemma subs_act:
  assumes "act cfg g g'" and "ids_ok g" and "subs_ok g"
  shows "subs_ok g'"
  using assms
proof (induction rule: act.induct)
  case (task f g i)
  have "g_subs (f t) = g_subs t" for t using task(1) stream_ofD by blast
  with task(3) show ?case by (simp add: subs_ok_def on_task_map)
next
  case (publish g i t e)
  from publish(5,1) obtain xs ys where s: "gw_tasks g = xs @ t # ys" "g_id t = i" "\<forall>u\<in>set xs \<union> set ys. g_id u \<noteq> i" by (rule object_split)
  with publish(6) show ?case by (simp add: push_eq [OF s] subs_ok_def)
next
  case (finish g i t e)
  from finish(4,1) obtain xs ys where s: "gw_tasks g = xs @ t # ys" "g_id t = i" "\<forall>u\<in>set xs \<union> set ys. g_id u \<noteq> i" by (rule object_split)
  with finish(5) show ?case by (auto simp: finish_eq [OF s finish(2)] evict_eq finished_def subs_ok_def comp_def)
next
  case (subscribe n g i t es)
  from subscribe(4,2) obtain xs ys where s: "gw_tasks g = xs @ t # ys" "g_id t = i" "\<forall>u\<in>set xs \<union> set ys. g_id u \<noteq> i" by (rule object_split)
  then have "gw_tasks (write_frames n es g) = xs @ t # ys" by (simp add: write_frames_def)
  with subscribe(1,5) s show ?case by (auto simp: subs_ok_def on_split [OF _ s(2,3)] fresh_response_def write_frames_def)
next
  case (leave g i t n)
  from leave(3,1) obtain xs ys where s: "gw_tasks g = xs @ t # ys" "g_id t = i" "\<forall>u\<in>set xs \<union> set ys. g_id u \<noteq> i" by (rule object_split)
  then have "gw_tasks (g\<lparr>gw_gone := gw_gone g @ [n]\<rparr>) = xs @ t # ys" by simp
  with leave(2,4) s show ?case by (auto simp: subs_ok_def on_split [OF _ s(2,3)] disconnect_def)
next
  case (register w g t e)
  then show ?case by (simp add: subs_ok_def register_def pristine_def)
next
  case (shutdown g)
  have "concat (map g_subs (gw_tasks (close_gateway g))) = concat (map g_subs (filter (\<lambda>t. \<not> g_registered t) (gw_tasks g)))"
    unfolding close_simps by (rule closed_subs(1))
  with closed_subs(2,3) [of "gw_tasks g"] shutdown(2) show ?case by (auto simp: subs_ok_def simp del: map_map close_simps(8))
next
  case (recover t g)
  then show ?case by (auto simp: subs_ok_def recoverable_def)
qed (auto simp: subs_ok_def small_defs)

section \<open>The invariant\<close>

lemma store_act: "act cfg g g' \<Longrightarrow> store_ok g \<Longrightarrow> store_ok g'"
  by (induction rule: act.induct) (auto simp: store_ok_def store_moves_def small_defs disconnect_def pushEvent_def finishTask_def with_task_def evict_eq
      split: option.splits)

theorem gateway_act: "act cfg g g' \<Longrightarrow> gateway_ok cfg g \<Longrightarrow> gateway_ok cfg g'"
  unfolding gateway_ok_def by (blast intro: ids_act slots_act tasks_act saved_act retained_act subs_act store_act)

theorem gateway_acts: "acts cfg g g' \<Longrightarrow> gateway_ok cfg g \<Longrightarrow> gateway_ok cfg g'"
  by (induction rule: rtranclp_induct) (auto intro: gateway_act)

end
