(* ===== verification/GatewaySim.thy ===== *)
theory GatewaySim
  imports GatewayInvariant
begin

text \<open>
  Every step of the gateway's event loop is a sequence of actions of \<open>GatewaySpec\<close>: the publishing and finishing
  code first, then reconciliation and replay, the routes, creation and recovery.
\<close>

named_theorems sim "code that is a sequence of actions"

section \<open>Composition\<close>

lemma acts_then: "acts cfg g g1 \<Longrightarrow> acts cfg g1 g2 \<Longrightarrow> acts cfg g g2"
  by (rule rtranclp_trans)

lemma acts_refl [sim]: "acts cfg g g"
  by simp

lemma acts_task: "(\<And>t. stream_of (f t) = stream_of t) \<Longrightarrow> acts cfg g (on_task i f g)"
  by (rule r_into_rtranclp, rule act.task)

lemma acts_on [sim]: "acts cfg g g1 \<Longrightarrow> (\<And>t. stream_of (f t) = stream_of t) \<Longrightarrow> acts cfg g (on_task i f g1)"
  by (rule acts_then, assumption, rule acts_task)

lemma acts_store: "store_moves (gw_store g) s \<Longrightarrow> acts cfg g (g\<lparr>gw_store := s\<rparr>)"
  by (rule r_into_rtranclp, rule act.store)

lemma acts_try [sim]:
  assumes "acts cfg g g1" and "\<And>s s'. f s = Inr s' \<Longrightarrow> store_moves s s'"
  shows "acts cfg g (try_store f g1)"
  by (rule acts_then [OF assms(1)]) (auto simp: try_store_def acts_refl split: sum.splits intro: acts_store assms(2))

lemma acts_answer [sim]: "acts cfg g g1 \<Longrightarrow> acts cfg g (answer_with n r g1)"
  by (rule acts_then, assumption, rule r_into_rtranclp, rule act.reply)

lemma acts_deny [sim]: "acts cfg g g1 \<Longrightarrow> acts cfg g (deny n code g1)"
  by (simp add: deny_def acts_answer)

lemma acts_wait [sim]: "acts cfg g g1 \<Longrightarrow> \<not> creation w \<Longrightarrow> wait_ok cfg (gw_store g1) w \<Longrightarrow> acts cfg g (add_wait w g1)"
  by (rule acts_then, assumption, rule r_into_rtranclp, rule act.wait)

lemma acts_resumed: "\<not> creation w \<Longrightarrow> acts cfg g (resumed w g)"
  by (rule r_into_rtranclp, rule act.resume)

lemma acts_with:
  assumes "\<And>t. task_object g i = Some t \<Longrightarrow> acts cfg g (f t g)"
  shows "acts cfg g (with_task i f g)"
  using assms by (auto simp: with_task_def split: option.splits)

lemma object_on [simp]:
  assumes "\<And>t. g_id (f t) = g_id t"
  shows "task_object (on_task i f g) k = map_option (\<lambda>t. if g_id t = i then f t else t) (task_object g k)"
proof -
  have "find (\<lambda>t. g_id t = k) (map (\<lambda>t. if g_id t = i then f t else t) ts) = map_option (\<lambda>t. if g_id t = i then f t else t) (find (\<lambda>t. g_id t = k) ts)" for ts
    using assms by (induction ts) auto
  then show ?thesis by (simp add: task_object_def on_task_def)
qed

lemma object_id: "task_object g i = Some t \<Longrightarrow> g_id t = i"
  by (auto simp: task_object_def find_Some_iff)

lemma object_same [simp]:
  "task_object (g\<lparr>gw_store := s\<rparr>) i = task_object g i" "task_object (add_wait w g) i = task_object g i" "task_object (answer_with n r g) i = task_object g i"
  "task_object (resumed w g) i = task_object g i" "task_object (try_store f g) i = task_object g i"
  by (simp_all add: task_object_def add_wait_def answer_with_def resumed_def try_store_def split: sum.splits)

section \<open>Publishing and finishing\<close>

lemma acts_persistThenPush:
  assumes "task_object g i = Some t" and "\<not> g_terminal t" and "\<not> terminal_type (ev_type e)"
  shows "acts cfg g (persistThenPush cfg now i e g)"
proof (cases "gc_persist cfg")
  case True
  show ?thesis
  proof (cases "appendTaskEventDurable now i (toEventInput e) (gw_store g)")
    case (Inr s)
    then have "store_moves (gw_store g) s" using assms(3) by (auto simp: toEventInput_def intro: moves_append)
    moreover have "event_stored s i e" using Inr by (auto simp: appendTaskEventDurable_def intro: append_stored)
    ultimately have "acts cfg g (g\<lparr>gw_store := s\<rparr>)" "act cfg (g\<lparr>gw_store := s\<rparr>) (pushEvent cfg i e (g\<lparr>gw_store := s\<rparr>))"
      using assms by (auto simp: event_saved_def intro!: acts_store act.publish)
    then show ?thesis using Inr True by (simp add: persistThenPush_def)
  qed (simp add: persistThenPush_def True)
next
  case False
  then show ?thesis using act.publish [OF assms, of cfg] by (auto simp: persistThenPush_def event_saved_def)
qed

lemma acts_terminalize:
  assumes "task_object g i = Some t" and "\<not> g_terminal t"
  shows "acts cfg g (terminalize sha now lr err t e g)" and "\<exists>u. task_object (terminalize sha now lr err t e g) i = Some u \<and> \<not> g_terminal u"
proof -
  let ?r = "gateway_terminal_result sha lr t e"
  have i: "g_id t = i" using object_id [OF assms(1)] .
  have m: "store_moves s s'" if "terminalizeTaskWithResultDurable now i rv p (toEventInput e) st r s = Inr s'" for s s' rv p st r
    using moves_terminalizeWithResult [OF that] by (simp add: toEventInput_def)
  show "acts cfg g (terminalize sha now lr err t e g)"
    by (auto simp: terminalize_def Let_def i stream_of_def acts_refl split: sum.splits intro!: acts_on acts_store m)
  show "\<exists>u. task_object (terminalize sha now lr err t e g) i = Some u \<and> \<not> g_terminal u"
    using assms by (auto simp: terminalize_def Let_def i split: sum.splits)
qed

lemma acts_finishWithTerminal:
  assumes "terminal_type (ev_type e)"
  shows "acts cfg g (finishWithTerminal cfg sha now lr err i e g)"
  unfolding finishWithTerminal_def
proof (rule acts_with)
  fix t assume t: "task_object g i = Some t"
  let ?g = "if gc_persist cfg then terminalize sha now lr err t e g else g"
  have "acts cfg g (finishTask cfg i (pushEvent cfg i e ?g))" if nt: "\<not> g_terminal t"
  proof -
    have "\<exists>u. task_object ?g i = Some u \<and> \<not> g_terminal u" using acts_terminalize(2) [OF t nt] t nt by simp
    then obtain u where "task_object ?g i = Some u" "\<not> g_terminal u" by blast
    then have "act cfg ?g (finishTask cfg i (pushEvent cfg i e ?g))" using assms by (rule act.finish)
    moreover have "acts cfg g ?g" using acts_terminalize(1) [OF t nt] by simp
    ultimately show ?thesis by (meson rtranclp.rtrancl_into_rtrancl)
  qed
  then show "acts cfg g (if g_terminal t then g else finishTask cfg i (pushEvent cfg i e ?g))" by simp
qed

lemma acts_after [sim]: "acts cfg g g1 \<Longrightarrow> terminal_type (ev_type e) \<Longrightarrow> acts cfg g (finishWithTerminal cfg sha now lr err i e g1)"
  by (rule acts_then, assumption, rule acts_finishWithTerminal)

lemma acts_finish_missing [sim]: "acts cfg g g1 \<Longrightarrow> terminal_type (ev_type e) \<Longrightarrow> acts cfg g (finish_missing cfg sha now i e g1)"
  by (auto simp: finish_missing_def stream_of_def intro!: sim)

lemma acts_result_loop: "terminal_type (ev_type e) \<Longrightarrow> acts cfg g (result_loop cfg sha now i e n g)"
  unfolding result_loop_def by (rule acts_with) (auto intro!: sim)

lemma acts_finishRemote: "terminal_type (ev_type e) \<Longrightarrow> acts cfg g (finishRemoteWithResult cfg sha now i e g)"
  unfolding finishRemoteWithResult_def by (rule acts_with) (auto intro!: sim acts_result_loop)

lemma acts_finishRemote_after [sim]: "acts cfg g g1 \<Longrightarrow> terminal_type (ev_type e) \<Longrightarrow> acts cfg g (finishRemoteWithResult cfg sha now i e g1)"
  by (rule acts_then, assumption, rule acts_finishRemote)

lemma acts_result_answered: "terminal_type (ev_type e) \<Longrightarrow> acts cfg g (result_answered cfg sha now i e n answer g)"
  by (auto simp: result_answered_def stream_of_def split: option.splits intro!: sim acts_result_loop)

lemma acts_synth:
  assumes "\<And>e g1. acts cfg g g1 \<Longrightarrow> ev_type e = ty \<Longrightarrow> acts cfg g (k e g1)"
  shows "acts cfg g (synthEvent ts i ty payload k g)"
  unfolding synthEvent_def by (rule acts_with, rule assms) (auto simp: next_event_def stream_of_def intro!: sim)

lemma acts_persist_pending: "acts cfg g (persist_pending now i g)"
  unfolding persist_pending_def
  by (rule acts_with) (auto split: option.splits intro!: sim intro: moves_persist)

lemma acts_persist_pending_after [sim]: "acts cfg g g1 \<Longrightarrow> acts cfg g (persist_pending now i g1)"
  by (rule acts_then, assumption, rule acts_persist_pending)

lemma acts_fetch: "acts cfg g (fetchAndPersistRemoteResult cfg now i g)"
  unfolding fetchAndPersistRemoteResult_def by (rule acts_with) (auto simp: stream_of_def intro!: sim)

lemma acts_convergence: "acts cfg g (convergence_answered now i answer g)"
  by (auto simp: convergence_answered_def stream_of_def split: option.splits intro!: sim)

section \<open>Sources\<close>

lemma acts_ingest: "acts cfg g (fst (ingest cfg sha now lr i e g))"
proof (cases "task_object g i")
  case (Some t)
  let ?f = "\<lambda>t. t\<lparr>g_nextSeq := g_nextSeq t + 1\<rparr>"
  have o: "task_object (on_task i ?f g) i = Some (?f t)" using Some object_id [OF Some] by simp
  have a: "acts cfg g (on_task i ?f g)" by (rule acts_task) (simp add: stream_of_def)
  show ?thesis
  proof (cases "g_terminal t")
    case False
    then have p: "acts cfg g (persistThenPush cfg now i te (on_task i ?f g))" if "\<not> terminal_type (ev_type te)" for te
      using acts_then [OF a acts_persistThenPush [OF o _ that]] by simp
    show ?thesis using Some False by (auto simp: ingest_def Let_def split: option.splits intro!: sim a p)
  qed (simp add: ingest_def Some)
qed (simp add: ingest_def)

lemma acts_drain_events: "acts cfg g (drain_events cfg sha now lr i n es g)"
proof (induction es arbitrary: n g)
  case Nil
  then show ?case by (auto simp: stream_of_def intro!: sim)
next
  case (Cons e es)
  obtain g1 b where g1: "ingest cfg sha now lr i e g = (g1, b)" by fastforce
  then have "acts cfg g g1" using acts_ingest [of cfg g sha now lr i e] by simp
  then show ?case using Cons [of g1] acts_then by (auto simp: g1 stream_of_def intro!: sim)
qed

lemma acts_drain: "acts cfg g (drain_run cfg sha now lr es i g)"
  unfolding drain_run_def by (rule acts_with) (auto simp: stream_of_def split: option.splits intro!: sim acts_drain_events)

lemma acts_startPoll: "acts cfg g (startPoll cfg sha now lr es i g)"
  unfolding startPoll_def
  by (rule acts_then [OF acts_drain], rule acts_with) (auto simp: stream_of_def intro!: sim)

lemma acts_pumps: "acts cfg g (startRemotePump i g)" "acts cfg g (startReplayPump cfg i g)" "acts cfg g (resumePump cfg i g)"
proof -
  show p: "acts cfg g (startRemotePump i g)" "acts cfg g (startReplayPump cfg i g)" for g
    unfolding startRemotePump_def startReplayPump_def by (rule acts_with; auto simp: stream_of_def intro!: sim)+
  show "acts cfg g (resumePump cfg i g)" unfolding resumePump_def by (rule acts_with) (auto intro: p)
qed

lemma acts_pumps_after [sim]: "acts cfg g g1 \<Longrightarrow> acts cfg g (startRemotePump i g1)" "acts cfg g g1 \<Longrightarrow> acts cfg g (startReplayPump cfg i g1)"
  "acts cfg g g1 \<Longrightarrow> acts cfg g (resumePump cfg i g1)"
  by (blast intro: acts_then acts_pumps)+

lemma acts_clear: "acts cfg g (maybeClearCatchUp cfg i g)"
  unfolding maybeClearCatchUp_def
  by (rule acts_with) (auto simp: stream_of_def acts_refl split: option.splits sum.splits intro!: acts_on acts_store intro: moves_history)

lemma acts_clear_after [sim]: "acts cfg g g1 \<Longrightarrow> acts cfg g (maybeClearCatchUp cfg i g1)"
  by (rule acts_then, assumption, rule acts_clear)

lemma acts_meta: "acts cfg g (handleReplayMeta cfg i meta g)"
  unfolding handleReplayMeta_def
  by (rule acts_with) (auto simp: stream_of_def Let_def split: option.splits intro!: sim intro: moves_history)

lemma ingest_stored:
  assumes "ingestSourceEventDurable now i q (source_input te) s = Inr (s', True, seq)"
  shows "event_stored s' i (te\<lparr>ev_seq := seq, ev_task_id := k\<rparr>)"
proof -
  obtain t e payload where e: "sel te_source_sequence (Some q) (task_events_of s' i) = Some e"
    "encodeJson (null_if_undef (ev_payload te)) limit_task_event_payload = Inr payload"
    "same_task_event e (task_event_text (ev_type te)) (ev_ts te) payload" "te_sequence e = seq"
    using ingested_event_recorded [OF assms] by (auto simp: source_input_def)
  have "e \<in> set (ws_task_events s')" "te_task_id e = i" using sel_key [OF e(1)] by (auto simp: task_events_of_def)
  with e show ?thesis by (auto simp: event_stored_def row_shows_def same_task_event_def)
qed

lemma acts_source_stored:
  assumes ing: "ingestSourceEventDurable now i q (source_input te) (gw_store g) = Inr (s, applied, seq)"
    and t: "task_object g i = Some t" "\<not> g_terminal t"
  shows "acts cfg g (source_stored cfg now i te s applied seq g)"
proof -
  let ?g1 = "on_task i (\<lambda>t. t\<lparr>g_revision := (case taskRow s i of None \<Rightarrow> g_revision t | Some row \<Rightarrow> tk_revision row)\<rparr>) (g\<lparr>gw_store := s\<rparr>)"
  let ?g2 = "on_task i (\<lambda>t. t\<lparr>g_nextSeq := max (g_nextSeq t) (seq + 1)\<rparr>) ?g1"
  let ?te = "te\<lparr>ev_seq := seq, ev_task_id := i\<rparr>"
  have a: "acts cfg g ?g1" by (rule acts_on [OF acts_store]) (auto simp: stream_of_def intro: moves_ingest [OF ing])
  then have b: "acts cfg g ?g2" by (auto simp: stream_of_def intro!: sim)
  obtain u where u: "task_object ?g2 i = Some u" "\<not> g_terminal u" using t object_id [OF t(1)] by auto
  have "acts cfg g (if terminal_type (ev_type te) then fetchAndPersistRemoteResult cfg now i (finishTask cfg i (pushEvent cfg i ?te ?g2)) else pushEvent cfg i ?te ?g2)" if applied
  proof (cases "terminal_type (ev_type te)")
    case True
    then have "acts cfg g (finishTask cfg i (pushEvent cfg i ?te ?g2))"
      by (intro rtranclp.rtrancl_into_rtrancl [OF b] act.finish [OF u]) simp
    then show ?thesis using True by (auto intro: acts_then acts_fetch)
  next
    case False
    have "event_stored s i ?te" using ing that ingest_stored by simp
    then have "acts cfg g (pushEvent cfg i ?te ?g2)" using False
      by (intro rtranclp.rtrancl_into_rtrancl [OF b] act.publish [OF u]) (simp_all add: event_saved_def)
    then show ?thesis using False by simp
  qed
  then show ?thesis using a by (cases applied) (auto simp: source_stored_def Let_def intro!: sim split: if_splits)
qed

lemma acts_ingestSource: "acts cfg g (ingestSource cfg now i event q g)"
  unfolding ingestSource_def
  by (rule acts_with) (auto split: option.splits sum.splits intro!: sim acts_source_stored intro: moves_cursor)

section \<open>Reconciliation\<close>

lemma terminal_event_type_terminal [simp]: "terminal_type (terminal_event_type st)"
  by (cases st) (simp_all add: terminal_type_def TERMINAL_EVENT_TYPES_def)

lemma acts_synth_remote: "terminal_type ty \<Longrightarrow> acts cfg g (synthEvent ts i ty p (\<lambda>e. finishRemoteWithResult cfg sha now i e) g)"
  by (rule acts_synth) (auto intro: sim)

lemma acts_synth_finish: "terminal_type ty \<Longrightarrow> acts cfg g (synthEvent ts i ty p (finishWithTerminal cfg sha now lr err i) g)"
  by (rule acts_synth) (auto intro: sim)

lemma acts_reconcile: "acts cfg g (reconcileRemoteRecord cfg sha now ts i rec g)"
  unfolding reconcileRemoteRecord_def
  by (rule acts_then [OF acts_task acts_with]) (auto simp: stream_of_def Let_def intro!: acts_synth_remote)

lemma acts_reconcile_after [sim]: "acts cfg g g1 \<Longrightarrow> acts cfg g (reconcileRemoteRecord cfg sha now ts i rec g1)"
  by (rule acts_then, assumption, rule acts_reconcile)

lemma acts_reconcile_loop: "acts cfg g (reconcile_loop i n g)"
  unfolding reconcile_loop_def by (rule acts_with) (auto simp: stream_of_def intro!: sim)

lemma acts_via_status: "acts cfg g (reconcileViaStatus i g)"
  unfolding reconcileViaStatus_def
  by (rule acts_with) (auto simp: stream_of_def intro!: acts_then [OF acts_task acts_reconcile_loop])

lemma acts_reconcile_answered: "acts cfg g (reconcile_answered cfg sha now ts i n answer g)"
proof -
  have "acts cfg g (with_task i (\<lambda>t g. if g_terminal t then g
      else if g_resumeCount t < REMOTE_MAX_RESUMES then resumePump cfg i (on_task i (\<lambda>t. t\<lparr>g_resumeCount := g_resumeCount t + 1\<rparr>) g) else g)
     (reconcileRemoteRecord cfg sha now ts i rec g))" for rec
    by (rule acts_then [OF acts_reconcile], rule acts_with) (auto simp: stream_of_def intro!: sim)
  then show ?thesis by (auto simp: reconcile_answered_def stream_of_def split: option.splits intro!: sim)
qed

section \<open>Routes\<close>

lemma acts_show_record [sim]: "acts cfg g g1 \<Longrightarrow> acts cfg g (show_record cfg n i rec g1)"
  by (auto simp: show_record_def split: sum.splits intro!: sim)

lemma acts_show_stored: "acts cfg g (show_stored cfg n i g)"
  by (auto simp: show_stored_def split: sum.splits option.splits intro!: sim)

lemma acts_get: "acts cfg g (handleGet cfg n i lr g)"
  by (auto simp: handleGet_def split: option.splits intro!: sim acts_show_stored)

lemma acts_get_answered: "acts cfg g (get_answered cfg sha now ts n i answer g)"
  by (auto simp: get_answered_def split: sum.splits intro!: sim)

lemma acts_cancel_flag [sim]: "acts cfg g g1 \<Longrightarrow> acts cfg g (cancel_flag b i g1)"
  by (auto simp: cancel_flag_def stream_of_def intro!: sim)

lemma acts_cancel_decide: "acts cfg g (cancel_decide cfg sha now lr es st again n i rec g)"
  unfolding cancel_decide_def by (rule acts_with) (auto split: option.splits intro!: sim acts_drain)

lemma acts_cancel: "acts cfg g (handleCancel cfg sha now lr es rec st again n i g)"
  by (auto simp: handleCancel_def split: option.splits intro!: sim acts_show_stored acts_cancel_decide)

lemma acts_cancel_answers:
  "acts cfg g (cancel_status_answered cfg sha now n i answer g)" "acts cfg g (stop_answered cfg sha now ts n i answer g)"
  "acts cfg g (cancel_again_answered n i m again g)"
  by (auto simp: cancel_status_answered_def stop_answered_def cancel_again_answered_def split: sum.splits option.splits intro!: sim acts_cancel_decide)

lemma object_named: "ids_ok g \<Longrightarrow> task_named g i = Some t \<Longrightarrow> task_object g i = Some t"
proof -
  assume "ids_ok g" and n: "task_named g i = Some t"
  then have "distinct (map g_id (gw_tasks g))" by (simp add: ids_ok_def)
  moreover have "t \<in> set (gw_tasks g)" "g_id t = i" using n by (auto simp: task_named_def find_Some_iff)
  ultimately show ?thesis using sel_mem [of g_id "gw_tasks g" t] by (simp add: task_object_def sel_def)
qed

lemma acts_replay: "fresh_response n g \<Longrightarrow> acts cfg g (write_frames n es g)"
  by (rule r_into_rtranclp, rule act.replay)

lemma acts_events:
  assumes "ids_ok g" and "fresh_response n g"
  shows "acts cfg g (handleEvents cfg n h i g)"
proof (cases "task_named g i")
  case None
  then show ?thesis
    by (auto simp: handleEvents_def stream_stored_def split: sum.splits option.splits intro!: sim acts_replay assms(2))
next
  case (Some t)
  let ?es = "fst (computeSseReplay (g_events t) h)"
  have "acts cfg g (on_task i (\<lambda>t. t\<lparr>g_subs := g_subs t @ [n]\<rparr>) (write_frames n ?es g))" if "\<not> g_terminal t"
    by (rule r_into_rtranclp, rule act.subscribe [OF assms(2) object_named [OF assms(1) Some] that])
  then show ?thesis using Some assms(2) by (auto simp: handleEvents_def Let_def intro!: acts_replay acts_pumps_after)
qed

section \<open>Creation\<close>

lemma acts_create: "acts cfg g (handleCreate cfg sha written n body g)"
proof -
  have "acts cfg g (add_wait w (reserve g))"
    if "creation w" "wait_id w = []" "wait_ok cfg (gw_store g) w" "gw_active g + gw_pending g < gc_maxActive cfg" for w
    using that by (intro r_into_rtranclp act.reserve)
  moreover have "acts cfg g (reserve g)" if "gw_active g + gw_pending g < gc_maxActive cfg"
    using that by (intro r_into_rtranclp act.keep)
  ultimately show ?thesis by (auto simp: handleCreate_def split: sum.splits option.splits intro!: sim)
qed

lemma resumed_store: "(resumed w g)\<lparr>gw_store := s\<rparr> = resumed w (g\<lparr>gw_store := s\<rparr>)"
  "try_store f (resumed w g) = resumed w (try_store f g)"
  by (simp_all add: resumed_def try_store_def split: sum.splits)

lemma waits_same [simp]: "gw_waits (try_store f g) = gw_waits g" "gw_tasks (try_store f g) = gw_tasks g"
  by (simp_all add: try_store_def split: sum.splits)

lemma fresh_same [simp]: "fresh_task i (g\<lparr>gw_store := s\<rparr>) = fresh_task i g" "fresh_task i (try_store f g) = fresh_task i g"
  by (simp_all add: fresh_task_def)

lemma acts_release:
  assumes "w \<in> set (gw_waits g)" and "creation w"
  shows "acts cfg g (release (resumed w g))"
  using assms by (intro r_into_rtranclp act.release)

lemma create_stored:
  assumes "persistCreate sha now r t st e s = Inr (s', j, True)"
  shows "event_stored s' (g_id t) e"
proof (cases "nonempty (cr_idempotency_key r)")
  case None
  then show ?thesis using assms by (auto simp: persistCreate_def createTaskDurable_def task_input_def intro: append_stored)
next
  case (Some k)
  then show ?thesis using assms
    by (auto simp: persistCreate_def createTaskIdempotently_def resolve_existing_def task_input_def split: option.splits if_splits intro: append_stored)
qed

lemma created_not_terminal [simp]: "\<not> terminal_type (ev_type (created_event ts t))"
  by (simp add: created_event_def next_event_def terminal_type_def TERMINAL_EVENT_TYPES_def)

lemma acts_create_failed: "w \<in> set (gw_waits g) \<Longrightarrow> creation w \<Longrightarrow> acts cfg g (create_failed n e (resumed w g))"
  by (auto simp: create_failed_def intro!: sim acts_release)

lemma acts_existing:
  assumes "w \<in> set (gw_waits g)" and "creation w" and "persistCreate sha now r t st e (gw_store g) = Inr (s, j, b)" and "\<not> terminal_type (ev_type e)"
  shows "acts cfg g (release ((resumed w g)\<lparr>gw_store := s\<rparr>))"
proof -
  have "acts cfg g (g\<lparr>gw_store := s\<rparr>)" by (rule acts_store [OF moves_create [OF assms(3,4)]])
  moreover have "acts cfg (g\<lparr>gw_store := s\<rparr>) (release (resumed w (g\<lparr>gw_store := s\<rparr>)))" using assms(1,2) by (intro acts_release) simp_all
  ultimately show ?thesis unfolding resumed_store by (rule acts_then)
qed

lemma acts_nodes:
  assumes "AwaitNodes n r \<in> set (gw_waits g)" and "fresh_task i g"
  shows "acts cfg g (nodes_answered cfg sha now ts written i n r answer (resumed (AwaitNodes n r) g))"
proof -
  let ?w = "AwaitNodes n r"
  note waiting = assms(1)
  have rel: "acts cfg g (release (resumed ?w g))" by (rule acts_release [OF waiting]) simp
  have lost: "acts cfg g (resumed ?w g)" by (rule r_into_rtranclp, rule act.forget [OF waiting]) simp
  have plain: "acts cfg g (add_wait (AwaitPlainStart n r) (resumed ?w g))" if "\<not> gc_persist cfg"
    using that by (intro r_into_rtranclp act.move [OF waiting]) simp_all
  have start: "acts cfg g (add_wait (AwaitRemoteStart n (t\<lparr>g_nextSeq := 1, g_revision := rv\<rparr>) e) ((resumed ?w g)\<lparr>gw_store := s\<rparr>))"
    if t: "t = remote_task i r x" "e = created_event ts t" and p: "persistCreate sha now r t TsQueued e (gw_store g) = Inr (s, j, True)" for t e x s j rv
  proof -
    have "acts cfg g (g\<lparr>gw_store := s\<rparr>)" using moves_create [OF p] by (intro acts_store) (simp add: t)
    moreover have "act cfg (g\<lparr>gw_store := s\<rparr>) (add_wait (AwaitRemoteStart n (t\<lparr>g_nextSeq := 1, g_revision := rv\<rparr>) e) (resumed ?w (g\<lparr>gw_store := s\<rparr>)))"
      using waiting create_stored [OF p] assms(2)
      by (intro act.move) (auto simp: t pristine_def remote_task_def new_gateway_task_def created_event_def next_event_def terminal_type_def TERMINAL_EVENT_TYPES_def)
    ultimately show ?thesis unfolding resumed_store by (meson rtranclp.rtrancl_into_rtrancl)
  qed
  show ?thesis
    by (auto simp: nodes_answered_def Let_def split: sum.splits option.splits
        intro!: sim rel lost plain start acts_create_failed waiting acts_existing [OF waiting])
qed

lemma push_register:
  assumes "pristine t" and "g_id t \<notin> g_id ` set (gw_tasks g)"
  shows "pushEvent cfg (g_id t) e (register t g) = register (publish_in cfg e t) g"
proof -
  have "gw_tasks (register t g) = gw_tasks g @ t # []" by (simp add: register_def)
  moreover have "\<forall>u\<in>set (gw_tasks g) \<union> set []. g_id u \<noteq> g_id t" using assms(2) by (auto simp: image_iff)
  ultimately have "pushEvent cfg (g_id t) e (register t g) = (register t g)\<lparr>gw_tasks := gw_tasks g @ publish_in cfg e t # [],
      gw_frames := gw_frames (register t g) @ map (\<lambda>n. (n, e)) (g_subs t)\<rparr>" by (intro push_eq) simp_all
  then show ?thesis using assms(1) by (simp add: register_def pristine_def)
qed

text \<open>A task that is registered and whose creation event is published, after a transaction.\<close>

lemma acts_register:
  assumes "w \<in> set (gw_waits g)" and "creation w" and "acts cfg g g1" and "gw_waits g1 = gw_waits g" and "gw_tasks g1 = gw_tasks g"
    and "pristine t" and "fresh_task (g_id t) (resumed w g)" and "\<not> terminal_type (ev_type e)" and "event_saved cfg (gw_store g1) (g_id t) e"
  shows "acts cfg g (pushEvent cfg (g_id t) e (register t (resumed w g1)))"
proof -
  have f: "fresh_task (g_id t) (resumed w g1)" using assms(4,5,7) by (simp add: fresh_task_def)
  then have "pushEvent cfg (g_id t) e (register t (resumed w g1)) = register (publish_in cfg e t) (resumed w g1)"
    using assms(6) by (intro push_register) (auto simp: fresh_task_def)
  moreover have "act cfg g1 (register (publish_in cfg e t) (resumed w g1))"
    using assms f by (intro act.register) simp_all
  ultimately show ?thesis using assms(3) by (simp add: rtranclp.rtrancl_into_rtrancl)
qed

lemma waiting_fresh:
  assumes "ids_ok g" and "AwaitRemoteStart n t e \<in> set (gw_waits g)"
  shows "fresh_task (g_id t) (resumed (AwaitRemoteStart n t e) g)"
proof -
  obtain us vs where "gw_waits g = us @ AwaitRemoteStart n t e # vs" "remove1 (AwaitRemoteStart n t e) (gw_waits g) = us @ vs"
    using assms(2) by (rule remove1_split)
  with assms(1) show ?thesis by (auto simp: ids_ok_def fresh_task_def)
qed

lemma bind_moves: "bind_run now rec t s = (s', rv) \<Longrightarrow> store_moves s s'"
  using moves_update [of s now "g_id t" "g_revision t" "bind_patch rec" s']
  by (cases "opened s (updateTaskSync now (g_id t) (g_revision t) (bind_patch rec) s)") (simp_all add: bind_run_def)

lemma acts_remote:
  assumes "ids_ok g" and "saved_ok cfg g" and "AwaitRemoteStart n t e \<in> set (gw_waits g)"
  shows "acts cfg g (remote_started cfg now ts n t e answer (resumed (AwaitRemoteStart n t e) g))"
proof (cases answer)
  case (Inl m)
  have "acts cfg g (release (resumed (AwaitRemoteStart n t e) g))" by (rule acts_release [OF assms(3)]) simp
  then show ?thesis using Inl
    by (auto simp: remote_started_def intro!: sim intro: moves_terminalize [where ty = TeFailed] simp: toEventInput_def next_event_def)
next
  case (Inr rec)
  let ?w = "AwaitRemoteStart n t e"
  obtain s rv where b: "bind_run now rec t (gw_store g) = (s, rv)" by fastforce
  let ?t = "t\<lparr>g_revision := rv, g_remoteRunId := Some (ru_run_id rec)\<rparr>"
  let ?g1 = "if g_replayCapable t then try_store (initReplayCursor (g_id t)) (g\<lparr>gw_store := s\<rparr>) else g\<lparr>gw_store := s\<rparr>"
  have g1: "acts cfg g ?g1" using bind_moves [OF b] by (auto intro!: sim acts_store intro: moves_history)
  have w: "pristine t" "\<not> terminal_type (ev_type e)" "event_stored (gw_store g) (g_id t) e"
    using assms(2,3) by (fastforce simp: saved_ok_def)+
  have "store_moves (gw_store g) s" by (rule bind_moves [OF b])
  moreover have "store_moves s (gw_store ?g1)" by (auto simp: try_store_def split: sum.splits intro: moves_history)
  ultimately have "event_stored (gw_store ?g1) (g_id t) e" using w(3) event_stored_mono by blast
  then have "acts cfg g (pushEvent cfg (g_id ?t) e (register ?t (resumed ?w ?g1)))"
    using w(1,2) waiting_fresh [OF assms(1,3)]
    by (intro acts_register [OF assms(3) _ g1]) (auto simp: event_saved_def pristine_def)
  moreover have "(if g_replayCapable t then try_store (initReplayCursor (g_id t)) ((resumed ?w g)\<lparr>gw_store := s\<rparr>) else (resumed ?w g)\<lparr>gw_store := s\<rparr>) = resumed ?w ?g1"
    by (simp add: resumed_store)
  ultimately show ?thesis using Inr b by (auto simp: remote_started_def Let_def intro!: sim split: if_splits)
qed

lemma acts_plain:
  assumes "saved_ok cfg g" and "AwaitPlainStart n r \<in> set (gw_waits g)" and "\<And>rec. answer = Inr rec \<Longrightarrow> fresh_task (ru_run_id rec) g"
  shows "acts cfg g (plain_started cfg ts n r answer (resumed (AwaitPlainStart n r) g))"
proof (cases answer)
  case (Inl m)
  then show ?thesis using acts_release [OF assms(2)] by (auto simp: plain_started_def intro!: sim)
next
  case (Inr rec)
  let ?t = "new_gateway_task (ru_run_id rec) (ru_agent rec) RemoteRun (cr_node_id r) (Some (ru_run_id rec))"
  have "\<not> gc_persist cfg" using assms(1,2) by (fastforce simp: saved_ok_def)
  then have "acts cfg g (pushEvent cfg (g_id (?t\<lparr>g_nextSeq := 1\<rparr>)) (created_event ts ?t) (register (?t\<lparr>g_nextSeq := 1\<rparr>) (resumed (AwaitPlainStart n r) g)))"
    using assms(3) [OF Inr]
    by (intro acts_register [OF assms(2)])
      (auto simp: acts_refl event_saved_def pristine_def new_gateway_task_def fresh_task_def wait_ids_remove1)
  then show ?thesis using Inr by (auto simp: plain_started_def Let_def new_gateway_task_def intro!: sim)
qed

lemma acts_local:
  assumes "AwaitLocalStart n r \<in> set (gw_waits g)" and "\<And>rec. answer = Some rec \<Longrightarrow> fresh_task (ru_run_id rec) g"
  shows "acts cfg g (local_started cfg sha now ts lr es n r answer (resumed (AwaitLocalStart n r) g))"
proof (cases answer)
  case None
  then show ?thesis using acts_release [OF assms(1)] by (auto simp: local_started_def intro!: sim)
next
  case (Some rec)
  let ?w = "AwaitLocalStart n r" let ?t = "new_gateway_task (ru_run_id rec) (ru_agent rec) LocalRun None None"
  have go: "acts cfg g (startPoll cfg sha now lr es (g_id t)
      (pushEvent cfg (g_id t) (created_event ts (t\<lparr>g_nextSeq := 0\<rparr>)) (register t (resumed ?w g1))))"
    if t: "t = ?t\<lparr>g_nextSeq := 1, g_revision := rv\<rparr>" and g1: "acts cfg g g1" "gw_waits g1 = gw_waits g" "gw_tasks g1 = gw_tasks g"
      and s: "event_saved cfg (gw_store g1) (g_id ?t) (created_event ts ?t)" for t rv g1
  proof -
    have e: "created_event ts (t\<lparr>g_nextSeq := 0\<rparr>) = created_event ts ?t" by (simp add: t created_event_def next_event_def new_gateway_task_def)
    have "acts cfg g (pushEvent cfg (g_id t) (created_event ts ?t) (register t (resumed ?w g1)))"
      using assms(2) [OF Some] s
      by (intro acts_register [OF assms(1) _ g1]) (auto simp: t pristine_def new_gateway_task_def fresh_task_def wait_ids_remove1)
    then show ?thesis unfolding e by (rule acts_then [OF _ acts_startPoll])
  qed
  have created: "event_saved cfg s (g_id ?t) (created_event ts ?t)" "acts cfg g (g\<lparr>gw_store := s\<rparr>)"
    if "persistCreate sha now r ?t st (created_event ts ?t) (gw_store g) = Inr (s, j, True)" for st s j
    using create_stored [OF that] moves_create [OF that] by (auto simp: event_saved_def intro!: acts_store)
  show ?thesis
  proof (cases "gc_persist cfg")
    case False
    have "?t\<lparr>g_nextSeq := 1\<rparr> = ?t\<lparr>g_nextSeq := 1, g_revision := 1\<rparr>" by (simp add: new_gateway_task_def)
    from go [OF this acts_refl] show ?thesis using Some False by (auto simp: local_started_def Let_def event_saved_def intro!: sim)
  next
    case True
    have "acts cfg g (startPoll cfg sha now lr es (g_id ?t) (pushEvent cfg (g_id ?t) (created_event ts (?t\<lparr>g_revision := rv, g_nextSeq := 0\<rparr>))
        (register (?t\<lparr>g_nextSeq := 1, g_revision := rv\<rparr>) (resumed ?w (g\<lparr>gw_store := s\<rparr>)))))"
      if "persistCreate sha now r ?t st (created_event ts ?t) (gw_store g) = Inr (s, j, True)" for st s j rv
      using go [OF refl created(2) [OF that] _ _, of rv] created(1) [OF that] by simp
    with True show ?thesis using Some
      by (auto simp: local_started_def Let_def resumed_store split: sum.splits
          intro!: sim acts_create_failed [OF assms(1)] acts_existing [OF assms(1), unfolded resumed_store])
  qed
qed

end
