(* ===== verification/GatewayRuns.thy ===== *)
theory GatewayRuns
  imports GatewaySim
begin

text \<open>
  Recovery as a sequence of actions, the simulation of every step of the event loop, and the
  invariant of every state the gateway reaches through requests, failures, crashes and restarts.
\<close>

section \<open>Recovery after the start\<close>

lemma terminal_types [simp]: "terminal_type TeFailed" "terminal_type TeCompleted" "terminal_type TeCancelled"
  by (simp_all add: terminal_type_def TERMINAL_EVENT_TYPES_def)

lemma acts_recovery_failed: "acts cfg g (recovery_failed cfg sha now ts i n g)"
  unfolding recovery_failed_def by (rule acts_with) (auto intro!: sim acts_synth_finish)

lemma acts_seed: "acts cfg g (seedRecoveredLocalCursor es i g)"
  by (auto simp: seedRecoveredLocalCursor_def stream_of_def split: option.splits intro!: sim)

lemma acts_recovered: "acts cfg g (reconcileRecovered cfg sha now ts rec lr es i n g)"
  unfolding reconcileRecovered_def
  by (rule acts_with) (auto split: option.splits intro!: sim acts_recovery_failed acts_synth_finish intro: acts_then [OF acts_seed acts_startPoll])

lemma acts_live_only [sim]: "acts cfg g g1 \<Longrightarrow> acts cfg g (live_only cfg i g1)"
proof (rule acts_then, assumption)
  show "acts cfg g1 (live_only cfg i g1)"
    unfolding live_only_def by (rule acts_with) (auto simp: stream_of_def intro!: sim intro: moves_history)
qed

lemma acts_recovery_answered: "acts cfg g (recovery_answered cfg sha now ts i n answer g)"
proof -
  have "acts cfg g (with_task i (\<lambda>t g. if g_terminal t then g else startRemotePump i (live_only cfg i g)) (reconcileRemoteRecord cfg sha now ts i rec g))" for rec
    by (rule acts_then [OF acts_reconcile], rule acts_with) (auto intro!: sim)
  then show ?thesis by (auto simp: recovery_answered_def split: option.splits intro!: acts_recovery_failed)
qed

section \<open>Steps\<close>

lemma untouched_moves: "tasks_untouched s s' \<Longrightarrow> store_moves s s'"
  by (auto simp: tasks_untouched_def store_moves_def task_inv_def tables_settled_def task_events_of_def)

lemma acts_resumed_then: "\<not> creation w \<Longrightarrow> (\<And>g. acts cfg g (f g)) \<Longrightarrow> acts cfg g (f (resumed w g))"
  by (rule acts_then [OF acts_resumed])

lemma waiting_terminal:
  assumes "saved_ok cfg g"
  shows "AwaitResult i e k \<in> set (gw_waits g) \<Longrightarrow> terminal_type (ev_type e)" "SleepResult i e k \<in> set (gw_waits g) \<Longrightarrow> terminal_type (ev_type e)"
  using assms by (fastforce simp: saved_ok_def)+

theorem step_acts:
  assumes "gateway_step cfg sha g g'" and "gateway_ok cfg g"
  shows "acts cfg g g'"
  using assms
proof (induction rule: gateway_step.induct)
  case (nodes n r g i now ts written nodes)
  then show ?case by (intro acts_nodes)
next
  case (remote n t e g now ts started)
  then show ?case by (intro acts_remote) (simp_all add: gateway_ok_def)
next
  case (plain n r g started ts)
  then show ?case by (intro acts_plain) (simp_all add: gateway_ok_def)
next
  case (local_run n r g started' now ts lr es)
  then show ?case by (intro acts_local)
next
  case (events g n h i)
  then show ?case by (intro acts_events) (simp_all add: gateway_ok_def)
next
  case (result i e k g now result)
  then show ?case using waiting_terminal(1) by (intro acts_then [OF acts_resumed acts_result_answered]) (auto simp: gateway_ok_def)
next
  case (result_timer i e k g now)
  then show ?case using waiting_terminal(2) by (intro acts_then [OF acts_resumed acts_result_loop]) (auto simp: gateway_ok_def)
next
  case (gone g i t n)
  then show ?case by (intro r_into_rtranclp act.leave)
next
  case (pump_end g i)
  then show ?case by (intro acts_task) (simp add: stream_of_def)
next
  case (shutdown g)
  then show ?case by (intro r_into_rtranclp act.shutdown)
next
  case (others g s)
  then show ?case by (intro acts_store untouched_moves)
qed (auto intro!: acts_create acts_get acts_cancel acts_ingest acts_ingestSource acts_meta acts_via_status acts_drain
    acts_resumed_then acts_get_answered acts_cancel_answers acts_convergence acts_reconcile_answered acts_reconcile_loop acts_recovered acts_recovery_answered)

lemma step_ok: "gateway_step cfg sha g g' \<Longrightarrow> gateway_ok cfg g \<Longrightarrow> gateway_ok cfg g'"
  using gateway_acts step_acts by blast

section \<open>Start\<close>

lemma event_type_named_text [simp]: "event_type_named (task_event_text ty) = Some ty"
  by (cases ty) (simp_all add: event_type_named_def)

lemma decode_shows:
  assumes "decode_rows i rows = Some es" and "\<And>row. row \<in> set rows \<Longrightarrow> te_task_id row = i \<and> (\<exists>ty. te_type row = task_event_text ty)"
  shows "\<forall>e\<in>set es. \<exists>row\<in>set rows. row_shows row i e"
  using assms
proof (induction rows arbitrary: es)
  case (Cons row rows)
  obtain ty where ty: "te_task_id row = i" "te_type row = task_event_text ty" using Cons(3) [of row] by auto
  obtain v es' where v: "json_parse (te_payload_json row) = Some v" "decode_rows i rows = Some es'" "es = toTaskEvent i row ty v # es'"
    using Cons(2) ty(2) by (auto split: if_splits option.splits)
  have "row_shows row i (toTaskEvent i row ty v)" using v(1) ty by (simp add: row_shows_def toTaskEvent_def)
  moreover have "\<forall>e\<in>set es'. \<exists>row\<in>set rows. row_shows row i e" using Cons v(2) by simp
  ultimately show ?case using v(3) by auto
qed simp

lemma loaded_events:
  assumes "tables_settled s" and "loadTaskEvents i s = Some es"
  shows "\<forall>e\<in>set es. \<exists>row\<in>set (task_events_of s i). row_shows row i e"
proof -
  have "\<forall>row\<in>set (ws_task_events s). \<exists>ty. te_type row = task_event_text ty" using assms(1) unfolding tables_settled_def by blast
  then have "\<forall>e\<in>set es. \<exists>row\<in>set (sort_key te_sequence (task_events_of s i)). row_shows row i e"
    using assms(2) by (intro decode_shows) (auto simp: loadTaskEvents_def task_events_of_def split: if_splits)
  then show ?thesis by simp
qed

lemma terminal_text_inj: "task_event_text a = task_event_text b \<Longrightarrow> a = b"
  by (metis event_type_named_text option.inject)

lemma loaded_open:
  assumes "tables_settled s" and "taskRow s i = Some t" and "\<not> isTerminalTaskStatus (tk_status t)" and "loadTaskEvents i s = Some es"
  shows "open_log es"
proof -
  have "\<not> terminal_type (ev_type e)" if e: "e \<in> set es" for e
  proof -
    obtain row where row: "row \<in> set (ws_task_events s)" "te_task_id row = i" "te_type row = task_event_text (ev_type e)"
      using loaded_events [OF assms(1,4)] e by (auto simp: row_shows_def task_events_of_def)
    then obtain ty where "te_type row = task_event_text ty" "terminal_type ty \<longrightarrow> isTerminalTaskStatus (tk_status t)"
      using assms(1,2) unfolding tables_settled_def by fastforce
    with row(3) assms(3) show ?thesis using terminal_text_inj by metis
  qed
  then show ?thesis by (simp add: open_log_def)
qed

lemma terminalize_frame:
  assumes "terminalizeTaskWithResultDurable now j rv p e st r s = Inr s'" and "i \<noteq> j"
  shows "task_events_of s' i = task_events_of s i \<and> taskRow s' i = taskRow s i"
proof -
  have res: "task_events_of s1 i = task_events_of s i \<and> taskRow s1 i = taskRow s i" if "ensure_result now j st r s = Inr (s1, b)" for s1 b
    using that assms(2) by (auto simp: ensure_result_def writeResultRow_def update_task_def sel_upd task_events_of_def split: option.splits if_splits)
  have fin: "task_events_of s2 i = task_events_of s1 i \<and> taskRow s2 i = taskRow s1 i" if f: "finish_task now j rv p e s1 = Inr s2" for s1 s2
  proof -
    obtain s3 s4 where u: "updateTaskSync now j rv (terminal_patch now p) s1 = Inr s3" "appendTaskEventSync now j e s3 = Inr s4" "s2 = record_terminal j s4"
      using f by (auto simp: finish_task_def split: if_splits)
    have "task_events_of s3 i = task_events_of s1 i \<and> taskRow s3 i = taskRow s1 i"
      using u(1) assms(2) by (auto simp: updateTaskSync_def update_task_def sel_upd apply_task_patch_def task_events_of_def split: option.splits)
    moreover from u(2) have "task_events_of s4 i = task_events_of s3 i \<and> taskRow s4 i = taskRow s3 i"
      using assms(2) by (cases rule: appendTaskEvent_cases) (auto simp: sel_upd task_events_of_def task_event_row_of_def)
    moreover have "task_events_of s2 i = task_events_of s4 i \<and> taskRow s2 i = taskRow s4 i"
      using u(3) assms(2) by (simp add: record_terminal_def update_task_def sel_upd task_events_of_def)
    ultimately show ?thesis by simp
  qed
  obtain cur s1 b where "taskRow s j = Some cur" "ensure_result now j st r s = Inr (s1, b)"
    and "(if tk_terminal_event_recorded cur then Inr s1 else finish_task now j rv p e s1) = Inr s'"
    using assms(1) unfolding terminalizeTaskWithResultDurable_def
    by (elim opened_InrE need_InrE and_then_InrE) (metis prod.collapse)
  then show ?thesis using res fin by (auto split: if_splits)
qed

text \<open>What the recovery of a record leaves as it was: the tasks that are still to be recovered.\<close>

definition still_stored :: "wstore \<Rightarrow> string set \<Rightarrow> gateway \<Rightarrow> bool" where
  "still_stored s D g \<longleftrightarrow> (\<forall>i. i \<notin> D \<longrightarrow> task_events_of (gw_store g) i = task_events_of s i \<and> taskRow (gw_store g) i = taskRow s i) \<and>
     g_id ` set (gw_tasks g) \<subseteq> D \<and> (\<forall>t\<in>set (gw_tasks g). g_recovered t) \<and> (\<forall>w\<in>set (gw_waits g). \<not> creation w \<and> wait_id w = []) \<and>
     ws_closed (gw_store g) = ws_closed s \<and> gw_pending g = 0"

lemma still_finish:
  assumes "still_stored s D g" and "i \<in> D"
  shows "still_stored s D (finishWithTerminal cfg sha now lr err i e g)"
proof (cases "task_object g i")
  case (Some t)
  have i: "g_id t = i" using object_id [OF Some] .
  have stored: "still_stored s D (terminalize sha now lr err t e g)"
  proof (cases "terminalizeTaskWithResultDurable now i (g_revision t) (terminal_update (ev_type e) err) (toEventInput e)
      (fst (gateway_terminal_result sha lr t e)) (snd (gateway_terminal_result sha lr t e)) (gw_store g)")
    case (Inr s1)
    have "ws_closed s1 = ws_closed (gw_store g)" using te.Q_terminalizeWithResult [OF Inr] by (simp add: tasks_evolve_def)
    moreover have "task_events_of s1 k = task_events_of (gw_store g) k \<and> taskRow s1 k = taskRow (gw_store g) k" if "k \<notin> D" for k
      using terminalize_frame [OF Inr] that assms(2) by metis
    ultimately show ?thesis using assms Inr i unfolding still_stored_def
      by (auto simp: terminalize_def Let_def on_task_def)
  qed (simp add: terminalize_def Let_def i assms(1))
  have push: "still_stored s D (pushEvent cfg i e g1)" if "still_stored s D g1" for g1
    using that by (auto simp: still_stored_def pushEvent_def with_task_def on_task_def publish_in_def split: option.splits)
  have fin: "still_stored s D (finishTask cfg i g1)" if "still_stored s D g1" for g1
    using that by (auto simp: still_stored_def finishTask_def with_task_def on_task_def evict_eq split: option.splits)
  show ?thesis using Some stored assms(1) by (auto simp: finishWithTerminal_def with_task_def intro: push fin)
qed (simp add: finishWithTerminal_def with_task_def assms(1))

lemma recover_ok:
  assumes "gateway_ok cfg g" and "still_stored s D g" and "tables_settled s" and "taskRow s (tk_id row) = Some row"
    and "\<not> isTerminalTaskStatus (tk_status row)" and "tk_id row \<notin> D"
  shows "gateway_ok cfg (recover_record cfg sha now ts g row) \<and> still_stored s (insert (tk_id row) D) (recover_record cfg sha now ts g row)"
proof -
  let ?i = "tk_id row" let ?es = "case loadTaskEvents ?i (gw_store g) of None \<Rightarrow> [] | Some es \<Rightarrow> es" let ?t = "recovered_task cfg row ?es"
  let ?g1 = "g\<lparr>gw_tasks := gw_tasks g @ [?t], gw_active := gw_active g + 1\<rparr>"
  have st: "tables_settled (gw_store g)" using assms(1) by (simp add: gateway_ok_def store_ok_def)
  have r: "taskRow (gw_store g) ?i = Some row" using assms(2,4,6) by (simp add: still_stored_def)
  have "open_log ?es" using loaded_open [OF st r assms(5)] by (auto split: option.splits)
  moreover have "\<forall>e\<in>set ?es. event_saved cfg (gw_store g) ?i e"
    using loaded_events [OF st, of ?i] by (cases "loadTaskEvents ?i (gw_store g)") (auto simp: event_saved_def event_stored_def task_events_of_def)
  moreover have "fresh_task ?i g" using assms(2,6) by (auto simp: still_stored_def fresh_task_def)
  ultimately have "recoverable cfg ?t g"
    using assms(2) by (auto simp: recoverable_def still_stored_def recovered_task_def new_gateway_task_def last_events_def)
  then have g1: "gateway_ok cfg ?g1" using gateway_act [OF act.recover assms(1)] by simp
  have s1: "still_stored s (insert ?i D) ?g1" using assms(2) by (auto simp: still_stored_def recovered_task_def new_gateway_task_def)
  let ?f = "\<lambda>p err. synthEvent (ts ?i) ?i TeFailed p (finishWithTerminal cfg sha (now ?i) None err ?i) ?g1"
  have "gateway_ok cfg (?f p err)" for p err by (rule gateway_acts [OF acts_synth_finish g1]) simp
  moreover have "still_stored s (insert ?i D) (on_task ?i (\<lambda>t. t\<lparr>g_nextSeq := g_nextSeq t + 1\<rparr>) ?g1)"
    using s1 by (auto simp: still_stored_def on_task_def)
  then have "still_stored s (insert ?i D) (?f p err)" for p err
    using s1 by (auto simp: synthEvent_def with_task_def intro!: still_finish split: option.splits)
  moreover have "gateway_ok cfg (add_wait (RecoveryTimer ?i 0) ?g1)" by (rule gateway_act [OF act.wait g1]) simp_all
  moreover have "still_stored s (insert ?i D) (add_wait (RecoveryTimer ?i 0) ?g1)" using s1 by (auto simp: still_stored_def)
  ultimately show ?thesis by (simp add: recover_record_def Let_def)
qed

lemma recover_all:
  assumes "tables_settled s"
  shows "gateway_ok cfg g \<Longrightarrow> still_stored s D g \<Longrightarrow> distinct (map tk_id rows) \<Longrightarrow>
    (\<And>row. row \<in> set rows \<Longrightarrow> taskRow s (tk_id row) = Some row \<and> \<not> isTerminalTaskStatus (tk_status row) \<and> tk_id row \<notin> D) \<Longrightarrow>
    gateway_ok cfg (foldl (recover_record cfg sha now ts) g rows)"
proof (induction rows arbitrary: g D)
  case (Cons row rows)
  have "gateway_ok cfg (recover_record cfg sha now ts g row)" "still_stored s (insert (tk_id row) D) (recover_record cfg sha now ts g row)"
    using recover_ok [OF Cons(2,3) assms, of row] Cons(5) [of row] by auto
  then show ?case using Cons(4,5) by (auto intro!: Cons(1) simp: image_iff)
qed simp

lemma empty_ok: "task_inv s \<Longrightarrow> tables_settled s \<Longrightarrow> gateway_ok cfg (empty_gateway s)"
  by (simp add: gateway_ok_def empty_gateway_def ids_ok_def slots_ok_def tasks_ok_def saved_ok_def retained_ok_def subs_ok_def store_ok_def)

lemma start_ok:
  assumes "task_inv s" and "tables_settled s"
  shows "gateway_ok cfg (startAgentGateway cfg sha now ts s)"
proof -
  have d: "distinct (map tk_id (ws_tasks s))" using assms(1) by (simp add: task_inv_def)
  have "set (listNonTerminalTasks s) = {t \<in> set (ws_tasks s). \<not> isTerminalTaskStatus (tk_status t)}"
    by (auto simp: listNonTerminalTasks_def isTerminalTaskStatus_def TASK_TERMINAL_STATUSES_def)
  moreover have "distinct (map tk_id (listNonTerminalTasks s))"
    using d unfolding listNonTerminalTasks_def by (simp add: distinct_map inj_on_def)
  moreover have "still_stored s {} (empty_gateway s)" by (simp add: still_stored_def empty_gateway_def)
  ultimately have "gateway_ok cfg (foldl (recover_record cfg sha now ts) (empty_gateway s) (listNonTerminalTasks s))"
    using empty_ok [OF assms] d by (intro recover_all [OF assms(2)]) (auto intro: sel_mem)
  then show ?thesis using empty_ok [OF assms] by (simp add: startAgentGateway_def)
qed

theorem reaches_ok: "gateway_reaches cfg sha s g \<Longrightarrow> task_inv s \<Longrightarrow> tables_settled s \<Longrightarrow> gateway_ok cfg g"
proof (induction rule: gateway_reaches.induct)
  case (restart g now ts)
  then have "task_inv (gw_store g)" "tables_settled (gw_store g)" by (simp_all add: gateway_ok_def store_ok_def)
  then show ?case by (intro start_ok) (simp_all add: task_inv_def tables_settled_def task_events_of_def)
qed (simp_all add: start_ok step_ok)

end
