(* ===== verification/GatewayStreams.thy ===== *)
theory GatewayStreams
  imports GatewayRuns
begin

text \<open>
  What the client of an event stream receives: the replayed part of the buffer, then every event that is
  published afterwards, once and in order, until the client goes or the task has ended.
\<close>

definition frames_to :: "nat \<Rightarrow> gateway \<Rightarrow> task_event list" where
  "frames_to n g = map snd (filter (\<lambda>f. fst f = n) (gw_frames g))"

definition follows :: "nat \<Rightarrow> string \<Rightarrow> task_event list \<Rightarrow> task_event list \<Rightarrow> gateway \<Rightarrow> bool" where
  "follows n i F L g \<longleftrightarrow> n \<in> set (gw_gone g) \<or>
     (\<exists>t new. task_object g i = Some t \<and> g_log t = L @ new \<and> frames_to n g = F @ new \<and>
        (n \<in> set (g_subs t) \<or> g_terminal t \<and> frames_to n g \<noteq> []) \<and> (\<forall>u\<in>set (gw_tasks g). g_id u \<noteq> i \<longrightarrow> n \<notin> set (g_subs u)))"

lemma frames_push: "distinct ns \<Longrightarrow> map snd (filter (\<lambda>f. fst f = n) (map (\<lambda>m. (m, e)) ns)) = (if n \<in> set ns then [e] else [])"
  by (induction ns) auto

lemma gone_act: "act cfg g g' \<Longrightarrow> set (gw_gone g) \<subseteq> set (gw_gone g')"
  by (induction rule: act.induct)
    (auto simp: small_defs disconnect_def pushEvent_def finishTask_def with_task_def evict_eq split: option.splits)

lemma object_in: "task_object g i = Some t \<Longrightarrow> t \<in> set (gw_tasks g) \<and> g_id t = i"
  by (auto simp: task_object_def find_Some_iff)

lemma object_iff: "ids_ok g \<Longrightarrow> task_object g i = Some t \<longleftrightarrow> t \<in> set (gw_tasks g) \<and> g_id t = i"
  using sel_mem [of g_id "gw_tasks g" t] object_in [of g i t] by (auto simp: ids_ok_def task_object_def sel_def)

text \<open>A change of the tasks that leaves what the subscriber sees.\<close>

lemma follows_same:
  assumes "ids_ok g" and "ids_ok g'" and "follows n i F L g" and "gw_frames g' = gw_frames g" and "set (gw_gone g) \<subseteq> set (gw_gone g')"
    and "\<And>t. t \<in> set (gw_tasks g) \<Longrightarrow> n \<notin> set (gw_gone g') \<Longrightarrow> \<exists>t'\<in>set (gw_tasks g'). g_id t' = g_id t \<and> g_log t' = g_log t \<and> (n \<in> set (g_subs t) \<longrightarrow> n \<in> set (g_subs t')) \<and> g_terminal t' = g_terminal t"
    and "\<And>t'. t' \<in> set (gw_tasks g') \<Longrightarrow> n \<in> set (g_subs t') \<Longrightarrow> \<exists>t\<in>set (gw_tasks g). g_id t' = g_id t \<and> n \<in> set (g_subs t)"
  shows "follows n i F L g'"
proof (cases "n \<in> set (gw_gone g')")
  case False
  then obtain t new where t: "task_object g i = Some t" "g_log t = L @ new" "frames_to n g = F @ new"
    "n \<in> set (g_subs t) \<or> g_terminal t \<and> frames_to n g \<noteq> []" "\<forall>u\<in>set (gw_tasks g). g_id u \<noteq> i \<longrightarrow> n \<notin> set (g_subs u)"
    using assms(3,5) by (auto simp: follows_def)
  obtain t' where t': "t' \<in> set (gw_tasks g')" "g_id t' = i" "g_log t' = g_log t" "n \<in> set (g_subs t) \<longrightarrow> n \<in> set (g_subs t')" "g_terminal t' = g_terminal t"
    using assms(6) [of t] object_in [OF t(1)] False by auto
  have "task_object g' i = Some t'" using t'(1,2) assms(2) by (simp add: object_iff)
  moreover have "frames_to n g' = frames_to n g" by (simp add: frames_to_def assms(4))
  moreover have "\<forall>u\<in>set (gw_tasks g'). g_id u \<noteq> i \<longrightarrow> n \<notin> set (g_subs u)" using assms(7) t(5) by metis
  ultimately show ?thesis using t(2-4) t'(3-5) unfolding follows_def by auto
qed (simp add: follows_def)

text \<open>An event that is published, and perhaps ends the task.\<close>

lemma follows_push:
  assumes "gateway_ok cfg g" and "gateway_ok cfg g'" and "follows n i F L g" and "task_object g j = Some t" and "\<not> g_terminal t"
    and s: "gw_tasks g = xs @ t # ys" and "\<And>k. (k, e) \<in> set fs \<Longrightarrow> k \<in> set (g_subs t)" and "fs = map (\<lambda>k. (k, e)) (g_subs t)"
    and g': "gw_frames g' = gw_frames g @ fs" "gw_gone g' = gw_gone g"
    and ts: "map (\<lambda>t. (g_id t, g_log t, g_subs t, g_terminal t)) (gw_tasks g') =
       map (\<lambda>t. (g_id t, g_log t, g_subs t, g_terminal t)) (xs @ t' # ys)"
    and t': "g_id t' = j" "g_log t' = g_log t @ [e]" "g_subs t' = g_subs t \<or> g_subs t' = [] \<and> g_terminal t'"
  shows "follows n i F L g'"
proof (cases "n \<in> set (gw_gone g)")
  case False
  then obtain u new where u: "task_object g i = Some u" "g_log u = L @ new" "frames_to n g = F @ new"
    "n \<in> set (g_subs u) \<or> g_terminal u \<and> frames_to n g \<noteq> []" "\<forall>v\<in>set (gw_tasks g). g_id v \<noteq> i \<longrightarrow> n \<notin> set (g_subs v)"
    using assms(3) by (auto simp: follows_def)
  have ids: "ids_ok g" "ids_ok g'" and subs: "subs_ok g" using assms(1,2) by (simp_all add: gateway_ok_def)
  have d: "distinct (g_subs t)" using subs s by (auto simp: subs_ok_def)
  have fr: "frames_to n g' = frames_to n g @ (if n \<in> set (g_subs t) then [e] else [])"
    unfolding frames_to_def g'(1) assms(8) by (simp only: filter_append map_append frames_push [OF d])
  have j: "g_id t = j" using object_in [OF assms(4)] by simp
  have view: "\<exists>w\<in>set (gw_tasks g'). (g_id w, g_log w, g_subs w, g_terminal w) = (g_id v, g_log v, g_subs v, g_terminal v)" if "v \<in> set (xs @ t' # ys)" for v
    using arg_cong [OF ts, of set] that by (metis (no_types, lifting) image_iff list.set_map)
  have view': "\<exists>v\<in>set (xs @ t' # ys). (g_id w, g_log w, g_subs w, g_terminal w) = (g_id v, g_log v, g_subs v, g_terminal v)" if "w \<in> set (gw_tasks g')" for w
    using arg_cong [OF ts, of set] that by (metis (no_types, lifting) image_iff list.set_map)
  have others: "\<forall>w\<in>set (gw_tasks g'). g_id w \<noteq> i \<longrightarrow> n \<notin> set (g_subs w)"
  proof (intro ballI impI)
    fix w assume w: "w \<in> set (gw_tasks g')" "g_id w \<noteq> i"
    from view' [OF w(1)] obtain v where v: "v \<in> set (xs @ t' # ys)" "g_id v = g_id w" "g_subs v = g_subs w" by (elim bexE) simp
    then consider "v \<in> set (gw_tasks g)" | "v = t'" using s by auto
    then show "n \<notin> set (g_subs w)"
    proof cases
      case 2
      then have "g_id t \<noteq> i" using v w t'(1) j by simp
      then show ?thesis using u(5) s t'(3) 2 v(3) by auto
    qed (use u(5) v w in auto)
  qed
  show ?thesis
  proof (cases "i = j")
    case True
    then have ut: "u = t" using u(1) assms(4) by simp
    then have n: "n \<in> set (g_subs t)" using u(4) assms(5) by simp
    have "t' \<in> set (xs @ t' # ys)" by simp
    from view [OF this] obtain w where w: "w \<in> set (gw_tasks g')" "g_id w = j" "g_log w = g_log t @ [e]" "g_subs w = g_subs t'" "g_terminal w = g_terminal t'"
      using t' by (elim bexE) simp
    then have "task_object g' i = Some w" using ids(2) True by (simp add: object_iff)
    then show ?thesis using w n u(2,3) t'(3) others ut fr unfolding follows_def by (intro disjI2 exI [of _ w] exI [of _ "new @ [e]"]) auto
  next
    case False
    then have n: "n \<notin> set (g_subs t)" using u(5) s j by auto
    have "u \<in> set (xs @ t' # ys)" using object_in [OF u(1)] s False j by auto
    from view [OF this] obtain w where w: "w \<in> set (gw_tasks g')" "g_id w = i" "g_log w = g_log u" "g_subs w = g_subs u" "g_terminal w = g_terminal u"
      using object_in [OF u(1)] by (elim bexE) simp
    then have "task_object g' i = Some w" using ids(2) by (simp add: object_iff)
    then show ?thesis using w n u(2-4) others fr unfolding follows_def by (intro disjI2 exI [of _ w] exI [of _ new]) auto
  qed
qed (simp add: follows_def g'(2))

lemma on_task_back: "t' \<in> set (gw_tasks (on_task j f g)) \<Longrightarrow> \<exists>t\<in>set (gw_tasks g). t' = (if g_id t = j then f t else t)"
  by (auto simp: on_task_def)

lemma on_task_in: "t \<in> set (gw_tasks g) \<Longrightarrow> (if g_id t = j then f t else t) \<in> set (gw_tasks (on_task j f g))"
  by (auto simp: on_task_def)

lemma follows_frame:
  assumes "follows n i F L g" and "gw_tasks g' = gw_tasks g" and "gw_frames g' = gw_frames g" and "gw_gone g' = gw_gone g"
  shows "follows n i F L g'"
  using assms by (simp add: follows_def frames_to_def task_object_def)

lemma follows_used: "follows n i F L g \<Longrightarrow> \<not> fresh_response n g"
  by (auto simp: follows_def fresh_response_def frames_to_def task_object_def find_Some_iff filter_empty_conv dest: nth_mem)

lemma follows_frames:
  assumes "follows n i F L g" and "fresh_response m g"
  shows "follows n i F L (write_frames m es g)"
proof -
  have "m \<noteq> n" using follows_used [OF assms(1)] assms(2) by auto
  then have "frames_to n (write_frames m es g) = frames_to n g" by (simp add: frames_to_def write_frames_def filter_map comp_def)
  then show ?thesis using assms(1) by (simp add: follows_def task_object_def write_frames_def)
qed

lemma follows_add:
  assumes "follows n i F L g" and "gw_tasks g' = gw_tasks g @ [t]" and "g_id t \<notin> g_id ` set (gw_tasks g)" and "g_subs t = []"
    and "gw_frames g' = gw_frames g" and "gw_gone g' = gw_gone g"
  shows "follows n i F L g'"
proof -
  have "find P (xs @ ys) = (case find P xs of None \<Rightarrow> find P ys | Some x \<Rightarrow> Some x)" for P :: "gateway_task \<Rightarrow> bool" and xs ys
    by (induction xs) auto
  then show ?thesis using assms unfolding follows_def frames_to_def task_object_def by auto
qed

lemma follows_on:
  assumes "ids_ok g" and "follows n i F L g"
    and "\<And>t. g_id (f t) = g_id t \<and> g_log (f t) = g_log t \<and> g_terminal (f t) = g_terminal t \<and> (n \<in> set (g_subs (f t)) \<longleftrightarrow> n \<in> set (g_subs t))"
  shows "follows n i F L (on_task j f g)"
proof (rule follows_same [OF assms(1) _ assms(2)])
  show "ids_ok (on_task j f g)" using assms(1,3) by (simp add: ids_ok_def on_task_map)
  show "\<exists>t'\<in>set (gw_tasks (on_task j f g)). g_id t' = g_id t \<and> g_log t' = g_log t \<and> (n \<in> set (g_subs t) \<longrightarrow> n \<in> set (g_subs t')) \<and> g_terminal t' = g_terminal t"
    if "t \<in> set (gw_tasks g)" for t
    using on_task_in [OF that, of j f] assms(3) [of t] by (intro bexI [of _ "if g_id t = j then f t else t"]) auto
  show "\<exists>t\<in>set (gw_tasks g). g_id t' = g_id t \<and> n \<in> set (g_subs t)" if "t' \<in> set (gw_tasks (on_task j f g))" "n \<in> set (g_subs t')" for t'
    using on_task_back [OF that(1)] that(2) assms(3) by (metis (full_types))
qed simp_all

lemma follows_close:
  assumes "gateway_ok cfg g" and "follows n i F L g"
  shows "follows n i F L (close_gateway g)"
proof (rule follows_same [OF _ _ assms(2)])
  show i: "ids_ok g" "ids_ok (close_gateway g)" using assms(1) gateway_act [OF act.shutdown assms(1)] by (simp_all add: gateway_ok_def)
  show "\<exists>t'\<in>set (gw_tasks (close_gateway g)). g_id t' = g_id t \<and> g_log t' = g_log t \<and> (n \<in> set (g_subs t) \<longrightarrow> n \<in> set (g_subs t')) \<and> g_terminal t' = g_terminal t"
    if "t \<in> set (gw_tasks g)" "n \<notin> set (gw_gone (close_gateway g))" for t
    using that by (intro bexI [of _ "if g_registered t then t\<lparr>g_poll := False, g_subs := []\<rparr> else t"]) auto
  show "\<exists>t\<in>set (gw_tasks g). g_id t' = g_id t \<and> n \<in> set (g_subs t)" if "t' \<in> set (gw_tasks (close_gateway g))" "n \<in> set (g_subs t')" for t'
    using that by (auto split: if_splits)
qed auto

lemma follows_act:
  assumes "act cfg g g'" and "gateway_ok cfg g" and "follows n i F L g"
  shows "follows n i F L g'"
  using assms
proof (induction rule: act.induct)
  case (task f g j)
  then show ?case using stream_ofD [OF task(1)] by (intro follows_on [OF _ task(3)]) (auto simp: gateway_ok_def)
next
  case (publish g j t e)
  have ok: "gateway_ok cfg (pushEvent cfg j e g)" using gateway_act [OF act.publish [OF publish(1-4)] publish(5)] .
  obtain xs ys where s: "gw_tasks g = xs @ t # ys" "g_id t = j" "\<forall>u\<in>set xs \<union> set ys. g_id u \<noteq> j"
    using object_split [OF _ publish(1)] publish(5) unfolding gateway_ok_def by metis
  show ?case by (rule follows_push [OF publish(5) ok publish(6,1,2) s(1) _ refl, of e "publish_in cfg e t"]) (auto simp: push_eq [OF s] s(2))
next
  case (finish g j t e)
  have ok: "gateway_ok cfg (finishTask cfg j (pushEvent cfg j e g))" using gateway_act [OF act.finish [OF finish(1-3)] finish(4)] .
  obtain xs ys where s: "gw_tasks g = xs @ t # ys" "g_id t = j" "\<forall>u\<in>set xs \<union> set ys. g_id u \<noteq> j"
    using object_split [OF _ finish(1)] finish(4) unfolding gateway_ok_def by metis
  show ?case
    by (rule follows_push [OF finish(4) ok finish(5,1,2) s(1) _ refl, of e "end_streams (publish_in cfg e t)"])
      (auto simp: finish_eq [OF s finish(2)] evict_eq finished_def s(2) comp_def)
next
  case (replay m g es)
  then show ?case by (intro follows_frames)
next
  case (subscribe m g j t es)
  have n: "m \<noteq> n" using subscribe(1,5) follows_used by blast
  have "ids_ok (write_frames m es g)" using subscribe(4) by (simp add: gateway_ok_def ids_ok_def write_frames_def)
  then show ?case using n by (intro follows_on [OF _ follows_frames [OF subscribe(5,1)]]) auto
next
  case (leave g j t m)
  show ?case
  proof (cases "m = n")
    case False
    let ?g = "g\<lparr>gw_gone := gw_gone g @ [m]\<rparr>"
    have f: "follows n i F L ?g" using leave(4) False by (auto simp: follows_def frames_to_def task_object_def)
    have "ids_ok ?g" using leave(3) by (simp add: gateway_ok_def ids_ok_def)
    then show ?thesis unfolding disconnect_def using False by (intro follows_on [OF _ f]) auto
  qed (simp add: follows_def disconnect_def)
next
  case (shutdown g)
  then show ?case by (intro follows_close)
next
  case (register w g t e)
  then show ?case by (intro follows_add [OF register(8)]) (auto simp: register_def fresh_task_def pristine_def)
next
  case (recover t g)
  then show ?case by (intro follows_add [OF recover(3)]) (auto simp: recoverable_def fresh_task_def)
qed (erule follows_frame; simp add: small_defs)+

lemma follows_acts: "acts cfg g g' \<Longrightarrow> gateway_ok cfg g \<Longrightarrow> follows n i F L g \<Longrightarrow> follows n i F L g'"
  by (induction rule: rtranclp_induct) (auto intro: follows_act gateway_acts)

lemma follows_steps:
  assumes "(gateway_step cfg sha)\<^sup>*\<^sup>* g g'" and "gateway_ok cfg g" and "follows n i F L g"
  shows "gateway_ok cfg g' \<and> follows n i F L g'"
  using assms by (induction rule: rtranclp_induct) (auto intro: step_ok follows_acts step_acts)

lemma subscribed_follows:
  assumes "gateway_ok cfg g" and "task_named g i = Some t" and "\<not> g_terminal t" and "fresh_response n g"
  shows "gateway_ok cfg (handleEvents cfg n h i g) \<and> follows n i (fst (computeSseReplay (g_events t) h)) (g_log t) (handleEvents cfg n h i g)"
proof -
  let ?es = "fst (computeSseReplay (g_events t) h)"
  let ?g = "on_task i (\<lambda>t. t\<lparr>g_subs := g_subs t @ [n]\<rparr>) (write_frames n ?es g)"
  have t: "task_object g i = Some t" using assms(1,2) by (auto simp: gateway_ok_def intro: object_named)
  have ok: "gateway_ok cfg ?g" using gateway_act [OF act.subscribe [OF assms(4) t assms(3)] assms(1)] .
  have "frames_to n ?g = ?es" using assms(4) by (auto simp: frames_to_def write_frames_def fresh_response_def filter_map comp_def filter_empty_conv)
  moreover have "task_object ?g i = Some (t\<lparr>g_subs := g_subs t @ [n]\<rparr>)" using t object_id [OF t] by (simp add: write_frames_def task_object_def [of "g\<lparr>gw_frames := _\<rparr>"] task_object_def [of g])
  moreover have "\<forall>u\<in>set (gw_tasks ?g). g_id u \<noteq> i \<longrightarrow> n \<notin> set (g_subs u)" using assms(4) by (auto simp: on_task_def write_frames_def fresh_response_def)
  ultimately have f: "follows n i ?es (g_log t) ?g" unfolding follows_def
    by (intro disjI2 exI [of _ "t\<lparr>g_subs := g_subs t @ [n]\<rparr>"] exI [of _ "[]"]) (simp del: object_on)
  have "acts cfg ?g (if g_mode t = RemoteRun \<and> \<not> g_pumpActive t then resumePump cfg i ?g else ?g)" by (simp add: acts_pumps)
  then show ?thesis using gateway_acts follows_acts ok f assms(2,3) by (auto simp: handleEvents_def Let_def)
qed

end
