(* ===== verification/GatewayExample.thy ===== *)
theory GatewayExample
  imports GatewayStreams
begin

text \<open>
  One concrete run of the gateway, from an empty store: a remote task is created and started, a client opens
  its event stream, the run reports that it has completed, but its result cannot be fetched for a while; a status
  request then sees the completed run, and now the result is there. The states are given as
  records; each is reached from the one before by one step.
\<close>

section \<open>The request and its task\<close>

definition trial_ts :: string where "trial_ts = ''2024-01-01T00:00:00.000Z''"

definition trial_cfg :: gateway_config where
  "trial_cfg = \<lparr>gc_persist = True, gc_remote = True, gc_recover = True, gc_maxActive = 1, gc_maxRetained = 1, gc_maxEvents = 2\<rparr>"

definition trial_body :: jsval where
  "trial_body = JObj [(''agent'', JStr ''codex''), (''node_id'', JStr ''n1''), (''input'', JObj [(''text'', JStr ''go'')])]"

definition trial_request :: create_request where
  "trial_request = \<lparr>cr_agent = ''codex'', cr_node_id = Some ''n1'', cr_text = ''go'', cr_workspace_key = None, cr_path = None,
     cr_permission_mode = None, cr_workspace_write = None, cr_metadata = None, cr_idempotency_key = None, cr_workspace_lease_id = None, cr_verify = None\<rparr>"

definition trial_node :: node_info where
  "trial_node = \<lparr>ni_id = ''n1'', ni_online = True, ni_agents = [''codex''], ni_key = True, ni_capabilities = [''run_result_v1'']\<rparr>"

definition trial_record :: "run_status \<Rightarrow> run_record" where
  "trial_record st = \<lparr>ru_run_id = ''run_1'', ru_agent = ''codex'', ru_final_agent = None, ru_node_id = ''n1'', ru_status = st,
     ru_created_at = trial_ts, ru_updated_at = trial_ts, ru_switched = False, ru_exit_code = None, ru_error = None, ru_failure_reason = None,
     ru_recoverable = None, ru_metadata = None\<rparr>"

definition trial_done :: backend_event where
  "trial_done = \<lparr>be_run_id = ''run_1'', be_ts = trial_ts, be_body = StatusEvent RsCompleted\<rparr>"

definition trial_event :: "int \<Rightarrow> task_event_type \<Rightarrow> jsval \<Rightarrow> task_event" where
  "trial_event q ty payload = \<lparr>ev_seq = q, ev_task_id = ''task_1'', ev_type = ty, ev_ts = trial_ts, ev_payload = payload\<rparr>"

definition trial_created :: task_event where
  "trial_created = trial_event 0 TeCreated (JObj [(''agent'', JStr ''codex'')])"

definition trial_row :: task_row where
  "trial_row = \<lparr>tk_id = ''task_1'', tk_revision = 1, tk_node_id = Some ''n1'', tk_agent = ''codex'', tk_workspace_key = None,
     tk_permission_mode = None, tk_status = ''queued'', tk_remote_run_id = None, tk_input_text = Some ''go'', tk_metadata = None,
     tk_created_at = trial_ts, tk_updated_at = trial_ts, tk_terminal_at = None, tk_last_event_sequence = 0, tk_earliest_retained_sequence = 0,
     tk_terminal_event_recorded = False, tk_error_code = None, tk_error_message = None, tk_history_incomplete = False, tk_history_reason = None,
     tk_history_boundary_sequence = None, tk_last_remote_event_sequence = None, tk_idempotency_key = None, tk_request_fingerprint = None,
     tk_result_status = None\<rparr>"

definition trial_event_row :: task_event_row where
  "trial_event_row = \<lparr>te_task_id = ''task_1'', te_sequence = 0, te_type = ''task.created'', te_ts = trial_ts,
     te_payload_json = ''{\"agent\":\"codex\"}'', te_created_at = trial_ts, te_source_sequence = None\<rparr>"

definition trial_queued :: wstore where
  "trial_queued = empty_store\<lparr>ws_tasks := [trial_row], ws_task_events := [trial_event_row]\<rparr>"

definition trial_bound :: wstore where
  "trial_bound = empty_store\<lparr>ws_tasks := [trial_row\<lparr>tk_status := ''running'', tk_remote_run_id := Some ''run_1'', tk_revision := 2\<rparr>],
     ws_task_events := [trial_event_row]\<rparr>"

definition trial_task :: gateway_task where
  "trial_task = (new_gateway_task ''task_1'' ''codex'' RemoteRun (Some ''n1'') None)\<lparr>g_nextSeq := 1, g_resultCapable := Some True\<rparr>"

definition trial_live :: gateway_task where
  "trial_live = trial_task\<lparr>g_events := [trial_created], g_log := [trial_created], g_revision := 2, g_remoteRunId := Some ''run_1'', g_pumpActive := True\<rparr>"

section \<open>States\<close>

definition s_nodes :: gateway where
  "s_nodes = (empty_gateway empty_store)\<lparr>gw_pending := 1, gw_waits := [AwaitNodes 0 trial_request]\<rparr>"

definition s_starting :: gateway where
  "s_starting = (empty_gateway trial_queued)\<lparr>gw_pending := 1, gw_waits := [AwaitRemoteStart 0 trial_task trial_created]\<rparr>"

definition s_with :: "gateway_task \<Rightarrow> wait list \<Rightarrow> gateway" where
  "s_with t ws = (empty_gateway trial_bound)\<lparr>gw_tasks := [t], gw_active := 1, gw_waits := ws, gw_replies := [(0, Accepted ''task_1'')]\<rparr>"

definition s_running :: gateway where
  "s_running = s_with trial_live []"

definition s_streaming :: "int \<Rightarrow> wait list \<Rightarrow> gateway" where
  "s_streaming q ws = (s_with (trial_live\<lparr>g_subs := [1], g_nextSeq := q\<rparr>) ws)\<lparr>gw_frames := [(1, trial_created)]\<rparr>"

text \<open>The completion as the pump reports it, and as a later status request finds it.\<close>

definition trial_end :: task_event where "trial_end = trial_event 1 TeCompleted (JObj [])"
definition trial_late :: task_event where "trial_late = trial_event 2 TeCompleted (JObj [])"

definition s_seen :: gateway where
  "s_seen = (s_with (trial_live\<lparr>g_subs := [1], g_nextSeq := 3, g_lastRecord := Some (trial_record RsCompleted)\<rparr>)
     [AwaitResult ''task_1'' trial_late 0])\<lparr>gw_frames := [(1, trial_created)],
       gw_replies := [(0, Accepted ''task_1''), (2, ShowRecord (trial_record RsCompleted))]\<rparr>"

definition trial_ended :: gateway_task where
  "trial_ended = trial_live\<lparr>g_events := [trial_created, trial_late], g_log := [trial_created, trial_late], g_nextSeq := 3,
     g_terminal := True, g_lastRecord := Some (trial_record RsCompleted), g_pendingResult := Some (''missing'', None)\<rparr>"

definition s_ended :: gateway where
  "s_ended = (empty_gateway trial_bound)\<lparr>gw_tasks := [trial_ended], gw_completed := [''task_1''], gw_frames := [(1, trial_created), (1, trial_late)],
     gw_replies := [(0, Accepted ''task_1''), (2, ShowRecord (trial_record RsCompleted))]\<rparr>"

lemma trial_texts:
  "iso_utc trial_ts" "isTaskEventType ''task.created''" "isTaskEventType ''task.completed''" "isSafeId ''task_1''" "trim ''codex'' \<noteq> []" "byteLen ''go'' = 2"
  by code_simp+

lemma trial_stringify: "stringify (JObj [(''agent'', JStr ''codex'')]) = Some ''{\"agent\":\"codex\"}''" "stringify (JObj []) = Some ''{}''"
  by code_simp+

lemma trial_encoded: "encodeJson (JObj [(''agent'', JStr ''codex'')]) limit_task_event_payload = Inr ''{\"agent\":\"codex\"}''"
  "encodeJson (JObj []) limit_task_event_payload = Inr ''{}''"
  unfolding encodeJson_def trial_stringify by (simp_all add: limit_task_event_payload_def byteLen_def)

lemma trial_valid: "validateCreateTaskRequest trial_body = Inr trial_request"
  by code_simp

lemma trial_checks: "request_refused trial_cfg trial_request = None" "is_remote trial_request" "preflight trial_request [trial_node] = Inr trial_node"
  by code_simp+

lemma trial_precheck: "precheck trial_cfg sha trial_request s = None"
  by (simp add: precheck_def trial_request_def nonempty_def)

section \<open>Steps\<close>

lemma trial_started: "gw_active (empty_gateway s) = 0" "gw_pending (empty_gateway s) = 0" "gw_store (empty_gateway s) = s" "\<not> gw_closing (empty_gateway s)"
  "gw_waits (empty_gateway s) = []" "gw_tasks (empty_gateway s) = []"
  by (simp_all add: empty_gateway_def)

lemma trial_limits: "gc_maxActive trial_cfg = 1" "gc_persist trial_cfg" "gc_remote trial_cfg" "gc_maxRetained trial_cfg = 1" "gc_maxEvents trial_cfg = 2"
  by (simp_all add: trial_cfg_def)

lemma step_create: "gateway_step trial_cfg sha (empty_gateway empty_store) s_nodes"
proof -
  have "handleCreate trial_cfg sha True 0 trial_body (empty_gateway empty_store) = add_wait (AwaitNodes 0 trial_request) (reserve (empty_gateway empty_store))"
    unfolding handleCreate_def trial_valid by (simp add: trial_checks trial_precheck trial_limits trial_started)
  also have "\<dots> = s_nodes" by (simp add: add_wait_def reserve_def s_nodes_def trial_started)
  finally show ?thesis using gateway_step.create [of "empty_gateway empty_store" trial_cfg sha True 0 trial_body] by (simp only: trial_started not_False_eq_True)
qed

lemma trial_persist:
  "persistCreate sha trial_ts trial_request (remote_task ''task_1'' trial_request trial_node) TsQueued trial_created empty_store = Inr (trial_queued, ''task_1'', True)"
  by (simp add: persistCreate_def nonempty_def trial_request_def createTaskDurable_def opened_def empty_store_def createTaskSync_def validateCreateTask_def
      trial_texts trial_encoded task_input_def remote_task_def new_gateway_task_def encodeOpt_def bound_opt_def boundString_def limit_input_text_def
      appendTaskEventSync_def toEventInput_def trial_created_def trial_event_def key_taken_def new_task_def null_if_undef_def source_taken_def
      task_events_of_def trial_row_def trial_event_row_def trial_queued_def task_event_row_of_def upd_def sel_def)

lemma trial_created_event: "created_event trial_ts (remote_task ''task_1'' trial_request trial_node) = trial_created"
  by (simp add: created_event_def next_event_def remote_task_def new_gateway_task_def trial_request_def trial_created_def trial_event_def)

lemma trial_queued_row: "taskRow trial_queued ''task_1'' = Some trial_row"
  by (simp add: trial_queued_def trial_row_def sel_def)

lemma trial_remote_task: "(remote_task ''task_1'' trial_request trial_node)\<lparr>g_nextSeq := 1, g_revision := 1\<rparr> = trial_task"
  by (simp add: remote_task_def trial_task_def new_gateway_task_def trial_request_def trial_node_def)

lemma step_nodes: "gateway_step trial_cfg sha s_nodes s_starting"
proof -
  have "nodes_answered trial_cfg sha trial_ts trial_ts True ''task_1'' 0 trial_request (Inr [trial_node])
      (resumed (AwaitNodes 0 trial_request) s_nodes) = s_starting"
    using trial_remote_task
    by (simp add: nodes_answered_def trial_checks trial_persist trial_created_event Let_def trial_queued_row s_nodes_def s_starting_def resumed_def
        add_wait_def empty_gateway_def trial_cfg_def trial_row_def)
  moreover have "AwaitNodes 0 trial_request \<in> set (gw_waits s_nodes)" "fresh_task ''task_1'' s_nodes"
    by (simp_all add: s_nodes_def fresh_task_def empty_gateway_def)
  ultimately show ?thesis using gateway_step.nodes by metis
qed

lemma trial_bind: "bind_run trial_ts (trial_record RsRunning) trial_task trial_queued = (trial_bound, 2)"
  by (simp add: bind_run_def opened_def updateTaskSync_def trial_task_def new_gateway_task_def trial_queued_def trial_bound_def trial_row_def
      bind_patch_def task_patch_error_def trial_record_def update_task_def apply_task_patch_def upd_def patched_def encodeOpt_def empty_store_def sel_def need_def or_else_def isTerminalTaskStatus_def TASK_TERMINAL_STATUSES_def)

lemma trial_fields: "g_id trial_task = ''task_1''" "g_id trial_live = ''task_1''" "\<not> g_replayCapable trial_task" "\<not> g_replayCapable trial_live"
  "g_mode trial_live = RemoteRun" "g_pumpActive trial_live" "\<not> g_terminal trial_live" "g_registered trial_live" "g_events trial_live = [trial_created]"
  "g_log trial_live = [trial_created]" "g_subs trial_live = []" "g_remoteRunId trial_live = Some ''run_1''" "g_resultCapable trial_live = Some True"
  "g_pendingResult trial_live = None" "g_revision trial_live = 2"
  by (simp_all add: trial_task_def trial_live_def new_gateway_task_def)

lemma trial_run_id: "ru_run_id (trial_record st) = ''run_1''" "ru_status (trial_record st) = st"
  by (simp_all add: trial_record_def)

lemma step_start: "gateway_step trial_cfg sha s_starting s_running"
proof -
  let ?w = "AwaitRemoteStart 0 trial_task trial_created"
  have t: "startRemotePump ''task_1'' (pushEvent trial_cfg ''task_1'' trial_created
      (register (trial_task\<lparr>g_revision := 2, g_remoteRunId := Some ''run_1''\<rparr>) ((empty_gateway trial_bound)\<lparr>gw_pending := 1\<rparr>))) =
      (empty_gateway trial_bound)\<lparr>gw_tasks := [trial_live], gw_active := 1\<rparr>"
    by (simp add: startRemotePump_def pushEvent_def register_def with_task_def task_object_def on_task_def publish_in_def shift_to_def trial_live_def
        trial_task_def new_gateway_task_def empty_gateway_def trial_limits)
  have "gw_waits s_starting = [?w]" "gw_store s_starting = trial_queued" "s_starting\<lparr>gw_waits := [], gw_store := trial_bound\<rparr> = (empty_gateway trial_bound)\<lparr>gw_pending := 1\<rparr>"
    by (simp_all add: s_starting_def empty_gateway_def)
  then have "remote_started trial_cfg trial_ts trial_ts 0 trial_task trial_created (Inr (trial_record RsRunning)) (resumed ?w s_starting) = s_running"
    using t by (simp add: remote_started_def resumed_def trial_bind trial_fields trial_run_id Let_def answer_with_def s_running_def s_with_def empty_gateway_def)
  then show ?thesis using gateway_step.remote [of 0 trial_task trial_created s_starting] \<open>gw_waits s_starting = [?w]\<close> by (metis list.set_intros(1))
qed

lemmas trial_run_defs = s_running_def s_streaming_def s_with_def with_task_def task_object_def task_named_def on_task_def resumed_def add_wait_def empty_gateway_def

lemma trial_opened: "handleEvents trial_cfg 1 None ''task_1'' s_running = s_streaming 1 []"
  by (simp add: handleEvents_def Let_def computeSseReplay_def parse_cursor_def write_frames_def trial_run_defs trial_fields)
    (simp add: trial_live_def trial_task_def new_gateway_task_def)

lemma step_done: "gateway_step trial_cfg sha (s_streaming 1 []) (s_streaming 2 [AwaitResult ''task_1'' trial_end 0])"
proof -
  have "runEventToTaskEvent trial_done 1 = Some (trial_end\<lparr>ev_task_id := ''run_1''\<rparr>)"
    by (simp add: runEventToTaskEvent_def trial_done_def task_event_of_def trial_end_def trial_event_def)
  moreover have "(trial_end\<lparr>ev_task_id := ''run_1''\<rparr>)\<lparr>ev_task_id := ''task_1''\<rparr> = trial_end" by (simp add: trial_end_def trial_event_def)
  moreover have "ev_type trial_end = TeCompleted" by (simp add: trial_end_def trial_event_def)
  ultimately have "fst (ingest trial_cfg sha trial_ts None ''task_1'' trial_done (s_streaming 1 [])) = s_streaming 2 [AwaitResult ''task_1'' trial_end 0]"
    by (simp add: ingest_def Let_def finishRemoteWithResult_def result_loop_def REMOTE_RESULT_ATTEMPTS_def trial_run_defs trial_fields trial_limits nonempty_def)
  moreover have "task_object (s_streaming 1 []) ''task_1'' = Some (trial_live\<lparr>g_subs := [1], g_nextSeq := 1\<rparr>)" by (simp add: trial_run_defs trial_fields)
  ultimately show ?thesis using gateway_step.pump_event [of "s_streaming 1 []" "''task_1''" "trial_live\<lparr>g_subs := [1], g_nextSeq := 1\<rparr>" trial_cfg sha trial_ts trial_done]
    by (simp add: trial_fields)
qed

text \<open>Three attempts to fetch the result fail.\<close>

lemma step_no_result:
  "k < 2 \<Longrightarrow> gateway_step trial_cfg sha (s_streaming 2 [AwaitResult i e k]) (s_streaming 2 [SleepResult i e k])"
  "gateway_step trial_cfg sha (s_streaming 2 [AwaitResult ''task_1'' e 2]) (s_streaming 2 [])"
  "k < 2 \<Longrightarrow> gateway_step trial_cfg sha (s_streaming 2 [SleepResult ''task_1'' e k]) (s_streaming 2 [AwaitResult ''task_1'' e (k + 1)])"
proof -
  show "gateway_step trial_cfg sha (s_streaming 2 [AwaitResult i e k]) (s_streaming 2 [SleepResult i e k])" if "k < 2"
    using gateway_step.result [of i e k "s_streaming 2 [AwaitResult i e k]" trial_cfg sha trial_ts None] that
    by (simp add: result_answered_def REMOTE_RESULT_ATTEMPTS_def trial_run_defs)
  show "gateway_step trial_cfg sha (s_streaming 2 [AwaitResult ''task_1'' e 2]) (s_streaming 2 [])"
    using gateway_step.result [of "''task_1''" e 2 "s_streaming 2 [AwaitResult ''task_1'' e 2]" trial_cfg sha trial_ts None]
    by (simp add: result_answered_def result_loop_def REMOTE_RESULT_ATTEMPTS_def trial_run_defs trial_fields)
  show "gateway_step trial_cfg sha (s_streaming 2 [SleepResult ''task_1'' e k]) (s_streaming 2 [AwaitResult ''task_1'' e (k + 1)])" if "k < 2"
    using gateway_step.result_timer [of "''task_1''" e k "s_streaming 2 [SleepResult ''task_1'' e k]" trial_cfg sha trial_ts] that
    by (simp add: result_loop_def REMOTE_RESULT_ATTEMPTS_def trial_run_defs trial_fields)
qed

lemma step_ask: "gateway_step trial_cfg sha (s_streaming 2 []) (s_streaming 2 [AwaitGet 2 ''task_1''])"
  using gateway_step.get [of "s_streaming 2 []" trial_cfg sha 2 "''task_1''" None]
  by (simp add: handleGet_def final_projection_def trial_run_defs trial_fields)

lemma step_seen: "gateway_step trial_cfg sha (s_streaming 2 [AwaitGet 2 ''task_1'']) s_seen"
proof -
  have "get_answered trial_cfg sha trial_ts trial_ts 2 ''task_1'' (Inr (trial_record RsCompleted)) (resumed (AwaitGet 2 ''task_1'') (s_streaming 2 [AwaitGet 2 ''task_1''])) = s_seen"
    by (simp add: get_answered_def reconcileRemoteRecord_def terminal_status_def TERMINAL_TASK_STATUSES_def trial_run_id synthEvent_def next_event_def finishRemoteWithResult_def result_loop_def
        REMOTE_RESULT_ATTEMPTS_def trial_run_defs trial_fields trial_limits nonempty_def show_record_def stored_row_def answer_with_def
        s_seen_def trial_late_def trial_event_def trial_bound_def empty_store_def)
  then show ?thesis using gateway_step.get_answer [of 2 "''task_1''" "s_streaming 2 [AwaitGet 2 ''task_1'']" trial_cfg sha trial_ts trial_ts "Inr (trial_record RsCompleted)"]
    by (simp add: trial_run_defs)
qed

text \<open>The transaction of the terminal event fails: the sequence number 1 was given to the event that was never stored.\<close>

lemma trial_lost:
  "terminalizeTaskWithResultDurable trial_ts ''task_1'' 2 (terminal_update TeCompleted None) (toEventInput trial_late) ''missing'' None trial_bound = Inl EventGap"
  by (simp add: terminalizeTaskWithResultDurable_def opened_def need_def sel_def trial_bound_def trial_row_def empty_store_def ensure_result_def
      writeResultRow_def writable_result_def finish_task_def terminal_update_def terminalStatusFor_def isTerminalTaskStatus_def TASK_TERMINAL_STATUSES_def
      updateTaskSync_def task_patch_error_def or_else_def terminal_patch_def update_task_def apply_task_patch_def upd_def patched_def encodeOpt_def
      appendTaskEventSync_def toEventInput_def trial_late_def trial_event_def trial_texts null_if_undef_def trial_encoded)

lemma trial_late_type: "ev_type trial_late = TeCompleted"
  by (simp add: trial_late_def trial_event_def)

lemma step_ended: "gateway_step trial_cfg sha s_seen s_ended"
proof -
  have "result_answered trial_cfg sha trial_ts ''task_1'' trial_late 0 (Some (''missing'', None)) (resumed (AwaitResult ''task_1'' trial_late 0) s_seen) = s_ended"
    by (simp add: result_answered_def finishWithTerminal_def terminalize_def gateway_terminal_result_def trial_lost trial_late_type trial_limits s_seen_def s_ended_def
        trial_run_defs trial_fields Let_def finishTask_def pushEvent_def publish_in_def shift_to_def end_streams_def evictIfNeeded_def trial_ended_def)
      (simp add: trial_live_def trial_task_def new_gateway_task_def)
  then show ?thesis using gateway_step.result [of "''task_1''" trial_late 0 s_seen trial_cfg sha trial_ts "Some (''missing'', None)"]
    by (simp add: s_seen_def s_with_def)
qed

section \<open>The run\<close>

lemma reaches_steps: "(gateway_step cfg sha)\<^sup>*\<^sup>* g g' \<Longrightarrow> gateway_reaches cfg sha s g \<Longrightarrow> gateway_reaches cfg sha s g'"
  by (induction rule: rtranclp_induct) (auto intro: gateway_reaches.step)

lemma trial_reaches: "gateway_reaches trial_cfg sha empty_store s_running"
proof -
  have "startAgentGateway trial_cfg sha undefined undefined empty_store = empty_gateway empty_store"
    by (simp add: startAgentGateway_def listNonTerminalTasks_def empty_store_def)
  then have "gateway_reaches trial_cfg sha empty_store (empty_gateway empty_store)" by (metis gateway_reaches.start)
  then show ?thesis by (meson gateway_reaches.step step_create step_nodes step_start)
qed

lemma trial_fresh: "fresh_response 1 s_running" "\<not> gw_closing s_running" "task_named s_running ''task_1'' = Some trial_live"
  by (simp_all add: trial_run_defs fresh_response_def trial_fields)

lemma step_open: "gateway_step trial_cfg sha s_running (s_streaming 1 [])"
  using gateway_step.events [OF trial_fresh(2,1)] trial_opened by metis

lemma trial_retry: "k < 2 \<Longrightarrow> (gateway_step trial_cfg sha)\<^sup>*\<^sup>* (s_streaming 2 [AwaitResult ''task_1'' e k]) (s_streaming 2 [AwaitResult ''task_1'' e (k + 1)])"
  by (rule converse_rtranclp_into_rtranclp [of "gateway_step trial_cfg sha", OF step_no_result(1) r_into_rtranclp [of "gateway_step trial_cfg sha", OF step_no_result(3)]])

lemma trial_steps: "(gateway_step trial_cfg sha)\<^sup>*\<^sup>* (s_streaming 1 []) s_ended"
proof -
  let ?S = "gateway_step trial_cfg sha" let ?A = "\<lambda>k. s_streaming 2 [AwaitResult ''task_1'' trial_end k]"
  have a: "?S\<^sup>*\<^sup>* (?A 0) (?A 1)" using trial_retry [of 0 sha trial_end] by (simp only: add_0 zero_less_numeral True_implies_equals)
  have b: "?S\<^sup>*\<^sup>* (?A 1) (?A 2)" using trial_retry [of 1 sha trial_end] by (simp only: one_add_one one_less_numeral_iff semiring_norm True_implies_equals)
  note more = converse_rtranclp_into_rtranclp [of ?S]
  have c: "?S\<^sup>*\<^sup>* (?A 2) s_ended"
    by (rule more [OF step_no_result(2)], rule more [OF step_ask], rule more [OF step_seen], rule r_into_rtranclp [of ?S, OF step_ended])
  show ?thesis by (rule more [OF step_done rtranclp_trans [OF a rtranclp_trans [OF b c]]])
qed

lemma trial_ends: "gateway_reaches trial_cfg sha empty_store s_ended"
  by (rule reaches_steps [OF trial_steps gateway_reaches.step [OF trial_reaches step_open]])

end
