(* ===== verification/TaskContractFacts.thy ===== *)
theory TaskContractFacts
  imports TaskContract
begin

text \<open>
  What a validated creation request guarantees, that the printed form of a request validates to
  it again, and when two requests have the same fingerprint.
\<close>

section \<open>Canonical objects\<close>

lemma update_new: "k \<notin> fst ` set xs \<Longrightarrow> AList.update k v xs = xs @ [(k, v)]"
  by (induction xs) auto

lemma foldl_update_distinct:
  "distinct (map fst (ys @ xs)) \<Longrightarrow> foldl (\<lambda>acc kv. AList.update (fst kv) (snd kv) acc) ys xs = ys @ xs"
  by (induction xs arbitrary: ys) (auto simp: update_new image_iff)

lemma own_properties_distinct:
  "distinct (map fst xs) \<Longrightarrow> own_properties xs =
    sort_key (\<lambda>kv. digits_value (fst kv)) (filter (\<lambda>kv. array_index (fst kv)) xs) @ filter (\<lambda>kv. \<not> array_index (fst kv)) xs"
  using foldl_update_distinct [of "[]" xs] by (simp add: own_properties_def Let_def)

lemma set_own_properties: "distinct (map fst xs) \<Longrightarrow> set (own_properties xs) = set xs"
  by (auto simp: own_properties_distinct)

lemma distinct_own_properties: "distinct (map fst xs) \<Longrightarrow> distinct (map fst (own_properties xs))"
  by (auto simp: own_properties_distinct distinct_map inj_on_def)

lemma own_properties_idem: "distinct (map fst xs) \<Longrightarrow> own_properties (own_properties xs) = own_properties xs"
proof -
  assume d: "distinct (map fst xs)"
  let ?a = "sort_key (\<lambda>kv. digits_value (fst kv)) (filter (\<lambda>kv. array_index (fst kv)) xs)"
  have "filter (\<lambda>kv. array_index (fst kv)) ?a = ?a" by (auto simp: filter_id_conv)
  moreover have "filter (\<lambda>kv. \<not> array_index (fst kv)) ?a = []" by (auto simp: filter_empty_conv)
  ultimately show ?thesis
    using d own_properties_distinct [OF d] own_properties_distinct [OF distinct_own_properties [OF d]]
    by (simp add: sort_key_id_if_sorted)
qed

lemma sort_key_set_eq:
  assumes "distinct (map fst xs)" and "distinct (map fst ys)" and "set xs = set ys"
  shows "sort_key (fst :: string \<times> 'a \<Rightarrow> string) xs = sort_key fst ys"
  by (rule map_sorted_distinct_set_unique [where f = fst]) (use assms in \<open>auto simp: distinct_map inj_on_def\<close>)

section \<open>Values that differ in the order of keys only\<close>

inductive json_same :: "jsval \<Rightarrow> jsval \<Rightarrow> bool" where
  atom: "\<not> isArr v \<Longrightarrow> \<not> isObj v \<Longrightarrow> json_same v v"
| array: "list_all2 json_same xs ys \<Longrightarrow> json_same (JArr xs) (JArr ys)"
| object: "(\<And>k. k \<noteq> ''__proto__'' \<Longrightarrow> rel_option json_same (map_of xs k) (map_of ys k)) \<Longrightarrow> json_same (JObj xs) (JObj ys)"

abbreviation canonical_members :: "(string \<times> jsval) list \<Rightarrow> (string \<times> jsval) list" where
  "canonical_members kvs \<equiv> filter (\<lambda>kv. fst kv \<noteq> ''__proto__'') (map (\<lambda>kv. (fst kv, canonicalize (snd kv))) kvs)"

lemma map_of_canonical_members:
  "map_of (canonical_members kvs) k = (if k = ''__proto__'' then None else map_option canonicalize (map_of kvs k))"
  by (induction kvs) auto

lemma distinct_canonical_members: "distinct (map fst kvs) \<Longrightarrow> distinct (map fst (canonical_members kvs))"
  by (induction kvs) (auto simp: image_iff)

lemma distinct_sort_fst: "distinct (map fst xs) \<Longrightarrow> distinct (map fst (sort_key fst xs))"
  by (auto simp: distinct_map inj_on_def)

lemma canonicalize_object_eq:
  assumes "distinct (map fst xs)" and "distinct (map fst ys)"
  shows "canonicalize (JObj xs) = canonicalize (JObj ys) \<longleftrightarrow>
    (\<forall>k. k \<noteq> ''__proto__'' \<longrightarrow> map_option canonicalize (map_of xs k) = map_option canonicalize (map_of ys k))"
proof -
  note d = distinct_canonical_members [OF assms(1)] distinct_canonical_members [OF assms(2)]
  have "canonicalize (JObj xs) = canonicalize (JObj ys) \<longleftrightarrow> set (canonical_members xs) = set (canonical_members ys)"
  proof
    assume "canonicalize (JObj xs) = canonicalize (JObj ys)"
    then have "set (own_properties (sort_key fst (canonical_members xs))) = set (own_properties (sort_key fst (canonical_members ys)))" by simp
    then show "set (canonical_members xs) = set (canonical_members ys)"
      by (simp only: set_own_properties [OF distinct_sort_fst [OF d(1)]] set_own_properties [OF distinct_sort_fst [OF d(2)]] set_sort)
  qed (use sort_key_set_eq [OF d] in simp)
  also have "\<dots> \<longleftrightarrow> map_of (canonical_members xs) = map_of (canonical_members ys)"
    by (rule map_of_inject_set [OF d, symmetric])
  also have "\<dots> \<longleftrightarrow> (\<forall>k. k \<noteq> ''__proto__'' \<longrightarrow> map_option canonicalize (map_of xs k) = map_option canonicalize (map_of ys k))"
    unfolding fun_eq_iff map_of_canonical_members by auto
  finally show ?thesis .
qed

lemma distinct_foldl_update:
  "distinct (map fst ys) \<Longrightarrow> distinct (map fst (foldl (\<lambda>acc kv. AList.update (fst kv) (snd kv) acc) ys xs))"
  by (induction xs arbitrary: ys) (auto simp: distinct_update)

lemma json_ok_distinct: "json_ok (JObj kvs) \<Longrightarrow> distinct (map fst kvs)"
proof -
  assume "json_ok (JObj kvs)"
  moreover have "distinct (map fst (own_properties kvs))"
    using distinct_foldl_update [of "[]" kvs] by (auto simp: own_properties_def Let_def distinct_map inj_on_def)
  ultimately show ?thesis by simp
qed

lemma json_ok_member: "json_ok (JObj kvs) \<Longrightarrow> map_of kvs k = Some v \<Longrightarrow> json_ok v"
  by (auto simp: list_all_iff dest!: map_of_SomeD)

inductive_cases json_same_arrE [elim!]: "json_same (JArr xs) w"
inductive_cases json_same_objE [elim!]: "json_same (JObj xs) w"

lemma canonicalize_atom: "\<not> isArr v \<Longrightarrow> \<not> isObj v \<Longrightarrow> canonicalize v = w \<longleftrightarrow> w = v"
  by (cases v) auto

lemma json_same_atom: "\<not> isArr v \<Longrightarrow> \<not> isObj v \<Longrightarrow> json_same v w \<longleftrightarrow> w = v"
  by (cases v) (auto intro: json_same.intros elim: json_same.cases)

lemma canonicalize_kind: "isArr (canonicalize v) = isArr v" "isObj (canonicalize v) = isObj v"
  by (cases v; simp)+

lemma canonicalize_eq_iff: "json_ok v \<Longrightarrow> json_ok w \<Longrightarrow> canonicalize v = canonicalize w \<longleftrightarrow> json_same v w"
proof (induction v arbitrary: w rule: canonicalize.induct)
  case (1 xs)
  show ?case
  proof (cases w)
    case (JArr ys)
    have "canonicalize (xs ! i) = canonicalize (ys ! i) \<longleftrightarrow> json_same (xs ! i) (ys ! i)" if "i < length xs" "length xs = length ys" for i
      using 1 that JArr by (auto simp: list_all_length)
    then show ?thesis using JArr by (auto simp: list_eq_iff_nth_eq list_all2_conv_all_nth intro!: json_same.array)
  qed auto
next
  case (2 kvs)
  show ?case
  proof (cases w)
    case (JObj ys)
    note d = json_ok_distinct [OF 2(2)] json_ok_distinct [OF 2(3) [unfolded JObj]]
    have "map_option canonicalize (map_of kvs k) = map_option canonicalize (map_of ys k) \<longleftrightarrow>
      rel_option json_same (map_of kvs k) (map_of ys k)" for k
    proof (cases "map_of kvs k"; cases "map_of ys k")
      fix v v' assume "map_of kvs k = Some v" and "map_of ys k = Some v'"
      moreover from this have "canonicalize v = canonicalize v' \<longleftrightarrow> json_same v v'"
        using 2 JObj by (metis json_ok_member map_of_SomeD snd_conv)
      ultimately show ?thesis by simp
    qed auto
    then show ?thesis using JObj unfolding JObj canonicalize_object_eq [OF d] by (auto intro!: json_same.object)
  qed auto
qed (use canonicalize_kind canonicalize_atom json_same_atom in \<open>metis isArr.simps isObj.simps\<close>)+

lemma json_ok_canonicalize: "json_ok v \<Longrightarrow> json_ok (canonicalize v)"
proof (induction v rule: canonicalize.induct)
  case (2 kvs)
  have d: "distinct (map fst (sort_key fst (canonical_members kvs)))"
    by (rule distinct_sort_fst [OF distinct_canonical_members [OF json_ok_distinct [OF 2(2)]]])
  have "json_ok (snd kv)" if "kv \<in> set (own_properties (sort_key fst (canonical_members kvs)))" for kv
    using that 2 unfolding set_own_properties [OF d] by (auto simp: list_all_iff)
  then show ?case using own_properties_idem [OF d] by (auto simp: list_all_iff)
qed (auto simp: list_all_iff)

lemma json_text_inj: "json_ok v \<Longrightarrow> json_ok w \<Longrightarrow> json_text v = json_text w \<longleftrightarrow> v = w"
  using json_parse_stringify by (metis option.inject)

section \<open>Fingerprints\<close>

definition metadata_ok :: "create_request \<Rightarrow> bool" where
  "metadata_ok r = (case cr_metadata r of None \<Rightarrow> True | Some m \<Rightarrow> isObj m \<and> json_ok m)"

lemma null_or_json: "(\<And>x. y = Some x \<Longrightarrow> json_ok (f x)) \<Longrightarrow> json_ok (null_or f y)"
  by (cases y) (auto simp: null_or_def)

lemma mode_text_inj [simp]: "mode_text a = mode_text b \<longleftrightarrow> a = b"
  by (cases a; cases b) auto

definition semantic_keys :: "string list" where
  "semantic_keys = [''agent'', ''node_id'', ''input_text'', ''workspace_key'', ''workspace_path'', ''permission_mode'', ''workspace_write'',
     ''workspace_lease_id'', ''metadata'']"

lemma semantic_members: "semantic_request r = JObj kvs \<Longrightarrow> map fst kvs = semantic_keys"
  by (auto simp: semantic_request_def semantic_keys_def)

lemma semantic_ok: "metadata_ok r \<Longrightarrow> json_ok (semantic_request r)"
proof -
  assume m: "metadata_ok r"
  obtain kvs where kvs: "semantic_request r = JObj kvs" by (simp add: semantic_request_def)
  have d: "distinct semantic_keys" and na: "list_all (\<lambda>k. \<not> array_index k) semantic_keys" by code_simp+
  have "\<forall>kv\<in>set kvs. \<not> array_index (fst kv)"
    using na semantic_members [OF kvs] unfolding list_all_iff by (metis image_eqI set_map)
  then have "filter (\<lambda>kv. array_index (fst kv)) kvs = []" and "filter (\<lambda>kv. \<not> array_index (fst kv)) kvs = kvs"
    by (simp_all add: filter_id_conv filter_empty_conv)
  moreover have "distinct (map fst kvs)" using d semantic_members [OF kvs] by simp
  ultimately have "own_properties kvs = kvs" by (simp add: own_properties_distinct)
  moreover have "list_all (\<lambda>kv. json_ok (snd kv)) kvs"
    using m kvs by (auto simp: semantic_request_def metadata_ok_def null_or_def split: option.splits)
  ultimately show ?thesis by (simp add: kvs)
qed

definition same_request :: "create_request \<Rightarrow> create_request \<Rightarrow> bool" where
  "same_request r r' \<longleftrightarrow> cr_agent r = cr_agent r' \<and> cr_node_id r = cr_node_id r' \<and> cr_text r = cr_text r' \<and>
     cr_workspace_key r = cr_workspace_key r' \<and> cr_path r = cr_path r' \<and> cr_permission_mode r = cr_permission_mode r' \<and>
     cr_workspace_write r = cr_workspace_write r' \<and> cr_workspace_lease_id r = cr_workspace_lease_id r' \<and>
     rel_option json_same (cr_metadata r) (cr_metadata r')"

lemma json_same_null_or:
  "(\<And>x. f x \<noteq> JNull \<and> JNull \<noteq> f x \<and> \<not> isArr (f x) \<and> \<not> isObj (f x)) \<Longrightarrow> inj f \<Longrightarrow> json_same (null_or f x) (null_or f y) \<longleftrightarrow> x = y"
  by (cases x; cases y) (auto simp: null_or_def json_same_atom inj_def)

lemma json_same_metadata:
  "metadata_ok r \<Longrightarrow> metadata_ok r' \<Longrightarrow>
    json_same (null_or id (cr_metadata r)) (null_or id (cr_metadata r')) \<longleftrightarrow> rel_option json_same (cr_metadata r) (cr_metadata r')"
  by (auto simp: null_or_def metadata_ok_def json_same_atom isObj_iff split: option.splits)

lemma json_same_semantic:
  assumes "metadata_ok r" and "metadata_ok r'"
  shows "json_same (semantic_request r) (semantic_request r') \<longleftrightarrow> same_request r r'"
proof
  assume "json_same (semantic_request r) (semantic_request r')"
  then have rel: "rel_option json_same (map_of (entries (semantic_request r)) k) (map_of (entries (semantic_request r')) k)"
    if "k \<in> set semantic_keys" for k
  proof (cases rule: json_same.cases)
    case (object xs ys)
    have "''__proto__'' \<notin> set semantic_keys" by code_simp
    then have "k \<noteq> ''__proto__''" using that by blast
    from object(3) [OF this] show ?thesis by (simp only: object(1,2) entries.simps)
  qed (simp_all add: semantic_request_def)
  show "same_request r r'"
    using rel [of "''agent''"] rel [of "''node_id''"] rel [of "''input_text''"] rel [of "''workspace_key''"] rel [of "''workspace_path''"]
      rel [of "''permission_mode''"] rel [of "''workspace_write''"] rel [of "''workspace_lease_id''"] rel [of "''metadata''"]
    by (simp add: same_request_def semantic_request_def semantic_keys_def json_same_atom json_same_null_or inj_def json_same_metadata [OF assms])
next
  assume "same_request r r'"
  then show "json_same (semantic_request r) (semantic_request r')"
    using json_same_metadata [OF assms]
    by (auto simp: same_request_def semantic_request_def json_same_atom json_same_null_or inj_def intro!: json_same.object)
qed

lemma fingerprint_text_iff:
  assumes "metadata_ok r" and "metadata_ok r'"
  shows "fingerprint_text r = fingerprint_text r' \<longleftrightarrow> same_request r r'"
  using json_text_inj [OF json_ok_canonicalize [OF semantic_ok [OF assms(1)]] json_ok_canonicalize [OF semantic_ok [OF assms(2)]]]
    canonicalize_eq_iff [OF semantic_ok [OF assms(1)] semantic_ok [OF assms(2)]] json_same_semantic [OF assms]
  by (simp add: fingerprint_text_def)

section \<open>Validated requests\<close>

definition path_valid :: "create_request \<Rightarrow> string \<Rightarrow> bool" where
  "path_valid r p \<longleftrightarrow> starts_with p ''/'' \<and> length p \<le> CWD_PATH_MAX \<and> \<not> CWD_CONTROL_RE p \<and>
     cr_workspace_key r = None \<and> cr_workspace_write r \<noteq> Some True \<and> cr_workspace_lease_id r = None"

definition request_valid :: "create_request \<Rightarrow> bool" where
  "request_valid r \<longleftrightarrow> trim (cr_agent r) \<noteq> [] \<and> trim (cr_text r) \<noteq> [] \<and>
     pred_option TASK_WORKSPACE_KEY_RE (cr_workspace_key r) \<and> pred_option (path_valid r) (cr_path r) \<and>
     pred_option isObj (cr_metadata r) \<and> pred_option IDEMPOTENCY_KEY_RE (cr_idempotency_key r) \<and>
     pred_option IDEMPOTENCY_KEY_RE (cr_workspace_lease_id r) \<and> pred_option (\<lambda>p. p \<in> set VERIFIER_PROFILE_IDS) (cr_verify r)"

lemma opt_str_Some [simp]: "opt_str v = Some x \<longleftrightarrow> v = JStr x"
  by (auto simp: opt_str_def isStr_iff)

lemma opt_str_None: "opt_str v = None \<longleftrightarrow> \<not> isStr v"
  by (auto simp: opt_str_def)

lemma opt_bool_Some [simp]: "opt_bool v = Some b \<longleftrightarrow> v = JBool b"
  by (auto simp: opt_bool_def split: jsval.splits)

lemma check_workspace_path:
  assumes "check_workspace b = None" and "fld (fld b ''workspace'') ''path'' = JStr p"
  shows "check_path b (fld b ''workspace'') = None"
  using assms by (auto simp: check_workspace_def Let_def split: if_splits)

lemma check_path_valid:
  assumes "check_path b (fld b ''workspace'') = None" and "fld (fld b ''workspace'') ''path'' = JStr p"
  shows "path_valid (request_of b) p"
  using assms by (auto simp: check_path_def path_valid_def request_of_def Let_def opt_str_None split: if_splits)

lemma check_request_valid: "check_request b = None \<Longrightarrow> request_valid (request_of b)"
proof -
  assume c: "check_request b = None"
  then have w: "check_workspace b = None" by (auto simp: check_request_def split: if_splits option.splits)
  then have key: "pred_option TASK_WORKSPACE_KEY_RE (cr_workspace_key (request_of b))"
    by (auto simp: pred_option_def request_of_def check_workspace_def Let_def split: if_splits)
  have path: "pred_option (path_valid (request_of b)) (cr_path (request_of b))"
    using check_path_valid [OF check_workspace_path [OF w]] check_workspace_path [OF w] by (auto simp: pred_option_def request_of_def)
  have "pred_option (\<lambda>p. p \<in> set VERIFIER_PROFILE_IDS) (cr_verify (request_of b))"
    using c validateTaskVerifyConfig_Inr
    by (fastforce simp: pred_option_def request_of_def check_request_def check_verify_def split: if_splits option.splits sum.splits)
  then show ?thesis using c key path
    by (auto simp: request_valid_def pred_option_def request_of_def check_request_def bad_key_def split: if_splits option.splits)
qed

text \<open>A request as a client prints it.\<close>

definition opt_field :: "string \<Rightarrow> ('a \<Rightarrow> jsval) \<Rightarrow> 'a option \<Rightarrow> (string \<times> jsval) list" where
  "opt_field k f x = (case x of None \<Rightarrow> [] | Some y \<Rightarrow> [(k, f y)])"

definition request_json :: "create_request \<Rightarrow> jsval" where
  "request_json r = JObj ([(''agent'', JStr (cr_agent r))] @ opt_field ''node_id'' JStr (cr_node_id r) @
     [(''input'', JObj [(''text'', JStr (cr_text r))]),
      (''workspace'', JObj (opt_field ''workspace_key'' JStr (cr_workspace_key r) @ opt_field ''path'' JStr (cr_path r))),
      (''execution'', JObj (opt_field ''permission_mode'' (\<lambda>m. JStr (mode_text m)) (cr_permission_mode r) @
         opt_field ''workspace_write'' JBool (cr_workspace_write r)))] @
     opt_field ''metadata'' id (cr_metadata r) @ opt_field ''idempotency_key'' JStr (cr_idempotency_key r) @
     opt_field ''workspace_lease_id'' JStr (cr_workspace_lease_id r) @
     opt_field ''verify'' (\<lambda>p. JObj [(''profile'', JStr p)]) (cr_verify r))"

definition undef_or :: "('a \<Rightarrow> jsval) \<Rightarrow> 'a option \<Rightarrow> jsval" where
  "undef_or f x = (case x of None \<Rightarrow> JUndef | Some y \<Rightarrow> f y)"

lemma undef_or_simps [simp]: "undef_or f None = JUndef" "undef_or f (Some y) = f y"
  by (simp_all add: undef_or_def)

lemma fld_JObj_append: "fld (JObj (xs @ ys)) k = (case map_of xs k of None \<Rightarrow> fld (JObj ys) k | Some v \<Rightarrow> v)"
  by (simp add: fld_def map_add_def split: option.splits)

lemma map_of_opt_field [simp]: "map_of (opt_field k f x) k' = (if k = k' then map_option f x else None)"
  by (auto simp: opt_field_def split: option.splits)

lemma fld_opt_field: "fld (JObj (opt_field k f x)) k' = (if k = k' then undef_or f x else JUndef)"
  by (auto simp: fld_def undef_or_def split: option.splits)

lemma case_map_option: "(case map_option f x of None \<Rightarrow> JUndef | Some v \<Rightarrow> v) = undef_or f x"
  by (cases x) simp_all

lemma fld_JObj_single: "fld (JObj [(k, v)]) k' = (if k = k' then v else JUndef)"
  by (simp add: fld_def)

lemma request_json_fields:
  "fld (request_json r) ''agent'' = JStr (cr_agent r)"
  "fld (request_json r) ''node_id'' = undef_or JStr (cr_node_id r)"
  "fld (request_json r) ''input'' = JObj [(''text'', JStr (cr_text r))]"
  "fld (request_json r) ''workspace'' = JObj (opt_field ''workspace_key'' JStr (cr_workspace_key r) @ opt_field ''path'' JStr (cr_path r))"
  "fld (request_json r) ''execution'' = JObj (opt_field ''permission_mode'' (\<lambda>m. JStr (mode_text m)) (cr_permission_mode r) @
     opt_field ''workspace_write'' JBool (cr_workspace_write r))"
  "fld (request_json r) ''metadata'' = undef_or id (cr_metadata r)"
  "fld (request_json r) ''idempotency_key'' = undef_or JStr (cr_idempotency_key r)"
  "fld (request_json r) ''workspace_lease_id'' = undef_or JStr (cr_workspace_lease_id r)"
  "fld (request_json r) ''verify'' = undef_or (\<lambda>p. JObj [(''profile'', JStr p)]) (cr_verify r)"
  by (simp_all add: request_json_def fld_def map_add_def undef_or_def split: option.splits)

lemma execution_fields:
  "fld (fld (request_json r) ''execution'') ''permission_mode'' = undef_or (\<lambda>m. JStr (mode_text m)) (cr_permission_mode r)"
  "fld (fld (request_json r) ''execution'') ''workspace_write'' = undef_or JBool (cr_workspace_write r)"
  "fld (fld (request_json r) ''execution'') ''timeout_seconds'' = JUndef"
  "fld (fld (request_json r) ''workspace'') ''workspace_key'' = undef_or JStr (cr_workspace_key r)"
  "fld (fld (request_json r) ''workspace'') ''path'' = undef_or JStr (cr_path r)"
  "fld (fld (request_json r) ''workspace'') ''repo_url'' = JUndef"
  "fld (fld (request_json r) ''workspace'') ''branch'' = JUndef"
  unfolding request_json_fields by (simp_all add: fld_def map_add_def undef_or_def split: option.splits)

lemma nested_objects: "isObj (fld (request_json r) ''execution'')" "isObj (fld (request_json r) ''workspace'')"
  by (simp_all add: request_json_fields)

lemmas request_fields = request_json_fields(1-3,6-9) execution_fields

lemma opt_atoms [simp]: "opt_str JUndef = None" "opt_str (JStr t) = Some t" "opt_bool JUndef = None" "opt_mode JUndef = None"
  by (simp_all add: opt_str_def opt_bool_def opt_mode_def)

lemma opt_mode_text [simp]: "opt_mode (JStr (mode_text m)) = Some m"
  by (cases m) (simp_all add: opt_mode_def)

lemma opt_undef [simp]:
  "opt_str (undef_or JStr x) = x" "opt_bool (undef_or JBool b) = b" "opt_mode (undef_or (\<lambda>m. JStr (mode_text m)) y) = y"
  by (auto simp: undef_or_def opt_bool_def split: option.splits)

lemma request_of_json: "pred_option isObj (cr_metadata r) \<Longrightarrow> request_of (request_json r) = r"
  by (cases "cr_metadata r"; cases "cr_verify r") (auto simp: request_of_def request_fields fld_JObj_single)

lemma mode_text_cases: "mode_text m \<noteq> ''unsafe-skip'' \<Longrightarrow> mode_text m = ''default''"
  by (cases m) simp_all

lemma check_execution_json: "check_execution (fld (request_json r) ''execution'') = None"
  by (cases "cr_permission_mode r"; cases "cr_workspace_write r")
    (auto simp: check_execution_def execution_fields nested_objects DEFERRED_EXECUTION_FIELDS_def mode_text_cases)

lemma check_path_json: "pred_option (path_valid r) (cr_path r) \<Longrightarrow> check_path (request_json r) (fld (request_json r) ''workspace'') = None"
  by (cases "cr_path r"; cases "cr_workspace_write r")
    (auto simp: check_path_def Let_def request_fields path_valid_def starts_with_def)

lemma check_workspace_json: "request_valid r \<Longrightarrow> check_workspace (request_json r) = None"
  by (cases "cr_workspace_key r")
    (auto simp: check_workspace_def Let_def execution_fields check_path_json request_valid_def DEFERRED_WORKSPACE_FIELDS_def nested_objects)

lemma check_verify_json: "pred_option (\<lambda>p. p \<in> set VERIFIER_PROFILE_IDS) (cr_verify r) \<Longrightarrow> check_verify (fld (request_json r) ''verify'') = None"
proof (cases "cr_verify r")
  case (Some p)
  assume "pred_option (\<lambda>p. p \<in> set VERIFIER_PROFILE_IDS) (cr_verify r)"
  then have "p \<in> set VERIFIER_PROFILE_IDS" using Some by simp
  moreover have "list_all (\<lambda>p. isKnownVerifierProfile p \<and> PROFILE_ID p \<and> length p \<le> MAX_VERIFY_PROFILE_LEN) VERIFIER_PROFILE_IDS" by code_simp
  ultimately show ?thesis using Some
    by (auto simp: list_all_iff check_verify_def request_fields validateTaskVerifyConfig_def fld_JObj_single)
qed (simp add: check_verify_def request_fields)

lemma check_request_json:
  assumes "request_valid r"
  shows "check_request (request_json r) = None"
proof -
  have "isObj (request_json r)" by (simp add: request_json_def)
  then show ?thesis
    using assms check_execution_json check_workspace_json [OF assms] check_verify_json [of r]
    by (cases "cr_node_id r"; cases "cr_metadata r"; cases "cr_idempotency_key r"; cases "cr_workspace_lease_id r")
      (auto simp: check_request_def request_fields request_valid_def bad_key_def)
qed

lemma validated_iff: "(\<exists>b. validateCreateTaskRequest b = Inr r) \<longleftrightarrow> request_valid r"
proof
  assume "\<exists>b. validateCreateTaskRequest b = Inr r"
  then show "request_valid r" using check_request_valid by (auto simp: validateCreateTaskRequest_def split: option.splits)
next
  assume v: "request_valid r"
  then have "validateCreateTaskRequest (request_json r) = Inr r"
    using request_of_json check_request_json [OF v] by (simp add: validateCreateTaskRequest_def request_valid_def)
  then show "\<exists>b. validateCreateTaskRequest b = Inr r" by blast
qed

end
