(* ===== verification/GatewayProperties.thy ===== *)
theory GatewayProperties
  imports GatewayExample TaskContractFacts
begin

text \<open>
  The properties of the task gateway: its capacity, its one terminal event per task, the storage of what it
  publishes and what the client of an event stream receives, in every state it reaches from an empty store through requests,
  failures, crashes and restarts.
\<close>

section \<open>The invariant over an empty store\<close>

lemma settled_empty: "tables_settled empty_store"
  by (simp add: tables_settled_def empty_store_def)

lemma reached_ok: "gateway_reaches cfg sha empty_store g \<Longrightarrow> gateway_ok cfg g"
  by (rule reaches_ok [OF _ task_inv_empty settled_empty])

text \<open>A registered task is not finished, or it is one of the retained ones.\<close>

lemma registered_bound:
  assumes "ids_ok g" and "retained_ok cfg g"
  shows "length (filter g_registered (gw_tasks g)) \<le> length (filter (\<lambda>t. \<not> g_terminal t) (gw_tasks g)) + gc_maxRetained cfg"
proof -
  have parts: "length (filter g_registered ts) \<le> length (filter (\<lambda>t. \<not> g_terminal t) ts) + length (filter (\<lambda>t. g_registered t \<and> g_terminal t) ts)" for ts
    by (induction ts) auto
  let ?done = "filter (\<lambda>t. g_registered t \<and> g_terminal t) (gw_tasks g)"
  have "distinct (map g_id (gw_tasks g))" using assms(1) by (simp add: ids_ok_def)
  then have "distinct (map g_id ?done)" by (rule distinct_map_filter)
  moreover have "set (map g_id ?done) \<subseteq> set (gw_completed g)" using assms(2) by (auto simp: retained_ok_def)
  ultimately have "length ?done \<le> length (gw_completed g)"
    using card_mono [of "set (gw_completed g)" "set (map g_id ?done)"] assms(2) by (simp only: distinct_card retained_ok_def length_map finite_set)
  moreover have "length (gw_completed g) \<le> gc_maxRetained cfg" using assms(2) by (simp add: retained_ok_def)
  ultimately have "length ?done \<le> gc_maxRetained cfg" by linarith
  then show ?thesis using parts [of "gw_tasks g"] by linarith
qed

section \<open>Requests\<close>

text \<open>The validator accepts exactly the well-formed requests: what it returns has an agent and a text, keys of the documented form,
  a path only where no workspace key, write access or lease is asked for, and a known verifier profile; and every such request is what it
  returns for some body.\<close>

theorem accepted_requests_are_exact: "(\<exists>b. validateCreateTaskRequest b = Inr r) \<longleftrightarrow> request_valid r"
  by (rule validated_iff)



section \<open>Capacity\<close>

text \<open>C18: the gateway counts its slots right: the active count is the number of unfinished tasks, every creation that awaits something
  holds a pending slot, both together never exceed the limit (or the number of tasks recovered at the start, if that is larger), and
  the registry never holds more than the active tasks and the configured number of finished ones.\<close>

theorem gateway_capacity:
  assumes "gateway_reaches cfg sha empty_store g"
  shows "gw_active g = int (length (filter (\<lambda>t. \<not> g_terminal t) (gw_tasks g))) \<and>
    int (length (filter creation (gw_waits g))) \<le> gw_pending g \<and>
    gw_active g + gw_pending g \<le> max (gc_maxActive cfg) (int (length (filter g_recovered (gw_tasks g)))) \<and>
    int (length (filter g_registered (gw_tasks g))) \<le> gw_active g + int (gc_maxRetained cfg)"
proof -
  have ok: "ids_ok g" "slots_ok cfg g" "retained_ok cfg g" using reached_ok [OF assms] by (simp_all add: gateway_ok_def)
  show ?thesis using ok(2) registered_bound [OF ok(1,3)] unfolding slots_ok_def by linarith
qed

theorem gateway_capacity_witness:
  "gateway_reaches trial_cfg id empty_store s_running \<and> gw_active s_running + gw_pending s_running \<le> max (gc_maxActive trial_cfg) 0"
  using gateway_capacity [OF trial_reaches [of id]] trial_reaches [of id]
  by (simp add: s_running_def s_with_def trial_live_def trial_task_def new_gateway_task_def)

section \<open>Events of a task\<close>

text \<open>C17: a task publishes exactly one terminal event, as its last one, if it is finished, and none before; a finished task has no open
  stream, and the replay buffer holds the last events of what was published.\<close>

theorem one_terminal_event:
  assumes "gateway_reaches cfg sha empty_store g" and "t \<in> set (gw_tasks g)"
  shows "length (filter (\<lambda>e. terminal_type (ev_type e)) (g_log t)) = (if g_terminal t then 1 else 0) \<and>
    (g_terminal t \<longrightarrow> terminal_type (ev_type (last (g_log t))) \<and> g_subs t = []) \<and>
    g_events t = drop (length (g_log t) - gc_maxEvents cfg) (g_log t)"
proof -
  have t: "task_ok cfg t" using reached_ok [OF assms(1)] assms(2) by (simp add: gateway_ok_def tasks_ok_def)
  have "filter (\<lambda>e. terminal_type (ev_type e)) es = []" if "open_log es" for es
    using that by (simp add: open_log_def filter_empty_conv)
  moreover have "\<exists>es e. g_log t = es @ [e] \<and> open_log es \<and> terminal_type (ev_type e)" if "g_terminal t"
    using t that unfolding task_ok_def by (metis append_butlast_last_id)
  ultimately show ?thesis using t by (auto simp: task_ok_def last_events_def split: if_splits)
qed

theorem one_terminal_event_witness:
  "gateway_reaches trial_cfg id empty_store s_ended \<and> trial_ended \<in> set (gw_tasks s_ended) \<and>
    length (filter (\<lambda>e. terminal_type (ev_type e)) (g_log trial_ended)) = 1"
proof -
  have "trial_ended \<in> set (gw_tasks s_ended)" "g_terminal trial_ended" by (simp_all add: s_ended_def trial_ended_def)
  then show ?thesis using one_terminal_event [OF trial_ends [of id]] trial_ends [of id] by simp
qed

text \<open>C16: with a store, whatever a client has seen of a task before its end is in the store: every published event that is not the
  terminal one has a row with its sequence number, type, time and payload.\<close>

theorem published_events_are_stored:
  assumes "gateway_reaches cfg sha empty_store g" and "gc_persist cfg" and "t \<in> set (gw_tasks g)" and "e \<in> set (g_log t)"
    and "\<not> terminal_type (ev_type e)"
  shows "\<exists>row\<in>set (ws_task_events (gw_store g)). te_task_id row = g_id t \<and> te_sequence row = ev_seq e \<and>
    te_type row = task_event_text (ev_type e) \<and> te_ts row = ev_ts e \<and>
    (encodeJson (null_if_undef (ev_payload e)) limit_task_event_payload = Inr (te_payload_json row) \<or>
     (\<exists>v. json_parse (te_payload_json row) = Some v \<and> ev_payload e = (if v = JNull then JObj [] else v)))"
proof -
  have "event_stored (gw_store g) (g_id t) e"
    using reached_ok [OF assms(1)] assms(2-5) by (auto simp: gateway_ok_def saved_ok_def event_saved_def)
  then show ?thesis by (simp add: event_stored_def row_shows_def)
qed

theorem published_events_are_stored_witness:
  "gateway_reaches trial_cfg id empty_store s_ended \<and> gc_persist trial_cfg \<and> trial_ended \<in> set (gw_tasks s_ended) \<and>
    trial_created \<in> set (g_log trial_ended) \<and> \<not> terminal_type (ev_type trial_created) \<and>
    (\<exists>row\<in>set (ws_task_events (gw_store s_ended)). te_task_id row = g_id trial_ended \<and> te_sequence row = ev_seq trial_created)"
proof -
  have "trial_ended \<in> set (gw_tasks s_ended)" "trial_created \<in> set (g_log trial_ended)" by (simp_all add: s_ended_def trial_ended_def)
  moreover have "\<not> terminal_type (ev_type trial_created)" by (simp add: trial_created_def trial_event_def terminal_type_def TERMINAL_EVENT_TYPES_def)
  ultimately show ?thesis using published_events_are_stored [OF trial_ends [of id] trial_limits(2)] trial_ends [of id] trial_limits(2) by blast
qed

section \<open>Recovery\<close>

definition task_ends :: "gateway \<Rightarrow> (string \<times> bool) list" where
  "task_ends g = map (\<lambda>t. (g_id t, g_terminal t)) (gw_tasks g)"

definition start_unknown :: "task_row \<Rightarrow> bool" where
  "start_unknown row \<longleftrightarrow> recovered_mode row = RemoteRun \<and> nonempty (tk_remote_run_id row) = None"

lemma ends_on_task: "(\<And>t. g_id (f t) = g_id t \<and> g_terminal (f t) = g_terminal t) \<Longrightarrow> task_ends (on_task i f g) = task_ends g"
  by (simp add: task_ends_def on_task_def)

lemma ends_push: "task_ends (pushEvent cfg i e g) = task_ends g" "gw_waits (pushEvent cfg i e g) = gw_waits g"
  by (simp_all add: task_ends_def pushEvent_def with_task_def on_task_def publish_in_def split: option.split)

lemma ends_terminalize: "task_ends (terminalize sha now lr err t e g) = task_ends g" "gw_waits (terminalize sha now lr err t e g) = gw_waits g"
  by (simp_all add: task_ends_def terminalize_def Let_def on_task_def split: sum.split)

lemma ends_finish:
  assumes "task_object g i = Some t" and "\<not> g_terminal t"
  shows "task_ends (finishTask cfg i g) = map (\<lambda>(j, d). (j, d \<or> j = i)) (task_ends g)" "gw_waits (finishTask cfg i g) = gw_waits g"
  using assms by (auto simp: task_ends_def finishTask_def with_task_def on_task_def evict_eq end_streams_def)

lemma object_ends: "(i, False) \<in> set (task_ends g) \<Longrightarrow> distinct (map fst (task_ends g)) \<Longrightarrow> \<exists>t. task_object g i = Some t \<and> \<not> g_terminal t"
proof -
  assume a: "(i, False) \<in> set (task_ends g)" "distinct (map fst (task_ends g))"
  then obtain t where t: "t \<in> set (gw_tasks g)" "g_id t = i" "\<not> g_terminal t" by (auto simp: task_ends_def)
  have "distinct (map g_id (gw_tasks g))" using a(2) by (simp add: task_ends_def comp_def)
  with t have "task_object g i = Some t" using sel_mem [of g_id "gw_tasks g" t] by (auto simp: task_object_def sel_def)
  with t(3) show ?thesis by blast
qed

lemma ends_finishWithTerminal:
  assumes "(i, False) \<in> set (task_ends g)" and "distinct (map fst (task_ends g))"
  shows "task_ends (finishWithTerminal cfg sha now lr err i e g) = map (\<lambda>(j, d). (j, d \<or> j = i)) (task_ends g)"
    "gw_waits (finishWithTerminal cfg sha now lr err i e g) = gw_waits g"
proof -
  obtain t where t: "task_object g i = Some t" "\<not> g_terminal t" using object_ends [OF assms] by blast
  let ?g = "pushEvent cfg i e (if gc_persist cfg then terminalize sha now lr err t e g else g)"
  have g: "task_ends ?g = task_ends g" "gw_waits ?g = gw_waits g" by (simp_all add: ends_push ends_terminalize)
  then obtain u where u: "task_object ?g i = Some u" "\<not> g_terminal u" using object_ends [of i ?g] assms by auto
  show "task_ends (finishWithTerminal cfg sha now lr err i e g) = map (\<lambda>(j, d). (j, d \<or> j = i)) (task_ends g)"
    "gw_waits (finishWithTerminal cfg sha now lr err i e g) = gw_waits g"
    using ends_finish [OF u, of cfg] g t by (simp_all add: finishWithTerminal_def with_task_def)
qed

lemma recover_ends:
  assumes "tk_id row \<notin> fst ` set (task_ends g)" and "distinct (map fst (task_ends g))"
  shows "task_ends (recover_record cfg sha now ts g row) = task_ends g @ [(tk_id row, start_unknown row)] \<and>
    gw_waits (recover_record cfg sha now ts g row) = gw_waits g @ (if start_unknown row then [] else [RecoveryTimer (tk_id row) 0])"
proof -
  let ?i = "tk_id row"
  let ?t = "recovered_task cfg row (case loadTaskEvents ?i (gw_store g) of None \<Rightarrow> [] | Some es \<Rightarrow> es)"
  let ?g1 = "g\<lparr>gw_tasks := gw_tasks g @ [?t], gw_active := gw_active g + 1\<rparr>"
  have t: "g_id ?t = ?i" "\<not> g_terminal ?t" "g_mode ?t = recovered_mode row" by (simp_all add: recovered_task_def new_gateway_task_def)
  have g1: "task_ends ?g1 = task_ends g @ [(?i, False)]" using t by (simp add: task_ends_def)
  have d: "distinct (map fst (task_ends ?g1))" using assms g1 by auto
  let ?g2 = "on_task ?i (\<lambda>t. t\<lparr>g_nextSeq := g_nextSeq t + 1\<rparr>) ?g1"
  have g2: "task_ends ?g2 = task_ends ?g1" "gw_waits ?g2 = gw_waits g" by (simp_all add: ends_on_task)
  have u: "map (\<lambda>(j, d). (j, d \<or> j = ?i)) (task_ends g) = task_ends g"
    using assms(1) by (intro map_idI) (auto simp: image_iff)
  obtain w where w: "task_object ?g1 ?i = Some w" using object_ends [of ?i ?g1] g1 d by auto
  have f: "task_ends (finishWithTerminal cfg sha n None err ?i e ?g2) = task_ends g @ [(?i, True)]" "gw_waits (finishWithTerminal cfg sha n None err ?i e ?g2) = gw_waits g" for n err e
    using ends_finishWithTerminal [of ?i ?g2] g1 g2 d u by simp_all
  show ?thesis
  proof (cases "start_unknown row")
    case True
    then show ?thesis using f w t(3) by (simp add: recover_record_def Let_def synthEvent_def with_task_def start_unknown_def)
  next
    case False
    then show ?thesis using g1 t(3) by (auto simp: recover_record_def Let_def start_unknown_def add_wait_def task_ends_def)
  qed
qed

lemma recover_all_ends:
  "distinct (map tk_id rows) \<Longrightarrow> task_ends (foldl (recover_record cfg sha now ts) (empty_gateway s) rows) = map (\<lambda>row. (tk_id row, start_unknown row)) rows \<and>
    gw_waits (foldl (recover_record cfg sha now ts) (empty_gateway s) rows) = map (\<lambda>row. RecoveryTimer (tk_id row) 0) (filter (\<lambda>row. \<not> start_unknown row) rows)"
proof (induction rows rule: rev_induct)
  case (snoc row rows)
  let ?g = "foldl (recover_record cfg sha now ts) (empty_gateway s) rows"
  have g: "task_ends ?g = map (\<lambda>row. (tk_id row, start_unknown row)) rows" using snoc by simp
  have "tk_id row \<notin> fst ` set (task_ends ?g)" "distinct (map fst (task_ends ?g))"
    unfolding g using snoc(2) by (auto simp: comp_def)
  from recover_ends [OF this, of cfg sha now ts] show ?case using snoc by simp
qed (simp add: task_ends_def empty_gateway_def)

text \<open>C19: a restart takes up exactly the unfinished tasks of the store, however the gateway was stopped: each has one task object, a
  task whose start at the Node may or may not have happened is ended at once, every other one waits for one reconciliation, and
  nothing else is under way, so no run is started again.\<close>

theorem restart_recovers_every_task:
  assumes "gateway_reaches cfg sha empty_store g" and "gc_persist cfg" and "gc_recover cfg"
  shows "map (\<lambda>t. (g_id t, g_terminal t)) (gw_tasks (startAgentGateway cfg sha now ts ((gw_store g)\<lparr>ws_closed := False\<rparr>))) =
      map (\<lambda>row. (tk_id row, recovered_mode row = RemoteRun \<and> nonempty (tk_remote_run_id row) = None)) (listNonTerminalTasks (gw_store g)) \<and>
    gw_waits (startAgentGateway cfg sha now ts ((gw_store g)\<lparr>ws_closed := False\<rparr>)) =
      map (\<lambda>row. RecoveryTimer (tk_id row) 0)
        (filter (\<lambda>row. \<not> (recovered_mode row = RemoteRun \<and> nonempty (tk_remote_run_id row) = None)) (listNonTerminalTasks (gw_store g)))"
proof -
  have "distinct (map tk_id (ws_tasks (gw_store g)))" using reached_ok [OF assms(1)] by (simp add: gateway_ok_def store_ok_def task_inv_def)
  then have d: "distinct (map tk_id (listNonTerminalTasks (gw_store g)))"
    unfolding listNonTerminalTasks_def by (simp add: distinct_map inj_on_def)
  have "listNonTerminalTasks ((gw_store g)\<lparr>ws_closed := False\<rparr>) = listNonTerminalTasks (gw_store g)" by (simp add: listNonTerminalTasks_def)
  then show ?thesis using recover_all_ends [OF d] assms(2,3) by (simp add: startAgentGateway_def task_ends_def start_unknown_def)
qed

theorem restart_recovers_every_task_witness:
  "gateway_reaches trial_cfg id empty_store s_ended \<and> gc_persist trial_cfg \<and> gc_recover trial_cfg \<and>
    gw_waits (startAgentGateway trial_cfg id id id ((gw_store s_ended)\<lparr>ws_closed := False\<rparr>)) = [RecoveryTimer ''task_1'' 0]"
proof -
  have "gw_store s_ended = trial_bound" by (simp add: s_ended_def empty_gateway_def)
  moreover have "listNonTerminalTasks trial_bound = [trial_row\<lparr>tk_status := ''running'', tk_remote_run_id := Some ''run_1'', tk_revision := 2\<rparr>]"
    by (simp add: listNonTerminalTasks_def trial_bound_def trial_row_def)
  moreover have "gc_recover trial_cfg" by (simp add: trial_cfg_def)
  ultimately show ?thesis using restart_recovers_every_task [OF trial_ends [of id] trial_limits(2), of id id] trial_ends [of id] trial_limits(2)
    by (simp add: nonempty_def trial_row_def)
qed

section \<open>Event streams\<close>

text \<open>C15: a client that opens the stream of an unfinished task and stays receives the events of the replay after its cursor and then, whatever the
  gateway does meanwhile, every event that is published on the task from then on, each exactly once and in the order of publication; at the
  end of the task the stream has delivered the terminal event and is closed.\<close>

theorem stream_exactly_once:
  assumes "gateway_reaches cfg sha empty_store g" and "task_named g i = Some t" and "\<not> g_terminal t" and "fresh_response n g"
    and "(gateway_step cfg sha)\<^sup>*\<^sup>* (handleEvents cfg n h i g) g'" and "n \<notin> set (gw_gone g')"
  shows "\<exists>t' new. task_object g' i = Some t' \<and> g_log t' = g_log t @ new \<and>
    map snd (filter (\<lambda>f. fst f = n) (gw_frames g')) = fst (computeSseReplay (g_events t) h) @ new \<and>
    (if g_terminal t' then terminal_type (ev_type (last new)) \<and> n \<notin> set (g_subs t') else n \<in> set (g_subs t'))"
proof -
  have ok: "gateway_ok cfg g" by (rule reached_ok [OF assms(1)])
  note s = subscribed_follows [OF ok assms(2-4), of h]
  have g': "gateway_ok cfg g'" "follows n i (fst (computeSseReplay (g_events t) h)) (g_log t) g'"
    using follows_steps [OF assms(5)] s by blast+
  then obtain t' new where t': "task_object g' i = Some t'" "g_log t' = g_log t @ new" "frames_to n g' = fst (computeSseReplay (g_events t) h) @ new"
    and sub: "n \<in> set (g_subs t') \<or> g_terminal t'" using assms(6) unfolding follows_def by blast
  have ot: "task_ok cfg t'" "task_ok cfg t"
    using g'(1) ok object_in [OF t'(1)] assms(2) by (auto simp: gateway_ok_def tasks_ok_def task_named_def find_Some_iff)
  have "terminal_type (ev_type (last new)) \<and> n \<notin> set (g_subs t')" if e: "g_terminal t'"
  proof -
    have l: "terminal_type (ev_type (last (g_log t')))" "g_log t' \<noteq> []" "g_subs t' = []" using ot(1) e by (simp_all add: task_ok_def)
    have "new \<noteq> []"
    proof
      assume "new = []"
      then have "last (g_log t') \<in> set (g_log t)" using l(2) t'(2) by simp
      then show False using ot(2) assms(3) l(1) by (auto simp: task_ok_def open_log_def)
    qed
    then show ?thesis using l t'(2) by simp
  qed
  then show ?thesis using t' sub unfolding frames_to_def by (intro exI [of _ t'] exI [of _ new]) auto
qed

theorem stream_exactly_once_witness:
  "\<exists>t' new. task_object s_ended ''task_1'' = Some t' \<and> g_log t' = g_log trial_live @ new \<and>
    map snd (filter (\<lambda>f. fst f = 1) (gw_frames s_ended)) = fst (computeSseReplay (g_events trial_live) None) @ new \<and>
    (if g_terminal t' then terminal_type (ev_type (last new)) \<and> 1 \<notin> set (g_subs t') else 1 \<in> set (g_subs t'))"
proof (rule stream_exactly_once [OF trial_reaches [of id] trial_fresh(3) _ trial_fresh(1)])
  show "(gateway_step trial_cfg id)\<^sup>*\<^sup>* (handleEvents trial_cfg 1 None ''task_1'' s_running) s_ended"
    using trial_steps [of id] by (simp only: trial_opened)
qed (simp_all add: trial_fields s_ended_def empty_gateway_def)

section \<open>What can be lost\<close>

text \<open>The terminal event itself may be missing from the store: in a state the gateway reaches, a task has ended, its stream has delivered the
  terminal event, but the store has no row for it and still shows the task as running, so a restart would take it up again.\<close>

theorem terminal_event_can_be_lost:
  "\<exists>g t row. gateway_reaches trial_cfg sha empty_store g \<and> gc_persist trial_cfg \<and> t \<in> set (gw_tasks g) \<and> g_terminal t \<and>
    (1, last (g_log t)) \<in> set (gw_frames g) \<and> taskRow (gw_store g) (g_id t) = Some row \<and> tk_status row = ''running'' \<and>
    (\<forall>r\<in>set (ws_task_events (gw_store g)). te_sequence r \<noteq> ev_seq (last (g_log t))) \<and> row \<in> set (listNonTerminalTasks (gw_store g))"
proof -
  let ?row = "trial_row\<lparr>tk_status := ''running'', tk_remote_run_id := Some ''run_1'', tk_revision := 2\<rparr>"
  have "gw_tasks s_ended = [trial_ended]" "(1, trial_late) \<in> set (gw_frames s_ended)" "gw_store s_ended = trial_bound"
    by (simp_all add: s_ended_def empty_gateway_def)
  moreover have "g_terminal trial_ended" "last (g_log trial_ended) = trial_late" "g_id trial_ended = ''task_1''"
    by (simp_all add: trial_ended_def trial_fields)
  moreover have "taskRow trial_bound ''task_1'' = Some ?row" "?row \<in> set (listNonTerminalTasks trial_bound)" "tk_status ?row = ''running''"
    "\<forall>r\<in>set (ws_task_events trial_bound). te_sequence r \<noteq> ev_seq trial_late"
    by (simp_all add: trial_bound_def trial_row_def sel_def listNonTerminalTasks_def trial_event_row_def trial_late_def trial_event_def)
  ultimately show ?thesis using trial_ends [of sha] trial_limits(2) by (intro exI [of _ s_ended] exI [of _ trial_ended] exI [of _ ?row]) simp
qed

text \<open>A creation whose prompt file cannot be written keeps its slot for ever.\<close>

lemma failed_prompt_keeps_slot:
  assumes "validateCreateTaskRequest body = Inr r" and "request_refused cfg r = None" and "precheck cfg sha r (gw_store g) = None"
    and "gw_active g + gw_pending g < gc_maxActive cfg" and "\<not> is_remote r"
  shows "handleCreate cfg sha False n body g = g\<lparr>gw_pending := gw_pending g + 1, gw_replies := gw_replies g @ [(n, Denied InternalError)]\<rparr>"
  using assms by (simp add: handleCreate_def deny_def answer_with_def reserve_def)

end
