(* ===== verification/TaskClient.thy ===== *)
theory TaskClient
  imports RuntimeTasks ValidatorFacts TaskContractFacts
begin

text \<open>
  The adapters between the runtime and its two services: \<open>GatewayAgentTaskClient\<close>
  (\<open>src/workflow/task-client.ts\<close>), which turns a request of the runtime into the body of a creation
  request and reads the gateway's answers defensively, and \<open>RelayWorkspaceLeaseClient\<close>
  (\<open>src/workflow/workspace-lease-client.ts\<close>), which sorts the Node's refusals into verdicts and
  transient failures. The HTTP client and the relay client below them are the parameters
  \<open>answer\<close>: what a call returned or how it failed.
\<close>

section \<open>The task client\<close>

text \<open>A failure of the HTTP client: an error answer of the gateway with its code, or anything else.\<close>

datatype gateway_failure = GatewayApi string bool | OtherFailure

definition RETRYABLE_CODES :: "string list" where
  "RETRYABLE_CODES = [''gateway_unreachable'', ''gateway_error'', ''service_unavailable'', ''node_offline'', ''internal_error'']"

fun classify :: "gateway_failure \<Rightarrow> rt_exn" where
  "classify (GatewayApi code retryable) = (if retryable \<or> code \<in> set RETRYABLE_CODES then TransientTask else TaskFailure)"
| "classify OtherFailure = TransientTask"

definition isTerminalStatus :: "jsval \<Rightarrow> bool" where
  "isTerminalStatus s = (isStr s \<and> str_of s \<in> {''completed'', ''failed'', ''cancelled''})"

definition historyComplete :: "jsval \<Rightarrow> bool" where
  "historyComplete task = (fld (fld task ''history'') ''complete'' = JBool True)"

definition resultStatusOf :: "jsval \<Rightarrow> string option" where
  "resultStatusOf task = opt_str (fld task ''result_status'')"

definition resultTextOf :: "jsval \<Rightarrow> string option" where
  "resultTextOf task = opt_str (fld (fld (fld task ''result'') ''final_output'') ''text'')"

definition statusOf :: "jsval \<Rightarrow> string" where
  "statusOf task = (case opt_str (fld task ''status'') of Some s \<Rightarrow> s | None \<Rightarrow> ''unknown'')"

definition taskIdOf :: "jsval \<Rightarrow> string \<Rightarrow> string" where
  "taskIdOf task fallback = (case opt_str (fld task ''task_id'') of Some s \<Rightarrow> s | None \<Rightarrow> fallback)"

text \<open>The spread of a field that is present when its value is truthy.\<close>

definition spread_if :: "string \<Rightarrow> jsval \<Rightarrow> (string \<times> jsval) list" where
  "spread_if k v = (if truthy v then [(k, v)] else [])"

definition startTask_body :: "task_request \<Rightarrow> jsval" where
  "startTask_body req = JObj ([(''agent'', rq_agent req)] @ spread_if ''node_id'' (rq_node_id req) @
     [(''input'', JObj [(''text'', JStr (rq_text req))])] @
     (case nonempty (rq_workspace_key req) of None \<Rightarrow> [] | Some k \<Rightarrow> [(''workspace'', JObj [(''workspace_key'', JStr k)])]) @
     (if truthy (rq_permission_mode req) \<or> rq_workspace_write req
      then [(''execution'', JObj (spread_if ''permission_mode'' (rq_permission_mode req) @
        (if rq_workspace_write req then [(''workspace_write'', JBool True)] else [])))] else []) @
     spread_if ''metadata'' (rq_metadata req) @
     [(''idempotency_key'', JStr (rq_idempotency_key req))] @
     (case nonempty (rq_workspace_lease_id req) of None \<Rightarrow> [] | Some l \<Rightarrow> [(''workspace_lease_id'', JStr l)]) @
     spread_if ''verify'' (rq_verify req))"

definition createTask :: "(jsval \<Rightarrow> gateway_failure + jsval) \<Rightarrow> task_request \<Rightarrow> rt_exn + string" where
  "createTask answer req = (case answer (startTask_body req) of
      Inl e \<Rightarrow> Inl (classify e)
    | Inr task \<Rightarrow> if taskIdOf task [] = [] then Inl TransientTask else Inr (taskIdOf task []))"

text \<open>One wait: the task as the gateway shows it, whether its stream ended and the last event consumed.\<close>

definition waitForTerminal :: "bool \<Rightarrow> gateway_failure + (jsval \<times> bool \<times> int) \<Rightarrow> string \<Rightarrow> rt_exn + task_read" where
  "waitForTerminal signalled answer taskId =
    (if signalled then Inl TransientTask
     else (case answer of
         Inl e \<Rightarrow> Inl (classify e)
       | Inr (task, terminal, next_event_id) \<Rightarrow> Inr
           \<lparr>rd_task_id = taskIdOf task taskId, rd_status = statusOf task, rd_terminal = (terminal \<or> isTerminalStatus (JStr (statusOf task))),
            rd_history_complete = historyComplete task, rd_result_status = resultStatusOf task, rd_result_text = resultTextOf task,
            rd_next_event_id = next_event_id\<rparr>))"

definition cancelTask :: "gateway_failure + jsval \<Rightarrow> rt_exn + unit" where
  "cancelTask answer = (case answer of Inl e \<Rightarrow> Inl (classify e) | Inr _ \<Rightarrow> Inr ())"

section \<open>The lease client\<close>

definition TRANSIENT_LEASE_CODES :: "string list" where
  "TRANSIENT_LEASE_CODES = [''workspace_lease_in_use'', ''workspace_lease_unavailable'', ''workspace_revision_unavailable'', ''internal_error'']"

text \<open>A \<open>RemoteLeaseError\<close> has a code; any other failure has none.\<close>

fun rethrow :: "string option \<Rightarrow> rt_exn" where
  "rethrow None = TransientLease"
| "rethrow (Some code) =
    (if code = ''workspace_lease_conflict'' then LeaseVerdict ''workspace_lease_conflict''
     else if code \<in> set TRANSIENT_LEASE_CODES then TransientLease
     else if code \<noteq> [] then LeaseVerdict code
     else TransientLease)"

definition lease_acquire :: "string option + 'l \<Rightarrow> rt_exn + 'l" where
  "lease_acquire answer = (case answer of Inl c \<Rightarrow> Inl (rethrow c) | Inr l \<Rightarrow> Inr l)"

definition lease_get :: "string option + 'l option \<Rightarrow> rt_exn + 'l option" where
  "lease_get answer = (case answer of
      Inl c \<Rightarrow> if c = Some ''workspace_lease_invalid'' then Inr None else Inl (rethrow c)
    | Inr l \<Rightarrow> Inr l)"

section \<open>The runtime's requests and the gateway's validation\<close>

lemma valid_role:
  assumes "spec_valid spec" and "s \<in> set (spec_steps spec)"
  shows "isStr (fld (role_of spec s) ''agent'') \<and> trim (str_of (fld (role_of spec s) ''agent'')) \<noteq> [] \<and>
    (fld (role_of spec s) ''node_id'' = JUndef \<or>
     isStr (fld (role_of spec s) ''node_id'') \<and> str_of (fld (role_of spec s) ''node_id'') \<noteq> [])"
proof -
  let ?agents = "fld spec ''agents''"
  let ?role = "str_of (fld s ''agent_role'')"
  have ag: "snd (validateAgents ?agents) = []"
    using assms(1) unfolding spec_valid_def validateWorkflowSpec_def Let_def by (simp split: if_splits)
  have "?role \<in> set (fst (validateAgents ?agents))"
    using valid_steps(4) [OF assms(1)] assms(2) by (auto simp: step_issues_def split: if_splits)
  then have "?role \<in> set (obj_keys ?agents)" using ag by (auto simp: validateAgents_def split: if_splits)
  then obtain d where d: "map_of (entries ?agents) ?role = Some d"
    unfolding has_own_iff [symmetric] by (auto simp: has_own_def)
  then have "role_of spec s = d" by (simp add: role_of_def get_prop_def)
  moreover have "isStr (fld d ''agent'') \<and> trim (str_of (fld d ''agent'')) \<noteq> [] \<and>
      (fld d ''node_id'' = JUndef \<or> isStr (fld d ''node_id'') \<and> NODE_ID (str_of (fld d ''node_id'')))"
    using ag map_of_SomeD [OF d] by (fastforce simp: validateAgents_def Let_def split: if_splits)
  moreover have "NODE_ID x \<Longrightarrow> x \<noteq> []" for x by (auto simp: NODE_ID_def)
  ultimately show ?thesis by auto
qed

lemma valid_step_policy:
  assumes "spec_valid spec" and "s \<in> set (spec_steps spec)"
  shows "fld s ''permission_mode'' \<in> {JUndef, JStr ''default'', JStr ''unsafe-skip''}"
    and "fld s ''verify'' = JUndef \<or> (\<exists>p. validateTaskVerifyConfig (fld s ''verify'') = Inr p \<and> fld (fld s ''verify'') ''profile'' = JStr p)"
proof -
  obtain roles tables ids p where i: "step_issues roles tables ids p s = []" using valid_steps(4) [OF assms(1)] assms(2) by blast
  then show "fld s ''permission_mode'' \<in> {JUndef, JStr ''default'', JStr ''unsafe-skip''}" by (auto simp: step_issues_def split: if_splits)
  from i have "fld s ''verify'' = JUndef \<or> \<not> isl (validateTaskVerifyConfig (fld s ''verify''))"
    by (auto simp: step_issues_def workspace_issues_def split: if_splits)
  then show "fld s ''verify'' = JUndef \<or> (\<exists>p. validateTaskVerifyConfig (fld s ''verify'') = Inr p \<and> fld (fld s ''verify'') ''profile'' = JStr p)"
    by (cases "validateTaskVerifyConfig (fld s ''verify'')") (auto dest: validateTaskVerifyConfig_Inr)
qed

lemma map_of_spread [simp]: "map_of (spread_if k v) k' = (if k = k' \<and> truthy v then Some v else None)"
  by (auto simp: spread_if_def)

lemma startTask_fields:
  "fld (startTask_body q) ''agent'' = rq_agent q"
  "fld (startTask_body q) ''node_id'' = if_truthy (rq_node_id q)"
  "fld (startTask_body q) ''input'' = JObj [(''text'', JStr (rq_text q))]"
  "fld (startTask_body q) ''workspace'' = undef_or (\<lambda>k. JObj [(''workspace_key'', JStr k)]) (nonempty (rq_workspace_key q))"
  "fld (startTask_body q) ''metadata'' = if_truthy (rq_metadata q)"
  "fld (startTask_body q) ''idempotency_key'' = JStr (rq_idempotency_key q)"
  "fld (startTask_body q) ''workspace_lease_id'' = undef_or JStr (nonempty (rq_workspace_lease_id q))"
  "fld (startTask_body q) ''verify'' = if_truthy (rq_verify q)"
  by (simp_all add: startTask_body_def fld_def map_add_def undef_or_def if_truthy_def split: option.splits)

lemma startTask_execution:
  "fld (startTask_body q) ''execution'' = (if truthy (rq_permission_mode q) \<or> rq_workspace_write q
     then JObj (spread_if ''permission_mode'' (rq_permission_mode q) @ (if rq_workspace_write q then [(''workspace_write'', JBool True)] else [])) else JUndef)"
  by (simp add: startTask_body_def fld_def map_add_def split: option.splits)

lemma fld_member: "fld (JObj kvs) k = (case map_of kvs k of None \<Rightarrow> JUndef | Some v \<Rightarrow> v)"
  by (simp add: fld_def)

lemma execution_accepted:
  assumes "fld s ''permission_mode'' \<in> {JUndef, JStr ''default'', JStr ''unsafe-skip''}"
  shows "check_execution (fld (startTask_body (task_request_of wid role s st body key lease)) ''execution'') = None"
  using assms unfolding startTask_execution
  by (auto simp: check_execution_def task_request_of_def if_truthy_def fld_def DEFERRED_EXECUTION_FIELDS_def map_add_def)

lemma workspace_accepted:
  "check_workspace (startTask_body q) = None \<longleftrightarrow> pred_option TASK_WORKSPACE_KEY_RE (nonempty (rq_workspace_key q))"
  by (cases "nonempty (rq_workspace_key q)") (simp_all add: check_workspace_def Let_def startTask_fields check_path_def DEFERRED_WORKSPACE_FIELDS_def fld_member)

end
