(* ===== verification/NodePolicy.thy ===== *)
theory NodePolicy
  imports TaskContract NodeJournal
begin

text \<open>
  The decisions a Node takes before it lets an agent run: the repository allowlist
  (\<open>src/repo-policy.ts\<close>, \<open>src/workspace.ts\<close>), the GitHub account (\<open>runtime/preauth.ts\<close>), the sandbox of Codex
  (\<open>runtime/codex-sandbox.ts\<close>), the verifier (\<open>runtime/verifier.ts\<close>), the classification of failures
  (\<open>runtime/classify.ts\<close>), the fallback policy (\<open>runtime/policy.ts\<close>) and the choice of an agent (\<open>runtime/router.ts\<close>).
  What git, gh, the file system and the environment answer are arguments. Regular expressions are written out.
\<close>

section \<open>Repository addresses\<close>

definition is_alpha :: "char \<Rightarrow> bool" where
  "is_alpha c = (is_lower c \<or> is_upper c)"

definition scheme_char :: "char \<Rightarrow> bool" where
  "scheme_char c = (is_alnum c \<or> c = CHR ''+'' \<or> c = CHR ''.'' \<or> c = CHR ''-'')"

text \<open>What follows \<open>/^[a-z][a-z0-9+.-]*:\/\//i\<close>.\<close>

definition after_scheme :: "string \<Rightarrow> string option" where
  "after_scheme s = (case s of
      [] \<Rightarrow> None
    | c # cs \<Rightarrow> if is_alpha c \<and> starts_with (dropWhile scheme_char cs) ''://'' then Some (drop 3 (dropWhile scheme_char cs)) else None)"

text \<open>What follows \<open>/^[^/@]+@/\<close>.\<close>

definition after_user :: "string \<Rightarrow> string option" where
  "after_user s = (let u = takeWhile (\<lambda>c. c \<noteq> CHR ''/'' \<and> c \<noteq> CHR ''@'') s; r = dropWhile (\<lambda>c. c \<noteq> CHR ''/'' \<and> c \<noteq> CHR ''@'') s in
     if u \<noteq> [] \<and> starts_with r ''@'' then Some (tl r) else None)"

text \<open>The parts of \<open>/^([^/:]+):/\<close> and what follows it.\<close>

definition host_colon :: "string \<Rightarrow> (string \<times> string) option" where
  "host_colon s = (let h = takeWhile (\<lambda>c. c \<noteq> CHR ''/'' \<and> c \<noteq> CHR '':'') s; r = dropWhile (\<lambda>c. c \<noteq> CHR ''/'' \<and> c \<noteq> CHR '':'') s in
     if h \<noteq> [] \<and> starts_with r '':'' then Some (h, tl r) else None)"

definition isRemoteUrl :: "string \<Rightarrow> bool" where
  "isRemoteUrl url = (let s = trim url in after_scheme s \<noteq> None \<or> (case after_user s of None \<Rightarrow> False | Some r \<Rightarrow> host_colon r \<noteq> None))"

text \<open>\<open>(.+)$\<close>: a dot matches no line terminator.\<close>

definition rest_of_line :: "string \<Rightarrow> bool" where
  "rest_of_line s = (s \<noteq> [] \<and> list_all (\<lambda>c. c \<noteq> CHR 0x0A \<and> c \<noteq> CHR 0x0D) s)"

definition scp_parts :: "string \<Rightarrow> (string \<times> string) option" where
  "scp_parts s =
    (let line = (\<lambda>x. case x of None \<Rightarrow> None | Some (h, r) \<Rightarrow> if rest_of_line r then Some (h, r) else None) in
     case line (case after_user s of None \<Rightarrow> None | Some r \<Rightarrow> host_colon r) of
       Some p \<Rightarrow> Some p
     | None \<Rightarrow> line (host_colon s))"

definition drop_port :: "string \<Rightarrow> string" where
  "drop_port h = (let r = dropWhile is_digit (rev h) in
     if length r < length h \<and> starts_with r '':'' then rev (tl r) else h)"

definition scheme_parts :: "string \<Rightarrow> (string \<times> string) option" where
  "scheme_parts rest =
    (let at = takeWhile (\<lambda>c. c \<noteq> CHR ''@'') rest;
         rest1 = (if CHR ''@'' \<in> set rest \<and> CHR ''/'' \<notin> set at then drop (length at + 1) rest else rest)
     in if CHR ''/'' \<in> set rest1 then
          Some (drop_port (takeWhile (\<lambda>c. c \<noteq> CHR ''/'') rest1), tl (dropWhile (\<lambda>c. c \<noteq> CHR ''/'') rest1))
        else None)"

definition drop_slashes :: "string \<Rightarrow> string" where
  "drop_slashes s = rev (dropWhile (\<lambda>c. c = CHR ''/'') (rev s))"

definition drop_git :: "string \<Rightarrow> string" where
  "drop_git s = (if length s \<ge> 4 \<and> to_lower (drop (length s - 4) s) = ''.git'' then take (length s - 4) s else s)"

fun split_on :: "(char \<Rightarrow> bool) \<Rightarrow> string \<Rightarrow> string list" where
  "split_on sep [] = [[]]"
| "split_on sep (c # cs) = (if sep c then [] # split_on sep cs else (case split_on sep cs of [] \<Rightarrow> [[c]] | x # xs \<Rightarrow> (c # x) # xs))"

fun join_slash :: "string list \<Rightarrow> string" where
  "join_slash [] = []"
| "join_slash [x] = x"
| "join_slash (x # y # xs) = x @ CHR ''/'' # join_slash (y # xs)"

record canonical_repo =
  cn_host :: string
  cn_owner :: string
  cn_repo :: string

definition canonicalizeRepo :: "string \<Rightarrow> canonical_repo option" where
  "canonicalizeRepo url =
    (let s = trim url in
     if s = [] then None
     else (case (case after_scheme s of
                   Some rest \<Rightarrow> if rest_of_line rest then scheme_parts rest else scp_parts s
                 | None \<Rightarrow> scp_parts s) of
         None \<Rightarrow> None
       | Some (host, pathPart) \<Rightarrow>
           if host = [] then None
           else let segs = filter (\<lambda>x. x \<noteq> []) (split_on (\<lambda>c. c = CHR ''/'') (drop_git (drop_slashes (dropWhile (\<lambda>c. c = CHR ''/'') pathPart))))
             in if length segs < 2 then None
                else Some \<lparr>cn_host = to_lower host, cn_owner = hd segs, cn_repo = join_slash (tl segs)\<rparr>))"

text \<open>\<open>segmentRegex\<close>: a star is one or more characters other than a slash, letters are compared without case.\<close>

fun segment_matches :: "string \<Rightarrow> string \<Rightarrow> bool" where
  "segment_matches [] s = (s = [])"
| "segment_matches (p # ps) [] = False"
| "segment_matches (p # ps) (c # cs) =
    (if p = CHR ''*'' then c \<noteq> CHR ''/'' \<and> (segment_matches ps cs \<or> segment_matches (p # ps) cs)
     else to_lower [p] = to_lower [c] \<and> segment_matches ps cs)"

definition isRepoAllowed :: "string \<Rightarrow> string list \<Rightarrow> bool" where
  "isRepoAllowed url allowlist =
    (if \<not> isRemoteUrl url then True
     else (case canonicalizeRepo url of
         None \<Rightarrow> False
       | Some c \<Rightarrow> list_ex (\<lambda>raw. case canonicalizeRepo raw of
             None \<Rightarrow> False
           | Some e \<Rightarrow> cn_host e = cn_host c \<and> segment_matches (cn_owner e) (cn_owner c) \<and> segment_matches (cn_repo e) (cn_repo c)) allowlist))"

definition DEFAULT_REPO_ALLOWLIST :: "string list" where
  "DEFAULT_REPO_ALLOWLIST = [''https://github.com/JozzyAI/*'', ''git@github.com:JozzyAI/*'']"

definition resolveRepoAllowlist :: "string option \<Rightarrow> string list" where
  "resolveRepoAllowlist env =
    (let fromEnv = filter (\<lambda>x. x \<noteq> []) (map trim (split_on (\<lambda>c. c = CHR '','') (case env of None \<Rightarrow> [] | Some v \<Rightarrow> v))) in
     if fromEnv \<noteq> [] then fromEnv else DEFAULT_REPO_ALLOWLIST)"

definition repoAllowlistEnabled :: "string option \<Rightarrow> bool" where
  "repoAllowlistEnabled flag = (flag \<notin> {Some ''0'', Some ''false''})"

text \<open>\<open>assertCleanRepoUrl\<close>: \<open>/^https?:\/\/[^/@]+@/i\<close>.\<close>

definition cleanRepoUrl :: "string \<Rightarrow> bool" where
  "cleanRepoUrl url = (let s = trim url; l = to_lower s in
     \<not> (starts_with l ''http://'' \<and> after_user (drop 7 s) \<noteq> None) \<and> \<not> (starts_with l ''https://'' \<and> after_user (drop 8 s) \<noteq> None))"

definition normalizeRepoUrl :: "string \<Rightarrow> string" where
  "normalizeRepoUrl url = drop_git (drop_slashes (trim url))"

datatype repo_error = RepoUrlCredentials | RepoNotAllowed | WorkspaceRepoMismatch | RepoGateError

text \<open>What the workspace holds: whether it is empty (\<open>None\<close>: it cannot be read), whether it is a checkout, and the origin git reports.\<close>

record checkout =
  ck_empty :: "bool option"
  ck_git :: bool
  ck_origin :: "string option"

definition repo_check :: "string list \<Rightarrow> string \<Rightarrow> repo_error option" where
  "repo_check allowlist url =
    (if \<not> cleanRepoUrl url then Some RepoUrlCredentials else if \<not> isRepoAllowed url allowlist then Some RepoNotAllowed else None)"

definition checkWorkspaceRepoMatch :: "string list \<Rightarrow> checkout \<Rightarrow> string \<Rightarrow> repo_error option" where
  "checkWorkspaceRepoMatch allowlist ck url = (case repo_check allowlist url of
      Some e \<Rightarrow> Some e
    | None \<Rightarrow> (case ck_empty ck of
        None \<Rightarrow> Some RepoGateError
      | Some True \<Rightarrow> None
      | Some False \<Rightarrow>
          if \<not> ck_git ck then Some WorkspaceRepoMismatch
          else (case nonempty (ck_origin ck) of
              None \<Rightarrow> Some WorkspaceRepoMismatch
            | Some origin \<Rightarrow> if normalizeRepoUrl origin = normalizeRepoUrl url then None else Some WorkspaceRepoMismatch)))"

text \<open>\<open>runRepoGate\<close>, with enforcement on: \<open>None\<close> where the run may go on.\<close>

definition runRepoGate :: "string list \<Rightarrow> checkout \<Rightarrow> string \<Rightarrow> repo_error option" where
  "runRepoGate allowlist ck url = (case repo_check allowlist url of
      Some e \<Rightarrow> Some e
    | None \<Rightarrow> (case (case nonempty (ck_origin ck) of None \<Rightarrow> None | Some origin \<Rightarrow> repo_check allowlist origin) of
        Some e \<Rightarrow> Some e
      | None \<Rightarrow> checkWorkspaceRepoMatch allowlist ck url))"

section \<open>Working directories\<close>

text \<open>\<open>realpath\<close> is what the file system resolves an existing path to, \<open>is_dir\<close> whether that is a directory. Resolved paths are
  normalised, so a path lies inside a directory when it goes on with a separator.\<close>

definition isAbsolute :: "string \<Rightarrow> bool" where
  "isAbsolute p = starts_with p ''/''"

definition root_of :: "(string \<Rightarrow> string option) \<Rightarrow> (string \<Rightarrow> bool) \<Rightarrow> string \<Rightarrow> string option" where
  "root_of realpath is_dir root =
    (if \<not> isAbsolute root then None
     else (case realpath root of None \<Rightarrow> None | Some r \<Rightarrow> if is_dir r then Some r else None))"

definition resolveAllowedCwd :: "(string \<Rightarrow> string option) \<Rightarrow> (string \<Rightarrow> bool) \<Rightarrow> jsval \<Rightarrow> string list \<Rightarrow> string option" where
  "resolveAllowedCwd realpath is_dir cwd allowedRoots =
    (if \<not> isStr cwd \<or> \<not> isAbsolute (str_of cwd) \<or> allowedRoots = [] then None
     else (case realpath (str_of cwd) of
         None \<Rightarrow> None
       | Some real \<Rightarrow>
           if \<not> is_dir real then None
           else if list_ex (\<lambda>root. case root_of realpath is_dir root of None \<Rightarrow> False | Some r \<Rightarrow> real = r \<or> starts_with real (r @ ''/'')) allowedRoots
           then Some real else None))"

definition validAllowedCwdRoots :: "(string \<Rightarrow> string option) \<Rightarrow> (string \<Rightarrow> bool) \<Rightarrow> string list \<Rightarrow> string list" where
  "validAllowedCwdRoots realpath is_dir allowedRoots = filter (\<lambda>root. root_of realpath is_dir root \<noteq> None) allowedRoots"

definition CWD_CAPABILITY :: string where "CWD_CAPABILITY = ''cwd''"

definition withCwdCapability :: "(string \<Rightarrow> string option) \<Rightarrow> (string \<Rightarrow> bool) \<Rightarrow> string list \<Rightarrow> string list \<Rightarrow> string list" where
  "withCwdCapability realpath is_dir base allowedRoots =
    (if validAllowedCwdRoots realpath is_dir allowedRoots \<noteq> [] \<and> CWD_CAPABILITY \<notin> set base then base @ [CWD_CAPABILITY] else base)"

text \<open>The relative path from a resolved directory to a path inside it, and the path of a one-segment name in a directory.\<close>

definition inside_rel :: "string \<Rightarrow> string \<Rightarrow> string option" where
  "inside_rel root p = (let d = (if root = ''/'' then root else root @ ''/'') in
     if starts_with p d \<and> length d < length p then Some (drop (length d) p) else None)"

definition child_path :: "string \<Rightarrow> string \<Rightarrow> string" where
  "child_path root key = (if root = ''/'' then root else root @ ''/'') @ key"

text \<open>\<open>resolveContainedWorkspace\<close>; \<open>realRoot\<close> is the resolved workspace root. A key that passes the pattern is one segment other than \<open>.\<close> and
  \<open>..\<close>.\<close>

definition resolveContainedWorkspace :: "(string \<Rightarrow> string option) \<Rightarrow> string \<Rightarrow> string \<Rightarrow> string option" where
  "resolveContainedWorkspace realpath realRoot key =
    (let resolved = child_path realRoot key; inside = (\<lambda>p. case inside_rel realRoot p of None \<Rightarrow> False | Some r \<Rightarrow> \<not> starts_with r ''..'') in
     if \<not> WORKSPACE_KEY_RE key \<or> \<not> inside resolved then None
     else (case realpath resolved of
         None \<Rightarrow> Some resolved
       | Some real \<Rightarrow> if inside real then Some resolved else None))"

section \<open>GitHub account\<close>

definition ALLOWED_GITHUB_ACCOUNTS :: "string list" where
  "ALLOWED_GITHUB_ACCOUNTS = [''JozzyAI'']"

definition preauthEnabled :: "string option \<Rightarrow> bool \<Rightarrow> bool" where
  "preauthEnabled flag wsl = (if flag = Some ''1'' \<or> flag = Some ''true'' then True else if flag = Some ''0'' \<or> flag = Some ''false'' then False else wsl)"

definition evaluatePreauth :: "string option \<Rightarrow> string list \<Rightarrow> bool" where
  "evaluatePreauth username allowed = (case nonempty username of None \<Rightarrow> False | Some u \<Rightarrow> u \<in> set allowed)"

section \<open>Failures\<close>

datatype failure_reason = SessionLimit | UsageLimit | QuotaExceeded | RateLimited | ContextLimit | AuthExpired | CommandNotFound
  | TestsDidFail | MergeConflict | RepoNotFound | PermissionDenied | UnknownRepo | InvalidTask | VerifierUnavailable | AuthMisconfigured
  | RepoIsNotAllowed | UnknownFailure

definition is_word :: "char \<Rightarrow> bool" where
  "is_word c = (is_alnum c \<or> c = CHR ''_'')"

text \<open>\<open>/\bp\b/\<close> for a text \<open>p\<close> that begins and ends with word characters; \<open>before\<close> says whether a word character precedes.\<close>

fun has_word :: "bool \<Rightarrow> string \<Rightarrow> string \<Rightarrow> bool" where
  "has_word before p [] = False"
| "has_word before p (c # cs) =
    ((\<not> before \<and> starts_with (c # cs) p \<and> (case drop (length p) (c # cs) of [] \<Rightarrow> True | d # ds \<Rightarrow> \<not> is_word d)) \<or> has_word (is_word c) p cs)"

text \<open>\<open>/\d+ failing/i\<close>\<close>

fun some_failing :: "string \<Rightarrow> bool" where
  "some_failing [] = False"
| "some_failing (c # cs) = (is_digit c \<and> starts_with (to_lower cs) '' failing'' \<or> some_failing cs)"

definition says :: "string list \<Rightarrow> string \<Rightarrow> bool" where
  "says texts h = list_ex (str_includes (to_lower h)) texts"

definition RULES :: "(failure_reason \<times> bool \<times> (string \<Rightarrow> bool)) list" where
  "RULES = [
    (SessionLimit, True, \<lambda>h. says [''hit your session limit'', ''session limit reached''] h \<or> has_word False ''session limit'' (to_lower h)),
    (UsageLimit, True, says [''usage limit'', ''you'' @ [CHR 0x27] @ ''ve reached your usage'']),
    (QuotaExceeded, True, says [''quota exceeded'', ''insufficient_quota'', ''out of credits'']),
    (RateLimited, True, \<lambda>h. says [''rate limit'', ''too many requests''] h \<or> has_word False ''429'' h),
    (ContextLimit, True, says [''context length limit'', ''context length exceeded'', ''context window limit'', ''context window exceeded'',
       ''maximum context length'', ''prompt is too long'']),
    (AuthExpired, True, \<lambda>h. says [''all credential paths are exhausted'', ''authentication failed'', ''authentication expired'',
       ''authentication required'', ''invalid api key'', ''not logged in'', ''not authenticated''] h \<or> has_word False ''401'' h),
    (CommandNotFound, True, \<lambda>h. says [''cli not found in path'', ''command not found''] h \<or> has_word False ''ENOENT'' h),
    (RepoIsNotAllowed, False, says [''blocked by repo allowlist'', ''repo_url_has_credentials'', ''embedded credentials'']),
    (AuthMisconfigured, False, says [''auth preflight failed'', ''not in the allowlist ['', ''git credential manager'']),
    (TestsDidFail, False, \<lambda>h. says [''test failed'', ''tests failed'', ''test suite failed''] h \<or> some_failing h),
    (MergeConflict, False, says [''merge conflict'', ''conflict markers'', ''automatic merge failed'']),
    (RepoNotFound, False, says [''repository not found'', ''could not read from remote repository'']),
    (PermissionDenied, False, says [''permission denied'', ''403 forbidden'', ''access denied'']),
    (UnknownRepo, False, says [''workspace_repo_mismatch'', ''does not match the requested repourl'', ''is not a git checkout'']),
    (InvalidTask, False, says [''prompt file not found'', ''invalid task''])]"

definition classifyFailure :: "string option \<Rightarrow> failure_reason \<times> bool" where
  "classifyFailure body = (case find (\<lambda>(r, b, p). p (case body of None \<Rightarrow> [] | Some t \<Rightarrow> t)) RULES of
      Some (r, b, p) \<Rightarrow> (r, b)
    | None \<Rightarrow> (UnknownFailure, False))"

definition DEFAULT_SWITCH_ON :: "failure_reason list" where
  "DEFAULT_SWITCH_ON = [SessionLimit, UsageLimit, QuotaExceeded, RateLimited]"

section \<open>Agents and their fallbacks\<close>

datatype agent_backend = Mock | ClaudeCode | Codex | Opencode

definition KNOWN_AGENTS :: "(string \<times> agent_backend) list" where
  "KNOWN_AGENTS = [(''mock'', Mock), (''claude-code'', ClaudeCode), (''codex'', Codex), (''opencode'', Opencode)]"

definition KNOWN_REASONS :: "(string \<times> failure_reason) list" where
  "KNOWN_REASONS = [(''session_limit'', SessionLimit), (''usage_limit'', UsageLimit), (''quota_exceeded'', QuotaExceeded), (''rate_limited'', RateLimited),
     (''context_limit'', ContextLimit), (''auth_expired'', AuthExpired), (''command_not_found'', CommandNotFound), (''tests_failed'', TestsDidFail),
     (''merge_conflict'', MergeConflict), (''repo_not_found'', RepoNotFound), (''permission_denied'', PermissionDenied), (''unknown_repo'', UnknownRepo),
     (''invalid_task'', InvalidTask)]"

definition known :: "(string \<times> 'a) list \<Rightarrow> string list \<Rightarrow> 'a list" where
  "known table xs = List.map_filter (map_of table) xs"

text \<open>\<open>AgentPolicyMetadata\<close>\<close>

record policy_metadata =
  pm_fallbacks :: "string list option"
  pm_switch_on :: "string list option"
  pm_preserve_workspace :: "bool option"
  pm_handoff_on_switch :: "bool option"

record agent_policy =
  ap_primary :: agent_backend
  ap_fallbacks :: "agent_backend list"
  ap_switchOn :: "failure_reason list"
  ap_preserveWorkspace :: bool
  ap_handoffOnSwitch :: bool

definition parseList :: "string list \<Rightarrow> string list" where
  "parseList raw = filter (\<lambda>x. x \<noteq> []) (map trim (concat (map (split_on (\<lambda>c. c = CHR '','' \<or> is_space c)) raw)))"

definition buildAgentPolicyMetadata :: "string list \<Rightarrow> string list \<Rightarrow> bool option \<Rightarrow> bool option \<Rightarrow> policy_metadata option" where
  "buildAgentPolicyMetadata fallbackAgents switchOn handoff preserve =
    (let fs = filter (\<lambda>a. map_of KNOWN_AGENTS a \<noteq> None) (parseList fallbackAgents);
         rs = filter (\<lambda>r. map_of KNOWN_REASONS r \<noteq> None) (parseList switchOn)
     in if fs = [] then None
        else Some \<lparr>pm_fallbacks = Some fs, pm_switch_on = (if rs = [] then None else Some rs), pm_preserve_workspace = preserve, pm_handoff_on_switch = handoff\<rparr>)"

definition resolveAgentPolicy :: "agent_backend \<Rightarrow> policy_metadata option \<Rightarrow> agent_policy" where
  "resolveAgentPolicy primary meta =
    \<lparr>ap_primary = primary,
     ap_fallbacks = known KNOWN_AGENTS (case meta of None \<Rightarrow> [] | Some m \<Rightarrow> (case pm_fallbacks m of None \<Rightarrow> [] | Some fs \<Rightarrow> fs)),
     ap_switchOn = (case meta of None \<Rightarrow> DEFAULT_SWITCH_ON
       | Some m \<Rightarrow> (case pm_switch_on m of None \<Rightarrow> DEFAULT_SWITCH_ON | Some rs \<Rightarrow> if rs = [] then DEFAULT_SWITCH_ON else known KNOWN_REASONS rs)),
     ap_preserveWorkspace = (case meta of None \<Rightarrow> True | Some m \<Rightarrow> (case pm_preserve_workspace m of None \<Rightarrow> True | Some b \<Rightarrow> b)),
     ap_handoffOnSwitch = (case meta of None \<Rightarrow> True | Some m \<Rightarrow> (case pm_handoff_on_switch m of None \<Rightarrow> True | Some b \<Rightarrow> b))\<rparr>"

definition DEFAULT_RUNNER_PRIORITY :: "agent_backend list" where
  "DEFAULT_RUNNER_PRIORITY = [ClaudeCode, Codex, Opencode, Mock]"

text \<open>\<open>requested\<close> is \<open>None\<close> for \<open>auto\<close>; the first result is the agent, if there is one, the second what was tried.\<close>

fun first_available :: "(agent_backend \<Rightarrow> bool) \<Rightarrow> agent_backend list \<Rightarrow> agent_backend list \<Rightarrow> agent_backend option \<times> agent_backend list" where
  "first_available ok tried [] = (None, tried)"
| "first_available ok tried (a # as) = (if ok a then (Some a, tried @ [a]) else first_available ok (tried @ [a]) as)"

definition selectRunner :: "agent_backend option \<Rightarrow> (agent_backend \<Rightarrow> bool) \<Rightarrow> agent_backend list \<Rightarrow> agent_backend option \<times> agent_backend list" where
  "selectRunner requested ok priority = (case requested of Some a \<Rightarrow> (Some a, []) | None \<Rightarrow> first_available ok [] priority)"

section \<open>The sandbox of Codex\<close>

datatype sandbox_mode = ReadOnly | WorkspaceWrite

datatype lease_decision = ActiveMatch | NoLease | InactiveLease | MismatchedLease | InvalidLease

datatype deny_code = WorkspaceLeaseRequired | WorkspaceLeaseInactive | WorkspaceLeaseMismatch | WorkspaceLeaseInvalid

fun DENY :: "lease_decision \<Rightarrow> deny_code" where
  "DENY NoLease = WorkspaceLeaseRequired"
| "DENY InactiveLease = WorkspaceLeaseInactive"
| "DENY MismatchedLease = WorkspaceLeaseMismatch"
| "DENY _ = WorkspaceLeaseInvalid"

definition resolveCodexSandbox :: "bool \<Rightarrow> lease_decision \<Rightarrow> deny_code + sandbox_mode" where
  "resolveCodexSandbox writeRequested lease =
    (if \<not> writeRequested then Inr ReadOnly else if lease = ActiveMatch then Inr WorkspaceWrite else Inl (DENY lease))"

section \<open>The verifier\<close>

datatype preflight_error = InvalidConfig | UnknownProfile | ProgramNotFound | SandboxUnavailable

definition resolveVerifierProfile :: "string \<Rightarrow> verifier_profile option" where
  "resolveVerifierProfile i = map_of PROFILES i"

text \<open>\<open>program\<close> resolves the name of a program to its path; \<open>enforces\<close> says whether a sandbox is available.\<close>

definition verifierPreflight :: "(string \<Rightarrow> string option) \<Rightarrow> bool \<Rightarrow> jsval \<Rightarrow> preflight_error + (string \<times> string list)" where
  "verifierPreflight program enforces config = (case validateTaskVerifyConfig config of
      Inl e \<Rightarrow> Inl (if e = VcUnknownProfile then UnknownProfile else InvalidConfig)
    | Inr i \<Rightarrow> (case resolveVerifierProfile i of
        None \<Rightarrow> Inl UnknownProfile
      | Some p \<Rightarrow> (case program (hd (profile_argv p)) of
          None \<Rightarrow> Inl ProgramNotFound
        | Some path \<Rightarrow> if \<not> enforces then Inl SandboxUnavailable else Inr (profile_id p, path # tl (profile_argv p)))))"

text \<open>How the sandboxed process ended: its exit code with its output, or that it could not be run. A timeout, too much output and a signal are exit codes.\<close>

record verifier_exit =
  vx_code :: int
  vx_started :: string
  vx_finished :: string
  vx_output :: string

definition runVerifier ::
  "(string \<Rightarrow> string) \<Rightarrow> (string \<Rightarrow> string option) \<Rightarrow> bool \<Rightarrow> jsval \<Rightarrow> verifier_exit option \<Rightarrow> task_verification option" where
  "runVerifier sha program enforces config exit = (case verifierPreflight program enforces config of
      Inl e \<Rightarrow> None
    | Inr (profile, argv) \<Rightarrow> map_option (\<lambda>x. buildTaskVerification sha profile argv (vx_code x) (vx_started x) (vx_finished x) (vx_output x)) exit)"

end
