(* ===== verification/Supervisor.thy ===== *)
theory Supervisor
  imports NodePolicy
begin

text \<open>
  The run supervisor of a Node (\<open>src/runtime/supervisor.ts\<close>) over the run file and the event log of a
  run (\<open>src/store.ts\<close>, \<open>src/events.ts\<close>): the gates before any agent runs, the chain of the primary agent and its fallbacks, the verification of a
  completed run and the one terminal status. \<open>stopRun\<close> (\<open>src/lib/run-actions.ts\<close>) runs in another process; it may act while the supervisor
  awaits an agent or the verifier, and it may end the supervisor's process. What the agents, the verifier, git, gh and the environment
  do are fields of \<open>sup_env\<close>. Texts of messages, times, process ids and the redaction of what is written are not modelled.
\<close>

section \<open>State\<close>

record run_file =
  rf_agent :: agent_backend
  rf_status :: run_status
  rf_node_id :: string
  rf_repo_url :: "string option"
  rf_workspace_key :: "string option"
  rf_workspace_write :: bool
  rf_workspace_lease_id :: "string option"
  rf_permission_mode :: "permission_mode option"
  rf_verify :: jsval
  rf_agent_policy :: "policy_metadata option"
  rf_started_agent :: "agent_backend option"
  rf_final_agent :: "agent_backend option"
  rf_switched :: bool
  rf_switch_reason :: "failure_reason option"
  rf_handoff_path :: "string option"
  rf_failure_reason :: "failure_reason option"
  rf_recoverable :: "bool option"
  rf_exit_code :: "int option"
  rf_error :: "string option"
  rf_result_status :: "task_result_status option"
  rf_task_result :: "task_result option"

datatype log_entry =
    StatusEntry run_status
  | ErrorEntry
  | SandboxEntry "deny_code + sandbox_mode"
  | VerifiedEntry task_verification
  | SwitchEntry agent_backend agent_backend failure_reason
  | AgentEntry

text \<open>\<open>sw_ran\<close> are the agents that were launched, each with the sandbox it was given and whether its prompt begins with the handoff.\<close>

record sup_world =
  sw_run :: run_file
  sw_events :: "log_entry list"
  sw_ran :: "(agent_backend \<times> sandbox_mode option \<times> bool) list"

record agent_outcome =
  ao_completed :: bool
  ao_failureMessage :: "string option"
  ao_tailOutput :: "string option"
  ao_exitCode :: "int option"
  ao_finalOutput :: "string option"

datatype stop_effect = NoStop | StopOnly | StopAndKill

text \<open>The \<open>n\<close>-th agent of the chain: how it ends (\<open>Inl\<close>: the adapter throws, with the message the supervisor makes of the exception), how many entries it writes, what a stop does meanwhile, the journal when its
  lease is read; and for the verifier that runs after it. \<open>v_handoff\<close> is the path of the handoff document if it could be written, \<open>v_composed\<close> whether the prompt of the
  fallback could.\<close>

record sup_env =
  v_preauth_flag :: "string option"
  v_wsl :: bool
  v_username :: "string option"
  v_enforce_flag :: "string option"
  v_allowlist :: "string option"
  v_checkout :: checkout
  v_program :: "nat \<Rightarrow> string \<Rightarrow> string option"
  v_enforces :: "nat \<Rightarrow> bool"
  v_journal :: "nat \<Rightarrow> journal"
  v_adapter :: "nat \<Rightarrow> string + agent_outcome"
  v_entries :: "nat \<Rightarrow> nat"
  v_stop :: "nat \<Rightarrow> stop_effect"
  v_exit :: "nat \<Rightarrow> verifier_exit option"
  v_stop_verifier :: "nat \<Rightarrow> stop_effect"
  v_handoff :: "nat \<Rightarrow> string option"
  v_composed :: "nat \<Rightarrow> bool"
  v_now :: string

definition updateRun :: "(run_file \<Rightarrow> run_file) \<Rightarrow> sup_world \<Rightarrow> sup_world" where
  "updateRun f w = w\<lparr>sw_run := f (sw_run w)\<rparr>"

definition appendEvent :: "log_entry \<Rightarrow> sup_world \<Rightarrow> sup_world" where
  "appendEvent e w = w\<lparr>sw_events := sw_events w @ [e]\<rparr>"

definition TERMINAL_STATES :: "run_status list" where
  "TERMINAL_STATES = [RsCompleted, RsFailed, RsStopped, RsCancelled]"

fun is_terminal_entry :: "log_entry \<Rightarrow> bool" where
  "is_terminal_entry (StatusEntry s) = (s \<in> set TERMINAL_STATES)"
| "is_terminal_entry _ = False"

definition stopRun :: "sup_world \<Rightarrow> sup_world" where
  "stopRun w = (if rf_status (sw_run w) \<in> set TERMINAL_STATES then w
     else updateRun (\<lambda>r. r\<lparr>rf_status := RsStopped\<rparr>) (appendEvent (StatusEntry RsStopped) w))"

fun stop_during :: "stop_effect \<Rightarrow> sup_world \<Rightarrow> sup_world" where
  "stop_during NoStop w = w"
| "stop_during _ w = stopRun w"

section \<open>Decisions\<close>

definition pushing :: "agent_backend list \<Rightarrow> bool" where
  "pushing chain = list_ex (\<lambda>a. a = ClaudeCode \<or> a = Codex) chain"

definition on_github :: "run_file \<Rightarrow> bool" where
  "on_github r = (case nonempty (rf_repo_url r) of None \<Rightarrow> False | Some url \<Rightarrow> str_includes (to_lower url) ''github.com'')"

definition shouldPreauth :: "sup_env \<Rightarrow> run_file \<Rightarrow> agent_backend list \<Rightarrow> bool" where
  "shouldPreauth v r chain = (preauthEnabled (v_preauth_flag v) (v_wsl v) \<and> on_github r \<and> pushing chain)"

definition shouldRepoGate :: "sup_env \<Rightarrow> run_file \<Rightarrow> agent_backend list \<Rightarrow> bool" where
  "shouldRepoGate v r chain = (repoAllowlistEnabled (v_enforce_flag v) \<and> on_github r \<and> pushing chain)"

definition ADAPTERS :: "agent_backend list" where
  "ADAPTERS = [Mock, ClaudeCode, Codex]"

text \<open>\<open>defaultResolveWorkspaceLease\<close>: a failing read counts as no lease.\<close>

definition resolveWorkspaceLease :: "journal \<Rightarrow> string \<Rightarrow> node_lease option" where
  "resolveWorkspaceLease j leaseId = (case fst (getWorkspaceLease leaseId j) of Inl _ \<Rightarrow> None | Inr l \<Rightarrow> l)"

definition deriveLeaseState :: "run_file \<Rightarrow> node_lease option \<Rightarrow> lease_decision" where
  "deriveLeaseState r lease = (case nonempty (rf_workspace_lease_id r) of
      None \<Rightarrow> NoLease
    | Some i \<Rightarrow> (case lease of
        None \<Rightarrow> InvalidLease
      | Some l \<Rightarrow>
          if nl_status (le_row l) \<noteq> LActive then InactiveLease
          else if nl_node_id (le_row l) \<noteq> rf_node_id r \<or> Some (nl_workspace_key (le_row l)) \<noteq> rf_workspace_key r then MismatchedLease
          else ActiveMatch))"

text \<open>The gate of a Codex run; \<open>None\<close> where it does not apply.\<close>

definition codex_gate :: "journal \<Rightarrow> agent_backend \<Rightarrow> run_file \<Rightarrow> (deny_code + sandbox_mode) option" where
  "codex_gate j agent r =
    (if agent = Codex \<and> rf_permission_mode r \<noteq> Some UnsafeSkip then
       Some (resolveCodexSandbox (rf_workspace_write r)
         (if rf_workspace_write r then
            deriveLeaseState r (case nonempty (rf_workspace_lease_id r) of None \<Rightarrow> None | Some i \<Rightarrow> resolveWorkspaceLease j i)
          else NoLease))
     else None)"

definition finalizeResult :: "(string \<Rightarrow> string) \<Rightarrow> string \<Rightarrow> agent_outcome \<Rightarrow> task_verification option \<Rightarrow> task_result_status \<times> task_result option" where
  "finalizeResult sha now out verification = (case ao_finalOutput out of
      Some t \<Rightarrow> if byteLen t \<le> MAX_FINAL_OUTPUT_BYTES then (RsAvailable, Some (buildTaskResult sha t (ao_exitCode out) now [] [] verification)) else (RsMissing, None)
    | None \<Rightarrow> (RsMissing, None))"

section \<open>The supervisor\<close>

definition fail_gate :: "failure_reason \<Rightarrow> agent_backend \<Rightarrow> sup_world \<Rightarrow> sup_world" where
  "fail_gate reason started w = appendEvent (StatusEntry RsFailed) (updateRun (\<lambda>r. r\<lparr>rf_status := RsFailed, rf_started_agent := Some started,
     rf_final_agent := Some started, rf_switched := False, rf_failure_reason := Some reason, rf_recoverable := Some False\<rparr>) (appendEvent ErrorEntry w))"

text \<open>What the switches so far have left: the reason of the last one and the handoff document. \<open>opt_set\<close> is the spread of a field that may be absent.\<close>

definition opt_set :: "'a option \<Rightarrow> 'a option \<Rightarrow> 'a option" where
  "opt_set new old = (case new of None \<Rightarrow> old | Some x \<Rightarrow> Some x)"

definition carried :: "failure_reason option \<Rightarrow> string option \<Rightarrow> run_file \<Rightarrow> run_file" where
  "carried reason handoff r = r\<lparr>rf_switch_reason := opt_set reason (rf_switch_reason r), rf_handoff_path := opt_set (nonempty handoff) (rf_handoff_path r)\<rparr>"

definition fail_run :: "failure_reason \<Rightarrow> agent_backend \<Rightarrow> failure_reason option \<Rightarrow> string option \<Rightarrow> sup_world \<Rightarrow> sup_world" where
  "fail_run reason agent sw handoff w = appendEvent (StatusEntry RsFailed) (updateRun (\<lambda>r. (carried sw handoff r)\<lparr>rf_status := RsFailed,
     rf_final_agent := Some agent, rf_switched := (sw \<noteq> None), rf_failure_reason := Some reason, rf_recoverable := Some False\<rparr>) (appendEvent ErrorEntry w))"

definition complete_run ::
  "(string \<Rightarrow> string) \<Rightarrow> string \<Rightarrow> agent_backend \<Rightarrow> failure_reason option \<Rightarrow> string option \<Rightarrow> agent_outcome \<Rightarrow> task_verification option \<Rightarrow> sup_world \<Rightarrow> sup_world" where
  "complete_run sha now agent sw handoff out verification w =
    (let (st, res) = finalizeResult sha now out verification in
     appendEvent (StatusEntry RsCompleted) (updateRun (\<lambda>r. (carried sw handoff r)\<lparr>rf_status := RsCompleted, rf_final_agent := Some agent,
       rf_switched := (sw \<noteq> None), rf_exit_code := opt_set (ao_exitCode out) (rf_exit_code r), rf_result_status := Some st,
       rf_task_result := opt_set res (rf_task_result r)\<rparr>) w))"

definition verify_and_complete ::
  "sup_env \<Rightarrow> (string \<Rightarrow> string) \<Rightarrow> nat \<Rightarrow> run_file \<Rightarrow> agent_backend \<Rightarrow> failure_reason option \<Rightarrow> string option \<Rightarrow> agent_outcome \<Rightarrow> sup_world \<Rightarrow> sup_world" where
  "verify_and_complete v sha n r agent sw handoff out w =
    (if \<not> truthy (rf_verify r) then complete_run sha (v_now v) agent sw handoff out None w
     else if isl (verifierPreflight (v_program v (n + 1)) (v_enforces v (n + 1)) (rf_verify r)) then fail_run VerifierUnavailable agent sw handoff w
     else if v_stop_verifier v n = StopAndKill then stop_during StopAndKill w
     else let w1 = stop_during (v_stop_verifier v n) w in
       (case runVerifier sha (v_program v (n + 1)) (v_enforces v (n + 1)) (rf_verify r) (v_exit v n) of
          None \<Rightarrow> fail_run VerifierUnavailable agent sw handoff w1
        | Some x \<Rightarrow> complete_run sha (v_now v) agent sw handoff out (Some x) (appendEvent (VerifiedEntry x) w1)))"

text \<open>A failed attempt that ends the run; the message of the failure is its error.\<close>

definition end_failed :: "failure_reason \<times> bool \<Rightarrow> agent_backend \<Rightarrow> failure_reason option \<Rightarrow> string option \<Rightarrow> agent_outcome \<Rightarrow> sup_world \<Rightarrow> sup_world" where
  "end_failed cls agent sw handoff out w = appendEvent (StatusEntry RsFailed) (updateRun (\<lambda>r. (carried sw handoff r)\<lparr>rf_status := RsFailed,
     rf_final_agent := Some agent, rf_switched := (sw \<noteq> None), rf_failure_reason := Some (fst cls), rf_recoverable := Some (snd cls),
     rf_exit_code := opt_set (ao_exitCode out) (rf_exit_code r), rf_error := opt_set (nonempty (ao_failureMessage out)) (rf_error r)\<rparr>) w)"

definition switch_agent :: "sup_env \<Rightarrow> nat \<Rightarrow> bool \<Rightarrow> agent_backend \<Rightarrow> agent_backend \<Rightarrow> failure_reason \<Rightarrow> string option \<Rightarrow> sup_world \<Rightarrow> string option \<times> sup_world" where
  "switch_agent v n handoffOnSwitch agent nxt reason handoff w =
    (let h = (if handoffOnSwitch then v_handoff v n else handoff);
         w1 = (if handoffOnSwitch \<and> v_handoff v n = None then appendEvent ErrorEntry w else w)
     in (h, updateRun (\<lambda>r. r\<lparr>rf_final_agent := Some nxt, rf_switched := True, rf_switch_reason := Some reason,
           rf_handoff_path := opt_set (nonempty h) (rf_handoff_path r)\<rparr>) (appendEvent (SwitchEntry agent nxt reason) w1)))"

definition outcome_of :: "string + agent_outcome \<Rightarrow> agent_outcome" where
  "outcome_of a = (case a of Inr out \<Rightarrow> out
     | Inl m \<Rightarrow> \<lparr>ao_completed = False, ao_failureMessage = Some m, ao_tailOutput = Some m, ao_exitCode = None, ao_finalOutput = None\<rparr>)"

definition failure_text :: "agent_outcome \<Rightarrow> string option" where
  "failure_text out = (case ao_tailOutput out of Some t \<Rightarrow> Some t | None \<Rightarrow> ao_failureMessage out)"

text \<open>One agent is run: what it and a stop leave, and an adapter that throws.\<close>

definition run_adapter :: "sup_env \<Rightarrow> nat \<Rightarrow> agent_backend \<Rightarrow> sandbox_mode option \<Rightarrow> bool \<Rightarrow> sup_world \<Rightarrow> sup_world" where
  "run_adapter v n agent box prompted w =
    (let w1 = stop_during (v_stop v n) (w\<lparr>sw_ran := sw_ran w @ [(agent, box, prompted)], sw_events := sw_events w @ replicate (v_entries v n) AgentEntry\<rparr>) in
     if isl (v_adapter v n) \<and> v_stop v n \<noteq> StopAndKill then appendEvent ErrorEntry w1 else w1)"

text \<open>The loop from the \<open>n\<close>-th agent of the chain on. \<open>handoff\<close> is \<open>handoffStr\<close>, \<open>prompted\<close> whether the context has the prompt of a fallback.\<close>

fun supervise ::
  "sup_env \<Rightarrow> (string \<Rightarrow> string) \<Rightarrow> agent_policy \<Rightarrow> nat \<Rightarrow> agent_backend list \<Rightarrow> failure_reason option \<Rightarrow> string option \<Rightarrow> bool \<Rightarrow> sup_world \<Rightarrow> sup_world" where
  "supervise v sha p n [] sw handoff prompted w = w"
| "supervise v sha p n (agent # rest) sw handoff prompted w =
    (let r = sw_run w in
     if agent \<notin> set ADAPTERS then fail_run InvalidTask agent sw handoff w
     else let gate = codex_gate (v_journal v n) agent r; w0 = (case gate of None \<Rightarrow> w | Some d \<Rightarrow> appendEvent (SandboxEntry d) w) in
       case gate of
         Some (Inl code) \<Rightarrow> fail_run PermissionDenied agent sw handoff w0
       | _ \<Rightarrow>
         (let box = (case gate of Some (Inr m) \<Rightarrow> Some m | _ \<Rightarrow> None);
              w1 = run_adapter v n agent box prompted w0;
              out = outcome_of (v_adapter v n) in
          if v_stop v n = StopAndKill \<or> rf_status (sw_run w1) = RsStopped then w1
          else if ao_completed out then verify_and_complete v sha n r agent sw handoff out w1
          else let cls = classifyFailure (failure_text out) in
            (case rest of
               [] \<Rightarrow> end_failed cls agent sw handoff out w1
             | nxt # _ \<Rightarrow>
                 if \<not> (snd cls \<and> fst cls \<in> set (ap_switchOn p)) then end_failed cls agent sw handoff out w1
                 else let (h, w2) = switch_agent v n (ap_handoffOnSwitch p) agent nxt (fst cls) handoff w1 in
                   supervise v sha p (n + 1) rest (Some (fst cls)) h (nonempty h \<noteq> None \<and> v_composed v n) w2)))"

definition runSupervisor :: "sup_env \<Rightarrow> (string \<Rightarrow> string) \<Rightarrow> sup_world \<Rightarrow> sup_world" where
  "runSupervisor v sha w =
    (let initial = sw_run w;
         p = resolveAgentPolicy (rf_agent initial) (rf_agent_policy initial);
         started = ap_primary p;
         chain = ap_primary p # ap_fallbacks p;
         w1 = appendEvent (StatusEntry RsRunning) (updateRun (\<lambda>r. r\<lparr>rf_started_agent := Some started\<rparr>) w)
     in if shouldPreauth v initial chain \<and> \<not> evaluatePreauth (v_username v) ALLOWED_GITHUB_ACCOUNTS then fail_gate AuthMisconfigured started w1
        else if shouldRepoGate v initial chain \<and>
          runRepoGate (resolveRepoAllowlist (v_allowlist v)) (v_checkout v) (the (rf_repo_url initial)) \<noteq> None
        then fail_gate (if runRepoGate (resolveRepoAllowlist (v_allowlist v)) (v_checkout v) (the (rf_repo_url initial)) = Some WorkspaceRepoMismatch
            then UnknownRepo else RepoIsNotAllowed) started w1
        else if truthy (rf_verify initial) \<and> isl (verifierPreflight (v_program v 0) (v_enforces v 0) (rf_verify initial))
        then fail_gate VerifierUnavailable started w1
        else supervise v sha p 0 chain None None False w1)"

end
