(* ===== verification/SupervisorFacts.thy ===== *)
theory SupervisorFacts
  imports Supervisor
begin

text \<open>
  What the supervisor of a Node guarantees: one terminal status per run, agents launched only behind the gates, in the order of the
  policy and in the narrowest sandbox, and completed runs whose verifier has run; and what the repository allowlist admits.
\<close>

section \<open>Terminal statuses\<close>

definition terminals :: "sup_world \<Rightarrow> log_entry list" where
  "terminals w = filter is_terminal_entry (sw_events w)"

definition open_run :: "sup_world \<Rightarrow> bool" where
  "open_run w \<longleftrightarrow> rf_status (sw_run w) \<notin> set TERMINAL_STATES \<and> terminals w = []"

definition ended_run :: "sup_world \<Rightarrow> bool" where
  "ended_run w \<longleftrightarrow> rf_status (sw_run w) \<in> set TERMINAL_STATES \<and> terminals w = [StatusEntry (rf_status (sw_run w))]"

lemma terminal_states [simp]: "RsCompleted \<in> set TERMINAL_STATES" "RsFailed \<in> set TERMINAL_STATES" "RsStopped \<in> set TERMINAL_STATES" "RsRunning \<notin> set TERMINAL_STATES"
  by (simp_all add: TERMINAL_STATES_def)

lemma world_ops [simp]:
  "terminals (updateRun f w) = terminals w" "sw_run (updateRun f w) = f (sw_run w)" "sw_ran (updateRun f w) = sw_ran w" "sw_events (updateRun f w) = sw_events w"
  "sw_run (appendEvent e w) = sw_run w" "sw_ran (appendEvent e w) = sw_ran w" "sw_events (appendEvent e w) = sw_events w @ [e]"
  "terminals (appendEvent e w) = (if is_terminal_entry e then terminals w @ [e] else terminals w)"
  by (simp_all add: terminals_def updateRun_def appendEvent_def)

lemma ends [simp]:
  "open_run w \<Longrightarrow> ended_run (fail_gate reason a w)"
  "open_run w \<Longrightarrow> ended_run (fail_run reason a sw h w)"
  "open_run w \<Longrightarrow> ended_run (complete_run sha now a sw h out x w)"
  "open_run w \<Longrightarrow> ended_run (end_failed cls a sw h out w)"
  "open_run w \<Longrightarrow> ended_run (stopRun w)"
  by (auto simp: open_run_def ended_run_def fail_gate_def fail_run_def complete_run_def end_failed_def stopRun_def split: prod.split)

lemma stays_open [simp]:
  "open_run w \<Longrightarrow> \<not> is_terminal_entry e \<Longrightarrow> open_run (appendEvent e w)"
  "open_run w \<Longrightarrow> rf_status (f (sw_run w)) = rf_status (sw_run w) \<Longrightarrow> open_run (updateRun f w)"
  by (simp_all add: open_run_def)

section \<open>Reasoning about the chain\<close>

definition step_gate :: "sup_env \<Rightarrow> nat \<Rightarrow> agent_backend \<Rightarrow> sup_world \<Rightarrow> sup_world" where
  "step_gate v n a w = (case codex_gate (v_journal v n) a (sw_run w) of None \<Rightarrow> w | Some d \<Rightarrow> appendEvent (SandboxEntry d) w)"

definition box_of :: "(deny_code + sandbox_mode) option \<Rightarrow> sandbox_mode option" where
  "box_of gate = (case gate of Some (Inr m) \<Rightarrow> Some m | _ \<Rightarrow> None)"

definition may_switch :: "agent_policy \<Rightarrow> agent_outcome \<Rightarrow> bool" where
  "may_switch p out \<longleftrightarrow> \<not> ao_completed out \<and> snd (classifyFailure (failure_text out)) \<and> fst (classifyFailure (failure_text out)) \<in> set (ap_switchOn p)"

lemma run_adapter_file:
  "v_stop v n = NoStop \<Longrightarrow> sw_run (run_adapter v n a box c w) = sw_run w"
  "v_stop v n \<noteq> NoStop \<Longrightarrow> rf_status (sw_run w) \<notin> set TERMINAL_STATES \<Longrightarrow> rf_status (sw_run (run_adapter v n a box c w)) = RsStopped"
  by (cases "v_stop v n"; simp add: run_adapter_def stopRun_def Let_def)+

lemma step_gate_file [simp]: "sw_run (step_gate v n a w) = sw_run w" "sw_ran (step_gate v n a w) = sw_ran w"
  by (simp_all add: step_gate_def split: option.split)

lemma switch_status [simp]: "rf_status (sw_run (snd (switch_agent v n b a nxt reason h w))) = rf_status (sw_run w)"
  by (simp add: switch_agent_def Let_def)

text \<open>A contract of a run that began with the file \<open>r0\<close>: \<open>I\<close> holds before the \<open>n\<close>-th agent of the chain \<open>c\<close>, \<open>J\<close> after it has run and was not stopped, \<open>Q\<close> at the end.\<close>

locale run_contract =
  fixes I J :: "run_file \<Rightarrow> sup_env \<Rightarrow> agent_policy \<Rightarrow> agent_backend list \<Rightarrow> nat \<Rightarrow> sup_world \<Rightarrow> bool"
    and Q :: "run_file \<Rightarrow> sup_env \<Rightarrow> agent_policy \<Rightarrow> agent_backend list \<Rightarrow> sup_world \<Rightarrow> bool"
  assumes no_adapter: "I r0 v p c n w \<Longrightarrow> n < length c \<Longrightarrow> Q r0 v p c (fail_run InvalidTask a sw h w)"
    and denied: "I r0 v p c n w \<Longrightarrow> n < length c \<Longrightarrow> Q r0 v p c (fail_run PermissionDenied a sw h (appendEvent (SandboxEntry d) w))"
    and launched: "I r0 v p c n w \<Longrightarrow> n < length c \<Longrightarrow> (\<And>code. codex_gate (v_journal v n) (c ! n) (sw_run w) \<noteq> Some (Inl code)) \<Longrightarrow>
      w1 = run_adapter v n (c ! n) (box_of (codex_gate (v_journal v n) (c ! n) (sw_run w))) b (step_gate v n (c ! n) w) \<Longrightarrow>
      (if v_stop v n = NoStop then J r0 v p c n w1 else Q r0 v p c w1)"
    and completed: "J r0 v p c n w \<Longrightarrow> rf_verify r = rf_verify (sw_run w) \<Longrightarrow> Q r0 v p c (verify_and_complete v sha n r a sw h out w)"
    and failed: "J r0 v p c n w \<Longrightarrow> Q r0 v p c (end_failed cls a sw h out w)"
    and switched: "J r0 v p c n w \<Longrightarrow> may_switch p (outcome_of (v_adapter v n)) \<Longrightarrow> I r0 v p c (n + 1) (snd (switch_agent v n hs a nxt reason h w))"
begin

lemma supervised: "n < length c \<Longrightarrow> I r0 v p c n w \<Longrightarrow> rf_status (sw_run w) \<notin> set TERMINAL_STATES \<Longrightarrow> Q r0 v p c (supervise v sha p n (drop n c) sw h b w)"
proof (induction "length c - n" arbitrary: n sw h b w)
  case (Suc k)
  let ?a = "c ! n" let ?g = "codex_gate (v_journal v n) ?a (sw_run w)" let ?out = "outcome_of (v_adapter v n)"
  let ?w1 = "run_adapter v n ?a (box_of ?g) b (step_gate v n ?a w)"
  have c: "drop n c = ?a # drop (n + 1) c" using Suc(3) by (simp add: Cons_nth_drop_Suc)
  show ?case
  proof (cases "?a \<in> set ADAPTERS \<and> (\<forall>code. ?g \<noteq> Some (Inl code))")
    case False
    then show ?thesis using no_adapter [OF Suc(4,3)] denied [OF Suc(4,3)] c by (auto simp: Let_def)
  next
    case True
    then have ok: "?a \<in> set ADAPTERS" "?g \<noteq> Some (Inl code)" for code by auto
    note l = launched [OF Suc(4,3) ok(2) refl, of b]
    have run: "supervise v sha p n (drop n c) sw h b w = (if v_stop v n = StopAndKill \<or> rf_status (sw_run ?w1) = RsStopped then ?w1
        else if ao_completed ?out then verify_and_complete v sha n (sw_run w) ?a sw h ?out ?w1
        else (case drop (n + 1) c of [] \<Rightarrow> end_failed (classifyFailure (failure_text ?out)) ?a sw h ?out ?w1
          | nxt # _ \<Rightarrow> if \<not> may_switch p ?out then end_failed (classifyFailure (failure_text ?out)) ?a sw h ?out ?w1
              else let (h', w2) = switch_agent v n (ap_handoffOnSwitch p) ?a nxt (fst (classifyFailure (failure_text ?out))) h ?w1 in
                supervise v sha p (n + 1) (drop (n + 1) c) (Some (fst (classifyFailure (failure_text ?out)))) h' (nonempty h' \<noteq> None \<and> v_composed v n) w2))"
      using ok unfolding c by (cases ?g; cases "the ?g") (auto simp: Let_def box_of_def step_gate_def may_switch_def split: list.split prod.split)
    show ?thesis
    proof (cases "v_stop v n = NoStop")
      case False
      then have "rf_status (sw_run ?w1) = RsStopped" using run_adapter_file(2) Suc(5) by simp
      then show ?thesis using run l False by simp
    next
      case True
      then have J: "J r0 v p c n ?w1" and f: "sw_run ?w1 = sw_run w" using l run_adapter_file(1) by simp_all
      then have go: "\<not> (v_stop v n = StopAndKill \<or> rf_status (sw_run ?w1) = RsStopped)" using Suc(5) True by auto
      have onward: "Q r0 v p c (supervise v sha p (n + 1) (drop (n + 1) c) sw' h' b' (snd (switch_agent v n hs ?a nxt reason h ?w1)))"
        if "may_switch p ?out" "n + 1 < length c" for sw' h' b' hs nxt reason
        using Suc(1) [of "n + 1"] Suc(2,5) switched [OF J that(1)] that(2) f by simp
      show ?thesis
      proof (cases "drop (n + 1) c")
        case Nil
        then show ?thesis using run go completed [OF J] failed [OF J] f by (simp del: supervise.simps)
      next
        case (Cons nxt rest)
        show ?thesis
        proof (cases "may_switch p ?out")
          case True
          let ?s = "switch_agent v n (ap_handoffOnSwitch p) ?a nxt (fst (classifyFailure (failure_text ?out))) h ?w1"
          have "supervise v sha p n (drop n c) sw h b w = supervise v sha p (n + 1) (drop (n + 1) c) (Some (fst (classifyFailure (failure_text ?out)))) (fst ?s)
              (nonempty (fst ?s) \<noteq> None \<and> v_composed v n) (snd ?s)"
            using run go True Cons by (simp add: may_switch_def split_beta Let_def del: supervise.simps)
          moreover have "n + 1 < length c" using Cons by (metis drop_all leI list.distinct(1))
          ultimately show ?thesis using onward [OF True] by simp
        next
          case False
          then show ?thesis using run go completed [OF J] failed [OF J] f Cons by (simp del: supervise.simps)
        qed
      qed
    qed
  qed
qed simp

end

section \<open>One terminal status\<close>

lemma run_adapter_ends:
  assumes "open_run w"
  shows "if v_stop v n = NoStop then open_run (run_adapter v n a box c w) else ended_run (run_adapter v n a box c w) \<and> rf_status (sw_run (run_adapter v n a box c w)) = RsStopped"
proof -
  let ?w = "w\<lparr>sw_ran := sw_ran w @ [(a, box, c)], sw_events := sw_events w @ replicate (v_entries v n) AgentEntry\<rparr>"
  have "open_run ?w" using assms by (simp add: open_run_def terminals_def)
  then have "ended_run (stopRun ?w)" "rf_status (sw_run (stopRun ?w)) = RsStopped" "open_run ?w"
    by (simp, simp add: stopRun_def open_run_def, simp)
  moreover have "ended_run w' \<Longrightarrow> ended_run (appendEvent ErrorEntry w')" for w' by (simp add: ended_run_def)
  ultimately show ?thesis by (cases "v_stop v n") (auto simp: run_adapter_def Let_def)
qed

lemma verify_ends:
  assumes "open_run w" and "v_stop_verifier v n \<noteq> StopOnly"
  shows "ended_run (verify_and_complete v sha n r a sw h out w)"
  using assms by (cases "v_stop_verifier v n") (auto simp: verify_and_complete_def Let_def split: option.split)

lemma switch_open: "open_run w \<Longrightarrow> open_run (snd (switch_agent v n b a nxt reason h w))"
  by (simp add: switch_agent_def Let_def)


text \<open>The contract that a run has ended exactly once, provided that no stop arrives while the verifier runs.\<close>

definition verifier_undisturbed :: "sup_env \<Rightarrow> bool" where
  "verifier_undisturbed v \<longleftrightarrow> (\<forall>n. v_stop_verifier v n \<noteq> StopOnly)"

interpretation ending: run_contract "\<lambda>r0 v p c n w. verifier_undisturbed v \<longrightarrow> open_run w" "\<lambda>r0 v p c n w. verifier_undisturbed v \<longrightarrow> open_run w"
  "\<lambda>r0 v p c w. verifier_undisturbed v \<longrightarrow> ended_run w"
proof (unfold_locales, goal_cases)
  case (3 r0 v p c n w w1 b)
  then have "verifier_undisturbed v \<Longrightarrow> open_run (step_gate v n (c ! n) w)" by (simp add: step_gate_def split: option.split)
  then show ?case using run_adapter_ends 3(4) by (auto split: if_splits)
next
  case (6 r0 v p c n w hs a nxt reason h)
  then show ?case using switch_open by blast
qed (simp_all add: verify_ends verifier_undisturbed_def)

section \<open>Launches\<close>

definition same_task :: "run_file \<Rightarrow> run_file \<Rightarrow> bool" where
  "same_task r r' \<longleftrightarrow> rf_node_id r' = rf_node_id r \<and> rf_workspace_key r' = rf_workspace_key r \<and> rf_workspace_write r' = rf_workspace_write r \<and>
     rf_workspace_lease_id r' = rf_workspace_lease_id r \<and> rf_permission_mode r' = rf_permission_mode r \<and> rf_verify r' = rf_verify r"

lemma same_gate:
  assumes "same_task r r'"
  shows "codex_gate j a r' = codex_gate j a r"
proof -
  have "deriveLeaseState r' l = deriveLeaseState r l" for l using assms by (simp add: deriveLeaseState_def same_task_def split: option.split)
  then show ?thesis using assms by (simp add: codex_gate_def same_task_def)
qed

lemma ran_unchanged [simp]:
  "sw_ran (fail_run reason a sw h w) = sw_ran w" "sw_ran (complete_run sha now a sw h out x w) = sw_ran w" "sw_ran (end_failed cls a sw h out w) = sw_ran w"
  "sw_ran (stopRun w) = sw_ran w" "sw_ran (snd (switch_agent v n b a nxt reason h w)) = sw_ran w" "sw_ran (fail_gate reason a w) = sw_ran w"
  by (simp_all add: fail_run_def complete_run_def end_failed_def stopRun_def switch_agent_def Let_def fail_gate_def split: prod.split)

lemma ran_stop [simp]: "sw_ran (stop_during e w) = sw_ran w"
  by (cases e) simp_all

lemma ran_verify [simp]: "sw_ran (verify_and_complete v sha n r a sw h out w) = sw_ran w"
  by (simp add: verify_and_complete_def Let_def split: option.split)

lemma run_adapter_ran [simp]: "sw_ran (run_adapter v n a box b w) = sw_ran w @ [(a, box, b)]"
  by (simp add: run_adapter_def Let_def)

lemma same_after [simp]:
  "same_task r (sw_run (run_adapter v n a box b w)) = same_task r (sw_run w)" "same_task r (sw_run (snd (switch_agent v n hs a nxt reason h w))) = same_task r (sw_run w)"
  by (cases "v_stop v n"; simp add: run_adapter_def Let_def stopRun_def same_task_def) (simp add: switch_agent_def Let_def same_task_def)

definition launches_ok :: "run_file \<Rightarrow> sup_env \<Rightarrow> agent_policy \<Rightarrow> agent_backend list \<Rightarrow> (agent_backend \<times> sandbox_mode option \<times> bool) list \<Rightarrow> bool" where
  "launches_ok r v p c ls \<longleftrightarrow> map fst ls = take (length ls) c \<and>
     (\<forall>i<length ls. (\<forall>code. codex_gate (v_journal v i) (c ! i) r \<noteq> Some (Inl code)) \<and> fst (snd (ls ! i)) = box_of (codex_gate (v_journal v i) (c ! i) r)) \<and>
     (\<forall>i. Suc i < length ls \<longrightarrow> may_switch p (outcome_of (v_adapter v i)))"

interpretation launch: run_contract
  "\<lambda>r0 v p c n w. same_task r0 (sw_run w) \<and> length (sw_ran w) = n \<and> launches_ok r0 v p c (sw_ran w) \<and> (\<forall>i<n. may_switch p (outcome_of (v_adapter v i)))"
  "\<lambda>r0 v p c n w. same_task r0 (sw_run w) \<and> length (sw_ran w) = n + 1 \<and> launches_ok r0 v p c (sw_ran w) \<and> (\<forall>i<n. may_switch p (outcome_of (v_adapter v i)))"
  "\<lambda>r0 v p c w. launches_ok r0 v p c (sw_ran w)"
proof (unfold_locales, goal_cases)
  case (3 r0 v p c n w w1 b)
  let ?x = "(c ! n, box_of (codex_gate (v_journal v n) (c ! n) (sw_run w)), b)"
  have ran: "sw_ran w1 = sw_ran w @ [?x]" using 3(4) by simp
  have l: "length (sw_ran w) = n" "launches_ok r0 v p c (sw_ran w)" "same_task r0 (sw_run w)" using 3(1) by auto
  have "launches_ok r0 v p c (sw_ran w1)"
    using l 3(1-3) same_gate [OF l(3)] unfolding launches_ok_def ran
    by (auto simp: take_Suc_conv_app_nth nth_append less_Suc_eq)
  then show ?case using 3 by simp
next
  case (6 r0 v p c n w hs a nxt reason h)
  then show ?case by (auto simp: less_Suc_eq)
qed simp_all

lemma journal_lease:
  assumes "resolveWorkspaceLease j i = Some l"
  shows "nodeLeaseRow j i = Some (le_row l)"
  using assms by (auto simp: resolveWorkspaceLease_def getWorkspaceLease_def jopen_def jread_def toLease_def split: if_splits option.splits sum.splits)

lemma gate_write:
  assumes "codex_gate j a r = Some (Inr WorkspaceWrite)"
  shows "rf_workspace_write r \<and> (\<exists>i l. rf_workspace_lease_id r = Some i \<and> nodeLeaseRow j i = Some l \<and> nl_status l = LActive \<and>
    nl_node_id l = rf_node_id r \<and> rf_workspace_key r = Some (nl_workspace_key l))"
proof -
  have w: "rf_workspace_write r" and d: "deriveLeaseState r (case nonempty (rf_workspace_lease_id r) of None \<Rightarrow> None | Some i \<Rightarrow> resolveWorkspaceLease j i) = ActiveMatch"
    using assms by (auto simp: codex_gate_def resolveCodexSandbox_def split: if_splits)
  from d obtain i l where i: "nonempty (rf_workspace_lease_id r) = Some i" "resolveWorkspaceLease j i = Some l" "nl_status (le_row l) = LActive"
    "nl_node_id (le_row l) = rf_node_id r" "Some (nl_workspace_key (le_row l)) = rf_workspace_key r"
    by (auto simp: deriveLeaseState_def split: option.splits if_splits)
  then show ?thesis using w journal_lease [OF i(2)] by (auto simp: nonempty_def split: if_splits)
qed

lemma gate_read: "codex_gate j a r = Some (Inr ReadOnly) \<Longrightarrow> \<not> rf_workspace_write r"
  by (auto simp: codex_gate_def resolveCodexSandbox_def split: if_splits)

section \<open>Verified runs\<close>

definition verified_end :: "run_file \<Rightarrow> sup_world \<Rightarrow> bool" where
  "verified_end r w \<longleftrightarrow> (rf_status (sw_run w) = RsCompleted \<and> truthy (rf_verify r) \<longrightarrow>
     (\<exists>x. VerifiedEntry x \<in> set (sw_events w) \<and> (tv_kind x = TestsPassed \<longleftrightarrow> tv_exit_code x = 0) \<and>
        (\<forall>t. rf_task_result (sw_run w) = Some t \<longrightarrow> tr_verification t = Some x)))"

definition unresolved :: "run_file \<Rightarrow> sup_world \<Rightarrow> bool" where
  "unresolved r w \<longleftrightarrow> rf_verify (sw_run w) = rf_verify r \<and> rf_status (sw_run w) \<notin> set TERMINAL_STATES \<and> rf_task_result (sw_run w) = None"

lemma verdict: "runVerifier sha program enforces config e = Some x \<Longrightarrow> tv_kind x = TestsPassed \<longleftrightarrow> tv_exit_code x = 0"
  by (auto simp: runVerifier_def buildTaskVerification_def split: sum.splits if_splits)

lemma not_completed [simp]: "verified_end r (fail_run reason a sw h w)" "verified_end r (end_failed cls a sw h out w)" "verified_end r (fail_gate reason a w)"
  by (simp_all add: verified_end_def fail_run_def end_failed_def fail_gate_def carried_def)

lemma completed_verified:
  assumes "unresolved r0 w" and "rf_verify r = rf_verify (sw_run w)"
  shows "verified_end r0 (verify_and_complete v sha n r a sw h out w)"
proof -
  let ?w = "stop_during (v_stop_verifier v n) w"
  have res: "rf_task_result (sw_run ?w) = None" using assms(1) by (cases "v_stop_verifier v n") (simp_all add: unresolved_def stopRun_def)
  have "verified_end r0 (stopRun w)" using assms(1) by (simp add: verified_end_def unresolved_def stopRun_def)
  moreover have "verified_end r0 (complete_run sha (v_now v) a sw h out None w)" if "\<not> truthy (rf_verify r)"
    using that assms by (simp add: verified_end_def unresolved_def)
  moreover have "verified_end r0 (complete_run sha (v_now v) a sw h out (Some x) (appendEvent (VerifiedEntry x) ?w))"
    if "runVerifier sha (v_program v (n + 1)) (v_enforces v (n + 1)) (rf_verify r) (v_exit v n) = Some x" for x
    using verdict [OF that] res
    by (auto simp: verified_end_def complete_run_def finalizeResult_def buildTaskResult_def opt_set_def carried_def split: option.splits)
  ultimately show ?thesis by (simp add: verify_and_complete_def Let_def split: option.split)
qed

interpretation verified: run_contract "\<lambda>r0 v p c n w. unresolved r0 w" "\<lambda>r0 v p c n w. unresolved r0 w" "\<lambda>r0 v p c w. verified_end r0 w"
proof (unfold_locales, goal_cases)
  case (3 r0 v p c n w w1 b)
  then have u: "unresolved r0 (step_gate v n (c ! n) w)" by (simp add: unresolved_def)
  have "rf_status (sw_run w1) = RsStopped" if "v_stop v n \<noteq> NoStop"
    using that run_adapter_file(2) [OF that] u 3(4) by (simp add: unresolved_def)
  then show ?case using u run_adapter_file(1) 3(4) by (auto simp: verified_end_def unresolved_def)
next
  case (6 r0 v p c n w hs a nxt reason h)
  then show ?case by (simp add: unresolved_def switch_agent_def Let_def)
qed (simp_all add: completed_verified)

section \<open>The whole run\<close>

definition run_policy :: "run_file \<Rightarrow> agent_policy" where
  "run_policy r = resolveAgentPolicy (rf_agent r) (rf_agent_policy r)"

definition chain_of :: "run_file \<Rightarrow> agent_backend list" where
  "chain_of r = ap_primary (run_policy r) # ap_fallbacks (run_policy r)"

definition gates_pass :: "sup_env \<Rightarrow> run_file \<Rightarrow> bool" where
  "gates_pass v r \<longleftrightarrow> (shouldPreauth v r (chain_of r) \<longrightarrow> evaluatePreauth (v_username v) ALLOWED_GITHUB_ACCOUNTS) \<and>
     (shouldRepoGate v r (chain_of r) \<longrightarrow> runRepoGate (resolveRepoAllowlist (v_allowlist v)) (v_checkout v) (the (rf_repo_url r)) = None) \<and>
     (truthy (rf_verify r) \<longrightarrow> \<not> isl (verifierPreflight (v_program v 0) (v_enforces v 0) (rf_verify r)))"

definition running :: "sup_world \<Rightarrow> sup_world" where
  "running w = appendEvent (StatusEntry RsRunning) (updateRun (\<lambda>r. r\<lparr>rf_started_agent := Some (ap_primary (run_policy r))\<rparr>) w)"

lemma runSupervisor_eq:
  "gates_pass v (sw_run w) \<Longrightarrow> runSupervisor v sha w = supervise v sha (run_policy (sw_run w)) 0 (chain_of (sw_run w)) None None False (running w)"
  "\<not> gates_pass v (sw_run w) \<Longrightarrow> \<exists>reason. runSupervisor v sha w = fail_gate reason (ap_primary (run_policy (sw_run w))) (running w)"
  by (auto simp: runSupervisor_def gates_pass_def Let_def running_def run_policy_def chain_of_def updateRun_def simp del: supervise.simps)

lemma running_file [simp]: "sw_ran (running w) = sw_ran w" "same_task (sw_run w) (sw_run (running w))" "rf_status (sw_run (running w)) = rf_status (sw_run w)"
  by (simp_all add: running_def same_task_def)

section \<open>The repository gate\<close>

lemma runRepoGate_iff:
  "runRepoGate al ck url = None \<longleftrightarrow> cleanRepoUrl url \<and> isRepoAllowed url al \<and>
     (\<forall>origin. nonempty (ck_origin ck) = Some origin \<longrightarrow> cleanRepoUrl origin \<and> isRepoAllowed origin al) \<and>
     (ck_empty ck = Some True \<or> ck_empty ck = Some False \<and> ck_git ck \<and>
        (\<exists>origin. nonempty (ck_origin ck) = Some origin \<and> normalizeRepoUrl origin = normalizeRepoUrl url))"
  by (cases "nonempty (ck_origin ck)"; cases "ck_empty ck") (auto simp: runRepoGate_def checkWorkspaceRepoMatch_def repo_check_def split: bool.split)

lemma segment_star: "segment_matches ''*'' s \<longleftrightarrow> s \<noteq> [] \<and> CHR ''/'' \<notin> set s"
proof (induction s)
  case (Cons c s)
  then show ?case by (cases s) auto
qed simp

lemma segment_text: "CHR ''*'' \<notin> set p \<Longrightarrow> segment_matches p s \<longleftrightarrow> to_lower p = to_lower s"
  by (induction p s rule: segment_matches.induct) (auto simp: to_lower_def)

lemma default_entries:
  "canonicalizeRepo ''https://github.com/JozzyAI/*'' = Some \<lparr>cn_host = ''github.com'', cn_owner = ''JozzyAI'', cn_repo = ''*''\<rparr>"
  "canonicalizeRepo ''git@github.com:JozzyAI/*'' = Some \<lparr>cn_host = ''github.com'', cn_owner = ''JozzyAI'', cn_repo = ''*''\<rparr>"
  "to_lower ''JozzyAI'' = ''jozzyai''"
  by code_simp+

lemma default_allowlist:
  assumes "isRemoteUrl url"
  shows "isRepoAllowed url DEFAULT_REPO_ALLOWLIST \<longleftrightarrow> (\<exists>c. canonicalizeRepo url = Some c \<and> cn_host c = ''github.com'' \<and> to_lower (cn_owner c) = ''jozzyai'' \<and>
    cn_repo c \<noteq> [] \<and> CHR ''/'' \<notin> set (cn_repo c))"
proof -
  have o: "segment_matches ''JozzyAI'' x \<longleftrightarrow> to_lower x = ''jozzyai''" for x using segment_text [of "''JozzyAI''" x] default_entries(3) by auto
  have "isRepoAllowed url DEFAULT_REPO_ALLOWLIST \<longleftrightarrow> (\<exists>c. canonicalizeRepo url = Some c \<and> cn_host c = ''github.com'' \<and>
      segment_matches ''JozzyAI'' (cn_owner c) \<and> segment_matches ''*'' (cn_repo c))"
    using assms unfolding isRepoAllowed_def DEFAULT_REPO_ALLOWLIST_def
    by (auto simp: default_entries split: option.splits simp del: segment_matches.simps)
  then show ?thesis by (simp only: o segment_star)
qed

end
