(* ===== verification/SupervisorProperties.thy ===== *)
theory SupervisorProperties
  imports SupervisorFacts
begin

text \<open>
  The properties of the Node's supervisor, with one run at which they are exercised: Codex is given write access under an active lease, hits its session limit, and
  the fallback completes the run; and a run that is stopped while its verifier runs.
\<close>

section \<open>A run\<close>

definition held_lease :: node_lease_row where
  "held_lease = \<lparr>nl_id = ''l'', nl_workflow_id = ''w'', nl_node_id = ''n'', nl_workspace_key = ''k'', nl_status = LActive, nl_acquired_at = None,
     nl_release_requested_at = None, nl_released_at = None, nl_base_revision = None, nl_current_revision = None, nl_created_at = '''', nl_updated_at = ''''\<rparr>"

definition first_outcome :: agent_outcome where
  "first_outcome = \<lparr>ao_completed = False, ao_failureMessage = None, ao_tailOutput = Some ''Session limit reached'', ao_exitCode = Some 1, ao_finalOutput = None\<rparr>"

definition final_outcome :: agent_outcome where
  "final_outcome = \<lparr>ao_completed = True, ao_failureMessage = None, ao_tailOutput = None, ao_exitCode = Some 0, ao_finalOutput = None\<rparr>"

definition clean_exit :: verifier_exit where
  "clean_exit = \<lparr>vx_code = 0, vx_started = '''', vx_finished = '''', vx_output = ''''\<rparr>"

definition node_env :: "stop_effect \<Rightarrow> sup_env" where
  "node_env stop = \<lparr>v_preauth_flag = None, v_wsl = False, v_username = None, v_enforce_flag = None, v_allowlist = None,
     v_checkout = \<lparr>ck_empty = Some True, ck_git = False, ck_origin = None\<rparr>, v_program = (\<lambda>n p. Some p), v_enforces = (\<lambda>n. True),
     v_journal = (\<lambda>n. empty_journal\<lparr>nj_leases := [held_lease]\<rparr>), v_adapter = (\<lambda>n. Inr (if n = 0 then first_outcome else final_outcome)), v_entries = (\<lambda>n. 1),
     v_stop = (\<lambda>n. NoStop), v_exit = (\<lambda>n. Some clean_exit), v_stop_verifier = (\<lambda>n. stop), v_handoff = (\<lambda>n. None), v_composed = (\<lambda>n. False), v_now = ''''\<rparr>"

definition new_file :: run_file where
  "new_file = \<lparr>rf_agent = Codex, rf_status = RsRunning, rf_node_id = ''n'', rf_repo_url = Some ''https://github.com/JozzyAI/app'', rf_workspace_key = Some ''k'',
     rf_workspace_write = True, rf_workspace_lease_id = Some ''l'', rf_permission_mode = None, rf_verify = JObj [(''profile'', JStr ''node-test'')],
     rf_agent_policy = Some \<lparr>pm_fallbacks = Some [''claude-code''], pm_switch_on = None, pm_preserve_workspace = None, pm_handoff_on_switch = Some False\<rparr>,
     rf_started_agent = None, rf_final_agent = None, rf_switched = False, rf_switch_reason = None, rf_handoff_path = None, rf_failure_reason = None,
     rf_recoverable = None, rf_exit_code = None, rf_error = None, rf_result_status = None, rf_task_result = None\<rparr>"

definition fresh_run :: sup_world where
  "fresh_run = \<lparr>sw_run = new_file, sw_events = [], sw_ran = []\<rparr>"

lemma run_launches: "sw_ran (runSupervisor (node_env NoStop) id fresh_run) = [(Codex, Some WorkspaceWrite, False), (ClaudeCode, None, False)]"
  by code_simp

lemma sample_run_status: "rf_status (sw_run (runSupervisor (node_env NoStop) id fresh_run)) = RsCompleted"
  by code_simp





section \<open>Properties\<close>

text \<open>C22: a run ends with exactly one terminal status in its log, and it is the status of its file, whichever agents fail, whichever gate refuses and whenever
  the run is stopped, except that a stop may not arrive while the verifier runs.\<close>

theorem supervisor_ends_once:
  assumes "rf_status (sw_run w) \<notin> set TERMINAL_STATES" and "filter is_terminal_entry (sw_events w) = []" and "\<And>n. v_stop_verifier v n \<noteq> StopOnly"
  shows "rf_status (sw_run (runSupervisor v sha w)) \<in> set TERMINAL_STATES \<and>
    filter is_terminal_entry (sw_events (runSupervisor v sha w)) = [StatusEntry (rf_status (sw_run (runSupervisor v sha w)))]"
proof -
  let ?r = "sw_run w"
  have "open_run (running w)" using assms(1,2) by (simp add: open_run_def running_def terminals_def)
  moreover have "0 < length (chain_of ?r)" by (simp add: chain_of_def)
  ultimately have "verifier_undisturbed v \<longrightarrow> ended_run (supervise v sha (run_policy ?r) 0 (drop 0 (chain_of ?r)) None None False (running w))"
    using assms(1) by (intro ending.supervised) (auto simp: running_file)
  then have "ended_run (runSupervisor v sha w)"
    using assms(3) runSupervisor_eq [of v w sha] \<open>open_run (running w)\<close> by (cases "gates_pass v ?r") (auto simp: verifier_undisturbed_def simp del: supervise.simps)
  then show ?thesis by (simp add: ended_run_def terminals_def)
qed

theorem supervisor_ends_once_witness:
  "filter is_terminal_entry (sw_events (runSupervisor (node_env NoStop) id fresh_run)) = [StatusEntry RsCompleted]"
  using supervisor_ends_once [of fresh_run "node_env NoStop" id] sample_run_status by (simp add: fresh_run_def new_file_def node_env_def)



text \<open>C24: an agent is launched only behind the gates that apply: for a GitHub repository and a chain with an agent that pushes, the resolved account is an allowed one, and the address
  of the repository has no credentials and is on the allowlist, as is the origin of a workspace that is not empty, which is the same repository; and where tests have to be run, the
  Node can run them.\<close>

theorem agents_run_behind_gates:
  assumes "sw_ran w = []" and "sw_ran (runSupervisor v sha w) \<noteq> []" and "r = sw_run w" and "url = the (rf_repo_url r)" and "al = resolveRepoAllowlist (v_allowlist v)"
  shows "(shouldPreauth v r (chain_of r) \<longrightarrow> (\<exists>u. v_username v = Some u \<and> u \<in> set ALLOWED_GITHUB_ACCOUNTS)) \<and>
    (shouldRepoGate v r (chain_of r) \<longrightarrow> cleanRepoUrl url \<and> isRepoAllowed url al \<and>
       (ck_empty (v_checkout v) = Some True \<or> (\<exists>origin. ck_origin (v_checkout v) = Some origin \<and> normalizeRepoUrl origin = normalizeRepoUrl url \<and>
          cleanRepoUrl origin \<and> isRepoAllowed origin al))) \<and>
    (truthy (rf_verify r) \<longrightarrow> (\<exists>profile argv. verifierPreflight (v_program v 0) (v_enforces v 0) (rf_verify r) = Inr (profile, argv)))"
proof -
  have g: "gates_pass v r" using runSupervisor_eq(2) [of v w sha] assms(1-3) by (cases "gates_pass v r") auto
  have "\<exists>u. v_username v = Some u \<and> u \<in> set ALLOWED_GITHUB_ACCOUNTS" if "evaluatePreauth (v_username v) ALLOWED_GITHUB_ACCOUNTS"
    using that by (auto simp: evaluatePreauth_def nonempty_def split: option.splits if_splits)
  moreover have "\<exists>profile argv. x = Inr (profile, argv)" if "\<not> isl x" for x :: "preflight_error + string \<times> string list"
    using that by (cases x) auto
  ultimately show ?thesis using g unfolding gates_pass_def runRepoGate_iff assms(4,5)
    by (auto simp: nonempty_def split: if_splits)
qed

theorem agents_run_behind_gates_witness:
  "sw_ran (runSupervisor (node_env NoStop) id fresh_run) \<noteq> [] \<and> cleanRepoUrl ''https://github.com/JozzyAI/app'' \<and>
   isRepoAllowed ''https://github.com/JozzyAI/app'' (resolveRepoAllowlist None)"
proof -
  have g: "shouldRepoGate (node_env NoStop) new_file (chain_of new_file)" by code_simp
  show ?thesis using agents_run_behind_gates [of fresh_run "node_env NoStop" id, OF _ _ refl refl refl] run_launches g
    by (simp add: fresh_run_def) (simp add: new_file_def node_env_def)
qed



text \<open>C26: the default allowlist admits a remote address exactly when it parses to a repository on github.com whose owner is JozzyAI, without regard to case, and whose
  name is one path segment.\<close>

theorem default_allowlist_is_exact:
  assumes "isRemoteUrl url"
  shows "isRepoAllowed url (resolveRepoAllowlist None) \<longleftrightarrow> (\<exists>c. canonicalizeRepo url = Some c \<and> cn_host c = ''github.com'' \<and> to_lower (cn_owner c) = ''jozzyai'' \<and>
    cn_repo c \<noteq> [] \<and> CHR ''/'' \<notin> set (cn_repo c))"
proof -
  have "resolveRepoAllowlist None = DEFAULT_REPO_ALLOWLIST" by code_simp
  then show ?thesis using default_allowlist [OF assms] by simp
qed

theorem default_allowlist_is_exact_witness:
  "\<not> isRepoAllowed ''ssh://git@github.com:22/other/app.git'' (resolveRepoAllowlist None) \<and> isRemoteUrl ''ssh://git@github.com:22/other/app.git''"
proof -
  have u: "isRemoteUrl ''ssh://git@github.com:22/other/app.git''" by code_simp
  have "canonicalizeRepo ''ssh://git@github.com:22/other/app.git'' = Some \<lparr>cn_host = ''github.com'', cn_owner = ''other'', cn_repo = ''app''\<rparr>"
    "to_lower ''other'' = ''other''" by code_simp+
  then show ?thesis using default_allowlist_is_exact [OF u] u by simp
qed

text \<open>A stop that arrives while the verifier runs, and that the process survives, is overwritten: the log has two terminal statuses.\<close>

lemma stop_during_verification_is_lost: "filter is_terminal_entry (sw_events (runSupervisor (node_env StopOnly) id fresh_run)) = [StatusEntry RsStopped, StatusEntry RsCompleted]"
  by code_simp

text \<open>A glob of the allowlist matches every text without a slash, so an allowed URL may hold characters that mean
  something to the shell, to which \<open>cloneIfEmpty\<close> passes it unquoted.\<close>

lemma allowlist_admits_shell_text:
  "cleanRepoUrl ''https://github.com/JozzyAI/x;id'' \<and> isRepoAllowed ''https://github.com/JozzyAI/x;id'' DEFAULT_REPO_ALLOWLIST"
  by code_simp

end
