(* ===== verification/EventStream.thy ===== *)
theory EventStream
  imports StoreProperties StoreReads JsonParse
begin

text \<open>
  The event stream of a workflow (\<open>src/workflow/event-stream.ts\<close>): replay after the client's cursor, then polling of the durable event
  log. The log and the row of the workflow are read by two awaited
  calls, so transactions may run between them; the store answers at once, so that the ticks of one stream
  do not overlap. HTTP headers, heartbeats and the text of frames are not modelled.
\<close>

section \<open>The stream\<close>

definition STREAM_END_EVENTS :: "workflow_event_type list" where
  "STREAM_END_EVENTS = [EvCompleted, EvFailed, EvCancelled, EvBlocked]"

definition WF_TERMINAL :: "workflow_status list" where
  "WF_TERMINAL = [WCompleted, WFailed, WCancelled, WBlocked]"

text \<open>\<open>Number\<close> of a text of digits; the header is the first of several.\<close>

definition parseWorkflowCursor :: "string option \<Rightarrow> int" where
  "parseWorkflowCursor h = (case h of None \<Rightarrow> -1 | Some raw \<Rightarrow> if raw \<noteq> [] \<and> list_all is_digit raw then digits_value raw else -1)"

text \<open>A stream is closed at the end of the workflow or because its client is gone.\<close>

datatype stream_state = Streaming | Ended | Gone

record event_stream =
  es_cursor :: int
  es_state :: stream_state
  es_warned :: bool
  es_frames :: "workflow_event_row list"

definition open_stream :: "string option \<Rightarrow> event_stream" where
  "open_stream h = \<lparr>es_cursor = parseWorkflowCursor h, es_state = Streaming, es_warned = False, es_frames = []\<rparr>"

definition cleanup :: "stream_state \<Rightarrow> event_stream \<Rightarrow> event_stream" where
  "cleanup why st = (if es_state st \<noteq> Streaming then st else st\<lparr>es_state := why\<rparr>)"

definition write_event :: "workflow_event_row \<Rightarrow> event_stream \<Rightarrow> event_stream" where
  "write_event e st = st\<lparr>es_frames := es_frames st @ [e], es_cursor := we_sequence e\<rparr>"

text \<open>Writing the events; \<open>budget\<close> is the number of writes before one throws, \<open>None\<close> if none does.\<close>

fun write_events :: "nat option \<Rightarrow> workflow_event_row list \<Rightarrow> event_stream \<Rightarrow> event_stream" where
  "write_events budget [] st = st"
| "write_events budget (e # es) st = (case budget of
      Some 0 \<Rightarrow> cleanup Gone st
    | Some (Suc k) \<Rightarrow> write_events (Some k) es (write_event e st)
    | None \<Rightarrow> write_events None es (write_event e st))"

definition truncated_warning :: "workflow_row option \<Rightarrow> event_stream \<Rightarrow> bool" where
  "truncated_warning rec st = (\<not> es_warned st \<and> (case rec of None \<Rightarrow> False
     | Some w \<Rightarrow> wf_earliest_retained_sequence w > 0 \<and> es_cursor st + 1 < wf_earliest_retained_sequence w))"

definition tick :: "nat option \<Rightarrow> workflow_event_row list \<Rightarrow> workflow_row option \<Rightarrow> event_stream \<Rightarrow> event_stream" where
  "tick budget events rec st =
    (if es_state st \<noteq> Streaming then st
     else if truncated_warning rec st \<and> budget = Some 0 then cleanup Gone (st\<lparr>es_warned := True\<rparr>)
     else let warn = truncated_warning rec st;
              st1 = write_events (if warn then map_option (\<lambda>k. k - 1) budget else budget) events (if warn then st\<lparr>es_warned := True\<rparr> else st);
              endReached = list_ex (\<lambda>e. we_type e \<in> set STREAM_END_EVENTS) events
       in if es_state st1 \<noteq> Streaming then st1
          else (case rec of
              None \<Rightarrow> st1
            | Some w \<Rightarrow> if (endReached \<or> wf_status w \<in> set WF_TERMINAL) \<and> wf_last_event_sequence w \<le> es_cursor st1 then cleanup Ended st1 else st1))"

text \<open>One poll: whether the client closed the connection before it, the transactions before it, those
  between its two reads, and how its writes go. A poll whose reads fail does nothing.\<close>

record stream_poll =
  po_close :: bool
  po_before :: "(string \<times> store_call) list"
  po_between :: "(string \<times> store_call) list"
  po_fails :: bool
  po_budget :: "nat option"

definition poll_stream :: "string \<Rightarrow> stream_poll \<Rightarrow> wstore \<times> event_stream \<Rightarrow> wstore \<times> event_stream" where
  "poll_stream wid p x =
    (let s1 = run_calls (po_before p) (fst x);
         s2 = run_calls (po_between p) s1;
         st = (if po_close p then cleanup Gone (snd x) else snd x)
     in (s2, if po_fails p then st
             else tick (po_budget p) (listWorkflowEvents wid (es_cursor st) (Some 1000) s1) (workflowRow s2 wid) st))"

definition streamWorkflowEvents :: "string \<Rightarrow> string option \<Rightarrow> stream_poll list \<Rightarrow> wstore \<Rightarrow> wstore \<times> event_stream" where
  "streamWorkflowEvents wid h polls s = fold (poll_stream wid) polls (s, open_stream h)"

section \<open>Delivery\<close>

text \<open>A log whose events are numbered from zero.\<close>

definition numbered :: "workflow_event_row list \<Rightarrow> bool" where
  "numbered log \<longleftrightarrow> (\<forall>k<length log. we_sequence (log ! k) = int k)"

lemma numbered_snoc: "numbered (log @ [e]) \<longleftrightarrow> numbered log \<and> we_sequence e = int (length log)"
  by (auto simp: numbered_def nth_append less_Suc_eq)

lemma numbered_upto: "map we_sequence log = [0..hi] \<Longrightarrow> numbered log"
proof (induction log arbitrary: hi rule: rev_induct)
  case (snoc e log)
  have "0 \<le> hi" using snoc(2) by (cases "0 \<le> hi") auto
  then have "[0..hi] = [0..hi - 1] @ [hi]" by (simp add: upto_rec2)
  with snoc(2) have m: "map we_sequence log = [0..hi - 1]" "we_sequence e = hi" by simp_all
  then have "length log = nat hi" by (metis length_map length_upto diff_0_right diff_add_cancel)
  then show ?case using snoc(1) [OF m(1)] m(2) \<open>0 \<le> hi\<close> by (simp add: numbered_snoc)
qed (simp add: numbered_def)

lemma filter_numbered:
  assumes "numbered log"
  shows "filter (\<lambda>e. int k \<le> we_sequence e \<and> we_sequence e < int n) log = drop k (take n log)"
  using assms
proof (induction log rule: rev_induct)
  case (snoc e log)
  then have "numbered log" "we_sequence e = int (length log)" by (simp_all add: numbered_snoc)
  then show ?case using snoc(1) by (cases "k \<le> length log"; cases "length log < n") auto
qed simp

text \<open>Writing delivers a first part of the events; all of them, if the stream goes on.\<close>

lemma write_events_part:
  assumes "es_state st = Streaming"
  obtains j where "j \<le> length es" and "es_frames (write_events b es st) = es_frames st @ take j es"
    and "es_cursor (write_events b es st) = (if j = 0 then es_cursor st else we_sequence (es ! (j - 1)))"
    and "es_state (write_events b es st) = Streaming \<Longrightarrow> j = length es" and "es_state (write_events b es st) \<noteq> Ended"
proof -
  have "\<exists>j\<le>length es. es_frames (write_events b es st) = es_frames st @ take j es \<and>
      es_cursor (write_events b es st) = (if j = 0 then es_cursor st else we_sequence (es ! (j - 1))) \<and>
      (es_state (write_events b es st) = Streaming \<longrightarrow> j = length es) \<and> es_state (write_events b es st) \<noteq> Ended"
    using assms
  proof (induction b es st rule: write_events.induct)
    case (2 budget e es st)
    have *: ?case if b: "budget \<noteq> Some 0" "write_events budget (e # es) st = write_events budget' es (write_event e st)"
      and ih: "\<exists>j\<le>length es. es_frames (write_events budget' es (write_event e st)) = es_frames (write_event e st) @ take j es \<and>
        es_cursor (write_events budget' es (write_event e st)) = (if j = 0 then es_cursor (write_event e st) else we_sequence (es ! (j - 1))) \<and>
        (es_state (write_events budget' es (write_event e st)) = Streaming \<longrightarrow> j = length es) \<and> es_state (write_events budget' es (write_event e st)) \<noteq> Ended" for budget'
    proof -
      from ih obtain j where "j \<le> length es" "es_frames (write_events budget' es (write_event e st)) = es_frames (write_event e st) @ take j es"
        "es_cursor (write_events budget' es (write_event e st)) = (if j = 0 then es_cursor (write_event e st) else we_sequence (es ! (j - 1)))"
        "es_state (write_events budget' es (write_event e st)) = Streaming \<longrightarrow> j = length es" "es_state (write_events budget' es (write_event e st)) \<noteq> Ended" by blast
      then show ?thesis unfolding b(2) by (intro exI [of _ "Suc j"]) (auto simp: write_event_def nth_Cons')
    qed
    have st: "es_state (write_event e st) = Streaming" using 2(3) by (simp add: write_event_def)
    show ?case
    proof (cases budget)
      case None
      then show ?thesis using * [of None] 2(1) [OF None st] by simp
    next
      case (Some n)
      then show ?thesis
      proof (cases n)
        case 0
        then show ?thesis using Some 2(3) by (intro exI [of _ 0]) (simp add: cleanup_def)
      next
        case (Suc k)
        then show ?thesis using * [of "Some k"] 2(2) [of n k, OF _ _ st] Some by simp
      qed
    qed
  qed simp
  then show ?thesis using that by blast
qed

text \<open>What one read returns, once \<open>k\<close> events of the log lie behind the cursor.\<close>

lemma listed_events:
  assumes "numbered (events_of s wid)"
  shows "listWorkflowEvents wid (int k - 1) (Some 1000) s = take 1000 (drop k (events_of s wid))"
proof -
  let ?log = "events_of s wid"
  have bound: "we_sequence e < int (length ?log)" if "e \<in> set ?log" for e
    using assms that by (auto simp: numbered_def in_set_conv_nth)
  have "filter (\<lambda>e. int k - 1 < we_sequence e) ?log = filter (\<lambda>e. int k \<le> we_sequence e \<and> we_sequence e < int (length ?log)) ?log"
    using bound by (intro filter_cong) auto
  also have "\<dots> = drop k ?log" using filter_numbered [OF assms] by simp
  finally have f: "filter (\<lambda>e. int k - 1 < we_sequence e) ?log = drop k ?log" .
  have "sorted (map we_sequence (drop k ?log))"
    using assms by (auto simp: numbered_def sorted_iff_nth_mono)
  then have "sort_key we_sequence (drop k ?log) = drop k ?log" by (rule sort_key_id_if_sorted)
  with f show ?thesis by (simp add: listWorkflowEvents_def page_def clampLimit_def clampOffset_def)
qed

text \<open>What the stream has delivered: the events from \<open>k0\<close> up to its cursor.\<close>

definition delivered :: "nat \<Rightarrow> workflow_event_row list \<Rightarrow> event_stream \<Rightarrow> nat \<Rightarrow> bool" where
  "delivered k0 log st k \<longleftrightarrow> k0 \<le> k \<and> es_cursor st = int k - 1 \<and> es_frames st = drop k0 (take k log) \<and> (k = k0 \<or> k \<le> length log)"

lemma delivered_later: "delivered k0 log st k \<Longrightarrow> delivered k0 (log @ log') st k"
  by (auto simp: delivered_def)

lemma delivered_write:
  assumes "numbered log" and "delivered k0 log st k" and "es_state st = Streaming" and "es = take m (drop k log)"
  obtains k' where "delivered k0 log (write_events b es st) k'"
    and "es_state (write_events b es st) = Streaming \<Longrightarrow> k' = k + length es" and "es_state (write_events b es st) \<noteq> Ended"
proof -
  from assms(2) have d: "k0 \<le> k" "es_cursor st = int k - 1" "es_frames st = drop k0 (take k log)" "k = k0 \<or> k \<le> length log"
    by (simp_all add: delivered_def)
  from write_events_part [OF assms(3), of es b] obtain j where j: "j \<le> length es"
    and f: "es_frames (write_events b es st) = es_frames st @ take j es"
    and c: "es_cursor (write_events b es st) = (if j = 0 then es_cursor st else we_sequence (es ! (j - 1)))"
    and s: "es_state (write_events b es st) = Streaming \<Longrightarrow> j = length es" "es_state (write_events b es st) \<noteq> Ended" by metis
  have "k + j \<le> length log" if "j \<noteq> 0"
  proof -
    have "j \<le> length log - k" using j assms(4) by simp
    then show ?thesis using that by linarith
  qed
  moreover have "we_sequence (es ! (j - 1)) = int (k + j) - 1" if "j \<noteq> 0"
    using j that assms(1,4) by (auto simp: numbered_def nth_take nth_drop)
  moreover have "take j es = drop k (take (k + j) log)" using j assms(4) by (simp add: drop_take min_absorb1)
  then have "es_frames st @ take j es = drop k0 (take (k + j) log)"
    using d by (cases "j = 0") (auto simp: take_add drop_take)
  ultimately have "delivered k0 log (write_events b es st) (k + j)"
    using d f c by (cases "j = 0") (auto simp: delivered_def)
  then show ?thesis using s that by blast
qed

lemma write_all: "es_state (write_events None es st) = es_state st"
  by (induction es arbitrary: st) (simp_all add: write_event_def)

lemma delivered_fields: "delivered k0 log (cleanup why st) k = delivered k0 log st k"
  "delivered k0 log (st\<lparr>es_warned := b\<rparr>) k = delivered k0 log st k"
  by (simp_all add: delivered_def cleanup_def)

text \<open>A tick delivers more of the log; it ends the stream only with the cursor at the last event, and a tick whose
  writes all succeed delivers a page.\<close>

lemma tick_delivers:
  assumes "numbered log" and "delivered k0 log st k" and "es = take m (drop k log)"
  obtains k' where "delivered k0 log (tick b es rec st) k'"
    and "es_state st = Streaming \<Longrightarrow> es_state (tick b es rec st) = Ended \<Longrightarrow> \<exists>w. rec = Some w \<and> wf_last_event_sequence w \<le> int k' - 1"
    and "es_state st = Streaming \<Longrightarrow> b = None \<Longrightarrow> rec = Some w \<Longrightarrow> k' = k + length es \<and>
      es_state (tick b es rec st) = (if (list_ex (\<lambda>e. we_type e \<in> set STREAM_END_EVENTS) es \<or> wf_status w \<in> set WF_TERMINAL) \<and>
        wf_last_event_sequence w \<le> int k' - 1 then Ended else Streaming)"
proof (cases "es_state st = Streaming \<and> \<not> (truncated_warning rec st \<and> b = Some 0)")
  case False
  then have "tick b es rec st = st \<and> es_state st \<noteq> Streaming \<or> tick b es rec st = cleanup Gone (st\<lparr>es_warned := True\<rparr>) \<and> b = Some 0 \<and> es_state st = Streaming"
    by (auto simp: tick_def)
  then show ?thesis using assms(2) that [of k] by (auto simp: delivered_fields, auto simp: cleanup_def)
next
  case True
  define warn where "warn = truncated_warning rec st"
  define st0 where "st0 = (if warn then st\<lparr>es_warned := True\<rparr> else st)"
  define b0 where "b0 = (if warn then map_option (\<lambda>k. k - 1) b else b)"
  have st0: "es_state st0 = Streaming" "delivered k0 log st0 k" using True assms(2) by (simp_all add: st0_def delivered_fields)
  from delivered_write [OF assms(1) st0(2,1) assms(3), of b0] obtain k' where
    k': "delivered k0 log (write_events b0 es st0) k'"
    and s: "es_state (write_events b0 es st0) = Streaming \<Longrightarrow> k' = k + length es" "es_state (write_events b0 es st0) \<noteq> Ended" by metis
  have eq: "tick b es rec st = (let st1 = write_events b0 es st0 in if es_state st1 \<noteq> Streaming then st1 else
      (case rec of None \<Rightarrow> st1 | Some w \<Rightarrow> if (list_ex (\<lambda>e. we_type e \<in> set STREAM_END_EVENTS) es \<or> wf_status w \<in> set WF_TERMINAL) \<and>
        wf_last_event_sequence w \<le> es_cursor st1 then cleanup Ended st1 else st1))"
    using True by (simp add: tick_def st0_def b0_def warn_def Let_def)
  have c: "es_cursor (write_events b0 es st0) = int k' - 1" using k' by (simp add: delivered_def)
  show ?thesis
  proof (rule that [of k'])
    show "delivered k0 log (tick b es rec st) k'"
      using k' by (simp add: eq Let_def delivered_fields split: option.splits)
    show "\<exists>w. rec = Some w \<and> wf_last_event_sequence w \<le> int k' - 1" if "es_state (tick b es rec st) = Ended"
      using that s(2) c by (auto simp: eq Let_def split: option.splits if_splits)
    show "k' = k + length es \<and> es_state (tick b es rec st) = (if (list_ex (\<lambda>e. we_type e \<in> set STREAM_END_EVENTS) es \<or>
        wf_status w \<in> set WF_TERMINAL) \<and> wf_last_event_sequence w \<le> int k' - 1 then Ended else Streaming)" if "b = None" "rec = Some w"
    proof -
      have "es_state (write_events b0 es st0) = Streaming" using that(1) st0(1) by (simp add: b0_def write_all)
      then show ?thesis using s(1) c eq that(2) by (simp add: Let_def cleanup_def)
    qed
  qed
qed

section \<open>The stream over the store\<close>

lemma log_full_calls: "log_full s \<Longrightarrow> log_full (run_calls cs s)"
  using full.calls.R_run by blast

lemma log_numbered:
  assumes "log_full s" and "workflowRow s wid = Some w"
  shows "numbered (events_of s wid)" and "int (length (events_of s wid)) = wf_last_event_sequence w + 1"
  using numbered_upto [OF log_full_sequences [OF assms]] assms sel_key [OF assms(2)] by (auto simp: log_full_def)

lemma later_log:
  assumes "workflowRow s wid = Some w"
  obtains w' es where "workflowRow (run_calls cs s) wid = Some w'" and "events_of (run_calls cs s) wid = events_of s wid @ es"
proof -
  from run_calls_evolves [of s cs] assms obtain w' es where "workflowRow (run_calls cs s) wid = Some w'" "ws_events (run_calls cs s) = ws_events s @ es"
    unfolding evolves_def by metis
  then show ?thesis using that by (simp add: events_of_def)
qed

text \<open>What a poll keeps.\<close>

definition streams :: "string \<Rightarrow> nat \<Rightarrow> wstore \<times> event_stream \<Rightarrow> bool" where
  "streams wid k0 x \<longleftrightarrow> log_full (fst x) \<and> workflowRow (fst x) wid \<noteq> None \<and> (\<exists>k. delivered k0 (events_of (fst x) wid) (snd x) k)"

lemma poll_delivers:
  assumes "log_full (fst x)" and "workflowRow (fst x) wid \<noteq> None" and "delivered k0 (events_of (fst x) wid) (snd x) k"
  obtains k' where "streams wid k0 (poll_stream wid p x)" and "delivered k0 (events_of (fst (poll_stream wid p x)) wid) (snd (poll_stream wid p x)) k'"
    and "es_state (snd x) = Streaming \<Longrightarrow> es_state (snd (poll_stream wid p x)) = Ended \<Longrightarrow> length (events_of (fst (poll_stream wid p x)) wid) \<le> k'"
proof -
  obtain s st0 where x: "x = (s, st0)" by (cases x)
  obtain w where w: "workflowRow s wid = Some w" using assms(2) x by auto
  define s1 where "s1 = run_calls (po_before p) s"
  define s2 where "s2 = run_calls (po_between p) s1"
  define st where "st = (if po_close p then cleanup Gone st0 else st0)"
  from later_log [OF w] obtain w1 es1 where s1: "workflowRow s1 wid = Some w1" "events_of s1 wid = events_of s wid @ es1" unfolding s1_def .
  from later_log [OF s1(1)] obtain w2 es2 where s2: "workflowRow s2 wid = Some w2" "events_of s2 wid = events_of s1 wid @ es2" unfolding s2_def .
  have full: "log_full s1" "log_full s2" using assms(1) x by (simp_all add: s1_def s2_def log_full_calls)
  have num: "numbered (events_of s1 wid)" and len: "int (length (events_of s2 wid)) = wf_last_event_sequence w2 + 1"
    using log_numbered [OF full(1) s1(1)] log_numbered [OF full(2) s2(1)] by simp_all
  have d: "delivered k0 (events_of s1 wid) st k"
    using assms(3) x s1(2) by (simp add: st_def delivered_fields delivered_later)
  define st' where "st' = (if po_fails p then st else tick (po_budget p) (listWorkflowEvents wid (es_cursor st) (Some 1000) s1) (workflowRow s2 wid) st)"
  have poll: "poll_stream wid p x = (s2, st')" by (simp add: poll_stream_def x s1_def s2_def st_def st'_def Let_def)
  have listed: "listWorkflowEvents wid (es_cursor st) (Some 1000) s1 = take 1000 (drop k (events_of s1 wid))"
    using listed_events [OF num] d by (simp add: delivered_def)
  obtain k' where k': "delivered k0 (events_of s1 wid) st' k'"
    and e: "es_state st = Streaming \<Longrightarrow> es_state st' = Ended \<Longrightarrow> wf_last_event_sequence w2 \<le> int k' - 1"
  proof (cases "po_fails p")
    case True
    then show ?thesis using d that [of k] by (simp add: st'_def)
  next
    case False
    from tick_delivers [OF num d refl, where b = "po_budget p" and rec = "workflowRow s2 wid" and m = 1000] False s2(1) show ?thesis
      using that unfolding st'_def listed by auto
  qed
  have "es_state st = Streaming" if "es_state st0 = Streaming" "es_state st' = Ended"
    using that by (auto simp: st_def st'_def cleanup_def tick_def split: if_splits)
  then have "length (events_of s2 wid) \<le> k'" if "es_state st0 = Streaming" "es_state st' = Ended"
    using e that len by fastforce
  moreover have "delivered k0 (events_of s2 wid) st' k'" using k' s2(2) by (simp add: delivered_later)
  moreover have "streams wid k0 (s2, st')" using full(2) s2(1) calculation(2) by (auto simp: streams_def)
  ultimately show ?thesis using that [of k'] x poll by simp
qed

lemma polls_deliver: "streams wid k0 x \<Longrightarrow> streams wid k0 (fold (poll_stream wid) polls x)"
proof (induction polls arbitrary: x)
  case (Cons p polls)
  from Cons(2) obtain k where "log_full (fst x)" "workflowRow (fst x) wid \<noteq> None" "delivered k0 (events_of (fst x) wid) (snd x) k"
    by (auto simp: streams_def)
  then obtain k' where "streams wid k0 (poll_stream wid p x)" using poll_delivers [of x wid k0 k p] by metis
  then show ?case using Cons(1) by simp
qed simp

lemma digits_value_pos: "list_all is_digit ds \<Longrightarrow> 0 \<le> digits_value ds"
proof -
  have "48 \<le> cunit c" if "is_digit c" for c
  proof -
    have "(48::nat) \<le> of_char c" using that by (simp add: is_digit_def less_eq_char_def)
    moreover have "cunit c = int (of_char c :: nat)" by (simp only: cunit_def of_nat_of_char)
    ultimately show ?thesis by linarith
  qed
  then have "0 \<le> n \<Longrightarrow> list_all is_digit ds \<Longrightarrow> 0 \<le> foldl (\<lambda>n c. 10 * n + (cunit c - 48)) n ds" for n :: int
    by (induction ds arbitrary: n) (auto simp: add_nonneg_nonneg)
  then show "list_all is_digit ds \<Longrightarrow> 0 \<le> digits_value ds" by (simp add: digits_value_def)
qed

lemma opened_stream:
  assumes "log_full s" and "workflowRow s wid \<noteq> None"
  shows "streams wid (nat (parseWorkflowCursor h + 1)) (s, open_stream h)"
proof -
  have "-1 \<le> parseWorkflowCursor h"
    using digits_value_pos by (auto simp: parseWorkflowCursor_def split: option.splits) (smt (verit) digits_value_pos)
  then have "delivered (nat (parseWorkflowCursor h + 1)) (events_of s wid) (open_stream h) (nat (parseWorkflowCursor h + 1))"
    by (simp add: delivered_def open_stream_def)
  with assms show ?thesis by (auto simp: streams_def)
qed

lemma delivered_frames:
  assumes "numbered log" and "delivered k0 log st k"
  shows "es_frames st = filter (\<lambda>e. int k0 \<le> we_sequence e \<and> we_sequence e \<le> es_cursor st) log"
    and "length log \<le> k \<Longrightarrow> es_frames st = filter (\<lambda>e. int k0 \<le> we_sequence e) log"
proof -
  have "(\<lambda>e. int k0 \<le> we_sequence e \<and> we_sequence e \<le> es_cursor st) = (\<lambda>e. int k0 \<le> we_sequence e \<and> we_sequence e < int k)"
    using assms(2) by (auto simp: delivered_def)
  then show *: "es_frames st = filter (\<lambda>e. int k0 \<le> we_sequence e \<and> we_sequence e \<le> es_cursor st) log"
    using filter_numbered [OF assms(1)] assms(2) by (simp add: delivered_def)
  show "es_frames st = filter (\<lambda>e. int k0 \<le> we_sequence e) log" if "length log \<le> k"
    unfolding * using assms that by (intro filter_cong) (auto simp: delivered_def numbered_def in_set_conv_nth)
qed

text \<open>A poll that nothing disturbs.\<close>

definition quiet_poll :: stream_poll where
  "quiet_poll = \<lparr>po_close = False, po_before = [], po_between = [], po_fails = False, po_budget = None\<rparr>"

lemma closed_stays: "es_state st \<noteq> Streaming \<Longrightarrow> fold (poll_stream wid) (replicate n quiet_poll) (s, st) = (s, st)"
  by (induction n) (simp_all add: poll_stream_def quiet_poll_def run_calls_def tick_def)

lemma quiet_polls_end:
  assumes "log_full s" and "workflowRow s wid = Some w" and "wf_status w \<in> set WF_TERMINAL"
  shows "delivered k0 (events_of s wid) st k \<Longrightarrow> es_state st = Streaming \<Longrightarrow> 0 < n \<Longrightarrow> length (events_of s wid) \<le> k + 1000 * n \<Longrightarrow>
    \<exists>st' k'. fold (poll_stream wid) (replicate n quiet_poll) (s, st) = (s, st') \<and> es_state st' = Ended \<and>
      delivered k0 (events_of s wid) st' k' \<and> length (events_of s wid) \<le> k'"
proof (induction n arbitrary: st k)
  case (Suc n)
  let ?log = "events_of s wid"
  define es where "es = take 1000 (drop k ?log)"
  define st1 where "st1 = tick None es (Some w) st"
  have num: "numbered ?log" and len: "int (length ?log) = wf_last_event_sequence w + 1" by (rule log_numbered [OF assms(1,2)])+
  have "listWorkflowEvents wid (es_cursor st) (Some 1000) s = es"
    using listed_events [OF num] Suc(2) by (simp add: delivered_def es_def)
  then have poll: "poll_stream wid quiet_poll (s, st) = (s, st1)"
    using assms(2) by (simp add: poll_stream_def quiet_poll_def run_calls_def st1_def)
  from tick_delivers [OF num Suc(2) es_def, where b = None and rec = "Some w" and w = w] Suc(3)
  have d: "delivered k0 ?log st1 (k + length es)" and st1: "es_state st1 = (if wf_last_event_sequence w \<le> int (k + length es) - 1 then Ended else Streaming)"
    using assms(3) unfolding st1_def by (metis (full_types))+
  show ?case
  proof (cases "length ?log \<le> k + length es")
    case True
    then have "es_state st1 = Ended" using st1 len by simp
    then show ?thesis using True d poll closed_stays [of st1 wid n s] by auto
  next
    case False
    then have "es_state st1 = Streaming" "length es = 1000" using st1 len by (auto simp: es_def)
    moreover have "0 < n" "length ?log \<le> k + length es + 1000 * n" using False calculation(2) Suc(5) by (cases n; simp)+
    ultimately show ?thesis using Suc(1) [OF d] poll by simp
  qed
qed simp

section \<open>Exactly once, and to the end\<close>

lemma streamed:
  assumes "workflowRow (run_calls cs empty_store) wid = Some w"
    and "streamWorkflowEvents wid h polls (run_calls cs empty_store) = (s, st)"
  obtains k w' where "log_full s" and "workflowRow s wid = Some w'" and "delivered (nat (parseWorkflowCursor h + 1)) (events_of s wid) st k"
proof -
  have "streams wid (nat (parseWorkflowCursor h + 1)) (s, st)"
    using polls_deliver [OF opened_stream, of "run_calls cs empty_store" wid h polls] assms log_full_calls [OF log_full_empty]
    by (simp add: streamWorkflowEvents_def)
  then show ?thesis using that by (auto simp: streams_def)
qed

lemma cursor_start: "int (nat (parseWorkflowCursor h + 1)) \<le> q \<longleftrightarrow> parseWorkflowCursor h < q"
proof -
  have "-1 \<le> parseWorkflowCursor h"
    using digits_value_pos by (force simp: parseWorkflowCursor_def split: option.splits)
  then show ?thesis by auto
qed

text \<open>C27: a stream of a workflow's events delivers exactly the events of the durable log after the
  client's cursor up to its own, each once and in order, whatever transactions run before, after and between the reads of its
  polls (pruning aside), whichever reads or writes fail; and when a poll ends the stream, every event of the log
  after the client's cursor has been delivered.\<close>

theorem event_stream_exactly_once:
  assumes "workflowRow (run_calls cs empty_store) wid = Some w"
    and "streamWorkflowEvents wid h polls (run_calls cs empty_store) = (s, st)"
  shows "es_frames st = filter (\<lambda>e. parseWorkflowCursor h < we_sequence e \<and> we_sequence e \<le> es_cursor st) (events_of s wid) \<and>
    (es_state st = Streaming \<longrightarrow> poll_stream wid p (s, st) = (s', st') \<longrightarrow> es_state st' = Ended \<longrightarrow>
      es_frames st' = filter (\<lambda>e. parseWorkflowCursor h < we_sequence e) (events_of s' wid))"
proof (intro conjI impI)
  from streamed [OF assms] obtain k w' where s: "log_full s" "workflowRow s wid = Some w'"
    and d: "delivered (nat (parseWorkflowCursor h + 1)) (events_of s wid) st k" .
  show "es_frames st = filter (\<lambda>e. parseWorkflowCursor h < we_sequence e \<and> we_sequence e \<le> es_cursor st) (events_of s wid)"
    by (rule delivered_frames(1) [OF log_numbered(1) [OF s] d, unfolded cursor_start])
  assume e: "es_state st = Streaming" "poll_stream wid p (s, st) = (s', st')" "es_state st' = Ended"
  obtain k' where k': "streams wid (nat (parseWorkflowCursor h + 1)) (s', st')"
    "delivered (nat (parseWorkflowCursor h + 1)) (events_of s' wid) st' k'" "length (events_of s' wid) \<le> k'"
    using poll_delivers [of "(s, st)" wid "nat (parseWorkflowCursor h + 1)" k p] s d e by auto
  then have "numbered (events_of s' wid)" using log_numbered(1) by (auto simp: streams_def)
  from delivered_frames(2) [OF this k'(2,3), unfolded cursor_start]
  show "es_frames st' = filter (\<lambda>e. parseWorkflowCursor h < we_sequence e) (events_of s' wid)" .
qed

text \<open>C28: a client that stays connected is served to the end: once the workflow has ended, a stream that is still open
  ends after one undisturbed poll for every thousand events, with every event after the client's cursor delivered.\<close>

theorem event_stream_ends:
  assumes "workflowRow (run_calls cs empty_store) wid = Some w"
    and "streamWorkflowEvents wid h polls (run_calls cs empty_store) = (s, st)" and "es_state st = Streaming"
    and "workflowRow s wid = Some w'" and "wf_status w' \<in> set WF_TERMINAL" and "0 < n" and "length (events_of s wid) \<le> 1000 * n"
  shows "\<exists>st'. fold (poll_stream wid) (replicate n quiet_poll) (s, st) = (s, st') \<and> es_state st' = Ended \<and>
    es_frames st' = filter (\<lambda>e. parseWorkflowCursor h < we_sequence e) (events_of s wid)"
proof -
  from streamed [OF assms(1,2)] obtain k where s: "log_full s"
    and d: "delivered (nat (parseWorkflowCursor h + 1)) (events_of s wid) st k" by metis
  from quiet_polls_end [OF s assms(4,5) d assms(3,6)] assms(7) obtain st' k' where
    st': "fold (poll_stream wid) (replicate n quiet_poll) (s, st) = (s, st')" "es_state st' = Ended"
    and d': "delivered (nat (parseWorkflowCursor h + 1)) (events_of s wid) st' k'" "length (events_of s wid) \<le> k'" by auto
  from delivered_frames(2) [OF log_numbered(1) [OF s assms(4)] d', unfolded cursor_start] st' show ?thesis by blast
qed

text \<open>A completed workflow with two events, read by a client that has the first.\<close>

definition ended_history :: "(string \<times> store_call) list" where
  "ended_history = [(sample_ts, WorkflowCall (CreateWorkflow \<lparr>cw_id = ''w'', cw_spec_version = ''1'', cw_name = ''n'',
     cw_spec = JNull, cw_status = Some WCompleted, cw_current_step_id = None, cw_current_round = None, cw_input_values = JUndef\<rparr>)),
   (sample_ts, WorkflowCall (AppendWorkflowEvent ''w'' 0 \<lparr>ed_type = EvCreated, ed_ts = sample_ts, ed_step_execution_id = None, ed_payload = JNull\<rparr>)),
   (sample_ts, WorkflowCall (AppendWorkflowEvent ''w'' 1 \<lparr>ed_type = EvCompleted, ed_ts = sample_ts, ed_step_execution_id = None, ed_payload = JNull\<rparr>))]"

lemma ended_history_store:
  "\<exists>w. workflowRow (run_calls ended_history empty_store) ''w'' = Some w \<and> wf_status w = WCompleted \<and>
     map we_sequence (events_of (run_calls ended_history empty_store) ''w'') = [0, 1]"
proof -
  have "isSafeId ''w''" "trim ''1'' \<noteq> []" "trim ''n'' \<noteq> []" "iso_utc sample_ts" by (code_simp)+
  then show ?thesis
    by (simp add: ended_history_def run_calls_def transact_def createWorkflowSync_def validateCreateWorkflow_def
        opened_def empty_store_def encode_inputs_def limit_spec_json_def sel_def appendWorkflowEventSync_def event_scope_error_def isStepScopedEvent_def
        STEP_SCOPED_EVENT_TYPES_def encodeJson_def null_if_undef_def limit_workflow_event_payload_def byteLen_def upd_def events_of_def event_row_def)
qed

lemma numbered_frames:
  "map we_sequence (filter (\<lambda>e. P (we_sequence e)) es) = filter P (map we_sequence es)"
  by (simp add: filter_map comp_def)

theorem event_stream_exactly_once_witness:
  "es_state (snd (poll_stream ''w'' quiet_poll (streamWorkflowEvents ''w'' (Some ''0'') [] (run_calls ended_history empty_store)))) = Ended \<and>
   map we_sequence (es_frames (snd (poll_stream ''w'' quiet_poll (streamWorkflowEvents ''w'' (Some ''0'') [] (run_calls ended_history empty_store))))) = [1]"
proof -
  let ?s = "run_calls ended_history empty_store"
  obtain w where w: "workflowRow ?s ''w'' = Some w" "wf_status w = WCompleted" and es: "map we_sequence (events_of ?s ''w'') = [0, 1]"
    using ended_history_store by (elim exE conjE) (rule that)
  have c: "parseWorkflowCursor (Some ''0'') = 0" by code_simp
  have o: "streamWorkflowEvents ''w'' (Some ''0'') [] ?s = (?s, open_stream (Some ''0''))" "es_state (open_stream (Some ''0'')) = Streaming"
    by (simp_all add: streamWorkflowEvents_def open_stream_def)
  obtain s' st' where p: "poll_stream ''w'' quiet_poll (?s, open_stream (Some ''0'')) = (s', st')" by (meson surj_pair)
  have f: "fold (poll_stream ''w'') (replicate 1 quiet_poll) (?s, open_stream (Some ''0'')) = (s', st')" using p by simp
  have "length (events_of ?s ''w'') = 2" using arg_cong [OF es, of length] by simp
  then have e: "s' = ?s" "es_state st' = Ended"
    using quiet_polls_end [OF log_full_calls [OF log_full_empty] w(1), of 1 "open_stream (Some ''0'')" 1 1] w(2) f o(2)
    by (auto simp: WF_TERMINAL_def delivered_def open_stream_def c)
  have "es_frames st' = filter (\<lambda>e. 0 < we_sequence e) (events_of ?s ''w'')"
    using event_stream_exactly_once [OF w(1) o(1), of quiet_poll s' st'] o(2) p e by (simp add: c)
  then have "map we_sequence (es_frames st') = filter (\<lambda>q. 0 < q) (map we_sequence (events_of ?s ''w''))"
    by (simp only: numbered_frames)
  then show ?thesis using p e o(1) by (simp add: es)
qed

theorem event_stream_ends_witness:
  "\<exists>s st'. fold (poll_stream ''w'') (replicate 1 quiet_poll) (streamWorkflowEvents ''w'' None [] (run_calls ended_history empty_store)) = (s, st') \<and>
     es_state st' = Ended \<and> map we_sequence (es_frames st') = [0, 1]"
proof -
  let ?s = "run_calls ended_history empty_store"
  obtain w where w: "workflowRow ?s ''w'' = Some w" "wf_status w = WCompleted" and es: "map we_sequence (events_of ?s ''w'') = [0, 1]"
    using ended_history_store by (elim exE conjE) (rule that)
  have o: "streamWorkflowEvents ''w'' None [] ?s = (?s, open_stream None)" "es_state (open_stream None) = Streaming"
    by (simp_all add: streamWorkflowEvents_def open_stream_def)
  have "length (events_of ?s ''w'') = 2" using arg_cong [OF es, of length] by simp
  then obtain st' where st': "fold (poll_stream ''w'') (replicate 1 quiet_poll) (?s, open_stream None) = (?s, st')" "es_state st' = Ended"
    "es_frames st' = filter (\<lambda>e. parseWorkflowCursor None < we_sequence e) (events_of ?s ''w'')"
    using event_stream_ends [OF w(1) o w(1), of 1] w(2) by (auto simp: WF_TERMINAL_def)
  then have "map we_sequence (es_frames st') = filter (\<lambda>q. parseWorkflowCursor None < q) (map we_sequence (events_of ?s ''w''))"
    by (simp only: numbered_frames)
  then show ?thesis unfolding o(1) using st' by (simp add: es parseWorkflowCursor_def)
qed

end
